(* ===== verification/Prelude.thy ===== *)
theory Prelude
  imports Main "HOL-Library.Word" "HOL-Library.Char_ord" "HOL-Library.List_Lexorder"
begin

unbundle bit_operations_syntax

text \<open>
  Shared vocabulary of the development: the outcome of fallible Rust code, the
  state-passing combinators that stand for the question-mark operator, the
  machine-integer and \<open>std::time::Duration\<close> arithmetic the sources use, and the
  string and path operations of the standard library.

  \<^item> A Rust function that returns \<open>Result<T, E>\<close> and may also hit an
    \<open>expect\<close> or \<open>unwrap\<close> is a function into \<open>('e, 'a) outcome\<close>.
  \<^item> Code with effects maps a state to an outcome and the new state;
    \<open>try_io m f\<close> is \<open>let x = m?; f(x)\<close>, and \<open>seq_io m f\<close> hands the result itself
    to \<open>f\<close>, as a \<open>match\<close> does. \<open>wp m Q s\<close> says that the result and the final state of
    running \<open>m\<close> from \<open>s\<close> satisfy \<open>Q\<close>; its rules carry the proofs about effectful code.
  \<^item> A \<open>Duration\<close> is its number of nanoseconds; the upper bound of the type
    (\<open>u64\<close> seconds and 999999999 nanoseconds) is explicit in every addition.
  \<^item> A string is the list of its code points below 256, a path the list of its
    normal components below the file system root.
\<close>

section \<open>Outcomes and sequencing\<close>

datatype ('e, 'a) outcome = Ok 'a | Err 'e | Panic

definition is_ok :: "('e, 'a) outcome \<Rightarrow> bool" where
  "is_ok r = (case r of Ok _ \<Rightarrow> True | _ \<Rightarrow> False)"

definition bind_ok :: "('e, 'a) outcome \<Rightarrow> ('a \<Rightarrow> ('e, 'b) outcome) \<Rightarrow> ('e, 'b) outcome" where
  "bind_ok r f = (case r of Ok x \<Rightarrow> f x | Err e \<Rightarrow> Err e | Panic \<Rightarrow> Panic)"

definition map_err :: "('e \<Rightarrow> 'f) \<Rightarrow> ('e, 'a) outcome \<Rightarrow> ('f, 'a) outcome" where
  "map_err g r = (case r of Ok x \<Rightarrow> Ok x | Err e \<Rightarrow> Err (g e) | Panic \<Rightarrow> Panic)"

definition ok_or :: "'e \<Rightarrow> 'a option \<Rightarrow> ('e, 'a) outcome" where
  "ok_or e v = (case v of None \<Rightarrow> Err e | Some x \<Rightarrow> Ok x)"

definition expect :: "'a option \<Rightarrow> ('e, 'a) outcome" where
  "expect v = (case v of None \<Rightarrow> Panic | Some x \<Rightarrow> Ok x)"

definition expect_ok :: "('f, 'a) outcome \<Rightarrow> ('e, 'a) outcome" where
  "expect_ok r = (case r of Ok x \<Rightarrow> Ok x | Err _ \<Rightarrow> Panic | Panic \<Rightarrow> Panic)"

type_synonym ('s, 'e, 'a) io = "'s \<Rightarrow> ('e, 'a) outcome \<times> 's"

definition seq_io :: "('s \<Rightarrow> 'a \<times> 's) \<Rightarrow> ('a \<Rightarrow> 's \<Rightarrow> 'b \<times> 's) \<Rightarrow> 's \<Rightarrow> 'b \<times> 's" where
  "seq_io m f s = (case m s of (x, s') \<Rightarrow> f x s')"

definition try_io :: "('s, 'e, 'a) io \<Rightarrow> ('a \<Rightarrow> ('s, 'e, 'b) io) \<Rightarrow> ('s, 'e, 'b) io" where
  "try_io m f s =
     (case m s of
        (Ok x, s') \<Rightarrow> f x s'
      | (Err e, s') \<Rightarrow> (Err e, s')
      | (Panic, s') \<Rightarrow> (Panic, s'))"

definition return_io :: "'a \<Rightarrow> 's \<Rightarrow> 'a \<times> 's" where
  "return_io x s = (x, s)"

text \<open>\<open>m.err()\<close>, \<open>matches!(m, \<dots>)\<close> and \<open>match m\<close>: the result becomes a value; a panic stays one.\<close>

definition catch_io :: "('s, 'e, 'a) io \<Rightarrow> ('s, 'f, 'e + 'a) io" where
  "catch_io m s =
     (case m s of
        (Ok x, s') \<Rightarrow> (Ok (Inr x), s')
      | (Err e, s') \<Rightarrow> (Ok (Inl e), s')
      | (Panic, s') \<Rightarrow> (Panic, s'))"

definition err_of :: "'e + 'a \<Rightarrow> 'e option" where
  "err_of r = (case r of Inl e \<Rightarrow> Some e | Inr _ \<Rightarrow> None)"

text \<open>Code that cannot fail but may change the state.\<close>

definition lift_io :: "('s \<Rightarrow> 'a \<times> 's) \<Rightarrow> ('s, 'e, 'a) io" where
  "lift_io m s = (case m s of (x, s') \<Rightarrow> (Ok x, s'))"

definition modify_io :: "('s \<Rightarrow> 's) \<Rightarrow> ('s, 'e, unit) io" where
  "modify_io f s = (Ok (), f s)"

definition wp :: "('s \<Rightarrow> 'a \<times> 's) \<Rightarrow> ('a \<Rightarrow> 's \<Rightarrow> bool) \<Rightarrow> 's \<Rightarrow> bool" where
  "wp m Q s = (case m s of (x, s') \<Rightarrow> Q x s')"

definition map_err_io :: "('e \<Rightarrow> 'f) \<Rightarrow> ('s, 'e, 'a) io \<Rightarrow> ('s, 'f, 'a) io" where
  "map_err_io g m s = (case m s of (r, s') \<Rightarrow> (map_err g r, s'))"

fun map_ok :: "('a \<Rightarrow> ('e, 'b) outcome) \<Rightarrow> 'a list \<Rightarrow> ('e, 'b list) outcome" where
  "map_ok f [] = Ok []"
| "map_ok f (x # xs) = bind_ok (f x) (\<lambda>y. bind_ok (map_ok f xs) (\<lambda>ys. Ok (y # ys)))"

named_theorems outcome_simps
  \<open>unfolding rules of the outcome combinators\<close>

named_theorems io_simps
  \<open>unfolding rules of the state-passing combinators\<close>

lemma outcome_combinators [outcome_simps, simp]:
  "is_ok (Ok x) = True" "is_ok (Err e) = False" "is_ok Panic = False"
  "bind_ok (Ok x) f = f x" "bind_ok (Err e) f = Err e" "bind_ok Panic f = Panic"
  "map_err g (Ok x) = Ok x" "map_err g (Err e) = Err (g e)" "map_err g Panic = Panic"
  "ok_or e None = Err e" "ok_or e (Some x) = Ok x"
  "expect None = Panic" "expect (Some x) = Ok x"
  "expect_ok (Ok x) = Ok x" "expect_ok (Err h) = Panic" "expect_ok Panic = Panic"
  by (simp_all add: is_ok_def bind_ok_def map_err_def ok_or_def expect_def expect_ok_def)

lemma bind_ok_eq_Ok: "bind_ok r f = Ok y \<longleftrightarrow> (\<exists>x. r = Ok x \<and> f x = Ok y)"
  by (cases r) auto

lemma bind_ok_eq_Panic:
  "bind_ok r f = Panic \<longleftrightarrow> r = Panic \<or> (\<exists>x. r = Ok x \<and> f x = Panic)"
  by (cases r) auto

lemma bind_ok_eq_Err:
  "bind_ok r f = Err e \<longleftrightarrow> r = Err e \<or> (\<exists>x. r = Ok x \<and> f x = Err e)"
  by (cases r) auto

lemma map_err_eq_Ok [simp]: "map_err g r = Ok x \<longleftrightarrow> r = Ok x"
  by (cases r) auto

lemma map_err_eq_Panic [simp]: "map_err g r = Panic \<longleftrightarrow> r = Panic"
  by (cases r) auto

lemma expect_ok_eq_Ok [simp]: "expect_ok r = Ok x \<longleftrightarrow> r = Ok x"
  by (cases r) auto

lemma ok_or_eq_Ok [simp]: "ok_or e v = Ok x \<longleftrightarrow> v = Some x"
  by (cases v) auto

lemma map_ok_total: "(\<And>x. x \<in> set xs \<Longrightarrow> f x = Ok (g x)) \<Longrightarrow> map_ok f xs = Ok (map g xs)"
  by (induction xs) auto

lemma wp_return [io_simps]: "wp (return_io x) Q s = Q x s"
  by (simp add: wp_def return_io_def)

lemma wp_seq_io [io_simps]: "wp (seq_io m f) Q s = wp m (\<lambda>x. wp (f x) Q) s"
  by (simp add: wp_def seq_io_def split: prod.splits)

lemma wp_try_io [io_simps]:
  "wp (try_io m f) Q s =
     wp m (\<lambda>r s'. case r of Ok x \<Rightarrow> wp (f x) Q s' | Err e \<Rightarrow> Q (Err e) s' | Panic \<Rightarrow> Q Panic s') s"
  by (auto simp: wp_def try_io_def split: prod.splits outcome.splits)

lemma wp_map_err_io [io_simps]: "wp (map_err_io g m) Q s = wp m (\<lambda>r. Q (map_err g r)) s"
  by (auto simp: wp_def map_err_io_def split: prod.splits)

lemma wp_catch_io [io_simps]:
  "wp (catch_io m) Q s =
     wp m (\<lambda>r s'. case r of Ok x \<Rightarrow> Q (Ok (Inr x)) s' | Err e \<Rightarrow> Q (Ok (Inl e)) s' | Panic \<Rightarrow> Q Panic s') s"
  by (auto simp: wp_def catch_io_def split: prod.splits outcome.splits)

lemma wp_lift_io [io_simps]: "wp (lift_io m) Q s = wp m (\<lambda>x. Q (Ok x)) s"
  by (auto simp: wp_def lift_io_def split: prod.splits)

lemma wp_modify_io [io_simps]: "wp (modify_io h) Q s = Q (Ok ()) (h s)"
  by (simp add: wp_def modify_io_def)

lemma try_io_known [simp]:
  "try_io (return_io (Ok x)) f = f x"
  "try_io (return_io (Err e)) f = return_io (Err e)"
  "try_io (return_io Panic) f = return_io Panic"
  "try_io (modify_io h) f' s = f' () (h s)"
  by (auto simp: try_io_def return_io_def modify_io_def)

lemma wp_mono: "wp m Q s \<Longrightarrow> (\<And>x s'. Q x s' \<Longrightarrow> Q' x s') \<Longrightarrow> wp m Q' s"
  by (auto simp: wp_def)

lemma wp_conj: "wp m Q s \<Longrightarrow> wp m Q' s \<Longrightarrow> wp m (\<lambda>x s'. Q x s' \<and> Q' x s') s"
  by (auto simp: wp_def)

lemma wp_try:
  assumes "wp m R s" "\<And>x s'. R (Ok x) s' \<Longrightarrow> wp (f x) Q s'"
    "\<And>e s'. R (Err e) s' \<Longrightarrow> Q (Err e) s'" "\<And>s'. R Panic s' \<Longrightarrow> Q Panic s'"
  shows "wp (try_io m f) Q s"
  unfolding wp_try_io
  by (rule wp_mono [OF assms(1)]) (auto intro: assms(2-) split: outcome.splits)

lemma wp_seq: "wp m R s \<Longrightarrow> (\<And>x s'. R x s' \<Longrightarrow> wp (f x) Q s') \<Longrightarrow> wp (seq_io m f) Q s"
  unfolding wp_seq_io by (rule wp_mono)

lemma wp_catch:
  "wp m R s \<Longrightarrow> wp (catch_io m) (\<lambda>r s'. case r of Ok (Inr x) \<Rightarrow> R (Ok x) s' | Ok (Inl e) \<Rightarrow> R (Err e) s'
     | Err _ \<Rightarrow> False | Panic \<Rightarrow> R Panic s') s"
  unfolding wp_catch_io by (erule wp_mono) (auto split: outcome.splits)

text \<open>What holds of every successful result is decided by the last part.\<close>

lemma wp_try_final:
  assumes "\<And>x s'. wp (f x) (\<lambda>r s''. \<forall>y. r = Ok y \<longrightarrow> Q y s'') s'"
  shows "wp (try_io m f) (\<lambda>r s'. \<forall>y. r = Ok y \<longrightarrow> Q y s') s"
  using assms unfolding wp_try_io by (auto simp: wp_def split: prod.splits outcome.splits)

text \<open>Sequencing along a transitive relation between the states before and after.\<close>

lemma wp_try_rel:
  assumes "transp R" "wp m (\<lambda>_. R w) w" "\<And>x w1. R w w1 \<Longrightarrow> wp (f x) (\<lambda>_. R w1) w1"
  shows "wp (try_io m f) (\<lambda>_. R w) w"
  by (rule wp_try [OF assms(2)]) (auto intro: wp_mono [OF assms(3)] transpD [OF assms(1)])

lemma wp_catch_rel: "wp m (\<lambda>_. R w) w \<Longrightarrow> wp (catch_io m) (\<lambda>_. R w) w"
  unfolding wp_catch_io by (erule wp_mono) (auto split: outcome.splits)

text \<open>Code on the second component of a pair, such as a \<open>&mut self\<close> object beside the world.\<close>

definition on_snd :: "('s, 'e, 'a) io \<Rightarrow> ('g \<times> 's, 'e, 'a) io" where
  "on_snd m gs = (case gs of (g, s) \<Rightarrow> (case m s of (r, s') \<Rightarrow> (r, (g, s'))))"

definition get_fst :: "('g \<times> 's, 'e, 'g) io" where
  "get_fst gs = (Ok (fst gs), gs)"

definition modify_fst :: "('g \<Rightarrow> 'g) \<Rightarrow> ('g \<times> 's, 'e, unit) io" where
  "modify_fst f gs = (Ok (), (f (fst gs), snd gs))"

lemma wp_on_snd [io_simps]: "wp (on_snd m) Q gs = wp m (\<lambda>r s'. Q r (fst gs, s')) (snd gs)"
  by (cases gs) (simp add: wp_def on_snd_def split: prod.splits)

lemma wp_get_fst [io_simps]: "wp get_fst Q gs = Q (Ok (fst gs)) gs"
  by (simp add: wp_def get_fst_def)

lemma wp_modify_fst [io_simps]: "wp (modify_fst f) Q gs = Q (Ok ()) (f (fst gs), snd gs)"
  by (simp add: wp_def modify_fst_def)

lemma wp_eqD: "wp m Q s \<Longrightarrow> m s = (x, s') \<Longrightarrow> Q x s'"
  by (simp add: wp_def)

text \<open>Inversion of a sequence that returned \<open>Ok\<close>: its first part did.\<close>

lemma try_io_Ok [simp]:
  "try_io m f s = (Ok y, s') \<longleftrightarrow> (\<exists>x s1. m s = (Ok x, s1) \<and> f x s1 = (Ok y, s'))"
  by (auto simp: try_io_def split: prod.splits outcome.splits)

lemma map_err_io_Ok [simp]: "map_err_io g m s = (Ok y, s') \<longleftrightarrow> m s = (Ok y, s')"
  by (auto simp: map_err_io_def split: prod.splits)

lemma return_io_eq [simp]: "return_io x s = (y, s') \<longleftrightarrow> y = x \<and> s' = s"
  by (auto simp: return_io_def)

section \<open>Machine integers\<close>

type_synonym u8 = "8 word"
type_synonym u16 = "16 word"
type_synonym u32 = "32 word"
type_synonym u64 = "64 word"

lemma unat_upcast:
  fixes x :: "'a::len word"
  assumes "LENGTH('a) \<le> LENGTH('b::len)"
  shows "unat (ucast x :: 'b word) = unat x"
proof -
  have "unat x < 2 ^ LENGTH('a)" by (rule unsigned_less)
  also have "\<dots> \<le> (2::nat) ^ LENGTH('b)" using assms by (intro power_increasing) auto
  finally show ?thesis by (simp add: unsigned_ucast_eq take_bit_nat_eq_self)
qed

lemma unat_bounds: "unat (a :: u8) < 256" "unat (b :: u16) < 65536" "unat (c :: u32) < 4294967296"
  using unsigned_less [of a, where 'a = nat] unsigned_less [of b, where 'a = nat]
    unsigned_less [of c, where 'a = nat] by simp_all

definition word_checked_add :: "'a::len word \<Rightarrow> 'a word \<Rightarrow> 'a word option" where
  "word_checked_add a b = (if unat a + unat b < 2 ^ LENGTH('a) then Some (a + b) else None)"

lemma word_checked_add_Some:
  "word_checked_add a b = Some c \<longleftrightarrow> unat a + unat b < 2 ^ LENGTH('a) \<and> c = a + b"
  for a b c :: "'a::len word"
  by (auto simp: word_checked_add_def)

lemma unat_word_checked_add:
  "word_checked_add a b = Some c \<Longrightarrow> unat c = unat a + unat b"
  for a b c :: "'a::len word"
  by (auto simp: word_checked_add_Some unat_word_ariths)

section \<open>Durations\<close>

type_synonym duration = nat

definition duration_max :: duration where
  "duration_max = 2 ^ 64 * 1000000000 - 1"

definition from_secs :: "nat \<Rightarrow> duration" where
  "from_secs s = s * 1000000000"

definition from_millis :: "nat \<Rightarrow> duration" where
  "from_millis m = m * 1000000"

definition duration_checked_add :: "duration \<Rightarrow> duration \<Rightarrow> duration option" where
  "duration_checked_add a b = (if a + b \<le> duration_max then Some (a + b) else None)"

definition duration_saturating_add :: "duration \<Rightarrow> duration \<Rightarrow> duration" where
  "duration_saturating_add a b = min (a + b) duration_max"

definition duration_checked_sub :: "duration \<Rightarrow> duration \<Rightarrow> duration option" where
  "duration_checked_sub a b = (if b \<le> a then Some (a - b) else None)"

definition duration_saturating_sub :: "duration \<Rightarrow> duration \<Rightarrow> duration" where
  "duration_saturating_sub a b = a - b"

lemma duration_checked_add_Some [simp]:
  "duration_checked_add a b = Some c \<longleftrightarrow> a + b \<le> duration_max \<and> c = a + b"
  by (auto simp: duration_checked_add_def)

lemma duration_checked_sub_Some [simp]:
  "duration_checked_sub a b = Some c \<longleftrightarrow> b \<le> a \<and> c = a - b"
  by (auto simp: duration_checked_sub_def)

lemma duration_saturating_add_ge:
  "a \<le> duration_max \<Longrightarrow> a \<le> duration_saturating_add a b"
  by (simp add: duration_saturating_add_def)

lemma duration_saturating_add_le: "duration_saturating_add a b \<le> a + b"
  by (simp add: duration_saturating_add_def)

section \<open>Strings\<close>

text \<open>The white-space code points below 256, as \<open>char::is_whitespace\<close> has them.\<close>

definition is_white :: "char \<Rightarrow> bool" where
  "is_white c = (of_char c \<in> {9, 10, 11, 12, 13, 32, 133, 160 :: nat})"

definition trim :: "string \<Rightarrow> string" where
  "trim s = rev (dropWhile is_white (rev (dropWhile is_white s)))"

definition is_ascii_digit :: "char \<Rightarrow> bool" where
  "is_ascii_digit c = (48 \<le> (of_char c :: nat) \<and> (of_char c :: nat) \<le> 57)"

definition digit_char :: "nat \<Rightarrow> char" where
  "digit_char d = char_of (48 + d mod 10)"

definition digit_value :: "char \<Rightarrow> nat" where
  "digit_value c = of_char c - 48"

text \<open>\<open>to_string\<close> of an unsigned integer.\<close>

fun dec_string :: "nat \<Rightarrow> string" where
  "dec_string n = (if n < 10 then [digit_char n] else dec_string (n div 10) @ [digit_char n])"

declare dec_string.simps [simp del]

definition dec_value :: "string \<Rightarrow> nat" where
  "dec_value s = foldl (\<lambda>acc c. acc * 10 + digit_value c) 0 s"

text \<open>
  \<open>str::parse\<close> for an unsigned integer of \<open>w\<close> bits: an optional plus sign, then at least
  one ASCII digit and nothing else, with a value that fits.
\<close>

definition parse_unsigned :: "nat \<Rightarrow> string \<Rightarrow> nat option" where
  "parse_unsigned w s =
     (let digits = (case s of c # rest \<Rightarrow> if c = CHR ''+'' then rest else s | [] \<Rightarrow> [])
      in if digits \<noteq> [] \<and> list_all is_ascii_digit digits \<and> dec_value digits < 2 ^ w
         then Some (dec_value digits) else None)"

lemma of_char_digit_char: "of_char (digit_char d) = (48 + d mod 10 :: nat)"
proof -
  have "48 + d mod 10 < (256::nat)"
    by (rule order.strict_trans [of _ "48 + 10"]) auto
  then show ?thesis by (simp add: digit_char_def)
qed

lemma digit_char_facts [simp]:
  "is_ascii_digit (digit_char d)" "digit_value (digit_char d) = d mod 10"
  "\<not> is_white (digit_char d)" "digit_char d \<noteq> CHR ''+''"
proof -
  have bound: "d mod 10 < 10" by simp
  show "is_ascii_digit (digit_char d)"
    using bound by (simp add: is_ascii_digit_def of_char_digit_char)
  show "digit_value (digit_char d) = d mod 10"
    by (simp add: digit_value_def of_char_digit_char)
  show "\<not> is_white (digit_char d)"
    using bound by (auto simp add: is_white_def of_char_digit_char)
  show "digit_char d \<noteq> CHR ''+''"
  proof
    assume "digit_char d = CHR ''+''"
    then have "of_char (digit_char d) = (of_char (CHR ''+'') :: nat)" by simp
    then show False by (simp add: of_char_digit_char)
  qed
qed

lemma dec_string_set: "c \<in> set (dec_string n) \<Longrightarrow> \<exists>d. c = digit_char d"
proof (induction n rule: dec_string.induct)
  case (1 n)
  then show ?case
    by (subst (asm) (2) dec_string.simps) (auto split: if_splits)
qed

lemma dec_string_not_Nil [simp]: "dec_string n \<noteq> []"
  by (subst dec_string.simps) simp

lemma dec_value_dec_string [simp]: "dec_value (dec_string n) = n"
proof (induction n rule: dec_string.induct)
  case (1 n)
  then show ?case
    by (cases "n < 10") (simp_all add: dec_value_def dec_string.simps [of n])
qed

lemma trim_no_white: "\<forall>c \<in> set s. \<not> is_white c \<Longrightarrow> trim s = s"
proof -
  assume a: "\<forall>c \<in> set s. \<not> is_white c"
  have id: "dropWhile is_white t = t" if "\<forall>c \<in> set t. \<not> is_white c" for t
    using that by (cases t) auto
  from a id [of s] id [of "rev s"] show ?thesis by (simp add: trim_def)
qed

lemma trim_dec_string [simp]: "trim (dec_string n) = dec_string n"
  by (rule trim_no_white) (metis dec_string_set digit_char_facts(3))

lemma parse_dec_string: "n < 2 ^ w \<Longrightarrow> parse_unsigned w (dec_string n) = Some n"
proof -
  assume n: "n < 2 ^ w"
  obtain c rest where cr: "dec_string n = c # rest"
    by (cases "dec_string n") auto
  have "c \<noteq> CHR ''+''"
    using dec_string_set [of c n] cr by auto
  moreover have "list_all is_ascii_digit (dec_string n)"
    unfolding list_all_iff using dec_string_set [of _ n] by (metis digit_char_facts(1))
  ultimately show ?thesis
    using n cr dec_value_dec_string [of n] by (simp add: parse_unsigned_def)
qed

lemma dec_string_inject [simp]: "dec_string m = dec_string n \<longleftrightarrow> m = n"
  by (metis dec_value_dec_string)

section \<open>Paths\<close>

type_synonym path = "string list"

definition join :: "path \<Rightarrow> string \<Rightarrow> path" where
  "join dir child = dir @ [child]"

definition parent :: "path \<Rightarrow> path option" where
  "parent p = (if p = [] then None else Some (butlast p))"

definition file_name :: "path \<Rightarrow> string option" where
  "file_name p = (if p = [] then None else Some (last p))"

definition starts_with_path :: "path \<Rightarrow> path \<Rightarrow> bool" where
  "starts_with_path p q = (take (length q) p = q)"

definition display_path :: "path \<Rightarrow> string" where
  "display_path p = (if p = [] then ''/'' else concat (map (\<lambda>c. CHR ''/'' # c) p))"

lemma join_facts [simp]:
  "parent (join d c) = Some d" "file_name (join d c) = Some c"
  "join d c = join d c' \<longleftrightarrow> c = c'"
  by (simp_all add: join_def parent_def file_name_def)

section \<open>Windows of two\<close>

text \<open>\<open>slice.windows(2)\<close>: the adjacent pairs of a list.\<close>

fun windows2 :: "'a list \<Rightarrow> ('a \<times> 'a) list" where
  "windows2 (x # y # ys) = (x, y) # windows2 (y # ys)"
| "windows2 _ = []"

lemma windows2_append:
  "xs \<noteq> [] \<Longrightarrow> windows2 (xs @ [y]) = windows2 xs @ [(last xs, y)]"
  by (induction xs rule: windows2.induct) auto

lemma windows2_set: "(x, y) \<in> set (windows2 xs) \<Longrightarrow> x \<in> set xs \<and> y \<in> set xs"
  by (induction xs rule: windows2.induct) auto

lemma windows2_sorted_wrt:
  assumes "transp R"
  shows "(\<forall>(x, y) \<in> set (windows2 xs). R x y) \<longleftrightarrow> sorted_wrt R xs"
proof (induction xs rule: windows2.induct)
  case (1 x y ys)
  then show ?case using assms by (auto dest: transpD)
qed auto

lemma windows2_last: "2 \<le> length xs \<Longrightarrow> \<exists>x. (x, last xs) \<in> set (windows2 xs)"
proof (induction xs rule: windows2.induct)
  case (1 x y ys)
  then show ?case by (cases ys) auto
qed auto

lemma windows2_map: "windows2 (map f xs) = map (map_prod f f) (windows2 xs)"
  by (induction xs rule: windows2.induct) auto

end
