(* ===== verification/F64.thy ===== *)
theory F64
  imports Prelude Complex_Main "HOL-Library.Log_Nat"
begin

text \<open>
  IEEE 754 binary64, the \<open>f64\<close> of the sources. A finite value is the rational number it
  denotes; every arithmetic operation computes the exact rational result and rounds it to
  53 significant bits (ties to even, gradual underflow at \<open>2 ^ -1074\<close>), overflowing to an
  infinity at \<open>2 ^ 1024\<close>. The two zeros are one value: no operation of the modelled code
  divides by a zero or reads a sign bit. Comparisons with \<open>NaN\<close> are false.

  The lemmas give what the fan policy relies on: rounding is monotone, leaves integers
  below \<open>2 ^ 53\<close> alone, and never takes a result across a representable bound.
\<close>

section \<open>Rounding\<close>

definition round_even :: "rat \<Rightarrow> int" where
  "round_even q =
     (let f = \<lfloor>q\<rfloor>; r = q - of_int f
      in if r < 1 / 2 then f else if 1 / 2 < r then f + 1 else if even f then f else f + 1)"

definition binade :: "rat \<Rightarrow> int" where
  "binade q =
     (let (n, d) = quotient_of q; e = bitlen n - bitlen d
      in if 2 powi e \<le> q then e else e - 1)"

definition quantum :: "rat \<Rightarrow> rat" where
  "quantum q = 2 powi (max (binade \<bar>q\<bar> - 52) (- 1074))"

definition round_rat :: "rat \<Rightarrow> rat" where
  "round_rat q = (if q = 0 then 0 else of_int (round_even (q / quantum q)) * quantum q)"

section \<open>Values and operations\<close>

datatype f64 = Fin rat | PInf | NInf | NaN

definition f64_limit :: rat where
  "f64_limit = 2 ^ 1024"

definition f64_round :: "rat \<Rightarrow> f64" where
  "f64_round q =
     (let r = round_rat q
      in if f64_limit \<le> r then PInf else if r \<le> - f64_limit then NInf else Fin r)"

definition is_finite :: "f64 \<Rightarrow> bool" where
  "is_finite x = (case x of Fin _ \<Rightarrow> True | _ \<Rightarrow> False)"

fun f64_less :: "f64 \<Rightarrow> f64 \<Rightarrow> bool" where
  "f64_less (Fin a) (Fin b) = (a < b)"
| "f64_less NaN _ = False"
| "f64_less _ NaN = False"
| "f64_less NInf b = (b \<noteq> NInf)"
| "f64_less a PInf = (a \<noteq> PInf)"
| "f64_less _ _ = False"

fun f64_eq :: "f64 \<Rightarrow> f64 \<Rightarrow> bool" where
  "f64_eq NaN _ = False"
| "f64_eq a b = (a = b)"

definition f64_le :: "f64 \<Rightarrow> f64 \<Rightarrow> bool" where
  "f64_le a b = (f64_less a b \<or> f64_eq a b)"

fun f64_neg :: "f64 \<Rightarrow> f64" where
  "f64_neg (Fin a) = Fin (- a)"
| "f64_neg PInf = NInf"
| "f64_neg NInf = PInf"
| "f64_neg NaN = NaN"

fun f64_add :: "f64 \<Rightarrow> f64 \<Rightarrow> f64" where
  "f64_add (Fin a) (Fin b) = f64_round (a + b)"
| "f64_add NaN _ = NaN"
| "f64_add _ NaN = NaN"
| "f64_add PInf NInf = NaN"
| "f64_add NInf PInf = NaN"
| "f64_add PInf _ = PInf"
| "f64_add _ PInf = PInf"
| "f64_add NInf _ = NInf"
| "f64_add _ NInf = NInf"

definition f64_sub :: "f64 \<Rightarrow> f64 \<Rightarrow> f64" where
  "f64_sub a b = f64_add a (f64_neg b)"

definition signed_inf :: "rat \<Rightarrow> f64" where
  "signed_inf s = (if 0 < s then PInf else if s < 0 then NInf else NaN)"

fun f64_sgn :: "f64 \<Rightarrow> rat" where
  "f64_sgn (Fin a) = sgn a"
| "f64_sgn PInf = 1"
| "f64_sgn NInf = - 1"
| "f64_sgn NaN = 0"

fun f64_mul :: "f64 \<Rightarrow> f64 \<Rightarrow> f64" where
  "f64_mul (Fin a) (Fin b) = f64_round (a * b)"
| "f64_mul NaN _ = NaN"
| "f64_mul _ NaN = NaN"
| "f64_mul a b = signed_inf (f64_sgn a * f64_sgn b)"

fun f64_div :: "f64 \<Rightarrow> f64 \<Rightarrow> f64" where
  "f64_div (Fin a) (Fin b) = (if b = 0 then signed_inf a else f64_round (a / b))"
| "f64_div NaN _ = NaN"
| "f64_div _ NaN = NaN"
| "f64_div (Fin a) _ = Fin 0"
| "f64_div a (Fin b) = signed_inf (f64_sgn a * (if b < 0 then - 1 else 1))"
| "f64_div _ _ = NaN"

fun f64_abs :: "f64 \<Rightarrow> f64" where
  "f64_abs (Fin a) = Fin \<bar>a\<bar>"
| "f64_abs NaN = NaN"
| "f64_abs _ = PInf"

text \<open>\<open>f64::max\<close> and \<open>f64::min\<close> return the other argument when one is \<open>NaN\<close>.\<close>

definition f64_max :: "f64 \<Rightarrow> f64 \<Rightarrow> f64" where
  "f64_max a b = (if a = NaN then b else if b = NaN then a else if f64_less a b then b else a)"

definition f64_min :: "f64 \<Rightarrow> f64 \<Rightarrow> f64" where
  "f64_min a b = (if a = NaN then b else if b = NaN then a else if f64_less b a then b else a)"

text \<open>\<open>f64::clamp\<close> panics unless the bounds are ordered.\<close>

definition f64_clamp :: "f64 \<Rightarrow> f64 \<Rightarrow> f64 \<Rightarrow> ('e, f64) outcome" where
  "f64_clamp x lo hi =
     (if \<not> f64_le lo hi then Panic
      else Ok (if f64_less x lo then lo else if f64_less hi x then hi else x))"

fun f64_ceil :: "f64 \<Rightarrow> f64" where
  "f64_ceil (Fin a) = Fin (of_int \<lceil>a\<rceil>)"
| "f64_ceil x = x"

definition trunc_rat :: "rat \<Rightarrow> int" where
  "trunc_rat q = (if 0 \<le> q then \<lfloor>q\<rfloor> else \<lceil>q\<rceil>)"

text \<open>The saturating cast \<open>x as uN\<close>.\<close>

fun f64_to_unsigned :: "f64 \<Rightarrow> 'a::len word" where
  "f64_to_unsigned (Fin a) =
     (if trunc_rat a \<le> 0 then 0
      else if 2 ^ LENGTH('a) - 1 \<le> trunc_rat a then - 1
      else word_of_int (trunc_rat a))"
| "f64_to_unsigned PInf = - 1"
| "f64_to_unsigned NInf = 0"
| "f64_to_unsigned NaN = 0"

text \<open>The cast \<open>n as f64\<close> of an integer.\<close>

definition f64_of_int :: "int \<Rightarrow> f64" where
  "f64_of_int n = f64_round (of_int n)"

text \<open>\<open>Duration::as_secs_f64\<close>.\<close>

definition as_secs_f64 :: "duration \<Rightarrow> f64" where
  "as_secs_f64 d =
     f64_add (f64_of_int (int (d div 1000000000)))
       (f64_div (f64_of_int (int (d mod 1000000000))) (Fin 1000000000))"

lemma f64_limit_code [code]:
  "f64_limit =
     of_int (let a = 2 ^ 32; b = a * a; c = b * b; d = c * c; e = d * d in e * e)"
  by (simp add: f64_limit_def)

section \<open>Rounding is monotone and exact on small integers\<close>

lemma round_even_of_int [simp]: "round_even (of_int n) = n"
  by (simp add: round_even_def)

lemma round_even_bounds: "\<lfloor>q\<rfloor> \<le> round_even q" "round_even q \<le> \<lfloor>q\<rfloor> + 1"
  by (auto simp: round_even_def Let_def)

lemma round_even_mono:
  assumes "p \<le> q"
  shows "round_even p \<le> round_even q"
proof (cases "\<lfloor>p\<rfloor> = \<lfloor>q\<rfloor>")
  case True
  with assms show ?thesis by (auto simp: round_even_def Let_def)
next
  case False
  with floor_mono [OF assms] have "\<lfloor>p\<rfloor> + 1 \<le> \<lfloor>q\<rfloor>" by simp
  with round_even_bounds [of p] round_even_bounds [of q] show ?thesis by linarith
qed

lemma pow2_pos [simp]: "0 < (2::rat) powi k"
  by simp

lemma pow2_le_iff [simp]: "(2::rat) powi i \<le> 2 powi j \<longleftrightarrow> i \<le> j"
  by (metis linorder_not_le power_int_increasing power_int_strict_increasing one_le_numeral one_less_numeral_iff semiring_norm(76))

lemma bitlen_bounds_rat:
  assumes "0 < n"
  shows "2 powi (bitlen n - 1) \<le> (of_int n :: rat)" "(of_int n :: rat) < 2 powi bitlen n"
proof -
  have b: "1 \<le> bitlen n"
    using assms by (simp add: bitlen_alt_def)
  note bb = bitlen_bounds [OF assms]
  have "(of_int (2 ^ nat (bitlen n - 1)) :: rat) \<le> of_int n"
    using bb by (subst of_int_le_iff) simp
  then show "2 powi (bitlen n - 1) \<le> (of_int n :: rat)"
    using b by (simp add: power_int_def)
  have "(of_int n :: rat) < of_int (2 ^ nat (bitlen n))"
    using bb by (subst of_int_less_iff) simp
  then show "(of_int n :: rat) < 2 powi bitlen n"
    using b by (simp add: power_int_def)
qed

lemma binade_bounds:
  assumes "0 < q"
  shows "2 powi (binade q) \<le> q" "q < 2 powi (binade q + 1)"
proof -
  obtain n d where nd: "quotient_of q = (n, d)" by (cases "quotient_of q")
  have d: "0 < d" using quotient_of_denom_pos [OF nd] .
  have q: "q = of_int n / of_int d" using quotient_of_div [OF nd] .
  have n: "0 < n" using assms d q by (simp add: zero_less_divide_iff)
  define e where "e = bitlen n - bitlen d"
  note bn = bitlen_bounds_rat [OF n] and bd = bitlen_bounds_rat [OF d]
  have dpos: "0 < (of_int d :: rat)" using d by simp
  have up: "q < 2 powi (e + 1)"
  proof -
    have "(of_int n :: rat) < 2 powi (e + 1) * 2 powi (bitlen d - 1)"
      using bn(2) by (simp add: e_def flip: power_int_add)
    also have "\<dots> \<le> 2 powi (e + 1) * of_int d"
      using bd(1) by (intro mult_left_mono) auto
    finally show ?thesis using dpos by (simp add: q divide_less_eq)
  qed
  have low: "2 powi (e - 1) \<le> q"
  proof -
    have "2 powi (e - 1) * (of_int d :: rat) \<le> 2 powi (e - 1) * 2 powi bitlen d"
      using bd(2) by (intro mult_left_mono) auto
    also have "\<dots> \<le> of_int n"
      using bn(1) by (simp add: e_def flip: power_int_add)
    finally show ?thesis using dpos by (simp add: q le_divide_eq)
  qed
  have bq: "binade q = (if 2 powi e \<le> q then e else e - 1)"
    by (simp add: binade_def nd e_def)
  show "2 powi (binade q) \<le> q" "q < 2 powi (binade q + 1)"
    using up low by (auto simp: bq)
qed

lemma binade_mono:
  assumes "0 < p" "p \<le> q"
  shows "binade p \<le> binade q"
proof -
  have "0 < q" using assms by simp
  have "2 powi (binade p) \<le> p" by (rule binade_bounds) (rule assms)
  also have "p \<le> q" by (rule assms)
  also have "q < 2 powi (binade q + 1)" by (rule binade_bounds) fact
  finally have "(2::rat) powi (binade p) < 2 powi (binade q + 1)" .
  then have "\<not> (binade q + 1 \<le> binade p)" by (simp add: linorder_not_le [symmetric])
  then show ?thesis by simp
qed

lemma quantum_pos [simp]: "0 < quantum q"
  by (simp add: quantum_def)

lemma divide_quantum_mono: "p \<le> q \<Longrightarrow> p / quantum r \<le> q / quantum r"
  by (rule divide_right_mono) (simp_all add: less_imp_le)

lemma quantum_minus [simp]: "quantum (- q) = quantum q"
  by (simp add: quantum_def)

lemma round_even_minus: "round_even (- q) = - round_even q"
proof (cases "q = of_int \<lfloor>q\<rfloor>")
  case True
  then have "round_even (- q) = round_even (of_int (- \<lfloor>q\<rfloor>))" by simp
  also have "\<dots> = - round_even (of_int \<lfloor>q\<rfloor>)" by (simp only: round_even_of_int)
  finally show ?thesis using True by metis
next
  case False
  have "\<lfloor>- q\<rfloor> = - \<lceil>q\<rceil>" by (simp add: floor_minus)
  moreover have "\<lceil>q\<rceil> = \<lfloor>q\<rfloor> + 1"
    using False by (simp add: ceiling_altdef)
  ultimately have f: "\<lfloor>- q\<rfloor> = - \<lfloor>q\<rfloor> - 1" by simp
  show ?thesis by (auto simp: round_even_def Let_def f)
qed

lemma round_rat_minus: "round_rat (- q) = - round_rat q"
  using round_even_minus [of "q / quantum q"] by (simp add: round_rat_def)

lemma round_rat_zero [simp]: "round_rat 0 = 0"
  by (simp add: round_rat_def)

text \<open>A power of two at or above the quantum of \<open>q\<close> is a multiple of it.\<close>

lemma pow2_div_pow2_int:
  assumes "j \<le> i"
  shows "\<exists>n. (2::rat) powi i / 2 powi j = of_int n"
proof -
  have "(2::rat) powi i / 2 powi j = 2 powi (i - j)"
    by (simp add: power_int_diff)
  also have "\<dots> = of_int (2 ^ nat (i - j))"
    using assms by (simp add: power_int_def)
  finally show ?thesis by blast
qed

lemma round_rat_le_multiple:
  assumes "0 < q" "q \<le> b" "b / quantum q = of_int n"
  shows "round_rat q \<le> b"
proof -
  have "q / quantum q \<le> b / quantum q"
    using assms(2) by (rule divide_quantum_mono)
  then have "round_even (q / quantum q) \<le> n"
    using round_even_mono [of "q / quantum q" "of_int n"] assms(3) by simp
  then have "(of_int (round_even (q / quantum q)) :: rat) \<le> b / quantum q"
    by (simp add: assms(3))
  then show ?thesis
    using assms(1) by (simp add: round_rat_def le_divide_eq)
qed

lemma round_rat_ge_multiple:
  assumes "0 < q" "b \<le> q" "b / quantum q = of_int n"
  shows "b \<le> round_rat q"
proof -
  have "b / quantum q \<le> q / quantum q"
    using assms(2) by (rule divide_quantum_mono)
  then have "n \<le> round_even (q / quantum q)"
    using round_even_mono [of "of_int n" "q / quantum q"] assms(3) by simp
  then have "b / quantum q \<le> (of_int (round_even (q / quantum q)) :: rat)"
    by (simp add: assms(3))
  then show ?thesis
    using assms(1) by (simp add: round_rat_def divide_le_eq)
qed

lemma round_rat_nonneg: "0 \<le> q \<Longrightarrow> 0 \<le> round_rat q"
  using round_rat_ge_multiple [of q 0 0] by (cases "q = 0") auto

lemma round_rat_mono_pos:
  assumes "0 < p" "p \<le> q"
  shows "round_rat p \<le> round_rat q"
proof (cases "quantum p = quantum q")
  case True
  have "round_even (p / quantum q) \<le> round_even (q / quantum q)"
    by (intro round_even_mono divide_quantum_mono) (rule assms)
  with True assms show ?thesis
    by (simp add: round_rat_def mult_right_mono)
next
  case False
  have q: "0 < q" using assms by simp
  have "binade p \<le> binade q" by (rule binade_mono) (use assms in auto)
  moreover have "binade p \<noteq> binade q" using False assms by (auto simp: quantum_def)
  ultimately have bl: "binade p < binade q" by simp
  have lt: "max (binade p - 52) (- 1074) < binade q - 52" and mq: "- 1074 < binade q - 52"
    using False bl assms by (auto simp: quantum_def max_def split: if_splits)
  define b :: rat where "b = 2 powi binade q"
  obtain n where n: "b / quantum p = of_int n"
    using pow2_div_pow2_int [of "max (binade p - 52) (- 1074)" "binade q"] lt assms
    by (auto simp: b_def quantum_def)
  obtain m where m: "b / quantum q = of_int m"
    using pow2_div_pow2_int [of "max (binade q - 52) (- 1074)" "binade q"] mq q
    by (auto simp: b_def quantum_def)
  have "p < 2 powi (binade p + 1)" by (rule binade_bounds) (rule assms)
  also have "\<dots> \<le> b" using lt by (simp add: b_def)
  finally have "p \<le> b" by simp
  then have "round_rat p \<le> b" by (rule round_rat_le_multiple [OF assms(1) _ n])
  also have "b \<le> round_rat q"
    by (rule round_rat_ge_multiple [OF q _ m]) (simp add: b_def binade_bounds q)
  finally show ?thesis .
qed

theorem round_rat_mono:
  assumes "p \<le> q"
  shows "round_rat p \<le> round_rat q"
proof -
  consider "0 < p" | "p \<le> 0" "0 \<le> q" | "q < 0" by linarith
  then show ?thesis
  proof cases
    case 1
    then show ?thesis using assms by (rule round_rat_mono_pos)
  next
    case 2
    then show ?thesis
      using round_rat_nonneg [of q] round_rat_nonneg [of "- p"] by (simp add: round_rat_minus)
  next
    case 3
    then have "round_rat (- q) \<le> round_rat (- p)"
      using assms by (intro round_rat_mono_pos) auto
    then show ?thesis by (simp add: round_rat_minus)
  qed
qed

text \<open>The values a binary64 can hold are the fixed points of rounding.\<close>

definition representable :: "rat \<Rightarrow> bool" where
  "representable q = (round_rat q = q)"

lemma round_rat_le: "p \<le> q \<Longrightarrow> representable q \<Longrightarrow> round_rat p \<le> q"
  using round_rat_mono [of p q] by (simp add: representable_def)

lemma round_rat_ge: "p \<le> q \<Longrightarrow> representable p \<Longrightarrow> p \<le> round_rat q"
  using round_rat_mono [of p q] by (simp add: representable_def)

lemma representable_zero [simp]: "representable 0"
  by (simp add: representable_def)

lemma representable_minus [simp]: "representable (- q) = representable q"
  by (simp add: representable_def round_rat_minus)

lemma round_rat_abs_le:
  assumes "\<bar>q\<bar> \<le> b" "representable b"
  shows "\<bar>round_rat q\<bar> \<le> b"
  using round_rat_le [of q b] round_rat_ge [of "- b" q] assms by (auto simp: abs_le_iff)

lemma representable_scaled:
  assumes "n < 2 ^ 53" "- 1074 \<le> j"
  shows "representable (of_nat n * 2 powi j)"
proof (cases "n = 0")
  case False
  define q :: rat where "q = of_nat n * 2 powi j"
  have q: "0 < q" using False by (simp add: q_def)
  have "of_nat n < (2::rat) powi 53" using assms(1) of_nat_less_iff [where 'a = rat, of n "2 ^ 53"] by simp
  then have "q < 2 powi 53 * 2 powi j" unfolding q_def by (intro mult_strict_right_mono) simp_all
  also have "\<dots> = 2 powi (53 + j)" by (rule power_int_add [symmetric]) simp
  finally have "2 powi (binade q) < (2::rat) powi (53 + j)"
    using binade_bounds(1) [OF q] by simp
  then have b: "binade q < 53 + j" by (metis linorder_not_le pow2_le_iff)
  define k where "k = max (binade q - 52) (- 1074)"
  have k: "k \<le> j" "quantum q = 2 powi k" using b q assms(2) by (auto simp: k_def quantum_def)
  obtain m where m: "2 powi j / quantum q = of_int m"
    using pow2_div_pow2_int [OF k(1)] k(2) by auto
  have qm: "q / quantum q = of_int (int n * m)"
    using m by (simp add: q_def flip: times_divide_eq_right)
  then have "round_even (q / quantum q) = int n * m" by (simp only: round_even_of_int)
  then have "round_rat q = of_int (int n * m) * quantum q"
    using q by (simp add: round_rat_def)
  also have "\<dots> = q"
    using qm quantum_pos [of q] by (metis nonzero_divide_eq_eq order_less_irrefl)
  finally show ?thesis by (simp add: representable_def q_def)
qed simp

lemma representable_small_nat: "n < 2 ^ 53 \<Longrightarrow> representable (of_nat n)"
  using representable_scaled [of n 0] by simp

lemma representable_numeral [simp]:
  "(numeral k :: nat) < 2 ^ 53 \<Longrightarrow> representable (numeral k)"
  using representable_small_nat [of "numeral k"] by simp

lemma representable_one [simp]: "representable 1"
  using representable_small_nat [of 1] by simp

lemma representable_small_int:
  assumes "\<bar>n\<bar> < 2 ^ 53"
  shows "representable (of_int n)"
proof (cases "0 \<le> n")
  case True
  then have "representable (of_nat (nat n))"
    using assms by (intro representable_small_nat) (simp add: nat_less_iff)
  then show ?thesis using True by simp
next
  case False
  then have "representable (of_nat (nat (- n)))"
    using assms by (intro representable_small_nat) (simp add: nat_less_iff)
  then have "representable (of_int (- n))" using False by (simp del: of_int_minus)
  then show ?thesis by simp
qed

section \<open>Operations on finite values\<close>

text \<open>The exact rational value of a finite float, and the values the type can hold.\<close>

fun f64_val :: "f64 \<Rightarrow> rat" where
  "f64_val (Fin a) = a"
| "f64_val _ = 0"

definition f64_ok :: "f64 \<Rightarrow> bool" where
  "f64_ok x = (case x of Fin a \<Rightarrow> representable a \<and> \<bar>a\<bar> < f64_limit | _ \<Rightarrow> True)"

lemma is_finite_iff: "is_finite x \<longleftrightarrow> x = Fin (f64_val x)"
  by (cases x) (auto simp: is_finite_def)

lemma is_finite_Fin [simp]: "is_finite (Fin a)"
  by (simp add: is_finite_def)

lemma not_finite [simp]: "\<not> is_finite PInf" "\<not> is_finite NInf" "\<not> is_finite NaN"
  by (simp_all add: is_finite_def)

lemma f64_le_Fin [simp]: "f64_le (Fin a) (Fin b) \<longleftrightarrow> a \<le> b"
  by (auto simp: f64_le_def)

lemma f64_eq_Fin [simp]: "f64_eq (Fin a) y \<longleftrightarrow> y = Fin a"
  by (cases y) auto

lemma f64_max_Fin [simp]: "f64_max (Fin a) (Fin b) = Fin (max a b)"
  by (auto simp: f64_max_def max_def)

lemma f64_min_Fin [simp]: "f64_min (Fin a) (Fin b) = Fin (min a b)"
  by (auto simp: f64_min_def min_def)

lemma f64_clamp_Fin [simp]:
  "lo \<le> hi \<Longrightarrow> f64_clamp (Fin x) (Fin lo) (Fin hi) = Ok (Fin (max lo (min hi x)))"
  by (auto simp: f64_clamp_def max_def min_def)

lemma f64_round_Fin:
  assumes "\<bar>q\<bar> \<le> b" "representable b" "b < f64_limit"
  shows "f64_round q = Fin (round_rat q)"
proof -
  have "round_rat q \<le> b"
    by (rule round_rat_le) (use assms in auto)
  moreover have "- b \<le> round_rat q"
    by (rule round_rat_ge) (use assms in auto)
  ultimately show ?thesis using assms(3) by (simp add: f64_round_def Let_def)
qed

lemma f64_round_finite: "is_finite (f64_round q) \<Longrightarrow> f64_round q = Fin (round_rat q)"
  by (auto simp: f64_round_def Let_def split: if_splits)

lemma f64_round_exact:
  assumes "representable q" "\<bar>q\<bar> < f64_limit"
  shows "f64_round q = Fin q"
  using assms by (auto simp: f64_round_def Let_def representable_def)

lemma pow2_53_lt: "(2::rat) ^ 53 < f64_limit"
  unfolding f64_limit_def by (rule power_strict_increasing) auto

lemma f64_limit_pos: "0 < f64_limit"
  by (simp add: f64_limit_def)

lemma numeral_lt_limit [simp]: "(numeral k :: nat) < 2 ^ 53 \<Longrightarrow> (numeral k :: rat) < f64_limit"
proof -
  assume "(numeral k :: nat) < 2 ^ 53"
  then have "(of_nat (numeral k) :: rat) < of_nat (2 ^ 53)" by (simp only: of_nat_less_iff)
  then have "(numeral k :: rat) < 2 ^ 53" by (simp only: of_nat_numeral of_nat_power)
  then show ?thesis using pow2_53_lt by (rule order.strict_trans)
qed

lemma f64_of_small_int:
  assumes "\<bar>n\<bar> < 2 ^ 53"
  shows "f64_of_int n = Fin (of_int n)"
  unfolding f64_of_int_def
proof (rule f64_round_exact)
  show "representable (of_int n)" by (rule representable_small_int) (rule assms)
  have "\<bar>of_int n\<bar> < (of_int (2 ^ 53) :: rat)"
    using assms by (simp del: of_int_power flip: of_int_abs)
  then show "\<bar>of_int n\<bar> < f64_limit"
    using pow2_53_lt by simp
qed

text \<open>
  A total order on values that are not \<open>NaN\<close>; monotonicity of the arithmetic is stated
  with it so that overflow to an infinity needs no case of its own.
\<close>

lemma f64_round_mono:
  assumes "p \<le> q"
  shows "f64_le (f64_round p) (f64_round q)"
proof -
  have "round_rat p \<le> round_rat q" using assms by (rule round_rat_mono)
  then show ?thesis
    using f64_limit_pos by (auto simp: f64_round_def Let_def f64_le_def)
qed

lemma f64_round_not_NaN [simp]: "f64_round q \<noteq> NaN"
  by (simp add: f64_round_def Let_def)

lemma f64_le_refl: "x \<noteq> NaN \<Longrightarrow> f64_le x x"
  by (cases x) (auto simp: f64_le_def)

lemma f64_le_trans: "f64_le x y \<Longrightarrow> f64_le y z \<Longrightarrow> f64_le x z"
  by (cases x; cases y; cases z) (auto simp: f64_le_def)

lemma f64_le_not_NaN: "f64_le x y \<Longrightarrow> x \<noteq> NaN \<and> y \<noteq> NaN"
  by (cases x; cases y) (auto simp: f64_le_def)

lemma f64_not_less: "x \<noteq> NaN \<Longrightarrow> y \<noteq> NaN \<Longrightarrow> \<not> f64_less x y \<longleftrightarrow> f64_le y x"
  by (cases x; cases y) (auto simp: f64_le_def)

lemma f64_le_infinities [simp]: "f64_le x PInf \<longleftrightarrow> x \<noteq> NaN" "f64_le NInf x \<longleftrightarrow> x \<noteq> NaN"
  by (cases x; simp add: f64_le_def)+

lemma f64_le_infinities' [simp]: "f64_le PInf x \<longleftrightarrow> x = PInf" "f64_le x NInf \<longleftrightarrow> x = NInf"
  by (cases x; simp add: f64_le_def)+

lemma f64_add_mono_right:
  assumes "f64_le x y"
  shows "f64_le (f64_add (Fin a) x) (f64_add (Fin a) y)"
  using assms f64_le_not_NaN [OF assms]
  by (cases x; cases y) (auto intro: f64_round_mono)

lemma f64_sub_mono_left:
  "p \<le> q \<Longrightarrow> f64_le (f64_sub (Fin p) (Fin a)) (f64_sub (Fin q) (Fin a))"
  by (simp add: f64_sub_def f64_round_mono)

text \<open>Every representable value is a whole number of least subnormals.\<close>

lemma representable_multiple:
  assumes "representable q"
  shows "\<exists>n. q = of_int n * 2 powi (- 1074)"
proof (cases "q = 0")
  case True
  then show ?thesis by (intro exI [of _ 0]) simp
next
  case False
  define k where "k = max (binade \<bar>q\<bar> - 52) (- 1074)"
  have "- 1074 \<le> k" by (simp add: k_def)
  then obtain m where m: "(2::rat) powi k / 2 powi (- 1074) = of_int m"
    using pow2_div_pow2_int by blast
  have "q = of_int (round_even (q / quantum q)) * 2 powi k"
    using assms False by (simp add: representable_def round_rat_def quantum_def k_def)
  also have "(2::rat) powi k = of_int m * 2 powi (- 1074)"
    using m by (simp add: field_simps)
  finally show ?thesis by (metis mult.assoc of_int_mult)
qed

lemma round_rat_pow2:
  assumes "- 1074 \<le> k"
  shows "representable (2 powi k)"
proof -
  have b: "binade (2 powi k) = k"
  proof -
    have p: "0 < (2::rat) powi k" by simp
    have "binade (2 powi k) \<le> k" using binade_bounds(1) [OF p] by simp
    moreover have "\<not> binade (2 powi k) + 1 \<le> k"
      using binade_bounds(2) [OF p] by (metis linorder_not_le pow2_le_iff)
    ultimately show ?thesis by simp
  qed
  obtain n where n: "(2::rat) powi k / quantum (2 powi k) = of_int n"
    using pow2_div_pow2_int [of "max (k - 52) (- 1074)" k] assms by (auto simp: quantum_def b)
  have "round_rat (2 powi k) \<le> 2 powi k" "2 powi k \<le> round_rat (2 powi k)"
    using n by (auto intro: round_rat_le_multiple round_rat_ge_multiple)
  then show ?thesis by (simp add: representable_def)
qed

lemma round_rat_diff_pos:
  assumes "representable a" "representable b" "a < b"
  shows "0 < round_rat (b - a)"
proof -
  define u where "u = (2::rat) powi (- 1074)"
  have u: "0 < u" "representable u"
    unfolding u_def by (rule pow2_pos, rule round_rat_pow2) simp
  obtain n m where "a = of_int n * u" "b = of_int m * u"
    using assms(1,2) representable_multiple unfolding u_def by blast
  then have eq: "b - a = of_int (m - n) * u" by (simp add: algebra_simps)
  have "0 < of_int (m - n) * u"
    using assms(3) by (simp only: eq [symmetric] diff_gt_0_iff_gt)
  then have "0 < (of_int (m - n) :: rat)"
    using u(1) by (rule zero_less_mult_pos2)
  then have "(of_int 1 :: rat) \<le> of_int (m - n)"
    by (simp only: of_int_0_less_iff of_int_le_iff)
  then have "1 * u \<le> b - a"
    unfolding eq by (intro mult_right_mono) (use u in auto)
  then have "u \<le> round_rat (b - a)"
    using u(2) by (intro round_rat_ge) simp_all
  with u(1) show ?thesis by linarith
qed

text \<open>A rounded value is representable: rounding twice changes nothing.\<close>

lemma representable_same_quantum:
  assumes "0 < r" "r = of_int n * quantum r"
  shows "representable r"
proof -
  have "r / quantum r = of_int n"
    using assms(2) quantum_pos [of r] by (metis nonzero_mult_div_cancel_right order_less_irrefl)
  then have "round_even (r / quantum r) = n" by (simp only: round_even_of_int)
  then show ?thesis using assms by (simp add: representable_def round_rat_def)
qed

lemma representable_round_pos:
  assumes q: "0 < q"
  shows "representable (round_rat q)"
proof -
  define r n k where "r = round_rat q" and "n = round_even (q / quantum q)"
    and "k = max (binade q - 52) (- 1074)"
  define B where "B = max (binade q + 1) (- 1074)"
  have kB: "k \<le> B" by (auto simp: k_def B_def)
  have qk: "quantum q = 2 powi k" using q by (simp add: quantum_def k_def)
  have rn: "r = of_int n * 2 powi k" using q by (simp add: r_def n_def round_rat_def qk)
  have r0: "0 \<le> r" using q by (simp add: r_def round_rat_nonneg)
  obtain m where m: "(2::rat) powi B / quantum q = of_int m"
    using pow2_div_pow2_int [OF kB] by (auto simp: qk)
  have "q \<le> 2 powi B"
    using binade_bounds(2) [OF q] by (rule order.trans [OF less_imp_le]) (simp add: B_def)
  then have rB: "r \<le> 2 powi B" unfolding r_def by (rule round_rat_le_multiple [OF q _ m])
  consider "r = 0" | "r = 2 powi B" | "0 < r" "r < 2 powi B" using r0 rB by linarith
  then show ?thesis
  proof cases
    case 1
    then show ?thesis by (simp add: r_def)
  next
    case 2
    then show ?thesis using round_rat_pow2 [of B] by (simp add: r_def [symmetric] B_def)
  next
    case 3
    have br: "binade r < B"
      using binade_bounds(1) [OF 3(1)] 3(2) by (metis linorder_not_le order_le_less_trans pow2_le_iff)
    have "max (binade r - 52) (- 1074) = k"
    proof (cases "binade q - 52 \<le> - 1074")
      case True
      then show ?thesis using br by (auto simp: k_def B_def)
    next
      case False
      obtain i where i: "(2::rat) powi (binade q) / quantum q = of_int i"
        using pow2_div_pow2_int [of k "binade q"] False by (auto simp: qk k_def)
      have "2 powi (binade q) \<le> r"
        unfolding r_def by (rule round_rat_ge_multiple [OF q _ i]) (rule binade_bounds(1) [OF q])
      also have "r < 2 powi (binade r + 1)" by (rule binade_bounds(2) [OF 3(1)])
      finally have "binade q < binade r + 1" by (metis linorder_not_le pow2_le_iff)
      then show ?thesis using br False by (auto simp: k_def B_def)
    qed
    then have "r = of_int n * quantum r" using rn 3(1) by (simp add: quantum_def)
    then show ?thesis using 3(1) unfolding r_def [symmetric] by (intro representable_same_quantum)
  qed
qed

lemma representable_round [simp]: "representable (round_rat q)"
proof -
  consider "q = 0" | "0 < q" | "0 < - q" by linarith
  then show ?thesis
  proof cases
    case 3
    from representable_round_pos [OF this] show ?thesis by (simp add: round_rat_minus)
  qed (auto simp: representable_round_pos)
qed

lemma f64_to_unsigned_of_int:
  assumes "0 \<le> n" "n < 2 ^ LENGTH('a)"
  shows "(f64_to_unsigned (Fin (of_int n)) :: 'a::len word) = word_of_int n"
proof -
  have t: "trunc_rat (of_int n) = n" using assms by (simp add: trunc_rat_def)
  have top: "(- 1 :: 'a word) = word_of_int (2 ^ LENGTH('a) - 1)"
    by (simp add: word_uint_eq_iff unsigned_minus_1_eq_mask mask_eq_exp_minus_1 unsigned_of_int
        take_bit_int_eq_self)
  show ?thesis
  proof (cases "2 ^ LENGTH('a) - 1 \<le> n")
    case True
    then have n: "n = 2 ^ LENGTH('a) - 1" using assms by simp
    have "(1::int) < 2 ^ LENGTH('a)" by (rule one_less_power) auto
    then have "n \<noteq> 0" unfolding n by arith
    then have "(f64_to_unsigned (Fin (of_int n)) :: 'a word) = - 1"
      using True assms t by (simp del: of_int_numeral)
    then show ?thesis unfolding top n by simp
  next
    case False
    then show ?thesis using assms t by auto
  qed
qed


section \<open>Non-negative values\<close>

lemma f64_le_NaN [simp]: "f64_le x NaN = False" "f64_le NaN x = False"
  by (cases x; simp add: f64_le_def)+

lemma one_lt_limit [simp]: "1 < f64_limit"
  using pow2_53_lt by simp

lemma f64_round_nonneg: "0 \<le> q \<Longrightarrow> f64_le (Fin 0) (f64_round q)"
  using f64_round_mono [of 0 q] f64_limit_pos by (simp add: f64_round_def Let_def)

lemma f64_add_nonneg: "f64_le (Fin 0) x \<Longrightarrow> f64_le (Fin 0) y \<Longrightarrow> f64_le (Fin 0) (f64_add x y)"
  by (cases x; cases y) (auto intro: f64_round_nonneg)

lemma f64_mul_pos_nonneg: "0 < r \<Longrightarrow> f64_le (Fin 0) x \<Longrightarrow> f64_le (Fin 0) (f64_mul (Fin r) x)"
  by (cases x) (auto intro: f64_round_nonneg simp: signed_inf_def)

lemma f64_mul_pos_mono:
  "0 < r \<Longrightarrow> f64_le (Fin 0) x \<Longrightarrow> f64_le x y \<Longrightarrow> f64_le (f64_mul (Fin r) x) (f64_mul (Fin r) y)"
  by (cases x; cases y) (auto intro!: f64_round_mono mult_left_mono simp: signed_inf_def)

lemma f64_sub_antimono:
  "f64_le x y \<Longrightarrow> f64_le (f64_sub (Fin a) y) (f64_sub (Fin a) x)"
  unfolding f64_sub_def using f64_le_not_NaN [of x y]
  by (intro f64_add_mono_right) (cases x; cases y; auto)

lemma f64_sub_le:
  assumes "representable c" "\<bar>c\<bar> < f64_limit" "f64_le (Fin 0) x"
  shows "f64_le (f64_sub (Fin c) x) (Fin c)"
  using f64_sub_antimono [OF assms(3), of c] f64_round_exact [OF assms(1,2)]
  by (simp add: f64_sub_def)

lemma f64_of_int_nonneg: "0 \<le> n \<Longrightarrow> f64_le (Fin 0) (f64_of_int n)"
  unfolding f64_of_int_def by (rule f64_round_nonneg) simp

lemma subsecond:
  assumes "n < 1000000000"
  shows "f64_div (f64_of_int (int n)) (Fin 1000000000) = Fin (round_rat (of_nat n / 1000000000))"
    and "0 \<le> round_rat (of_nat n / 1000000000)" "round_rat (of_nat n / 1000000000) \<le> 1"
proof -
  have "of_nat n < (of_nat 1000000000 :: rat)" using assms by (simp only: of_nat_less_iff)
  then have b: "\<bar>of_nat n / 1000000000 :: rat\<bar> \<le> 1" by simp
  show "f64_div (f64_of_int (int n)) (Fin 1000000000) = Fin (round_rat (of_nat n / 1000000000))"
    using assms f64_round_Fin [OF b]
    by (simp add: f64_of_small_int)
  show "0 \<le> round_rat (of_nat n / 1000000000)" by (rule round_rat_nonneg) simp
  show "round_rat (of_nat n / 1000000000) \<le> 1" by (rule round_rat_le) (use b in auto)
qed

lemma as_secs_f64_nonneg: "f64_le (Fin 0) (as_secs_f64 d)"
  unfolding as_secs_f64_def subsecond(1) [OF mod_less_divisor, OF zero_less_numeral]
  by (rule f64_add_nonneg) (auto intro: f64_of_int_nonneg subsecond(2))

lemma as_secs_f64_small:
  assumes "d < 2 ^ 53 * 1000000000"
  shows "as_secs_f64 d =
    f64_round (of_nat (d div 1000000000) + round_rat (of_nat (d mod 1000000000) / 1000000000))"
proof -
  have "d div 1000000000 < 2 ^ 53" using assms by (simp add: div_less_iff_less_mult)
  then have "int (d div 1000000000) < int (2 ^ 53)" by (simp only: of_nat_less_iff)
  then have "f64_of_int (int (d div 1000000000)) = Fin (of_nat (d div 1000000000))"
    by (subst f64_of_small_int) simp_all
  then show ?thesis by (simp add: as_secs_f64_def subsecond(1))
qed

lemma as_secs_f64_mono:
  assumes "a \<le> b" "b < 2 ^ 53 * 1000000000"
  shows "f64_le (as_secs_f64 a) (as_secs_f64 b)"
proof -
  define B :: nat where "B = 1000000000"
  have B: "0 < B" "(1000000000::rat) = of_nat B" by (simp_all add: B_def)
  have "of_nat (a div B) + round_rat (of_nat (a mod B) / of_nat B)
      \<le> of_nat (b div B) + round_rat (of_nat (b mod B) / of_nat B)"
  proof (cases "a div B = b div B")
    case True
    then have "a mod B \<le> b mod B" using assms(1) by (metis add_le_cancel_left div_mult_mod_eq)
    then have "of_nat (a mod B) / of_nat B \<le> (of_nat (b mod B) / of_nat B :: rat)"
      by (intro divide_right_mono) simp_all
    then show ?thesis using round_rat_mono True by simp
  next
    case False
    then have "a div B + 1 \<le> b div B" using div_le_mono [OF assms(1), of B] by simp
    then have "(of_nat (a div B + 1) :: rat) \<le> of_nat (b div B)" by (simp only: of_nat_le_iff)
    then have "(of_nat (a div B) :: rat) + 1 \<le> of_nat (b div B)" by simp
    then show ?thesis
      using subsecond(3) [of "a mod B"] subsecond(2) [of "b mod B"] B
      unfolding B_def by fastforce
  qed
  then have "f64_le (f64_round (of_nat (a div B) + round_rat (of_nat (a mod B) / of_nat B)))
    (f64_round (of_nat (b div B) + round_rat (of_nat (b mod B) / of_nat B)))"
    by (rule f64_round_mono)
  then show ?thesis using assms by (simp add: as_secs_f64_small B_def)
qed


lemma f64_ok_round [simp]: "f64_ok (f64_round q)"
  using abs_less_iff [of "round_rat q" f64_limit]
  by (simp add: f64_ok_def f64_round_def Let_def not_le minus_less_iff)

lemma f64_ok_sub_Fin: "f64_ok (f64_sub (Fin c) x)"
  by (cases x) (auto simp: f64_sub_def f64_ok_def [of PInf] f64_ok_def [of NInf] f64_ok_def [of NaN])

end
