(* ===== verification/Demand.thy ===== *)
theory Demand
  imports F64
begin

text \<open>
  Demand percentages, PWM values and demand curves
  (\<open>fan-control-core/src/demand.rs\<close>, \<open>curve.rs\<close>). The newtypes over \<open>f64\<close> and \<open>u8\<close> are the
  values they wrap; \<open>demand_ok\<close>, \<open>temperature_ok\<close> and \<open>curve_ok\<close> state what their
  constructors guarantee. Shown here: evaluating a constructed curve never panics and stays
  within its demands, evaluation is monotone for curves with non-decreasing demand in spite
  of rounding, and the conversion to PWM is monotone and exact on whole percentages.
\<close>

section \<open>demand.rs\<close>

type_synonym demand_percent = f64
type_synonym pwm = u8

datatype demand_percent_error = DemandNonFinite | DemandOutOfRange

definition demand_percent_try_from :: "f64 \<Rightarrow> (demand_percent_error, demand_percent) outcome" where
  "demand_percent_try_from value =
     (if \<not> is_finite value then Err DemandNonFinite
      else if \<not> (f64_le (Fin 0) value \<and> f64_le value (Fin 100)) then Err DemandOutOfRange
      else Ok value)"

definition pwm_maximum :: pwm where
  "pwm_maximum = - 1"

definition pwm_from_demand :: "demand_percent \<Rightarrow> pwm" where
  "pwm_from_demand demand =
     (let scaled = f64_div (f64_mul demand (f64_of_int 255)) (Fin 100)
      in f64_to_unsigned (f64_ceil scaled))"

section \<open>curve.rs\<close>

type_synonym temperature_celsius = f64

datatype temperature_error = TemperatureNonFinite

definition temperature_try_from :: "f64 \<Rightarrow> (temperature_error, temperature_celsius) outcome" where
  "temperature_try_from value = (if is_finite value then Ok value else Err TemperatureNonFinite)"

record curve_point =
  cp_temperature :: temperature_celsius
  cp_demand :: demand_percent

type_synonym demand_curve = "curve_point list"

datatype demand_curve_error = CurveEmpty | CurveNotStrictlyIncreasing

definition from_ordered_points :: "curve_point list \<Rightarrow> (demand_curve_error, demand_curve) outcome" where
  "from_ordered_points points =
     (if points = [] then Err CurveEmpty
      else if list_ex (\<lambda>(a, b). f64_le (cp_temperature b) (cp_temperature a)) (windows2 points)
      then Err CurveNotStrictlyIncreasing
      else Ok points)"

definition curve_position :: "f64 \<Rightarrow> f64 \<Rightarrow> f64 \<Rightarrow> f64" where
  "curve_position lower upper temperature =
     (let offset = f64_sub temperature lower; span = f64_sub upper lower
      in if is_finite offset \<and> is_finite span then f64_div offset span
         else
           (let scale = f64_max (f64_max (f64_abs temperature) (f64_abs lower)) (f64_abs upper)
            in f64_div
                 (f64_sub (f64_div temperature scale) (f64_div lower scale))
                 (f64_sub (f64_div upper scale) (f64_div lower scale))))"

definition interpolate_demand ::
  "curve_point \<Rightarrow> curve_point \<Rightarrow> temperature_celsius \<Rightarrow> ('e, demand_percent) outcome" where
  "interpolate_demand lower upper temperature =
     (let position = curve_position (cp_temperature lower) (cp_temperature upper) temperature;
          interpolated = f64_add (cp_demand lower)
            (f64_mul (f64_sub (cp_demand upper) (cp_demand lower)) position)
      in bind_ok
           (f64_clamp interpolated
              (f64_min (cp_demand lower) (cp_demand upper))
              (f64_max (cp_demand lower) (cp_demand upper)))
           (\<lambda>bounded. expect_ok (demand_percent_try_from bounded)))"

fun evaluate_windows ::
  "(curve_point \<times> curve_point) list \<Rightarrow> demand_percent \<Rightarrow> temperature_celsius
     \<Rightarrow> ('e, demand_percent) outcome" where
  "evaluate_windows [] last_demand temperature = Ok last_demand"
| "evaluate_windows ((lower, upper) # rest) last_demand temperature =
     (if f64_eq temperature (cp_temperature upper) then Ok (cp_demand upper)
      else if f64_less temperature (cp_temperature upper)
      then interpolate_demand lower upper temperature
      else evaluate_windows rest last_demand temperature)"

definition evaluate :: "demand_curve \<Rightarrow> temperature_celsius \<Rightarrow> ('e, demand_percent) outcome" where
  "evaluate points temperature =
     (case points of
        [] \<Rightarrow> Panic
      | first # _ \<Rightarrow>
          (if f64_le temperature (cp_temperature first) then Ok (cp_demand first)
           else evaluate_windows (windows2 points) (cp_demand (last points)) temperature))"

definition envelope_comparison_epsilon :: f64 where
  "envelope_comparison_epsilon = f64_round (1 / 1000000000)"

text \<open>
  The search over the union of both curves' breakpoints; \<open>Ok None\<close> is \<open>None\<close>, and a panic of
  an evaluation is a panic of the search.
\<close>

fun first_below_in ::
  "temperature_celsius list \<Rightarrow> demand_curve \<Rightarrow> demand_curve
     \<Rightarrow> ('e, temperature_celsius option) outcome" where
  "first_below_in [] candidate protected = Ok None"
| "first_below_in (temperature # rest) candidate protected =
     bind_ok (evaluate candidate temperature) (\<lambda>c.
     bind_ok (evaluate protected temperature) (\<lambda>p.
       if f64_less (f64_add c envelope_comparison_epsilon) p then Ok (Some temperature)
       else first_below_in rest candidate protected))"

definition first_below ::
  "demand_curve \<Rightarrow> demand_curve \<Rightarrow> ('e, temperature_celsius option) outcome" where
  "first_below candidate protected =
     first_below_in (map cp_temperature (candidate @ protected)) candidate protected"

section \<open>What the constructors guarantee\<close>

definition demand_ok :: "demand_percent \<Rightarrow> bool" where
  "demand_ok d = (case d of Fin q \<Rightarrow> representable q \<and> 0 \<le> q \<and> q \<le> 100 | _ \<Rightarrow> False)"

definition temperature_ok :: "temperature_celsius \<Rightarrow> bool" where
  "temperature_ok t = (is_finite t \<and> f64_ok t)"

definition point_ok :: "curve_point \<Rightarrow> bool" where
  "point_ok p = (temperature_ok (cp_temperature p) \<and> demand_ok (cp_demand p))"

definition strictly_hotter :: "curve_point \<Rightarrow> curve_point \<Rightarrow> bool" where
  "strictly_hotter a b = f64_less (cp_temperature a) (cp_temperature b)"

definition curve_ok :: "demand_curve \<Rightarrow> bool" where
  "curve_ok c = (c \<noteq> [] \<and> list_all point_ok c \<and> sorted_wrt strictly_hotter c)"

definition curve_rising :: "demand_curve \<Rightarrow> bool" where
  "curve_rising c = sorted_wrt (\<lambda>a b. f64_le (cp_demand a) (cp_demand b)) c"

lemma demand_okE:
  assumes "demand_ok d"
  obtains q where "d = Fin q" "representable q" "0 \<le> q" "q \<le> 100"
  using assms by (auto simp: demand_ok_def split: f64.splits)

lemma temperature_okE:
  assumes "temperature_ok t"
  obtains q where "t = Fin q" "representable q" "\<bar>q\<bar> < f64_limit"
  using assms by (auto simp: temperature_ok_def f64_ok_def is_finite_def split: f64.splits)

lemma demand_try_from_Ok:
  "f64_ok x \<Longrightarrow> demand_percent_try_from x = Ok d \<longleftrightarrow> d = x \<and> demand_ok x"
  by (cases x) (auto simp: demand_percent_try_from_def demand_ok_def f64_ok_def)

lemma demand_try_from_demand_ok: "demand_ok d \<Longrightarrow> demand_percent_try_from d = Ok d"
  by (erule demand_okE) (simp add: demand_percent_try_from_def)

lemma strictly_hotter_transp: "transp strictly_hotter"
proof (rule transpI)
  fix a b c
  assume "strictly_hotter a b" "strictly_hotter b c"
  then show "strictly_hotter a c"
    unfolding strictly_hotter_def
    by (cases "cp_temperature a"; cases "cp_temperature b"; cases "cp_temperature c") auto
qed

lemma from_ordered_points_Ok:
  assumes "list_all point_ok points"
  shows "from_ordered_points points = Ok c \<longleftrightarrow> c = points \<and> curve_ok points"
proof -
  have "(\<not> list_ex (\<lambda>(a, b). f64_le (cp_temperature b) (cp_temperature a)) (windows2 points))
    = (\<forall>(a, b) \<in> set (windows2 points). strictly_hotter a b)"
  proof -
    have "(\<not> f64_le (cp_temperature b) (cp_temperature a)) = strictly_hotter a b"
      if "(a, b) \<in> set (windows2 points)" for a b
    proof -
      have "point_ok a" "point_ok b"
        using assms windows2_set [OF that] by (auto simp: list_all_iff)
      then show ?thesis
        by (auto simp: point_ok_def strictly_hotter_def elim!: temperature_okE)
    qed
    then show ?thesis by (fastforce simp: list_ex_iff)
  qed
  also have "\<dots> = sorted_wrt strictly_hotter points"
    by (rule windows2_sorted_wrt) (rule strictly_hotter_transp)
  finally show ?thesis
    using assms by (auto simp: from_ordered_points_def curve_ok_def)
qed

section \<open>Interpolation on finite values\<close>

lemma f64_div_Fin_pos: "0 < b \<Longrightarrow> f64_div (Fin a) (Fin b) = f64_round (a / b)"
  by simp

lemma f64_round_unit: "\<bar>q\<bar> \<le> 2 \<Longrightarrow> f64_round q = Fin (round_rat q)"
  by (rule f64_round_Fin [where b = 2]) auto

definition segment_ok :: "rat \<Rightarrow> rat \<Rightarrow> bool" where
  "segment_ok l u =
     (representable l \<and> representable u \<and> \<bar>l\<bar> < f64_limit \<and> \<bar>u\<bar> < f64_limit \<and> l < u)"

definition narrow_pos :: "rat \<Rightarrow> rat \<Rightarrow> rat \<Rightarrow> rat" where
  "narrow_pos l u t = round_rat (round_rat (t - l) / round_rat (u - l))"

definition wide_scale :: "rat \<Rightarrow> rat \<Rightarrow> rat" where
  "wide_scale l u = max \<bar>l\<bar> \<bar>u\<bar>"

definition wide_den :: "rat \<Rightarrow> rat \<Rightarrow> rat" where
  "wide_den l u = round_rat (round_rat (u / wide_scale l u) - round_rat (l / wide_scale l u))"

definition wide_pos :: "rat \<Rightarrow> rat \<Rightarrow> rat \<Rightarrow> rat" where
  "wide_pos l u t =
     round_rat (round_rat (round_rat (t / wide_scale l u) - round_rat (l / wide_scale l u)) / wide_den l u)"

definition wide :: "rat \<Rightarrow> rat \<Rightarrow> bool" where
  "wide l u = (f64_limit \<le> round_rat (u - l))"

definition pos :: "rat \<Rightarrow> rat \<Rightarrow> rat \<Rightarrow> rat" where
  "pos l u t = (if wide l u then wide_pos l u t else narrow_pos l u t)"

lemma segment_okD:
  assumes "segment_ok l u"
  shows "representable l" "representable u" "\<bar>l\<bar> < f64_limit" "\<bar>u\<bar> < f64_limit" "l < u"
  using assms by (auto simp: segment_ok_def)

lemma span_pos: "segment_ok l u \<Longrightarrow> 0 < round_rat (u - l)"
  by (intro round_rat_diff_pos segment_okD)

lemma narrow_position:
  assumes seg: "segment_ok l u" and t: "l \<le> t" "t \<le> u" and nw: "\<not> wide l u"
  shows "curve_position (Fin l) (Fin u) (Fin t) = Fin (narrow_pos l u t)"
    and "0 \<le> narrow_pos l u t" "narrow_pos l u t \<le> 1"
proof -
  note sp = span_pos [OF seg]
  have o: "0 \<le> round_rat (t - l)" "round_rat (t - l) \<le> round_rat (u - l)"
    using t by (auto intro: round_rat_nonneg round_rat_mono)
  have fin: "f64_round (t - l) = Fin (round_rat (t - l))"
    "f64_round (u - l) = Fin (round_rat (u - l))"
    using o sp nw f64_limit_pos by (auto simp: f64_round_def Let_def wide_def)
  have r: "0 \<le> round_rat (t - l) / round_rat (u - l)" "round_rat (t - l) / round_rat (u - l) \<le> 1"
    using o sp by (auto simp: divide_le_eq_1)
  then show "0 \<le> narrow_pos l u t" "narrow_pos l u t \<le> 1"
    by (auto simp: narrow_pos_def intro: round_rat_nonneg round_rat_le)
  have "f64_round (round_rat (t - l) / round_rat (u - l)) = Fin (narrow_pos l u t)"
    unfolding narrow_pos_def by (rule f64_round_unit) (use r in auto)
  then show "curve_position (Fin l) (Fin u) (Fin t) = Fin (narrow_pos l u t)"
    using sp by (simp add: curve_position_def Let_def f64_sub_def fin)
qed

lemma wide_signs:
  assumes seg: "segment_ok l u" and w: "wide l u"
  shows "l < 0" "0 < u"
proof -
  note sd = segment_okD [OF seg]
  have "\<not> 0 \<le> l"
  proof
    assume "0 \<le> l"
    then have "round_rat (u - l) \<le> u" using sd by (intro round_rat_le) auto
    then show False using w sd by (auto simp: wide_def)
  qed
  then show "l < 0" by simp
  have "\<not> u \<le> 0"
  proof
    assume "u \<le> 0"
    then have "round_rat (u - l) \<le> - l" using sd by (intro round_rat_le) auto
    then show False using w sd by (auto simp: wide_def)
  qed
  then show "0 < u" by simp
qed

lemma wide_parts:
  assumes seg: "segment_ok l u" and w: "wide l u"
  defines "S \<equiv> wide_scale l u"
  shows "0 < S" "- 1 \<le> round_rat (l / S)" "round_rat (l / S) \<le> 0"
    "0 \<le> round_rat (u / S)" "round_rat (u / S) \<le> 1" "1 \<le> wide_den l u" "wide_den l u \<le> 2"
proof -
  note sg = wide_signs [OF seg w]
  show S: "0 < S" using sg by (simp add: S_def wide_scale_def)
  have lS: "- 1 \<le> l / S" "l / S \<le> 0"
    using S sg by (auto simp: S_def wide_scale_def le_divide_eq divide_le_0_iff)
  have uS: "0 \<le> u / S" "u / S \<le> 1"
    using S sg by (auto simp: S_def wide_scale_def divide_le_eq_1)
  show L: "- 1 \<le> round_rat (l / S)" "round_rat (l / S) \<le> 0"
    using lS by (auto intro: round_rat_ge round_rat_le)
  show U: "0 \<le> round_rat (u / S)" "round_rat (u / S) \<le> 1"
    using uS by (auto intro: round_rat_ge round_rat_le)
  have "S = u \<or> S = - l" using sg by (auto simp: S_def wide_scale_def)
  moreover have one: "round_rat 1 = 1" using representable_one by (simp add: representable_def)
  moreover have "round_rat (- 1) = - 1" by (simp add: round_rat_minus one)
  ultimately have "round_rat (u / S) = 1 \<or> round_rat (l / S) = - 1"
    using sg S by auto
  then have "1 \<le> round_rat (u / S) - round_rat (l / S)" using L U by auto
  then show "1 \<le> wide_den l u"
    unfolding wide_den_def S_def by (rule round_rat_ge) simp
  show "wide_den l u \<le> 2"
    unfolding wide_den_def S_def [symmetric] by (rule round_rat_le) (use L U in auto)
qed

lemma wide_position:
  assumes seg: "segment_ok l u" and t: "l \<le> t" "t \<le> u" and w: "wide l u"
  shows "curve_position (Fin l) (Fin u) (Fin t) = Fin (wide_pos l u t)"
    and "0 \<le> wide_pos l u t" "wide_pos l u t \<le> 2"
proof -
  define S where "S = wide_scale l u"
  note wp = wide_parts [OF seg w, folded S_def]
  have bounded: "\<bar>x / S\<bar> \<le> 2" if "\<bar>x\<bar> \<le> S" for x
    using that wp(1) by (simp add: abs_divide divide_le_eq)
  have abs: "\<bar>t\<bar> \<le> S" "\<bar>l\<bar> \<le> S" "\<bar>u\<bar> \<le> S" using t by (auto simp: S_def wide_scale_def)
  have fin: "f64_round (t / S) = Fin (round_rat (t / S))"
    "f64_round (l / S) = Fin (round_rat (l / S))" "f64_round (u / S) = Fin (round_rat (u / S))"
    using abs bounded by (auto intro!: f64_round_unit)
  have T: "round_rat (l / S) \<le> round_rat (t / S)" "round_rat (t / S) \<le> 1"
    using t abs(1) wp(1) by (auto intro!: round_rat_mono divide_right_mono round_rat_le simp: divide_le_eq_1)
  define n where "n = round_rat (round_rat (t / S) - round_rat (l / S))"
  have n: "0 \<le> n" "n \<le> 2"
    using T wp by (auto simp: n_def intro: round_rat_nonneg round_rat_le)
  have q: "0 \<le> n / wide_den l u" "n / wide_den l u \<le> 2"
    using n wp(6) by (auto simp: divide_le_eq)
  have fin2: "f64_round (round_rat (t / S) - round_rat (l / S)) = Fin n"
    "f64_round (round_rat (u / S) - round_rat (l / S)) = Fin (wide_den l u)"
    "f64_round (n / wide_den l u) = Fin (wide_pos l u t)"
    using T wp q unfolding n_def wide_den_def wide_pos_def S_def [symmetric]
    by (auto intro!: f64_round_unit)
  have scale: "max (max \<bar>t\<bar> \<bar>l\<bar>) \<bar>u\<bar> = S"
    using t by (auto simp: S_def wide_scale_def max_def)
  have notfin: "\<not> is_finite (f64_round (u - l))"
    using w by (simp add: f64_round_def wide_def)
  show "curve_position (Fin l) (Fin u) (Fin t) = Fin (wide_pos l u t)"
    using wp(1,6) by (simp add: curve_position_def Let_def f64_sub_def notfin scale fin fin2)
  show "0 \<le> wide_pos l u t" "wide_pos l u t \<le> 2"
    using q by (auto simp: wide_pos_def n_def S_def intro: round_rat_nonneg round_rat_le)
qed

lemma position:
  assumes "segment_ok l u" "l \<le> t" "t \<le> u"
  shows "curve_position (Fin l) (Fin u) (Fin t) = Fin (pos l u t)" "0 \<le> pos l u t" "pos l u t \<le> 2"
  using narrow_position [OF assms] wide_position [OF assms] by (auto simp: pos_def)

lemma pos_mono:
  assumes seg: "segment_ok l u" and "t \<le> t'"
  shows "pos l u t \<le> pos l u t'"
proof (cases "wide l u")
  case True
  note wp = wide_parts [OF seg True]
  have "wide_pos l u t \<le> wide_pos l u t'"
    unfolding wide_pos_def
    by (intro round_rat_mono divide_right_mono diff_mono) (use assms wp in auto)
  then show ?thesis by (simp add: pos_def True)
next
  case False
  have "narrow_pos l u t \<le> narrow_pos l u t'"
    unfolding narrow_pos_def
    by (intro round_rat_mono divide_right_mono diff_mono) (use assms span_pos [OF seg] in auto)
  then show ?thesis by (simp add: pos_def False)
qed

text \<open>Interpolation between two valid points: total, within their demands, and monotone.\<close>

definition blend :: "rat \<Rightarrow> rat \<Rightarrow> rat \<Rightarrow> rat" where
  "blend a b p = round_rat (a + round_rat (round_rat (b - a) * p))"

lemma representable_blend [simp]: "representable (blend a b p)"
  by (simp add: blend_def)

lemma interpolate_value:
  assumes lo: "cp_temperature lo = Fin l" "cp_demand lo = Fin a"
    and hi: "cp_temperature hi = Fin u" "cp_demand hi = Fin b"
    and d: "demand_ok (Fin a)" "demand_ok (Fin b)"
    and seg: "segment_ok l u" and t: "l \<le> t" "t \<le> u"
  shows "interpolate_demand lo hi (Fin t)
    = Ok (Fin (max (min a b) (min (max a b) (blend a b (pos l u t)))))"
proof -
  note ps = position [OF seg t]
  have ab: "0 \<le> a" "a \<le> 100" "0 \<le> b" "b \<le> 100" "representable a" "representable b"
    using d by (auto elim: demand_okE)
  have diff: "\<bar>b - a\<bar> \<le> 100" using ab by auto
  have rd: "\<bar>round_rat (b - a)\<bar> \<le> 100"
    using diff by (rule round_rat_abs_le) simp
  have "\<bar>round_rat (b - a) * pos l u t\<bar> \<le> 100 * 2"
    unfolding abs_mult using rd ps by (intro mult_mono) auto
  then have prod: "\<bar>round_rat (b - a) * pos l u t\<bar> \<le> 200" by simp
  have rp: "\<bar>round_rat (round_rat (b - a) * pos l u t)\<bar> \<le> 200"
    using prod by (rule round_rat_abs_le) simp
  have fin: "f64_round (b - a) = Fin (round_rat (b - a))"
    "f64_round (round_rat (b - a) * pos l u t) = Fin (round_rat (round_rat (b - a) * pos l u t))"
    "f64_round (a + round_rat (round_rat (b - a) * pos l u t)) = Fin (blend a b (pos l u t))"
    unfolding blend_def using diff prod rp ab
    by (auto intro!: f64_round_Fin [where b = 300])
  have ok: "demand_ok (Fin (max (min a b) (min (max a b) (blend a b x))))" for x
    using ab by (auto simp: demand_ok_def max_def min_def)
  have "demand_percent_try_from (Fin (max (min a b) (min (max a b) (blend a b (pos l u t)))))
    = Ok (Fin (max (min a b) (min (max a b) (blend a b (pos l u t)))))"
    using ok by (rule demand_try_from_demand_ok)
  then show ?thesis
    by (simp add: interpolate_demand_def Let_def lo hi ps f64_sub_def fin)
qed

lemma blend_mono:
  assumes "a \<le> b" "p \<le> q"
  shows "blend a b p \<le> blend a b q"
proof -
  have "0 \<le> round_rat (b - a)" by (rule round_rat_nonneg) (use assms in simp)
  then show ?thesis
    unfolding blend_def
    by (intro round_rat_mono add_left_mono mult_left_mono assms)
qed

section \<open>Evaluation\<close>

lemma point_okE:
  assumes "point_ok p"
  obtains q d where "cp_temperature p = Fin q" "representable q" "\<bar>q\<bar> < f64_limit"
    "cp_demand p = Fin d" "demand_ok (Fin d)"
  using assms by (auto simp: point_ok_def elim!: temperature_okE) (metis demand_okE)

lemma interpolate_between:
  assumes "point_ok lo" "point_ok hi" "strictly_hotter lo hi"
    and "f64_le (cp_temperature lo) t" "f64_le t (cp_temperature hi)"
  shows "\<exists>d. interpolate_demand lo hi t = (Ok d :: ('e, f64) outcome) \<and> demand_ok d
    \<and> f64_le (f64_min (cp_demand lo) (cp_demand hi)) d
    \<and> f64_le d (f64_max (cp_demand lo) (cp_demand hi))"
proof -
  obtain l a where lo: "cp_temperature lo = Fin l" "representable l" "\<bar>l\<bar> < f64_limit"
    "cp_demand lo = Fin a" "demand_ok (Fin a)" using assms(1) by (rule point_okE)
  obtain u b where hi: "cp_temperature hi = Fin u" "representable u" "\<bar>u\<bar> < f64_limit"
    "cp_demand hi = Fin b" "demand_ok (Fin b)" using assms(2) by (rule point_okE)
  have seg: "segment_ok l u"
    using assms(3) lo hi by (simp add: segment_ok_def strictly_hotter_def)
  obtain q where t: "t = Fin q" "l \<le> q" "q \<le> u"
    using assms(4,5) lo(1) hi(1) by (cases t) (auto simp: f64_le_def)
  show ?thesis
    using lo(5) hi(5)
    by (auto simp: t interpolate_value [OF lo(1,4) hi(1,4) lo(5) hi(5) seg t(2,3)] lo hi
        demand_ok_def max_def min_def)
qed

lemma interpolate_mono:
  assumes "point_ok lo" "point_ok hi" "strictly_hotter lo hi"
    and rise: "f64_le (cp_demand lo) (cp_demand hi)"
    and "f64_le (cp_temperature lo) t" "f64_le t t'" "f64_le t' (cp_temperature hi)"
    and "interpolate_demand lo hi t = (Ok d :: ('e, f64) outcome)"
    and "interpolate_demand lo hi t' = (Ok d' :: ('e, f64) outcome)"
  shows "f64_le d d'"
proof -
  obtain l a where lo: "cp_temperature lo = Fin l" "representable l" "\<bar>l\<bar> < f64_limit"
    "cp_demand lo = Fin a" "demand_ok (Fin a)" using assms(1) by (rule point_okE)
  obtain u b where hi: "cp_temperature hi = Fin u" "representable u" "\<bar>u\<bar> < f64_limit"
    "cp_demand hi = Fin b" "demand_ok (Fin b)" using assms(2) by (rule point_okE)
  have seg: "segment_ok l u"
    using assms(3) lo hi by (simp add: segment_ok_def strictly_hotter_def)
  obtain q q' where t: "t = Fin q" "t' = Fin q'" "l \<le> q" "q \<le> q'" "q' \<le> u"
    using assms(5-7) lo(1) hi(1) by (cases t; cases t') (auto simp: f64_le_def)
  have le: "blend a b (pos l u q) \<le> blend a b (pos l u q')"
    using rise lo(4) hi(4) t pos_mono [OF seg t(4)] by (intro blend_mono) auto
  have "q \<le> u" "l \<le> q'" using t by auto
  then show ?thesis
    using assms(8,9) le t
    by (auto simp: interpolate_value [OF lo(1,4) hi(1,4) lo(5) hi(5) seg] max_def min_def)
qed

text \<open>Evaluation above the first breakpoint, by recursion on the remaining points.\<close>

definition evaluate_above ::
  "curve_point \<Rightarrow> curve_point list \<Rightarrow> temperature_celsius \<Rightarrow> ('e, demand_percent) outcome" where
  "evaluate_above p ps t = evaluate_windows (windows2 (p # ps)) (cp_demand (last (p # ps))) t"

lemma evaluate_above_simps:
  "evaluate_above p [] t = Ok (cp_demand p)"
  "evaluate_above p (q # qs) t =
     (if f64_eq t (cp_temperature q) then Ok (cp_demand q)
      else if f64_less t (cp_temperature q) then interpolate_demand p q t
      else evaluate_above q qs t)"
  by (simp_all add: evaluate_above_def)

lemma evaluate_Cons:
  "evaluate (p # ps) t =
     (if f64_le t (cp_temperature p) then Ok (cp_demand p) else evaluate_above p ps t)"
  by (simp add: evaluate_def evaluate_above_def)

lemma curve_ok_Cons2:
  "curve_ok (p # q # qs) \<longleftrightarrow> point_ok p \<and> strictly_hotter p q \<and> curve_ok (q # qs)"
  using strictly_hotter_transp by (auto simp: curve_ok_def dest: transpD)

lemma curve_rising_Cons2:
  "curve_rising (p # q # qs) \<longleftrightarrow> f64_le (cp_demand p) (cp_demand q) \<and> curve_rising (q # qs)"
  by (auto simp: curve_rising_def intro: f64_le_trans)

lemma evaluate_above_ok:
  assumes "curve_ok (p # ps)" "temperature_ok t" "f64_less (cp_temperature p) t"
  shows "\<exists>d. evaluate_above p ps t = (Ok d :: ('e, f64) outcome) \<and> demand_ok d
    \<and> (curve_rising (p # ps) \<longrightarrow> f64_le (cp_demand p) d)"
  using assms
proof (induction ps arbitrary: p)
  case Nil
  then show ?case
    by (auto simp: evaluate_above_simps curve_ok_def point_ok_def elim!: demand_okE)
next
  case (Cons q qs)
  from Cons.prems have c: "point_ok p" "strictly_hotter p q" "curve_ok (q # qs)"
    by (auto simp: curve_ok_Cons2)
  then have q: "point_ok q" by (simp add: curve_ok_def)
  from Cons.prems(2) obtain x where x: "t = Fin x" by (rule temperature_okE)
  from c(1) obtain l a where p: "cp_temperature p = Fin l" "cp_demand p = Fin a" "demand_ok (Fin a)"
    by (rule point_okE)
  from q obtain u b where qq: "cp_temperature q = Fin u" "cp_demand q = Fin b" "demand_ok (Fin b)"
    by (rule point_okE)
  consider "x = u" | "x < u" | "u < x" by linarith
  then show ?case
  proof cases
    case 1
    then show ?thesis
      by (simp add: evaluate_above_simps x qq p curve_rising_Cons2)
  next
    case 2
    have "f64_le (cp_temperature p) t" "f64_le t (cp_temperature q)"
      using Cons.prems(3) 2 by (auto simp: p qq x)
    from interpolate_between [OF c(1) q c(2) this, where 'e = 'e] obtain d where
      d: "interpolate_demand p q t = (Ok d :: ('e, f64) outcome)" "demand_ok d" "f64_le (f64_min (Fin a) (Fin b)) d"
      by (auto simp: p qq)
    then show ?thesis
      using 2 by (auto simp: evaluate_above_simps x qq p curve_rising_Cons2 min_def split: if_splits)
  next
    case 3
    have "f64_less (cp_temperature q) t" using 3 by (simp add: x qq)
    from Cons.IH [OF c(3) Cons.prems(2) this] 3 show ?thesis
      by (auto simp: evaluate_above_simps x qq curve_rising_Cons2 intro: f64_le_trans)
  qed
qed

lemma evaluate_above_mono:
  assumes "curve_ok (p # ps)" "curve_rising (p # ps)" "temperature_ok t" "temperature_ok t'"
    and "f64_less (cp_temperature p) t" "f64_le t t'"
    and "evaluate_above p ps t = (Ok d :: ('e, f64) outcome)"
    and "evaluate_above p ps t' = (Ok d' :: ('e, f64) outcome)"
  shows "f64_le d d'"
  using assms
proof (induction ps arbitrary: p)
  case Nil
  then show ?case
    by (auto simp: evaluate_above_simps curve_ok_def point_ok_def elim!: demand_okE)
next
  case (Cons q qs)
  from Cons.prems have c: "point_ok p" "strictly_hotter p q" "curve_ok (q # qs)"
    by (auto simp: curve_ok_Cons2)
  then have q: "point_ok q" by (simp add: curve_ok_def)
  from Cons.prems have r: "f64_le (cp_demand p) (cp_demand q)" "curve_rising (q # qs)"
    by (auto simp: curve_rising_Cons2)
  from Cons.prems(3) obtain x where x: "t = Fin x" by (rule temperature_okE)
  from Cons.prems(4) obtain y where y: "t' = Fin y" by (rule temperature_okE)
  from c(1) obtain l a where p: "cp_temperature p = Fin l" "cp_demand p = Fin a" "demand_ok (Fin a)"
    by (rule point_okE)
  from q obtain u b where qq: "cp_temperature q = Fin u" "cp_demand q = Fin b" "demand_ok (Fin b)"
    by (rule point_okE)
  have xy: "l < x" "x \<le> y" using Cons.prems(5,6) by (auto simp: p x y)
  have up: "f64_le (cp_demand q) d'" if "u \<le> y"
  proof (cases "y = u")
    case True
    then show ?thesis using Cons.prems(8) by (auto simp: evaluate_above_simps y qq)
  next
    case False
    then have "f64_less (cp_temperature q) t'" using that by (simp add: y qq)
    from evaluate_above_ok [OF c(3) Cons.prems(4) this, where 'e = 'e] show ?thesis
      using Cons.prems(8) False that r by (auto simp: evaluate_above_simps y qq)
  qed
  have down: "f64_le d (cp_demand q)" if "x \<le> u"
  proof (cases "x = u")
    case True
    then show ?thesis using Cons.prems(7) by (auto simp: evaluate_above_simps x qq)
  next
    case False
    have "f64_le (cp_temperature p) t" "f64_le t (cp_temperature q)"
      using that xy by (auto simp: p qq x)
    from interpolate_between [OF c(1) q c(2) this, where 'e = 'e] show ?thesis
      using Cons.prems(7) False that r
      by (auto simp: evaluate_above_simps x qq p max_def split: if_splits)
  qed
  consider "u < x" | "x \<le> u" "u \<le> y" | "x < u" "y < u" using xy by linarith
  then show ?case
  proof cases
    case 1
    have "f64_less (cp_temperature q) t" using 1 by (simp add: x qq)
    moreover have "evaluate_above q qs t = (Ok d :: ('e, f64) outcome)"
      "evaluate_above q qs t' = (Ok d' :: ('e, f64) outcome)"
      using Cons.prems(7,8) 1 xy by (auto simp: evaluate_above_simps x y qq)
    ultimately show ?thesis
      by (rule Cons.IH [OF c(3) r(2) Cons.prems(3,4) _ Cons.prems(6)])
  next
    case 2
    show ?thesis using down [OF 2(1)] up [OF 2(2)] by (rule f64_le_trans)
  next
    case 3
    have "interpolate_demand p q t = (Ok d :: ('e, f64) outcome)"
      "interpolate_demand p q t' = (Ok d' :: ('e, f64) outcome)"
      using Cons.prems(7,8) 3 by (auto simp: evaluate_above_simps x y qq)
    then show ?thesis
      by (rule interpolate_mono [OF c(1) q c(2) r(1), rotated 3]) (use 3 xy in \<open>auto simp: p qq x y\<close>)
  qed
qed

lemma evaluate_ok:
  assumes "curve_ok c" "temperature_ok t"
  shows "\<exists>d. evaluate c t = (Ok d :: ('e, f64) outcome) \<and> demand_ok d"
proof -
  obtain p ps where c: "c = p # ps" using assms(1) by (cases c) (auto simp: curve_ok_def)
  have p: "point_ok p" using assms(1) by (simp add: c curve_ok_def)
  from p obtain l where l: "cp_temperature p = Fin l" by (rule point_okE)
  from assms(2) obtain x where x: "t = Fin x" by (rule temperature_okE)
  show ?thesis
  proof (cases "x \<le> l")
    case True
    then show ?thesis using p by (simp add: c evaluate_Cons x l point_ok_def)
  next
    case False
    then have "f64_less (cp_temperature p) t" by (simp add: x l)
    from evaluate_above_ok [OF assms(1) [unfolded c] assms(2) this, where 'e = 'e] False show ?thesis
      by (auto simp: c evaluate_Cons x l)
  qed
qed

lemma evaluate_mono_lemma:
  assumes "curve_ok c" "curve_rising c" "temperature_ok t" "temperature_ok t'" "f64_le t t'"
    and "evaluate c t = (Ok d :: ('e, f64) outcome)" "evaluate c t' = (Ok d' :: ('e, f64) outcome)"
  shows "f64_le d d'"
proof -
  obtain p ps where c: "c = p # ps" using assms(1) by (cases c) (auto simp: curve_ok_def)
  have p: "point_ok p" using assms(1) by (simp add: c curve_ok_def)
  from p obtain l a where l: "cp_temperature p = Fin l" "cp_demand p = Fin a" by (rule point_okE)
  from assms(3) obtain x where x: "t = Fin x" by (rule temperature_okE)
  from assms(4) obtain y where y: "t' = Fin y" by (rule temperature_okE)
  have xy: "x \<le> y" using assms(5) by (simp add: x y)
  consider "y \<le> l" | "x \<le> l" "l < y" | "l < x" by linarith
  then show ?thesis
  proof cases
    case 1
    then show ?thesis using assms(6,7) xy by (auto simp: c evaluate_Cons x y l)
  next
    case 2
    have "f64_less (cp_temperature p) t'" using 2 by (simp add: y l)
    from evaluate_above_ok [OF assms(1) [unfolded c] assms(4) this, where 'e = 'e] show ?thesis
      using 2 assms(2,6,7) by (auto simp: c evaluate_Cons x y l)
  next
    case 3
    have "f64_less (cp_temperature p) t" using 3 by (simp add: x l)
    moreover have "evaluate_above p ps t = (Ok d :: ('e, f64) outcome)"
      "evaluate_above p ps t' = (Ok d' :: ('e, f64) outcome)"
      using assms(6,7) 3 xy by (auto simp: c evaluate_Cons x y l)
    ultimately show ?thesis
      by (rule evaluate_above_mono [OF assms(1,2) [unfolded c] assms(3,4) _ assms(5)])
  qed
qed

lemma evaluate_at_last:
  assumes "curve_ok c" "temperature_ok t" "f64_le (cp_temperature (last c)) t"
  shows "evaluate c t = Ok (cp_demand (last c))"
proof -
  have above: "evaluate_above p ps t = Ok (cp_demand (last (p # ps)))"
    if "curve_ok (p # ps)" "f64_le (cp_temperature (last (p # ps))) t" for p ps
    using that
  proof (induction ps arbitrary: p)
    case (Cons q qs)
    from Cons.prems have c: "curve_ok (q # qs)" by (simp add: curve_ok_Cons2)
    have "f64_le (cp_temperature q) (cp_temperature (last (q # qs)))"
      using c by (cases "qs = []")
        (auto simp: curve_ok_def strictly_hotter_def list_all_iff point_ok_def f64_le_def
          elim!: temperature_okE dest!: bspec [of "set qs" _ "last qs"])
    then have "f64_le (cp_temperature q) t"
      using Cons.prems(2) by (auto intro: f64_le_trans)
    then show ?case
      using Cons.IH [OF c] Cons.prems(2) c assms(2)
      by (cases "qs = []")
        (auto simp: evaluate_above_simps curve_ok_def strictly_hotter_def list_all_iff point_ok_def f64_le_def
          elim!: temperature_okE dest!: bspec [of "set qs" _ "last qs"])
  qed (simp add: evaluate_above_simps)
  obtain p ps where c: "c = p # ps" using assms(1) by (cases c) (auto simp: curve_ok_def)
  show ?thesis
  proof (cases "f64_le t (cp_temperature p) \<and> ps \<noteq> []")
    case True
    then have "strictly_hotter p (last ps)" "f64_le (cp_temperature (last ps)) t"
      using assms(1,3) by (auto simp: c curve_ok_def)
    then have False using True unfolding strictly_hotter_def
      by (metis f64_le_trans f64_not_less f64_le_not_NaN)
    then show ?thesis ..
  next
    case False
    then show ?thesis using above [of p ps] assms(1,3) by (auto simp: c evaluate_Cons)
  qed
qed

section \<open>PWM conversion\<close>

definition scaled_pwm :: "rat \<Rightarrow> rat" where
  "scaled_pwm q = round_rat (round_rat (q * 255) / 100)"

lemma pwm_from_demand_Fin:
  assumes "0 \<le> q" "q \<le> 100"
  shows "pwm_from_demand (Fin q) = word_of_int \<lceil>scaled_pwm q\<rceil>"
    and "0 \<le> scaled_pwm q" "scaled_pwm q \<le> 255"
proof -
  have m: "0 \<le> round_rat (q * 255)" "round_rat (q * 255) \<le> 25500"
    using assms by (auto intro: round_rat_nonneg round_rat_le)
  then show b: "0 \<le> scaled_pwm q" "scaled_pwm q \<le> 255"
    by (auto simp: scaled_pwm_def intro: round_rat_nonneg round_rat_le)
  have fin: "f64_round (q * 255) = Fin (round_rat (q * 255))"
    "f64_round (round_rat (q * 255) / 100) = Fin (scaled_pwm q)"
    unfolding scaled_pwm_def using assms m by (auto intro!: f64_round_Fin [where b = 25500])
  have i: "f64_of_int 255 = Fin 255" using f64_of_small_int [of 255] by simp
  have c: "0 \<le> \<lceil>scaled_pwm q\<rceil>" "\<lceil>scaled_pwm q\<rceil> \<le> 255"
    using b by (auto simp: ceiling_le_iff zero_le_ceiling)
  have "(f64_to_unsigned (Fin (of_int \<lceil>scaled_pwm q\<rceil>)) :: u8) = word_of_int \<lceil>scaled_pwm q\<rceil>"
    using c by (intro f64_to_unsigned_of_int) auto
  then show "pwm_from_demand (Fin q) = word_of_int \<lceil>scaled_pwm q\<rceil>"
    by (simp add: pwm_from_demand_def Let_def i fin del: f64_to_unsigned.simps)
qed

lemma unat_pwm_from_demand:
  assumes "0 \<le> q" "q \<le> 100"
  shows "int (unat (pwm_from_demand (Fin q))) = \<lceil>scaled_pwm q\<rceil>"
proof -
  note f = pwm_from_demand_Fin [OF assms]
  have "0 \<le> \<lceil>scaled_pwm q\<rceil>" "\<lceil>scaled_pwm q\<rceil> \<le> 255"
    using f by (auto simp: ceiling_le_iff zero_le_ceiling)
  then show ?thesis by (simp add: f(1) unsigned_of_int take_bit_int_eq_self)
qed

lemma scaled_pwm_mono: "p \<le> q \<Longrightarrow> scaled_pwm p \<le> scaled_pwm q"
  unfolding scaled_pwm_def by (intro round_rat_mono divide_right_mono mult_right_mono) auto

lemma pwm_from_demand_mono:
  assumes "demand_ok d" "demand_ok e" "f64_le d e"
  shows "pwm_from_demand d \<le> pwm_from_demand e"
proof -
  obtain p q where pq: "d = Fin p" "e = Fin q" "0 \<le> p" "p \<le> 100" "0 \<le> q" "q \<le> 100" "p \<le> q"
    using assms by (auto elim!: demand_okE)
  have "int (unat (pwm_from_demand d)) \<le> int (unat (pwm_from_demand e))"
    using ceiling_mono [OF scaled_pwm_mono [OF pq(7)]]
      unat_pwm_from_demand [OF pq(3,4)] unat_pwm_from_demand [OF pq(5,6)]
    unfolding pq(1,2) by linarith
  then show ?thesis by (simp add: word_le_def)
qed


lemma ceiling_hundredths:
  assumes "0 \<le> k" "k \<le> 25500"
  shows "\<lceil>round_rat (of_int k / 100)\<rceil> = (k + 99) div 100"
proof -
  define m where "m = (k + 99) div 100"
  have m: "k \<le> 100 * m" "100 * m \<le> k + 99" "0 \<le> m" "m \<le> 255" using assms by (auto simp: m_def)
  have "of_int k \<le> (of_int (100 * m) :: rat)" using m(1) by (simp only: of_int_le_iff)
  then have "of_int k / 100 \<le> (of_int m :: rat)" by simp
  then have up: "round_rat (of_int k / 100) \<le> of_int m"
    by (rule round_rat_le) (rule representable_small_int, use m in simp)
  have "of_int m - 1 < round_rat (of_int k / 100)"
  proof (cases "m = 0")
    case True
    then show ?thesis using round_rat_nonneg [of "of_int k / 100"] assms by simp
  next
    case False
    define b :: rat where "b = of_nat (nat (128 * (m - 1) + 1)) * 2 powi (- 7)"
    have "representable b" unfolding b_def by (rule representable_scaled) (use m in auto)
    moreover have b: "b = of_int m - 1 + 1 / 128"
      using False m(3) by (simp add: b_def power_int_minus field_simps)
    have "of_int (100 * m) \<le> (of_int (k + 99) :: rat)" using m(2) by (simp only: of_int_le_iff)
    then have "b \<le> of_int k / 100" by (simp add: b)
    ultimately have "b \<le> round_rat (of_int k / 100)" by (intro round_rat_ge)
    then show ?thesis by (simp add: b)
  qed
  with up show ?thesis unfolding m_def [symmetric] by (intro ceiling_unique) simp_all
qed

lemma whole_percent_pwm:
  assumes "0 \<le> n" "n \<le> 100"
  shows "uint (pwm_from_demand (f64_of_int n)) = (n * 255 + 99) div 100"
proof -
  have n: "f64_of_int n = Fin (of_int n)" using assms by (intro f64_of_small_int) simp
  have "(0::rat) \<le> of_int n" "of_int n \<le> (of_int 100 :: rat)"
    using assms by (simp_all only: of_int_0_le_iff of_int_le_iff)
  then have b: "(0::rat) \<le> of_int n" "of_int n \<le> (100 :: rat)" by simp_all
  have "representable (of_int (n * 255))" by (rule representable_small_int) (use assms in simp)
  then have "scaled_pwm (of_int n) = round_rat (of_int (n * 255) / 100)"
    by (simp add: scaled_pwm_def representable_def)
  then show ?thesis
    using unat_pwm_from_demand [OF b] ceiling_hundredths [of "n * 255"] assms
    by (simp add: n)
qed

section \<open>The envelope comparison\<close>

definition covers_at :: "demand_curve \<Rightarrow> demand_curve \<Rightarrow> temperature_celsius \<Rightarrow> bool" where
  "covers_at candidate protected t =
     (case (evaluate candidate t :: (demand_curve_error, f64) outcome, evaluate protected t :: (demand_curve_error, f64) outcome) of
        (Ok c, Ok p) \<Rightarrow> \<not> f64_less (f64_add c envelope_comparison_epsilon) p
      | _ \<Rightarrow> False)"

text \<open>Evaluation does not depend on the error type it is used at.\<close>

lemma evaluate_any_error:
  assumes "curve_ok c" "temperature_ok t" "evaluate c t = (Ok d :: ('e, f64) outcome)"
  shows "evaluate c t = (Ok d :: ('f, f64) outcome)"
proof -
  have i: "interpolate_demand l u t = (Ok x :: ('e, f64) outcome) \<Longrightarrow> interpolate_demand l u t = (Ok x :: ('f, f64) outcome)"
    for l u x
    by (auto simp: interpolate_demand_def Let_def bind_ok_eq_Ok f64_clamp_def split: if_splits)
  have "evaluate_windows ws z t = (Ok x :: ('e, f64) outcome) \<Longrightarrow> evaluate_windows ws z t = (Ok x :: ('f, f64) outcome)"
    for ws z x
    by (induction ws) (auto split: if_splits intro: i)
  then show ?thesis using assms(3) by (auto simp: evaluate_def split: list.splits if_splits)
qed

lemma first_below_in_cases:
  assumes "curve_ok c" "curve_ok p" "list_all temperature_ok ts"
  shows "(\<forall>t \<in> set ts. covers_at c p t) \<and> first_below_in ts c p = (Ok None :: ('e, temperature_celsius option) outcome)
    \<or> (\<exists>t \<in> set ts. \<not> covers_at c p t \<and> first_below_in ts c p = (Ok (Some t) :: ('e, temperature_celsius option) outcome))"
  using assms(3)
proof (induction ts)
  case (Cons t ts)
  then have t: "temperature_ok t" by simp
  obtain a b where ab: "evaluate c t = (Ok a :: ('e, f64) outcome)" "evaluate p t = (Ok b :: ('e, f64) outcome)"
    using evaluate_ok [OF assms(1) t] evaluate_ok [OF assms(2) t] by metis
  have "evaluate c t = (Ok a :: (demand_curve_error, f64) outcome)" "evaluate p t = (Ok b :: (demand_curve_error, f64) outcome)"
    using evaluate_any_error [OF assms(1) t ab(1)] evaluate_any_error [OF assms(2) t ab(2)] by blast+
  then have "covers_at c p t \<longleftrightarrow> \<not> f64_less (f64_add a envelope_comparison_epsilon) b"
    by (simp add: covers_at_def)
  with Cons ab show ?case by auto
qed simp

lemma first_below_cases:
  assumes "curve_ok c" "curve_ok p"
  shows "(\<forall>q \<in> set (c @ p). covers_at c p (cp_temperature q)) \<and> first_below c p = (Ok None :: ('e, temperature_celsius option) outcome)
    \<or> (\<exists>q \<in> set (c @ p). \<not> covers_at c p (cp_temperature q)
        \<and> first_below c p = (Ok (Some (cp_temperature q)) :: ('e, temperature_celsius option) outcome))"
proof -
  have "list_all temperature_ok (map cp_temperature (c @ p))"
    using assms by (auto simp: curve_ok_def list_all_iff point_ok_def)
  from first_below_in_cases [OF assms this, where 'e = 'e] show ?thesis
    unfolding first_below_def by auto
qed

section \<open>Properties\<close>

text \<open>
  Evaluating a constructed demand curve at any finite temperature returns a demand in the range
  of 0 to 100 percent: the \<open>expect\<close> calls of \<open>DemandCurve::evaluate\<close> never fire, and neither does the
  panic of \<open>f64::clamp\<close>, whatever the rounding of the interpolation does.
\<close>

lemma evaluate_total:
  assumes "list_all point_ok points" "from_ordered_points points = Ok c" "temperature_ok t"
  shows "\<exists>d. evaluate c t = (Ok d :: ('e, demand_percent) outcome) \<and> demand_ok d"
  using assms evaluate_ok [of c t, where 'e = 'e] by (simp add: from_ordered_points_Ok)

definition sample_curve :: demand_curve where
  "sample_curve = [\<lparr>cp_temperature = Fin 40, cp_demand = Fin 30\<rparr>, \<lparr>cp_temperature = Fin 90, cp_demand = Fin 100\<rparr>]"

lemma sample_curve_ok: "list_all point_ok sample_curve" "curve_ok sample_curve" "curve_rising sample_curve"
  by (simp_all add: sample_curve_def point_ok_def temperature_ok_def f64_ok_def demand_ok_def
      curve_ok_def curve_rising_def strictly_hotter_def)

lemma temperature_ok_numeral [simp]:
  "(numeral k :: nat) < 2 ^ 53 \<Longrightarrow> temperature_ok (Fin (numeral k))"
  by (simp add: temperature_ok_def f64_ok_def)

text \<open>
  A curve whose demands do not decrease is evaluated monotonically: a hotter sample never gives
  a lower demand, although each interpolation rounds five times and the wide-span branch uses a
  different formula.
\<close>

lemma evaluate_mono:
  assumes "curve_ok c" "curve_rising c" "temperature_ok t" "temperature_ok t'" "f64_le t t'"
    and "evaluate c t = (Ok d :: ('e, demand_percent) outcome)"
    and "evaluate c t' = (Ok d' :: ('e, demand_percent) outcome)"
  shows "f64_le d d'"
  by (rule evaluate_mono_lemma [OF assms])

text \<open>
  The conversion to PWM is monotone, and on a whole percentage \<open>n\<close> it is exactly the least duty
  step covering it, the ceiling of \<open>n * 255 / 100\<close>; 100 percent is the maximum PWM.
\<close>

lemma pwm_conversion:
  "(demand_ok d \<longrightarrow> demand_ok e \<longrightarrow> f64_le d e \<longrightarrow> pwm_from_demand d \<le> pwm_from_demand e)
   \<and> (n \<in> {0..100} \<longrightarrow> uint (pwm_from_demand (f64_of_int n)) = (n * 255 + 99) div 100)
   \<and> pwm_from_demand (Fin 100) = pwm_maximum"
proof (intro conjI impI)
  assume "n \<in> {0..100}"
  then show "uint (pwm_from_demand (f64_of_int n)) = (n * 255 + 99) div 100"
    by (intro whole_percent_pwm) simp_all
next
  have "uint (pwm_from_demand (f64_of_int 100)) = uint pwm_maximum"
    by (subst whole_percent_pwm) (simp_all add: pwm_maximum_def unsigned_minus_1_eq_mask mask_eq_exp_minus_1)
  then show "pwm_from_demand (Fin 100) = pwm_maximum"
    by (simp add: word_uint_eq_iff f64_of_small_int)
qed (rule pwm_from_demand_mono)

end
