(* ===== verification/Policy.thy ===== *)
theory Policy
  imports Demand
begin

text \<open>
  The smoothing policy (\<open>fan-control-core/src/policy.rs\<close>): hysteresis on falling temperatures and
  the demand smoother that follows rises at once and delays and rate-limits falls. Shown here: the
  effective temperature never drops below the sample and is held inside the hysteresis band, and
  the smoother never commands less than its target, never falls before the hold has elapsed, and
  falls no faster than the configured rate.
\<close>

section \<open>Hysteresis\<close>

type_synonym hysteresis_celsius = f64

datatype hysteresis_error = HysteresisNonFinite | HysteresisNegative

definition hysteresis_try_from :: "f64 \<Rightarrow> (hysteresis_error, hysteresis_celsius) outcome" where
  "hysteresis_try_from value =
     (if \<not> is_finite value then Err HysteresisNonFinite
      else if f64_less value (Fin 0) then Err HysteresisNegative
      else Ok value)"

record effective_temperature =
  et_current :: temperature_celsius

definition effective_temperature_new :: "temperature_celsius \<Rightarrow> effective_temperature" where
  "effective_temperature_new initial = \<lparr>et_current = initial\<rparr>"

definition effective_temperature_update ::
  "temperature_celsius \<Rightarrow> hysteresis_celsius
     \<Rightarrow> (effective_temperature, 'e, temperature_celsius) io" where
  "effective_temperature_update sample hysteresis self =
     (if f64_le (et_current self) sample
      then (Ok sample, self\<lparr>et_current := sample\<rparr>)
      else
        (let effective = f64_max sample (f64_min (et_current self) (f64_add sample hysteresis))
         in case temperature_try_from effective of
              Ok current \<Rightarrow> (Ok current, self\<lparr>et_current := current\<rparr>)
            | _ \<Rightarrow> (Panic, self)))"

section \<open>Demand smoothing\<close>

type_synonym monotonic_time = duration

definition elapsed_since :: "monotonic_time \<Rightarrow> monotonic_time \<Rightarrow> duration" where
  "elapsed_since self earlier = duration_saturating_sub self earlier"

record downshift_policy =
  hold :: duration
  max_down_rate_percent_per_second :: f64

datatype downshift_policy_error = NonFiniteRate | NonPositiveRate

definition downshift_policy_new ::
  "duration \<Rightarrow> f64 \<Rightarrow> (downshift_policy_error, downshift_policy) outcome" where
  "downshift_policy_new hold_time rate =
     (if \<not> is_finite rate then Err NonFiniteRate
      else if f64_le rate (Fin 0) then Err NonPositiveRate
      else Ok \<lparr>hold = hold_time, max_down_rate_percent_per_second = rate\<rparr>)"

datatype monotonic_time_error = WentBackwards

record demand_smoother =
  commanded :: demand_percent
  last_target :: demand_percent
  smoothing_policy :: downshift_policy
  pending_since :: "monotonic_time option"
  last_update :: monotonic_time

definition demand_smoother_new ::
  "demand_percent \<Rightarrow> downshift_policy \<Rightarrow> monotonic_time \<Rightarrow> demand_smoother" where
  "demand_smoother_new initial policy now =
     \<lparr>commanded = initial, last_target = initial, smoothing_policy = policy,
      pending_since = None, last_update = now\<rparr>"

definition ramp_elapsed :: "downshift_policy \<Rightarrow> monotonic_time \<Rightarrow> monotonic_time \<Rightarrow> monotonic_time \<Rightarrow> duration" where
  "ramp_elapsed policy since before now =
     (let held_before = elapsed_since before since; held_now = elapsed_since now since
      in duration_saturating_sub
           (duration_saturating_sub held_now (hold policy))
           (duration_saturating_sub held_before (hold policy)))"

definition demand_smoother_update ::
  "demand_percent \<Rightarrow> monotonic_time
     \<Rightarrow> (demand_smoother, monotonic_time_error, demand_percent) io" where
  "demand_smoother_update target now self =
     (if now < last_update self then (Err WentBackwards, self)
      else if f64_le (commanded self) target
      then (Ok target,
            self\<lparr>commanded := target, last_target := target, pending_since := None,
                 last_update := now\<rparr>)
      else if f64_less (last_target self) target
      then (Ok (commanded self),
            self\<lparr>last_target := target, pending_since := Some now, last_update := now\<rparr>)
      else
        (let since = (case pending_since self of Some t \<Rightarrow> t | None \<Rightarrow> now);
             self1 = self\<lparr>pending_since := Some since\<rparr>;
             elapsed = ramp_elapsed (smoothing_policy self) since (last_update self) now
         in if elapsed = 0
            then (Ok (commanded self1), self1\<lparr>last_target := target, last_update := now\<rparr>)
            else
              (let decrease = f64_mul (max_down_rate_percent_per_second (smoothing_policy self))
                     (as_secs_f64 elapsed);
                   next = f64_max (f64_sub (commanded self1) decrease) target
               in case demand_percent_try_from next of
                    Ok c \<Rightarrow>
                      (Ok c,
                       self1\<lparr>commanded := c,
                             pending_since := (if f64_eq c target then None else Some since),
                             last_target := target, last_update := now\<rparr>)
                  | _ \<Rightarrow> (Panic, self1))))"

section \<open>Invariants\<close>

definition hysteresis_ok :: "hysteresis_celsius \<Rightarrow> bool" where
  "hysteresis_ok h = (temperature_ok h \<and> f64_le (Fin 0) h)"

definition policy_ok :: "downshift_policy \<Rightarrow> bool" where
  "policy_ok p =
     (temperature_ok (max_down_rate_percent_per_second p)
      \<and> f64_less (Fin 0) (max_down_rate_percent_per_second p))"

definition smoother_ok :: "demand_smoother \<Rightarrow> bool" where
  "smoother_ok s =
     (demand_ok (commanded s) \<and> demand_ok (last_target s) \<and> policy_ok (smoothing_policy s)
      \<and> f64_le (last_target s) (commanded s)
      \<and> (case pending_since s of None \<Rightarrow> True | Some t \<Rightarrow> t \<le> last_update s))"

lemma hysteresis_try_from_Ok:
  "f64_ok x \<Longrightarrow> hysteresis_try_from x = Ok h \<longleftrightarrow> h = x \<and> hysteresis_ok x"
  by (cases x) (auto simp: hysteresis_try_from_def hysteresis_ok_def temperature_ok_def)

lemma downshift_policy_new_Ok:
  assumes "f64_ok r"
  shows "downshift_policy_new t r = Ok p
    \<longleftrightarrow> p = \<lparr>hold = t, max_down_rate_percent_per_second = r\<rparr> \<and> policy_ok p"
  using assms by (cases r) (auto simp: downshift_policy_new_def policy_ok_def temperature_ok_def)


section \<open>Hysteresis holds and never undercuts the sample\<close>

lemma effective_temperature_update_ok:
  assumes "temperature_ok (et_current e)" "temperature_ok s" "hysteresis_ok h"
  obtains t where "effective_temperature_update s h e = ((Ok t :: ('e, f64) outcome), \<lparr>et_current = t\<rparr>)"
    "temperature_ok t" "f64_le s t"
    "f64_le (et_current e) s \<Longrightarrow> t = s"
    "f64_less s (et_current e) \<Longrightarrow> t = f64_min (et_current e) (f64_add s h)"
proof -
  obtain c where c: "et_current e = Fin c" "representable c" "\<bar>c\<bar> < f64_limit"
    using assms(1) by (rule temperature_okE)
  obtain q where q: "s = Fin q" "representable q" "\<bar>q\<bar> < f64_limit"
    using assms(2) by (rule temperature_okE)
  obtain k where k: "h = Fin k" "0 \<le> k"
    using assms(3) by (auto simp: hysteresis_ok_def elim: temperature_okE)
  have e: "e = \<lparr>et_current = Fin c\<rparr>" using c(1) by (cases e) simp
  show thesis
  proof (cases "c \<le> q")
    case True
    show thesis
      by (rule that [of s])
        (use True assms(2) in \<open>auto simp: effective_temperature_update_def e q\<close>)
  next
    case False
    have up: "f64_le (Fin q) (f64_add s h)"
      using f64_round_mono [of q "q + k"] f64_round_exact [OF q(2,3)] k by (simp add: q)
    have fin: "f64_add s h = PInf \<or> (\<exists>r. f64_add s h = Fin r \<and> representable r \<and> q \<le> r)"
      using up f64_round_finite [of "q + k"] by (cases "f64_round (q + k)") (auto simp: q k)
    define t where "t = f64_min (Fin c) (f64_add s h)"
    have t: "f64_max s t = t" "temperature_ok t" "f64_le s t"
      using fin False q c
      by (auto simp: t_def f64_min_def f64_max_def temperature_ok_def f64_ok_def)
    show thesis
      by (rule that [of t])
        (use False t in \<open>auto simp: effective_temperature_update_def e q temperature_try_from_def
          temperature_ok_def t_def Let_def\<close>)
  qed
qed


section \<open>The smoother follows rises and limits falls\<close>

definition ramp_floor :: "demand_smoother \<Rightarrow> duration \<Rightarrow> f64" where
  "ramp_floor s elapsed =
     f64_sub (commanded s)
       (f64_mul (max_down_rate_percent_per_second (smoothing_policy s)) (as_secs_f64 elapsed))"

lemma ramp_floor_le:
  assumes "smoother_ok s"
  shows "f64_le (ramp_floor s d) (commanded s)"
proof -
  obtain c where c: "commanded s = Fin c" "representable c" "0 \<le> c" "c \<le> 100"
    using assms by (auto simp: smoother_ok_def elim: demand_okE)
  obtain r where r: "max_down_rate_percent_per_second (smoothing_policy s) = Fin r" "0 < r"
    using assms by (auto simp: smoother_ok_def policy_ok_def elim!: temperature_okE)
  have "c < f64_limit" using c(4) by (rule order_le_less_trans) simp
  with c(2,3) show ?thesis unfolding ramp_floor_def c(1) r(1)
    by (intro f64_sub_le f64_mul_pos_nonneg as_secs_f64_nonneg r) simp_all
qed

lemma ramp_floor_antimono:
  assumes "smoother_ok s" "d \<le> d'" "d' < 2 ^ 53 * 1000000000"
  shows "f64_le (ramp_floor s d') (ramp_floor s d)"
proof -
  obtain c where c: "commanded s = Fin c"
    using assms by (auto simp: smoother_ok_def elim: demand_okE)
  obtain r where r: "max_down_rate_percent_per_second (smoothing_policy s) = Fin r" "0 < r"
    using assms by (auto simp: smoother_ok_def policy_ok_def elim!: temperature_okE)
  show ?thesis unfolding ramp_floor_def c r(1)
    by (intro f64_sub_antimono f64_mul_pos_mono as_secs_f64_nonneg as_secs_f64_mono r assms)
qed

lemma demand_max:
  assumes "f64_ok x" "f64_le x d" "demand_ok d" "demand_ok t" "f64_less t d"
  shows "demand_ok (f64_max x t)" "f64_le t (f64_max x t)" "f64_le x (f64_max x t)" "f64_le (f64_max x t) d"
proof -
  obtain c where c: "d = Fin c" "c \<le> 100" using assms(3) by (rule demand_okE)
  obtain q where q: "t = Fin q" "representable q" "0 \<le> q" "q \<le> 100" using assms(4) by (rule demand_okE)
  have "x = NInf \<or> (\<exists>r. x = Fin r \<and> representable r \<and> r \<le> c)"
    using assms(1,2) by (cases x) (auto simp: f64_ok_def c)
  then have "demand_ok (f64_max x t) \<and> f64_le t (f64_max x t) \<and> f64_le x (f64_max x t) \<and> f64_le (f64_max x t) d"
    using assms(5) q c by (auto simp: f64_max_def demand_ok_def)
  then show "demand_ok (f64_max x t)" "f64_le t (f64_max x t)" "f64_le x (f64_max x t)" "f64_le (f64_max x t) d"
    by simp_all
qed

lemma ramp_target:
  assumes "smoother_ok s" "demand_ok t" "f64_less t (commanded s)"
  shows "demand_ok (f64_max (ramp_floor s e) t)" "f64_le t (f64_max (ramp_floor s e) t)"
    "f64_le (ramp_floor s e) (f64_max (ramp_floor s e) t)"
    "f64_le (f64_max (ramp_floor s e) t) (commanded s)"
proof -
  have d: "demand_ok (commanded s)" using assms(1) by (simp add: smoother_ok_def)
  then have "f64_ok (ramp_floor s e)" by (auto simp: ramp_floor_def f64_ok_sub_Fin elim: demand_okE)
  note m = demand_max [OF this ramp_floor_le [OF assms(1)] d assms(2,3)]
  show "demand_ok (f64_max (ramp_floor s e) t)" "f64_le t (f64_max (ramp_floor s e) t)"
    "f64_le (ramp_floor s e) (f64_max (ramp_floor s e) t)"
    "f64_le (f64_max (ramp_floor s e) t) (commanded s)"
    by (fact m)+
qed

text \<open>What one update does: follow a rise, hold, or ramp down after the hold.\<close>

lemma smoother_update_cases:
  assumes "smoother_ok s" "demand_ok target" "last_update s \<le> now"
  obtains
    (rise) "f64_le (commanded s) target"
      "demand_smoother_update target now s =
         (Ok target, s\<lparr>commanded := target, last_target := target, pending_since := None,
            last_update := now\<rparr>)"
  | (held) p where "f64_less target (commanded s)" "p \<le> now"
      "pending_since s = None \<Longrightarrow> p = now" "\<And>q. pending_since s = Some q \<Longrightarrow> q \<le> p"
      "demand_smoother_update target now s =
         (Ok (commanded s), s\<lparr>last_target := target, pending_since := Some p, last_update := now\<rparr>)"
  | (ramp) p e d where "f64_less target (commanded s)" "pending_since s = Some p"
      "p + hold (smoothing_policy s) < now" "0 < e" "e \<le> now - last_update s"
      "d = f64_max (ramp_floor s e) target"
      "demand_smoother_update target now s =
         (Ok d, s\<lparr>commanded := d, pending_since := (if f64_eq d target then None else Some p),
            last_target := target, last_update := now\<rparr>)"
proof (cases "f64_le (commanded s) target")
  case True
  with assms(3) show thesis by (intro rise) (simp_all add: demand_smoother_update_def)
next
  case False
  obtain c t where ct: "commanded s = Fin c" "target = Fin t"
    using assms(1,2) by (metis demand_okE smoother_ok_def)
  have less: "f64_less target (commanded s)" using False by (simp add: ct)
  define p where "p = (case pending_since s of Some t \<Rightarrow> t | None \<Rightarrow> now)"
  define e where "e = ramp_elapsed (smoothing_policy s) p (last_update s) now"
  have p: "p \<le> now" "pending_since s = None \<Longrightarrow> p = now" "\<And>q. pending_since s = Some q \<Longrightarrow> p = q"
    using assms by (auto simp: p_def smoother_ok_def split: option.splits)
  consider (raised) "f64_less (last_target s) target" | (waiting) "\<not> f64_less (last_target s) target" "e = 0"
    | (ramping) "\<not> f64_less (last_target s) target" "e \<noteq> 0" by blast
  then show thesis
  proof cases
    case raised
    then show thesis
      using False assms less
      by (intro held [of now]) (auto simp: demand_smoother_update_def smoother_ok_def)
  next
    case waiting
    then have "demand_smoother_update target now s =
      (Ok (commanded s), s\<lparr>last_target := target, pending_since := Some p, last_update := now\<rparr>)"
      using False assms(3) by (simp add: demand_smoother_update_def Let_def p_def e_def)
    then show thesis using less p by (intro held [of p]) auto
  next
    case ramping
    define d where "d = f64_max (ramp_floor s e) target"
    have "demand_ok d"
      unfolding d_def by (rule ramp_target(1) [OF assms(1,2) less])
    then have "demand_percent_try_from (f64_max (ramp_floor s e) target) = Ok d"
      by (simp add: d_def demand_try_from_demand_ok)
    then have u: "demand_smoother_update target now s =
      (Ok d, s\<lparr>commanded := d, pending_since := (if f64_eq d target then None else Some p),
          last_target := target, last_update := now\<rparr>)"
      using ramping False assms(3)
      by (simp add: demand_smoother_update_def Let_def p_def [symmetric] e_def [symmetric] ramp_floor_def)
    have e: "0 < e" "p + hold (smoothing_policy s) < now" "e \<le> now - last_update s"
      using ramping p(1) assms(3)
      by (auto simp: e_def ramp_elapsed_def Let_def elapsed_since_def duration_saturating_sub_def)
    then have "pending_since s = Some p" using p by (cases "pending_since s") auto
    then show thesis using less e u by (intro ramp [of p e d]) (auto simp: d_def)
  qed
qed


lemma smoother_update_ok:
  assumes "smoother_ok s" "demand_ok target" "last_update s \<le> now"
  shows "\<exists>d s'. demand_smoother_update target now s = (Ok d, s') \<and> smoother_ok s' \<and> commanded s' = d
    \<and> last_update s' = now \<and> smoothing_policy s' = smoothing_policy s
    \<and> f64_le target d \<and> (f64_le (commanded s) target \<longrightarrow> d = target)
    \<and> (f64_less target (commanded s) \<longrightarrow> f64_le d (commanded s))"
  using assms
proof (cases rule: smoother_update_cases)
  case rise
  with assms show ?thesis by (auto simp: smoother_ok_def elim!: demand_okE)
next
  case (held p)
  with assms show ?thesis by (auto simp: smoother_ok_def elim!: demand_okE)
next
  case (ramp p e d)
  note d = ramp_target [OF assms(1,2) ramp(1), of e, folded ramp(6)]
  show ?thesis
    using d ramp assms by (auto simp: smoother_ok_def elim!: demand_okE)
qed

lemma smoother_rate_bound:
  assumes "smoother_ok s" "demand_ok target" "last_update s \<le> now" "now < 2 ^ 53 * 1000000000"
    and "demand_smoother_update target now s = (Ok d, s')"
  shows "f64_le (ramp_floor s (now - last_update s)) d"
  using assms(1-3)
proof (cases rule: smoother_update_cases)
  case rise
  then show ?thesis using assms(5) ramp_floor_le [OF assms(1)] by (auto intro: f64_le_trans)
next
  case (held p)
  then show ?thesis using assms(5) ramp_floor_le [OF assms(1)] by auto
next
  case (ramp p e d')
  then have "f64_le (ramp_floor s (now - last_update s)) (ramp_floor s e)"
    using assms by (intro ramp_floor_antimono) auto
  also have "f64_le (ramp_floor s e) d'"
    using ramp_target(3) [OF assms(1,2) ramp(1), of e] by (simp add: ramp(6))
  finally (f64_le_trans) show ?thesis using assms(5) ramp(7) by simp
qed

text \<open>A sequence of updates with their times, and the state after it.\<close>

fun smoother_run :: "(demand_percent \<times> monotonic_time) list \<Rightarrow> demand_smoother \<Rightarrow> demand_smoother" where
  "smoother_run [] s = s"
| "smoother_run ((target, now) # rest) s = smoother_run rest (snd (demand_smoother_update target now s))"

lemma smoother_run_hold:
  assumes "smoother_ok s" "\<forall>(target, now) \<in> set us. demand_ok target
      \<and> start \<le> now \<and> now \<le> start + hold (smoothing_policy s)"
    and "sorted (last_update s # map snd us)"
    and "\<forall>p. pending_since s = Some p \<longrightarrow> start \<le> p"
  shows "f64_le (commanded s) (commanded (smoother_run us s))"
  using assms
proof (induction us arbitrary: s)
  case Nil
  then show ?case by (auto simp: smoother_ok_def elim!: demand_okE)
next
  case (Cons u us)
  obtain target now where u: "u = (target, now)" by (cases u)
  have now: "demand_ok target" "last_update s \<le> now" using Cons.prems by (auto simp: u)
  obtain d s' where s': "demand_smoother_update target now s = (Ok d, s')" "smoother_ok s'"
    "commanded s' = d" "last_update s' = now" "smoothing_policy s' = smoothing_policy s"
    using smoother_update_ok [OF Cons.prems(1) now] by blast
  have step: "f64_le (commanded s) (commanded s') \<and> (\<forall>p. pending_since s' = Some p \<longrightarrow> start \<le> p)"
    using Cons.prems(1) now
  proof (cases rule: smoother_update_cases)
    case rise
    then show ?thesis using s' by auto
  next
    case (held p)
    then show ?thesis using s' Cons.prems by (cases "pending_since s") (auto simp: smoother_ok_def u elim!: demand_okE)
  next
    case (ramp p e d)
    then show ?thesis using Cons.prems by (force simp: u)
  qed
  have "f64_le (commanded s') (commanded (smoother_run us s'))"
    by (rule Cons.IH) (use Cons.prems s' step in \<open>auto simp: u\<close>)
  then show ?case using step s' by (auto simp: u intro: f64_le_trans)
qed


section \<open>Properties\<close>

text \<open>
  Hysteresis never lowers the effective temperature below the sample, follows a rise at once,
  and keeps the current value while the sample is within the hysteresis band below it; the
  \<open>expect\<close> on the resulting temperature never fires.
\<close>

lemma effective_temperature_hysteresis:
  assumes "temperature_ok (et_current e)" "temperature_ok s" "hysteresis_ok h"
  shows "\<exists>t. effective_temperature_update s h e = ((Ok t :: ('e, f64) outcome), \<lparr>et_current = t\<rparr>)
    \<and> temperature_ok t \<and> f64_le s t
    \<and> (f64_le (et_current e) s \<longrightarrow> t = s)
    \<and> (f64_le s (et_current e) \<and> f64_le (et_current e) (f64_add s h) \<longrightarrow> t = et_current e)"
proof -
  obtain t where t: "effective_temperature_update s h e = ((Ok t :: ('e, f64) outcome), \<lparr>et_current = t\<rparr>)"
    "temperature_ok t" "f64_le s t" "f64_le (et_current e) s \<Longrightarrow> t = s"
    "f64_less s (et_current e) \<Longrightarrow> t = f64_min (et_current e) (f64_add s h)"
    using effective_temperature_update_ok [OF assms] by metis
  have "t = et_current e" if b: "f64_le s (et_current e)" "f64_le (et_current e) (f64_add s h)"
  proof (cases "f64_less s (et_current e)")
    case True
    from t(5) [OF this] b(2) show ?thesis
      by (cases "et_current e"; cases "f64_add s h") (auto simp: f64_min_def f64_le_def)
  next
    case False
    then show ?thesis using b(1) assms(1,2) t(4) by (auto elim!: temperature_okE)
  qed
  with t show ?thesis by blast
qed

text \<open>
  C35. An update of the smoother at a time not before the last one succeeds, keeps the smoother's
  invariant, never commands less than the target, follows a target at or above the commanded
  demand at once, and never overshoots upward when the target is below it. A clock that went
  backwards is an error and leaves the smoother unchanged.
\<close>

theorem smoother_update_correct:
  assumes "smoother_ok s" "demand_ok target"
  shows "(now < last_update s \<longrightarrow> demand_smoother_update target now s = (Err WentBackwards, s))
    \<and> (last_update s \<le> now \<longrightarrow>
        (\<exists>d s'. demand_smoother_update target now s = (Ok d, s') \<and> smoother_ok s' \<and> commanded s' = d
          \<and> f64_le target d \<and> (f64_le (commanded s) target \<longrightarrow> d = target)
          \<and> (f64_less target (commanded s) \<longrightarrow> f64_le d (commanded s))))"
  using smoother_update_ok [OF assms, of now] by (auto simp: demand_smoother_update_def)

definition sample_policy :: downshift_policy where
  "sample_policy = \<lparr>hold = from_secs 10, max_down_rate_percent_per_second = Fin 1\<rparr>"

definition sample_smoother :: demand_smoother where
  "sample_smoother = demand_smoother_new (Fin 80) sample_policy 0"

lemma sample_smoother_ok [simp]: "smoother_ok sample_smoother"
  by (simp add: sample_smoother_def demand_smoother_new_def sample_policy_def smoother_ok_def
      demand_ok_def policy_ok_def temperature_ok_def f64_ok_def)

lemma sample_smoother_fields [simp]:
  "last_update sample_smoother = 0" "pending_since sample_smoother = None"
  "hold (smoothing_policy sample_smoother) = 10000000000" "commanded sample_smoother = Fin 80"
  by (simp_all add: sample_smoother_def demand_smoother_new_def sample_policy_def from_secs_def)

theorem smoother_update_correct_witness:
  "\<exists>d s'. demand_smoother_update (Fin 40) 5 sample_smoother = (Ok d, s') \<and> smoother_ok s' \<and> f64_le (Fin 40) d"
proof -
  have "demand_ok (Fin 40)" by (simp add: demand_ok_def)
  from smoother_update_correct [OF sample_smoother_ok this, of 5] show ?thesis by auto
qed

text \<open>
  While no more than the configured hold has passed since the smoother first saw a lower
  target, no sequence of updates lowers the commanded demand.
\<close>

lemma smoother_holds:
  assumes "smoother_ok s" "pending_since s = None"
    and "\<forall>(target, now) \<in> set us. demand_ok target
      \<and> start \<le> now \<and> now \<le> start + hold (smoothing_policy s)"
    and "sorted (last_update s # map snd us)"
  shows "f64_le (commanded s) (commanded (smoother_run us s))"
  using assms by (intro smoother_run_hold [where start = start]) auto

text \<open>
  One update lowers the commanded demand by no more than the configured rate times the time
  since the previous update, in the arithmetic the code uses, for clocks below \<open>2^53\<close> seconds.
\<close>

lemma smoother_rate_limited:
  assumes "smoother_ok s" "demand_ok target" "last_update s \<le> now" "now < 2 ^ 53 * 1000000000"
    and "demand_smoother_update target now s = (Ok d, s')"
  shows "f64_le (f64_sub (commanded s)
      (f64_mul (max_down_rate_percent_per_second (smoothing_policy s))
        (as_secs_f64 (now - last_update s)))) d"
  using smoother_rate_bound [OF assms] by (simp add: ramp_floor_def)

end
