(* ===== verification/Config.thy ===== *)
theory Config
  imports Policy
begin

text \<open>
  The configuration (\<open>fan-control-core/src/config.rs\<close>) and its validation (\<open>validation.rs\<close>).
  Parsing TOML is done by a library and is not modelled; the deserializers the crate writes
  itself are. Shown here: validation never panics, accepts exactly the documented ranges, and
  what it accepts has well-formed rising curves that reach full demand at the component's limit.
\<close>

section \<open>config.rs\<close>

type_synonym i64 = int

record curve_point_config =
  temperature_c :: i64
  cfg_demand_percent :: i64

record profile_config =
  cfg_cpu_curve :: "curve_point_config list"
  cfg_gpu_curve :: "curve_point_config list"

record profiles_config =
  cfg_ac :: profile_config
  cfg_battery :: profile_config

record fan_config =
  minimum_duty_percent :: i64

record fans_config =
  cfg_cpu :: fan_config
  cfg_gpu :: fan_config

type_synonym finite_f64 = f64

record control_config =
  hysteresis_celsius :: i64
  lower_demand_hold_seconds :: i64
  max_down_ramp_percent_per_second :: finite_f64

record config_v1 =
  cfg_schema_version :: u32
  cfg_control :: control_config
  cfg_fans :: fans_config
  cfg_profiles :: profiles_config

definition finite_f64_visit :: "f64 \<Rightarrow> (string, finite_f64) outcome" where
  "finite_f64_visit value =
     (if is_finite value then Ok value else Err ''floating-point number must be finite'')"

definition deserialize_schema_version :: "i64 \<Rightarrow> (string, u32) outcome" where
  "deserialize_schema_version version =
     (if version = 1 then Ok 1 else Err ''schema_version must be 1'')"

section \<open>validation.rs\<close>

definition min_temperature_celsius :: i64 where "min_temperature_celsius = 0"
definition cpu_max_temperature_celsius :: i64 where "cpu_max_temperature_celsius = 90"
definition gpu_max_temperature_celsius :: i64 where "gpu_max_temperature_celsius = 82"

datatype profile = Ac | Battery

datatype component = ComponentCpu | ComponentGpu

fun maximum_temperature :: "component \<Rightarrow> i64" where
  "maximum_temperature ComponentCpu = cpu_max_temperature_celsius"
| "maximum_temperature ComponentGpu = gpu_max_temperature_celsius"

datatype fan = FanCpu | FanGpu

fun profile_name :: "profile \<Rightarrow> string" where
  "profile_name Ac = ''ac''"
| "profile_name Battery = ''battery''"

fun component_name :: "component \<Rightarrow> string" where
  "component_name ComponentCpu = ''cpu''"
| "component_name ComponentGpu = ''gpu''"

fun component_curve_name :: "component \<Rightarrow> string" where
  "component_curve_name ComponentCpu = ''cpu_curve''"
| "component_curve_name ComponentGpu = ''gpu_curve''"

fun fan_name :: "fan \<Rightarrow> string" where
  "fan_name FanCpu = ''cpu''"
| "fan_name FanGpu = ''gpu''"

record validated_profile_config =
  cpu_curve :: demand_curve
  gpu_curve :: demand_curve

record validated_profiles_config =
  ac :: validated_profile_config
  battery :: validated_profile_config

record validated_fan_config =
  minimum_duty :: demand_percent

record validated_fans_config =
  cpu :: validated_fan_config
  gpu :: validated_fan_config

record validated_control_config =
  hysteresis :: hysteresis_celsius
  downshift :: downshift_policy

record validated_config =
  schema_version :: u32
  control :: validated_control_config
  fans :: validated_fans_config
  profiles :: validated_profiles_config

datatype config_validation_error =
    UnsupportedSchemaVersion u32
  | HysteresisOutOfRange i64
  | LowerDemandHoldOutOfRange i64
  | MaxDownRampOutOfRange f64
  | FanMinimumOutOfRange fan i64
  | CurveTooShort profile component nat
  | TemperatureOutOfRange profile component nat i64 i64 i64
  | TemperaturesNotStrictlyIncreasing profile component nat
  | CurveDemandOutOfRange profile component nat i64
  | DemandDecreases profile component nat
  | DoesNotReachFullDemand profile component i64

definition validate_fan_minimum :: "fan \<Rightarrow> i64 \<Rightarrow> (config_validation_error, demand_percent) outcome" where
  "validate_fan_minimum fan value =
     (if \<not> (1 \<le> value \<and> value \<le> 99) then Err (FanMinimumOutOfRange fan value)
      else expect_ok (demand_percent_try_from (f64_of_int value)))"

fun validate_points ::
  "profile \<Rightarrow> component \<Rightarrow> i64 \<Rightarrow> nat \<Rightarrow> curve_point_config option \<Rightarrow> curve_point_config list
     \<Rightarrow> (config_validation_error, unit) outcome" where
  "validate_points profile component maximum index previous [] = Ok ()"
| "validate_points profile component maximum index previous (point # rest) =
     (if \<not> (min_temperature_celsius \<le> temperature_c point \<and> temperature_c point \<le> maximum)
      then Err (TemperatureOutOfRange profile component index (temperature_c point)
             min_temperature_celsius maximum)
      else if \<not> (0 \<le> cfg_demand_percent point \<and> cfg_demand_percent point \<le> 100)
      then Err (CurveDemandOutOfRange profile component index (cfg_demand_percent point))
      else
        bind_ok
          (case previous of
             None \<Rightarrow> Ok ()
           | Some previous \<Rightarrow>
               if temperature_c point \<le> temperature_c previous
               then Err (TemperaturesNotStrictlyIncreasing profile component index)
               else if cfg_demand_percent point < cfg_demand_percent previous
               then Err (DemandDecreases profile component index)
               else Ok ())
          (\<lambda>_. validate_points profile component maximum (index + 1) (Some point) rest))"

definition runtime_point :: "curve_point_config \<Rightarrow> (config_validation_error, curve_point) outcome" where
  "runtime_point point =
     bind_ok (expect_ok (temperature_try_from (f64_of_int (temperature_c point)))) (\<lambda>temperature.
     bind_ok (expect_ok (demand_percent_try_from (f64_of_int (cfg_demand_percent point)))) (\<lambda>demand.
       Ok \<lparr>cp_temperature = temperature, cp_demand = demand\<rparr>))"

definition validate_curve ::
  "profile \<Rightarrow> component \<Rightarrow> curve_point_config list \<Rightarrow> (config_validation_error, demand_curve) outcome" where
  "validate_curve profile component points =
     (if length points < 2 then Err (CurveTooShort profile component (length points))
      else
        (let maximum = maximum_temperature component
         in bind_ok (validate_points profile component maximum 0 None points) (\<lambda>_.
              if \<not> list_ex (\<lambda>point. temperature_c point \<le> maximum \<and> cfg_demand_percent point = 100) points
              then Err (DoesNotReachFullDemand profile component maximum)
              else
                bind_ok (map_ok runtime_point points) (\<lambda>runtime_points.
                  expect_ok (from_ordered_points runtime_points)))))"

definition validate_config_v1 :: "config_v1 \<Rightarrow> (config_validation_error, validated_config) outcome" where
  "validate_config_v1 config =
     (let hysteresis_value = hysteresis_celsius (cfg_control config);
          hold_seconds = lower_demand_hold_seconds (cfg_control config);
          down_rate = max_down_ramp_percent_per_second (cfg_control config)
      in if cfg_schema_version config \<noteq> 1 then Err (UnsupportedSchemaVersion (cfg_schema_version config))
         else if \<not> (3 \<le> hysteresis_value \<and> hysteresis_value \<le> 10)
         then Err (HysteresisOutOfRange hysteresis_value)
         else if \<not> (10 \<le> hold_seconds \<and> hold_seconds \<le> 300)
         then Err (LowerDemandHoldOutOfRange hold_seconds)
         else if \<not> (f64_le (f64_round (1 / 10)) down_rate \<and> f64_le down_rate (Fin 1))
         then Err (MaxDownRampOutOfRange down_rate)
         else
           bind_ok (validate_fan_minimum FanCpu (minimum_duty_percent (cfg_cpu (cfg_fans config)))) (\<lambda>cpu_minimum.
           bind_ok (validate_fan_minimum FanGpu (minimum_duty_percent (cfg_gpu (cfg_fans config)))) (\<lambda>gpu_minimum.
           bind_ok (validate_curve Ac ComponentCpu (cfg_cpu_curve (cfg_ac (cfg_profiles config)))) (\<lambda>ac_cpu.
           bind_ok (validate_curve Ac ComponentGpu (cfg_gpu_curve (cfg_ac (cfg_profiles config)))) (\<lambda>ac_gpu.
           bind_ok (validate_curve Battery ComponentCpu (cfg_cpu_curve (cfg_battery (cfg_profiles config)))) (\<lambda>battery_cpu.
           bind_ok (validate_curve Battery ComponentGpu (cfg_gpu_curve (cfg_battery (cfg_profiles config)))) (\<lambda>battery_gpu.
           bind_ok (expect_ok (hysteresis_try_from (f64_of_int hysteresis_value))) (\<lambda>hyst.
           bind_ok (expect_ok (downshift_policy_new (from_secs (nat hold_seconds)) down_rate)) (\<lambda>downshift_policy.
             Ok \<lparr>schema_version = cfg_schema_version config,
                 control = \<lparr>hysteresis = hyst, downshift = downshift_policy\<rparr>,
                 fans = \<lparr>cpu = \<lparr>minimum_duty = cpu_minimum\<rparr>, gpu = \<lparr>minimum_duty = gpu_minimum\<rparr>\<rparr>,
                 profiles = \<lparr>ac = \<lparr>cpu_curve = ac_cpu, gpu_curve = ac_gpu\<rparr>,
                             battery = \<lparr>cpu_curve = battery_cpu, gpu_curve = battery_gpu\<rparr>\<rparr>\<rparr>)))))))))"

section \<open>What validation accepts and guarantees\<close>

text \<open>The documented ranges, on the integers of the file.\<close>

definition curve_valid :: "component \<Rightarrow> curve_point_config list \<Rightarrow> bool" where
  "curve_valid component points =
     (2 \<le> length points
      \<and> (\<forall>p \<in> set points. 0 \<le> temperature_c p \<and> temperature_c p \<le> maximum_temperature component
           \<and> 0 \<le> cfg_demand_percent p \<and> cfg_demand_percent p \<le> 100)
      \<and> sorted_wrt (\<lambda>p q. temperature_c p < temperature_c q \<and> cfg_demand_percent p \<le> cfg_demand_percent q) points
      \<and> (\<exists>p \<in> set points. cfg_demand_percent p = 100))"

definition config_valid :: "config_v1 \<Rightarrow> bool" where
  "config_valid c =
     (cfg_schema_version c = 1
      \<and> 3 \<le> hysteresis_celsius (cfg_control c) \<and> hysteresis_celsius (cfg_control c) \<le> 10
      \<and> 10 \<le> lower_demand_hold_seconds (cfg_control c) \<and> lower_demand_hold_seconds (cfg_control c) \<le> 300
      \<and> f64_le (f64_round (1 / 10)) (max_down_ramp_percent_per_second (cfg_control c))
      \<and> f64_le (max_down_ramp_percent_per_second (cfg_control c)) (Fin 1)
      \<and> minimum_duty_percent (cfg_cpu (cfg_fans c)) \<in> {1..99}
      \<and> minimum_duty_percent (cfg_gpu (cfg_fans c)) \<in> {1..99}
      \<and> curve_valid ComponentCpu (cfg_cpu_curve (cfg_ac (cfg_profiles c)))
      \<and> curve_valid ComponentGpu (cfg_gpu_curve (cfg_ac (cfg_profiles c)))
      \<and> curve_valid ComponentCpu (cfg_cpu_curve (cfg_battery (cfg_profiles c)))
      \<and> curve_valid ComponentGpu (cfg_gpu_curve (cfg_battery (cfg_profiles c))))"

definition protective_curve :: "component \<Rightarrow> demand_curve \<Rightarrow> bool" where
  "protective_curve component c =
     (curve_ok c \<and> curve_rising c \<and> cp_demand (last c) = Fin 100
      \<and> f64_le (cp_temperature (last c)) (Fin (of_int (maximum_temperature component))))"

definition profile_ok :: "validated_profile_config \<Rightarrow> bool" where
  "profile_ok p = (protective_curve ComponentCpu (cpu_curve p) \<and> protective_curve ComponentGpu (gpu_curve p))"

definition config_ok :: "validated_config \<Rightarrow> bool" where
  "config_ok v =
     (hysteresis_ok (hysteresis (control v)) \<and> policy_ok (downshift (control v))
      \<and> demand_ok (minimum_duty (cpu (fans v))) \<and> demand_ok (minimum_duty (gpu (fans v)))
      \<and> f64_le (Fin 1) (minimum_duty (cpu (fans v))) \<and> f64_le (Fin 1) (minimum_duty (gpu (fans v)))
      \<and> profile_ok (ac (profiles v)) \<and> profile_ok (battery (profiles v)))"


definition point_in_range :: "i64 \<Rightarrow> curve_point_config \<Rightarrow> bool" where
  "point_in_range m p = (0 \<le> temperature_c p \<and> temperature_c p \<le> m
     \<and> 0 \<le> cfg_demand_percent p \<and> cfg_demand_percent p \<le> 100)"

definition rises :: "curve_point_config \<Rightarrow> curve_point_config \<Rightarrow> bool" where
  "rises p q = (temperature_c p < temperature_c q \<and> cfg_demand_percent p \<le> cfg_demand_percent q)"

lemma transp_rises: "transp rises"
  by (auto simp: rises_def intro: transpI)

lemma curve_valid_alt:
  "curve_valid component points =
     (2 \<le> length points \<and> (\<forall>p \<in> set points. point_in_range (maximum_temperature component) p)
      \<and> sorted_wrt rises points \<and> (\<exists>p \<in> set points. cfg_demand_percent p = 100))"
  by (simp add: curve_valid_def point_in_range_def rises_def [abs_def])

lemma validate_points_after:
  "validate_points pr co m i (Some a) pts = Ok ()
     \<longleftrightarrow> (\<forall>p \<in> set pts. point_in_range m p) \<and> sorted_wrt rises (a # pts)"
proof (induction pts arbitrary: i a)
  case (Cons p ps)
  then show ?case
    by (auto simp: sorted_wrt2 [OF transp_rises] point_in_range_def min_temperature_celsius_def
        simp del: sorted_wrt.simps) (auto simp: rises_def)
qed simp

lemma validate_points_Ok:
  "validate_points pr co m i None pts = Ok ()
     \<longleftrightarrow> (\<forall>p \<in> set pts. point_in_range m p) \<and> sorted_wrt rises pts"
  by (cases pts) (auto simp: validate_points_after point_in_range_def min_temperature_celsius_def)

lemma validate_points_no_panic: "validate_points pr co m i prev pts \<noteq> Panic"
  by (induction pts arbitrary: i prev) (auto simp: bind_ok_eq_Panic split: option.splits)

definition exact_point :: "curve_point_config \<Rightarrow> curve_point" where
  "exact_point p = \<lparr>cp_temperature = Fin (of_int (temperature_c p)),
     cp_demand = Fin (of_int (cfg_demand_percent p))\<rparr>"

lemma maximum_temperature_small: "maximum_temperature co < 2 ^ 53" "0 \<le> maximum_temperature co"
  by (cases co; simp add: cpu_max_temperature_celsius_def gpu_max_temperature_celsius_def)+

lemma demand_ok_int: "0 \<le> n \<Longrightarrow> n \<le> 100 \<Longrightarrow> demand_ok (Fin (of_int n))"
  by (simp add: demand_ok_def representable_small_int)

lemma temperature_ok_int:
  assumes "0 \<le> n" "n < 2 ^ 53"
  shows "temperature_ok (Fin (of_int n))"
proof -
  have "(of_int n :: rat) < of_int (2 ^ 53)" using assms(2) by (simp only: of_int_less_iff)
  then have "(of_int n :: rat) < f64_limit" using pow2_53_lt by simp
  then show ?thesis
    using assms by (simp add: temperature_ok_def f64_ok_def representable_small_int)
qed

lemma runtime_point_exact:
  assumes "point_in_range (maximum_temperature co) p"
  shows "runtime_point p = Ok (exact_point p)" "point_ok (exact_point p)"
proof -
  have n: "0 \<le> temperature_c p" "temperature_c p < 2 ^ 53"
    "0 \<le> cfg_demand_percent p" "cfg_demand_percent p \<le> 100"
    using assms maximum_temperature_small [of co] by (simp_all add: point_in_range_def)
  then have f: "f64_of_int (temperature_c p) = Fin (of_int (temperature_c p))"
    "f64_of_int (cfg_demand_percent p) = Fin (of_int (cfg_demand_percent p))"
    by (simp_all add: f64_of_small_int)
  note d = demand_ok_int [OF n(3,4)] temperature_ok_int [OF n(1,2)]
  show "runtime_point p = Ok (exact_point p)"
    using demand_try_from_demand_ok [OF d(1)]
    by (simp add: runtime_point_def f temperature_try_from_def exact_point_def)
  show "point_ok (exact_point p)" using d by (simp add: point_ok_def exact_point_def)
qed

lemma exact_curve:
  assumes "curve_valid co pts"
  shows "curve_ok (map exact_point pts)" "protective_curve co (map exact_point pts)"
proof -
  have v: "pts \<noteq> []" "\<forall>p \<in> set pts. point_in_range (maximum_temperature co) p" "sorted_wrt rises pts"
    using assms by (auto simp: curve_valid_alt)
  show ok: "curve_ok (map exact_point pts)"
    using v runtime_point_exact(2)
    by (auto simp: curve_ok_def list_all_iff sorted_wrt_map strictly_hotter_def exact_point_def rises_def
        intro: sorted_wrt_mono_rel [OF _ v(3)])
  have rising: "curve_rising (map exact_point pts)"
    by (auto simp: curve_rising_def sorted_wrt_map exact_point_def rises_def
        intro: sorted_wrt_mono_rel [OF _ v(3)])
  obtain p where p: "p \<in> set pts" "cfg_demand_percent p = 100"
    using assms by (auto simp: curve_valid_alt)
  have l: "last pts \<in> set pts" using v(1) by simp
  have "cfg_demand_percent p \<le> cfg_demand_percent (last pts)"
    using v(1,3) p(1)
    by (cases pts rule: rev_cases) (auto simp: sorted_wrt_append rises_def)
  then have "cfg_demand_percent (last pts) = 100"
    using v(2) l p(2) by (force simp: point_in_range_def)
  moreover have "temperature_c (last pts) \<le> maximum_temperature co"
    using v(2) l by (simp add: point_in_range_def)
  ultimately show "protective_curve co (map exact_point pts)"
    using ok rising v(1) by (simp add: protective_curve_def last_map exact_point_def)
qed

lemma validate_curve_Ok:
  assumes "curve_valid co pts"
  shows "validate_curve pr co pts = Ok (map exact_point pts)"
proof -
  have v: "\<not> length pts < 2" "\<forall>p \<in> set pts. point_in_range (maximum_temperature co) p" "sorted_wrt rises pts"
    and full: "list_ex (\<lambda>p. temperature_c p \<le> maximum_temperature co \<and> cfg_demand_percent p = 100) pts"
    using assms by (auto simp: curve_valid_alt list_ex_iff point_in_range_def)
  have "map_ok runtime_point pts = Ok (map exact_point pts)"
    using v(2) by (intro map_ok_total) (auto simp: runtime_point_exact)
  moreover have "from_ordered_points (map exact_point pts) = Ok (map exact_point pts)"
    using exact_curve(1) [OF assms] by (subst from_ordered_points_Ok) (simp_all add: curve_ok_def)
  ultimately show ?thesis
    using v full by (simp add: validate_curve_def validate_points_Ok [THEN iffD2])
qed

lemma validate_curve_Err:
  assumes "\<not> curve_valid co pts"
  shows "\<exists>e. validate_curve pr co pts = Err e"
proof (cases "validate_points pr co (maximum_temperature co) 0 None pts")
  case (Ok u)
  then have "\<forall>p \<in> set pts. point_in_range (maximum_temperature co) p" "sorted_wrt rises pts"
    by (simp_all add: validate_points_Ok)
  with assms have "length pts < 2 \<or> \<not> (\<exists>p \<in> set pts. cfg_demand_percent p = 100)"
    by (auto simp: curve_valid_alt)
  then show ?thesis using Ok by (auto simp: validate_curve_def Let_def list_ex_iff)
qed (auto simp: validate_curve_def validate_points_no_panic)

lemma validate_fan_minimum_cases:
  "n \<in> {1..99} \<Longrightarrow> validate_fan_minimum f n = Ok (Fin (of_int n))"
  "n \<notin> {1..99} \<Longrightarrow> validate_fan_minimum f n = Err (FanMinimumOutOfRange f n)"
  by (auto simp: validate_fan_minimum_def f64_of_small_int demand_ok_int demand_try_from_demand_ok)


lemma round_tenth_pos: "f64_less (Fin 0) (f64_round (1 / 10))" "f64_round (1 / 10) \<noteq> NaN"
proof -
  have "representable ((2::rat) powi (- 4))" by (rule round_rat_pow2) simp
  moreover have "(2::rat) powi (- 4) \<le> 1 / 10" by (simp add: power_int_minus)
  ultimately have "(2::rat) powi (- 4) \<le> round_rat (1 / 10)" by (intro round_rat_ge)
  moreover have "0 < (2::rat) powi (- 4)" by simp
  ultimately have p: "0 < round_rat (1 / 10)" by linarith
  have "f64_round (1 / 10) = Fin (round_rat (1 / 10))" by (rule f64_round_Fin [of _ 1]) simp_all
  then show "f64_less (Fin 0) (f64_round (1 / 10))" "f64_round (1 / 10) \<noteq> NaN" using p by simp_all
qed

lemma down_rate_policy:
  assumes "f64_ok r" "f64_le (f64_round (1 / 10)) r" "f64_le r (Fin 1)"
  shows "downshift_policy_new t r = Ok \<lparr>hold = t, max_down_rate_percent_per_second = r\<rparr>"
    "policy_ok \<lparr>hold = t, max_down_rate_percent_per_second = r\<rparr>"
proof -
  have "f64_less (Fin 0) r"
    using assms(2,3) round_tenth_pos by (cases "f64_round (1 / 10)"; cases r) auto
  moreover have "is_finite r" using assms(3) calculation by (cases r) auto
  ultimately show "policy_ok \<lparr>hold = t, max_down_rate_percent_per_second = r\<rparr>"
    using assms(1) by (simp add: policy_ok_def temperature_ok_def)
  then show "downshift_policy_new t r = Ok \<lparr>hold = t, max_down_rate_percent_per_second = r\<rparr>"
    by (subst downshift_policy_new_Ok [OF assms(1)]) simp
qed

definition exact_profile :: "profile_config \<Rightarrow> validated_profile_config" where
  "exact_profile p = \<lparr>cpu_curve = map exact_point (cfg_cpu_curve p),
     gpu_curve = map exact_point (cfg_gpu_curve p)\<rparr>"

definition exact_config :: "config_v1 \<Rightarrow> validated_config" where
  "exact_config c =
     \<lparr>schema_version = cfg_schema_version c,
      control = \<lparr>hysteresis = Fin (of_int (hysteresis_celsius (cfg_control c))),
        downshift = \<lparr>hold = from_secs (nat (lower_demand_hold_seconds (cfg_control c))),
          max_down_rate_percent_per_second = max_down_ramp_percent_per_second (cfg_control c)\<rparr>\<rparr>,
      fans = \<lparr>cpu = \<lparr>minimum_duty = Fin (of_int (minimum_duty_percent (cfg_cpu (cfg_fans c))))\<rparr>,
              gpu = \<lparr>minimum_duty = Fin (of_int (minimum_duty_percent (cfg_gpu (cfg_fans c))))\<rparr>\<rparr>,
      profiles = \<lparr>ac = exact_profile (cfg_ac (cfg_profiles c)),
                  battery = exact_profile (cfg_battery (cfg_profiles c))\<rparr>\<rparr>"

lemma validate_config_Ok:
  assumes "config_valid c" "f64_ok (max_down_ramp_percent_per_second (cfg_control c))"
  shows "validate_config_v1 c = Ok (exact_config c)" "config_ok (exact_config c)"
proof -
  note v = assms(1) [unfolded config_valid_def]
  define h where "h = hysteresis_celsius (cfg_control c)"
  have h: "3 \<le> h" "h \<le> 10" using v by (simp_all add: h_def)
  then have hok: "hysteresis_ok (Fin (of_int h))"
    by (simp add: hysteresis_ok_def temperature_ok_int)
  then have "hysteresis_try_from (f64_of_int h) = Ok (Fin (of_int h))"
    using h by (subst hysteresis_try_from_Ok) (simp_all add: f64_of_small_int hysteresis_ok_def temperature_ok_def)
  moreover have "downshift_policy_new t (max_down_ramp_percent_per_second (cfg_control c))
    = Ok \<lparr>hold = t, max_down_rate_percent_per_second = max_down_ramp_percent_per_second (cfg_control c)\<rparr>" for t
    using v by (intro down_rate_policy(1) assms(2)) simp_all
  ultimately show "validate_config_v1 c = Ok (exact_config c)"
    using v unfolding h_def
    by (simp add: validate_config_v1_def Let_def validate_fan_minimum_cases validate_curve_Ok
        exact_config_def exact_profile_def)
  have "policy_ok \<lparr>hold = t, max_down_rate_percent_per_second = max_down_ramp_percent_per_second (cfg_control c)\<rparr>" for t
    using v by (intro down_rate_policy(2) assms(2)) simp_all
  then show "config_ok (exact_config c)"
    using v hok unfolding h_def
    by (simp add: config_ok_def exact_config_def demand_ok_int profile_ok_def exact_profile_def exact_curve)
qed

lemma validate_config_Err:
  assumes "\<not> config_valid c"
  shows "\<exists>e. validate_config_v1 c = Err e"
proof -
  define ce where "ce pr co pts = (case validate_curve pr co pts of Err e \<Rightarrow> e | _ \<Rightarrow> UnsupportedSchemaVersion 0)"
    for pr co pts
  have ce: "validate_curve pr co pts = Err (ce pr co pts)" if "\<not> curve_valid co pts" for pr co pts
    using validate_curve_Err [OF that, of pr] by (auto simp: ce_def)
  have curve: "bind_ok (validate_curve pr co pts) k =
      (if curve_valid co pts then k (map exact_point pts) else Err (ce pr co pts))"
    for pr co pts and k :: "demand_curve \<Rightarrow> (config_validation_error, validated_config) outcome"
    by (simp add: validate_curve_Ok ce)
  have fan: "bind_ok (validate_fan_minimum f n) k = (if n \<in> {1..99} then k (Fin (of_int n))
      else Err (FanMinimumOutOfRange f n))" for f n and k :: "demand_percent \<Rightarrow> (config_validation_error, validated_config) outcome"
    using validate_fan_minimum_cases [of n f] by auto
  show ?thesis
    using assms unfolding validate_config_v1_def config_valid_def Let_def fan curve by auto
qed

section \<open>Properties\<close>

text \<open>
  C32. Validation accepts exactly the configurations within the documented ranges and rejects every
  other one with an error; it never panics, so the \<open>expect\<close> calls behind the range checks are sound.
  What it accepts has valid hysteresis and downshift policies, floors of at least one percent, and
  strictly ordered, non-decreasing curves that end in full demand at or below the component's limit.
\<close>

theorem validate_config_v1_correct:
  assumes "f64_ok (max_down_ramp_percent_per_second (cfg_control c))"
  shows "(config_valid c \<longrightarrow> (\<exists>v. validate_config_v1 c = Ok v \<and> config_ok v))
    \<and> (\<not> config_valid c \<longrightarrow> (\<exists>e. validate_config_v1 c = Err e))"
  using validate_config_Ok [OF _ assms] validate_config_Err by blast

text \<open>The shipped example configuration.\<close>

definition cfg_point :: "i64 \<Rightarrow> i64 \<Rightarrow> curve_point_config" where
  "cfg_point t d = \<lparr>temperature_c = t, cfg_demand_percent = d\<rparr>"

definition example_config :: config_v1 where
  "example_config =
     \<lparr>cfg_schema_version = 1,
      cfg_control = \<lparr>hysteresis_celsius = 3, lower_demand_hold_seconds = 10,
        max_down_ramp_percent_per_second = Fin 1\<rparr>,
      cfg_fans = \<lparr>cfg_cpu = \<lparr>minimum_duty_percent = 30\<rparr>, cfg_gpu = \<lparr>minimum_duty_percent = 25\<rparr>\<rparr>,
      cfg_profiles =
        \<lparr>cfg_ac = \<lparr>cfg_cpu_curve = [cfg_point 40 30, cfg_point 90 100],
                   cfg_gpu_curve = [cfg_point 35 30, cfg_point 82 100]\<rparr>,
         cfg_battery = \<lparr>cfg_cpu_curve = [cfg_point 40 30, cfg_point 70 50, cfg_point 90 100],
                        cfg_gpu_curve = [cfg_point 35 30, cfg_point 65 50, cfg_point 82 100]\<rparr>\<rparr>\<rparr>"

lemma round_tenth_le_1: "f64_le (f64_round (1 / 10)) (Fin 1)"
  using f64_round_mono [of "1 / 10" 1] f64_round_exact [of 1] by simp

lemma example_config_valid: "config_valid example_config"
  "f64_ok (max_down_ramp_percent_per_second (cfg_control example_config))"
  by (simp_all add: config_valid_def example_config_def curve_valid_def cfg_point_def round_tenth_le_1
      cpu_max_temperature_celsius_def gpu_max_temperature_celsius_def f64_ok_def)

theorem validate_config_v1_correct_witness:
  "\<exists>v. validate_config_v1 example_config = Ok v \<and> config_ok v"
  using validate_config_v1_correct [OF example_config_valid(2)] example_config_valid(1) by blast

end
