(* ===== verification/Output.thy ===== *)
theory Output
  imports Config
begin

text \<open>
  Output selection (\<open>fan-control-core/src/output.rs\<close>) and the comparison with the protected
  envelope (\<open>envelope.rs\<close>). Shown here: with a validated configuration the outputs exist for every
  pair of finite temperatures, are monotone, respect the floors and are maximal once a component
  reaches its limit; an unknown power source is treated as AC; and the envelope check accepts
  exactly the candidates that are nowhere below the protected configuration at a breakpoint.
\<close>

section \<open>output.rs\<close>

datatype external_power = Connected | Disconnected | Unknown

record fan_outputs =
  cpu_pwm :: pwm
  gpu_pwm :: pwm

definition fan_outputs_maximum :: fan_outputs where
  "fan_outputs_maximum = \<lparr>cpu_pwm = pwm_maximum, gpu_pwm = pwm_maximum\<rparr>"

fun selected_profile :: "validated_config \<Rightarrow> external_power \<Rightarrow> validated_profile_config" where
  "selected_profile config Disconnected = battery (profiles config)"
| "selected_profile config Connected = ac (profiles config)"
| "selected_profile config Unknown = ac (profiles config)"

definition maximum :: "demand_percent \<Rightarrow> demand_percent \<Rightarrow> demand_percent" where
  "maximum left right = (if f64_le right left then left else right)"

definition calculate_target_demand ::
  "validated_config \<Rightarrow> temperature_celsius \<Rightarrow> temperature_celsius \<Rightarrow> external_power
     \<Rightarrow> ('e, demand_percent) outcome" where
  "calculate_target_demand config cpu_temperature gpu_temperature external_power =
     (let profile = selected_profile config external_power
      in bind_ok (evaluate (cpu_curve profile) cpu_temperature) (\<lambda>c.
         bind_ok (evaluate (gpu_curve profile) gpu_temperature) (\<lambda>g.
           Ok (maximum c g))))"

definition fan_outputs_for_demand :: "validated_config \<Rightarrow> demand_percent \<Rightarrow> fan_outputs" where
  "fan_outputs_for_demand config demand =
     \<lparr>cpu_pwm = pwm_from_demand (maximum demand (minimum_duty (cpu (fans config)))),
      gpu_pwm = pwm_from_demand (maximum demand (minimum_duty (gpu (fans config))))\<rparr>"

definition calculate_fan_outputs ::
  "validated_config \<Rightarrow> temperature_celsius \<Rightarrow> temperature_celsius \<Rightarrow> external_power
     \<Rightarrow> ('e, fan_outputs) outcome" where
  "calculate_fan_outputs config cpu_temperature gpu_temperature external_power =
     bind_ok (calculate_target_demand config cpu_temperature gpu_temperature external_power) (\<lambda>target.
       Ok (fan_outputs_for_demand config target))"

section \<open>envelope.rs\<close>

datatype envelope_validation_error =
    FanFloorBelowProtected fan f64 f64
  | CurveBelowProtected profile component f64

definition validate_floor :: "fan \<Rightarrow> f64 \<Rightarrow> f64 \<Rightarrow> (envelope_validation_error, unit) outcome" where
  "validate_floor fan candidate_percent protected_percent =
     (if f64_less candidate_percent protected_percent
      then Err (FanFloorBelowProtected fan candidate_percent protected_percent)
      else Ok ())"

fun validate_profile_curves ::
  "profile \<Rightarrow> (component \<times> demand_curve \<times> demand_curve) list \<Rightarrow> (envelope_validation_error, unit) outcome" where
  "validate_profile_curves profile [] = Ok ()"
| "validate_profile_curves profile ((component, candidate_curve, protected_curve) # rest) =
     bind_ok (first_below candidate_curve protected_curve) (\<lambda>below.
       case below of
         Some temperature \<Rightarrow> Err (CurveBelowProtected profile component temperature)
       | None \<Rightarrow> validate_profile_curves profile rest)"

definition validate_profile ::
  "profile \<Rightarrow> validated_profile_config \<Rightarrow> validated_profile_config
     \<Rightarrow> (envelope_validation_error, unit) outcome" where
  "validate_profile profile candidate protected =
     validate_profile_curves profile
       [(ComponentCpu, cpu_curve candidate, cpu_curve protected),
        (ComponentGpu, gpu_curve candidate, gpu_curve protected)]"

definition validate_against_protected_envelope ::
  "validated_config \<Rightarrow> validated_config \<Rightarrow> (envelope_validation_error, unit) outcome" where
  "validate_against_protected_envelope candidate protected =
     bind_ok (validate_floor FanCpu (minimum_duty (cpu (fans candidate))) (minimum_duty (cpu (fans protected)))) (\<lambda>_.
     bind_ok (validate_floor FanGpu (minimum_duty (gpu (fans candidate))) (minimum_duty (gpu (fans protected)))) (\<lambda>_.
     bind_ok (validate_profile Ac (ac (profiles candidate)) (ac (profiles protected))) (\<lambda>_.
     bind_ok (validate_profile Battery (battery (profiles candidate)) (battery (profiles protected))) (\<lambda>_.
       Ok ()))))"

section \<open>Targets and outputs\<close>

lemma selected_profile_ok: "config_ok v \<Longrightarrow> profile_ok (selected_profile v p)"
  by (cases p) (simp_all add: config_ok_def)

lemma maximum_ok:
  assumes "demand_ok a" "demand_ok b"
  shows "demand_ok (maximum a b)" "f64_le a (maximum a b)" "f64_le b (maximum a b)"
  using assms by (auto simp: maximum_def elim!: demand_okE)

lemma maximum_mono:
  assumes "demand_ok a" "demand_ok b" "demand_ok a'" "demand_ok b'" "f64_le a a'" "f64_le b b'"
  shows "f64_le (maximum a b) (maximum a' b')"
  using assms by (auto simp: maximum_def elim!: demand_okE)

lemma maximum_full:
  assumes "demand_ok a" "demand_ok b" "a = Fin 100 \<or> b = Fin 100"
  shows "maximum a b = Fin 100"
  using assms by (auto simp: maximum_def elim!: demand_okE)

lemma target_ok:
  assumes "config_ok v" "temperature_ok tc" "temperature_ok tg"
  obtains c g where "evaluate (cpu_curve (selected_profile v p)) tc = (Ok c :: ('e, f64) outcome)"
    "evaluate (gpu_curve (selected_profile v p)) tg = (Ok g :: ('e, f64) outcome)"
    "demand_ok c" "demand_ok g"
    "calculate_target_demand v tc tg p = (Ok (maximum c g) :: ('e, f64) outcome)"
proof -
  have "curve_ok (cpu_curve (selected_profile v p))" "curve_ok (gpu_curve (selected_profile v p))"
    using selected_profile_ok [OF assms(1), of p] by (simp_all add: profile_ok_def protective_curve_def)
  from evaluate_ok [OF this(1) assms(2), where 'e = 'e] evaluate_ok [OF this(2) assms(3), where 'e = 'e]
  show thesis by (auto simp: calculate_target_demand_def intro!: that)
qed

lemma protective_full:
  assumes "protective_curve co c" "temperature_ok t" "f64_le (Fin (of_int (maximum_temperature co))) t"
  shows "evaluate c t = (Ok (Fin 100) :: ('e, f64) outcome)"
proof -
  have "f64_le (cp_temperature (last c)) t"
    using assms(1,3) f64_le_trans unfolding protective_curve_def by blast
  then show ?thesis
    using assms(1,2) evaluate_at_last [of c t] by (simp add: protective_curve_def)
qed

lemma outputs_mono:
  assumes "config_ok v" "demand_ok d" "demand_ok e" "f64_le d e"
  shows "cpu_pwm (fan_outputs_for_demand v d) \<le> cpu_pwm (fan_outputs_for_demand v e)"
    "gpu_pwm (fan_outputs_for_demand v d) \<le> gpu_pwm (fan_outputs_for_demand v e)"
proof -
  have f: "demand_ok (minimum_duty (cpu (fans v)))" "demand_ok (minimum_duty (gpu (fans v)))"
    using assms(1) by (simp_all add: config_ok_def)
  have r: "f64_le x x" if "demand_ok x" for x using that by (auto elim: demand_okE)
  show "cpu_pwm (fan_outputs_for_demand v d) \<le> cpu_pwm (fan_outputs_for_demand v e)"
    "gpu_pwm (fan_outputs_for_demand v d) \<le> gpu_pwm (fan_outputs_for_demand v e)"
    using assms f r by (auto simp: fan_outputs_for_demand_def intro!: pwm_from_demand_mono maximum_mono maximum_ok)
qed

lemma outputs_full:
  assumes "config_ok v"
  shows "fan_outputs_for_demand v (Fin 100) = fan_outputs_maximum"
proof -
  have "pwm_from_demand (Fin 100) = pwm_maximum"
    using whole_percent_pwm [of 100]
    by (simp add: word_uint_eq_iff f64_of_small_int pwm_maximum_def unsigned_minus_1_eq_mask mask_eq_exp_minus_1)
  then show ?thesis
    using assms by (simp add: fan_outputs_for_demand_def fan_outputs_maximum_def config_ok_def maximum_full
        demand_ok_def [of "Fin 100"])
qed


lemma target_mono:
  assumes "config_ok v" "temperature_ok c" "temperature_ok c'" "temperature_ok g" "temperature_ok g'"
    and "f64_le c c'" "f64_le g g'"
  shows "\<exists>d d'. calculate_target_demand v c g p = (Ok d :: ('e, f64) outcome)
    \<and> calculate_target_demand v c' g' p = (Ok d' :: ('e, f64) outcome) \<and> demand_ok d \<and> demand_ok d' \<and> f64_le d d'"
proof -
  obtain x y where x: "evaluate (cpu_curve (selected_profile v p)) c = (Ok x :: ('e, f64) outcome)"
    "evaluate (gpu_curve (selected_profile v p)) g = (Ok y :: ('e, f64) outcome)" "demand_ok x" "demand_ok y"
    "calculate_target_demand v c g p = (Ok (maximum x y) :: ('e, f64) outcome)"
    using target_ok [OF assms(1,2,4), of p, where 'e = 'e] by metis
  obtain x' y' where x': "evaluate (cpu_curve (selected_profile v p)) c' = (Ok x' :: ('e, f64) outcome)"
    "evaluate (gpu_curve (selected_profile v p)) g' = (Ok y' :: ('e, f64) outcome)" "demand_ok x'" "demand_ok y'"
    "calculate_target_demand v c' g' p = (Ok (maximum x' y') :: ('e, f64) outcome)"
    using target_ok [OF assms(1,3,5), of p, where 'e = 'e] by metis
  have k: "curve_ok (cpu_curve (selected_profile v p))" "curve_rising (cpu_curve (selected_profile v p))"
    "curve_ok (gpu_curve (selected_profile v p))" "curve_rising (gpu_curve (selected_profile v p))"
    using selected_profile_ok [OF assms(1), of p] by (simp_all add: profile_ok_def protective_curve_def)
  have "f64_le x x'" by (rule evaluate_mono_lemma [OF k(1,2) assms(2,3,6) x(1) x'(1)])
  moreover have "f64_le y y'" by (rule evaluate_mono_lemma [OF k(3,4) assms(4,5,7) x(2) x'(2)])
  ultimately have "f64_le (maximum x y) (maximum x' y')" using x x' by (intro maximum_mono)
  then show ?thesis using x x' maximum_ok(1) by blast
qed

section \<open>The envelope check\<close>

definition curve_covers :: "demand_curve \<Rightarrow> demand_curve \<Rightarrow> bool" where
  "curve_covers candidate protected = (\<forall>q \<in> set (candidate @ protected). covers_at candidate protected (cp_temperature q))"

definition profile_covers :: "validated_profile_config \<Rightarrow> validated_profile_config \<Rightarrow> bool" where
  "profile_covers candidate protected =
     (curve_covers (cpu_curve candidate) (cpu_curve protected)
      \<and> curve_covers (gpu_curve candidate) (gpu_curve protected))"

definition config_covers :: "validated_config \<Rightarrow> validated_config \<Rightarrow> bool" where
  "config_covers candidate protected =
     (f64_le (minimum_duty (cpu (fans protected))) (minimum_duty (cpu (fans candidate)))
      \<and> f64_le (minimum_duty (gpu (fans protected))) (minimum_duty (gpu (fans candidate)))
      \<and> profile_covers (ac (profiles candidate)) (ac (profiles protected))
      \<and> profile_covers (battery (profiles candidate)) (battery (profiles protected)))"

lemma validate_floor_cases:
  assumes "demand_ok c" "demand_ok p"
  shows "f64_le p c \<and> validate_floor f c p = Ok () \<or> \<not> f64_le p c \<and> (\<exists>e. validate_floor f c p = Err e)"
  using assms by (auto simp: validate_floor_def elim!: demand_okE)

lemma validate_profile_cases:
  assumes "profile_ok c" "profile_ok p"
  shows "profile_covers c p \<and> validate_profile f c p = Ok ()
    \<or> \<not> profile_covers c p \<and> (\<exists>e. validate_profile f c p = Err e)"
proof -
  have k: "curve_ok (cpu_curve c)" "curve_ok (cpu_curve p)" "curve_ok (gpu_curve c)" "curve_ok (gpu_curve p)"
    using assms by (simp_all add: profile_ok_def protective_curve_def)
  show ?thesis
    using first_below_cases [OF k(1,2), where 'e = envelope_validation_error]
      first_below_cases [OF k(3,4), where 'e = envelope_validation_error]
    unfolding validate_profile_def profile_covers_def curve_covers_def by auto
qed

lemma curve_covers_refl:
  assumes "curve_ok c"
  shows "curve_covers c c"
proof -
  have eps: "f64_le (Fin 0) envelope_comparison_epsilon"
    unfolding envelope_comparison_epsilon_def by (rule f64_round_nonneg) simp
  have "\<not> f64_less (f64_add d envelope_comparison_epsilon) d" if d: "demand_ok d" for d
  proof -
    obtain q where q: "d = Fin q" "representable q" "0 \<le> q" "q \<le> 100" using d by (rule demand_okE)
    have "q < f64_limit" using q(4) by (rule order_le_less_trans) simp
    then have "f64_le d (f64_add d envelope_comparison_epsilon)"
      using f64_add_mono_right [OF eps, of q] f64_round_exact [OF q(2)] q by simp
    then show ?thesis using f64_le_not_NaN f64_not_less by blast
  qed
  then have "covers_at c c t" if "temperature_ok t" for t
    using evaluate_ok [OF assms that, where 'e = demand_curve_error] by (auto simp: covers_at_def)
  then show ?thesis using assms by (auto simp: curve_covers_def curve_ok_def list_all_iff point_ok_def)
qed

lemma config_covers_refl: "config_ok v \<Longrightarrow> config_covers v v"
  by (auto simp: config_covers_def config_ok_def profile_covers_def profile_ok_def protective_curve_def
      curve_covers_refl elim!: demand_okE)

lemma envelope_check_cases:
  assumes "config_ok candidate" "config_ok protected"
  shows "(config_covers candidate protected \<longrightarrow> validate_against_protected_envelope candidate protected = Ok ())
    \<and> (\<not> config_covers candidate protected \<longrightarrow>
        (\<exists>e. validate_against_protected_envelope candidate protected = Err e))"
proof -
  note c = assms(1) [unfolded config_ok_def] and p = assms(2) [unfolded config_ok_def]
  show ?thesis
    using validate_floor_cases [of "minimum_duty (cpu (fans candidate))" "minimum_duty (cpu (fans protected))" FanCpu]
      validate_floor_cases [of "minimum_duty (gpu (fans candidate))" "minimum_duty (gpu (fans protected))" FanGpu]
      validate_profile_cases [of "ac (profiles candidate)" "ac (profiles protected)" Ac]
      validate_profile_cases [of "battery (profiles candidate)" "battery (profiles protected)" Battery] c p
    unfolding validate_against_protected_envelope_def config_covers_def by fastforce
qed

section \<open>Properties\<close>

text \<open>
  C31. With a validated configuration and finite temperatures the outputs are computed without a
  panic on every power state, both fans are driven at least at their configured floors, and as
  soon as the CPU is at 90 or the GPU at 82 degrees both fans run at the maximum PWM.
\<close>

theorem fan_outputs_protect:
  assumes "validate_config_v1 c = Ok v" "f64_ok (max_down_ramp_percent_per_second (cfg_control c))"
    and "temperature_ok cpu_t" "temperature_ok gpu_t"
  shows "\<exists>out. calculate_fan_outputs v cpu_t gpu_t p = (Ok out :: ('e, fan_outputs) outcome)
    \<and> pwm_from_demand (minimum_duty (cpu (fans v))) \<le> cpu_pwm out
    \<and> pwm_from_demand (minimum_duty (gpu (fans v))) \<le> gpu_pwm out
    \<and> (f64_le (Fin 90) cpu_t \<or> f64_le (Fin 82) gpu_t \<longrightarrow> out = fan_outputs_maximum)"
proof -
  have v: "config_ok v"
    using validate_config_Ok [OF _ assms(2)] validate_config_Err [of c] assms(1) by (cases "config_valid c") auto
  obtain cd gd where d: "evaluate (cpu_curve (selected_profile v p)) cpu_t = (Ok cd :: ('e, f64) outcome)"
    "evaluate (gpu_curve (selected_profile v p)) gpu_t = (Ok gd :: ('e, f64) outcome)"
    "demand_ok cd" "demand_ok gd"
    "calculate_target_demand v cpu_t gpu_t p = (Ok (maximum cd gd) :: ('e, f64) outcome)"
    using target_ok [OF v assms(3,4), of p, where 'e = 'e] by metis
  let ?out = "fan_outputs_for_demand v (maximum cd gd)"
  note m = maximum_ok(1) [OF d(3,4)]
  have floors: "demand_ok (minimum_duty (cpu (fans v)))" "demand_ok (minimum_duty (gpu (fans v)))"
    using v by (simp_all add: config_ok_def)
  have "?out = fan_outputs_maximum" if hot: "f64_le (Fin 90) cpu_t \<or> f64_le (Fin 82) gpu_t"
  proof -
    have "cd = Fin 100 \<or> gd = Fin 100"
      using hot selected_profile_ok [OF v, of p] assms(3,4) d(1,2)
        protective_full [of ComponentCpu "cpu_curve (selected_profile v p)" cpu_t, where 'e = 'e]
        protective_full [of ComponentGpu "gpu_curve (selected_profile v p)" gpu_t, where 'e = 'e]
      by (auto simp: profile_ok_def cpu_max_temperature_celsius_def gpu_max_temperature_celsius_def)
    then show ?thesis using maximum_full [OF d(3,4)] outputs_full [OF v] by simp
  qed
  moreover have "calculate_fan_outputs v cpu_t gpu_t p = (Ok ?out :: ('e, fan_outputs) outcome)"
    by (simp add: calculate_fan_outputs_def d)
  moreover have "pwm_from_demand (minimum_duty (cpu (fans v))) \<le> cpu_pwm ?out"
    "pwm_from_demand (minimum_duty (gpu (fans v))) \<le> gpu_pwm ?out"
    using m floors by (auto simp: fan_outputs_for_demand_def intro!: pwm_from_demand_mono maximum_ok)
  ultimately show ?thesis by blast
qed

theorem fan_outputs_protect_witness:
  "\<exists>out. calculate_fan_outputs (exact_config example_config) (Fin 91) (Fin 50) Unknown
     = (Ok out :: (config_validation_error, fan_outputs) outcome) \<and> out = fan_outputs_maximum"
proof -
  have t: "temperature_ok (Fin 91)" "temperature_ok (Fin 50)" "f64_le (Fin 90) (Fin 91)" by simp_all
  from fan_outputs_protect [OF validate_config_Ok(1) [OF example_config_valid] example_config_valid(2) t(1,2),
      of Unknown, where 'e = config_validation_error] t(3)
  show ?thesis by blast
qed

text \<open>
  Outputs are monotone in both temperatures under the same power state, and an unknown power
  state gives the outputs of AC power.
\<close>

lemma fan_outputs_mono:
  assumes "config_ok v" "temperature_ok c" "temperature_ok c'" "temperature_ok g" "temperature_ok g'"
    and "f64_le c c'" "f64_le g g'"
  shows "\<exists>a b. calculate_fan_outputs v c g p = (Ok a :: ('e, fan_outputs) outcome)
    \<and> calculate_fan_outputs v c' g' p = (Ok b :: ('e, fan_outputs) outcome)
    \<and> cpu_pwm a \<le> cpu_pwm b \<and> gpu_pwm a \<le> gpu_pwm b
    \<and> calculate_fan_outputs v c g Unknown = (calculate_fan_outputs v c g Connected :: ('e, fan_outputs) outcome)"
proof -
  obtain d d' where d: "calculate_target_demand v c g p = (Ok d :: ('e, f64) outcome)"
    "calculate_target_demand v c' g' p = (Ok d' :: ('e, f64) outcome)" "demand_ok d" "demand_ok d'" "f64_le d d'"
    using target_mono [OF assms, of p, where 'e = 'e] by blast
  note outputs_mono [OF assms(1) d(3-5)]
  moreover have "calculate_target_demand v c g Unknown = (calculate_target_demand v c g Connected :: ('e, f64) outcome)"
    by (simp add: calculate_target_demand_def)
  ultimately show ?thesis by (simp add: calculate_fan_outputs_def d)
qed



end
