(* ===== verification/Platform.thy ===== *)
theory Platform
  imports Output
begin

text \<open>
  The platform boundary: the traits of \<open>fan-control-core/src/platform.rs\<close> as a record of
  operations over an arbitrary platform state, the typed diagnostics of \<open>diagnostics.rs\<close>, the
  shutdown latch of \<open>termination.rs\<close>, and the world every effectful component runs in.

  The world holds the platform, the sample sources' own state, the shutdown latch together with a
  script of asynchronous signals, the emitted diagnostics, the fields of \<open>ControllerOwnership\<close>
  and the two process-wide identifier counters. A signal may arrive before each load or exchange of
  the latch: the script says which ones it precedes, and theorems quantify over all scripts.
\<close>

section \<open>platform.rs: errors, identities, permissions\<close>

datatype platform_error_kind = NotFound | PermissionDenied | TimedOut | Unavailable

record platform_error =
  pe_kind :: platform_error_kind
  pe_message :: string

definition platform_error_new :: "platform_error_kind \<Rightarrow> string \<Rightarrow> platform_error" where
  "platform_error_new kind message = \<lparr>pe_kind = kind, pe_message = message\<rparr>"

record file_identity =
  fi_device :: u64
  fi_inode :: u64

record file_permissions =
  mode :: u32
  extended_acl :: bool
  owner_uid :: u32

definition permissions_eq :: "file_permissions \<Rightarrow> file_permissions \<Rightarrow> bool" where
  "permissions_eq a b = (mode a = mode b \<and> extended_acl a = extended_acl b)"

definition permissions_from_mode :: "u32 \<Rightarrow> file_permissions" where
  "permissions_from_mode m = \<lparr>mode = m AND 4095, extended_acl = False, owner_uid = 0\<rparr>"

definition permissions_none :: file_permissions where "permissions_none = permissions_from_mode 0"
definition permissions_read_only :: file_permissions where "permissions_read_only = permissions_from_mode 292"
definition permissions_write_only :: file_permissions where "permissions_write_only = permissions_from_mode 128"
definition permissions_read_write :: file_permissions where "permissions_read_write = permissions_from_mode 420"

definition with_extended_acl :: "file_permissions \<Rightarrow> file_permissions" where
  "with_extended_acl p = p\<lparr>extended_acl := True\<rparr>"

definition with_owner_uid :: "file_permissions \<Rightarrow> u32 \<Rightarrow> file_permissions" where
  "with_owner_uid p uid = p\<lparr>owner_uid := uid\<rparr>"

definition readable :: "file_permissions \<Rightarrow> bool" where
  "readable p = (mode p AND 292 \<noteq> 0)"

definition writable :: "file_permissions \<Rightarrow> bool" where
  "writable p = (mode p AND 146 \<noteq> 0)"

text \<open>
  The components of a relative path as \<open>Path::components\<close> gives them: separators are dropped,
  a dot is kept only in front.
\<close>

fun split_slash :: "string \<Rightarrow> string list" where
  "split_slash [] = [[]]"
| "split_slash (c # cs) =
     (if c = CHR ''/'' then [] # split_slash cs
      else (case split_slash cs of [] \<Rightarrow> [[c]] | w # ws \<Rightarrow> (c # w) # ws))"

definition single_normal_component :: "string \<Rightarrow> string option" where
  "single_normal_component child =
     (if child \<noteq> [] \<and> hd child = CHR ''/'' then None
      else
        (case filter (\<lambda>w. w \<noteq> []) (split_slash child) of
           [] \<Rightarrow> None
         | w # ws \<Rightarrow>
             if w \<noteq> ''.'' \<and> w \<noteq> ''..'' \<and> list_all (\<lambda>v. v = ''.'') ws then Some w else None))"

definition direct_bound_child :: "path \<Rightarrow> string \<Rightarrow> (platform_error, path) outcome" where
  "direct_bound_child directory child =
     (case single_normal_component child of
        None \<Rightarrow> Err (platform_error_new Unavailable (''bound operation is not a direct child: '' @ child))
      | Some name \<Rightarrow> Ok (join directory name))"

datatype runtime_lock_error = AlreadyHeld | NotRootOwned | RuntimeLockPlatform platform_error

section \<open>platform.rs: the operations\<close>

text \<open>
  One field per trait method the controller calls: \<open>Clock\<close>, \<open>FileAccess\<close>,
  \<open>IdentityBoundFileAccess\<close>, \<open>BoundedFileAccess\<close>, \<open>BoundedIdentityBoundFileAccess\<close>,
  \<open>ServiceAccess\<close> and \<open>RuntimeLockAccess\<close>. Releasing a lock that fails hands the lock back.
\<close>

record ('p, 'l) platform_ops =
  monotonic_now :: "'p \<Rightarrow> duration \<times> 'p"
  delay :: "duration \<Rightarrow> 'p \<Rightarrow> 'p"
  read_file_op :: "path \<Rightarrow> ('p, platform_error, string) io"
  list_op :: "path \<Rightarrow> ('p, platform_error, path list) io"
  permissions_op :: "path \<Rightarrow> ('p, platform_error, file_permissions) io"
  identity_op :: "path \<Rightarrow> ('p, platform_error, file_identity) io"
  read_bound_op :: "path \<Rightarrow> file_identity \<Rightarrow> string \<Rightarrow> ('p, platform_error, string) io"
  list_bound_op :: "path \<Rightarrow> file_identity \<Rightarrow> ('p, platform_error, path list) io"
  list_before :: "path \<Rightarrow> duration \<Rightarrow> ('p, platform_error, path list) io"
  identity_before :: "path \<Rightarrow> duration \<Rightarrow> ('p, platform_error, file_identity) io"
  read_bound_before ::
    "path \<Rightarrow> file_identity \<Rightarrow> string \<Rightarrow> file_identity \<Rightarrow> duration \<Rightarrow> ('p, platform_error, string) io"
  list_bound_before :: "path \<Rightarrow> file_identity \<Rightarrow> duration \<Rightarrow> ('p, platform_error, path list) io"
  permissions_bound_before ::
    "path \<Rightarrow> file_identity \<Rightarrow> string \<Rightarrow> file_identity \<Rightarrow> duration \<Rightarrow> ('p, platform_error, file_permissions) io"
  write_bound_if_before ::
    "path \<Rightarrow> file_identity \<Rightarrow> (string \<times> file_identity) list \<Rightarrow> (string \<times> string) list \<Rightarrow> string \<Rightarrow> string
       \<Rightarrow> duration \<Rightarrow> ('p, platform_error, unit) io"
  is_service_active :: "string \<Rightarrow> ('p, platform_error, bool) io"
  try_acquire_root_runtime_lock :: "path \<Rightarrow> ('p, runtime_lock_error, 'l) io"
  release_runtime_lock :: "'l \<Rightarrow> ('p, 'l \<times> platform_error, unit) io"

section \<open>diagnostics.rs: typed events\<close>

datatype runtime_state =
    StateUnqualified | StateFirmwareAuto | StateArming | StateCustomControl | StateRestoring
  | StateEmergencyContainment | StateFaultLatched

fun runtime_state_id :: "runtime_state \<Rightarrow> string" where
  "runtime_state_id StateUnqualified = ''unqualified''"
| "runtime_state_id StateFirmwareAuto = ''firmware-auto''"
| "runtime_state_id StateArming = ''arming''"
| "runtime_state_id StateCustomControl = ''custom-control''"
| "runtime_state_id StateRestoring = ''restoring''"
| "runtime_state_id StateEmergencyContainment = ''emergency-containment''"
| "runtime_state_id StateFaultLatched = ''fault-latched''"

datatype runtime_transition =
    TwoFreshSamples | ArmingConfirmed | SensorFault | ControlFault | RestorationConfirmed
  | RestorationFailed | ContainmentActivated | RearmRequested | Shutdown

fun runtime_transition_id :: "runtime_transition \<Rightarrow> string" where
  "runtime_transition_id TwoFreshSamples = ''two-fresh-samples''"
| "runtime_transition_id ArmingConfirmed = ''arming-confirmed''"
| "runtime_transition_id SensorFault = ''sensor-fault''"
| "runtime_transition_id ControlFault = ''control-fault''"
| "runtime_transition_id RestorationConfirmed = ''restoration-confirmed''"
| "runtime_transition_id RestorationFailed = ''restoration-failed''"
| "runtime_transition_id ContainmentActivated = ''containment-activated''"
| "runtime_transition_id RearmRequested = ''rearm-requested''"
| "runtime_transition_id Shutdown = ''shutdown''"

datatype runtime_endpoint =
    EndpointCpuTemperature | EndpointGpuTemperature | EndpointExternalPower | EndpointCpuPwm
  | EndpointCpuEnable | EndpointCpuTachometer | EndpointGpuPwm | EndpointGpuEnable
  | EndpointGpuTachometer

fun runtime_endpoint_id :: "runtime_endpoint \<Rightarrow> string" where
  "runtime_endpoint_id EndpointCpuTemperature = ''sensor:cpu:temperature''"
| "runtime_endpoint_id EndpointGpuTemperature = ''sensor:gpu:temperature''"
| "runtime_endpoint_id EndpointExternalPower = ''power:external''"
| "runtime_endpoint_id EndpointCpuPwm = ''acer:cpu:pwm1''"
| "runtime_endpoint_id EndpointCpuEnable = ''acer:cpu:pwm1_enable''"
| "runtime_endpoint_id EndpointCpuTachometer = ''acer:cpu:fan1_input''"
| "runtime_endpoint_id EndpointGpuPwm = ''acer:gpu:pwm2''"
| "runtime_endpoint_id EndpointGpuEnable = ''acer:gpu:pwm2_enable''"
| "runtime_endpoint_id EndpointGpuTachometer = ''acer:gpu:fan2_input''"

datatype runtime_fault =
    FaultOwnershipDenied | FaultConfigurationRejected | FaultFirmwareAutoUnconfirmed
  | FaultSensorUnavailable | FaultSensorStale | FaultSensorFromFuture | FaultSensorLate
  | FaultCadenceMissed | FaultDeviceChanged | FaultPlatformOperation | FaultUnexpectedReadback
  | FaultTachometerMalformed | FaultTachometerOutOfBand | FaultDeadlineExceeded
  | FaultShutdownRequested | FaultArmingRejected | FaultRestorationUnconfirmed
  | FaultContainmentUnconfirmed

fun runtime_fault_id :: "runtime_fault \<Rightarrow> string" where
  "runtime_fault_id FaultOwnershipDenied = ''ownership-denied''"
| "runtime_fault_id FaultConfigurationRejected = ''configuration-rejected''"
| "runtime_fault_id FaultFirmwareAutoUnconfirmed = ''firmware-auto-unconfirmed''"
| "runtime_fault_id FaultSensorUnavailable = ''sensor-unavailable''"
| "runtime_fault_id FaultSensorStale = ''sensor-stale''"
| "runtime_fault_id FaultSensorFromFuture = ''sensor-from-future''"
| "runtime_fault_id FaultSensorLate = ''sensor-late''"
| "runtime_fault_id FaultCadenceMissed = ''sample-cadence-missed''"
| "runtime_fault_id FaultDeviceChanged = ''device-changed''"
| "runtime_fault_id FaultPlatformOperation = ''platform-operation-failed''"
| "runtime_fault_id FaultUnexpectedReadback = ''unexpected-readback''"
| "runtime_fault_id FaultTachometerMalformed = ''tachometer-malformed''"
| "runtime_fault_id FaultTachometerOutOfBand = ''tachometer-out-of-band''"
| "runtime_fault_id FaultDeadlineExceeded = ''deadline-exceeded''"
| "runtime_fault_id FaultShutdownRequested = ''shutdown-requested''"
| "runtime_fault_id FaultArmingRejected = ''arming-rejected''"
| "runtime_fault_id FaultRestorationUnconfirmed = ''restoration-unconfirmed''"
| "runtime_fault_id FaultContainmentUnconfirmed = ''containment-unconfirmed''"

record fan_diagnostic =
  fd_command :: pwm
  fd_readback :: pwm
  fd_rpm_command :: pwm
  fd_rpm :: u32

record control_cycle_diagnostic =
  ccd_cpu_temperature :: temperature_celsius
  ccd_gpu_temperature :: temperature_celsius
  ccd_external_power :: external_power
  ccd_demand :: demand_percent
  ccd_cpu :: fan_diagnostic
  ccd_gpu :: fan_diagnostic

datatype restoration_readback = ReadbackFirmwareAuto | ReadbackCustom | ReadbackOther | ReadbackUnreadable

fun restoration_readback_id :: "restoration_readback \<Rightarrow> string" where
  "restoration_readback_id ReadbackFirmwareAuto = ''firmware-auto''"
| "restoration_readback_id ReadbackCustom = ''custom''"
| "restoration_readback_id ReadbackOther = ''other''"
| "restoration_readback_id ReadbackUnreadable = ''unreadable''"

record restoration_fan_diagnostic =
  rfd_write_succeeded :: bool
  rfd_readback :: restoration_readback

record restoration_attempt_diagnostic =
  rad_attempt :: u8
  rad_cpu :: restoration_fan_diagnostic
  rad_gpu :: restoration_fan_diagnostic

datatype runtime_event =
    StateTransitionEvent runtime_state runtime_state runtime_transition
  | FaultEvent runtime_fault "runtime_endpoint option"
  | ControlCycleEvent control_cycle_diagnostic
  | RestorationAttemptEvent restoration_attempt_diagnostic

end
