(* ===== verification/World.thy ===== *)
theory World
  imports Platform
begin

text \<open>
  The state the effectful components share, the lifting of platform operations to it, emission of
  diagnostics, and the shutdown latch (\<open>termination.rs\<close>, \<open>ShutdownRequest\<close>). Shown here: a request
  is permanent, and of a shutdown request and a publication commit exactly the one that reaches
  the latch first wins, however signals interleave.
\<close>

section \<open>The world\<close>

record ('p, 'l, 's) world =
  platform :: 'p
  source_state :: 's
  latch :: u8
  signals :: "bool list"
  journal :: "runtime_event list"
  own_lock :: "'l option"
  ownership_id :: u64
  controlled_device :: "file_identity option"
  restoration_confirmed :: bool
  sampling_epoch_started :: bool
  sampling_epoch :: u64
  next_ownership_id :: u64
  next_gate_id :: u64

definition on_platform :: "('p \<Rightarrow> 'a \<times> 'p) \<Rightarrow> ('p, 'l, 's) world \<Rightarrow> 'a \<times> ('p, 'l, 's) world" where
  "on_platform m w = (case m (platform w) of (x, p) \<Rightarrow> (x, w\<lparr>platform := p\<rparr>))"

definition now_io :: "('p, 'l) platform_ops \<Rightarrow> (('p, 'l, 's) world, 'e, duration) io" where
  "now_io P = lift_io (on_platform (monotonic_now P))"

definition delay_io :: "('p, 'l) platform_ops \<Rightarrow> duration \<Rightarrow> (('p, 'l, 's) world, 'e, unit) io" where
  "delay_io P d = modify_io (\<lambda>w. w\<lparr>platform := delay P d (platform w)\<rparr>)"

section \<open>Emission\<close>

definition emit :: "runtime_event \<Rightarrow> (('p, 'l, 's) world, 'e, unit) io" where
  "emit event = modify_io (\<lambda>w. w\<lparr>journal := journal w @ [event]\<rparr>)"

definition emit_state_transition ::
  "runtime_state \<Rightarrow> runtime_state \<Rightarrow> runtime_transition \<Rightarrow> (('p, 'l, 's) world, 'e, unit) io" where
  "emit_state_transition from to reason = emit (StateTransitionEvent from to reason)"

definition emit_fault ::
  "runtime_fault \<Rightarrow> runtime_endpoint option \<Rightarrow> (('p, 'l, 's) world, 'e, unit) io" where
  "emit_fault fault endpoint = emit (FaultEvent fault endpoint)"

definition emit_control_cycle :: "control_cycle_diagnostic \<Rightarrow> (('p, 'l, 's) world, 'e, unit) io" where
  "emit_control_cycle event = emit (ControlCycleEvent event)"

definition emit_restoration_attempt ::
  "restoration_attempt_diagnostic \<Rightarrow> (('p, 'l, 's) world, 'e, unit) io" where
  "emit_restoration_attempt event = emit (RestorationAttemptEvent event)"

section \<open>The shutdown latch\<close>

definition shutdown_open :: u8 where "shutdown_open = 0"
definition shutdown_requested :: u8 where "shutdown_requested = 1"
definition publication_committed :: u8 where "publication_committed = 2"

text \<open>The atomic operations on the latch's value.\<close>

definition request :: "u8 \<Rightarrow> u8" where
  "request state = state OR shutdown_requested"

definition is_requested :: "u8 \<Rightarrow> bool" where
  "is_requested state = (state AND shutdown_requested \<noteq> 0)"

definition try_commit_publication :: "u8 \<Rightarrow> bool \<times> u8" where
  "try_commit_publication state =
     (if state = shutdown_open then (True, publication_committed) else (False, state))"

text \<open>A signal handler calls \<open>request\<close>; it runs before the next access when the script says so.\<close>

definition deliver_signal :: "('p, 'l, 's) world \<Rightarrow> ('p, 'l, 's) world" where
  "deliver_signal w =
     (case signals w of
        [] \<Rightarrow> w
      | arrives # rest \<Rightarrow>
          w\<lparr>signals := rest, latch := (if arrives then request (latch w) else latch w)\<rparr>)"

definition shutdown_is_requested :: "(('p, 'l, 's) world, 'e, bool) io" where
  "shutdown_is_requested w = (let w1 = deliver_signal w in (Ok (is_requested (latch w1)), w1))"

definition shutdown_request :: "(('p, 'l, 's) world, 'e, unit) io" where
  "shutdown_request = modify_io (\<lambda>w. w\<lparr>latch := request (latch w)\<rparr>)"

definition shutdown_try_commit :: "(('p, 'l, 's) world, 'e, bool) io" where
  "shutdown_try_commit w =
     (let w1 = deliver_signal w
      in case try_commit_publication (latch w1) of (ok, v) \<Rightarrow> (Ok ok, w1\<lparr>latch := v\<rparr>))"

text \<open>A world in which nothing has happened yet.\<close>

definition world_of :: "'p \<Rightarrow> 's \<Rightarrow> ('p, 'l, 's) world" where
  "world_of p s =
     \<lparr>platform = p, source_state = s, latch = shutdown_open, signals = [], journal = [], own_lock = None,
      ownership_id = 0, controlled_device = None, restoration_confirmed = False, sampling_epoch_started = False,
      sampling_epoch = 0, next_ownership_id = 0, next_gate_id = 0\<rparr>"

section \<open>Rules for the lifted operations\<close>

lemma wp_on_platform [io_simps]:
  "wp (on_platform m) Q w = wp m (\<lambda>x p. Q x (w\<lparr>platform := p\<rparr>)) (platform w)"
  by (simp add: wp_def on_platform_def split: prod.splits)

lemma wp_now_io [io_simps]:
  "wp (now_io P) Q w = wp (monotonic_now P) (\<lambda>t p. Q (Ok t) (w\<lparr>platform := p\<rparr>)) (platform w)"
  by (simp add: now_io_def io_simps)

lemma wp_delay_io [io_simps]:
  "wp (delay_io P d) Q w = Q (Ok ()) (w\<lparr>platform := delay P d (platform w)\<rparr>)"
  by (simp add: delay_io_def io_simps)

lemma wp_emit [io_simps]: "wp (emit event) Q w = Q (Ok ()) (w\<lparr>journal := journal w @ [event]\<rparr>)"
  by (simp add: emit_def io_simps)

lemmas emit_defs [io_simps] =
  emit_state_transition_def emit_fault_def emit_control_cycle_def emit_restoration_attempt_def

lemma wp_if [io_simps]: "wp (if b then m else m') Q s = (if b then wp m Q s else wp m' Q s)"
  by simp

section \<open>Interleavings of signals and commits\<close>

datatype latch_step = LatchRequest | LatchLoad | LatchCommit

fun latch_run :: "latch_step list \<Rightarrow> u8 \<Rightarrow> bool list \<times> u8" where
  "latch_run [] v = ([], v)"
| "latch_run (LatchRequest # ss) v = latch_run ss (request v)"
| "latch_run (LatchLoad # ss) v = latch_run ss v"
| "latch_run (LatchCommit # ss) v =
     (case try_commit_publication v of
        (ok, v') \<Rightarrow> (case latch_run ss v' of (oks, v'') \<Rightarrow> (ok # oks, v'')))"

definition latch_ok :: "u8 \<Rightarrow> bool" where
  "latch_ok v = (v = 0 \<or> v = 1 \<or> v = 2 \<or> v = 3)"

lemma request_cases:
  "latch_ok v \<Longrightarrow> request v = (if v = 0 then 1 else if v = 2 then 3 else v)"
  by (auto simp: latch_ok_def request_def shutdown_requested_def)

lemma is_requested_cases: "latch_ok v \<Longrightarrow> is_requested v \<longleftrightarrow> v = 1 \<or> v = 3"
  by (auto simp: latch_ok_def is_requested_def shutdown_requested_def)

lemma latch_ok_request: "latch_ok v \<Longrightarrow> latch_ok (request v)"
  by (auto simp: request_cases latch_ok_def)

lemma latch_run_closed:
  assumes "latch_ok v" "v \<noteq> 0"
  shows "set (fst (latch_run ss v)) \<subseteq> {False} \<and> latch_ok (snd (latch_run ss v))
    \<and> (is_requested v \<longrightarrow> is_requested (snd (latch_run ss v)))"
  using assms
proof (induction ss arbitrary: v)
  case (Cons s ss)
  have r: "latch_ok (request v)" "request v \<noteq> 0" "is_requested (request v)"
    using Cons.prems by (auto simp: request_cases is_requested_cases latch_ok_def)
  show ?case
  proof (cases s)
    case LatchRequest
    then show ?thesis using Cons.IH [OF r(1,2)] r(3) by simp
  next
    case LatchCommit
    then show ?thesis
      using Cons.IH [OF Cons.prems] Cons.prems(2)
      by (auto simp: try_commit_publication_def shutdown_open_def split: prod.splits)
  qed (simp add: Cons.IH Cons.prems)
qed simp

lemma latch_run_request:
  assumes "latch_ok v" "LatchRequest \<in> set ss"
  shows "is_requested (snd (latch_run ss v))"
  using assms
proof (induction ss arbitrary: v)
  case (Cons s ss)
  have r: "latch_ok (request v)" "request v \<noteq> 0" "is_requested (request v)"
    using Cons.prems by (auto simp: request_cases is_requested_cases latch_ok_def)
  have c: "latch_ok (snd (try_commit_publication v))"
    using Cons.prems(1) by (auto simp: try_commit_publication_def latch_ok_def publication_committed_def)
  show ?case
  proof (cases s)
    case LatchRequest
    then show ?thesis using latch_run_closed [OF r(1,2), of ss] r(3) by simp
  next
    case LatchCommit
    then show ?thesis
      using Cons.IH [OF c] Cons.prems(2) by (auto split: prod.splits)
  next
    case LatchLoad
    then show ?thesis using Cons.IH [OF Cons.prems(1)] Cons.prems(2) by simp
  qed
qed simp

section \<open>Properties\<close>

text \<open>
  However signals, loads and commits interleave on the latch, the publication commits at most
  once, and only if no request reached the latch before it; a request that ever happens stays
  observable from then on, also after a commit.
\<close>

lemma shutdown_publication_race:
  assumes "latch_run ss shutdown_open = (oks, v)"
  shows "(find (\<lambda>s. s \<noteq> LatchLoad) ss = Some LatchRequest \<longrightarrow> True \<notin> set oks)
    \<and> (find (\<lambda>s. s \<noteq> LatchLoad) ss = Some LatchCommit \<longrightarrow> hd oks \<and> True \<notin> set (tl oks))
    \<and> (LatchRequest \<in> set ss \<longrightarrow> is_requested v)"
proof -
  have o: "latch_ok shutdown_open" by (simp add: latch_ok_def shutdown_open_def)
  have "(find (\<lambda>s. s \<noteq> LatchLoad) ss = Some LatchRequest \<longrightarrow> True \<notin> set (fst (latch_run ss shutdown_open)))
    \<and> (find (\<lambda>s. s \<noteq> LatchLoad) ss = Some LatchCommit \<longrightarrow>
        hd (fst (latch_run ss shutdown_open)) \<and> True \<notin> set (tl (fst (latch_run ss shutdown_open))))"
  proof (induction ss)
    case (Cons s ss)
    have "latch_ok (request shutdown_open)" "request shutdown_open \<noteq> 0"
      "latch_ok publication_committed" "publication_committed \<noteq> 0"
      by (auto simp: request_cases latch_ok_def shutdown_open_def publication_committed_def)
    note c = latch_run_closed [OF this(1,2), of ss] latch_run_closed [OF this(3,4), of ss]
    from Cons c show ?case
      by (cases s) (auto simp: try_commit_publication_def split: prod.splits)
  qed simp
  then show ?thesis using latch_run_request [OF o, of ss] assms by simp
qed

end
