(* ===== verification/Interface.thy ===== *)
theory Interface
  imports World
begin

text \<open>
  What the controller relies on from its platform, as interfaces.

  \<^item> \<open>guarded_writes\<close>: every write goes through the guarded write, and the platform's log of
    attempts grows by exactly the attempted target and contents. Nothing else touches the log.
  \<^item> \<open>fan_platform\<close>: the platform as its documentation describes it to the holder of the runtime
    lock: nobody else changes the fan files, a successful read returns the current contents, a
    successful write has stored its contents and found its guards satisfied, a failed write may or
    may not have become visible, and the clock does not run backwards.
  \<^item> \<open>timely_platform\<close>: in addition no bounded operation returns later than its deadline, or than
    the time at which it was started when that is later.
\<close>

definition write_attempt :: "path \<Rightarrow> string \<Rightarrow> string \<Rightarrow> (path \<times> string) list" where
  "write_attempt directory child contents =
     (case direct_bound_child directory child of Ok path \<Rightarrow> [(path, contents)] | _ \<Rightarrow> [])"

locale guarded_writes =
  fixes P :: "('p, 'l) platform_ops"
    and attempts :: "'p \<Rightarrow> (path \<times> string) list"
  assumes attempts_now: "wp (monotonic_now P) (\<lambda>_ p'. attempts p' = attempts p) p"
    and attempts_delay: "attempts (delay P d p) = attempts p"
    and attempts_list: "wp (list_before P dir dl) (\<lambda>_ p'. attempts p' = attempts p) p"
    and attempts_identity: "wp (identity_before P path dl) (\<lambda>_ p'. attempts p' = attempts p) p"
    and attempts_read: "wp (read_bound_before P dir i child ci dl) (\<lambda>_ p'. attempts p' = attempts p) p"
    and attempts_list_bound: "wp (list_bound_before P dir i dl) (\<lambda>_ p'. attempts p' = attempts p) p"
    and attempts_permissions:
      "wp (permissions_bound_before P dir i child ci dl) (\<lambda>_ p'. attempts p' = attempts p) p"
    and attempts_write:
      "wp (write_bound_if_before P dir i cs gs child contents dl)
         (\<lambda>_ p'. attempts p' = attempts p @ write_attempt dir child contents) p"

text \<open>A state change that keeps the invariant and the contents and does not turn back the clock.\<close>

definition steady ::
  "('p \<Rightarrow> bool) \<Rightarrow> ('p \<Rightarrow> path \<Rightarrow> string option) \<Rightarrow> ('p \<Rightarrow> duration) \<Rightarrow> 'p \<Rightarrow> 'p \<Rightarrow> bool" where
  "steady sound content now p p' = (sound p' \<and> content p' = content p \<and> now p \<le> now p')"

definition guards_hold :: "(path \<Rightarrow> string option) \<Rightarrow> path \<Rightarrow> (string \<times> string) list \<Rightarrow> bool" where
  "guards_hold c directory guards =
     (\<forall>(child, expected) \<in> set guards. \<exists>path v. direct_bound_child directory child = Ok path
        \<and> c path = Some v \<and> trim v = expected)"

definition write_effect ::
  "(path \<Rightarrow> string option) \<Rightarrow> (path \<Rightarrow> string option) \<Rightarrow> path \<Rightarrow> (string \<times> string) list \<Rightarrow> string \<Rightarrow> string
     \<Rightarrow> (platform_error, unit) outcome \<Rightarrow> bool" where
  "write_effect c c' directory guards child contents r =
     (case direct_bound_child directory child of
        Ok path \<Rightarrow>
          (c' = c \<or> c' = c(path \<mapsto> contents))
          \<and> (r = Ok () \<longrightarrow> c' = c(path \<mapsto> contents) \<and> guards_hold c directory guards)
      | _ \<Rightarrow> c' = c \<and> r \<noteq> Ok ())"

locale fan_platform =
  fixes P :: "('p, 'l) platform_ops"
    and sound :: "'p \<Rightarrow> bool"
    and content :: "'p \<Rightarrow> path \<Rightarrow> string option"
    and now :: "'p \<Rightarrow> duration"
  assumes now_spec:
      "sound p \<Longrightarrow> wp (monotonic_now P) (\<lambda>t p'. steady sound content now p p' \<and> now p \<le> t \<and> t \<le> now p') p"
    and delay_spec: "sound p \<Longrightarrow> steady sound content now p (delay P d p)"
    and list_spec: "sound p \<Longrightarrow> wp (list_before P dir dl) (\<lambda>r p'. steady sound content now p p' \<and> r \<noteq> Panic) p"
    and identity_spec: "sound p \<Longrightarrow> wp (identity_before P path dl) (\<lambda>r p'. steady sound content now p p' \<and> r \<noteq> Panic) p"
    and list_bound_spec: "sound p \<Longrightarrow> wp (list_bound_before P dir i dl) (\<lambda>r p'. steady sound content now p p' \<and> r \<noteq> Panic) p"
    and permissions_spec:
      "sound p \<Longrightarrow> wp (permissions_bound_before P dir i child ci dl) (\<lambda>r p'. steady sound content now p p' \<and> r \<noteq> Panic) p"
    and read_spec:
      "sound p \<Longrightarrow> wp (read_bound_before P dir i child ci dl)
         (\<lambda>r p'. steady sound content now p p' \<and> r \<noteq> Panic
            \<and> (\<forall>v. r = Ok v \<longrightarrow> (\<exists>path. direct_bound_child dir child = Ok path \<and> content p path = Some v))) p"
    and write_spec:
      "sound p \<Longrightarrow> wp (write_bound_if_before P dir i cs gs child contents dl)
         (\<lambda>r p'. sound p' \<and> now p \<le> now p' \<and> r \<noteq> Panic \<and> write_effect (content p) (content p') dir gs child contents r) p"

locale timely_platform = fan_platform P sound content now
  for P :: "('p, 'l) platform_ops"
    and sound :: "'p \<Rightarrow> bool"
    and content :: "'p \<Rightarrow> path \<Rightarrow> string option"
    and now :: "'p \<Rightarrow> duration" +
  assumes now_exact: "sound p \<Longrightarrow> wp (monotonic_now P) (\<lambda>t p'. t = now p \<and> now p' = now p) p"
    and read_timely:
      "sound p \<Longrightarrow> wp (read_bound_before P dir i child ci dl) (\<lambda>_ p'. now p' \<le> max (now p) dl) p"
    and write_timely:
      "sound p \<Longrightarrow> wp (write_bound_if_before P dir i cs gs child contents dl) (\<lambda>_ p'. now p' \<le> max (now p) dl) p"

lemma steady_refl: "sound p \<Longrightarrow> steady sound content now p p"
  by (simp add: steady_def)

lemma steady_trans:
  "steady sound content now p q \<Longrightarrow> steady sound content now q r \<Longrightarrow> steady sound content now p r"
  by (auto simp: steady_def)

end
