(* ===== verification/Fake.thy ===== *)
theory Fake
  imports Interface "HOL-Library.AList"
begin

text \<open>
  The scripted platform of \<open>platform.rs\<close> (\<open>FakePlatform\<close> and its lock backend), without the
  \<open>acceptance-fixture\<close> feature: files, directories and identities as association lists, queues of
  scripted steps consumed by the operations, a settable clock, and the log of operations and of
  guarded write attempts. It is the concrete platform on which the interfaces of the controller
  are interpreted, so that the theorems proved against those interfaces are about executable code.
\<close>

section \<open>State\<close>

datatype platform_operation =
    OpRead path | OpWrite path string | OpList path | OpPermissions path | OpIdentity path
  | OpServiceStatus string | OpAcquireRuntimeLock path | OpReleaseRuntimeLock path
  | OpMonotonicNow | OpDelay duration

record fake_file =
  ff_contents :: string
  ff_permissions :: file_permissions
  ff_root_owned :: bool

datatype fake_step =
    Pass | Fail platform_error | Disappear path | ReplaceContents path string | Advance duration

record fake_runtime_lock_state =
  rl_address :: nat
  rl_root_owned :: bool
  rl_locks :: "(path \<times> u64) list"
  rl_next_identity :: u64

text \<open>
  A held lock names its backend by address, its path and its identity. The mutex of the backend is
  never poisoned: nothing panics while it is held.
\<close>

record fake_runtime_lock =
  frl_backend :: nat
  frl_path :: path
  frl_identity :: u64

record fake_platform =
  files :: "(path \<times> fake_file) list"
  directories :: "path list"
  identities :: "(path \<times> file_identity) list"
  next_inode :: u64
  services :: "(string \<times> bool) list"
  runtime_lock_backend :: fake_runtime_lock_state
  monotonic_time :: duration
  delays :: "duration list"
  steps :: "fake_step list"
  file_steps :: "fake_step list"
  runtime_lock_steps :: "fake_step list"
  operations :: "platform_operation list"
  bounded_write_attempts :: "platform_operation list"

definition fake_runtime_lock_backend_new :: "nat \<Rightarrow> fake_runtime_lock_state" where
  "fake_runtime_lock_backend_new address = \<lparr>rl_address = address, rl_root_owned = True, rl_locks = [], rl_next_identity = 0\<rparr>"

definition fake_set_root_owned :: "bool \<Rightarrow> fake_platform \<Rightarrow> fake_platform" where
  "fake_set_root_owned owned p =
     p\<lparr>runtime_lock_backend := (runtime_lock_backend p)\<lparr>rl_root_owned := owned\<rparr>\<rparr>"

definition fake_new :: fake_platform where
  "fake_new =
     \<lparr>files = [], directories = [], identities = [], next_inode = 0, services = [],
      runtime_lock_backend = fake_runtime_lock_backend_new 0, monotonic_time = 0, delays = [],
      steps = [], file_steps = [], runtime_lock_steps = [], operations = [],
      bounded_write_attempts = []\<rparr>"

definition with_runtime_lock_backend :: "fake_runtime_lock_state \<Rightarrow> fake_platform" where
  "with_runtime_lock_backend backend = fake_new\<lparr>runtime_lock_backend := backend\<rparr>"

section \<open>Building a platform\<close>

definition saturating_inc :: "u64 \<Rightarrow> u64" where
  "saturating_inc n = (if n = - 1 then n else n + 1)"

definition ensure_identity :: "path \<Rightarrow> fake_platform \<Rightarrow> fake_platform" where
  "ensure_identity path p =
     (if map_of (identities p) path \<noteq> None then p
      else
        (let i = saturating_inc (next_inode p)
         in p\<lparr>next_inode := i,
              identities := AList.update path \<lparr>fi_device = 0, fi_inode = i\<rparr> (identities p)\<rparr>))"

definition insert_directory_entry :: "path \<Rightarrow> fake_platform \<Rightarrow> fake_platform" where
  "insert_directory_entry d p = p\<lparr>directories := List.insert d (directories p)\<rparr>"

text \<open>The ancestors of a path, nearest first, down to the root.\<close>

definition ancestors :: "path \<Rightarrow> path list" where
  "ancestors path = map (\<lambda>n. take n path) (rev [0..<length path])"

definition insert_ancestor_directories :: "path \<Rightarrow> fake_platform \<Rightarrow> fake_platform" where
  "insert_ancestor_directories path p =
     fold (\<lambda>d q. insert_directory_entry d (ensure_identity d q)) (ancestors path) p"

definition insert_directory :: "path \<Rightarrow> fake_platform \<Rightarrow> fake_platform" where
  "insert_directory d p =
     insert_directory_entry d (ensure_identity d (insert_ancestor_directories d p))"

definition insert_file_with_permissions ::
  "path \<Rightarrow> string \<Rightarrow> file_permissions \<Rightarrow> fake_platform \<Rightarrow> fake_platform" where
  "insert_file_with_permissions path contents perms p =
     (let q = ensure_identity path (insert_ancestor_directories path p)
      in q\<lparr>files := AList.update path
             \<lparr>ff_contents = contents, ff_permissions = perms, ff_root_owned = True\<rparr> (files q)\<rparr>)"

definition insert_file :: "path \<Rightarrow> string \<Rightarrow> fake_platform \<Rightarrow> fake_platform" where
  "insert_file path contents = insert_file_with_permissions path contents permissions_read_write"

definition set_file_root_owned :: "path \<Rightarrow> bool \<Rightarrow> fake_platform \<Rightarrow> fake_platform" where
  "set_file_root_owned path owned p =
     (case map_of (files p) path of
        None \<Rightarrow> p
      | Some f \<Rightarrow> p\<lparr>files := AList.update path (f\<lparr>ff_root_owned := owned\<rparr>) (files p)\<rparr>)"

definition set_file_permissions :: "path \<Rightarrow> file_permissions \<Rightarrow> fake_platform \<Rightarrow> fake_platform" where
  "set_file_permissions path perms p =
     (case map_of (files p) path of
        None \<Rightarrow> p
      | Some f \<Rightarrow> p\<lparr>files := AList.update path (f\<lparr>ff_permissions := perms\<rparr>) (files p)\<rparr>)"

definition remove_path :: "path \<Rightarrow> fake_platform \<Rightarrow> fake_platform" where
  "remove_path path p =
     (let kept = (\<lambda>candidate. candidate \<noteq> path \<and> \<not> starts_with_path candidate path)
      in p\<lparr>files := filter (\<lambda>(k, _). kept k) (files p),
           directories := filter kept (directories p),
           identities := filter (\<lambda>(k, _). kept k) (identities p)\<rparr>)"

definition rebind_path_identity :: "path \<Rightarrow> fake_platform \<Rightarrow> ('e, fake_platform) outcome" where
  "rebind_path_identity path p =
     (if map_of (identities p) path = None then Panic
      else
        (let i = saturating_inc (next_inode p)
         in Ok (p\<lparr>next_inode := i,
                  identities := AList.update path \<lparr>fi_device = 0, fi_inode = i\<rparr> (identities p)\<rparr>)))"

definition file_contents :: "fake_platform \<Rightarrow> path \<Rightarrow> string option" where
  "file_contents p path = map_option ff_contents (map_of (files p) path)"

definition insert_service :: "string \<Rightarrow> bool \<Rightarrow> fake_platform \<Rightarrow> fake_platform" where
  "insert_service service active p = p\<lparr>services := AList.update service active (services p)\<rparr>"

definition advance_monotonic_time_to :: "duration \<Rightarrow> fake_platform \<Rightarrow> ('e, fake_platform) outcome" where
  "advance_monotonic_time_to time p =
     (if time < monotonic_time p then Panic else Ok (p\<lparr>monotonic_time := time\<rparr>))"

definition queue_steps :: "fake_step list \<Rightarrow> fake_platform \<Rightarrow> fake_platform" where
  "queue_steps ss p = p\<lparr>steps := steps p @ ss\<rparr>"

definition queue_file_steps :: "fake_step list \<Rightarrow> fake_platform \<Rightarrow> fake_platform" where
  "queue_file_steps ss p = p\<lparr>file_steps := file_steps p @ ss\<rparr>"

definition queue_runtime_lock_steps :: "fake_step list \<Rightarrow> fake_platform \<Rightarrow> fake_platform" where
  "queue_runtime_lock_steps ss p = p\<lparr>runtime_lock_steps := runtime_lock_steps p @ ss\<rparr>"

section \<open>Errors\<close>

definition missing :: "path \<Rightarrow> platform_error" where
  "missing path = platform_error_new NotFound (''platform path does not exist: '' @ display_path path)"

definition permission_denied :: "path \<Rightarrow> string \<Rightarrow> platform_error" where
  "permission_denied path operation =
     platform_error_new PermissionDenied (''platform path is not '' @ operation @ '': '' @ display_path path)"

definition timed_out :: "path \<Rightarrow> string \<Rightarrow> platform_error" where
  "timed_out path operation =
     platform_error_new TimedOut
       (''platform '' @ operation @ '' exceeded its deadline: '' @ display_path path)"

definition directory_changed :: "path \<Rightarrow> platform_error" where
  "directory_changed path =
     platform_error_new Unavailable (''backing directory identity changed: '' @ display_path path)"

definition endpoint_changed :: "path \<Rightarrow> platform_error" where
  "endpoint_changed path =
     platform_error_new Unavailable (''endpoint identity changed: '' @ display_path path)"

section \<open>Scripted steps\<close>

definition replace_contents :: "path \<Rightarrow> string \<Rightarrow> (fake_platform, platform_error, unit) io" where
  "replace_contents path contents p =
     (case map_of (files p) path of
        None \<Rightarrow> (Err (missing path), p)
      | Some f \<Rightarrow> (Ok (), p\<lparr>files := AList.update path (f\<lparr>ff_contents := contents\<rparr>) (files p)\<rparr>))"

fun apply_step :: "fake_step \<Rightarrow> (fake_platform, platform_error, unit) io" where
  "apply_step Pass p = (Ok (), p)"
| "apply_step (Fail error) p = (Err error, p)"
| "apply_step (Disappear path) p = (Ok (), remove_path path p)"
| "apply_step (ReplaceContents path contents) p = replace_contents path contents p"
| "apply_step (Advance d) p =
     (Ok (), p\<lparr>monotonic_time := duration_saturating_add (monotonic_time p) d\<rparr>)"

definition apply_next_step :: "(fake_platform, platform_error, unit) io" where
  "apply_next_step p =
     (case steps p of
        [] \<Rightarrow> apply_step Pass p
      | step # rest \<Rightarrow> apply_step step (p\<lparr>steps := rest\<rparr>))"

definition apply_next_file_step :: "(fake_platform, platform_error, unit) io" where
  "apply_next_file_step p =
     (case file_steps p of
        [] \<Rightarrow> apply_next_step p
      | step # rest \<Rightarrow> apply_step step (p\<lparr>file_steps := rest\<rparr>))"

definition apply_next_runtime_lock_step :: "(fake_platform, platform_error, unit) io" where
  "apply_next_runtime_lock_step p =
     (case runtime_lock_steps p of
        [] \<Rightarrow> apply_next_step p
      | step # rest \<Rightarrow> apply_step step (p\<lparr>runtime_lock_steps := rest\<rparr>))"

definition apply_step_before ::
  "path \<Rightarrow> string \<Rightarrow> duration \<Rightarrow> fake_step \<Rightarrow> (fake_platform, platform_error, unit) io" where
  "apply_step_before path operation deadline step p =
     (case step of
        Advance d \<Rightarrow>
          (let completion = duration_saturating_add (monotonic_time p) d
           in if deadline < completion
              then (Err (timed_out path operation), p\<lparr>monotonic_time := deadline\<rparr>)
              else (Ok (), p\<lparr>monotonic_time := completion\<rparr>))
      | _ \<Rightarrow> apply_step step p)"

definition apply_next_step_before ::
  "path \<Rightarrow> string \<Rightarrow> duration \<Rightarrow> (fake_platform, platform_error, unit) io" where
  "apply_next_step_before path operation deadline p =
     (if deadline \<le> monotonic_time p then (Err (timed_out path operation), p)
      else
        (case steps p of
           [] \<Rightarrow> apply_step_before path operation deadline Pass p
         | step # rest \<Rightarrow> apply_step_before path operation deadline step (p\<lparr>steps := rest\<rparr>)))"

definition apply_next_file_step_before ::
  "path \<Rightarrow> string \<Rightarrow> duration \<Rightarrow> (fake_platform, platform_error, unit) io" where
  "apply_next_file_step_before path operation deadline p =
     (case file_steps p of
        [] \<Rightarrow> apply_next_step_before path operation deadline p
      | step # rest \<Rightarrow>
          if deadline \<le> monotonic_time p then (Err (timed_out path operation), p)
          else apply_step_before path operation deadline step (p\<lparr>file_steps := rest\<rparr>))"

section \<open>File operations\<close>

definition log_operation :: "platform_operation \<Rightarrow> (fake_platform, 'e, unit) io" where
  "log_operation oper = modify_io (\<lambda>p. p\<lparr>operations := operations p @ [oper]\<rparr>)"

definition inspect_io :: "('s \<Rightarrow> ('e, 'a) outcome) \<Rightarrow> ('s, 'e, 'a) io" where
  "inspect_io f p = (f p, p)"

definition read_file :: "path \<Rightarrow> fake_platform \<Rightarrow> (platform_error, string) outcome" where
  "read_file path p =
     (case map_of (files p) path of
        None \<Rightarrow> Err (missing path)
      | Some f \<Rightarrow> if \<not> readable (ff_permissions f) then Err (permission_denied path ''readable'')
                  else Ok (ff_contents f))"

definition write_file :: "path \<Rightarrow> string \<Rightarrow> (fake_platform, platform_error, unit) io" where
  "write_file path contents p =
     (case map_of (files p) path of
        None \<Rightarrow> (Err (missing path), p)
      | Some f \<Rightarrow>
          if \<not> writable (ff_permissions f) then (Err (permission_denied path ''writable''), p)
          else (Ok (), p\<lparr>files := AList.update path (f\<lparr>ff_contents := contents\<rparr>) (files p)\<rparr>))"

definition child_of :: "path \<Rightarrow> path \<Rightarrow> path option" where
  "child_of directory path =
     (if starts_with_path path directory \<and> length directory < length path
      then Some (directory @ [path ! length directory])
      else None)"

definition list_directory :: "path \<Rightarrow> fake_platform \<Rightarrow> (platform_error, path list) outcome" where
  "list_directory directory p =
     (if directory \<notin> set (directories p) then Err (missing directory)
      else Ok (sort (remdups (List.map_filter (child_of directory) (directories p @ map fst (files p))))))"

definition file_permissions_of :: "path \<Rightarrow> fake_platform \<Rightarrow> (platform_error, file_permissions) outcome" where
  "file_permissions_of path p = ok_or (missing path) (map_option ff_permissions (map_of (files p) path))"

definition identity_of :: "path \<Rightarrow> fake_platform \<Rightarrow> (platform_error, file_identity) outcome" where
  "identity_of path p = ok_or (missing path) (map_of (identities p) path)"

definition require_directory :: "path \<Rightarrow> file_identity \<Rightarrow> fake_platform \<Rightarrow> (platform_error, unit) outcome" where
  "require_directory directory expected p =
     (if map_of (identities p) directory \<noteq> Some expected then Err (directory_changed directory) else Ok ())"

definition require_bound_identities ::
  "path \<Rightarrow> file_identity \<Rightarrow> path \<Rightarrow> file_identity \<Rightarrow> fake_platform \<Rightarrow> (platform_error, unit) outcome" where
  "require_bound_identities directory expected_directory child expected_child p =
     (if map_of (identities p) directory \<noteq> Some expected_directory then Err (directory_changed directory)
      else if map_of (identities p) child \<noteq> Some expected_child then Err (endpoint_changed child)
      else Ok ())"

definition fake_read :: "path \<Rightarrow> (fake_platform, platform_error, string) io" where
  "fake_read path =
     try_io (log_operation (OpRead path)) (\<lambda>_.
     try_io apply_next_file_step (\<lambda>_.
       inspect_io (read_file path)))"

definition fake_write :: "path \<Rightarrow> string \<Rightarrow> (fake_platform, platform_error, unit) io" where
  "fake_write path contents =
     try_io (log_operation (OpWrite path contents)) (\<lambda>_.
     try_io apply_next_file_step (\<lambda>_.
       write_file path contents))"

definition fake_list :: "path \<Rightarrow> (fake_platform, platform_error, path list) io" where
  "fake_list directory =
     try_io (log_operation (OpList directory)) (\<lambda>_.
     try_io apply_next_file_step (\<lambda>_.
       inspect_io (list_directory directory)))"

definition fake_permissions :: "path \<Rightarrow> (fake_platform, platform_error, file_permissions) io" where
  "fake_permissions path =
     try_io (log_operation (OpPermissions path)) (\<lambda>_.
     try_io apply_next_file_step (\<lambda>_.
       inspect_io (file_permissions_of path)))"

definition fake_identity :: "path \<Rightarrow> (fake_platform, platform_error, file_identity) io" where
  "fake_identity path =
     try_io (log_operation (OpIdentity path)) (\<lambda>_.
     try_io apply_next_file_step (\<lambda>_.
       inspect_io (identity_of path)))"

definition fake_read_bound :: "path \<Rightarrow> file_identity \<Rightarrow> string \<Rightarrow> (fake_platform, platform_error, string) io" where
  "fake_read_bound directory expected child =
     (case single_normal_component child of
        None \<Rightarrow> return_io (Err (platform_error_new Unavailable (''bound read is not a direct child: '' @ child)))
      | Some name \<Rightarrow>
          try_io (log_operation (OpRead (join directory name))) (\<lambda>_.
          try_io apply_next_file_step (\<lambda>_.
          try_io (inspect_io (require_directory directory expected)) (\<lambda>_.
            inspect_io (read_file (join directory name))))))"

definition fake_read_child_bound ::
  "path \<Rightarrow> file_identity \<Rightarrow> string \<Rightarrow> file_identity \<Rightarrow> (fake_platform, platform_error, string) io" where
  "fake_read_child_bound directory expected_directory child expected_child =
     try_io (return_io (direct_bound_child directory child)) (\<lambda>path.
     try_io (log_operation (OpRead path)) (\<lambda>_.
     try_io apply_next_file_step (\<lambda>_.
     try_io (inspect_io (require_bound_identities directory expected_directory path expected_child)) (\<lambda>_.
       inspect_io (read_file path)))))"

definition fake_list_bound :: "path \<Rightarrow> file_identity \<Rightarrow> (fake_platform, platform_error, path list) io" where
  "fake_list_bound directory expected =
     try_io (log_operation (OpList directory)) (\<lambda>_.
     try_io apply_next_file_step (\<lambda>_.
     try_io (inspect_io (require_directory directory expected)) (\<lambda>_.
       inspect_io (list_directory directory))))"

definition fake_read_before :: "path \<Rightarrow> duration \<Rightarrow> (fake_platform, platform_error, string) io" where
  "fake_read_before path deadline =
     try_io (log_operation (OpRead path)) (\<lambda>_.
     try_io (apply_next_file_step_before path ''read'' deadline) (\<lambda>_.
       inspect_io (read_file path)))"

definition fake_list_before :: "path \<Rightarrow> duration \<Rightarrow> (fake_platform, platform_error, path list) io" where
  "fake_list_before directory deadline =
     try_io (log_operation (OpList directory)) (\<lambda>_.
     try_io (apply_next_file_step_before directory ''list'' deadline) (\<lambda>_.
       inspect_io (list_directory directory)))"

definition fake_write_before :: "path \<Rightarrow> string \<Rightarrow> duration \<Rightarrow> (fake_platform, platform_error, unit) io" where
  "fake_write_before path contents deadline =
     try_io (log_operation (OpWrite path contents)) (\<lambda>_.
     try_io (apply_next_file_step_before path ''write'' deadline) (\<lambda>_.
       write_file path contents))"

definition fake_identity_before :: "path \<Rightarrow> duration \<Rightarrow> (fake_platform, platform_error, file_identity) io" where
  "fake_identity_before path deadline =
     try_io (log_operation (OpIdentity path)) (\<lambda>_.
     try_io (apply_next_file_step_before path ''identity'' deadline) (\<lambda>_.
       inspect_io (identity_of path)))"

definition fake_read_bound_before ::
  "path \<Rightarrow> file_identity \<Rightarrow> string \<Rightarrow> file_identity \<Rightarrow> duration \<Rightarrow> (fake_platform, platform_error, string) io" where
  "fake_read_bound_before directory expected_directory child expected_child deadline =
     try_io (return_io (direct_bound_child directory child)) (\<lambda>path.
     try_io (log_operation (OpRead path)) (\<lambda>_.
     try_io (apply_next_file_step_before path ''read'' deadline) (\<lambda>_.
     try_io (inspect_io (require_bound_identities directory expected_directory path expected_child)) (\<lambda>_.
       inspect_io (read_file path)))))"

definition fake_list_bound_before ::
  "path \<Rightarrow> file_identity \<Rightarrow> duration \<Rightarrow> (fake_platform, platform_error, path list) io" where
  "fake_list_bound_before directory expected_directory deadline =
     try_io (log_operation (OpList directory)) (\<lambda>_.
     try_io (apply_next_file_step_before directory ''bound list'' deadline) (\<lambda>_.
     try_io (inspect_io (require_directory directory expected_directory)) (\<lambda>_.
       inspect_io (list_directory directory))))"

definition fake_permissions_bound_before ::
  "path \<Rightarrow> file_identity \<Rightarrow> string \<Rightarrow> file_identity \<Rightarrow> duration
     \<Rightarrow> (fake_platform, platform_error, file_permissions) io" where
  "fake_permissions_bound_before directory expected_directory child expected_child deadline =
     try_io (return_io (direct_bound_child directory child)) (\<lambda>path.
     try_io (log_operation (OpPermissions path)) (\<lambda>_.
     try_io (apply_next_file_step_before path ''permissions'' deadline) (\<lambda>_.
     try_io (inspect_io (require_bound_identities directory expected_directory path expected_child)) (\<lambda>_.
       inspect_io (file_permissions_of path)))))"


text \<open>
  \<open>format!("{text:?}")\<close> of a string of code points below 256: quotes and backslashes are escaped,
  control characters and the soft hyphen are written as code points in hexadecimal.
\<close>

definition hex_digit :: "nat \<Rightarrow> char" where
  "hex_digit n = ''0123456789abcdef'' ! (n mod 16)"

definition hex_string :: "nat \<Rightarrow> string" where
  "hex_string n = (if n < 16 then [hex_digit n] else [hex_digit (n div 16), hex_digit n])"

definition debug_char :: "char \<Rightarrow> string" where
  "debug_char c =
     (let n = of_char c :: nat
      in if n = 0 then [CHR 92, CHR ''0'']
         else if n = 9 then [CHR 92, CHR ''t'']
         else if n = 10 then [CHR 92, CHR ''n'']
         else if n = 13 then [CHR 92, CHR ''r'']
         else if n = 34 \<or> n = 92 then [CHR 92, c]
         else if n < 32 \<or> 127 \<le> n \<and> n < 160 \<or> n = 173
         then [CHR 92, CHR ''u'', CHR 123] @ hex_string n @ [CHR 125]
         else [c])"

definition debug_string :: "string \<Rightarrow> string" where
  "debug_string s = [CHR 34] @ concat (map debug_char s) @ [CHR 34]"

fun require_children ::
  "path \<Rightarrow> file_identity \<Rightarrow> (string \<times> file_identity) list \<Rightarrow> (fake_platform, platform_error, unit) io" where
  "require_children directory expected_directory [] = return_io (Ok ())"
| "require_children directory expected_directory ((child, expected) # rest) =
     try_io (return_io (direct_bound_child directory child)) (\<lambda>path.
     try_io (inspect_io (require_bound_identities directory expected_directory path expected)) (\<lambda>_.
       require_children directory expected_directory rest))"

fun check_guards :: "path \<Rightarrow> (string \<times> string) list \<Rightarrow> (fake_platform, platform_error, unit) io" where
  "check_guards directory [] = return_io (Ok ())"
| "check_guards directory ((child, expected_contents) # rest) =
     try_io (return_io (direct_bound_child directory child)) (\<lambda>path.
     try_io (log_operation (OpRead path)) (\<lambda>_.
     try_io (inspect_io (read_file path)) (\<lambda>actual.
       if trim actual \<noteq> expected_contents
       then return_io (Err (platform_error_new Unavailable
              (''guarded write expected '' @ debug_string expected_contents @ '' at ''
                 @ display_path path @ '', got '' @ debug_string actual)))
       else check_guards directory rest)))"

definition log_write_attempt :: "path \<Rightarrow> string \<Rightarrow> (fake_platform, 'e, unit) io" where
  "log_write_attempt target contents =
     modify_io (\<lambda>p. p\<lparr>bounded_write_attempts := bounded_write_attempts p @ [OpWrite target contents]\<rparr>)"

definition fake_write_bound_if_before ::
  "path \<Rightarrow> file_identity \<Rightarrow> (string \<times> file_identity) list \<Rightarrow> (string \<times> string) list \<Rightarrow> string \<Rightarrow> string
     \<Rightarrow> duration \<Rightarrow> (fake_platform, platform_error, unit) io" where
  "fake_write_bound_if_before directory expected_directory expected_children guards target_child contents deadline =
     try_io (return_io (direct_bound_child directory target_child)) (\<lambda>target.
     try_io (log_write_attempt target contents) (\<lambda>_.
     try_io (apply_next_file_step_before target ''guarded write'' deadline) (\<lambda>_.
     try_io (require_children directory expected_directory expected_children) (\<lambda>_.
     try_io (check_guards directory guards) (\<lambda>_.
     try_io (inspect_io (\<lambda>p. if deadline \<le> monotonic_time p then Err (timed_out target ''guarded write'') else Ok ())) (\<lambda>_.
     try_io (require_children directory expected_directory expected_children) (\<lambda>_.
     try_io (log_operation (OpWrite target contents)) (\<lambda>_.
       write_file target contents))))))))"

section \<open>Services, the runtime lock and the clock\<close>

definition fake_is_service_active :: "string \<Rightarrow> (fake_platform, platform_error, bool) io" where
  "fake_is_service_active service =
     try_io (log_operation (OpServiceStatus service)) (\<lambda>_.
     try_io apply_next_step (\<lambda>_.
       inspect_io (\<lambda>p. ok_or (platform_error_new NotFound (''service does not exist: '' @ service))
         (map_of (services p) service))))"

definition fake_try_acquire_root_runtime_lock :: "path \<Rightarrow> (fake_platform, runtime_lock_error, fake_runtime_lock) io" where
  "fake_try_acquire_root_runtime_lock path =
     try_io (log_operation (OpAcquireRuntimeLock path)) (\<lambda>_.
     try_io (map_err_io RuntimeLockPlatform apply_next_runtime_lock_step) (\<lambda>_.
       \<lambda>p. (let state = runtime_lock_backend p
             in if \<not> rl_root_owned state then (Err NotRootOwned, p)
                else if map_of (rl_locks state) path \<noteq> None then (Err AlreadyHeld, p)
                else
                  (let i = saturating_inc (rl_next_identity state)
                   in (Ok \<lparr>frl_backend = rl_address state, frl_path = path, frl_identity = i\<rparr>,
                       p\<lparr>runtime_lock_backend := state\<lparr>rl_next_identity := i,
                          rl_locks := AList.update path i (rl_locks state)\<rparr>\<rparr>)))))"

definition fake_release_runtime_lock ::
  "fake_runtime_lock \<Rightarrow> (fake_platform, fake_runtime_lock \<times> platform_error, unit) io" where
  "fake_release_runtime_lock lock =
     try_io (log_operation (OpReleaseRuntimeLock (frl_path lock))) (\<lambda>_.
     try_io (map_err_io (\<lambda>error. (lock, error)) apply_next_runtime_lock_step) (\<lambda>_.
       \<lambda>p. (let state = runtime_lock_backend p
             in if frl_backend lock \<noteq> rl_address state
                then (Err (lock, platform_error_new Unavailable ''runtime lock belongs to a different backend''), p)
                else if map_of (rl_locks state) (frl_path lock) = Some (frl_identity lock)
                then (Ok (), p\<lparr>runtime_lock_backend :=
                        state\<lparr>rl_locks := AList.delete (frl_path lock) (rl_locks state)\<rparr>\<rparr>)
                else (Err (lock, platform_error_new Unavailable ''runtime lock token is no longer held''), p))))"

definition fake_monotonic_now :: "fake_platform \<Rightarrow> duration \<times> fake_platform" where
  "fake_monotonic_now p = (monotonic_time p, p\<lparr>operations := operations p @ [OpMonotonicNow]\<rparr>)"

definition fake_delay :: "duration \<Rightarrow> fake_platform \<Rightarrow> fake_platform" where
  "fake_delay d p =
     p\<lparr>operations := operations p @ [OpDelay d], delays := delays p @ [d],
       monotonic_time := duration_saturating_add (monotonic_time p) d\<rparr>"

definition fake_ops :: "(fake_platform, fake_runtime_lock) platform_ops" where
  "fake_ops =
     \<lparr>monotonic_now = fake_monotonic_now,
      delay = fake_delay,
      read_file_op = fake_read,
      list_op = fake_list,
      permissions_op = fake_permissions,
      identity_op = fake_identity,
      read_bound_op = fake_read_bound,
      list_bound_op = fake_list_bound,
      list_before = fake_list_before,
      identity_before = fake_identity_before,
      read_bound_before = fake_read_bound_before,
      list_bound_before = fake_list_bound_before,
      permissions_bound_before = fake_permissions_bound_before,
      write_bound_if_before = fake_write_bound_if_before,
      is_service_active = fake_is_service_active,
      try_acquire_root_runtime_lock = fake_try_acquire_root_runtime_lock,
      release_runtime_lock = fake_release_runtime_lock\<rparr>"


section \<open>The interfaces hold of the scripted platform\<close>

definition fake_attempts :: "fake_platform \<Rightarrow> (path \<times> string) list" where
  "fake_attempts p =
     List.map_filter (\<lambda>oper. case oper of OpWrite path contents \<Rightarrow> Some (path, contents) | _ \<Rightarrow> None)
       (bounded_write_attempts p)"

lemma wp_log_operation [io_simps]:
  "wp (log_operation oper) Q p = Q (Ok ()) (p\<lparr>operations := operations p @ [oper]\<rparr>)"
  by (simp add: log_operation_def io_simps)

lemma wp_inspect_io [io_simps]: "wp (inspect_io f) Q p = Q (f p) p"
  by (simp add: wp_def inspect_io_def)

lemma wp_log_write_attempt [io_simps]:
  "wp (log_write_attempt target contents) Q p =
     Q (Ok ()) (p\<lparr>bounded_write_attempts := bounded_write_attempts p @ [OpWrite target contents]\<rparr>)"
  by (simp add: log_write_attempt_def io_simps)

text \<open>Scripted steps change neither log, and a quiet script changes no file.\<close>

fun quiet_step :: "fake_step \<Rightarrow> bool" where
  "quiet_step (Disappear _) = False"
| "quiet_step (ReplaceContents _ _) = False"
| "quiet_step _ = True"

definition quiet :: "fake_platform \<Rightarrow> bool" where
  "quiet p = (list_all quiet_step (steps p) \<and> list_all quiet_step (file_steps p) \<and> monotonic_time p \<le> duration_max)"

definition same_files :: "fake_platform \<Rightarrow> fake_platform \<Rightarrow> bool" where
  "same_files p p' = (quiet p' \<and> files p' = files p \<and> identities p' = identities p
     \<and> directories p' = directories p \<and> monotonic_time p \<le> monotonic_time p')"

lemma apply_step_attempts:
  "bounded_write_attempts (snd (apply_step st p)) = bounded_write_attempts p"
  by (cases st) (auto simp: replace_contents_def remove_path_def Let_def split: option.splits)

lemma direct_bound_child_no_panic: "direct_bound_child dir child \<noteq> Panic"
  by (simp add: direct_bound_child_def split: option.splits)

lemma inspections_no_panic [simp]:
  "read_file path p \<noteq> Panic" "list_directory path p \<noteq> Panic" "identity_of path p \<noteq> Panic"
  "file_permissions_of path p \<noteq> Panic" "require_directory path i p \<noteq> Panic"
  "require_bound_identities path i child ci p \<noteq> Panic"
  by (auto simp: read_file_def list_directory_def identity_of_def file_permissions_of_def ok_or_def
      require_directory_def require_bound_identities_def split: option.splits)

lemma apply_step_no_panic: "fst (apply_step st p) \<noteq> Panic"
  by (cases st) (auto simp: replace_contents_def split: option.splits)

lemma step_before_no_panic: "fst (apply_step_before path oper dl st p) \<noteq> Panic"
  using apply_step_no_panic [of st p] by (auto simp: apply_step_before_def Let_def split: fake_step.splits)

lemma step_before_attempts:
  "bounded_write_attempts (snd (apply_step_before path oper dl st p)) = bounded_write_attempts p"
  using apply_step_attempts [of st p]
  by (auto simp: apply_step_before_def Let_def split: fake_step.splits)

lemma file_step_before_attempts:
  "wp (apply_next_file_step_before path oper dl) (\<lambda>_ p'. bounded_write_attempts p' = bounded_write_attempts p) p"
  by (auto simp: wp_def apply_next_file_step_before_def apply_next_step_before_def step_before_attempts
      split: prod.splits list.splits dest!: arg_cong [of _ _ "\<lambda>x. bounded_write_attempts (snd x)"])

lemma saturating_add_max: "duration_saturating_add a b \<le> duration_max"
  by (simp add: duration_saturating_add_def)

lemma same_files_refl: "quiet p \<Longrightarrow> same_files p p"
  by (simp add: same_files_def)

lemma step_before_quiet:
  assumes "quiet_step st" "quiet p" "monotonic_time p < dl"
  shows "same_files p (snd (apply_step_before path oper dl st p))
    \<and> monotonic_time (snd (apply_step_before path oper dl st p)) \<le> max (monotonic_time p) dl"
  using assms duration_saturating_add_ge [of "monotonic_time p"] saturating_add_max [of "monotonic_time p"]
  by (cases st) (auto simp: apply_step_before_def same_files_def quiet_def Let_def not_less
      intro: order.trans order.strict_trans2 [THEN less_imp_le])

lemma file_step_before_quiet:
  assumes "quiet p"
  shows "wp (apply_next_file_step_before path oper dl)
    (\<lambda>r p'. r \<noteq> Panic \<and> same_files p p' \<and> monotonic_time p' \<le> max (monotonic_time p) dl) p"
proof -
  have np: "fst (apply_next_file_step_before path oper dl p) \<noteq> Panic"
    by (auto simp: apply_next_file_step_before_def apply_next_step_before_def step_before_no_panic split: list.splits)
  have "same_files p (snd (apply_next_file_step_before path oper dl p))
    \<and> monotonic_time (snd (apply_next_file_step_before path oper dl p)) \<le> max (monotonic_time p) dl"
  proof (cases "dl \<le> monotonic_time p")
    case True
    then show ?thesis using assms
      by (auto simp: apply_next_file_step_before_def apply_next_step_before_def same_files_refl split: list.splits)
  next
    case False
    have "same_files p (snd (apply_step_before path oper dl st q))
      \<and> monotonic_time (snd (apply_step_before path oper dl st q)) \<le> max (monotonic_time p) dl"
      if "quiet_step st" "quiet q" "same_files p q" "monotonic_time q = monotonic_time p" for st q
      using step_before_quiet [OF that(1,2), of dl path oper] that(3,4) False by (auto simp: same_files_def)
    then show ?thesis using assms False
      by (auto simp: apply_next_file_step_before_def apply_next_step_before_def same_files_def quiet_def split: list.splits)
  qed
  then show ?thesis using np
    by (cases "apply_next_file_step_before path oper dl p") (simp add: wp_def)
qed


lemma file_contents_logs [simp]:
  "file_contents (p\<lparr>operations := ops\<rparr>) = file_contents p"
  "file_contents (p\<lparr>bounded_write_attempts := bs\<rparr>) = file_contents p"
  by (rule ext, simp add: file_contents_def)+

lemma quiet_logs [simp]:
  "quiet (p\<lparr>operations := ops\<rparr>) = quiet p" "quiet (p\<lparr>bounded_write_attempts := bs\<rparr>) = quiet p"
  by (simp_all add: quiet_def)

lemma same_files_contents: "same_files p p' \<Longrightarrow> file_contents p' = file_contents p"
  by (rule ext) (simp add: file_contents_def same_files_def)

lemma same_files_steady: "same_files p p' \<Longrightarrow> steady quiet file_contents monotonic_time p p'"
  by (simp add: steady_def same_files_contents) (simp add: same_files_def)

lemma read_file_contents: "read_file path p = Ok v \<Longrightarrow> file_contents p path = Some v"
  by (auto simp: read_file_def file_contents_def split: option.splits if_splits)

lemma require_children_pure: "wp (require_children dir i cs) (\<lambda>r p'. p' = p \<and> r \<noteq> Panic) p"
  by (induction cs) (auto simp: io_simps direct_bound_child_no_panic split: outcome.splits)

lemma check_guards_pure:
  "wp (check_guards dir gs)
     (\<lambda>r p'. r \<noteq> Panic \<and> (\<exists>ops. p' = p\<lparr>operations := ops\<rparr>)
        \<and> (r = Ok () \<longrightarrow> guards_hold (file_contents p) dir gs)) p"
proof (induction gs arbitrary: p)
  case Nil
  show ?case by (auto simp: io_simps guards_hold_def intro: exI [of _ "operations p"])
next
  case (Cons g gs)
  obtain child expected where g: "g = (child, expected)" by (cases g)
  show ?case
  proof (cases "direct_bound_child dir child")
    case (Ok path)
    show ?thesis
    proof (cases "read_file path (p\<lparr>operations := operations p @ [OpRead path]\<rparr>)")
      case read: (Ok actual)
      then have c: "file_contents p path = Some actual"
        by (auto dest: read_file_contents)
      have step: "wp (check_guards dir gs) (\<lambda>r p'. r \<noteq> Panic \<and> (\<exists>ops. p' = p\<lparr>operations := ops\<rparr>)
          \<and> (r = Ok () \<longrightarrow> guards_hold (file_contents p) dir gs)) (p\<lparr>operations := operations p @ [OpRead path]\<rparr>)"
        by (rule wp_mono [OF Cons.IH]) auto
      show ?thesis
        using Ok read c
        by (auto simp: g io_simps guards_hold_def intro!: wp_mono [OF step])
    qed (auto simp: g Ok io_simps)
  qed (auto simp: g io_simps direct_bound_child_no_panic intro: exI [of _ "operations p"])
qed


definition stored :: "fake_platform \<Rightarrow> path \<Rightarrow> string \<Rightarrow> (platform_error, unit) outcome \<Rightarrow> fake_platform \<Rightarrow> bool" where
  "stored p path contents r p' =
     (r \<noteq> Panic \<and> bounded_write_attempts p' = bounded_write_attempts p \<and> quiet p' = quiet p
      \<and> monotonic_time p' = monotonic_time p
      \<and> (r = Ok () \<and> file_contents p' = (file_contents p)(path \<mapsto> contents)
         \<or> r \<noteq> Ok () \<and> file_contents p' = file_contents p))"

lemma write_file_stored: "wp (write_file path contents) (stored p path contents) p"
proof -
  have "file_contents (p\<lparr>files := AList.update path (f\<lparr>ff_contents := contents\<rparr>) (files p)\<rparr>)
    = (file_contents p)(path \<mapsto> contents)" for f
    by (rule ext) (simp add: file_contents_def update_conv')
  moreover have "quiet (p\<lparr>files := fs\<rparr>) = quiet p" for fs by (simp add: quiet_def)
  ultimately show ?thesis
    by (auto simp: wp_def write_file_def stored_def split: option.splits)
qed

lemma guarded_write_tail:
  "wp (try_io (require_children dir i cs) (\<lambda>_.
       try_io (check_guards dir gs) (\<lambda>_.
       try_io (inspect_io (\<lambda>p. if dl \<le> monotonic_time p then Err (timed_out target ''guarded write'') else Ok ())) (\<lambda>_.
       try_io (require_children dir i cs) (\<lambda>_.
       try_io (log_operation (OpWrite target contents)) (\<lambda>_.
         write_file target contents))))))
     (\<lambda>r p'. stored p target contents r p' \<and> (r = Ok () \<longrightarrow> guards_hold (file_contents p) dir gs)) p"
    (is "wp ?m ?Q p")
proof (rule wp_try [OF require_children_pure [of _ _ _ p]])
  have fin: "wp (try_io (inspect_io (\<lambda>p. if dl \<le> monotonic_time p then Err (timed_out target ''guarded write'') else Ok ())) (\<lambda>_.
       try_io (require_children dir i cs) (\<lambda>_.
       try_io (log_operation (OpWrite target contents)) (\<lambda>_. write_file target contents))))
     (stored p target contents) (p\<lparr>operations := ops\<rparr>)" for ops
  proof -
    have "wp (write_file target contents) (stored p target contents) (p\<lparr>operations := ops'\<rparr>)" for ops'
      by (rule wp_mono [OF write_file_stored]) (auto simp: stored_def)
    then have "wp (try_io (require_children dir i cs) (\<lambda>_.
       try_io (log_operation (OpWrite target contents)) (\<lambda>_. write_file target contents)))
      (stored p target contents) (p\<lparr>operations := ops\<rparr>)"
      by (intro wp_try [OF require_children_pure]) (auto simp: io_simps stored_def)
    then show ?thesis by (auto simp: io_simps stored_def)
  qed
  show "wp (try_io (check_guards dir gs) (\<lambda>_.
       try_io (inspect_io (\<lambda>p. if dl \<le> monotonic_time p then Err (timed_out target ''guarded write'') else Ok ())) (\<lambda>_.
       try_io (require_children dir i cs) (\<lambda>_.
       try_io (log_operation (OpWrite target contents)) (\<lambda>_. write_file target contents)))))
     ?Q q" if "q = p \<and> (Ok x :: (platform_error, unit) outcome) \<noteq> Panic" for q :: fake_platform and x :: unit
    unfolding that [THEN conjunct1]
  proof (rule wp_try [OF check_guards_pure])
    fix x :: unit and p'
    assume g: "(Ok x :: (platform_error, unit) outcome) \<noteq> Panic \<and> (\<exists>ops. p' = p\<lparr>operations := ops\<rparr>)
      \<and> (Ok x = (Ok () :: (platform_error, unit) outcome) \<longrightarrow> guards_hold (file_contents p) dir gs)"
    then show "wp (try_io (inspect_io (\<lambda>p. if dl \<le> monotonic_time p then Err (timed_out target ''guarded write'') else Ok ())) (\<lambda>_.
       try_io (require_children dir i cs) (\<lambda>_.
       try_io (log_operation (OpWrite target contents)) (\<lambda>_. write_file target contents)))) ?Q p'"
      by (auto intro: wp_mono [OF fin])
  qed (auto simp: stored_def)
qed (auto simp: stored_def)

lemma guarded_write:
  "wp (fake_write_bound_if_before dir i cs gs child contents dl) Q p =
     (case direct_bound_child dir child of
        Ok target \<Rightarrow>
          wp (try_io (apply_next_file_step_before target ''guarded write'' dl) (\<lambda>_.
              try_io (require_children dir i cs) (\<lambda>_.
              try_io (check_guards dir gs) (\<lambda>_.
              try_io (inspect_io (\<lambda>p. if dl \<le> monotonic_time p then Err (timed_out target ''guarded write'') else Ok ())) (\<lambda>_.
              try_io (require_children dir i cs) (\<lambda>_.
              try_io (log_operation (OpWrite target contents)) (\<lambda>_.
                write_file target contents)))))))
            Q (p\<lparr>bounded_write_attempts := bounded_write_attempts p @ [OpWrite target contents]\<rparr>)
      | Err e \<Rightarrow> Q (Err e) p
      | Panic \<Rightarrow> Q Panic p)"
  unfolding fake_write_bound_if_before_def
  by (cases "direct_bound_child dir child") (simp_all add: wp_def log_write_attempt_def return_io_def)

interpretation fake: guarded_writes fake_ops fake_attempts
proof unfold_locales
  note defs = fake_ops_def fake_list_before_def fake_identity_before_def fake_read_bound_before_def
    fake_list_bound_before_def fake_permissions_bound_before_def
  have step: "wp (apply_next_file_step_before path oper dl) (\<lambda>r p'. fake_attempts p' = fake_attempts p) p"
    for path oper dl p
    by (rule wp_mono [OF file_step_before_attempts]) (simp add: fake_attempts_def)
  have log: "fake_attempts (p\<lparr>operations := ops\<rparr>) = fake_attempts p" for p ops
    by (simp add: fake_attempts_def)
  fix p :: fake_platform and d dl :: duration and dir path :: path and i ci :: file_identity
    and child contents :: string and cs gs
  show "wp (monotonic_now fake_ops) (\<lambda>_ p'. fake_attempts p' = fake_attempts p) p"
    by (simp add: fake_ops_def wp_def fake_monotonic_now_def log)
  show "fake_attempts (delay fake_ops d p) = fake_attempts p"
    by (simp add: fake_ops_def fake_delay_def fake_attempts_def)
  show "wp (list_before fake_ops dir dl) (\<lambda>_ p'. fake_attempts p' = fake_attempts p) p"
    by (auto simp: defs io_simps log intro!: wp_mono [OF step] split: outcome.splits)
  show "wp (identity_before fake_ops path dl) (\<lambda>_ p'. fake_attempts p' = fake_attempts p) p"
    by (auto simp: defs io_simps log intro!: wp_mono [OF step] split: outcome.splits)
  show "wp (read_bound_before fake_ops dir i child ci dl) (\<lambda>_ p'. fake_attempts p' = fake_attempts p) p"
    by (auto simp: defs io_simps log intro!: wp_mono [OF step] split: outcome.splits)
  show "wp (list_bound_before fake_ops dir i dl) (\<lambda>_ p'. fake_attempts p' = fake_attempts p) p"
    by (auto simp: defs io_simps log intro!: wp_mono [OF step] split: outcome.splits)
  show "wp (permissions_bound_before fake_ops dir i child ci dl) (\<lambda>_ p'. fake_attempts p' = fake_attempts p) p"
    by (auto simp: defs io_simps log intro!: wp_mono [OF step] split: outcome.splits)
  show "wp (write_bound_if_before fake_ops dir i cs gs child contents dl)
         (\<lambda>_ p'. fake_attempts p' = fake_attempts p @ write_attempt dir child contents) p"
  proof (cases "direct_bound_child dir child")
    case (Ok target)
    have "wp (fake_write_bound_if_before dir i cs gs child contents dl)
      (\<lambda>_ p'. bounded_write_attempts p' = bounded_write_attempts p @ [OpWrite target contents]) p"
      unfolding guarded_write Ok outcome.case
      by (rule wp_try [OF file_step_before_attempts])
        (auto simp: stored_def intro!: wp_mono [OF guarded_write_tail])
    then have "wp (fake_write_bound_if_before dir i cs gs child contents dl)
      (\<lambda>_ p'. fake_attempts p' = fake_attempts p @ write_attempt dir child contents) p"
      by (rule wp_mono) (simp add: fake_attempts_def write_attempt_def Ok List.map_filter_def)
    then show ?thesis by (simp add: fake_ops_def)
  qed (auto simp: fake_ops_def guarded_write write_attempt_def)
qed

interpretation fake: timely_platform fake_ops quiet file_contents monotonic_time
proof unfold_locales
  note defs = fake_ops_def fake_list_before_def fake_identity_before_def fake_read_bound_before_def
    fake_list_bound_before_def fake_permissions_bound_before_def
  have step: "quiet p \<Longrightarrow> wp (apply_next_file_step_before path oper dl)
      (\<lambda>r p'. r \<noteq> Panic \<and> steady quiet file_contents monotonic_time p p' \<and> monotonic_time p' \<le> max (monotonic_time p) dl) p"
    for path oper dl p
    by (rule wp_mono [OF file_step_before_quiet]) (auto intro: same_files_steady)
  have log: "steady quiet file_contents monotonic_time (p\<lparr>operations := ops\<rparr>) p'
    = steady quiet file_contents monotonic_time p p'" for p ops p'
    by (simp add: steady_def)
  fix p :: fake_platform and d dl :: duration and dir path :: path and i ci :: file_identity
    and child contents :: string and cs gs
  assume q: "quiet p"
  show "wp (monotonic_now fake_ops) (\<lambda>t p'. steady quiet file_contents monotonic_time p p'
      \<and> monotonic_time p \<le> t \<and> t \<le> monotonic_time p') p"
    using q by (simp add: fake_ops_def wp_def fake_monotonic_now_def steady_def)
  show "wp (monotonic_now fake_ops) (\<lambda>t p'. t = monotonic_time p \<and> monotonic_time p' = monotonic_time p) p"
    by (simp add: fake_ops_def wp_def fake_monotonic_now_def)
  show "steady quiet file_contents monotonic_time p (delay fake_ops d p)"
    using q duration_saturating_add_ge [of "monotonic_time p"] saturating_add_max [of "monotonic_time p"]
    by (auto simp: fake_ops_def fake_delay_def steady_def quiet_def file_contents_def)
  show "wp (list_before fake_ops dir dl) (\<lambda>r p'. steady quiet file_contents monotonic_time p p' \<and> r \<noteq> Panic) p"
    using q by (auto simp: defs io_simps log direct_bound_child_no_panic intro!: wp_mono [OF step] split: outcome.splits)
  show "wp (identity_before fake_ops path dl) (\<lambda>r p'. steady quiet file_contents monotonic_time p p' \<and> r \<noteq> Panic) p"
    using q by (auto simp: defs io_simps log direct_bound_child_no_panic intro!: wp_mono [OF step] split: outcome.splits)
  show "wp (list_bound_before fake_ops dir i dl) (\<lambda>r p'. steady quiet file_contents monotonic_time p p' \<and> r \<noteq> Panic) p"
    using q by (auto simp: defs io_simps log direct_bound_child_no_panic intro!: wp_mono [OF step] split: outcome.splits)
  show "wp (permissions_bound_before fake_ops dir i child ci dl) (\<lambda>r p'. steady quiet file_contents monotonic_time p p' \<and> r \<noteq> Panic) p"
    using q steady_refl [of quiet p file_contents monotonic_time, OF q] by (auto simp: defs io_simps log direct_bound_child_no_panic intro!: wp_mono [OF step] split: outcome.splits)
  show "wp (read_bound_before fake_ops dir i child ci dl)
         (\<lambda>r p'. steady quiet file_contents monotonic_time p p' \<and> r \<noteq> Panic
            \<and> (\<forall>v. r = Ok v \<longrightarrow> (\<exists>path. direct_bound_child dir child = Ok path \<and> file_contents p path = Some v))) p"
    using q steady_refl [of quiet p file_contents monotonic_time, OF q]
    by (auto simp: defs io_simps log steady_def direct_bound_child_no_panic dest!: read_file_contents
        intro!: wp_mono [OF step] split: outcome.splits)
  show "wp (read_bound_before fake_ops dir i child ci dl) (\<lambda>_ p'. monotonic_time p' \<le> max (monotonic_time p) dl) p"
    using q by (auto simp: defs io_simps intro!: wp_mono [OF step] split: outcome.splits)
  have w: "wp (fake_write_bound_if_before dir i cs gs child contents dl)
    (\<lambda>r p'. quiet p' \<and> monotonic_time p \<le> monotonic_time p' \<and> monotonic_time p' \<le> max (monotonic_time p) dl
      \<and> r \<noteq> Panic \<and> write_effect (file_contents p) (file_contents p') dir gs child contents r) p"
  proof (cases "direct_bound_child dir child")
    case (Ok target)
    show ?thesis
      unfolding guarded_write Ok outcome.case
      using q by (intro wp_try [OF step])
        (auto simp: stored_def write_effect_def Ok steady_def intro!: wp_mono [OF guarded_write_tail])
  qed (use q in \<open>auto simp: guarded_write write_effect_def direct_bound_child_no_panic\<close>)
  show "wp (write_bound_if_before fake_ops dir i cs gs child contents dl)
         (\<lambda>r p'. quiet p' \<and> monotonic_time p \<le> monotonic_time p' \<and> r \<noteq> Panic
            \<and> write_effect (file_contents p) (file_contents p') dir gs child contents r) p"
    using w by (auto simp: fake_ops_def elim: wp_mono)
  show "wp (write_bound_if_before fake_ops dir i cs gs child contents dl)
         (\<lambda>_ p'. monotonic_time p' \<le> max (monotonic_time p) dl) p"
    using w by (auto simp: fake_ops_def elim: wp_mono)
qed

end
