(* ===== verification/Hwmon.thy ===== *)
theory Hwmon
  imports Fake
begin

text \<open>
  Discovery of the Acer hwmon device and the check that its ABI is still the discovered one
  (\<open>fan-control-core/src/acer_hwmon.rs\<close>), for any platform. Shown here: a discovered device has all
  six endpoint identities bound, its endpoints are the six direct children of its root with
  distinct names, so the \<open>expect\<close> calls on identities and child names never fire.
\<close>

definition acer_hwmon_name_payload :: string where
  "acer_hwmon_name_payload = ''acer'' @ [CHR 10]"

definition expected_endpoints :: "string list" where
  "expected_endpoints = [''pwm1'', ''pwm1_enable'', ''fan1_input'', ''pwm2'', ''pwm2_enable'', ''fan2_input'']"

record fan_endpoints =
  pwm_path :: path
  pwm_identity :: "file_identity option"
  enable_path :: path
  enable_identity :: "file_identity option"
  tachometer_path :: path
  tachometer_identity :: "file_identity option"

record acer_hwmon_device =
  dev_hwmon_root :: path
  dev_root :: path
  backing_identity :: file_identity
  dev_cpu :: fan_endpoints
  dev_gpu :: fan_endpoints

definition device_endpoints :: "acer_hwmon_device \<Rightarrow> (path \<times> file_identity option) list" where
  "device_endpoints dev =
     concat (map (\<lambda>e. [(pwm_path e, pwm_identity e), (enable_path e, enable_identity e),
                       (tachometer_path e, tachometer_identity e)]) [dev_cpu dev, dev_gpu dev])"

text \<open>The first endpoint with this path decides, also when it has no identity.\<close>

definition endpoint_identity :: "acer_hwmon_device \<Rightarrow> path \<Rightarrow> file_identity option" where
  "endpoint_identity dev path =
     (case map_of (device_endpoints dev) path of None \<Rightarrow> None | Some identity \<Rightarrow> identity)"

definition endpoint_bindings :: "acer_hwmon_device \<Rightarrow> ('e, (path \<times> file_identity) list) outcome" where
  "endpoint_bindings dev =
     map_ok (\<lambda>(path, identity). bind_ok (expect identity) (\<lambda>i. Ok (path, i))) (device_endpoints dev)"

datatype acer_hwmon_discovery_error =
    HwmonPlatform platform_error
  | NoDevice
  | AmbiguousDevices nat
  | InvalidAbi path string
  | InvalidPermissions path file_permissions file_permissions

definition invalid_abi :: "path \<Rightarrow> string \<Rightarrow> acer_hwmon_discovery_error" where
  "invalid_abi path reason = InvalidAbi path reason"

section \<open>Pure checks\<close>

definition validate_hwmon_entry :: "path \<Rightarrow> path \<Rightarrow> (acer_hwmon_discovery_error, unit) outcome" where
  "validate_hwmon_entry hwmon_root path =
     (if parent path \<noteq> Some hwmon_root then Err (invalid_abi path ''hwmon candidate is not a direct child'')
      else
        (let valid = (case file_name path of
                        None \<Rightarrow> False
                      | Some name \<Rightarrow>
                          take 5 name = ''hwmon'' \<and> drop 5 name \<noteq> [] \<and> list_all is_ascii_digit (drop 5 name))
         in if \<not> valid then Err (invalid_abi path ''malformed hwmon candidate name'') else Ok ()))"

definition endpoints :: "path \<Rightarrow> nat \<Rightarrow> fan_endpoints" where
  "endpoints root_path channel =
     \<lparr>pwm_path = join root_path (''pwm'' @ dec_string channel), pwm_identity = None,
      enable_path = join root_path (''pwm'' @ dec_string channel @ ''_enable''), enable_identity = None,
      tachometer_path = join root_path (''fan'' @ dec_string channel @ ''_input''), tachometer_identity = None\<rparr>"

definition entry_count :: "path list \<Rightarrow> path \<Rightarrow> nat" where
  "entry_count entries expected = length (filter (\<lambda>entry. entry = expected) entries)"

fun validate_each_entry_name :: "path \<Rightarrow> path list \<Rightarrow> (acer_hwmon_discovery_error, unit) outcome" where
  "validate_each_entry_name root_path [] = Ok ()"
| "validate_each_entry_name root_path (entry # rest) =
     (if parent entry \<noteq> Some root_path
      then Err (invalid_abi root_path (''endpoint is not a direct child: '' @ display_path entry))
      else
        (case file_name entry of
           None \<Rightarrow> Err (invalid_abi root_path ''non-UTF-8 endpoint name'')
         | Some name \<Rightarrow>
             if (take 3 name = ''pwm'' \<or> take 3 name = ''fan'') \<and> name \<notin> set expected_endpoints
             then Err (invalid_abi root_path (''unexpected endpoint '' @ name))
             else validate_each_entry_name root_path rest))"

fun validate_endpoint_counts :: "path \<Rightarrow> path list \<Rightarrow> path list \<Rightarrow> (acer_hwmon_discovery_error, unit) outcome" where
  "validate_endpoint_counts root_path entries [] = Ok ()"
| "validate_endpoint_counts root_path entries (path # rest) =
     (if entry_count entries path \<noteq> 1
      then Err (invalid_abi root_path (''endpoint must appear exactly once: '' @ display_path path))
      else validate_endpoint_counts root_path entries rest)"

definition channel_paths :: "path \<Rightarrow> nat \<Rightarrow> path list" where
  "channel_paths root_path channel =
     (let e = endpoints root_path channel in [pwm_path e, enable_path e, tachometer_path e])"

definition validate_entry_names :: "path \<Rightarrow> path list \<Rightarrow> (acer_hwmon_discovery_error, unit) outcome" where
  "validate_entry_names root_path entries =
     bind_ok (validate_each_entry_name root_path entries) (\<lambda>_.
       if entry_count entries (join root_path ''name'') \<noteq> 1
       then Err (invalid_abi root_path (''identity must appear exactly once: '' @ display_path (join root_path ''name'')))
       else validate_endpoint_counts root_path entries (channel_paths root_path 1 @ channel_paths root_path 2))"

section \<open>Unbounded discovery\<close>

definition hwmon_io :: "('p, platform_error, 'a) io \<Rightarrow> ('p, acer_hwmon_discovery_error, 'a) io" where
  "hwmon_io m = map_err_io HwmonPlatform m"

definition require_permissions ::
  "('p, 'l) platform_ops \<Rightarrow> path \<Rightarrow> file_permissions \<Rightarrow> ('p, acer_hwmon_discovery_error, unit) io" where
  "require_permissions P path expected =
     try_io (hwmon_io (permissions_op P path)) (\<lambda>actual.
       return_io (if \<not> permissions_eq actual expected then Err (InvalidPermissions path expected actual) else Ok ()))"

fun require_each_permissions ::
  "('p, 'l) platform_ops \<Rightarrow> (path \<times> file_permissions) list \<Rightarrow> ('p, acer_hwmon_discovery_error, unit) io" where
  "require_each_permissions P [] = return_io (Ok ())"
| "require_each_permissions P ((path, expected) # rest) =
     try_io (require_permissions P path expected) (\<lambda>_. require_each_permissions P rest)"

definition require_endpoint_permissions ::
  "('p, 'l) platform_ops \<Rightarrow> path \<Rightarrow> nat \<Rightarrow> ('p, acer_hwmon_discovery_error, unit) io" where
  "require_endpoint_permissions P root_path channel =
     (let e = endpoints root_path channel
      in require_each_permissions P
           [(pwm_path e, permissions_read_write), (enable_path e, permissions_read_write),
            (tachometer_path e, permissions_read_only)])"

fun scan_candidates ::
  "('p, 'l) platform_ops \<Rightarrow> path \<Rightarrow> path list \<Rightarrow> (path \<times> file_identity) list
     \<Rightarrow> ('p, acer_hwmon_discovery_error, (path \<times> file_identity) list) io" where
  "scan_candidates P hwmon_root [] found = return_io (Ok found)"
| "scan_candidates P hwmon_root (candidate # rest) found =
     try_io (return_io (validate_hwmon_entry hwmon_root candidate)) (\<lambda>_.
     try_io (hwmon_io (identity_op P candidate)) (\<lambda>identity.
     try_io (hwmon_io (read_bound_op P candidate identity ''name'')) (\<lambda>name.
       if name = acer_hwmon_name_payload
       then try_io (require_permissions P (join candidate ''name'') permissions_read_only) (\<lambda>_.
              scan_candidates P hwmon_root rest (found @ [(candidate, identity)]))
       else scan_candidates P hwmon_root rest found)))"

definition find_acer_devices ::
  "('p, 'l) platform_ops \<Rightarrow> path \<Rightarrow> ('p, acer_hwmon_discovery_error, (path \<times> file_identity) list) io" where
  "find_acer_devices P hwmon_root =
     try_io (hwmon_io (list_op P hwmon_root)) (\<lambda>candidates. scan_candidates P hwmon_root candidates [])"

definition validate_exact_two_fan_abi ::
  "('p, 'l) platform_ops \<Rightarrow> path \<Rightarrow> file_identity \<Rightarrow> ('p, acer_hwmon_discovery_error, unit) io" where
  "validate_exact_two_fan_abi P root_path identity =
     try_io (hwmon_io (list_bound_op P root_path identity)) (\<lambda>entries.
     try_io (return_io (validate_entry_names root_path entries)) (\<lambda>_.
     try_io (require_endpoint_permissions P root_path 1) (\<lambda>_.
     try_io (require_endpoint_permissions P root_path 2) (\<lambda>_.
     try_io (hwmon_io (read_bound_op P root_path identity ''name'')) (\<lambda>name.
       if name \<noteq> acer_hwmon_name_payload
       then return_io (Err (invalid_abi root_path ''Acer identity changed during discovery''))
       else
         try_io (require_permissions P (join root_path ''name'') permissions_read_only) (\<lambda>_.
         try_io (require_endpoint_permissions P root_path 1) (\<lambda>_.
           require_endpoint_permissions P root_path 2)))))))"

definition bind_endpoints ::
  "('p, 'l) platform_ops \<Rightarrow> path \<Rightarrow> nat \<Rightarrow> ('p, acer_hwmon_discovery_error, fan_endpoints) io" where
  "bind_endpoints P root_path channel =
     (let e = endpoints root_path channel
      in try_io (hwmon_io (identity_op P (pwm_path e))) (\<lambda>i.
         try_io (hwmon_io (identity_op P (enable_path e))) (\<lambda>j.
         try_io (hwmon_io (identity_op P (tachometer_path e))) (\<lambda>k.
           return_io (Ok (e\<lparr>pwm_identity := Some i, enable_identity := Some j,
                            tachometer_identity := Some k\<rparr>))))))"

definition the_single_device ::
  "(path \<times> file_identity) list \<Rightarrow> (acer_hwmon_discovery_error, path \<times> file_identity) outcome" where
  "the_single_device found =
     (case found of [] \<Rightarrow> Err NoDevice | [d] \<Rightarrow> Ok d | _ \<Rightarrow> Err (AmbiguousDevices (length found)))"

definition discover_acer_hwmon ::
  "('p, 'l) platform_ops \<Rightarrow> path \<Rightarrow> ('p, acer_hwmon_discovery_error, acer_hwmon_device) io" where
  "discover_acer_hwmon P hwmon_root =
     try_io (find_acer_devices P hwmon_root) (\<lambda>found.
     try_io (return_io (the_single_device found)) (\<lambda>(root_path, identity).
     try_io (validate_exact_two_fan_abi P root_path identity) (\<lambda>_.
     try_io (find_acer_devices P hwmon_root) (\<lambda>final_matches.
     try_io (return_io
       (case final_matches of
          [] \<Rightarrow> Err NoDevice
        | [(final_root, final_identity)] \<Rightarrow>
            if final_root = root_path \<and> final_identity = identity then Ok ()
            else Err (invalid_abi root_path ''Acer hwmon identity changed'')
        | _ \<Rightarrow> Err (AmbiguousDevices (length final_matches)))) (\<lambda>_.
     try_io (validate_exact_two_fan_abi P root_path identity) (\<lambda>_.
     try_io (bind_endpoints P root_path 1) (\<lambda>c.
     try_io (bind_endpoints P root_path 2) (\<lambda>g.
     try_io (bind_endpoints P root_path 1) (\<lambda>c'.
       if c \<noteq> c' then return_io (Err (invalid_abi root_path ''endpoint identity changed during discovery''))
       else
         try_io (bind_endpoints P root_path 2) (\<lambda>g'.
           if g \<noteq> g' then return_io (Err (invalid_abi root_path ''endpoint identity changed during discovery''))
           else return_io (Ok \<lparr>dev_hwmon_root = hwmon_root, dev_root = root_path, backing_identity = identity,
                              dev_cpu = c, dev_gpu = g\<rparr>)))))))))))"

section \<open>The bounded re-check\<close>

fun scan_candidates_before ::
  "('p, 'l) platform_ops \<Rightarrow> path \<Rightarrow> duration \<Rightarrow> path list \<Rightarrow> (path \<times> file_identity) list
     \<Rightarrow> ('p, acer_hwmon_discovery_error, (path \<times> file_identity) list) io" where
  "scan_candidates_before P hwmon_root deadline [] found = return_io (Ok found)"
| "scan_candidates_before P hwmon_root deadline (candidate # rest) found =
     try_io (return_io (validate_hwmon_entry hwmon_root candidate)) (\<lambda>_.
     try_io (hwmon_io (identity_before P candidate deadline)) (\<lambda>identity.
     try_io (hwmon_io (identity_before P (join candidate ''name'') deadline)) (\<lambda>name_identity.
     try_io (hwmon_io (read_bound_before P candidate identity ''name'' name_identity deadline)) (\<lambda>name.
       scan_candidates_before P hwmon_root deadline rest
         (if name = acer_hwmon_name_payload then found @ [(candidate, identity)] else found)))))"

definition find_acer_devices_before ::
  "('p, 'l) platform_ops \<Rightarrow> path \<Rightarrow> duration
     \<Rightarrow> ('p, acer_hwmon_discovery_error, (path \<times> file_identity) list) io" where
  "find_acer_devices_before P hwmon_root deadline =
     try_io (hwmon_io (list_before P hwmon_root deadline)) (\<lambda>candidates.
       scan_candidates_before P hwmon_root deadline candidates [])"

definition require_permissions_bound_before ::
  "('p, 'l) platform_ops \<Rightarrow> path \<Rightarrow> file_identity \<Rightarrow> string \<Rightarrow> file_identity \<Rightarrow> file_permissions \<Rightarrow> duration
     \<Rightarrow> ('p, acer_hwmon_discovery_error, unit) io" where
  "require_permissions_bound_before P root_path identity child child_identity expected deadline =
     try_io (hwmon_io (permissions_bound_before P root_path identity child child_identity deadline)) (\<lambda>actual.
       return_io (if \<not> permissions_eq actual expected
                  then Err (InvalidPermissions (join root_path child) expected actual) else Ok ()))"

fun require_bindings_permissions ::
  "('p, 'l) platform_ops \<Rightarrow> acer_hwmon_device \<Rightarrow> duration \<Rightarrow> (path \<times> file_identity) list
     \<Rightarrow> ('p, acer_hwmon_discovery_error, unit) io" where
  "require_bindings_permissions P dev deadline [] = return_io (Ok ())"
| "require_bindings_permissions P dev deadline ((path, identity) # rest) =
     (let expected =
            (if path = tachometer_path (dev_cpu dev) \<or> path = tachometer_path (dev_gpu dev)
             then permissions_read_only else permissions_read_write)
      in try_io (return_io (expect (file_name path))) (\<lambda>child.
         try_io (require_permissions_bound_before P (dev_root dev) (backing_identity dev) child identity
                   expected deadline) (\<lambda>_.
           require_bindings_permissions P dev deadline rest)))"

definition validate_exact_two_fan_abi_before ::
  "('p, 'l) platform_ops \<Rightarrow> acer_hwmon_device \<Rightarrow> duration \<Rightarrow> ('p, acer_hwmon_discovery_error, unit) io" where
  "validate_exact_two_fan_abi_before P dev deadline =
     (let root_path = dev_root dev; identity = backing_identity dev
      in try_io (hwmon_io (list_bound_before P root_path identity deadline)) (\<lambda>entries.
         try_io (return_io (validate_entry_names root_path entries)) (\<lambda>_.
         try_io (hwmon_io (identity_before P (join root_path ''name'') deadline)) (\<lambda>name_identity.
         try_io (hwmon_io (read_bound_before P root_path identity ''name'' name_identity deadline)) (\<lambda>name.
           if name \<noteq> acer_hwmon_name_payload
           then return_io (Err (invalid_abi root_path ''Acer identity changed after discovery''))
           else
             try_io (require_permissions_bound_before P root_path identity ''name'' name_identity
                       permissions_read_only deadline) (\<lambda>_.
             try_io (return_io (endpoint_bindings dev)) (\<lambda>bindings.
               require_bindings_permissions P dev deadline bindings)))))))"

fun identities_current ::
  "('p, 'l) platform_ops \<Rightarrow> duration \<Rightarrow> (path \<times> file_identity option) list
     \<Rightarrow> ('p, acer_hwmon_discovery_error, bool) io" where
  "identities_current P deadline [] = return_io (Ok True)"
| "identities_current P deadline ((path, expected) # rest) =
     try_io (hwmon_io (identity_before P path deadline)) (\<lambda>identity.
     try_io (return_io (expect expected)) (\<lambda>e.
       if identity \<noteq> e then return_io (Ok False) else identities_current P deadline rest))"

definition abi_is_current_before ::
  "('p, 'l) platform_ops \<Rightarrow> acer_hwmon_device \<Rightarrow> duration \<Rightarrow> ('p, acer_hwmon_discovery_error, bool) io" where
  "abi_is_current_before P dev deadline =
     try_io (find_acer_devices_before P (dev_hwmon_root dev) deadline) (\<lambda>found.
     try_io (return_io (the_single_device found)) (\<lambda>(root_path, identity).
       if root_path \<noteq> dev_root dev \<or> identity \<noteq> backing_identity dev then return_io (Ok False)
       else
         try_io (validate_exact_two_fan_abi_before P dev deadline) (\<lambda>_.
           identities_current P deadline (device_endpoints dev))))"


section \<open>Discovered devices\<close>

definition bound_channel :: "path \<Rightarrow> nat \<Rightarrow> fan_endpoints \<Rightarrow> bool" where
  "bound_channel root_path channel e =
     (pwm_path e = pwm_path (endpoints root_path channel)
      \<and> enable_path e = enable_path (endpoints root_path channel)
      \<and> tachometer_path e = tachometer_path (endpoints root_path channel)
      \<and> pwm_identity e \<noteq> None \<and> enable_identity e \<noteq> None \<and> tachometer_identity e \<noteq> None)"

definition device_ok :: "acer_hwmon_device \<Rightarrow> bool" where
  "device_ok dev = (bound_channel (dev_root dev) 1 (dev_cpu dev) \<and> bound_channel (dev_root dev) 2 (dev_gpu dev))"

definition device_paths :: "acer_hwmon_device \<Rightarrow> path list" where
  "device_paths dev = map fst (device_endpoints dev)"

lemma dec_string_channels [simp]: "dec_string 1 = ''1''" "dec_string (Suc 0) = ''1''" "dec_string 2 = ''2''"
  by code_simp+

lemma endpoint_paths:
  "endpoints r 1 = \<lparr>pwm_path = r @ [''pwm1''], pwm_identity = None, enable_path = r @ [''pwm1_enable''],
     enable_identity = None, tachometer_path = r @ [''fan1_input''], tachometer_identity = None\<rparr>"
  "endpoints r 2 = \<lparr>pwm_path = r @ [''pwm2''], pwm_identity = None, enable_path = r @ [''pwm2_enable''],
     enable_identity = None, tachometer_path = r @ [''fan2_input''], tachometer_identity = None\<rparr>"
  by (simp_all add: endpoints_def join_def)

lemma device_ok_paths:
  assumes "device_ok dev"
  shows "device_paths dev = map (\<lambda>n. dev_root dev @ [n]) [''pwm1'', ''pwm1_enable'', ''fan1_input'',
    ''pwm2'', ''pwm2_enable'', ''fan2_input'']"
  using assms unfolding device_ok_def bound_channel_def endpoint_paths
  by (simp add: device_paths_def device_endpoints_def)

lemma direct_bound_child_endpoint:
  "name \<in> set (''name'' # expected_endpoints) \<Longrightarrow> direct_bound_child r name = Ok (r @ [name])"
  by (auto simp: expected_endpoints_def direct_bound_child_def single_normal_component_def join_def)

lemma device_path_names:
  assumes "device_ok dev" "path \<in> set (device_paths dev)"
  obtains name where "name \<in> set expected_endpoints" "path = dev_root dev @ [name]"
    "file_name path = Some name" "direct_bound_child (dev_root dev) name = Ok path"
proof -
  obtain name where n: "name \<in> set expected_endpoints" "path = dev_root dev @ [name]"
    using assms(2) unfolding device_ok_paths [OF assms(1)] by (auto simp: expected_endpoints_def)
  then show thesis using that [OF n] direct_bound_child_endpoint [of name "dev_root dev"]
    by (simp add: file_name_def)
qed

lemma endpoint_identity_bound:
  assumes "device_ok dev" "path \<in> set (device_paths dev)"
  shows "\<exists>i. endpoint_identity dev path = Some i"
proof -
  obtain i where m: "map_of (device_endpoints dev) path = Some i"
    using assms(2) map_of_eq_None_iff [of "device_endpoints dev" path]
    by (cases "map_of (device_endpoints dev) path") (auto simp: device_paths_def)
  then have "(path, i) \<in> set (device_endpoints dev)" by (rule map_of_SomeD)
  moreover have "\<forall>(path, i) \<in> set (device_endpoints dev). i \<noteq> None"
    using assms(1) by (auto simp: device_endpoints_def device_ok_def bound_channel_def)
  ultimately show ?thesis using m by (auto simp: endpoint_identity_def)
qed

lemma bind_endpoints_bound:
  "bind_endpoints P r c p = (Ok e, p') \<Longrightarrow> bound_channel r c e"
  by (auto simp: bind_endpoints_def Let_def bound_channel_def)

lemma discovered_device_ok:
  "discover_acer_hwmon P hwmon_root p = (Ok dev, p') \<Longrightarrow> device_ok dev"
  by (auto simp: discover_acer_hwmon_def device_ok_def dest: bind_endpoints_bound split: if_splits)

lemma endpoint_bindings_total:
  assumes "device_ok dev"
  shows "\<exists>bs. endpoint_bindings dev = (Ok bs :: ('e, (path \<times> file_identity) list) outcome)
    \<and> map fst bs = device_paths dev"
proof -
  have b: "\<forall>x \<in> set (device_endpoints dev). snd x \<noteq> None"
    using assms by (auto simp: device_endpoints_def device_ok_def bound_channel_def)
  have "endpoint_bindings dev = (Ok (map (\<lambda>(path, i). (path, the i)) (device_endpoints dev)) :: ('e, (path \<times> file_identity) list) outcome)"
    unfolding endpoint_bindings_def using b by (intro map_ok_total) auto
  then show ?thesis by (auto simp: device_paths_def comp_def split_def)
qed

end
