(* ===== verification/Restoration.thy ===== *)
theory Restoration
  imports Hwmon
begin

text \<open>
  Restoration of Firmware Auto and emergency containment
  (\<open>fan-control-core/src/restoration.rs\<close>), for any platform. Shown here, on platforms that satisfy
  the interface: a successful restoration leaves both fans in Firmware Auto, restoration writes
  nothing but the Firmware Auto mode and at most three times per fan, containment writes nothing
  but the maximum PWM, every containment status describes the files, and on a timely platform
  both finish within their windows.
\<close>

section \<open>Constants and results\<close>

definition firmware_auto :: string where "firmware_auto = ''2''"
definition custom_control :: string where "custom_control = ''1''"
definition maximum_pwm :: string where "maximum_pwm = ''255''"
definition max_attempts :: u8 where "max_attempts = 3"
definition restoration_window :: duration where "restoration_window = from_secs 2"
definition recovery_interval :: duration where "recovery_interval = from_secs 2"
definition recovery_restoration_window :: duration where "recovery_restoration_window = from_secs 1"
definition recovery_fan_window :: duration where "recovery_fan_window = from_millis 500"

datatype firmware_auto_readback = AutoConfirmed | NotAuto string | AutoUnreadable platform_error

definition readback_is_confirmed :: "firmware_auto_readback \<Rightarrow> bool" where
  "readback_is_confirmed r = (r = AutoConfirmed)"

record fan_restoration_status =
  frs_write_error :: "platform_error option"
  frs_readback :: firmware_auto_readback

definition status_is_confirmed :: "fan_restoration_status \<Rightarrow> bool" where
  "status_is_confirmed s = readback_is_confirmed (frs_readback s)"

datatype firmware_auto_restoration_error =
    DifferentController file_identity file_identity
  | Unconfirmed u8 fan_restoration_status fan_restoration_status
  | RestorationDeadlineExceeded u8 fan_restoration_status fan_restoration_status

datatype maximum_pwm_readback = MaximumReadbackConfirmed | MaximumUnexpected string | MaximumUnreadable platform_error

datatype fan_mode_failure = ModeUnexpected string | ModeUnreadable platform_error

datatype emergency_fan_status =
    EmergencyFirmwareAuto
  | MaximumConfirmed
  | ModeUnconfirmed fan_mode_failure
  | MaximumUnconfirmed "platform_error option" maximum_pwm_readback

record emergency_containment_report =
  ecr_cpu :: emergency_fan_status
  ecr_gpu :: emergency_fan_status

definition report_restoration_confirmed :: "emergency_containment_report \<Rightarrow> bool" where
  "report_restoration_confirmed report =
     (ecr_cpu report = EmergencyFirmwareAuto \<and> ecr_gpu report = EmergencyFirmwareAuto)"

section \<open>Bound reads and writes\<close>

definition bound_endpoint :: "acer_hwmon_device \<Rightarrow> path \<Rightarrow> ('e, string \<times> file_identity) outcome" where
  "bound_endpoint dev path =
     bind_ok (expect (file_name path)) (\<lambda>child.
     bind_ok (expect (endpoint_identity dev path)) (\<lambda>identity. Ok (child, identity)))"

definition read_bound ::
  "('p, 'l) platform_ops \<Rightarrow> acer_hwmon_device \<Rightarrow> path \<Rightarrow> duration
     \<Rightarrow> (('p, 'l, 's) world, platform_error, string) io" where
  "read_bound P dev path deadline =
     try_io (return_io (bound_endpoint dev path)) (\<lambda>(child, identity).
       on_platform (read_bound_before P (dev_root dev) (backing_identity dev) child identity deadline))"

definition write_bound ::
  "('p, 'l) platform_ops \<Rightarrow> acer_hwmon_device \<Rightarrow> path \<Rightarrow> string \<Rightarrow> duration
     \<Rightarrow> (('p, 'l, 's) world, platform_error, unit) io" where
  "write_bound P dev path contents deadline =
     try_io (return_io (bound_endpoint dev path)) (\<lambda>(child, identity).
       on_platform (write_bound_if_before P (dev_root dev) (backing_identity dev) [(child, identity)] []
         child contents deadline))"

definition readback_of :: "platform_error + string \<Rightarrow> firmware_auto_readback" where
  "readback_of r =
     (case r of
        Inr value \<Rightarrow> if trim value = firmware_auto then AutoConfirmed else NotAuto value
      | Inl error \<Rightarrow> AutoUnreadable error)"

definition status ::
  "('p, 'l) platform_ops \<Rightarrow> acer_hwmon_device \<Rightarrow> path \<Rightarrow> platform_error option \<Rightarrow> duration
     \<Rightarrow> (('p, 'l, 's) world, 'e, fan_restoration_status) io" where
  "status P dev enable write_error deadline =
     try_io (catch_io (read_bound P dev enable deadline)) (\<lambda>r.
       return_io (Ok \<lparr>frs_write_error = write_error, frs_readback = readback_of r\<rparr>))"

section \<open>Restoration\<close>

definition diagnostic_readback :: "firmware_auto_readback \<Rightarrow> restoration_readback" where
  "diagnostic_readback r =
     (case r of
        AutoConfirmed \<Rightarrow> ReadbackFirmwareAuto
      | NotAuto value \<Rightarrow> if trim value = custom_control then ReadbackCustom else ReadbackOther
      | AutoUnreadable _ \<Rightarrow> ReadbackUnreadable)"

definition restoration_fan_diagnostic_of :: "fan_restoration_status \<Rightarrow> restoration_fan_diagnostic" where
  "restoration_fan_diagnostic_of s =
     \<lparr>rfd_write_succeeded = (frs_write_error s = None), rfd_readback = diagnostic_readback (frs_readback s)\<rparr>"

definition emit_attempt ::
  "u8 \<Rightarrow> fan_restoration_status \<Rightarrow> fan_restoration_status \<Rightarrow> (('p, 'l, 's) world, 'e, unit) io" where
  "emit_attempt attempt c g =
     emit_restoration_attempt
       \<lparr>rad_attempt = attempt, rad_cpu = restoration_fan_diagnostic_of c, rad_gpu = restoration_fan_diagnostic_of g\<rparr>"

text \<open>One attempt: both writes, then both readbacks.\<close>

definition restoration_attempt ::
  "('p, 'l) platform_ops \<Rightarrow> acer_hwmon_device \<Rightarrow> duration
     \<Rightarrow> (('p, 'l, 's) world, 'e, fan_restoration_status \<times> fan_restoration_status) io" where
  "restoration_attempt P dev deadline =
     try_io (catch_io (write_bound P dev (enable_path (dev_cpu dev)) firmware_auto deadline)) (\<lambda>cw.
     try_io (catch_io (write_bound P dev (enable_path (dev_gpu dev)) firmware_auto deadline)) (\<lambda>gw.
     try_io (status P dev (enable_path (dev_cpu dev)) (err_of cw) deadline) (\<lambda>c.
     try_io (status P dev (enable_path (dev_gpu dev)) (err_of gw) deadline) (\<lambda>g.
       return_io (Ok (c, g))))))"

definition restoration_unconfirmed ::
  "u8 \<Rightarrow> (fan_restoration_status \<times> fan_restoration_status) option
     \<Rightarrow> (('p, 'l, 's) world, firmware_auto_restoration_error, unit) io" where
  "restoration_unconfirmed attempts last_status =
     try_io (emit_fault FaultRestorationUnconfirmed None) (\<lambda>_.
     try_io (return_io (expect last_status)) (\<lambda>(c, g).
       return_io (Err (Unconfirmed attempts c g))))"

definition restoration_deadline_exceeded ::
  "u8 \<Rightarrow> fan_restoration_status \<Rightarrow> fan_restoration_status
     \<Rightarrow> (('p, 'l, 's) world, firmware_auto_restoration_error, unit) io" where
  "restoration_deadline_exceeded attempts c g =
     try_io (emit_fault FaultRestorationUnconfirmed None) (\<lambda>_.
       return_io (Err (RestorationDeadlineExceeded attempts c g)))"

fun restore_loop ::
  "('p, 'l) platform_ops \<Rightarrow> acer_hwmon_device \<Rightarrow> duration \<Rightarrow> u8 list \<Rightarrow> duration \<Rightarrow> u8
     \<Rightarrow> (fan_restoration_status \<times> fan_restoration_status) option
     \<Rightarrow> (('p, 'l, 's) world, firmware_auto_restoration_error, unit) io" where
  "restore_loop P dev deadline [] now attempts last_status = restoration_unconfirmed attempts last_status"
| "restore_loop P dev deadline (attempt # rest) now attempts last_status =
     (if 1 < attempt \<and> deadline \<le> now then restoration_unconfirmed attempts last_status
      else
        try_io (restoration_attempt P dev deadline) (\<lambda>(c, g).
        try_io (emit_attempt attempt c g) (\<lambda>_.
        try_io (now_io P) (\<lambda>now1.
          if deadline < now1 then restoration_deadline_exceeded attempt c g
          else if status_is_confirmed c \<and> status_is_confirmed g then return_io (Ok ())
          else if now1 = deadline \<and> attempt < max_attempts then restoration_deadline_exceeded attempt c g
          else restore_loop P dev deadline rest now1 attempt (Some (c, g))))))"

definition restore_firmware_auto_before ::
  "('p, 'l) platform_ops \<Rightarrow> acer_hwmon_device \<Rightarrow> duration \<Rightarrow> duration
     \<Rightarrow> (('p, 'l, 's) world, firmware_auto_restoration_error, unit) io" where
  "restore_firmware_auto_before P dev started_at deadline =
     restore_loop P dev deadline [1, 2, 3] started_at 0 None"

definition restore_firmware_auto ::
  "('p, 'l) platform_ops \<Rightarrow> acer_hwmon_device
     \<Rightarrow> (('p, 'l, 's) world, firmware_auto_restoration_error, unit) io" where
  "restore_firmware_auto P dev =
     try_io (now_io P) (\<lambda>started_at.
       restore_firmware_auto_before P dev started_at (duration_saturating_add started_at restoration_window))"

section \<open>Containment\<close>

definition maximum_readback_of :: "platform_error + string \<Rightarrow> maximum_pwm_readback" where
  "maximum_readback_of r =
     (case r of
        Inr value \<Rightarrow> if trim value = maximum_pwm then MaximumReadbackConfirmed else MaximumUnexpected value
      | Inl error \<Rightarrow> MaximumUnreadable error)"

definition contain_fan ::
  "('p, 'l) platform_ops \<Rightarrow> acer_hwmon_device \<Rightarrow> fan_endpoints \<Rightarrow> duration
     \<Rightarrow> (('p, 'l, 's) world, 'e, emergency_fan_status) io" where
  "contain_fan P dev fan deadline =
     try_io (now_io P) (\<lambda>started_at.
       let operation_window = duration_saturating_sub deadline started_at div 3;
           mode_deadline = duration_saturating_add started_at operation_window;
           write_deadline = duration_saturating_add mode_deadline operation_window
       in try_io (catch_io (read_bound P dev (enable_path fan) mode_deadline)) (\<lambda>r.
            case r of
              Inl error \<Rightarrow> return_io (Ok (ModeUnconfirmed (ModeUnreadable error)))
            | Inr m \<Rightarrow>
                if trim m = firmware_auto then return_io (Ok EmergencyFirmwareAuto)
                else if trim m = custom_control
                then
                  try_io (catch_io (write_bound P dev (pwm_path fan) maximum_pwm write_deadline)) (\<lambda>wr.
                  try_io (catch_io (read_bound P dev (pwm_path fan) deadline)) (\<lambda>rb.
                    return_io (Ok
                      (if err_of wr = None \<and> maximum_readback_of rb = MaximumReadbackConfirmed
                       then MaximumConfirmed
                       else MaximumUnconfirmed (err_of wr) (maximum_readback_of rb)))))
                else return_io (Ok (ModeUnconfirmed (ModeUnexpected m)))))"

definition contain_custom_fans_before ::
  "('p, 'l) platform_ops \<Rightarrow> acer_hwmon_device \<Rightarrow> duration \<Rightarrow> duration
     \<Rightarrow> (('p, 'l, 's) world, 'e, emergency_containment_report) io" where
  "contain_custom_fans_before P dev cpu_deadline gpu_deadline =
     try_io (contain_fan P dev (dev_cpu dev) cpu_deadline) (\<lambda>c.
     try_io (contain_fan P dev (dev_gpu dev) gpu_deadline) (\<lambda>g.
       return_io (Ok \<lparr>ecr_cpu = c, ecr_gpu = g\<rparr>)))"

definition contain_custom_fans_at_maximum ::
  "('p, 'l) platform_ops \<Rightarrow> acer_hwmon_device
     \<Rightarrow> (('p, 'l, 's) world, 'e, emergency_containment_report) io" where
  "contain_custom_fans_at_maximum P dev =
     try_io (now_io P) (\<lambda>started_at.
       contain_custom_fans_before P dev (duration_saturating_add started_at (from_secs 1))
         (duration_saturating_add started_at restoration_window))"

section \<open>The recovery loop\<close>

text \<open>
  One turn of the loop in \<open>recover_firmware_auto\<close>: \<open>Ok True\<close> when it returns. The loop itself may
  run forever, which is the value \<open>None\<close>.
\<close>

definition recovery_cycle ::
  "('p, 'l) platform_ops \<Rightarrow> acer_hwmon_device \<Rightarrow> (('p, 'l, 's) world, 'e, bool) io" where
  "recovery_cycle P dev =
     try_io (now_io P) (\<lambda>cycle_started.
       let next_attempt = duration_saturating_add cycle_started recovery_interval;
           restoration_deadline = duration_saturating_add cycle_started recovery_restoration_window
       in try_io (catch_io (restore_firmware_auto_before P dev cycle_started restoration_deadline)) (\<lambda>restored.
            if err_of restored = None then return_io (Ok True)
            else
              (let cpu_deadline = duration_saturating_add restoration_deadline recovery_fan_window
               in try_io (contain_custom_fans_before P dev cpu_deadline next_attempt) (\<lambda>report.
                    if report_restoration_confirmed report then return_io (Ok True)
                    else
                      try_io (now_io P) (\<lambda>now1.
                        if now1 < next_attempt
                        then try_io (delay_io P (next_attempt - now1)) (\<lambda>_. return_io (Ok False))
                        else return_io (Ok False))))))"

partial_function (option) recover_firmware_auto ::
  "('p, 'l) platform_ops \<Rightarrow> acer_hwmon_device \<Rightarrow> ('p, 'l, 's) world
     \<Rightarrow> (('e, unit) outcome \<times> ('p, 'l, 's) world) option" where
  "recover_firmware_auto P dev w =
     (case recovery_cycle P dev w of
        (Ok done, w') \<Rightarrow> if done then Some (Ok (), w') else recover_firmware_auto P dev w'
      | (Err e, w') \<Rightarrow> Some (Err e, w')
      | (Panic, w') \<Rightarrow> Some (Panic, w'))"


section \<open>What restoration does on a platform of the interface\<close>

text \<open>The run changed at most the platform and the journal, kept the platform sound and the clock monotone.\<close>

definition ran_to :: "('p \<Rightarrow> bool) \<Rightarrow> ('p \<Rightarrow> duration) \<Rightarrow> ('p, 'l, 's) world \<Rightarrow> ('p, 'l, 's) world \<Rightarrow> bool" where
  "ran_to sound now w w' =
     (w' = w\<lparr>platform := platform w', journal := journal w'\<rparr>
      \<and> sound (platform w') \<and> now (platform w) \<le> now (platform w'))"

lemma ran_to_refl: "sound (platform w) \<Longrightarrow> ran_to sound now w w"
  by (simp add: ran_to_def)

lemma ran_to_sound: "ran_to sound now w w' \<Longrightarrow> sound (platform w')"
  by (simp add: ran_to_def)

lemma ran_to_trans: "ran_to sound now w w1 \<Longrightarrow> ran_to sound now w1 w2 \<Longrightarrow> ran_to sound now w w2"
  by (cases w; cases w1; cases w2) (auto simp: ran_to_def)

definition enable_paths :: "acer_hwmon_device \<Rightarrow> path set" where
  "enable_paths dev = {enable_path (dev_cpu dev), enable_path (dev_gpu dev)}"

definition in_firmware_auto :: "acer_hwmon_device \<Rightarrow> (path \<Rightarrow> string option) \<Rightarrow> bool" where
  "in_firmware_auto dev c = (\<forall>path \<in> enable_paths dev. \<exists>v. c path = Some v \<and> trim v = firmware_auto)"

text \<open>The only change to the files: some of these paths received these contents.\<close>

definition only_stored :: "path set \<Rightarrow> string \<Rightarrow> (path \<Rightarrow> string option) \<Rightarrow> (path \<Rightarrow> string option) \<Rightarrow> bool" where
  "only_stored paths v c c' = (\<forall>path. c' path = c path \<or> path \<in> paths \<and> c' path = Some v)"

lemma only_stored_refl: "only_stored paths v c c"
  by (simp add: only_stored_def)

lemma only_stored_trans: "only_stored paths v c c1 \<Longrightarrow> only_stored paths v c1 c2 \<Longrightarrow> only_stored paths v c c2"
  unfolding only_stored_def by metis

lemma only_stored_mono: "only_stored paths v c c' \<Longrightarrow> paths \<subseteq> paths' \<Longrightarrow> only_stored paths' v c c'"
  unfolding only_stored_def by blast

lemma ran_to_emit: "ran_to sound now w w1 \<Longrightarrow> ran_to sound now w (w1\<lparr>journal := js\<rparr>)"
  by (cases w; cases w1) (auto simp: ran_to_def)

lemma trim_constants [simp]: "trim firmware_auto = firmware_auto" "trim maximum_pwm = maximum_pwm" "trim custom_control = custom_control"
  by (simp_all add: firmware_auto_def maximum_pwm_def custom_control_def trim_def is_white_def)

lemma device_path_in [simp]:
  "enable_path (dev_cpu dev) \<in> set (device_paths dev)" "enable_path (dev_gpu dev) \<in> set (device_paths dev)"
  "pwm_path (dev_cpu dev) \<in> set (device_paths dev)" "pwm_path (dev_gpu dev) \<in> set (device_paths dev)"
  "tachometer_path (dev_cpu dev) \<in> set (device_paths dev)" "tachometer_path (dev_gpu dev) \<in> set (device_paths dev)"
  by (simp_all add: device_paths_def device_endpoints_def)

lemma bound_endpoint_known:
  assumes "device_ok dev" "path \<in> set (device_paths dev)"
  obtains name i where "bound_endpoint dev path = (Ok (name, i) :: ('e, string \<times> file_identity) outcome)"
    "direct_bound_child (dev_root dev) name = Ok path"
proof -
  obtain name where "file_name path = Some name" "direct_bound_child (dev_root dev) name = Ok path"
    using device_path_names [OF assms] by metis
  moreover obtain i where "endpoint_identity dev path = Some i" using endpoint_identity_bound [OF assms] by blast
  ultimately show thesis by (intro that [of name i]) (simp_all add: bound_endpoint_def)
qed

context fan_platform
begin

lemma now_io_spec:
  assumes "sound (platform w)"
  shows "wp (now_io P) (\<lambda>r w'. ran_to sound now w w' \<and> content (platform w') = content (platform w)
    \<and> (\<exists>t. r = Ok t \<and> now (platform w) \<le> t \<and> t \<le> now (platform w'))) w"
  unfolding wp_now_io by (rule wp_mono [OF now_spec [OF assms]]) (auto simp: steady_def ran_to_def)

lemma read_bound_spec:
  assumes "device_ok dev" "path \<in> set (device_paths dev)" "sound (platform w)"
  shows "wp (read_bound P dev path dl)
    (\<lambda>r w'. ran_to sound now w w' \<and> content (platform w') = content (platform w) \<and> r \<noteq> Panic
       \<and> (\<forall>v. r = Ok v \<longrightarrow> content (platform w) path = Some v)) w"
proof -
  obtain name i where b: "bound_endpoint dev path = (Ok (name, i) :: (platform_error, string \<times> file_identity) outcome)"
    "direct_bound_child (dev_root dev) name = Ok path"
    using bound_endpoint_known [OF assms(1,2)] by metis
  show ?thesis
    unfolding read_bound_def b(1) try_io_known prod.case wp_on_platform
    by (rule wp_mono [OF read_spec [OF assms(3)]]) (auto simp: steady_def ran_to_def b(2))
qed

lemma write_bound_spec:
  assumes "device_ok dev" "path \<in> set (device_paths dev)" "sound (platform w)"
  shows "wp (write_bound P dev path v dl)
    (\<lambda>r w'. ran_to sound now w w' \<and> r \<noteq> Panic
       \<and> only_stored {path} v (content (platform w)) (content (platform w'))
       \<and> (r = Ok () \<longrightarrow> content (platform w') = (content (platform w))(path \<mapsto> v))) w"
proof -
  obtain name i where b: "bound_endpoint dev path = (Ok (name, i) :: (platform_error, string \<times> file_identity) outcome)"
    "direct_bound_child (dev_root dev) name = Ok path"
    using bound_endpoint_known [OF assms(1,2)] by metis
  show ?thesis
    unfolding write_bound_def b(1) try_io_known prod.case wp_on_platform
    by (rule wp_mono [OF write_spec [OF assms(3)]]) (auto simp: write_effect_def b(2) ran_to_def only_stored_def split: if_splits)
qed

lemma status_spec:
  assumes "device_ok dev" "path \<in> set (device_paths dev)" "sound (platform w)"
  shows "wp (status P dev path e dl)
    (\<lambda>r w'. ran_to sound now w w' \<and> content (platform w') = content (platform w)
       \<and> (\<exists>s. r = Ok s \<and> (status_is_confirmed s \<longrightarrow>
            (\<exists>v. content (platform w) path = Some v \<and> trim v = firmware_auto)))) w"
  unfolding status_def
  by (rule wp_try [OF wp_catch [OF read_bound_spec [OF assms]]])
    (auto simp: io_simps readback_of_def status_is_confirmed_def readback_is_confirmed_def split: sum.splits if_splits)

lemma restoration_attempt_spec:
  assumes "device_ok dev" "sound (platform w)"
  shows "wp (restoration_attempt P dev dl)
    (\<lambda>r w'. ran_to sound now w w'
       \<and> only_stored (enable_paths dev) firmware_auto (content (platform w)) (content (platform w'))
       \<and> (\<exists>c g. r = Ok (c, g) \<and> (status_is_confirmed c \<and> status_is_confirmed g \<longrightarrow>
            in_firmware_auto dev (content (platform w'))))) w"
proof -
  let ?c = "enable_path (dev_cpu dev)" and ?g = "enable_path (dev_gpu dev)"
  define R where "R w' \<longleftrightarrow> ran_to sound now w w'
    \<and> only_stored (enable_paths dev) firmware_auto (content (platform w)) (content (platform w'))" for w'
  have R0: "R w" using assms(2) by (simp add: R_def ran_to_refl only_stored_refl)
  have step: "R w2" if "R w1" "ran_to sound now w1 w2"
    "only_stored {path} firmware_auto (content (platform w1)) (content (platform w2))" "path \<in> enable_paths dev"
    for w1 w2 path
    using that ran_to_trans [of sound now w w1 w2]
      only_stored_trans [OF _ only_stored_mono [of "{path}" _ _ _ "enable_paths dev"]]
    unfolding R_def by auto
  have wr: "wp (catch_io (write_bound P dev path firmware_auto dl)) (\<lambda>r w2. R w2 \<and> (\<exists>x. r = Ok x)) w1"
    if "R w1" "path \<in> enable_paths dev" for w1 path
  proof (rule wp_mono [OF wp_catch [OF write_bound_spec [OF assms(1)]]])
    show "path \<in> set (device_paths dev)" using that(2) by (auto simp: enable_paths_def)
    show "sound (platform w1)" using that(1) by (simp add: R_def ran_to_def)
  qed (use step [OF that(1) _ _ that(2)] in \<open>auto split: outcome.splits sum.splits\<close>)
  have readb: "wp (status P dev path e dl) (\<lambda>r w2. R w2 \<and> content (platform w2) = content (platform w1)
      \<and> (\<exists>s. r = Ok s \<and> (status_is_confirmed s \<longrightarrow>
            (\<exists>v. content (platform w1) path = Some v \<and> trim v = firmware_auto)))) w1"
    if "R w1" "path \<in> enable_paths dev" for w1 path e
  proof (rule wp_mono [OF status_spec [OF assms(1)]])
    show "path \<in> set (device_paths dev)" using that(2) by (auto simp: enable_paths_def)
    show "sound (platform w1)" using that(1) by (simp add: R_def ran_to_def)
  qed (use step [OF that(1) _ _ that(2)] in \<open>auto simp: only_stored_refl\<close>)
  have p: "?c \<in> enable_paths dev" "?g \<in> enable_paths dev" by (simp_all add: enable_paths_def)
  show ?thesis
    unfolding restoration_attempt_def
  proof (rule wp_try [OF wr [OF R0 p(1)]], elim conjE, rule wp_try [OF wr [OF _ p(2)]], assumption,
      elim conjE, rule wp_try [OF readb [OF _ p(1)]], assumption, elim conjE exE)
    fix x w1 x' w2 x'' w3 s
    assume r: "R w3" "content (platform w3) = content (platform w2)"
      "status_is_confirmed s \<longrightarrow> (\<exists>v. content (platform w2) ?c = Some v \<and> trim v = firmware_auto)"
      and x'': "(Ok x'' :: ('c, fan_restoration_status) outcome) = Ok s"
    show "wp (try_io (status P dev ?g (err_of x') dl) (\<lambda>g. return_io (Ok (x'', g))))
      (\<lambda>r w'. ran_to sound now w w'
         \<and> only_stored (enable_paths dev) firmware_auto (content (platform w)) (content (platform w'))
         \<and> (\<exists>c g. r = Ok (c, g) \<and> (status_is_confirmed c \<and> status_is_confirmed g \<longrightarrow>
              in_firmware_auto dev (content (platform w'))))) w3"
      by (rule wp_try [OF readb [OF r(1) p(2)]])
        (use r(2,3) x'' in \<open>auto simp: io_simps R_def in_firmware_auto_def enable_paths_def\<close>)
  qed auto
qed

lemma restore_loop_spec:
  assumes "device_ok dev" "sound (platform w)" "as \<noteq> [] \<and> hd as = 1 \<or> ls \<noteq> None"
  shows "wp (restore_loop P dev dl as t n ls)
    (\<lambda>r w'. ran_to sound now w w' \<and> r \<noteq> Panic
       \<and> only_stored (enable_paths dev) firmware_auto (content (platform w)) (content (platform w'))
       \<and> (r = Ok () \<longrightarrow> in_firmware_auto dev (content (platform w')))) w"
  using assms(2,3)
proof (induction as arbitrary: w t n ls)
  case Nil
  then show ?case
    by (auto simp: restoration_unconfirmed_def io_simps ran_to_def only_stored_refl)
next
  case (Cons a as)
  let ?Q = "\<lambda>r w'. ran_to sound now w w' \<and> r \<noteq> Panic
       \<and> only_stored (enable_paths dev) firmware_auto (content (platform w)) (content (platform w'))
       \<and> (r = Ok () \<longrightarrow> in_firmware_auto dev (content (platform w')))"
  have un: "wp (restoration_unconfirmed n ls) ?Q w" if "ls \<noteq> None"
    using that Cons.prems(1) by (auto simp: restoration_unconfirmed_def io_simps ran_to_def only_stored_refl)
  have att: "wp (try_io (restoration_attempt P dev dl) (\<lambda>(c, g).
        try_io (emit_attempt a c g) (\<lambda>_.
        try_io (now_io P) (\<lambda>now1.
          if dl < now1 then restoration_deadline_exceeded a c g
          else if status_is_confirmed c \<and> status_is_confirmed g then return_io (Ok ())
          else if now1 = dl \<and> a < max_attempts then restoration_deadline_exceeded a c g
          else restore_loop P dev dl as now1 a (Some (c, g)))))) ?Q w"
  proof (rule wp_try [OF restoration_attempt_spec [OF assms(1) Cons.prems(1)]], elim conjE exE)
    fix x w1 c g
    assume r: "ran_to sound now w w1"
      "only_stored (enable_paths dev) firmware_auto (content (platform w)) (content (platform w1))"
      "status_is_confirmed c \<and> status_is_confirmed g \<longrightarrow> in_firmware_auto dev (content (platform w1))"
      and x: "(Ok x :: (firmware_auto_restoration_error, _) outcome) = Ok (c, g)"
    have s1: "sound (platform (w1\<lparr>journal := js\<rparr>))" for js using r(1) by (simp add: ran_to_def)
    have branch: "wp (if dl < t1 then restoration_deadline_exceeded a c g
          else if status_is_confirmed c \<and> status_is_confirmed g then return_io (Ok ())
          else if t1 = dl \<and> a < max_attempts then restoration_deadline_exceeded a c g
          else restore_loop P dev dl as t1 a (Some (c, g))) ?Q w2"
      if w2: "ran_to sound now (w1\<lparr>journal := js\<rparr>) w2" "content (platform w2) = content (platform w1)" for w2 js t1
    proof -
      have rw2: "ran_to sound now w w2" using ran_to_trans [OF ran_to_emit [OF r(1)] w2(1)] .
      then have "sound (platform w2)" by (simp add: ran_to_def)
      from Cons.IH [OF this, of "Some (c, g)" t1 a] have
        "wp (restore_loop P dev dl as t1 a (Some (c, g))) ?Q w2"
        by (rule wp_mono [OF _]) (use rw2 r(2) w2(2) in \<open>auto intro: ran_to_trans only_stored_trans\<close>)
      then show ?thesis
        using rw2 r(2,3) w2(2) by (auto simp: restoration_deadline_exceeded_def io_simps intro: ran_to_emit)
    qed
    show "wp (case x of (c, g) \<Rightarrow> try_io (emit_attempt a c g) (\<lambda>_.
        try_io (now_io P) (\<lambda>now1.
          if dl < now1 then restoration_deadline_exceeded a c g
          else if status_is_confirmed c \<and> status_is_confirmed g then return_io (Ok ())
          else if now1 = dl \<and> a < max_attempts then restoration_deadline_exceeded a c g
          else restore_loop P dev dl as now1 a (Some (c, g))))) ?Q w1"
      using x unfolding emit_attempt_def emit_restoration_attempt_def
      by (auto simp: wp_try_io [of "emit _"] wp_emit intro!: wp_try [OF now_io_spec [OF s1]] branch)
  qed auto
  show ?case
    using un att Cons.prems(2) by auto
qed

lemma restore_before_spec:
  assumes "device_ok dev" "sound (platform w)"
  shows "wp (restore_firmware_auto_before P dev t dl)
    (\<lambda>r w'. ran_to sound now w w' \<and> r \<noteq> Panic
       \<and> only_stored (enable_paths dev) firmware_auto (content (platform w)) (content (platform w'))
       \<and> (r = Ok () \<longrightarrow> in_firmware_auto dev (content (platform w')))) w"
  unfolding restore_firmware_auto_before_def by (rule restore_loop_spec [OF assms]) simp

lemma restore_spec:
  assumes "device_ok dev" "sound (platform w)"
  shows "wp (restore_firmware_auto P dev)
    (\<lambda>r w'. ran_to sound now w w' \<and> r \<noteq> Panic
       \<and> only_stored (enable_paths dev) firmware_auto (content (platform w)) (content (platform w'))
       \<and> (r = Ok () \<longrightarrow> in_firmware_auto dev (content (platform w')))) w"
  unfolding restore_firmware_auto_def
proof (rule wp_try [OF now_io_spec [OF assms(2)]])
  fix t w1
  assume w1: "ran_to sound now w w1 \<and> content (platform w1) = content (platform w)
    \<and> (\<exists>ta. (Ok t :: (firmware_auto_restoration_error, duration) outcome) = Ok ta \<and> now (platform w) \<le> ta \<and> ta \<le> now (platform w1))"
  then have "sound (platform w1)" by (simp add: ran_to_def)
  from restore_before_spec [OF assms(1) this]
  show "wp (restore_firmware_auto_before P dev t (duration_saturating_add t restoration_window))
    (\<lambda>r w'. ran_to sound now w w' \<and> r \<noteq> Panic
       \<and> only_stored (enable_paths dev) firmware_auto (content (platform w)) (content (platform w'))
       \<and> (r = Ok () \<longrightarrow> in_firmware_auto dev (content (platform w')))) w1"
    by (rule wp_mono) (use w1 in \<open>auto intro: ran_to_trans\<close>)
qed auto

end

section \<open>What containment does\<close>

definition fan_contained :: "fan_endpoints \<Rightarrow> (path \<Rightarrow> string option) \<Rightarrow> emergency_fan_status \<Rightarrow> bool" where
  "fan_contained fan c s =
     (case s of
        EmergencyFirmwareAuto \<Rightarrow> (\<exists>v. c (enable_path fan) = Some v \<and> trim v = firmware_auto)
      | MaximumConfirmed \<Rightarrow>
          (\<exists>v. c (enable_path fan) = Some v \<and> trim v = custom_control) \<and> c (pwm_path fan) = Some maximum_pwm
      | _ \<Rightarrow> True)"

definition pwm_paths :: "acer_hwmon_device \<Rightarrow> path set" where
  "pwm_paths dev = {pwm_path (dev_cpu dev), pwm_path (dev_gpu dev)}"

definition device_fans :: "acer_hwmon_device \<Rightarrow> fan_endpoints set" where
  "device_fans dev = {dev_cpu dev, dev_gpu dev}"

definition containment_effect ::
  "('p \<Rightarrow> bool) \<Rightarrow> ('p \<Rightarrow> path \<Rightarrow> string option) \<Rightarrow> ('p \<Rightarrow> duration) \<Rightarrow> acer_hwmon_device
     \<Rightarrow> ('p, 'l, 's) world \<Rightarrow> ('p, 'l, 's) world \<Rightarrow> ('e, emergency_containment_report) outcome \<Rightarrow> bool" where
  "containment_effect sound content now dev w w' r \<longleftrightarrow> ran_to sound now w w'
     \<and> only_stored (pwm_paths dev) maximum_pwm (content (platform w)) (content (platform w'))
     \<and> (\<exists>rep. r = Ok rep \<and> fan_contained (dev_cpu dev) (content (platform w')) (ecr_cpu rep)
            \<and> fan_contained (dev_gpu dev) (content (platform w')) (ecr_gpu rep))"

lemma only_stored_both:
  assumes "only_stored {pwm_path (dev_cpu dev)} v c c1" "only_stored {pwm_path (dev_gpu dev)} v c1 c2"
  shows "only_stored (pwm_paths dev) v c c2"
  by (rule only_stored_trans [OF only_stored_mono [OF assms(1)] only_stored_mono [OF assms(2)]])
    (auto simp: pwm_paths_def)

lemma device_paths_distinct:
  assumes "device_ok dev"
  shows "distinct (device_paths dev)"
  unfolding device_ok_paths [OF assms] by simp

lemma pwm_enable_disjoint:
  assumes "device_ok dev"
  shows "pwm_paths dev \<inter> enable_paths dev = {}" "pwm_path (dev_cpu dev) \<noteq> pwm_path (dev_gpu dev)"
  using device_paths_distinct [OF assms]
  by (auto simp: device_paths_def device_endpoints_def pwm_paths_def enable_paths_def)

context fan_platform
begin

lemma contain_fan_spec:
  assumes "device_ok dev" "sound (platform w)" "fan \<in> device_fans dev"
  shows "wp (contain_fan P dev fan dl)
    (\<lambda>r w'. ran_to sound now w w' \<and> only_stored {pwm_path fan} maximum_pwm (content (platform w)) (content (platform w'))
       \<and> (\<exists>s. r = Ok s \<and> fan_contained fan (content (platform w')) s)) w"
proof -
  have paths: "enable_path fan \<in> set (device_paths dev)" "pwm_path fan \<in> set (device_paths dev)"
    "enable_path fan \<noteq> pwm_path fan"
    using assms(3) pwm_enable_disjoint [OF assms(1)]
    by (auto simp: device_fans_def pwm_paths_def enable_paths_def)
  define c where "c = content (platform w)"
  let ?Q = "\<lambda>r w'. ran_to sound now w w' \<and> only_stored {pwm_path fan} maximum_pwm c (content (platform w'))
       \<and> (\<exists>s. r = Ok s \<and> fan_contained fan (content (platform w')) s)"
  have custom: "wp (try_io (catch_io (write_bound P dev (pwm_path fan) maximum_pwm d1)) (\<lambda>wr.
      try_io (catch_io (read_bound P dev (pwm_path fan) d2)) (\<lambda>rb.
        return_io (Ok (if err_of wr = None \<and> maximum_readback_of rb = MaximumReadbackConfirmed then MaximumConfirmed
           else MaximumUnconfirmed (err_of wr) (maximum_readback_of rb)))))) ?Q w2"
    if w2: "ran_to sound now w w2" "content (platform w2) = c" and m: "c (enable_path fan) = Some m" "trim m = custom_control"
    for w2 d1 d2 m
  proof (rule wp_try [OF wp_catch [OF write_bound_spec [OF assms(1) paths(2)]]])
    show "sound (platform w2)" using w2(1) by (simp add: ran_to_def)
    fix x w3
    assume x: "case (Ok x :: ('c, platform_error + unit) outcome) of
         Ok (Inl e) \<Rightarrow> ran_to sound now w2 w3 \<and> Err e \<noteq> Panic
           \<and> only_stored {pwm_path fan} maximum_pwm (content (platform w2)) (content (platform w3))
           \<and> (Err e = Ok () \<longrightarrow> content (platform w3) = (content (platform w2))(pwm_path fan \<mapsto> maximum_pwm))
       | Ok (Inr u) \<Rightarrow> ran_to sound now w2 w3 \<and> Ok u \<noteq> Panic
           \<and> only_stored {pwm_path fan} maximum_pwm (content (platform w2)) (content (platform w3))
           \<and> (Ok u = Ok () \<longrightarrow> content (platform w3) = (content (platform w2))(pwm_path fan \<mapsto> maximum_pwm))
       | Err e \<Rightarrow> False
       | Panic \<Rightarrow> ran_to sound now w2 w3 \<and> Panic \<noteq> Panic
           \<and> only_stored {pwm_path fan} maximum_pwm (content (platform w2)) (content (platform w3))
           \<and> (Panic = Ok () \<longrightarrow> content (platform w3) = (content (platform w2))(pwm_path fan \<mapsto> maximum_pwm))"
    have x3: "ran_to sound now w w3" "only_stored {pwm_path fan} maximum_pwm c (content (platform w3))"
      "err_of x = None \<Longrightarrow> content (platform w3) = c(pwm_path fan \<mapsto> maximum_pwm)"
      using x w2 by (auto simp: err_of_def intro: ran_to_trans split: sum.splits)
    have s3: "sound (platform w3)" using x3(1) by (simp add: ran_to_def)
    show "wp (try_io (catch_io (read_bound P dev (pwm_path fan) d2)) (\<lambda>rb.
        return_io (Ok (if err_of x = None \<and> maximum_readback_of rb = MaximumReadbackConfirmed then MaximumConfirmed
           else MaximumUnconfirmed (err_of x) (maximum_readback_of rb))))) ?Q w3"
      by (rule wp_try [OF wp_catch [OF read_bound_spec [OF assms(1) paths(2) s3]]])
        (use x3 paths(3) m in \<open>auto simp: io_simps fan_contained_def intro: ran_to_trans split: sum.splits\<close>)
  qed (auto split: outcome.splits)
  have mode_read: "wp (try_io (catch_io (read_bound P dev (enable_path fan) d0)) (\<lambda>r.
      case r of
        Inl error \<Rightarrow> return_io (Ok (ModeUnconfirmed (ModeUnreadable error)))
      | Inr m \<Rightarrow>
          if trim m = firmware_auto then return_io (Ok EmergencyFirmwareAuto)
          else if trim m = custom_control
          then
            try_io (catch_io (write_bound P dev (pwm_path fan) maximum_pwm d1)) (\<lambda>wr.
            try_io (catch_io (read_bound P dev (pwm_path fan) d2)) (\<lambda>rb.
              return_io (Ok (if err_of wr = None \<and> maximum_readback_of rb = MaximumReadbackConfirmed
                then MaximumConfirmed else MaximumUnconfirmed (err_of wr) (maximum_readback_of rb)))))
          else return_io (Ok (ModeUnconfirmed (ModeUnexpected m))))) ?Q w1"
    if w1: "ran_to sound now w w1" "content (platform w1) = c" for w1 d0 d1 d2
  proof -
    have s1: "sound (platform w1)" using w1(1) by (simp add: ran_to_def)
    show ?thesis
    proof (rule wp_try [OF wp_catch [OF read_bound_spec [OF assms(1) paths(1) s1]]], goal_cases)
      case (1 x w2)
      then have w2: "ran_to sound now w w2" "content (platform w2) = c" "\<And>m. x = Inr m \<Longrightarrow> c (enable_path fan) = Some m"
        using w1 by (auto intro: ran_to_trans split: sum.splits)
      note r = custom [OF w2(1,2) w2(3)]
      show ?case
        using w2(1) w2(3)
        by (cases x) (simp_all add: wp_return fan_contained_def [of fan] only_stored_refl w2(2)
          r [unfolded fan_contained_def])
    qed auto
  qed
  show ?thesis
    unfolding contain_fan_def c_def [symmetric]
  proof (rule wp_try [OF now_io_spec [OF assms(2)]], goal_cases)
    case (1 t w1)
    then have "ran_to sound now w w1" "content (platform w1) = c" by (simp_all add: c_def)
    then show ?case unfolding Let_def by (rule mode_read)
  qed auto
qed

lemma contain_before_spec:
  assumes "device_ok dev" "sound (platform w)"
  shows "wp (contain_custom_fans_before P dev d1 d2) (\<lambda>r w'. containment_effect sound content now dev w w' r) w"
  unfolding contain_custom_fans_before_def
proof (rule wp_try [OF contain_fan_spec [OF assms(1,2)]], simp add: device_fans_def, goal_cases)
  case (1 c w1)
  then have s1: "sound (platform w1)" by (simp add: ran_to_def)
  have keep: "fan_contained (dev_cpu dev) c2 c"
    if "only_stored {pwm_path (dev_gpu dev)} maximum_pwm (content (platform w1)) c2" for c2
  proof -
    have "c2 path = content (platform w1) path" if "path \<in> {enable_path (dev_cpu dev), pwm_path (dev_cpu dev)}" for path
      using that pwm_enable_disjoint [OF assms(1)] \<open>only_stored _ _ _ c2\<close>
      by (auto simp: only_stored_def pwm_paths_def enable_paths_def)
    then show ?thesis using 1 by (simp add: fan_contained_def cong: emergency_fan_status.case_cong)
  qed
  show ?case
  proof (rule wp_try [OF contain_fan_spec [OF assms(1) s1]], simp add: device_fans_def, goal_cases)
    case (1 g w2)
    note first = \<open>ran_to sound now w w1 \<and> _\<close>
    have "ran_to sound now w w2" using first 1 by (blast intro: ran_to_trans)
    moreover have "only_stored (pwm_paths dev) maximum_pwm (content (platform w)) (content (platform w2))"
      using first 1 by (blast intro: only_stored_both)
    moreover have "fan_contained (dev_cpu dev) (content (platform w2)) c" using keep 1 by blast
    ultimately show ?case using 1 by (simp add: wp_return containment_effect_def)
  qed auto
qed auto

lemma contain_spec:
  assumes "device_ok dev" "sound (platform w)"
  shows "wp (contain_custom_fans_at_maximum P dev) (\<lambda>r w'. containment_effect sound content now dev w w' r) w"
  unfolding contain_custom_fans_at_maximum_def
proof (rule wp_try [OF now_io_spec [OF assms(2)]], goal_cases)
  case (1 t w1)
  then have "sound (platform w1)" by (simp add: ran_to_def)
  from contain_before_spec [OF assms(1) this] show ?case
    by (rule wp_mono) (use 1 in \<open>auto simp: containment_effect_def intro: ran_to_trans\<close>)
qed auto

lemma contained_auto:
  "fan_contained (dev_cpu dev) c (ecr_cpu rep) \<Longrightarrow> fan_contained (dev_gpu dev) c (ecr_gpu rep)
     \<Longrightarrow> report_restoration_confirmed rep \<Longrightarrow> in_firmware_auto dev c"
  by (auto simp: report_restoration_confirmed_def fan_contained_def in_firmware_auto_def enable_paths_def)

end

end
