(* ===== verification/Restoration_Contract.thy ===== *)
theory Restoration_Contract
  imports Restoration
begin

text \<open>
  What restoration, containment and the recovery loop promise, beyond the effect on the files shown
  in the theory of their definitions: which writes they attempt and how many, when they end, and
  that the recovery loop returns on a healthy device and only returns in Firmware Auto.
\<close>

section \<open>Attempted writes\<close>

text \<open>The log of attempts grew by at most \<open>n\<close> entries, all of them in \<open>A\<close>.\<close>

definition logged ::
  "('p \<Rightarrow> (path \<times> string) list) \<Rightarrow> (path \<times> string) set \<Rightarrow> nat \<Rightarrow> ('p, 'l, 's) world \<Rightarrow> ('p, 'l, 's) world \<Rightarrow> bool" where
  "logged attempts A n w w' =
     (\<exists>xs. attempts (platform w') = attempts (platform w) @ xs \<and> set xs \<subseteq> A \<and> length xs \<le> n)"

lemma logged_refl [simp]: "logged attempts A n w w"
  by (simp add: logged_def)

lemma logged_trans:
  "logged attempts A m w w1 \<Longrightarrow> logged attempts A n w1 w2 \<Longrightarrow> logged attempts A (m + n) w w2"
  unfolding logged_def by (elim exE conjE) (rule exI, rule conjI, simp, auto)

lemma logged_mono: "logged attempts A m w w' \<Longrightarrow> A \<subseteq> B \<Longrightarrow> m \<le> n \<Longrightarrow> logged attempts B n w w'"
  unfolding logged_def by (meson order_trans)

lemma logged_journal [simp]: "logged attempts A n w (w'\<lparr>journal := js\<rparr>) = logged attempts A n w w'"
  by (simp add: logged_def)

lemma logged_none: "attempts (platform w') = attempts (platform w) \<Longrightarrow> logged attempts A n w w'"
  by (simp add: logged_def)

lemma wp_logged_try:
  assumes "wp m (\<lambda>_. logged attempts A k w) w" "\<And>x w1. wp (f x) (\<lambda>_. logged attempts A n w1) w1"
  shows "wp (try_io m f) (\<lambda>_. logged attempts A (k + n) w) w"
  by (rule wp_try [OF assms(1)])
    (auto intro: wp_mono [OF assms(2)] logged_trans logged_mono)

lemma wp_logged_catch:
  "wp m (\<lambda>_. logged attempts A k w) w \<Longrightarrow> wp (catch_io m) (\<lambda>_. logged attempts A k w) w"
  unfolding wp_catch_io by (erule wp_mono) (auto split: outcome.splits)

lemma wp_logged_return: "wp (return_io r) (\<lambda>_. logged attempts A n w) w"
  by (simp add: wp_return)

lemma wp_logged_emit: "wp (emit e) (\<lambda>_. logged attempts A n w) w"
  by (simp add: wp_emit)

context guarded_writes
begin

lemma logged_now: "wp (now_io P) (\<lambda>_. logged attempts A 0 w) w"
  unfolding wp_now_io by (rule wp_mono [OF attempts_now]) (simp add: logged_def)

lemma logged_read: "wp (read_bound P dev path dl) (\<lambda>_. logged attempts A 0 w) w"
proof -
  have "wp (read_bound P dev path dl) (\<lambda>_. logged attempts A (0 + 0) w) w"
    unfolding read_bound_def
    by (rule wp_logged_try [OF wp_logged_return])
      (auto simp: wp_on_platform logged_def intro: wp_mono [OF attempts_read] split: prod.splits)
  then show ?thesis by simp
qed

lemma logged_write:
  assumes "device_ok dev" "path \<in> set (device_paths dev)"
  shows "wp (write_bound P dev path v dl) (\<lambda>_. logged attempts {(path, v)} 1 w) w"
proof -
  obtain name i where b: "bound_endpoint dev path = (Ok (name, i) :: (platform_error, string \<times> file_identity) outcome)"
    "direct_bound_child (dev_root dev) name = Ok path"
    using bound_endpoint_known [OF assms] by metis
  show ?thesis
    unfolding write_bound_def b(1) try_io_known prod.case wp_on_platform
    by (rule wp_mono [OF attempts_write]) (simp add: write_attempt_def b(2) logged_def)
qed

lemma logged_restoration_attempt:
  assumes "device_ok dev"
  shows "wp (restoration_attempt P dev dl) (\<lambda>_. logged attempts (enable_paths dev \<times> {firmware_auto}) 2 w) w"
proof -
  let ?A = "enable_paths dev \<times> {firmware_auto}"
  have wr: "wp (catch_io (write_bound P dev path firmware_auto dl)) (\<lambda>_. logged attempts ?A 1 w1) w1"
    if "path \<in> enable_paths dev" for path and w1 :: "('p, 'l, 'x) world"
  proof (rule wp_logged_catch, rule wp_mono [OF logged_write [OF assms]])
    show "path \<in> set (device_paths dev)" using that by (auto simp: enable_paths_def)
  qed (use that in \<open>auto elim: logged_mono\<close>)
  have st: "wp (status P dev path e dl) (\<lambda>_. logged attempts ?A (0 + 0) w1) w1" for path e and w1 :: "('p, 'l, 'x) world"
    unfolding status_def by (rule wp_logged_try [OF wp_logged_catch [OF logged_read] wp_logged_return])
  have "wp (restoration_attempt P dev dl) (\<lambda>_. logged attempts ?A (1 + (1 + ((0 + 0) + ((0 + 0) + 0)))) w) w"
    unfolding restoration_attempt_def
    by (intro wp_logged_try wr st wp_logged_return) (simp_all add: enable_paths_def)
  then show ?thesis by (simp add: numeral_2_eq_2)
qed

lemma logged_restore_loop:
  assumes "device_ok dev"
  shows "wp (restore_loop P dev dl as t n ls)
    (\<lambda>_. logged attempts (enable_paths dev \<times> {firmware_auto}) (2 * length as) w) w"
proof (induction as arbitrary: w t n ls)
  case Nil
  show ?case
    by (cases ls) (auto simp: restoration_unconfirmed_def io_simps)
next
  case (Cons a as)
  let ?A = "enable_paths dev \<times> {firmware_auto}"
  have un: "wp (restoration_unconfirmed n ls) (\<lambda>_. logged attempts ?A k w) w" for k
    by (cases ls) (auto simp: restoration_unconfirmed_def io_simps)
  have de: "wp (restoration_deadline_exceeded a c g) (\<lambda>_. logged attempts ?A k w1) w1" for c g k and w1 :: "('p, 'l, 'x) world"
    by (simp add: restoration_deadline_exceeded_def io_simps)
  have att: "wp (try_io (restoration_attempt P dev dl) (\<lambda>(c, g).
        try_io (emit_attempt a c g) (\<lambda>_.
        try_io (now_io P) (\<lambda>now1.
          if dl < now1 then restoration_deadline_exceeded a c g
          else if status_is_confirmed c \<and> status_is_confirmed g then return_io (Ok ())
          else if now1 = dl \<and> a < max_attempts then restoration_deadline_exceeded a c g
          else restore_loop P dev dl as now1 a (Some (c, g)))))) (\<lambda>_. logged attempts ?A (2 + (0 + (0 + 2 * length as))) w) w"
    unfolding emit_attempt_def emit_restoration_attempt_def case_prod_unfold
    by (intro wp_logged_try logged_restoration_attempt [OF assms] wp_logged_emit logged_now)
      (auto simp: wp_if intro: de wp_logged_return Cons.IH)
  show ?case using un att by simp
qed

lemma logged_restore:
  assumes "device_ok dev"
  shows "wp (restore_firmware_auto P dev) (\<lambda>_. logged attempts (enable_paths dev \<times> {firmware_auto}) 6 w) w"
proof -
  have "wp (restore_firmware_auto P dev) (\<lambda>_. logged attempts (enable_paths dev \<times> {firmware_auto}) (0 + 2 * length [1, 2, 3 :: u8]) w) w"
    unfolding restore_firmware_auto_def restore_firmware_auto_before_def
    by (intro wp_logged_try logged_now logged_restore_loop [OF assms])
  then show ?thesis by simp
qed

lemma logged_contain_fan:
  assumes "device_ok dev" "fan \<in> device_fans dev"
  shows "wp (contain_fan P dev fan dl) (\<lambda>_. logged attempts {(pwm_path fan, maximum_pwm)} 1 w) w"
proof -
  let ?A = "{(pwm_path fan, maximum_pwm)}"
  have p: "pwm_path fan \<in> set (device_paths dev)" using assms(2) by (auto simp: device_fans_def)
  have custom: "wp (try_io (catch_io (write_bound P dev (pwm_path fan) maximum_pwm d1)) (\<lambda>wr.
      try_io (catch_io (read_bound P dev (pwm_path fan) d2)) (\<lambda>rb. return_io (h wr rb))))
      (\<lambda>_. logged attempts ?A (1 + (0 + 0)) w1) w1" for d1 d2 and h :: "_ \<Rightarrow> _ \<Rightarrow> ('e, 'x) outcome" and w1 :: "('p, 'l, 'y) world"
    by (intro wp_logged_try wp_logged_catch logged_write [OF assms(1) p] logged_read wp_logged_return)
  have "wp (contain_fan P dev fan dl) (\<lambda>_. logged attempts ?A (0 + (0 + 1)) w) w"
    unfolding contain_fan_def Let_def
    by (intro wp_logged_try logged_now wp_logged_catch logged_read)
      (auto simp: wp_logged_return intro: custom [simplified] split: sum.splits)
  then show ?thesis by simp
qed

lemma logged_contain:
  assumes "device_ok dev"
  shows "wp (contain_custom_fans_at_maximum P dev) (\<lambda>_. logged attempts (pwm_paths dev \<times> {maximum_pwm}) 2 w) w"
proof -
  have f: "wp (contain_fan P dev fan dl) (\<lambda>_. logged attempts (pwm_paths dev \<times> {maximum_pwm}) 1 w1) w1"
    if "fan \<in> device_fans dev" for fan dl and w1 :: "('p, 'l, 'x) world"
    by (rule wp_mono [OF logged_contain_fan [OF assms that]])
      (use that in \<open>auto simp: device_fans_def pwm_paths_def elim: logged_mono\<close>)
  have "wp (contain_custom_fans_at_maximum P dev) (\<lambda>_. logged attempts (pwm_paths dev \<times> {maximum_pwm}) (0 + (1 + (1 + 0))) w) w"
    unfolding contain_custom_fans_at_maximum_def contain_custom_fans_before_def
    by (intro wp_logged_try logged_now f wp_logged_return) (simp_all add: device_fans_def)
  then show ?thesis by (simp add: numeral_2_eq_2)
qed

end

section \<open>When they end\<close>

definition timed :: "('p \<Rightarrow> bool) \<Rightarrow> ('p \<Rightarrow> duration) \<Rightarrow> duration \<Rightarrow> ('p, 'l, 's) world \<Rightarrow> ('p, 'l, 's) world \<Rightarrow> bool" where
  "timed sound now D w w' = (sound (platform w') \<and> now (platform w') \<le> max (now (platform w)) D)"

lemma wp_timed_try:
  assumes "wp m (\<lambda>_. timed sound now D w) w"
    "\<And>x w1. sound (platform w1) \<Longrightarrow> wp (f x) (\<lambda>_. timed sound now D w1) w1"
  shows "wp (try_io m f) (\<lambda>_. timed sound now D w) w"
proof (rule wp_try [OF assms(1)])
  fix x w1
  assume t: "timed sound now D w w1"
  then show "wp (f x) (\<lambda>_. timed sound now D w) w1"
    by (intro wp_mono [OF assms(2)]) (auto simp: timed_def)
qed auto

lemma wp_timed_catch:
  "wp m (\<lambda>_. timed sound now D w) w \<Longrightarrow> wp (catch_io m) (\<lambda>_. timed sound now D w) w"
  unfolding wp_catch_io by (erule wp_mono) (auto split: outcome.splits)

lemma wp_timed_return: "sound (platform w) \<Longrightarrow> wp (return_io r) (\<lambda>_. timed sound now D w) w"
  by (simp add: wp_return timed_def)

lemma wp_timed_emit: "sound (platform w) \<Longrightarrow> wp (emit e) (\<lambda>_. timed sound now D w) w"
  by (simp add: wp_emit timed_def)

lemma wp_timed_mono:
  "wp m (\<lambda>_. timed sound now d w) w \<Longrightarrow> d \<le> max (now (platform w)) D \<Longrightarrow> wp m (\<lambda>_. timed sound now D w) w"
  by (erule wp_mono) (auto simp: timed_def)

context timely_platform
begin

lemma timed_now: "sound (platform w) \<Longrightarrow> wp (now_io P) (\<lambda>_. timed sound now D w) w"
  unfolding wp_now_io by (rule wp_mono [OF wp_conj [OF now_spec now_exact]]) (auto simp: timed_def steady_def)

lemma timed_read:
  assumes "sound (platform w)"
  shows "wp (read_bound P dev path dl) (\<lambda>_. timed sound now dl w) w"
  unfolding read_bound_def
proof (rule wp_timed_try, rule wp_timed_return, rule assms)
  fix x :: "string \<times> file_identity" and w1 :: "('p, 'l, 'x) world"
  assume "sound (platform w1)"
  then show "wp (case x of (child, identity) \<Rightarrow> on_platform (read_bound_before P (dev_root dev) (backing_identity dev) child identity dl))
    (\<lambda>_. timed sound now dl w1) w1"
    by (cases x) (auto simp: wp_on_platform timed_def steady_def intro: wp_mono [OF wp_conj [OF read_spec read_timely]])
qed

lemma timed_write:
  assumes "sound (platform w)"
  shows "wp (write_bound P dev path v dl) (\<lambda>_. timed sound now dl w) w"
  unfolding write_bound_def
proof (rule wp_timed_try, rule wp_timed_return, rule assms)
  fix x :: "string \<times> file_identity" and w1 :: "('p, 'l, 'x) world"
  assume "sound (platform w1)"
  then show "wp (case x of (child, identity) \<Rightarrow> on_platform (write_bound_if_before P (dev_root dev) (backing_identity dev)
      [(child, identity)] [] child v dl)) (\<lambda>_. timed sound now dl w1) w1"
    by (cases x) (auto simp: wp_on_platform timed_def intro: wp_mono [OF wp_conj [OF write_spec write_timely]])
qed

lemma timed_restoration_attempt:
  "sound (platform w) \<Longrightarrow> wp (restoration_attempt P dev dl) (\<lambda>_. timed sound now dl w) w"
  unfolding restoration_attempt_def status_def
  by (intro wp_timed_try wp_timed_catch timed_read timed_write wp_timed_return)

lemma timed_restore_loop:
  "sound (platform w) \<Longrightarrow> wp (restore_loop P dev dl as t n ls) (\<lambda>_. timed sound now dl w) w"
proof (induction as arbitrary: w t n ls)
  case Nil
  then show ?case by (cases ls) (auto simp: restoration_unconfirmed_def io_simps timed_def)
next
  case (Cons a as)
  have un: "wp (restoration_unconfirmed n ls) (\<lambda>_. timed sound now dl w) w"
    using Cons.prems by (cases ls) (auto simp: restoration_unconfirmed_def io_simps timed_def)
  have de: "wp (restoration_deadline_exceeded a c g) (\<lambda>_. timed sound now dl w1) w1"
    if "sound (platform w1)" for c g and w1 :: "('p, 'l, 'x) world"
    using that by (simp add: restoration_deadline_exceeded_def io_simps timed_def)
  have att: "wp (try_io (restoration_attempt P dev dl) (\<lambda>(c, g).
        try_io (emit_attempt a c g) (\<lambda>_.
        try_io (now_io P) (\<lambda>now1.
          if dl < now1 then restoration_deadline_exceeded a c g
          else if status_is_confirmed c \<and> status_is_confirmed g then return_io (Ok ())
          else if now1 = dl \<and> a < max_attempts then restoration_deadline_exceeded a c g
          else restore_loop P dev dl as now1 a (Some (c, g)))))) (\<lambda>_. timed sound now dl w) w"
    unfolding emit_attempt_def emit_restoration_attempt_def case_prod_unfold
    by (intro wp_timed_try timed_restoration_attempt Cons.prems wp_timed_emit timed_now)
      (auto simp: wp_if intro: de wp_timed_return Cons.IH)
  show ?case using un att by simp
qed

lemma timed_restore:
  assumes "sound (platform w)"
  shows "wp (restore_firmware_auto P dev) (\<lambda>_. timed sound now (now (platform w) + restoration_window) w) w"
  unfolding restore_firmware_auto_def wp_try_io wp_now_io
proof (rule wp_mono [OF wp_conj [OF now_spec [OF assms] now_exact [OF assms]]])
  fix t p
  assume t: "(steady sound content now (platform w) p \<and> now (platform w) \<le> t \<and> t \<le> now p)
    \<and> t = now (platform w) \<and> now p = now (platform w)"
  have "wp (restore_firmware_auto_before P dev t (duration_saturating_add t restoration_window))
    (\<lambda>_. timed sound now (duration_saturating_add t restoration_window) (w\<lparr>platform := p\<rparr>)) (w\<lparr>platform := p\<rparr>)"
    unfolding restore_firmware_auto_before_def by (rule timed_restore_loop) (use t in \<open>simp add: steady_def\<close>)
  then show "case (Ok t :: (firmware_auto_restoration_error, duration) outcome) of Ok x \<Rightarrow> wp (restore_firmware_auto_before P dev x (duration_saturating_add x restoration_window))
      (\<lambda>_. timed sound now (now (platform w) + restoration_window) w) (w\<lparr>platform := p\<rparr>)
    | Err e \<Rightarrow> timed sound now (now (platform w) + restoration_window) w (w\<lparr>platform := p\<rparr>)
    | Panic \<Rightarrow> timed sound now (now (platform w) + restoration_window) w (w\<lparr>platform := p\<rparr>)"
    using t duration_saturating_add_le [of t restoration_window]
    by (auto simp: timed_def elim!: wp_mono)
qed

lemma timed_contain_fan:
  assumes "sound (platform w)"
  shows "wp (contain_fan P dev fan dl) (\<lambda>_. timed sound now dl w) w"
  unfolding contain_fan_def wp_try_io wp_now_io
proof (rule wp_mono [OF wp_conj [OF now_spec [OF assms] now_exact [OF assms]]])
  fix t p
  assume t: "(steady sound content now (platform w) p \<and> now (platform w) \<le> t \<and> t \<le> now p)
    \<and> t = now (platform w) \<and> now p = now (platform w)"
  let ?win = "duration_saturating_sub dl t div 3"
  let ?d1 = "duration_saturating_add t ?win" and ?d2 = "duration_saturating_add (duration_saturating_add t ?win) ?win"
  let ?w = "w\<lparr>platform := p\<rparr>"
  define D where "D = max t dl"
  have "?d2 \<le> t + (?win + ?win)" "t + (?win + ?win) \<le> D"
    by (simp_all add: duration_saturating_add_def) (simp add: D_def duration_saturating_sub_def)
  moreover have "?d1 \<le> t + ?win" by (rule duration_saturating_add_le)
  ultimately have le: "?d1 \<le> D" "?d2 \<le> D" "dl \<le> D" by (auto simp: D_def)
  have rd: "wp (read_bound P dev path d) (\<lambda>_. timed sound now D w1) w1"
    "wp (write_bound P dev path v d) (\<lambda>_. timed sound now D w1) w1"
    if "sound (platform w1)" "d \<le> D" for path d v and w1 :: "('p, 'l, 'x) world"
    using that by (auto intro: wp_timed_mono [OF timed_read] wp_timed_mono [OF timed_write])
  have sp: "sound p" using t by (simp add: steady_def)
  have body: "wp (try_io (catch_io (read_bound P dev (enable_path fan) ?d1)) (\<lambda>r.
      case r of
        Inl error \<Rightarrow> return_io (Ok (ModeUnconfirmed (ModeUnreadable error)))
      | Inr m \<Rightarrow>
          if trim m = firmware_auto then return_io (Ok EmergencyFirmwareAuto)
          else if trim m = custom_control
          then
            try_io (catch_io (write_bound P dev (pwm_path fan) maximum_pwm ?d2)) (\<lambda>wr.
            try_io (catch_io (read_bound P dev (pwm_path fan) dl)) (\<lambda>rb. return_io (Ok (h wr rb))))
          else return_io (Ok (ModeUnconfirmed (ModeUnexpected m))))) (\<lambda>_. timed sound now D ?w) ?w" for h
    by (intro wp_timed_try wp_timed_catch rd le)
      (use sp in \<open>auto simp: wp_if intro!: wp_timed_try wp_timed_catch rd le wp_timed_return split: sum.splits\<close>)
  show "case Ok t of Ok x \<Rightarrow> wp
       (let operation_window = duration_saturating_sub dl x div 3;
           mode_deadline = duration_saturating_add x operation_window;
           write_deadline = duration_saturating_add mode_deadline operation_window
       in try_io (catch_io (read_bound P dev (enable_path fan) mode_deadline)) (\<lambda>r.
            case r of
              Inl error \<Rightarrow> return_io (Ok (ModeUnconfirmed (ModeUnreadable error)))
            | Inr m \<Rightarrow>
                if trim m = firmware_auto then return_io (Ok EmergencyFirmwareAuto)
                else if trim m = custom_control
                then
                  try_io (catch_io (write_bound P dev (pwm_path fan) maximum_pwm write_deadline)) (\<lambda>wr.
                  try_io (catch_io (read_bound P dev (pwm_path fan) dl)) (\<lambda>rb.
                    return_io (Ok
                      (if err_of wr = None \<and> maximum_readback_of rb = MaximumReadbackConfirmed
                       then MaximumConfirmed
                       else MaximumUnconfirmed (err_of wr) (maximum_readback_of rb)))))
                else return_io (Ok (ModeUnconfirmed (ModeUnexpected m))))) (\<lambda>_. timed sound now dl w) ?w
    | Err e \<Rightarrow> timed sound now dl w ?w | Panic \<Rightarrow> timed sound now dl w ?w"
    unfolding outcome.case Let_def
    by (rule wp_mono [OF body]) (use t in \<open>auto simp: timed_def D_def\<close>)
qed

lemma timed_contain:
  assumes "sound (platform w)"
  shows "wp (contain_custom_fans_at_maximum P dev) (\<lambda>_. timed sound now (now (platform w) + restoration_window) w) w"
  unfolding contain_custom_fans_at_maximum_def contain_custom_fans_before_def wp_try_io [of "now_io P"] wp_now_io
proof (rule wp_mono [OF wp_conj [OF now_spec [OF assms] now_exact [OF assms]]], goal_cases)
  case (1 t p)
  have "duration_saturating_add t (from_secs 1) \<le> now (platform w) + restoration_window"
    "duration_saturating_add t restoration_window \<le> now (platform w) + restoration_window"
    using 1 duration_saturating_add_le [of t "from_secs 1"] duration_saturating_add_le [of t restoration_window]
    by (simp_all add: restoration_window_def from_secs_def)
  then have "wp (try_io (contain_fan P dev (dev_cpu dev) (duration_saturating_add t (from_secs 1))) (\<lambda>c.
      try_io (contain_fan P dev (dev_gpu dev) (duration_saturating_add t restoration_window)) (\<lambda>g.
       return_io (Ok \<lparr>ecr_cpu = c, ecr_gpu = g\<rparr>))))
      (\<lambda>_. timed sound now (now (platform w) + restoration_window) (w\<lparr>platform := p\<rparr>)) (w\<lparr>platform := p\<rparr>)"
    using 1 by (intro wp_timed_try wp_timed_mono [OF timed_contain_fan] wp_timed_return) (auto simp: steady_def)
  then show ?case using 1 by (auto simp: timed_def elim!: wp_mono)
qed

end

section \<open>The recovery loop\<close>

text \<open>The only changes to the files: Firmware Auto at an enable file, the maximum at a PWM file.\<close>

definition safing_writes :: "acer_hwmon_device \<Rightarrow> (path \<Rightarrow> string option) \<Rightarrow> (path \<Rightarrow> string option) \<Rightarrow> bool" where
  "safing_writes dev c c' =
     (\<forall>path. c' path = c path \<or> path \<in> enable_paths dev \<and> c' path = Some firmware_auto
        \<or> path \<in> pwm_paths dev \<and> c' path = Some maximum_pwm)"

lemma safing_writes_refl: "safing_writes dev c c"
  by (simp add: safing_writes_def)

lemma safing_writes_trans: "safing_writes dev c c1 \<Longrightarrow> safing_writes dev c1 c2 \<Longrightarrow> safing_writes dev c c2"
  unfolding safing_writes_def by metis

lemma only_stored_safing:
  "only_stored (enable_paths dev) firmware_auto c c' \<Longrightarrow> safing_writes dev c c'"
  "only_stored (pwm_paths dev) maximum_pwm c c' \<Longrightarrow> safing_writes dev c c'"
  unfolding only_stored_def safing_writes_def by blast+

lemma recover_invariant:
  assumes run: "recover_firmware_auto P dev w = Some (r, w')" and start: "I w"
    and cycle: "\<And>w. I w \<Longrightarrow> wp (recovery_cycle P dev) (\<lambda>r w'. case r of
        Ok b \<Rightarrow> if b then Q (Ok ()) w' else I w' | Err e \<Rightarrow> Q (Err e) w' | Panic \<Rightarrow> Q Panic w') w"
  shows "Q r w'"
proof -
  define Pr where "Pr x y \<longleftrightarrow> (fst (fst x) = P \<longrightarrow> snd (fst x) = dev \<longrightarrow> I (snd x) \<longrightarrow> Q (fst y) (snd y))" for x y
  have "Pr ((P, dev), w) (r, w')"
  proof (rule recover_firmware_auto.raw_induct [OF _ run])
    fix rec P' dev' w0 y
    assume IH: "\<And>P' dev' w0 y. rec P' dev' w0 = Some y \<Longrightarrow> Pr ((P', dev'), w0) y"
      and y: "(case recovery_cycle P' dev' w0 of
        (Ok done, w') \<Rightarrow> if done then Some (Ok (), w') else rec P' dev' w'
      | (Err e, w') \<Rightarrow> Some (Err e, w') | (Panic, w') \<Rightarrow> Some (Panic, w')) = Some y"
    show "Pr ((P', dev'), w0) y"
      unfolding Pr_def
    proof (intro impI, simp only: fst_conv snd_conv)
      assume eq: "P' = P" "dev' = dev" "I w0"
      show "Q (fst y) (snd y)"
        using y cycle [OF eq(3)] IH [of P dev _ y]
        unfolding eq(1,2) wp_def Pr_def by (auto split: prod.splits outcome.splits if_splits)
    qed
  qed
  then show ?thesis using start by (simp add: Pr_def)
qed

context fan_platform
begin

lemma delay_io_spec:
  "sound (platform w) \<Longrightarrow> wp (delay_io P d) (\<lambda>r w'. r = Ok () \<and> ran_to sound now w w'
     \<and> content (platform w') = content (platform w)) w"
  using delay_spec [of "platform w" d] by (simp add: wp_delay_io ran_to_def steady_def)

lemma recovery_cycle_spec:
  assumes "device_ok dev" "sound (platform w)"
  shows "wp (recovery_cycle P dev)
    (\<lambda>r w'. ran_to sound now w w' \<and> safing_writes dev (content (platform w)) (content (platform w'))
       \<and> (\<exists>b. r = Ok b \<and> (b \<longrightarrow> in_firmware_auto dev (content (platform w'))))) w"
    (is "wp _ ?Q w")
  unfolding recovery_cycle_def Let_def
proof (rule wp_try [OF now_io_spec [OF assms(2)]], goal_cases)
  case (1 t w1)
  then have s1: "sound (platform w1)" by (simp add: ran_to_def)
  show ?case
  proof (rule wp_try [OF wp_catch [OF restore_before_spec [OF assms(1) s1]]], goal_cases)
    case (1 r w2)
    note w1 = \<open>ran_to sound now w w1 \<and> _\<close>
    from 1 w1 have w2: "ran_to sound now w w2" "safing_writes dev (content (platform w)) (content (platform w2))"
      "err_of r = None \<longrightarrow> in_firmware_auto dev (content (platform w2))"
      by (auto simp: err_of_def intro: ran_to_trans only_stored_safing split: sum.splits)
    then have s2: "sound (platform w2)" by (simp add: ran_to_def)
    have contain: "wp (try_io (contain_custom_fans_before P dev d1 d2) (\<lambda>report.
        if report_restoration_confirmed report then return_io (Ok True)
        else try_io (now_io P) (\<lambda>now1.
               if now1 < d2 then try_io (delay_io P (d2 - now1)) (\<lambda>_. return_io (Ok False))
               else return_io (Ok False)))) ?Q w2" for d1 d2
    proof (rule wp_try [OF contain_before_spec [OF assms(1) s2]], goal_cases)
      case (1 rep w3)
      then have w3: "ran_to sound now w w3" "safing_writes dev (content (platform w)) (content (platform w3))"
        "report_restoration_confirmed rep \<longrightarrow> in_firmware_auto dev (content (platform w3))" "sound (platform w3)"
        using w2(1,2) ran_to_sound [of sound now w w3]
        by (auto simp: containment_effect_def
            intro: ran_to_trans contained_auto safing_writes_trans only_stored_safing)
      have "wp (try_io (now_io P) (\<lambda>now1.
               if now1 < d2 then try_io (delay_io P (d2 - now1)) (\<lambda>_. return_io (Ok False))
               else return_io (Ok False))) ?Q w3"
      proof (rule wp_try [OF now_io_spec [OF w3(4)]], goal_cases)
        case (1 t1 w4)
        then have w4: "ran_to sound now w w4" "sound (platform w4)" "content (platform w4) = content (platform w3)"
          using w3(1) by (auto intro: ran_to_trans ran_to_sound)
        have "wp (try_io (delay_io P (d2 - t1)) (\<lambda>_. return_io (Ok False))) ?Q w4"
          by (rule wp_try [OF delay_io_spec [OF w4(2)]])
            (use w4 w3(2) in \<open>auto simp: wp_return intro: ran_to_trans\<close>)
        then show ?case using w4 w3(2) by (auto simp: wp_return)
      qed auto
      then show ?case using w3 by (auto simp: wp_return)
    qed (auto simp: containment_effect_def)
    show ?case using contain w2 by (auto simp: wp_return)
  qed (auto split: outcome.splits)
qed auto

lemma recover_spec:
  assumes "recover_firmware_auto P dev w = Some (r, w')" "device_ok dev" "sound (platform w)"
  shows "r = Ok () \<and> ran_to sound now w w' \<and> safing_writes dev (content (platform w)) (content (platform w'))
     \<and> in_firmware_auto dev (content (platform w'))"
proof (rule recover_invariant [OF assms(1), where I = "\<lambda>w1. ran_to sound now w w1
      \<and> safing_writes dev (content (platform w)) (content (platform w1))"])
  show "ran_to sound now w w \<and> safing_writes dev (content (platform w)) (content (platform w))"
    using assms(3) by (simp add: ran_to_refl safing_writes_refl)
next
  fix w1
  assume w1: "ran_to sound now w w1 \<and> safing_writes dev (content (platform w)) (content (platform w1))"
  then have "sound (platform w1)" by (blast intro: ran_to_sound)
  from recovery_cycle_spec [OF assms(2) this]
  show "wp (recovery_cycle P dev) (\<lambda>r w'. case r of
      Ok b \<Rightarrow> if b then Ok () = Ok () \<and> ran_to sound now w w'
          \<and> safing_writes dev (content (platform w)) (content (platform w'))
          \<and> in_firmware_auto dev (content (platform w'))
        else ran_to sound now w w' \<and> safing_writes dev (content (platform w)) (content (platform w'))
    | Err e \<Rightarrow> Err e = Ok () \<and> ran_to sound now w w'
          \<and> safing_writes dev (content (platform w)) (content (platform w'))
          \<and> in_firmware_auto dev (content (platform w'))
    | Panic \<Rightarrow> Panic = Ok () \<and> ran_to sound now w w'
          \<and> safing_writes dev (content (platform w)) (content (platform w'))
          \<and> in_firmware_auto dev (content (platform w'))) w1"
    by (rule wp_mono) (use w1 in \<open>auto intro: ran_to_trans safing_writes_trans\<close>)
qed

end

section \<open>The recovery loop returns after finitely many transient faults\<close>

text \<open>
  A platform whose faults are transient: it has a number of pending faults that no operation
  raises, a bounded write started before its deadline uses one of them up, and with none pending
  the bound reads and writes of an intact device succeed without delay.
\<close>

locale transient_platform = timely_platform P sound content now
  for P :: "('p, 'l) platform_ops"
    and sound :: "'p \<Rightarrow> bool"
    and content :: "'p \<Rightarrow> path \<Rightarrow> string option"
    and now :: "'p \<Rightarrow> duration" +
  fixes pending :: "'p \<Rightarrow> nat"
    and intact :: "acer_hwmon_device \<Rightarrow> 'p \<Rightarrow> bool"
  assumes transient_now: "intact dev p \<Longrightarrow> wp (monotonic_now P) (\<lambda>_ p'. intact dev p' \<and> pending p' = pending p) p"
    and transient_delay:
      "intact dev p \<Longrightarrow> intact dev (delay P d p) \<and> pending (delay P d p) = pending p \<and> now (delay P d p) \<le> now p + d"
    and transient_read:
      "sound p \<Longrightarrow> intact dev p \<Longrightarrow> endpoint_identity dev (dev_root dev @ [child]) = Some i
         \<Longrightarrow> direct_bound_child (dev_root dev) child = Ok (dev_root dev @ [child])
         \<Longrightarrow> dev_root dev @ [child] \<in> enable_paths dev \<union> pwm_paths dev
         \<Longrightarrow> wp (read_bound_before P (dev_root dev) (backing_identity dev) child i dl)
               (\<lambda>r p'. intact dev p' \<and> pending p' \<le> pending p
                  \<and> (pending p = 0 \<and> now p < dl \<longrightarrow> is_ok r \<and> now p' = now p)) p"
    and transient_write:
      "sound p \<Longrightarrow> intact dev p \<Longrightarrow> endpoint_identity dev (dev_root dev @ [child]) = Some i
         \<Longrightarrow> direct_bound_child (dev_root dev) child = Ok (dev_root dev @ [child])
         \<Longrightarrow> dev_root dev @ [child] \<in> enable_paths dev \<union> pwm_paths dev
         \<Longrightarrow> wp (write_bound_if_before P (dev_root dev) (backing_identity dev) [(child, i)] [] child contents dl)
               (\<lambda>r p'. intact dev p' \<and> pending p' \<le> pending p
                  \<and> (now p < dl \<and> 0 < pending p \<longrightarrow> pending p' < pending p)
                  \<and> (pending p = 0 \<and> now p < dl \<longrightarrow> r = Ok () \<and> now p' = now p)) p"

definition calm ::
  "('p \<Rightarrow> bool) \<Rightarrow> ('p \<Rightarrow> nat) \<Rightarrow> ('p \<Rightarrow> bool) \<Rightarrow> ('p, 'l, 's) world \<Rightarrow> ('p, 'l, 's) world \<Rightarrow> bool" where
  "calm sound pending intact w w' =
     (sound (platform w) \<and> intact (platform w)
        \<longrightarrow> sound (platform w') \<and> intact (platform w') \<and> pending (platform w') \<le> pending (platform w))"

lemma calm_transp: "transp (calm sound pending intact)"
  by (auto intro!: transpI simp: calm_def)

lemma calm_refl [simp]: "calm sound pending intact w w" "calm sound pending intact w (w\<lparr>journal := js\<rparr>)"
  by (simp_all add: calm_def)

lemma calm_trivial:
  "\<not> (sound (platform w) \<and> intact (platform w)) \<Longrightarrow> wp m (\<lambda>_. calm sound pending intact w) w"
  by (auto simp: wp_def calm_def split: prod.splits)

lemmas wp_calm_try = wp_try_rel [OF calm_transp]

context transient_platform
begin

lemma calm_now: "wp (now_io P) (\<lambda>_. calm sound pending (intact dev) w) w"
  unfolding wp_now_io
  by (cases "sound (platform w) \<and> intact dev (platform w)")
    (auto simp: calm_def steady_def wp_def dest: now_spec transient_now split: prod.splits)

lemma bound_access:
  assumes "device_ok dev" "path \<in> enable_paths dev \<union> pwm_paths dev" "sound (platform w)" "intact dev (platform w)"
  shows "wp (read_bound P dev path dl) (\<lambda>r w'. calm sound pending (intact dev) w w'
      \<and> (pending (platform w) = 0 \<and> now (platform w) < dl \<longrightarrow> is_ok r \<and> now (platform w') = now (platform w))) w"
    and "wp (write_bound P dev path v dl) (\<lambda>r w'. calm sound pending (intact dev) w w'
      \<and> (now (platform w) < dl \<and> 0 < pending (platform w) \<longrightarrow> pending (platform w') < pending (platform w))
      \<and> (pending (platform w) = 0 \<and> now (platform w) < dl \<longrightarrow> r = Ok () \<and> now (platform w') = now (platform w))) w"
proof -
  have pin: "path \<in> set (device_paths dev)" using assms(2) by (auto simp: enable_paths_def pwm_paths_def)
  obtain name where n: "path = dev_root dev @ [name]" "file_name path = Some name"
    "direct_bound_child (dev_root dev) name = Ok path" using device_path_names [OF assms(1) pin] by metis
  obtain i where i: "endpoint_identity dev path = Some i" using endpoint_identity_bound [OF assms(1) pin] by blast
  have b: "bound_endpoint dev path = (Ok (name, i) :: (platform_error, string \<times> file_identity) outcome)"
    by (simp add: bound_endpoint_def n(2) i)
  note c = assms(3,4) i [unfolded n(1)] n(3) [unfolded n(1)] assms(2) [unfolded n(1)]
  show "wp (read_bound P dev path dl) (\<lambda>r w'. calm sound pending (intact dev) w w'
      \<and> (pending (platform w) = 0 \<and> now (platform w) < dl \<longrightarrow> is_ok r \<and> now (platform w') = now (platform w))) w"
    unfolding read_bound_def b try_io_known prod.case wp_on_platform
    by (rule wp_mono [OF wp_conj [OF read_spec [OF assms(3)] transient_read [OF c]]]) (auto simp: calm_def steady_def)
  show "wp (write_bound P dev path v dl) (\<lambda>r w'. calm sound pending (intact dev) w w'
      \<and> (now (platform w) < dl \<and> 0 < pending (platform w) \<longrightarrow> pending (platform w') < pending (platform w))
      \<and> (pending (platform w) = 0 \<and> now (platform w) < dl \<longrightarrow> r = Ok () \<and> now (platform w') = now (platform w))) w"
    unfolding write_bound_def b try_io_known prod.case wp_on_platform
    by (rule wp_mono [OF wp_conj [OF write_spec [OF assms(3)] transient_write [OF c]]]) (auto simp: calm_def)
qed

lemma calm_access:
  assumes "device_ok dev" "path \<in> enable_paths dev \<union> pwm_paths dev"
  shows "wp (read_bound P dev path dl) (\<lambda>_. calm sound pending (intact dev) w) w"
    "wp (write_bound P dev path v dl) (\<lambda>_. calm sound pending (intact dev) w) w"
  by (cases "sound (platform w) \<and> intact dev (platform w)";
      auto elim: wp_mono [OF bound_access(1) [OF assms]] wp_mono [OF bound_access(2) [OF assms]] intro: calm_trivial)+

lemma calm_restoration_attempt:
  assumes "device_ok dev"
  shows "wp (restoration_attempt P dev dl) (\<lambda>_. calm sound pending (intact dev) w) w"
  unfolding restoration_attempt_def status_def
  by (intro wp_calm_try wp_catch_rel calm_access [OF assms]) (auto simp: enable_paths_def wp_return)

lemma calm_after_attempt_of:
  fixes w :: "('p, 'l, 'x) world"
  assumes "\<And>t (w :: ('p, 'l, 'x) world). wp (restore_loop P dev dl as t a (Some (c, g))) (\<lambda>_. calm sound pending (intact dev) w) w"
  shows "wp (try_io (emit_attempt a c g) (\<lambda>_.
        try_io (now_io P) (\<lambda>now1.
          if dl < now1 then restoration_deadline_exceeded a c g
          else if status_is_confirmed c \<and> status_is_confirmed g then return_io (Ok ())
          else if now1 = dl \<and> a < max_attempts then restoration_deadline_exceeded a c g
          else restore_loop P dev dl as now1 a (Some (c, g))))) (\<lambda>_. calm sound pending (intact dev) w) w"
  unfolding emit_attempt_def emit_restoration_attempt_def
  by (intro wp_calm_try calm_now)
    (auto simp: wp_if wp_emit wp_return restoration_deadline_exceeded_def emit_fault_def wp_try_io [of "emit _"] assms)

lemma calm_restore_loop:
  assumes "device_ok dev"
  shows "wp (restore_loop P dev dl as t n ls) (\<lambda>_. calm sound pending (intact dev) w) w"
proof (induction as arbitrary: w t n ls)
  case Nil
  then show ?case by (cases ls) (auto simp: restoration_unconfirmed_def io_simps)
next
  case (Cons a as)
  have un: "wp (restoration_unconfirmed n ls) (\<lambda>_. calm sound pending (intact dev) w) w"
    by (cases ls) (auto simp: restoration_unconfirmed_def io_simps)
  show ?case
    using un by (auto simp: case_prod_unfold
      intro!: wp_calm_try calm_restoration_attempt [OF assms] calm_after_attempt_of [OF Cons.IH])
qed

lemmas calm_after_attempt = calm_after_attempt_of [OF calm_restore_loop]

lemma calm_contain:
  assumes "device_ok dev"
  shows "wp (contain_custom_fans_before P dev d1 d2) (\<lambda>_. calm sound pending (intact dev) w) w"
proof -
  have fan: "wp (contain_fan P dev fan d) (\<lambda>_. calm sound pending (intact dev) w1) w1"
    if "fan \<in> device_fans dev" for fan d and w1 :: "('p, 'l, 'x) world"
  proof -
    have p: "enable_path fan \<in> enable_paths dev \<union> pwm_paths dev" "pwm_path fan \<in> enable_paths dev \<union> pwm_paths dev"
      using that by (auto simp: device_fans_def enable_paths_def pwm_paths_def)
    have custom: "wp (try_io (catch_io (write_bound P dev (pwm_path fan) maximum_pwm e1)) (\<lambda>wr.
        try_io (catch_io (read_bound P dev (pwm_path fan) e2)) (\<lambda>rb. return_io (h wr rb))))
        (\<lambda>_. calm sound pending (intact dev) w2) w2" for e1 e2 and h :: "_ \<Rightarrow> _ \<Rightarrow> ('e, 'y) outcome" and w2 :: "('p, 'l, 'x) world"
      by (intro wp_calm_try wp_catch_rel calm_access [OF assms] p) (simp add: wp_return)
    show ?thesis
      unfolding contain_fan_def Let_def
      by (intro wp_calm_try calm_now wp_catch_rel calm_access [OF assms] p)
        (auto simp: wp_return intro: custom split: sum.splits)
  qed
  show ?thesis
    unfolding contain_custom_fans_before_def
    by (intro wp_calm_try fan) (simp_all add: device_fans_def wp_return)
qed

text \<open>With nothing pending one attempt restores both fans; otherwise it uses a fault up.\<close>

lemma attempt_succeeds:
  fixes w :: "('p, 'l, 'x) world"
  assumes "device_ok dev" "sound (platform w)" "intact dev (platform w)" "pending (platform w) = 0"
    "now (platform w) < dl"
  shows "wp (restoration_attempt P dev dl)
    (\<lambda>r w'. \<exists>c g. r = Ok (c, g) \<and> status_is_confirmed c \<and> status_is_confirmed g
       \<and> sound (platform w') \<and> now (platform w') = now (platform w)) w"
proof -
  let ?c = "enable_path (dev_cpu dev)" and ?g = "enable_path (dev_gpu dev)"
  define H where "H w1 \<longleftrightarrow> sound (platform w1) \<and> intact dev (platform w1) \<and> pending (platform w1) = 0
    \<and> now (platform w1) = now (platform w)" for w1 :: "('p, 'l, 'x) world"
  have H: "H w" using assms by (simp add: H_def)
  have ps: "?c \<in> enable_paths dev \<union> pwm_paths dev" "?g \<in> enable_paths dev \<union> pwm_paths dev"
    "?c \<in> set (device_paths dev)" "?g \<in> set (device_paths dev)" "?c \<noteq> ?g"
    using device_paths_distinct [OF assms(1)]
    by (auto simp: enable_paths_def device_paths_def device_endpoints_def)
  have wr: "wp (catch_io (write_bound P dev path firmware_auto dl))
      (\<lambda>r w2. H w2 \<and> (\<exists>u. r = Ok (Inr u)) \<and> content (platform w2) = (content (platform w1))(path \<mapsto> firmware_auto)) w1"
    if "H w1" "path \<in> {?c, ?g}" for path and w1 :: "('p, 'l, 'x) world"
    using that ps assms(5) unfolding H_def
    by (intro wp_mono [OF wp_catch [OF wp_conj [OF bound_access(2) [OF assms(1)] write_bound_spec [OF assms(1)]]]])
      (auto simp: calm_def split: outcome.splits sum.splits)
  have rd: "wp (status P dev path e dl)
      (\<lambda>r w2. H w2 \<and> content (platform w2) = content (platform w1) \<and> (\<exists>s. r = Ok s \<and> status_is_confirmed s)) w1"
    if "H w1" "path \<in> {?c, ?g}" "content (platform w1) path = Some firmware_auto" for path e and w1 :: "('p, 'l, 'x) world"
  proof -
    have "wp (catch_io (read_bound P dev path dl))
      (\<lambda>r w2. H w2 \<and> content (platform w2) = content (platform w1) \<and> r = Ok (Inr firmware_auto)) w1"
      using that ps assms(5) unfolding H_def
      by (intro wp_mono [OF wp_catch [OF wp_conj [OF bound_access(1) [OF assms(1)] read_bound_spec [OF assms(1)]]]])
        (auto simp: calm_def split: outcome.splits sum.splits)
    then show ?thesis
      unfolding status_def
      by (rule wp_try) (auto simp: wp_return readback_of_def status_is_confirmed_def readback_is_confirmed_def)
  qed
  show ?thesis
    unfolding restoration_attempt_def
  proof (rule wp_try [OF wr [OF H]], simp, elim conjE exE, rule wp_try [OF wr], assumption, simp, elim conjE exE, goal_cases)
    case (1 x1 w1 x2 x3 w2 x4)
    then have c2: "H w2" "content (platform w2) ?c = Some firmware_auto" "content (platform w2) ?g = Some firmware_auto"
      using ps(5) by auto
    show ?case
    proof (rule wp_try [OF rd [OF c2(1) _ c2(2)]], simp, elim conjE exE, rule wp_try [OF rd], assumption, simp, goal_cases)
      case (2 x w3 s x' w4)
      then show ?case by (auto simp: wp_return H_def)
    qed (use c2 in auto)
  qed auto
qed

lemma attempt_uses_fault:
  fixes w :: "('p, 'l, 'x) world"
  assumes "device_ok dev" "sound (platform w)" "intact dev (platform w)" "0 < pending (platform w)"
    "now (platform w) < dl"
  shows "wp (restoration_attempt P dev dl)
    (\<lambda>_ w'. sound (platform w') \<and> intact dev (platform w') \<and> pending (platform w') < pending (platform w)) w"
proof -
  have p: "enable_path (dev_cpu dev) \<in> enable_paths dev \<union> pwm_paths dev"
    "enable_path (dev_gpu dev) \<in> enable_paths dev \<union> pwm_paths dev" by (auto simp: enable_paths_def)
  have rest: "wp (try_io (catch_io (write_bound P dev (enable_path (dev_gpu dev)) firmware_auto dl)) (\<lambda>gw.
     try_io (status P dev (enable_path (dev_cpu dev)) (err_of cw) dl) (\<lambda>c.
     try_io (status P dev (enable_path (dev_gpu dev)) (err_of gw) dl) (\<lambda>g.
       return_io (Ok (c, g)))))) (\<lambda>_. calm sound pending (intact dev) w1) w1" for cw and w1 :: "('p, 'l, 'x) world"
    unfolding status_def by (intro wp_calm_try wp_catch_rel calm_access [OF assms(1)] p) (auto simp: wp_return)
  show ?thesis
    unfolding restoration_attempt_def
    by (rule wp_try [OF wp_catch [OF bound_access(2) [OF assms(1) p(1) assms(2,3)]]])
      (use assms(2-) in \<open>auto simp: calm_def split: sum.splits intro!: wp_mono [OF rest]\<close>)
qed

lemma restore_before_progress:
  fixes w :: "('p, 'l, 'x) world"
  assumes "device_ok dev" "sound (platform w)" "intact dev (platform w)" "now (platform w) < dl"
  shows "wp (restore_firmware_auto_before P dev t dl)
    (\<lambda>r w'. r = Ok () \<or> sound (platform w') \<and> intact dev (platform w') \<and> pending (platform w') < pending (platform w)) w"
proof -
  have "wp (restore_loop P dev dl (1 # as) t n ls)
    (\<lambda>r w'. r = Ok () \<or> sound (platform w') \<and> intact dev (platform w') \<and> pending (platform w') < pending (platform w)) w"
    for as n ls
  proof (cases "pending (platform w) = 0")
    case True
    show ?thesis
    proof (simp, rule wp_try [OF attempt_succeeds [OF assms(1-3) True assms(4)]], elim exE conjE, goal_cases)
      case (1 x w1 c g)
      then show ?case using assms(4)
        by (auto simp: emit_attempt_def emit_restoration_attempt_def wp_try_io wp_emit wp_now_io wp_return
            intro!: wp_mono [OF now_exact])
    qed auto
  next
    case False
    then have f: "0 < pending (platform w)" by simp
    let ?R = "\<lambda>_ w'. sound (platform w') \<and> intact dev (platform w') \<and> pending (platform w') < pending (platform w)"
    have "wp (restore_loop P dev dl (1 # as) t n ls) ?R w"
    proof (simp, rule wp_try [OF attempt_uses_fault [OF assms(1-3) f assms(4)]], goal_cases)
      case (1 x w1)
      then show ?case
        using calm_after_attempt [OF assms(1), where w = w1 and a = 1 and c = "fst x" and g = "snd x" and as = as and dl = dl]
        by (auto simp: case_prod_unfold calm_def elim: wp_mono)
    qed auto
    then show ?thesis by (rule wp_mono) auto
  qed
  then show ?thesis unfolding restore_firmware_auto_before_def by simp
qed

lemma cycle_progress:
  fixes w :: "('p, 'l, 'x) world"
  assumes "device_ok dev" "sound (platform w)" "intact dev (platform w)"
    "now (platform w) + recovery_interval \<le> duration_max"
  shows "wp (recovery_cycle P dev)
    (\<lambda>r w'. \<exists>b. r = Ok b \<and> (\<not> b \<longrightarrow> sound (platform w') \<and> intact dev (platform w')
       \<and> pending (platform w') < pending (platform w) \<and> now (platform w') \<le> now (platform w) + recovery_interval)) w"
    (is "wp _ ?Q w")
  unfolding recovery_cycle_def Let_def wp_try_io [of "now_io P"] wp_now_io
proof (rule wp_mono [OF wp_conj [OF now_spec [OF assms(2)] wp_conj [OF now_exact [OF assms(2)] transient_now [OF assms(3)]]]],
    unfold outcome.case, goal_cases)
  case (1 t p)
  define w1 where "w1 = w\<lparr>platform := p\<rparr>"
  let ?next = "duration_saturating_add t recovery_interval" and ?rest = "duration_saturating_add t recovery_restoration_window"
  have w1: "sound (platform w1)" "intact dev (platform w1)" "pending (platform w1) = pending (platform w)"
    "now (platform w1) = t" "t = now (platform w)" using 1 by (auto simp: w1_def steady_def)
  have d: "?next = t + recovery_interval" "?rest = t + recovery_restoration_window" "t < ?rest"
    "?rest \<le> ?next" "duration_saturating_add ?rest recovery_fan_window \<le> ?next"
    using assms(4) w1(5) by (simp_all add: duration_saturating_add_def recovery_interval_def recovery_restoration_window_def
      recovery_fan_window_def from_secs_def from_millis_def min_def)
  define N where "N = ?next"
  define G where "G w2 \<longleftrightarrow> sound (platform w2) \<and> intact dev (platform w2) \<and> pending (platform w2) < pending (platform w)
    \<and> now (platform w2) \<le> N" for w2 :: "('p, 'l, 'x) world"
  have restore: "wp (restore_firmware_auto_before P dev t ?rest) (\<lambda>r w2. r \<noteq> Panic \<and> (r = Ok () \<or> G w2)) w1"
    unfolding G_def
    by (rule wp_mono [OF wp_conj [OF restore_before_spec [OF assms(1) w1(1)]
        wp_conj [OF restore_before_progress [OF assms(1) w1(1,2)] timed_restore_loop [OF w1(1), of dev ?rest "[1,2,3]" t 0 None,
          folded restore_firmware_auto_before_def]]]])
      (use w1 d in \<open>auto simp: timed_def N_def\<close>)
  have contain: "wp (contain_custom_fans_before P dev d1 N) (\<lambda>r w3. r \<noteq> Panic \<and> (\<forall>e. r \<noteq> Err e) \<and> G w3) w2"
    if "G w2" "d1 \<le> N" for w2 d1
  proof -
    have s2: "sound (platform w2)" using that(1) by (simp add: G_def)
    have tm: "wp (contain_custom_fans_before P dev d1 N) (\<lambda>_. timed sound now N w2) w2"
      unfolding contain_custom_fans_before_def
      by (intro wp_timed_try wp_timed_mono [OF timed_contain_fan] wp_timed_return) (use s2 that(2) in auto)
    show ?thesis
      by (rule wp_mono [OF wp_conj [OF contain_before_spec [OF assms(1) s2] wp_conj [OF calm_contain [OF assms(1)] tm]]])
        (use that(1) in \<open>auto simp: G_def containment_effect_def calm_def timed_def\<close>)
  qed
  have wait: "wp (try_io (now_io P) (\<lambda>now1. if now1 < N then try_io (delay_io P (N - now1)) (\<lambda>_. return_io (Ok False))
      else return_io (Ok False))) (\<lambda>r w4. r = Ok False \<and> G w4) w3" if "G w3" for w3
  proof -
    have s3: "sound (platform w3)" "intact dev (platform w3)" using that by (auto simp: G_def)
    have step: "wp (if t1 < N then try_io (delay_io P (N - t1)) (\<lambda>_. return_io (Ok False)) else return_io (Ok False))
       (\<lambda>r w4. r = Ok False \<and> G w4) w4" if "G w4" "now (platform w4) = t1" for w4 t1
      using that delay_spec [of "platform w4" "N - t1"] transient_delay [of dev "platform w4" "N - t1"]
      by (auto simp: io_simps G_def steady_def)
    show ?thesis
      unfolding wp_try_io [of "now_io P"] wp_now_io
    proof (rule wp_mono [OF wp_conj [OF now_spec [OF s3(1)] wp_conj [OF now_exact [OF s3(1)] transient_now [OF s3(2)]]]],
        unfold outcome.case, goal_cases)
      case (1 t1 p1)
      then have "G (w3\<lparr>platform := p1\<rparr>)" using that by (auto simp: G_def steady_def)
      from step [OF this, of t1] 1 show ?case by simp
    qed
  qed
  have again: "wp (try_io (now_io P) (\<lambda>now1. if now1 < N then try_io (delay_io P (N - now1)) (\<lambda>_. return_io (Ok False))
      else return_io (Ok False))) ?Q w3" if "G w3" for w3
    by (rule wp_mono [OF wait [OF that]]) (use w1(5) d(1) in \<open>auto simp: G_def N_def\<close>)
  show ?case
    unfolding w1_def [symmetric] N_def [symmetric]
  proof (rule wp_try [OF wp_catch [OF restore]], goal_cases)
    case (1 x w2)
    show ?case
    proof (cases x)
      case (Inl e)
      then have "G w2" using 1 by simp
      have "wp (try_io (contain_custom_fans_before P dev d1 N) (\<lambda>report.
          if report_restoration_confirmed report then return_io (Ok True)
          else try_io (now_io P) (\<lambda>now1. if now1 < N then try_io (delay_io P (N - now1)) (\<lambda>_. return_io (Ok False))
             else return_io (Ok False)))) ?Q w2" if "d1 \<le> N" for d1
        by (rule wp_try [OF contain [OF \<open>G w2\<close> that]])
          (auto simp: wp_return intro!: again)
      with Inl d show ?thesis by (simp add: err_of_def N_def)
    qed (auto simp: wp_return err_of_def)
  qed (auto split: outcome.splits)
qed

lemma recover_returns:
  assumes "device_ok dev" "sound (platform w)" "intact dev (platform w)"
    "now (platform w) + recovery_interval * Suc (pending (platform w)) \<le> duration_max"
  shows "\<exists>w'. recover_firmware_auto P dev w = Some (Ok () :: ('e, unit) outcome, w')"
  using assms(2-)
proof (induction "pending (platform w)" arbitrary: w rule: less_induct)
  case less
  obtain r :: "('e, bool) outcome" and w1 where c: "recovery_cycle P dev w = (r, w1)" by fastforce
  have "now (platform w) + recovery_interval \<le> duration_max" using less.prems(3) by simp
  from wp_eqD [OF cycle_progress [OF assms(1) less.prems(1,2) this] c]
  obtain b where b: "r = Ok b" "\<not> b \<longrightarrow> sound (platform w1) \<and> intact dev (platform w1)
       \<and> pending (platform w1) < pending (platform w) \<and> now (platform w1) \<le> now (platform w) + recovery_interval"
    by blast
  show ?case
  proof (cases b)
    case True
    then show ?thesis using c b(1) by (subst recover_firmware_auto.simps) simp
  next
    case False
    with b(2) have w1: "sound (platform w1)" "intact dev (platform w1)" "pending (platform w1) < pending (platform w)"
      "now (platform w1) \<le> now (platform w) + recovery_interval" by auto
    have "recovery_interval * Suc (Suc (pending (platform w1))) \<le> recovery_interval * Suc (pending (platform w))"
      using w1(3) by (intro mult_le_mono2) simp
    then have "now (platform w1) + recovery_interval * Suc (pending (platform w1)) \<le> duration_max"
      using w1(4) less.prems(3) by simp
    from less.hyps [OF w1(3,1,2) this] False c b(1) show ?thesis
      by (subst recover_firmware_auto.simps) simp
  qed
qed

end

definition fake_pending :: "fake_platform \<Rightarrow> nat" where
  "fake_pending p = length (steps p) + length (file_steps p)"

text \<open>The bound identities are the current ones and the four control files can be read and written.\<close>

definition fake_intact :: "acer_hwmon_device \<Rightarrow> fake_platform \<Rightarrow> bool" where
  "fake_intact dev p =
     (map_of (identities p) (dev_root dev) = Some (backing_identity dev)
      \<and> list_all (\<lambda>path. map_of (identities p) path = endpoint_identity dev path
            \<and> (case map_of (files p) path of
                 None \<Rightarrow> False
               | Some f \<Rightarrow> readable (ff_permissions f) \<and> writable (ff_permissions f)))
          [enable_path (dev_cpu dev), enable_path (dev_gpu dev), pwm_path (dev_cpu dev), pwm_path (dev_gpu dev)])"

lemma fake_intact_at:
  assumes "fake_intact dev p" "path \<in> enable_paths dev \<union> pwm_paths dev"
  shows "map_of (identities p) (dev_root dev) = Some (backing_identity dev)"
    "map_of (identities p) path = endpoint_identity dev path"
    "\<exists>f. map_of (files p) path = Some f \<and> readable (ff_permissions f) \<and> writable (ff_permissions f)"
  using assms by (auto simp: fake_intact_def enable_paths_def pwm_paths_def split: option.splits)

lemma fake_intact_same: "same_files p p' \<Longrightarrow> fake_intact dev p' = fake_intact dev p"
  by (simp add: fake_intact_def same_files_def)

lemma fake_intact_logs [simp]:
  "fake_intact dev (p\<lparr>operations := ops\<rparr>) = fake_intact dev p"
  "fake_intact dev (p\<lparr>bounded_write_attempts := bs\<rparr>) = fake_intact dev p"
  "fake_pending (p\<lparr>operations := ops\<rparr>) = fake_pending p"
  "fake_pending (p\<lparr>bounded_write_attempts := bs\<rparr>) = fake_pending p"
  by (simp_all add: fake_intact_def fake_pending_def)

lemma fake_intact_write:
  "fake_intact dev p \<Longrightarrow> map_of (files p) path = Some f
     \<Longrightarrow> fake_intact dev (p\<lparr>files := AList.update path (f\<lparr>ff_contents := v\<rparr>) (files p)\<rparr>)"
  by (auto simp: fake_intact_def update_conv')

lemma file_step_before_pending:
  "wp (apply_next_file_step_before path oper dl) (\<lambda>r p'. fake_pending p' \<le> fake_pending p
     \<and> (monotonic_time p < dl \<and> 0 < fake_pending p \<longrightarrow> fake_pending p' < fake_pending p)
     \<and> (fake_pending p = 0 \<and> monotonic_time p < dl \<longrightarrow> r = Ok () \<and> p' = p)) p"
proof -
  have st: "fake_pending (snd (apply_step_before path oper dl st q)) = fake_pending q" for st q
    by (cases st) (auto simp: apply_step_before_def Let_def fake_pending_def replace_contents_def remove_path_def split: option.splits)
  show ?thesis
    using st [of "hd (steps p)" "p\<lparr>steps := tl (steps p)\<rparr>"] st [of "hd (file_steps p)" "p\<lparr>file_steps := tl (file_steps p)\<rparr>"]
    by (auto simp: wp_def apply_next_file_step_before_def apply_next_step_before_def apply_step_before_def [of _ _ _ Pass]
        fake_pending_def split: list.splits prod.splits)
qed

interpretation fake: transient_platform fake_ops quiet file_contents monotonic_time fake_pending fake_intact
proof unfold_locales
  fix p :: fake_platform and dev :: acer_hwmon_device and d dl :: duration and child contents :: string and i :: file_identity
  assume a: "fake_intact dev p"
  show "wp (monotonic_now fake_ops) (\<lambda>_ p'. fake_intact dev p' \<and> fake_pending p' = fake_pending p) p"
    using a by (simp add: fake_ops_def wp_def fake_monotonic_now_def)
  show "fake_intact dev (delay fake_ops d p) \<and> fake_pending (delay fake_ops d p) = fake_pending p
    \<and> monotonic_time (delay fake_ops d p) \<le> monotonic_time p + d"
    using a by (simp add: fake_ops_def fake_delay_def fake_intact_def fake_pending_def duration_saturating_add_le)
  assume q: "quiet p" and e: "endpoint_identity dev (dev_root dev @ [child]) = Some i"
    "direct_bound_child (dev_root dev) child = Ok (dev_root dev @ [child])"
    "dev_root dev @ [child] \<in> enable_paths dev \<union> pwm_paths dev"
  let ?path = "dev_root dev @ [child]"
  have step: "wp (apply_next_file_step_before path oper dl) (\<lambda>r p'. fake_intact dev p' \<and> fake_pending p' \<le> fake_pending p1
      \<and> (monotonic_time p1 < dl \<and> 0 < fake_pending p1 \<longrightarrow> fake_pending p' < fake_pending p1)
      \<and> (fake_pending p1 = 0 \<and> monotonic_time p1 < dl \<longrightarrow> r = Ok () \<and> p' = p1)) p1"
    if "fake_intact dev p1" "quiet p1" for path oper p1
    by (rule wp_mono [OF wp_conj [OF file_step_before_pending file_step_before_quiet [OF that(2)]]])
      (use that(1) in \<open>auto simp: fake_intact_same\<close>)
  have child_ok: "require_bound_identities (dev_root dev) (backing_identity dev) ?path i p1 = Ok ()" if "fake_intact dev p1" for p1
    using fake_intact_at [OF that e(3)] e(1) by (simp add: require_bound_identities_def)
  have rd: "is_ok (read_file ?path p1)" if "fake_intact dev p1" for p1
    using fake_intact_at(3) [OF that e(3)] by (auto simp: read_file_def)
  show "wp (read_bound_before fake_ops (dev_root dev) (backing_identity dev) child i dl)
     (\<lambda>r p'. fake_intact dev p' \<and> fake_pending p' \<le> fake_pending p
       \<and> (fake_pending p = 0 \<and> monotonic_time p < dl \<longrightarrow> is_ok r \<and> monotonic_time p' = monotonic_time p)) p"
    using a q e(2)
    by (auto simp: fake_ops_def fake_read_bound_before_def wp_try_io wp_return wp_log_operation wp_inspect_io child_ok rd
        intro!: wp_mono [OF step] split: outcome.splits)
  have wr: "wp (write_file ?path contents) (\<lambda>r p'. fake_intact dev p' \<and> fake_pending p' = fake_pending p1
      \<and> r = Ok () \<and> monotonic_time p' = monotonic_time p1) p1" if "fake_intact dev p1" for p1
    using fake_intact_at(3) [OF that e(3)] that
    by (auto simp: wp_def write_file_def fake_pending_def intro: fake_intact_write)
  have tail: "wp (try_io (require_children (dev_root dev) (backing_identity dev) [(child, i)]) (\<lambda>_.
       try_io (check_guards (dev_root dev) []) (\<lambda>_.
       try_io (inspect_io (\<lambda>p. if dl \<le> monotonic_time p then Err (timed_out ?path ''guarded write'') else Ok ())) (\<lambda>_.
       try_io (require_children (dev_root dev) (backing_identity dev) [(child, i)]) (\<lambda>_.
       try_io (log_operation (OpWrite ?path contents)) (\<lambda>_. write_file ?path contents))))))
     (\<lambda>r p'. fake_intact dev p' \<and> fake_pending p' = fake_pending p1
        \<and> (monotonic_time p1 < dl \<longrightarrow> r = Ok () \<and> monotonic_time p' = monotonic_time p1)) p1"
    if "fake_intact dev p1" for p1
    using that by (auto simp: wp_try_io wp_return wp_inspect_io wp_log_operation child_ok e(2) intro!: wp_mono [OF wr])
  show "wp (write_bound_if_before fake_ops (dev_root dev) (backing_identity dev) [(child, i)] [] child contents dl)
     (\<lambda>r p'. fake_intact dev p' \<and> fake_pending p' \<le> fake_pending p
       \<and> (monotonic_time p < dl \<and> 0 < fake_pending p \<longrightarrow> fake_pending p' < fake_pending p)
       \<and> (fake_pending p = 0 \<and> monotonic_time p < dl \<longrightarrow> r = Ok () \<and> monotonic_time p' = monotonic_time p)) p"
    unfolding fake_ops_def platform_ops.simps guarded_write e(2) outcome.case
  proof (rule wp_try [OF step], goal_cases)
    case (3 x p1)
    then show ?case by (intro wp_mono [OF tail]) auto
  qed (use a q in auto)
qed

section \<open>A concrete device\<close>

definition sample_root :: path where
  "sample_root = [''sys'', ''class'', ''hwmon'', ''hwmon3'']"

definition sample_identity :: "u64 \<Rightarrow> file_identity" where
  "sample_identity n = \<lparr>fi_device = 0, fi_inode = n\<rparr>"

definition sample_file :: "string \<Rightarrow> file_permissions \<Rightarrow> fake_file" where
  "sample_file v perms = \<lparr>ff_contents = v, ff_permissions = perms, ff_root_owned = True\<rparr>"

definition sample_channel :: "nat \<Rightarrow> u64 \<Rightarrow> fan_endpoints" where
  "sample_channel channel n =
     (endpoints sample_root channel)\<lparr>pwm_identity := Some (sample_identity n),
        enable_identity := Some (sample_identity (n + 1)), tachometer_identity := Some (sample_identity (n + 2))\<rparr>"

definition sample_device :: acer_hwmon_device where
  "sample_device = \<lparr>dev_hwmon_root = [''sys'', ''class'', ''hwmon''], dev_root = sample_root,
     backing_identity = sample_identity 1, dev_cpu = sample_channel 1 10, dev_gpu = sample_channel 2 20\<rparr>"

definition sample_platform :: "fake_step list \<Rightarrow> fake_platform" where
  "sample_platform script =
     fake_new\<lparr>
       files := map (\<lambda>(n, v, perms). (sample_root @ [n], sample_file v perms))
         [(''name'', acer_hwmon_name_payload, permissions_read_only),
          (''pwm1'', ''90'', permissions_read_write), (''pwm1_enable'', ''1'', permissions_read_write),
          (''fan1_input'', ''2500'', permissions_read_only),
          (''pwm2'', ''90'', permissions_read_write), (''pwm2_enable'', ''1'', permissions_read_write),
          (''fan2_input'', ''2500'', permissions_read_only)],
       directories := [sample_root],
       identities := (sample_root, sample_identity 1) # map (\<lambda>(n, i). (sample_root @ [n], sample_identity i))
         [(''name'', 2), (''pwm1'', 10), (''pwm1_enable'', 11), (''fan1_input'', 12),
          (''pwm2'', 20), (''pwm2_enable'', 21), (''fan2_input'', 22)],
       steps := script\<rparr>"

definition sample_world :: "fake_step list \<Rightarrow> (fake_platform, fake_runtime_lock, unit) world" where
  "sample_world script = world_of (sample_platform script) ()"

lemma sample_device_ok: "device_ok sample_device"
  by (simp add: device_ok_def bound_channel_def sample_device_def sample_channel_def)

lemma sample_quiet: "list_all quiet_step script \<Longrightarrow> quiet (platform (sample_world script))"
  by (simp add: quiet_def sample_world_def world_of_def sample_platform_def fake_new_def)

lemma read_write_access: "readable permissions_read_write" "writable permissions_read_write"
  by code_simp+

lemma sample_device_endpoints:
  "device_endpoints sample_device = map (\<lambda>(n, i). (sample_root @ [n], Some (sample_identity i)))
     [(''pwm1'', 10), (''pwm1_enable'', 11), (''fan1_input'', 12), (''pwm2'', 20), (''pwm2_enable'', 21), (''fan2_input'', 22)]"
  by (simp add: device_endpoints_def sample_device_def sample_channel_def endpoint_paths [simplified])

lemma sample_control_paths:
  "[enable_path (dev_cpu sample_device), enable_path (dev_gpu sample_device), pwm_path (dev_cpu sample_device),
    pwm_path (dev_gpu sample_device)] = map (\<lambda>n. sample_root @ [n]) [''pwm1_enable'', ''pwm2_enable'', ''pwm1'', ''pwm2'']"
  by (simp add: sample_device_def sample_channel_def endpoint_paths [simplified])

lemma sample_intact: "fake_intact sample_device (platform (sample_world script))"
proof -
  have "platform (sample_world script) = sample_platform script" by (simp add: sample_world_def world_of_def)
  moreover have "dev_root sample_device = sample_root" "backing_identity sample_device = sample_identity 1"
    by (simp_all add: sample_device_def)
  ultimately show ?thesis
    unfolding fake_intact_def sample_control_paths endpoint_identity_def sample_device_endpoints
    by (simp add: sample_platform_def sample_file_def read_write_access)
qed

lemma sample_clock: "monotonic_time (platform (sample_world script)) = 0"
  "fake_pending (platform (sample_world script)) = length script"
  by (simp_all add: sample_world_def world_of_def sample_platform_def fake_new_def fake_pending_def)

section \<open>Properties\<close>

text \<open>
  C9. On every platform that keeps its documented promises, restoration of a bound device never
  panics, writes no file but the two enable files and nothing but the Firmware Auto mode, and
  reports success only when both enable files hold that mode.
\<close>

theorem restoration_effect:
  assumes "fan_platform P sound content now" "device_ok dev" "sound (platform w)"
    "restore_firmware_auto P dev w = (r, w')"
  shows "r \<noteq> Panic \<and> sound (platform w')
    \<and> (\<forall>path. content (platform w') path = content (platform w) path
          \<or> path \<in> enable_paths dev \<and> content (platform w') path = Some firmware_auto)
    \<and> (r = Ok () \<longrightarrow> in_firmware_auto dev (content (platform w')))"
  using wp_eqD [OF fan_platform.restore_spec [OF assms(1-3)] assms(4)]
  by (auto simp: ran_to_def only_stored_def)

theorem restoration_effect_witness:
  "\<exists>r w'. restore_firmware_auto fake_ops sample_device (sample_world [Pass]) = (r, w')
     \<and> r \<noteq> Panic \<and> (r = Ok () \<longrightarrow> in_firmware_auto sample_device (file_contents (platform w')))"
proof -
  obtain r w' where e: "restore_firmware_auto fake_ops sample_device (sample_world [Pass]) = (r, w')" by fastforce
  show ?thesis
    using restoration_effect [OF fake.fan_platform_axioms sample_device_ok sample_quiet e] e by auto
qed

text \<open>
  Restoration attempts at most six writes, each of them the Firmware Auto mode to one of the
  two enable files; containment attempts at most two, each of them the maximum to a PWM file.
\<close>

lemma safing_write_attempts:
  assumes "guarded_writes P attempts" "device_ok dev"
  shows "(\<exists>xs. attempts (platform (snd (restore_firmware_auto P dev w))) = attempts (platform w) @ xs
        \<and> set xs \<subseteq> enable_paths dev \<times> {firmware_auto} \<and> length xs \<le> 6)
    \<and> (\<exists>xs. attempts (platform (snd (contain_custom_fans_at_maximum P dev w))) = attempts (platform w) @ xs
        \<and> set xs \<subseteq> pwm_paths dev \<times> {maximum_pwm} \<and> length xs \<le> 2)"
  using guarded_writes.logged_restore [OF assms, of w] guarded_writes.logged_contain [OF assms, of w]
  unfolding wp_def logged_def by (auto simp: split_def)

text \<open>
  On a platform whose bounded operations respect their deadlines, restoration and containment
  each end within two seconds of their start.
\<close>

lemma safing_ends_in_window:
  assumes "timely_platform P sound content now" "sound (platform w)"
  shows "now (platform (snd (restore_firmware_auto P dev w))) \<le> now (platform w) + from_secs 2
    \<and> now (platform (snd (contain_custom_fans_at_maximum P dev w))) \<le> now (platform w) + from_secs 2"
  using timely_platform.timed_restore [OF assms, of dev] timely_platform.timed_contain [OF assms, of dev]
  unfolding wp_def timed_def restoration_window_def by (auto simp: split_def)

text \<open>
  Containment always reports a status for both fans. It writes no file but the two PWM files
  and nothing but the maximum. A fan reported in Firmware Auto is in that mode; a fan reported
  contained is in custom mode with the maximum stored.
\<close>

lemma containment_effect_on_files:
  assumes "fan_platform P sound content now" "device_ok dev" "sound (platform w)"
    "contain_custom_fans_at_maximum P dev w = (r, w')"
  shows "\<exists>report. r = Ok report
    \<and> (\<forall>path. content (platform w') path = content (platform w) path
          \<or> path \<in> pwm_paths dev \<and> content (platform w') path = Some maximum_pwm)
    \<and> fan_contained (dev_cpu dev) (content (platform w')) (ecr_cpu report)
    \<and> fan_contained (dev_gpu dev) (content (platform w')) (ecr_gpu report)
    \<and> (report_restoration_confirmed report \<longrightarrow> in_firmware_auto dev (content (platform w')))"
  using wp_eqD [OF fan_platform.contain_spec [OF assms(1-3)] assms(4)]
    fan_platform.contained_auto [OF assms(1), of dev]
  by (auto simp: containment_effect_def only_stored_def)

text \<open>
  C12. The recovery loop, whose end nothing bounds in general, returns only when both fans are in
  Firmware Auto, and all it ever changed are Firmware Auto at enable files and the maximum at PWM
  files.
\<close>

theorem recovery_returns_in_firmware_auto:
  assumes "fan_platform P sound content now" "device_ok dev" "sound (platform w)"
    "recover_firmware_auto P dev w = Some (r, w')"
  shows "r = Ok () \<and> in_firmware_auto dev (content (platform w'))
    \<and> safing_writes dev (content (platform w)) (content (platform w'))"
  using fan_platform.recover_spec [OF assms(1) assms(4) assms(2,3)] by blast

text \<open>
  C13. After any finite script of failing, delayed and passing platform operations on an intact
  device, the recovery loop does return, and then both fans are in Firmware Auto, provided the
  clock cannot saturate meanwhile.
\<close>

theorem recovery_terminates:
  assumes "device_ok dev" "quiet (platform w)" "fake_intact dev (platform w)"
    "monotonic_time (platform w) + from_secs 2 * Suc (fake_pending (platform w)) \<le> duration_max"
  shows "\<exists>w'. recover_firmware_auto fake_ops dev w = Some (Ok (), w')
    \<and> in_firmware_auto dev (file_contents (platform w'))"
  using fake.recover_returns [OF assms(1-3)] assms(4) fake.recover_spec [OF _ assms(1,2)]
  unfolding recovery_interval_def by blast

theorem recovery_terminates_witness:
  "\<exists>w'. recover_firmware_auto fake_ops sample_device (sample_world [Fail (missing []), Advance (from_secs 5), Pass])
      = Some (Ok (), w') \<and> in_firmware_auto sample_device (file_contents (platform w'))"
  by (rule recovery_terminates [OF sample_device_ok sample_quiet sample_intact])
    (simp_all add: sample_clock from_secs_def duration_max_def)

theorem recovery_returns_in_firmware_auto_witness:
  "\<exists>w'. recover_firmware_auto fake_ops sample_device (sample_world []) = Some (Ok () :: (unit, unit) outcome, w')
     \<and> in_firmware_auto sample_device (file_contents (platform w'))"
proof -
  obtain w' where e: "recover_firmware_auto fake_ops sample_device (sample_world []) = Some (Ok () :: (unit, unit) outcome, w')"
    using fake.recover_returns [OF sample_device_ok sample_quiet sample_intact, of "[]"]
    by (auto simp: sample_clock recovery_interval_def from_secs_def duration_max_def)
  show ?thesis
    using recovery_returns_in_firmware_auto [OF fake.fan_platform_axioms sample_device_ok sample_quiet e] e by auto
qed

end
