(* ===== verification/Sampling.thy ===== *)
theory Sampling
  imports Fake
begin

text \<open>
  Complete sample sets and the two gates that collect them
  (\<open>fan-control-core/src/sampling.rs\<close>), for any clock and any sample sources. A source is given the
  capture context of one read and may do anything to its own state and to the clock's platform; a
  gate is the first component of the state its methods run on. Shown here, for arbitrary sources:
  a complete set consists of three observations made for this very cycle, in order and within the
  two-second deadline; the fresh gate becomes ready only on the second of two successive good sets
  whose starts are 1.9 to 2.1 seconds apart; the control-cycle gate accepts only sets at that
  distance.
\<close>

section \<open>Constants and data\<close>

definition normal_sample_cadence :: duration where "normal_sample_cadence = from_secs 2"
definition max_sample_cadence_jitter :: duration where "max_sample_cadence_jitter = from_millis 100"

datatype required_input = InputCpu | InputGpu | InputPower

record capture_cycle =
  cc_gate_id :: u64
  cc_cycle_id :: u64

record capture_token =
  ct_cycle :: capture_cycle
  ct_input :: required_input

type_synonym sample_source_error = string

record 'v observed_sample =
  os_value :: 'v
  os_observed_at :: duration
  os_token :: capture_token

record sample_capture =
  sc_deadline :: duration
  sc_token :: capture_token

definition capture_remaining ::
  "('p, 'l) platform_ops \<Rightarrow> sample_capture \<Rightarrow> 'p \<Rightarrow> duration option \<times> 'p" where
  "capture_remaining P c p =
     (case monotonic_now P p of
        (t, p') \<Rightarrow> (case duration_checked_sub (sc_deadline c) t of
                     None \<Rightarrow> None
                   | Some d \<Rightarrow> if d = 0 then None else Some d, p'))"

definition capture ::
  "('p, 'l) platform_ops \<Rightarrow> sample_capture \<Rightarrow> 'v \<Rightarrow> 'p \<Rightarrow> 'v observed_sample \<times> 'p" where
  "capture P c v p =
     (case monotonic_now P p of
        (t, p') \<Rightarrow> (\<lparr>os_value = v, os_observed_at = t, os_token = sc_token c\<rparr>, p'))"

record ('p, 's) sample_sources =
  sample_cpu :: "sample_capture \<Rightarrow> ('s \<times> 'p, sample_source_error, temperature_celsius observed_sample) io"
  sample_gpu :: "sample_capture \<Rightarrow> ('s \<times> 'p, sample_source_error, temperature_celsius observed_sample) io"
  observe_external_power_op :: "sample_capture \<Rightarrow> ('s \<times> 'p, sample_source_error, external_power observed_sample) io"

record complete_sample_set =
  css_cpu_temperature :: temperature_celsius
  css_gpu_temperature :: temperature_celsius
  css_external_power :: external_power
  css_cycle_started_at :: duration
  css_completed_at :: duration

datatype sample_readiness = AwaitingSecondSample | Ready complete_sample_set

datatype sample_set_error =
    FirmwareAutoUnconfirmed
  | SampleInput required_input sample_source_error
  | SampleStale required_input
  | SampleFuture required_input
  | SampleLate required_input
  | ClockWentBackwards
  | SampleDeadlineOverflow
  | CaptureCycleOverflow
  | CadenceMissed duration duration

text \<open>Both gates have the same fields.\<close>

record sample_gate =
  sg_gate_id :: u64
  sg_next_cycle_id :: u64
  sg_last_started :: "duration option"
  sg_last_completed :: "duration option"

section \<open>Complete sets\<close>

definition on_sources :: "('s \<times> 'p, 'e, 'a) io \<Rightarrow> (('p, 'l, 's) world, 'e, 'a) io" where
  "on_sources m w =
     (case m (source_state w, platform w) of
        (r, (s, p)) \<Rightarrow> (r, w\<lparr>source_state := s, platform := p\<rparr>))"

definition next_gate_id_io :: "(('p, 'l, 's) world, 'e, u64) io" where
  "next_gate_id_io w =
     (case word_checked_add (next_gate_id w) 1 of
        None \<Rightarrow> (Panic, w)
      | Some n \<Rightarrow> (Ok (next_gate_id w), w\<lparr>next_gate_id := n\<rparr>))"

definition is_normal_cadence :: "duration \<Rightarrow> bool" where
  "is_normal_cadence elapsed =
     (normal_sample_cadence - max_sample_cadence_jitter \<le> elapsed
      \<and> elapsed \<le> normal_sample_cadence + max_sample_cadence_jitter)"

definition validate_observation ::
  "required_input \<Rightarrow> 'v observed_sample \<Rightarrow> capture_token \<Rightarrow> duration \<Rightarrow> duration \<Rightarrow> duration
     \<Rightarrow> (sample_set_error, unit) outcome" where
  "validate_observation input observation token requested_at deadline checked_at =
     (if os_token observation \<noteq> token then Err (SampleStale input)
      else if checked_at < requested_at then Err ClockWentBackwards
      else if os_observed_at observation < requested_at then Err (SampleStale input)
      else if checked_at < os_observed_at observation then Err (SampleFuture input)
      else if deadline < checked_at then Err (SampleLate input)
      else Ok ())"

definition collect_complete_set ::
  "('p, 'l) platform_ops \<Rightarrow> ('p, 's) sample_sources \<Rightarrow> capture_cycle \<Rightarrow> duration option
     \<Rightarrow> (('p, 'l, 's) world, sample_set_error, complete_sample_set) io" where
  "collect_complete_set P S cycle previous_completed_at =
     try_io (now_io P) (\<lambda>cycle_started_at.
     try_io (return_io (if (case previous_completed_at of Some c \<Rightarrow> cycle_started_at < c | None \<Rightarrow> False)
                        then Err ClockWentBackwards else Ok ())) (\<lambda>_.
     try_io (return_io (ok_or SampleDeadlineOverflow (duration_checked_add cycle_started_at normal_sample_cadence))) (\<lambda>deadline.
     (let token = (\<lambda>input. \<lparr>ct_cycle = cycle, ct_input = input\<rparr>);
          context_of = (\<lambda>input. \<lparr>sc_deadline = deadline, sc_token = token input\<rparr>)
      in
     try_io (map_err_io (SampleInput InputCpu) (on_sources (sample_cpu S (context_of InputCpu)))) (\<lambda>c.
     try_io (now_io P) (\<lambda>cpu_checked_at.
     try_io (return_io (validate_observation InputCpu c (token InputCpu) cycle_started_at deadline cpu_checked_at)) (\<lambda>_.
     try_io (map_err_io (SampleInput InputGpu) (on_sources (sample_gpu S (context_of InputGpu)))) (\<lambda>g.
     try_io (now_io P) (\<lambda>gpu_checked_at.
     try_io (return_io (if gpu_checked_at < cpu_checked_at then Err ClockWentBackwards else Ok ())) (\<lambda>_.
     try_io (return_io (validate_observation InputGpu g (token InputGpu) cpu_checked_at deadline gpu_checked_at)) (\<lambda>_.
     try_io (map_err_io (SampleInput InputPower) (on_sources (observe_external_power_op S (context_of InputPower)))) (\<lambda>e.
     try_io (now_io P) (\<lambda>completed_at.
     try_io (return_io (if completed_at < gpu_checked_at then Err ClockWentBackwards else Ok ())) (\<lambda>_.
     try_io (return_io (validate_observation InputPower e (token InputPower) gpu_checked_at deadline completed_at)) (\<lambda>_.
       return_io (Ok \<lparr>css_cpu_temperature = os_value c, css_gpu_temperature = os_value g,
          css_external_power = os_value e, css_cycle_started_at = cycle_started_at,
          css_completed_at = completed_at\<rparr>))))))))))))))))"

section \<open>The fresh gate\<close>

definition sample_gate_new :: "(('p, 'l, 's) world, 'e, sample_gate) io" where
  "sample_gate_new =
     try_io next_gate_id_io (\<lambda>i.
       return_io (Ok \<lparr>sg_gate_id = i, sg_next_cycle_id = 0, sg_last_started = None, sg_last_completed = None\<rparr>))"

definition gate_reset :: "sample_gate \<Rightarrow> sample_gate" where
  "gate_reset g = g\<lparr>sg_last_started := None, sg_last_completed := None\<rparr>"

text \<open>The wait both gates share: until the next cycle is due, measured from the previous start.\<close>

definition wait_for_next_sample ::
  "('p, 'l) platform_ops \<Rightarrow> sample_gate \<Rightarrow> (('p, 'l, 's) world, sample_set_error, unit) io" where
  "wait_for_next_sample P g =
     (case sg_last_started g of
        None \<Rightarrow> return_io (Ok ())
      | Some previous_started_at \<Rightarrow>
          try_io (return_io (ok_or SampleDeadlineOverflow (duration_checked_add previous_started_at normal_sample_cadence))) (\<lambda>expected_at.
          try_io (now_io P) (\<lambda>observed_at.
            if observed_at < previous_started_at then return_io (Err ClockWentBackwards)
            else
              try_io (return_io (ok_or SampleDeadlineOverflow (duration_checked_add expected_at max_sample_cadence_jitter))) (\<lambda>latest.
                if latest < observed_at then return_io (Err (CadenceMissed expected_at observed_at))
                else if observed_at < expected_at then delay_io P (expected_at - observed_at)
                else return_io (Ok ())))))"

text \<open>Resets the gate when the collection fails.\<close>

definition or_reset :: "(('g \<times> 's), 'e, 'a) io \<Rightarrow> ('g \<Rightarrow> 'g) \<Rightarrow> ('g \<times> 's, 'e, 'a) io" where
  "or_reset m f =
     try_io (catch_io m) (\<lambda>r. case r of
        Inr x \<Rightarrow> return_io (Ok x)
      | Inl e \<Rightarrow> try_io (modify_fst f) (\<lambda>_. return_io (Err e)))"

definition fresh_gate_sample ::
  "('p, 'l) platform_ops \<Rightarrow> ('p, 's) sample_sources
     \<Rightarrow> (sample_gate \<times> ('p, 'l, 's) world, sample_set_error, sample_readiness) io" where
  "fresh_gate_sample P S =
     try_io get_fst (\<lambda>g.
     (let cycle = \<lparr>cc_gate_id = sg_gate_id g, cc_cycle_id = sg_next_cycle_id g\<rparr>
      in case word_checked_add (sg_next_cycle_id g) 1 of
           None \<Rightarrow> try_io (modify_fst gate_reset) (\<lambda>_. return_io (Err CaptureCycleOverflow))
         | Some next_id \<Rightarrow>
             try_io (modify_fst (\<lambda>g. g\<lparr>sg_next_cycle_id := next_id\<rparr>)) (\<lambda>_.
             try_io (or_reset (on_snd (collect_complete_set P S cycle (sg_last_completed g))) gate_reset) (\<lambda>sample.
             (let current_started_at = css_cycle_started_at sample;
                  accept = (\<lambda>g. g\<lparr>sg_last_started := Some current_started_at,
                                  sg_last_completed := Some (css_completed_at sample)\<rparr>)
              in case sg_last_started g of
                   Some previous \<Rightarrow>
                     if current_started_at < previous
                     then try_io (modify_fst gate_reset) (\<lambda>_. return_io (Err ClockWentBackwards))
                     else try_io (modify_fst accept) (\<lambda>_.
                            return_io (Ok (if is_normal_cadence (current_started_at - previous)
                                           then Ready sample else AwaitingSecondSample)))
                 | None \<Rightarrow> try_io (modify_fst accept) (\<lambda>_. return_io (Ok AwaitingSecondSample)))))))"

section \<open>The control-cycle gate\<close>

definition control_gate_sample ::
  "('p, 'l) platform_ops \<Rightarrow> ('p, 's) sample_sources
     \<Rightarrow> (sample_gate \<times> ('p, 'l, 's) world, sample_set_error, complete_sample_set) io" where
  "control_gate_sample P S =
     try_io get_fst (\<lambda>g.
     try_io (on_snd (wait_for_next_sample P g)) (\<lambda>_.
     (let cycle = \<lparr>cc_gate_id = sg_gate_id g, cc_cycle_id = sg_next_cycle_id g\<rparr>
      in
     try_io (return_io (ok_or CaptureCycleOverflow (word_checked_add (sg_next_cycle_id g) 1))) (\<lambda>next_id.
     try_io (modify_fst (\<lambda>g. g\<lparr>sg_next_cycle_id := next_id\<rparr>)) (\<lambda>_.
     try_io (on_snd (collect_complete_set P S cycle (sg_last_completed g))) (\<lambda>sample.
     try_io (return_io
       (case sg_last_started g of
          None \<Rightarrow> Ok ()
        | Some previous_started_at \<Rightarrow>
            bind_ok (ok_or ClockWentBackwards
                       (duration_checked_sub (css_cycle_started_at sample) previous_started_at)) (\<lambda>elapsed.
              if \<not> is_normal_cadence elapsed
              then bind_ok (ok_or SampleDeadlineOverflow (duration_checked_add previous_started_at normal_sample_cadence))
                     (\<lambda>expected_at. Err (CadenceMissed expected_at (css_cycle_started_at sample)))
              else Ok ()))) (\<lambda>_.
     try_io (modify_fst (\<lambda>g. g\<lparr>sg_last_started := Some (css_cycle_started_at sample),
                              sg_last_completed := Some (css_completed_at sample)\<rparr>)) (\<lambda>_.
       return_io (Ok sample)))))))))"

section \<open>Inversion\<close>

lemma on_snd_eq [simp]: "on_snd m (g, s) = (r, (g', s')) \<longleftrightarrow> g' = g \<and> m s = (r, s')"
  by (auto simp: on_snd_def split: prod.splits)

lemma get_fst_eq [simp]: "get_fst gs = (r, gs') \<longleftrightarrow> r = Ok (fst gs) \<and> gs' = gs"
  by (auto simp: get_fst_def)

lemma modify_fst_eq [simp]: "modify_fst f gs = (r, gs') \<longleftrightarrow> r = Ok () \<and> gs' = (f (fst gs), snd gs)"
  by (auto simp: modify_fst_def)

lemma validate_observation_Ok:
  "validate_observation input ob token requested deadline checked = Ok () \<longleftrightarrow>
     os_token ob = token \<and> requested \<le> os_observed_at ob \<and> os_observed_at ob \<le> checked \<and> checked \<le> deadline"
  by (auto simp: validate_observation_def)

lemma if_err_eq_Ok [simp]: "(Ok x = (if b then Err e else Ok ())) \<longleftrightarrow> \<not> b"
  by simp

lemma Ok_eq_ok_or [simp]: "Ok x = ok_or e v \<longleftrightarrow> v = Some x"
  by (cases v) auto

lemma Ok_eq_validate [simp]:
  "Ok () = validate_observation i ob t a b c \<longleftrightarrow> validate_observation i ob t a b c = Ok ()"
  by auto

lemma on_sources_Ok: "on_sources m w = (Ok x, w') \<Longrightarrow> fst (m (source_state w, platform w)) = Ok x"
  by (auto simp: on_sources_def split: prod.splits)

lemma wp_on_sources [io_simps]:
  "wp (on_sources m) Q w = wp m (\<lambda>r sp. Q r (w\<lparr>source_state := fst sp, platform := snd sp\<rparr>)) (source_state w, platform w)"
  by (auto simp: wp_def on_sources_def split: prod.splits)

text \<open>The cycle a gate is about to collect, and what the collection of it returns.\<close>

definition gate_cycle :: "sample_gate \<Rightarrow> capture_cycle" where
  "gate_cycle g = \<lparr>cc_gate_id = sg_gate_id g, cc_cycle_id = sg_next_cycle_id g\<rparr>"

definition collected ::
  "('p, 'l) platform_ops \<Rightarrow> ('p, 's) sample_sources \<Rightarrow> sample_gate \<Rightarrow> ('p, 'l, 's) world
     \<Rightarrow> complete_sample_set option" where
  "collected P S g w =
     (case fst (collect_complete_set P S (gate_cycle g) (sg_last_completed g) w) of Ok s \<Rightarrow> Some s | _ \<Rightarrow> None)"

definition gate_accept :: "complete_sample_set \<Rightarrow> sample_gate \<Rightarrow> sample_gate" where
  "gate_accept s g = g\<lparr>sg_last_started := Some (css_cycle_started_at s), sg_last_completed := Some (css_completed_at s)\<rparr>"

text \<open>One call of the fresh gate: a set is accepted, or the gate is reset.\<close>

lemma fresh_gate_sample_cases:
  assumes "fresh_gate_sample P S (g, w) = (r, (g', w'))" "r \<noteq> Panic"
  shows "(\<exists>s. collected P S g w = Some s \<and> g' = gate_accept s (g\<lparr>sg_next_cycle_id := sg_next_cycle_id g + 1\<rparr>)
            \<and> unat (sg_next_cycle_id g) + 1 < 2 ^ 64
            \<and> (\<forall>t. sg_last_started g = Some t \<longrightarrow> t \<le> css_cycle_started_at s)
            \<and> r = Ok (if \<exists>t. sg_last_started g = Some t \<and> is_normal_cadence (css_cycle_started_at s - t)
                      then Ready s else AwaitingSecondSample))
    \<or> (\<exists>e. r = Err e \<and> sg_last_started g' = None \<and> sg_last_completed g' = None \<and> sg_gate_id g' = sg_gate_id g)"
proof -
  obtain rc wc where c: "collect_complete_set P S (gate_cycle g) (sg_last_completed g) w = (rc, wc)" by fastforce
  have next_id: "word_checked_add (sg_next_cycle_id g) 1 = Some n \<longleftrightarrow> unat (sg_next_cycle_id g) + 1 < 2 ^ 64 \<and> n = sg_next_cycle_id g + 1" for n
    by (simp add: word_checked_add_Some)
  show ?thesis
  proof (cases "word_checked_add (sg_next_cycle_id g) 1")
    case None
    then show ?thesis using assms(1)
      by (simp add: fresh_gate_sample_def try_io_def [of get_fst] get_fst_def Let_def try_io_def modify_fst_def return_io_def)
        (auto simp: gate_reset_def)
  next
    case (Some n)
    then have n: "unat (sg_next_cycle_id g) + 1 < 2 ^ 64" "n = sg_next_cycle_id g + 1" using next_id by auto
    note unf = fresh_gate_sample_def try_io_def get_fst_def Let_def modify_fst_def return_io_def or_reset_def catch_io_def on_snd_def
    show ?thesis
    proof (cases rc)
      case (Ok s)
      then show ?thesis using assms(1) c Some n
        by (auto simp: unf gate_cycle_def [symmetric] collected_def gate_accept_def gate_reset_def not_less
            split: option.splits if_splits)
    next
      case (Err e)
      then show ?thesis using assms(1) c Some
        by (auto simp: unf gate_cycle_def [symmetric] gate_reset_def split: option.splits if_splits)
    next
      case Panic
      then show ?thesis using assms c Some by (auto simp: unf gate_cycle_def [symmetric])
    qed
  qed
qed

section \<open>The history of a gate\<close>

text \<open>
  Everything that can happen to a fresh gate, in worlds that others change at will between the
  calls: a sample that succeeds records the start of its set, a sample that fails and a reset
  record that there is none. The newest entry comes first.
\<close>

inductive gate_history ::
  "('p, 'l) platform_ops \<Rightarrow> ('p, 's) sample_sources \<Rightarrow> sample_gate \<Rightarrow> duration option list \<Rightarrow> bool"
  for P :: "('p, 'l) platform_ops" and S :: "('p, 's) sample_sources" where
  created: "(sample_gate_new :: (('p, 'l, 's) world, unit, sample_gate) io) w = (Ok g, w') \<Longrightarrow> gate_history P S g []"
| sampled: "gate_history P S g h \<Longrightarrow> fresh_gate_sample P S (g, w) = (r, (g', w')) \<Longrightarrow> r \<noteq> Panic
     \<Longrightarrow> gate_history P S g' ((if is_ok r then map_option css_cycle_started_at (collected P S g w) else None) # h)"
| was_reset: "gate_history P S g h \<Longrightarrow> gate_history P S (gate_reset g) (None # h)"

inductive_cases gate_history_elim: "gate_history P S g h"

lemma gate_history_last:
  "gate_history P S g h \<Longrightarrow> sg_last_started g = (case h of [] \<Rightarrow> None | x # _ \<Rightarrow> x)"
proof (induction rule: gate_history.induct)
  case (created w g w')
  then show ?case by (auto simp: sample_gate_new_def)
next
  case (sampled g h w r g' w')
  from fresh_gate_sample_cases [OF sampled.hyps(2,3)] show ?case
    by (auto simp: gate_accept_def)
next
  case (was_reset g h)
  show ?case by (simp add: gate_reset_def)
qed

section \<open>Constant sources on the scripted platform\<close>

definition constant_source :: "'v \<Rightarrow> sample_capture \<Rightarrow> ('s \<times> fake_platform, sample_source_error, 'v observed_sample) io" where
  "constant_source v c sp = (case capture fake_ops c v (snd sp) of (ob, p) \<Rightarrow> (Ok ob, (fst sp, p)))"

definition constant_sources ::
  "temperature_celsius \<Rightarrow> temperature_celsius \<Rightarrow> external_power \<Rightarrow> (fake_platform, 's) sample_sources" where
  "constant_sources tc tg pw =
     \<lparr>sample_cpu = constant_source tc, sample_gpu = constant_source tg, observe_external_power_op = constant_source pw\<rparr>"

lemma collect_constant:
  assumes "monotonic_time (platform w) + from_secs 2 \<le> duration_max"
    "\<And>c. prev = Some c \<Longrightarrow> c \<le> monotonic_time (platform w)"
  shows "\<exists>ops. collect_complete_set fake_ops (constant_sources tc tg pw) cycle prev w =
    (Ok \<lparr>css_cpu_temperature = tc, css_gpu_temperature = tg, css_external_power = pw,
       css_cycle_started_at = monotonic_time (platform w), css_completed_at = monotonic_time (platform w)\<rparr>,
     w\<lparr>platform := (platform w)\<lparr>operations := ops\<rparr>\<rparr>)"
proof -
  have prev: "(case prev of None \<Rightarrow> False | Some c \<Rightarrow> monotonic_time (platform w) < c) = False"
    using assms(2) by (auto split: option.splits simp: not_less)
  show ?thesis
    using assms(1) prev
    by (simp add: collect_complete_set_def Let_def try_io_def now_io_def lift_io_def on_platform_def fake_ops_def
        fake_monotonic_now_def duration_checked_add_def normal_sample_cadence_def return_io_def map_err_io_def
        on_sources_def constant_sources_def constant_source_def capture_def validate_observation_def from_secs_def)
      (rule exI, rule refl)
qed

abbreviation warm_sources :: "(fake_platform, unit) sample_sources" where
  "warm_sources \<equiv> constant_sources (Fin 55) (Fin 50) Connected"

definition fake_world_at :: "duration \<Rightarrow> (fake_platform, fake_runtime_lock, unit) world" where
  "fake_world_at t = world_of (fake_new\<lparr>monotonic_time := t\<rparr>) ()"

definition new_gate :: sample_gate where
  "new_gate = \<lparr>sg_gate_id = 0, sg_next_cycle_id = 0, sg_last_started = None, sg_last_completed = None\<rparr>"

lemma fake_world_at_clock [simp]: "monotonic_time (platform (fake_world_at t)) = t"
  by (simp add: fake_world_at_def world_of_def)

lemma fresh_gate_constant:
  assumes "t + from_secs 2 \<le> duration_max" "\<And>c. sg_last_completed g = Some c \<Longrightarrow> c \<le> t"
    "\<And>c. sg_last_started g = Some c \<Longrightarrow> c \<le> t" "sg_next_cycle_id g = of_nat n" "n < 1000"
  shows "\<exists>s w'. css_cycle_started_at s = t
    \<and> fresh_gate_sample fake_ops (constant_sources tc tg pw) (g, fake_world_at t) =
        (Ok (if \<exists>c. sg_last_started g = Some c \<and> is_normal_cadence (t - c) then Ready s else AwaitingSecondSample),
         (gate_accept s (g\<lparr>sg_next_cycle_id := sg_next_cycle_id g + 1\<rparr>), w'))
    \<and> collected fake_ops (constant_sources tc tg pw) g (fake_world_at t) = Some s \<and> css_completed_at s = t"
proof -
  have n: "word_checked_add (sg_next_cycle_id g) 1 = Some (sg_next_cycle_id g + 1)"
    using assms(4,5) by (simp add: word_checked_add_def unat_of_nat take_bit_nat_eq_self)
  obtain ops where c: "collect_complete_set fake_ops (constant_sources tc tg pw) (gate_cycle g) (sg_last_completed g) (fake_world_at t) =
    (Ok \<lparr>css_cpu_temperature = tc, css_gpu_temperature = tg, css_external_power = pw,
       css_cycle_started_at = t, css_completed_at = t\<rparr>, (fake_world_at t)\<lparr>platform := (platform (fake_world_at t))\<lparr>operations := ops\<rparr>\<rparr>)"
    using collect_constant [of "fake_world_at t" "sg_last_completed g" tc tg pw "gate_cycle g"] assms(1,2) by auto
  show ?thesis
    using assms(3) c n
    by (cases "sg_last_started g")
      (auto simp: fresh_gate_sample_def try_io_def get_fst_def Let_def modify_fst_def return_io_def or_reset_def
        catch_io_def on_snd_def gate_cycle_def [symmetric] collected_def gate_accept_def not_less)
qed

section \<open>Properties\<close>

lemma complete_set_after_previous:
  "wp (collect_complete_set P S cycle prev) (\<lambda>r _. \<forall>s t. r = Ok s \<and> prev = Some t \<longrightarrow> t \<le> css_cycle_started_at s) w"
  by (auto simp: wp_def collect_complete_set_def Let_def split: prod.splits)

text \<open>
  C28. Whatever the sources return, a complete set holds the values of three observations that were
  made for this very capture cycle, each after the previous one was checked, all of them at or
  after the start of the cycle and the last check no later than two seconds after it; and the
  cycle did not start before the previous one was complete.
\<close>

theorem complete_set_is_fresh:
  assumes "collect_complete_set P S cycle prev w = (Ok s, w')"
  shows "\<exists>c g e sc sg se. let context_of = (\<lambda>input. \<lparr>sc_deadline = css_cycle_started_at s + from_secs 2,
           sc_token = \<lparr>ct_cycle = cycle, ct_input = input\<rparr>\<rparr>) in
      fst (sample_cpu S (context_of InputCpu) sc) = Ok c
    \<and> fst (sample_gpu S (context_of InputGpu) sg) = Ok g
    \<and> fst (observe_external_power_op S (context_of InputPower) se) = Ok e
    \<and> css_cpu_temperature s = os_value c \<and> css_gpu_temperature s = os_value g \<and> css_external_power s = os_value e
    \<and> os_token c = sc_token (context_of InputCpu) \<and> os_token g = sc_token (context_of InputGpu)
    \<and> os_token e = sc_token (context_of InputPower)
    \<and> css_cycle_started_at s \<le> os_observed_at c \<and> os_observed_at c \<le> os_observed_at g
    \<and> os_observed_at g \<le> os_observed_at e \<and> os_observed_at e \<le> css_completed_at s
    \<and> css_completed_at s \<le> css_cycle_started_at s + from_secs 2
    \<and> (\<forall>t. prev = Some t \<longrightarrow> t \<le> css_cycle_started_at s)"
proof -
  from assms obtain t1 dl c g e sc sg se t2 t3 t4 where
    c: "fst (sample_cpu S \<lparr>sc_deadline = dl, sc_token = \<lparr>ct_cycle = cycle, ct_input = InputCpu\<rparr>\<rparr> sc) = Ok c"
    and g: "fst (sample_gpu S \<lparr>sc_deadline = dl, sc_token = \<lparr>ct_cycle = cycle, ct_input = InputGpu\<rparr>\<rparr> sg) = Ok g"
    and e: "fst (observe_external_power_op S \<lparr>sc_deadline = dl, sc_token = \<lparr>ct_cycle = cycle, ct_input = InputPower\<rparr>\<rparr> se) = Ok e"
    and dl: "duration_checked_add t1 normal_sample_cadence = Some dl"
    and prev: "\<not> (case prev of Some c \<Rightarrow> t1 < c | None \<Rightarrow> False)"
    and v: "validate_observation InputCpu c \<lparr>ct_cycle = cycle, ct_input = InputCpu\<rparr> t1 dl t2 = Ok ()"
      "validate_observation InputGpu g \<lparr>ct_cycle = cycle, ct_input = InputGpu\<rparr> t2 dl t3 = Ok ()"
      "validate_observation InputPower e \<lparr>ct_cycle = cycle, ct_input = InputPower\<rparr> t3 dl t4 = Ok ()"
    and s: "s = \<lparr>css_cpu_temperature = os_value c, css_gpu_temperature = os_value g,
          css_external_power = os_value e, css_cycle_started_at = t1, css_completed_at = t4\<rparr>"
    unfolding collect_complete_set_def Let_def
    by (simp only: try_io_Ok map_err_io_Ok return_io_eq if_err_eq_Ok Ok_eq_ok_or Ok_eq_validate split_paired_Ex)
      (elim exE conjE, drule on_sources_Ok, drule on_sources_Ok, drule on_sources_Ok, rule that, assumption+, auto)
  have "dl = t1 + from_secs 2" using dl by (simp add: normal_sample_cadence_def)
  then show ?thesis
    unfolding Let_def
    by (intro exI [of _ c] exI [of _ g] exI [of _ e] exI [of _ sc] exI [of _ sg] exI [of _ se])
      (use c g e v prev in \<open>auto simp: s validate_observation_Ok split: option.splits\<close>)
qed

theorem complete_set_is_fresh_witness:
  "\<exists>s w'. collect_complete_set fake_ops warm_sources (gate_cycle new_gate) (Some 3) (fake_world_at 7) = (Ok s, w')
     \<and> css_cpu_temperature s = Fin 55 \<and> css_completed_at s \<le> css_cycle_started_at s + from_secs 2"
proof -
  obtain ops where c: "collect_complete_set fake_ops warm_sources (gate_cycle new_gate) (Some 3) (fake_world_at 7) =
    (Ok \<lparr>css_cpu_temperature = Fin 55, css_gpu_temperature = Fin 50, css_external_power = Connected,
       css_cycle_started_at = 7, css_completed_at = 7\<rparr>, (fake_world_at 7)\<lparr>platform := (platform (fake_world_at 7))\<lparr>operations := ops\<rparr>\<rparr>)"
    using collect_constant [of "fake_world_at 7" "Some 3" "Fin 55" "Fin 50" Connected "gate_cycle new_gate"]
    by (auto simp: from_secs_def duration_max_def)
  from complete_set_is_fresh [OF c] c show ?thesis by (auto simp: Let_def)
qed

text \<open>
  C29. In every history of a fresh gate, it reports readiness only when the call before was a
  sample that succeeded, and the starts of the two sets are 1.9 to 2.1 seconds apart. Any failure
  or reset in between starts over.
\<close>

theorem ready_needs_two_consecutive_sets:
  assumes "gate_history P S g h" "fresh_gate_sample P S (g, w) = (Ok (Ready s), (g', w'))"
  shows "\<exists>t h'. h = Some t # h' \<and> collected P S g w = Some s
    \<and> t + from_millis 1900 \<le> css_cycle_started_at s \<and> css_cycle_started_at s \<le> t + from_millis 2100"
  using fresh_gate_sample_cases [OF assms(2)] gate_history_last [OF assms(1)]
  by (auto simp: is_normal_cadence_def normal_sample_cadence_def max_sample_cadence_jitter_def from_secs_def
      from_millis_def split: if_splits list.splits option.splits)

theorem ready_needs_two_consecutive_sets_witness:
  "\<exists>g h s g' w'. gate_history fake_ops warm_sources g h
     \<and> fresh_gate_sample fake_ops warm_sources (g, fake_world_at (from_millis 2050)) = (Ok (Ready s), (g', w'))
     \<and> (\<exists>t h'. h = Some t # h' \<and> t + from_millis 1900 \<le> css_cycle_started_at s)"
proof -
  have created: "gate_history fake_ops warm_sources new_gate []"
    by (rule gate_history.created [of "fake_world_at 0"])
      (simp add: sample_gate_new_def next_gate_id_io_def fake_world_at_def world_of_def word_checked_add_def new_gate_def)
  obtain s1 w1 where s1: "css_cycle_started_at s1 = 0" "css_completed_at s1 = 0"
    "fresh_gate_sample fake_ops warm_sources (new_gate, fake_world_at 0) =
        (Ok AwaitingSecondSample, (gate_accept s1 (new_gate\<lparr>sg_next_cycle_id := 1\<rparr>), w1))"
    using fresh_gate_constant [of 0 new_gate 0 "Fin 55" "Fin 50" Connected]
    by (auto simp: new_gate_def from_secs_def duration_max_def)
  let ?g = "gate_accept s1 (new_gate\<lparr>sg_next_cycle_id := 1\<rparr>)"
  note h = gate_history.sampled [OF created s1(3), simplified]
  obtain s2 g2 w2 where s2: "fresh_gate_sample fake_ops warm_sources (?g, fake_world_at (from_millis 2050)) = (Ok (Ready s2), (g2, w2))"
    using fresh_gate_constant [of "from_millis 2050" ?g 1 "Fin 55" "Fin 50" Connected] s1(1,2)
    by (auto simp: gate_accept_def from_secs_def from_millis_def duration_max_def is_normal_cadence_def
        normal_sample_cadence_def max_sample_cadence_jitter_def)
  from ready_needs_two_consecutive_sets [OF h s2] h s2 show ?thesis by blast
qed

text \<open>
  The control-cycle gate returns a set only if it started 1.9 to 2.1 seconds after the
  previous accepted one and not before that one was complete. A cycle identifier is never used for
  two collections, and an error leaves the times of the last accepted set in place.
\<close>

lemma control_gate_cadence:
  assumes "control_gate_sample P S (g, w) = (r, (g', w'))"
  shows "(\<forall>s t. r = Ok s \<and> sg_last_started g = Some t \<longrightarrow>
        t + from_millis 1900 \<le> css_cycle_started_at s \<and> css_cycle_started_at s \<le> t + from_millis 2100)
    \<and> (\<forall>s t. r = Ok s \<and> sg_last_completed g = Some t \<longrightarrow> t \<le> css_cycle_started_at s)
    \<and> (\<forall>s. r = Ok s \<longrightarrow> g' = gate_accept s (g\<lparr>sg_next_cycle_id := sg_next_cycle_id g + 1\<rparr>)
          \<and> unat (sg_next_cycle_id g') = unat (sg_next_cycle_id g) + 1)
    \<and> (\<forall>e. r = Err e \<longrightarrow> sg_last_started g' = sg_last_started g \<and> sg_last_completed g' = sg_last_completed g
          \<and> unat (sg_next_cycle_id g) \<le> unat (sg_next_cycle_id g'))"
proof -
  obtain rw w1 where w: "wait_for_next_sample P g w = (rw, w1)" by fastforce
  obtain rc w2 where c: "collect_complete_set P S (gate_cycle g) (sg_last_completed g) w1 = (rc, w2)" by fastforce
  have prev: "t \<le> css_cycle_started_at s" if "rc = Ok s" "sg_last_completed g = Some t" for s t
    using wp_eqD [OF complete_set_after_previous c] that by blast
  note unf = control_gate_sample_def try_io_def get_fst_def Let_def modify_fst_def return_io_def on_snd_def
    gate_cycle_def [symmetric]
  show ?thesis
  proof (cases "\<exists>n. rw = Ok () \<and> word_checked_add (sg_next_cycle_id g) 1 = Some n")
    case True
    then obtain n where n: "rw = Ok ()" "word_checked_add (sg_next_cycle_id g) 1 = Some n" by blast
    then have u: "unat n = unat (sg_next_cycle_id g) + 1" "n = sg_next_cycle_id g + 1"
      using unat_word_checked_add [OF n(2)] n(2) by (auto simp: word_checked_add_Some)
    show ?thesis
    proof (cases rc)
      case (Ok s)
      note near = is_normal_cadence_def normal_sample_cadence_def max_sample_cadence_jitter_def from_secs_def from_millis_def
      from assms Ok c w n u prev show ?thesis
        by (cases "sg_last_started g")
          (auto simp: unf gate_accept_def duration_checked_sub_def duration_checked_add_def near split: if_splits)
    qed (use assms c w n u in \<open>auto simp: unf\<close>)
  next
    case False
    then show ?thesis using assms w
      by (cases rw; cases "word_checked_add (sg_next_cycle_id g) 1") (auto simp: unf)
  qed
qed

end
