(* ===== verification/Ownership.thy ===== *)
theory Ownership
  imports Restoration_Contract Sampling
begin

text \<open>
  Exclusive ownership of the fans (\<open>fan-control-core/src/ownership.rs\<close>) and the graceful cleanup of
  \<open>termination.rs\<close>, for any platform and any sources. The fields of \<open>ControllerOwnership\<close> are fields of
  the world. Shown here: acquisition succeeds only with the lock held and no competing service
  seen before or after taking it; in every state that any sequence of the owner's operations can
  reach, a confirmed restoration means that both fans are in Firmware Auto, so the lock is released
  in that mode only; a sample is fresh only while that confirmation was renewed; and the cleanup
  runs once.
\<close>

section \<open>Constants and data\<close>

definition runtime_lock_path :: path where
  "runtime_lock_path = [''run'', ''pt31553-fan-control'', ''lock'']"

definition competing_fan_control_services :: "string list" where
  "competing_fan_control_services =
     [''fancontrol.service'', ''nbfc.service'', ''nbfc_service.service'', ''coolercontrold.service'']"

record arming_ready_sample =
  ars_sample :: complete_sample_set
  ars_ownership_id :: u64
  ars_sampling_epoch :: u64

datatype ownership_sample_readiness = OwnershipAwaitingSecondSample | OwnershipReady arming_ready_sample

datatype firmware_auto_safing_outcome =
    SafingRestored
  | SafingContained firmware_auto_restoration_error emergency_containment_report
  | SafingCritical firmware_auto_restoration_error emergency_containment_report

datatype controller_ownership_error =
    CompetingService string
  | ServiceProbe string platform_error
  | OwnershipRuntimeLock runtime_lock_error

section \<open>Acquisition\<close>

fun reject_services ::
  "('p, 'l) platform_ops \<Rightarrow> string list \<Rightarrow> (('p, 'l, 's) world, controller_ownership_error, unit) io" where
  "reject_services P [] = return_io (Ok ())"
| "reject_services P (service # rest) =
     try_io (catch_io (on_platform (is_service_active P service))) (\<lambda>r.
       case r of
         Inr active \<Rightarrow> if active then return_io (Err (CompetingService service)) else reject_services P rest
       | Inl error \<Rightarrow>
           if pe_kind error = NotFound then reject_services P rest
           else return_io (Err (ServiceProbe service error)))"

definition reject_competing_services ::
  "('p, 'l) platform_ops \<Rightarrow> (('p, 'l, 's) world, controller_ownership_error, unit) io" where
  "reject_competing_services P = reject_services P competing_fan_control_services"

definition inspect_err_io :: "('s, 'e, 'a) io \<Rightarrow> ('s, 'e, unit) io \<Rightarrow> ('s, 'e, 'a) io" where
  "inspect_err_io m h =
     try_io (catch_io m) (\<lambda>r. case r of
        Inr x \<Rightarrow> return_io (Ok x)
      | Inl e \<Rightarrow> try_io h (\<lambda>_. return_io (Err e)))"

definition next_ownership_id_io :: "(('p, 'l, 's) world, 'e, u64) io" where
  "next_ownership_id_io w =
     (case word_checked_add (next_ownership_id w) 1 of
        None \<Rightarrow> (Panic, w)
      | Some n \<Rightarrow> (Ok (next_ownership_id w), w\<lparr>next_ownership_id := n\<rparr>))"

definition acquire_controller_ownership ::
  "('p, 'l) platform_ops \<Rightarrow> (('p, 'l, 's) world, controller_ownership_error, unit) io" where
  "acquire_controller_ownership P =
     try_io (inspect_err_io (reject_competing_services P) (emit_fault FaultOwnershipDenied None)) (\<lambda>_.
     try_io (inspect_err_io
       (map_err_io OwnershipRuntimeLock (on_platform (try_acquire_root_runtime_lock P runtime_lock_path)))
       (emit_fault FaultOwnershipDenied None)) (\<lambda>lock.
     try_io (catch_io (reject_competing_services P)) (\<lambda>rejected.
       case rejected of
         Inl rejection \<Rightarrow>
           try_io (emit_fault FaultOwnershipDenied None) (\<lambda>_.
           try_io (catch_io (on_platform (release_runtime_lock P lock))) (\<lambda>released.
             return_io (Err (case released of
                Inr _ \<Rightarrow> rejection
              | Inl (_, error) \<Rightarrow> OwnershipRuntimeLock (RuntimeLockPlatform error)))))
       | Inr _ \<Rightarrow>
           try_io next_ownership_id_io (\<lambda>i.
             modify_io (\<lambda>w. w\<lparr>own_lock := Some lock, ownership_id := i, controlled_device := None,
               restoration_confirmed := False, sampling_epoch_started := False, sampling_epoch := 0\<rparr>)))))"

section \<open>Epochs and confirmation\<close>

definition reset_sampling_epoch :: "(('p, 'l, 's) world, 'e, unit) io" where
  "reset_sampling_epoch w =
     (case word_checked_add (sampling_epoch w) 1 of
        None \<Rightarrow> (Panic, w\<lparr>sampling_epoch_started := False\<rparr>)
      | Some n \<Rightarrow> (Ok (), w\<lparr>sampling_epoch_started := False, sampling_epoch := n\<rparr>))"

definition invalidate_firmware_auto_epoch :: "(('p, 'l, 's) world, 'e, unit) io" where
  "invalidate_firmware_auto_epoch =
     try_io (modify_io (\<lambda>w. w\<lparr>restoration_confirmed := False\<rparr>)) (\<lambda>_. reset_sampling_epoch)"

definition get_io :: "('s \<Rightarrow> 'a) \<Rightarrow> ('s, 'e, 'a) io" where
  "get_io f s = (Ok (f s), s)"

definition begin_custom_transition :: "acer_hwmon_device \<Rightarrow> (('p, 'l, 's) world, 'e, u64) io" where
  "begin_custom_transition dev =
     try_io (modify_io (\<lambda>w. w\<lparr>controlled_device := Some (backing_identity dev), restoration_confirmed := False\<rparr>)) (\<lambda>_.
     try_io reset_sampling_epoch (\<lambda>_. get_io sampling_epoch))"

definition custom_epoch_is_current :: "('p, 'l, 's) world \<Rightarrow> u64 \<Rightarrow> u64 \<Rightarrow> bool" where
  "custom_epoch_is_current w i epoch =
     (ownership_id w = i \<and> sampling_epoch w = epoch \<and> \<not> restoration_confirmed w)"

definition reads_firmware_auto :: "platform_error + string \<Rightarrow> bool" where
  "reads_firmware_auto r = (case r of Inr v \<Rightarrow> trim v = firmware_auto | Inl _ \<Rightarrow> False)"

definition foreign_device :: "acer_hwmon_device \<Rightarrow> ('p, 'l, 's) world \<Rightarrow> bool" where
  "foreign_device dev w =
     (case controlled_device w of Some identity \<Rightarrow> identity \<noteq> backing_identity dev | None \<Rightarrow> False)"

definition refresh_firmware_auto_confirmation ::
  "('p, 'l) platform_ops \<Rightarrow> acer_hwmon_device \<Rightarrow> (('p, 'l, 's) world, 'e, bool) io" where
  "refresh_firmware_auto_confirmation P dev =
     try_io (get_io (\<lambda>w. w)) (\<lambda>w0.
       if \<not> restoration_confirmed w0 then return_io (Ok False)
       else if foreign_device dev w0
       then try_io invalidate_firmware_auto_epoch (\<lambda>_. return_io (Ok False))
       else
         try_io (now_io P) (\<lambda>t.
         (let deadline = duration_saturating_add t normal_sample_cadence
          in
         try_io (catch_io (read_bound P dev (enable_path (dev_cpu dev)) deadline)) (\<lambda>c.
         try_io (catch_io (read_bound P dev (enable_path (dev_gpu dev)) deadline)) (\<lambda>g.
         (let confirmed = (reads_firmware_auto c \<and> reads_firmware_auto g)
          in if \<not> confirmed
             then try_io invalidate_firmware_auto_epoch (\<lambda>_. return_io (Ok confirmed))
             else return_io (Ok confirmed)))))))"

section \<open>Fresh samples\<close>

definition collect_fresh_sample ::
  "('p, 'l) platform_ops \<Rightarrow> ('p, 's) sample_sources \<Rightarrow> acer_hwmon_device
     \<Rightarrow> (sample_gate \<times> ('p, 'l, 's) world, sample_set_error, ownership_sample_readiness) io" where
  "collect_fresh_sample P S dev =
     try_io (on_snd (refresh_firmware_auto_confirmation P dev)) (\<lambda>confirmed.
       if \<not> confirmed
       then try_io (modify_fst gate_reset) (\<lambda>_. return_io (Err FirmwareAutoUnconfirmed))
       else
         try_io (on_snd (get_io sampling_epoch_started)) (\<lambda>started.
         try_io (if \<not> started
                 then try_io (modify_fst gate_reset) (\<lambda>_.
                        on_snd (modify_io (\<lambda>w. w\<lparr>sampling_epoch_started := True\<rparr>)))
                 else return_io (Ok ())) (\<lambda>_.
         try_io (catch_io (fresh_gate_sample P S)) (\<lambda>r.
           case r of
             Inr AwaitingSecondSample \<Rightarrow> return_io (Ok OwnershipAwaitingSecondSample)
           | Inr (Ready sample) \<Rightarrow>
               try_io (on_snd (get_io (\<lambda>w. (ownership_id w, sampling_epoch w)))) (\<lambda>(i, epoch).
                 return_io (Ok (OwnershipReady
                   \<lparr>ars_sample = sample, ars_ownership_id = i, ars_sampling_epoch = epoch\<rparr>)))
           | Inl error \<Rightarrow>
               try_io (on_snd invalidate_firmware_auto_epoch) (\<lambda>_. return_io (Err error))))))"

section \<open>Restoration under ownership\<close>

definition owned_restore_firmware_auto ::
  "('p, 'l) platform_ops \<Rightarrow> acer_hwmon_device
     \<Rightarrow> (('p, 'l, 's) world, firmware_auto_restoration_error, unit) io" where
  "owned_restore_firmware_auto P dev =
     try_io invalidate_firmware_auto_epoch (\<lambda>_.
     try_io (restore_firmware_auto P dev) (\<lambda>_.
     try_io (get_io controlled_device) (\<lambda>controlled.
     try_io (return_io
       (case controlled of
          Some admitted \<Rightarrow> if admitted \<noteq> backing_identity dev
                           then Err (DifferentController admitted (backing_identity dev)) else Ok ()
        | None \<Rightarrow> Ok ())) (\<lambda>_.
       modify_io (\<lambda>w. w\<lparr>restoration_confirmed := True\<rparr>)))))"

definition owned_contain_custom_fans_at_maximum ::
  "('p, 'l) platform_ops \<Rightarrow> acer_hwmon_device
     \<Rightarrow> (('p, 'l, 's) world, 'e, emergency_containment_report) io" where
  "owned_contain_custom_fans_at_maximum P dev =
     try_io invalidate_firmware_auto_epoch (\<lambda>_.
     try_io (contain_custom_fans_at_maximum P dev) (\<lambda>report.
     try_io (modify_io (\<lambda>w. w\<lparr>restoration_confirmed :=
               (report_restoration_confirmed report \<and> \<not> foreign_device dev w)\<rparr>)) (\<lambda>_.
       return_io (Ok report))))"

definition restore_or_contain_firmware_auto ::
  "('p, 'l) platform_ops \<Rightarrow> acer_hwmon_device
     \<Rightarrow> (('p, 'l, 's) world, 'e, firmware_auto_safing_outcome) io" where
  "restore_or_contain_firmware_auto P dev =
     try_io (catch_io (owned_restore_firmware_auto P dev)) (\<lambda>r.
       case r of
         Inr _ \<Rightarrow> return_io (Ok SafingRestored)
       | Inl restoration \<Rightarrow>
           try_io (owned_contain_custom_fans_at_maximum P dev) (\<lambda>containment.
           try_io (get_io restoration_confirmed) (\<lambda>confirmed.
             return_io (Ok
               (if report_restoration_confirmed containment \<and> confirmed
                then SafingContained restoration containment
                else SafingCritical restoration containment)))))"

definition owned_recover_firmware_auto ::
  "('p, 'l) platform_ops \<Rightarrow> acer_hwmon_device \<Rightarrow> ('p, 'l, 's) world
     \<Rightarrow> (('e, unit) outcome \<times> ('p, 'l, 's) world) option" where
  "owned_recover_firmware_auto P dev w =
     (case invalidate_firmware_auto_epoch w of
        (Ok _, w1) \<Rightarrow>
          (case recover_firmware_auto P dev w1 of
             None \<Rightarrow> None
           | Some (Ok _, w2) \<Rightarrow> Some (Ok (), w2\<lparr>restoration_confirmed := \<not> foreign_device dev w2\<rparr>)
           | Some (r, w2) \<Rightarrow> Some (r, w2))
      | (r, w1) \<Rightarrow> Some (r, w1))"

text \<open>On failure the caller keeps the ownership: the error holds it.\<close>

definition release_ownership ::
  "('p, 'l) platform_ops \<Rightarrow> (('p, 'l, 's) world, platform_error option, unit) io" where
  "release_ownership P =
     try_io (get_io restoration_confirmed) (\<lambda>confirmed.
       if \<not> confirmed then return_io (Err None)
       else
         try_io (get_io own_lock) (\<lambda>held.
         try_io (return_io (expect held)) (\<lambda>lock.
         try_io (modify_io (\<lambda>w. w\<lparr>own_lock := None\<rparr>)) (\<lambda>_.
         try_io (catch_io (on_platform (release_runtime_lock P lock))) (\<lambda>r.
           case r of
             Inr _ \<Rightarrow> return_io (Ok ())
           | Inl (lock, source) \<Rightarrow>
               try_io (modify_io (\<lambda>w. w\<lparr>own_lock := Some lock\<rparr>)) (\<lambda>_.
                 return_io (Err (Some source))))))))"

section \<open>Graceful cleanup\<close>

datatype graceful_shutdown_failure =
    CleanupContained firmware_auto_restoration_error emergency_containment_report
  | CleanupCritical firmware_auto_restoration_error emergency_containment_report

type_synonym cleanup_result = "(graceful_shutdown_failure, unit) outcome"

definition cleanup_result_of :: "firmware_auto_safing_outcome \<Rightarrow> cleanup_result" where
  "cleanup_result_of s =
     (case s of
        SafingRestored \<Rightarrow> Ok ()
      | SafingContained restoration containment \<Rightarrow> Err (CleanupContained restoration containment)
      | SafingCritical restoration containment \<Rightarrow> Err (CleanupCritical restoration containment))"

text \<open>The controller's state is the cleanup result it has already produced, beside the latch of the world.\<close>

definition shutdown_cleanup ::
  "('p, 'l) platform_ops \<Rightarrow> acer_hwmon_device
     \<Rightarrow> (cleanup_result option \<times> ('p, 'l, 's) world, graceful_shutdown_failure, unit) io" where
  "shutdown_cleanup P dev =
     try_io (on_snd shutdown_request) (\<lambda>_.
     try_io get_fst (\<lambda>cleanup.
       case cleanup of
         Some result \<Rightarrow> return_io result
       | None \<Rightarrow>
           try_io (on_snd (restore_or_contain_firmware_auto P dev)) (\<lambda>safing.
           (let result = cleanup_result_of safing
            in try_io (modify_fst (\<lambda>_. Some result)) (\<lambda>_. return_io result)))))"

section \<open>The owner's invariant\<close>

lemma wp_get_io [io_simps]: "wp (get_io f) Q s = Q (Ok (f s)) s"
  by (simp add: wp_def get_io_def)

definition owner_safe ::
  "('p \<Rightarrow> bool) \<Rightarrow> ('p \<Rightarrow> path \<Rightarrow> string option) \<Rightarrow> ('p, 'l, 's) world \<Rightarrow> bool" where
  "owner_safe sound content w =
     (sound (platform w)
      \<and> (restoration_confirmed w \<longrightarrow>
           (\<exists>dev. device_ok dev \<and> in_firmware_auto dev (content (platform w)) \<and> \<not> foreign_device dev w)))"

text \<open>
  The sources are given the clock only: they leave the fan files alone and do not turn it back.
\<close>

definition passive_sources ::
  "('p \<Rightarrow> bool) \<Rightarrow> ('p \<Rightarrow> path \<Rightarrow> string option) \<Rightarrow> ('p, 's) sample_sources \<Rightarrow> bool" where
  "passive_sources sound content S \<longleftrightarrow>
     (\<forall>c s p. sound p \<longrightarrow>
        wp (sample_cpu S c) (\<lambda>_ sp. sound (snd sp) \<and> content (snd sp) = content p) (s, p)
      \<and> wp (sample_gpu S c) (\<lambda>_ sp. sound (snd sp) \<and> content (snd sp) = content p) (s, p)
      \<and> wp (observe_external_power_op S c) (\<lambda>_ sp. sound (snd sp) \<and> content (snd sp) = content p) (s, p))"

definition same_owner ::
  "('p \<Rightarrow> bool) \<Rightarrow> ('p \<Rightarrow> path \<Rightarrow> string option) \<Rightarrow> ('p, 'l, 's) world \<Rightarrow> ('p, 'l, 's) world \<Rightarrow> bool" where
  "same_owner sound content w w' =
     (sound (platform w) \<longrightarrow> sound (platform w') \<and> content (platform w') = content (platform w)
        \<and> restoration_confirmed w' = restoration_confirmed w \<and> controlled_device w' = controlled_device w)"

lemma same_owner_transp: "transp (same_owner sound content)"
  by (auto intro!: transpI simp: same_owner_def)

lemma same_owner_refl [simp]: "same_owner sound content w w"
  by (simp add: same_owner_def)

lemma same_owner_trivial: "\<not> sound (platform w) \<Longrightarrow> wp m (\<lambda>_. same_owner sound content w) w"
  by (auto simp: wp_def same_owner_def split: prod.splits)

lemma same_owner_safe: "same_owner sound content w w' \<Longrightarrow> owner_safe sound content w \<Longrightarrow> owner_safe sound content w'"
  by (auto simp: same_owner_def owner_safe_def foreign_device_def)

lemma ran_to_fields:
  assumes "ran_to sound now w w'"
  shows "restoration_confirmed w' = restoration_confirmed w" "controlled_device w' = controlled_device w"
    "ownership_id w' = ownership_id w" "sampling_epoch w' = sampling_epoch w" "own_lock w' = own_lock w"
    "source_state w' = source_state w" "latch w' = latch w" "signals w' = signals w"
    "sampling_epoch_started w' = sampling_epoch_started w" "foreign_device dev w' = foreign_device dev w"
proof -
  have e: "w' = w\<lparr>platform := platform w', journal := journal w'\<rparr>" using assms by (simp add: ran_to_def)
  show "restoration_confirmed w' = restoration_confirmed w" "controlled_device w' = controlled_device w"
    "ownership_id w' = ownership_id w" "sampling_epoch w' = sampling_epoch w" "own_lock w' = own_lock w"
    "source_state w' = source_state w" "latch w' = latch w" "signals w' = signals w"
    "sampling_epoch_started w' = sampling_epoch_started w" "foreign_device dev w' = foreign_device dev w"
    by (subst e, simp add: foreign_device_def)+
qed

lemma invalidate_spec:
  "wp invalidate_firmware_auto_epoch (\<lambda>r w'. (r = Ok () \<or> r = Panic) \<and> platform w' = platform w
     \<and> \<not> restoration_confirmed w' \<and> controlled_device w' = controlled_device w) w"
  by (auto simp: invalidate_firmware_auto_epoch_def io_simps reset_sampling_epoch_def wp_def split: option.splits)

context fan_platform
begin

lemma collect_same_owner:
  assumes "passive_sources sound content S"
  shows "wp (collect_complete_set P S cycle prev) (\<lambda>_. same_owner sound content w) w"
proof -
  have now: "wp (now_io P) (\<lambda>_. same_owner sound content w1) w1" for w1 :: "('p, 'l, 'x) world"
  proof (cases "sound (platform w1)")
    case True
    show ?thesis
      by (rule wp_mono [OF now_io_spec [OF True]]) (auto simp: same_owner_def ran_to_fields dest: ran_to_sound)
  qed (rule same_owner_trivial)
  have src: "wp (map_err_io f (on_sources m)) (\<lambda>_. same_owner sound content w1) w1"
    if "\<And>s p. sound p \<Longrightarrow> wp m (\<lambda>_ sp. sound (snd sp) \<and> content (snd sp) = content p) (s, p)"
    for f m and w1 :: "('p, 'l, 'x) world"
  proof (cases "sound (platform w1)")
    case True
    show ?thesis
      unfolding wp_map_err_io wp_on_sources
      by (rule wp_mono [OF that [OF True]]) (use True in \<open>auto simp: same_owner_def\<close>)
  qed (rule same_owner_trivial)
  have ret: "wp (return_io r) (\<lambda>_. same_owner sound content w1) w1" for r w1 by (simp add: wp_return)
  note p = assms [unfolded passive_sources_def, rule_format]
  show ?thesis
    unfolding collect_complete_set_def Let_def
    by (intro wp_try_rel [OF same_owner_transp] now ret src) (use p in auto)
qed

lemma fresh_gate_same_owner:
  assumes "passive_sources sound content S"
  shows "wp (fresh_gate_sample P S) (\<lambda>_ gw. same_owner sound content w (snd gw)) (g, w)"
proof -
  have c: "wp (collect_complete_set P S cycle prev) (\<lambda>_. same_owner sound content w) w" for cycle prev
    by (rule collect_same_owner [OF assms])
  show ?thesis
    unfolding fresh_gate_sample_def Let_def or_reset_def
    by (cases "word_checked_add (sg_next_cycle_id g) 1"; cases "sg_last_started g")
      (auto simp: wp_try_io wp_get_fst wp_modify_fst wp_return wp_catch_io wp_on_snd
        intro!: wp_mono [OF c] split: outcome.splits)
qed

lemma refresh_spec:
  assumes "device_ok dev" "owner_safe sound content w"
  shows "wp (refresh_firmware_auto_confirmation P dev)
    (\<lambda>r w'. r \<noteq> Panic \<longrightarrow> owner_safe sound content w' \<and> content (platform w') = content (platform w)
       \<and> (\<exists>b. r = Ok b \<and> (restoration_confirmed w' \<longleftrightarrow> b)
              \<and> (b \<longrightarrow> in_firmware_auto dev (content (platform w')) \<and> \<not> foreign_device dev w'))) w"
    (is "wp _ ?Q w")
proof -
  have s: "sound (platform w)" using assms(2) by (simp add: owner_safe_def)
  have inv: "wp (try_io invalidate_firmware_auto_epoch (\<lambda>_. return_io (Ok b))) ?Q w1"
    if "sound (platform w1)" "content (platform w1) = content (platform w)" "\<not> b" for w1 b
    by (rule wp_try [OF invalidate_spec]) (use that in \<open>auto simp: wp_return owner_safe_def\<close>)
  have p: "enable_path (dev_cpu dev) \<in> set (device_paths dev)" "enable_path (dev_gpu dev) \<in> set (device_paths dev)"
    by simp_all
  have rd: "wp (try_io (catch_io (read_bound P dev (enable_path (dev_cpu dev)) dl)) (\<lambda>c.
      try_io (catch_io (read_bound P dev (enable_path (dev_gpu dev)) dl)) (\<lambda>g.
        if \<not> (reads_firmware_auto c \<and> reads_firmware_auto g)
        then try_io invalidate_firmware_auto_epoch (\<lambda>_. return_io (Ok (reads_firmware_auto c \<and> reads_firmware_auto g)))
        else return_io (Ok (reads_firmware_auto c \<and> reads_firmware_auto g))))) ?Q w1"
    if w1: "ran_to sound now w w1" "content (platform w1) = content (platform w)"
      "restoration_confirmed w" "\<not> foreign_device dev w" for w1 dl
  proof (rule wp_try [OF wp_catch [OF read_bound_spec [OF assms(1) p(1) ran_to_sound [OF w1(1)]]]], goal_cases)
    case (1 c w2)
    then have w2: "ran_to sound now w w2" "content (platform w2) = content (platform w)"
      "reads_firmware_auto c \<longrightarrow> (\<exists>v. content (platform w) (enable_path (dev_cpu dev)) = Some v \<and> trim v = firmware_auto)"
      using w1(1,2) by (auto simp: reads_firmware_auto_def intro: ran_to_trans split: sum.splits)
    show ?case
    proof (rule wp_try [OF wp_catch [OF read_bound_spec [OF assms(1) p(2) ran_to_sound [OF w2(1)]]]], goal_cases)
      case (1 g w3)
      then have w3: "ran_to sound now w w3" "content (platform w3) = content (platform w)"
        "reads_firmware_auto g \<longrightarrow> (\<exists>v. content (platform w) (enable_path (dev_gpu dev)) = Some v \<and> trim v = firmware_auto)"
        using w2(1,2) by (auto simp: reads_firmware_auto_def intro: ran_to_trans split: sum.splits)
      show ?case
      proof (cases "reads_firmware_auto c \<and> reads_firmware_auto g")
        case True
        then have "in_firmware_auto dev (content (platform w3))" "\<not> foreign_device dev w3"
          using w2(3) w3 w1(4) by (auto simp: in_firmware_auto_def enable_paths_def ran_to_fields(10))
        then show ?thesis using True w3 w1(3) assms(1)
          by (auto simp: wp_return owner_safe_def ran_to_fields(1) dest: ran_to_sound)
      next
        case False
        then show ?thesis unfolding if_P [OF False] by (rule inv [OF ran_to_sound [OF w3(1)] w3(2)])
      qed
    qed (auto split: outcome.splits)
  qed (auto split: outcome.splits)
  show ?thesis
    unfolding refresh_firmware_auto_confirmation_def wp_try_io [of "get_io _"] wp_get_io outcome.case
  proof (cases "\<not> restoration_confirmed w")
    case False
    then have c: "restoration_confirmed w" by simp
    have "wp (try_io (now_io P) (\<lambda>t. (let deadline = duration_saturating_add t normal_sample_cadence in
         try_io (catch_io (read_bound P dev (enable_path (dev_cpu dev)) deadline)) (\<lambda>c.
         try_io (catch_io (read_bound P dev (enable_path (dev_gpu dev)) deadline)) (\<lambda>g.
         (let confirmed = (reads_firmware_auto c \<and> reads_firmware_auto g)
          in if \<not> confirmed
             then try_io invalidate_firmware_auto_epoch (\<lambda>_. return_io (Ok confirmed))
             else return_io (Ok confirmed))))))) ?Q w" if "\<not> foreign_device dev w"
      unfolding Let_def
    proof (rule wp_try [OF now_io_spec [OF s]], goal_cases)
      case (1 t w1)
      then show ?case by (intro rd) (use c that in auto)
    qed auto
    then show "wp (if \<not> restoration_confirmed w then return_io (Ok False)
      else if foreign_device dev w then try_io invalidate_firmware_auto_epoch (\<lambda>_. return_io (Ok False))
      else try_io (now_io P) (\<lambda>t. (let deadline = duration_saturating_add t normal_sample_cadence in
         try_io (catch_io (read_bound P dev (enable_path (dev_cpu dev)) deadline)) (\<lambda>c.
         try_io (catch_io (read_bound P dev (enable_path (dev_gpu dev)) deadline)) (\<lambda>g.
         (let confirmed = (reads_firmware_auto c \<and> reads_firmware_auto g)
          in if \<not> confirmed
             then try_io invalidate_firmware_auto_epoch (\<lambda>_. return_io (Ok confirmed))
             else return_io (Ok confirmed))))))) ?Q w"
      using c inv [OF s refl, of False] by simp
  qed (use assms(2) in \<open>simp add: wp_return\<close>)
qed

lemma collect_fresh_safe:
  assumes "device_ok dev" "passive_sources sound content S" "owner_safe sound content w"
  shows "wp (collect_fresh_sample P S dev)
    (\<lambda>r gw. r \<noteq> Panic \<longrightarrow> owner_safe sound content (snd gw)
       \<and> ((\<exists>e. r = Err e) \<longrightarrow> \<not> restoration_confirmed (snd gw))
       \<and> ((\<exists>x. r = Ok x) \<longrightarrow> restoration_confirmed (snd gw) \<and> in_firmware_auto dev (content (platform (snd gw))))) (g, w)"
    (is "wp _ ?Q _")
proof -
  have inv: "wp (try_io (on_snd invalidate_firmware_auto_epoch) (\<lambda>_. return_io (Err e))) ?Q gw"
    if "sound (platform (snd gw))" for e gw
    unfolding wp_try_io wp_on_snd
    by (rule wp_mono [OF invalidate_spec]) (use that in \<open>auto simp: owner_safe_def wp_return split: outcome.splits\<close>)
  have smp: "wp (try_io (catch_io (fresh_gate_sample P S)) (\<lambda>r.
       case r of
         Inr AwaitingSecondSample \<Rightarrow> return_io (Ok OwnershipAwaitingSecondSample)
       | Inr (Ready sample) \<Rightarrow>
           try_io (on_snd (get_io (\<lambda>w. (ownership_id w, sampling_epoch w)))) (\<lambda>(i, epoch).
             return_io (Ok (OwnershipReady \<lparr>ars_sample = sample, ars_ownership_id = i, ars_sampling_epoch = epoch\<rparr>)))
       | Inl error \<Rightarrow> try_io (on_snd invalidate_firmware_auto_epoch) (\<lambda>_. return_io (Err error)))) ?Q (g1, w1)"
    if w1: "owner_safe sound content w1" "restoration_confirmed w1" "in_firmware_auto dev (content (platform w1))" for g1 w1
  proof (rule wp_try [OF wp_catch [OF fresh_gate_same_owner [OF assms(2), where g = g1 and w = w1]]], goal_cases)
    case (1 x gw)
    then have so: "same_owner sound content w1 (snd gw)" by (auto split: sum.splits)
    then have safe: "owner_safe sound content (snd gw)" using same_owner_safe w1(1) by blast
    have rest: "restoration_confirmed (snd gw)" "content (platform (snd gw)) = content (platform w1)"
      using so w1 by (auto simp: same_owner_def owner_safe_def)
    have so2: "sound (platform (snd gw))" using safe by (simp add: owner_safe_def)
    show ?case
      using safe rest w1(3) inv [OF so2]
      by (auto simp: wp_return wp_try_io [of "on_snd (get_io _)"] wp_on_snd wp_get_io split: sum.splits sample_readiness.splits)
  qed (auto split: outcome.splits)
  have started: "wp (if \<not> b then try_io (modify_fst gate_reset) (\<lambda>_. on_snd (modify_io (\<lambda>w. w\<lparr>sampling_epoch_started := True\<rparr>)))
       else return_io (Ok ())) (\<lambda>r gw. r = Ok () \<and> owner_safe sound content (snd gw) \<and> restoration_confirmed (snd gw)
         \<and> in_firmware_auto dev (content (platform (snd gw)))) gw"
    if "owner_safe sound content (snd gw)" "restoration_confirmed (snd gw)" "in_firmware_auto dev (content (platform (snd gw)))"
    for gw :: "sample_gate \<times> ('p, 'l, 'x) world" and b
    using that by (auto simp: io_simps owner_safe_def foreign_device_def)
  show ?thesis
    unfolding collect_fresh_sample_def wp_try_io [of "on_snd (refresh_firmware_auto_confirmation _ _)"] wp_on_snd fst_conv snd_conv
  proof (rule wp_mono [OF refresh_spec [OF assms(1,3)]], goal_cases)
    case (1 r w1)
    show ?case
    proof (cases "r = Ok True")
      case True
      with 1 have w1: "owner_safe sound content w1" "restoration_confirmed w1" "in_firmware_auto dev (content (platform w1))" by auto
      show ?thesis
        unfolding True outcome.case not_True_eq_False if_False wp_try_io [of "on_snd (get_io _)"] wp_on_snd wp_get_io
          fst_conv snd_conv
      proof (rule wp_try [OF started], goal_cases)
        case (4 u gw)
        then show ?case by (cases gw) (use smp in auto)
      qed (use w1 in auto)
    qed (use 1 in \<open>auto simp: io_simps split: outcome.splits\<close>)
  qed
qed

lemma owned_restore_safe:
  assumes "device_ok dev" "sound (platform w)"
  shows "wp (owned_restore_firmware_auto P dev)
    (\<lambda>r w'. r \<noteq> Panic \<longrightarrow> owner_safe sound content w' \<and> (restoration_confirmed w' \<longleftrightarrow> r = Ok ())
       \<and> (r = Ok () \<longrightarrow> in_firmware_auto dev (content (platform w')))
       \<and> only_stored (enable_paths dev) firmware_auto (content (platform w)) (content (platform w'))) w"
  unfolding owned_restore_firmware_auto_def
proof (rule wp_try [OF invalidate_spec], goal_cases)
  case (1 x w1)
  have s1: "sound (platform w1)" using 1 assms(2) by simp
  show ?case
  proof (rule wp_try [OF restore_spec [OF assms(1) s1]], goal_cases)
    case (1 y w2)
    then show ?case
      using assms(1) \<open>(Ok x = Ok () \<or> _) \<and> _\<close>
      by (auto simp: io_simps owner_safe_def ran_to_fields foreign_device_def dest: ran_to_sound split: option.splits)
  next
    case (2 e w2)
    then show ?case
      using \<open>(Ok x = Ok () \<or> _) \<and> _\<close> by (auto simp: owner_safe_def ran_to_fields dest: ran_to_sound)
  qed auto
qed auto

lemma owned_contain_safe:
  assumes "device_ok dev" "sound (platform w)"
  shows "wp (owned_contain_custom_fans_at_maximum P dev)
    (\<lambda>r w'. r \<noteq> Panic \<longrightarrow> owner_safe sound content w'
       \<and> (\<exists>rep. r = Ok rep \<and> (restoration_confirmed w' \<longrightarrow> report_restoration_confirmed rep)
            \<and> fan_contained (dev_cpu dev) (content (platform w')) (ecr_cpu rep)
            \<and> fan_contained (dev_gpu dev) (content (platform w')) (ecr_gpu rep))
       \<and> only_stored (pwm_paths dev) maximum_pwm (content (platform w)) (content (platform w'))) w"
  unfolding owned_contain_custom_fans_at_maximum_def
proof (rule wp_try [OF invalidate_spec], goal_cases)
  case (1 x w1)
  have s1: "sound (platform w1)" using 1 assms(2) by simp
  show ?case
  proof (rule wp_try [OF contain_spec [OF assms(1) s1]], goal_cases)
    case (1 rep w2)
    then show ?case
      using assms(1) \<open>(Ok x = Ok () \<or> _) \<and> _\<close>
      by (auto simp: io_simps owner_safe_def containment_effect_def foreign_device_def
          dest: ran_to_sound contained_auto split: option.splits)
  qed (auto simp: containment_effect_def)
qed auto

lemma safing_safe:
  assumes "device_ok dev" "sound (platform w)"
  shows "wp (restore_or_contain_firmware_auto P dev)
    (\<lambda>r w'. r \<noteq> Panic \<longrightarrow> owner_safe sound content w'
       \<and> safing_writes dev (content (platform w)) (content (platform w'))
       \<and> (\<exists>out. r = Ok out \<and> (restoration_confirmed w' \<longleftrightarrow> (\<forall>e rep. out \<noteq> SafingCritical e rep)))) w"
  unfolding restore_or_contain_firmware_auto_def
proof (rule wp_try [OF wp_catch [OF owned_restore_safe [OF assms]]], goal_cases)
  case (1 x w1)
  show ?case
  proof (cases x)
    case (Inl e)
    then have w1: "owner_safe sound content w1" "sound (platform w1)"
      "safing_writes dev (content (platform w)) (content (platform w1))"
      using 1 by (auto simp: owner_safe_def intro: only_stored_safing)
    show ?thesis
      unfolding Inl sum.case
    proof (rule wp_try [OF owned_contain_safe [OF assms(1) w1(2)]], goal_cases)
      case (1 rep w2)
      then show ?case using w1(3)
        by (auto simp: wp_try_io wp_get_io wp_return intro: safing_writes_trans only_stored_safing)
    qed auto
  qed (use 1 in \<open>auto simp: wp_return intro: only_stored_safing\<close>)
qed (auto split: outcome.splits)

lemma owned_recover_safe:
  assumes "device_ok dev" "sound (platform w)" "owned_recover_firmware_auto P dev w = Some (r :: ('e, unit) outcome, w')" "r \<noteq> Panic"
  shows "owner_safe sound content w' \<and> in_firmware_auto dev (content (platform w'))"
proof -
  obtain r1 :: "('e, unit) outcome" and w1 where i: "invalidate_firmware_auto_epoch w = (r1, w1)" by fastforce
  have w1: "r1 = Ok () \<or> r1 = Panic" "sound (platform w1)"
    using wp_eqD [OF invalidate_spec i] assms(2) by auto
  show ?thesis
  proof (cases r1)
    case (Ok u)
    obtain r2 :: "('e, unit) outcome" and w2 where r: "recover_firmware_auto P dev w1 = Some (r2, w2)"
      using assms(3) i Ok
      by (cases "recover_firmware_auto P dev w1 :: (('e, unit) outcome \<times> _) option") (auto simp: owned_recover_firmware_auto_def)
    note sp = recover_spec [OF r assms(1) w1(2)]
    then have "w' = w2\<lparr>restoration_confirmed := \<not> foreign_device dev w2\<rparr>"
      using assms(3) i Ok r by (simp add: owned_recover_firmware_auto_def)
    then show ?thesis using sp assms(1) by (auto simp: owner_safe_def foreign_device_def dest: ran_to_sound)
  qed (use assms(3,4) i w1(1) in \<open>auto simp: owned_recover_firmware_auto_def\<close>)
qed

end

section \<open>Everything an owner can do\<close>

text \<open>
  The states an owner reaches: any of its operations on any bound device, in any order, and between
  them arbitrary changes of the platform as long as no restoration is confirmed, which is what the
  writes of arming and of the control cycle are.
\<close>

inductive owner_reaches ::
  "('p, 'l) platform_ops \<Rightarrow> ('p, 's) sample_sources \<Rightarrow> ('p \<Rightarrow> bool) \<Rightarrow> ('p, 'l, 's) world \<Rightarrow> bool"
  for P :: "('p, 'l) platform_ops" and S :: "('p, 's) sample_sources" and sound :: "'p \<Rightarrow> bool" where
  acquired: "acquire_controller_ownership P w = (Ok (), w') \<Longrightarrow> sound (platform w') \<Longrightarrow> owner_reaches P S sound w'"
| restored: "owner_reaches P S sound w \<Longrightarrow> device_ok dev \<Longrightarrow> owned_restore_firmware_auto P dev w = (r, w') \<Longrightarrow> r \<noteq> Panic
     \<Longrightarrow> owner_reaches P S sound w'"
| contained: "owner_reaches P S sound w \<Longrightarrow> device_ok dev
     \<Longrightarrow> (owned_contain_custom_fans_at_maximum P dev :: (_, unit, _) io) w = (c, w') \<Longrightarrow> c \<noteq> Panic
     \<Longrightarrow> owner_reaches P S sound w'"
| recovered: "owner_reaches P S sound w \<Longrightarrow> device_ok dev
     \<Longrightarrow> owned_recover_firmware_auto P dev w = Some (v :: (unit, unit) outcome, w') \<Longrightarrow> v \<noteq> Panic
     \<Longrightarrow> owner_reaches P S sound w'"
| began_custom: "owner_reaches P S sound w \<Longrightarrow> (begin_custom_transition dev :: (_, unit, _) io) w = (Ok epoch, w')
     \<Longrightarrow> owner_reaches P S sound w'"
| wrote_custom: "owner_reaches P S sound w \<Longrightarrow> \<not> restoration_confirmed w \<Longrightarrow> sound p
     \<Longrightarrow> owner_reaches P S sound (w\<lparr>platform := p\<rparr>)"
| sampled: "owner_reaches P S sound w \<Longrightarrow> device_ok dev \<Longrightarrow> collect_fresh_sample P S dev (g, w) = (q, (g', w')) \<Longrightarrow> q \<noteq> Panic
     \<Longrightarrow> owner_reaches P S sound w'"

lemma acquire_fields:
  assumes "acquire_controller_ownership P w = (Ok (), w')"
  shows "\<not> restoration_confirmed w' \<and> sampling_epoch w' = 0 \<and> controlled_device w' = None \<and> own_lock w' \<noteq> None"
proof -
  have "wp (acquire_controller_ownership P) (\<lambda>r w'. \<forall>y. r = Ok y \<longrightarrow>
     \<not> restoration_confirmed w' \<and> sampling_epoch w' = 0 \<and> controlled_device w' = None \<and> own_lock w' \<noteq> None) w"
    unfolding acquire_controller_ownership_def
  proof (intro wp_try_final, goal_cases)
    case (1 _ _ _ _ rejected)
    show ?case
      by (cases rejected; simp only: sum.case; intro wp_try_final; simp add: wp_return wp_modify_io)
  qed
  from wp_eqD [OF this assms] show ?thesis by simp
qed

lemma begin_custom_fields:
  "begin_custom_transition dev w = (Ok epoch, w') \<Longrightarrow> \<not> restoration_confirmed w' \<and> platform w' = platform w
     \<and> controlled_device w' = Some (backing_identity dev) \<and> sampling_epoch w' = epoch \<and> ownership_id w' = ownership_id w
     \<and> unat epoch = unat (sampling_epoch w) + 1"
  using unat_word_checked_add [of "sampling_epoch w" 1]
  by (auto simp: begin_custom_transition_def modify_io_def get_io_def reset_sampling_epoch_def split: option.splits)

lemma owner_reaches_safe:
  assumes "fan_platform P sound content now" "passive_sources sound content S" "owner_reaches P S sound w"
  shows "owner_safe sound content w"
  using assms(3)
proof (induction rule: owner_reaches.induct)
  case (acquired w w')
  then show ?case using acquire_fields [OF acquired(1)] by (simp add: owner_safe_def)
next
  case (restored w dev r w')
  then have "sound (platform w)" by (simp add: owner_safe_def)
  from wp_eqD [OF fan_platform.owned_restore_safe [OF assms(1) restored(2) this] restored(3)] show ?case
    using restored(4) by blast
next
  case (contained w dev c w')
  then have "sound (platform w)" by (simp add: owner_safe_def)
  from wp_eqD [OF fan_platform.owned_contain_safe [OF assms(1) contained(2) this] contained(3)] show ?case
    using contained(4) by blast
next
  case (recovered w dev v w')
  then have "sound (platform w)" by (simp add: owner_safe_def)
  from fan_platform.owned_recover_safe [OF assms(1) recovered(2) this recovered(3,4)] show ?case by blast
next
  case (began_custom w dev epoch w')
  then show ?case using begin_custom_fields [OF began_custom(2)] by (simp add: owner_safe_def)
next
  case (wrote_custom w p)
  then show ?case by (simp add: owner_safe_def)
next
  case (sampled w dev g q g' w')
  from wp_eqD [OF fan_platform.collect_fresh_safe [OF assms(1) sampled(2) assms(2) sampled(5)] sampled(3)] show ?case
    using sampled(4) by auto
qed

section \<open>A concrete owner\<close>

lemma sample_acquired:
  "\<exists>w'. acquire_controller_ownership fake_ops (sample_world []) = (Ok (), w') \<and> quiet (platform w') \<and> own_lock w' \<noteq> None"
proof -
  have svc: "on_platform (is_service_active fake_ops s) w =
      (Err (platform_error_new NotFound (''service does not exist: '' @ s)), w\<lparr>platform := (platform w)\<lparr>operations := operations (platform w) @ [OpServiceStatus s]\<rparr>\<rparr>)"
    if "steps (platform w) = []" "services (platform w) = []" for s and w :: "(fake_platform, fake_runtime_lock, unit) world"
    using that by (simp add: on_platform_def fake_ops_def fake_is_service_active_def try_io_def log_operation_def modify_io_def
        apply_next_step_def inspect_io_def)
  have rej: "\<exists>ops. reject_services fake_ops ss w = (Ok (), w\<lparr>platform := (platform w)\<lparr>operations := ops\<rparr>\<rparr>)"
    if "steps (platform w) = []" "services (platform w) = []" for ss and w :: "(fake_platform, fake_runtime_lock, unit) world"
    using that
  proof (induction ss arbitrary: w)
    case Nil
    then show ?case by (auto simp: return_io_def intro: exI [of _ "operations (platform w)"])
  next
    case (Cons s ss)
    let ?w = "w\<lparr>platform := (platform w)\<lparr>operations := operations (platform w) @ [OpServiceStatus s]\<rparr>\<rparr>"
    obtain ops where "reject_services fake_ops ss ?w = (Ok (), ?w\<lparr>platform := (platform ?w)\<lparr>operations := ops\<rparr>\<rparr>)"
      using Cons.IH [of ?w] Cons.prems by auto
    then show ?case using svc [OF Cons.prems, of s]
      by (auto simp: try_io_def catch_io_def platform_error_new_def)
  qed
  define w where "w = (sample_world [] :: (fake_platform, fake_runtime_lock, unit) world)"
  have w: "steps (platform w) = []" "services (platform w) = []" "runtime_lock_steps (platform w) = []"
    "runtime_lock_backend (platform w) = fake_runtime_lock_backend_new 0" "next_ownership_id w = 0" "quiet (platform w)"
    using sample_quiet [of "[]"]
    by (simp_all add: w_def sample_world_def world_of_def sample_platform_def fake_new_def)
  obtain ops where r1: "reject_competing_services fake_ops w = (Ok (), w\<lparr>platform := (platform w)\<lparr>operations := ops\<rparr>\<rparr>)"
    using rej [OF w(1,2)] unfolding reject_competing_services_def by blast
  let ?w1 = "w\<lparr>platform := (platform w)\<lparr>operations := ops\<rparr>\<rparr>"
  obtain lock w2 where l: "on_platform (try_acquire_root_runtime_lock fake_ops runtime_lock_path) ?w1 = (Ok lock, w2)"
    "steps (platform w2) = []" "services (platform w2) = []" "quiet (platform w2)" "next_ownership_id w2 = 0"
    using w by (simp add: on_platform_def fake_ops_def fake_try_acquire_root_runtime_lock_def try_io_def log_operation_def
        modify_io_def map_err_io_def apply_next_runtime_lock_step_def apply_next_step_def fake_runtime_lock_backend_new_def
        Let_def quiet_def)
  obtain ops2 where r2: "reject_competing_services fake_ops w2 = (Ok (), w2\<lparr>platform := (platform w2)\<lparr>operations := ops2\<rparr>\<rparr>)"
    using rej [OF l(2,3)] unfolding reject_competing_services_def by blast
  show ?thesis
    using r1 l r2
    by (simp add: acquire_controller_ownership_def try_io_def inspect_err_io_def catch_io_def map_err_io_def return_io_def
        next_ownership_id_io_def word_checked_add_def modify_io_def w_def)
qed

lemma constant_passive: "passive_sources quiet file_contents (constant_sources tc tg pw)"
  by (simp add: passive_sources_def constant_sources_def constant_source_def capture_def fake_ops_def fake_monotonic_now_def wp_def)

section \<open>Properties\<close>

text \<open>
  C2. Whatever sequence of operations an owner went through, with arbitrary custom writes in
  between, the runtime lock is given back only in a state where a bound device is in Firmware Auto
  on both fans, and that device is the controlled one if there is one. When the release is refused
  or fails, the owner still holds a lock.
\<close>

theorem release_only_in_firmware_auto:
  assumes "fan_platform P sound content now" "passive_sources sound content S" "owner_reaches P S sound w"
    "release_ownership P w = (r, w')" "own_lock w \<noteq> None"
  shows "(r = Ok () \<longrightarrow> own_lock w' = None
        \<and> (\<exists>dev. device_ok dev \<and> in_firmware_auto dev (content (platform w))
             \<and> (\<forall>i. controlled_device w = Some i \<longrightarrow> backing_identity dev = i)))
    \<and> (\<forall>e. r = Err e \<longrightarrow> own_lock w' \<noteq> None)"
proof -
  obtain lock where l: "own_lock w = Some lock" using assms(5) by blast
  have safe: "owner_safe sound content w" by (rule owner_reaches_safe [OF assms(1-3)])
  have rel: "release_ownership P w = (if \<not> restoration_confirmed w then (Err None, w)
      else case on_platform (release_runtime_lock P lock) (w\<lparr>own_lock := None\<rparr>) of
          (Ok _, w1) \<Rightarrow> (Ok (), w1)
        | (Err (l', source), w1) \<Rightarrow> (Err (Some source), w1\<lparr>own_lock := Some l'\<rparr>)
        | (Panic, w1) \<Rightarrow> (Panic, w1))"
    by (auto simp: release_ownership_def try_io_def get_io_def return_io_def modify_io_def catch_io_def l
        split: outcome.splits prod.splits)
  have plat: "own_lock w1 = own_lock w0" if "on_platform m w0 = (x, w1)"
    for m :: "'a \<Rightarrow> ('b \<times> platform_error, unit) outcome \<times> 'a" and x w0 w1
    using that by (auto simp: on_platform_def split: prod.splits)
  show ?thesis
    using assms(4) safe l unfolding rel
    by (auto simp: owner_safe_def foreign_device_def dest!: plat split: if_splits prod.splits outcome.splits option.splits)
qed

theorem release_only_in_firmware_auto_witness:
  "\<exists>w r w'. owner_reaches fake_ops warm_sources quiet w \<and> release_ownership fake_ops w = (r, w')
     \<and> r \<noteq> Ok () \<and> (\<forall>e. r = Err e \<longrightarrow> own_lock w' \<noteq> None)"
proof -
  obtain w where w: "acquire_controller_ownership fake_ops (sample_world []) = (Ok (), w)" "quiet (platform w)" "own_lock w \<noteq> None"
    using sample_acquired by blast
  have reach: "owner_reaches fake_ops warm_sources quiet w" by (rule owner_reaches.acquired [OF w(1)]) (rule w(2))
  obtain r w' where e: "release_ownership fake_ops w = (r, w')" by fastforce
  have "r = Err None"
    using e acquire_fields [OF w(1)] by (auto simp: release_ownership_def try_io_def get_io_def return_io_def)
  then show ?thesis
    using release_only_in_firmware_auto [OF fake.fan_platform_axioms constant_passive reach e w(3)] reach e by auto
qed

text \<open>
  A sample is reported only when the confirmation of Firmware Auto has just been renewed by
  reading both enable files, and it carries the current ownership and epoch. Any failure takes the
  confirmation back.
\<close>

lemma fresh_sample_needs_firmware_auto:
  assumes "fan_platform P sound content now" "passive_sources sound content S" "owner_reaches P S sound w"
    "device_ok dev" "collect_fresh_sample P S dev (g, w) = (r, (g', w'))"
  shows "(\<forall>x. r = Ok x \<longrightarrow> restoration_confirmed w' \<and> in_firmware_auto dev (content (platform w')))
    \<and> (\<forall>x. r = Ok (OwnershipReady x) \<longrightarrow> ars_ownership_id x = ownership_id w' \<and> ars_sampling_epoch x = sampling_epoch w')
    \<and> (\<forall>e. r = Err e \<longrightarrow> \<not> restoration_confirmed w')"
proof -
  have safe: "owner_safe sound content w" by (rule owner_reaches_safe [OF assms(1-3)])
  have "wp (collect_fresh_sample P S dev) (\<lambda>r gw. \<forall>y. r = Ok y \<longrightarrow> (\<forall>x. y = OwnershipReady x \<longrightarrow>
      ars_ownership_id x = ownership_id (snd gw) \<and> ars_sampling_epoch x = sampling_epoch (snd gw))) (g, w)"
    unfolding collect_fresh_sample_def
    by (intro wp_try_final) (auto simp: wp_return wp_try_io [of "on_snd (get_io (\<lambda>w. (_ w, _ w)))"] wp_on_snd wp_get_io
        intro!: wp_try_final split: sum.splits sample_readiness.splits)
  note ids = wp_eqD [OF this assms(5)]
  show ?thesis
    using wp_eqD [OF fan_platform.collect_fresh_safe [OF assms(1) assms(4) assms(2) safe] assms(5)] ids by auto
qed


text \<open>
  The cleanup runs once. It raises the shutdown request first; it writes nothing but Firmware
  Auto and the maximum; it succeeds only with the restoration confirmed, and it ends critically
  exactly when it is not. Every later call returns the same result and touches nothing but the
  request.
\<close>

lemma cleanup_runs_once:
  assumes "fan_platform P sound content now" "device_ok dev" "sound (platform w)"
    "shutdown_cleanup P dev (None, w) = (r, (c, w'))" "r \<noteq> Panic"
  shows "owner_safe sound content w' \<and> safing_writes dev (content (platform w)) (content (platform w'))
    \<and> c = Some r \<and> (restoration_confirmed w' \<longleftrightarrow> (\<forall>e rep. r \<noteq> Err (CleanupCritical e rep)))
    \<and> (\<forall>w2. shutdown_cleanup P dev (c, w2) = (r, (c, w2\<lparr>latch := request (latch w2)\<rparr>)))"
proof -
  let ?w = "w\<lparr>latch := request (latch w)\<rparr>"
  have s: "sound (platform ?w)" using assms(3) by simp
  obtain x w1 where x: "(restore_or_contain_firmware_auto P dev :: (_, graceful_shutdown_failure, _) io) ?w = (x, w1)" by fastforce
  note sp = wp_eqD [OF fan_platform.safing_safe [OF assms(1,2) s] x]
  have run: "shutdown_cleanup P dev (None, w) = (case x of
      Ok out \<Rightarrow> (cleanup_result_of out, (Some (cleanup_result_of out), w1)) | Err e \<Rightarrow> (Err e, (None, w1)) | Panic \<Rightarrow> (Panic, (None, w1)))"
    using x by (cases x) (auto simp: shutdown_cleanup_def try_io_def on_snd_def shutdown_request_def modify_io_def get_fst_def
      Let_def modify_fst_def return_io_def)
  have np: "x \<noteq> Panic" using run assms(4,5) by auto
  then obtain out where out: "x = Ok out" "r = cleanup_result_of out" "c = Some r" "w' = w1"
    using sp run assms(4) by auto
  have again: "shutdown_cleanup P dev (Some r, w2) = (r, (Some r, w2\<lparr>latch := request (latch w2)\<rparr>))" for w2
    by (simp add: shutdown_cleanup_def try_io_def on_snd_def shutdown_request_def modify_io_def get_fst_def return_io_def)
  have crit: "(\<forall>e rep. r \<noteq> Err (CleanupCritical e rep)) \<longleftrightarrow> (\<forall>e rep. out \<noteq> SafingCritical e rep)"
    by (cases out) (auto simp: out(2) cleanup_result_of_def)
  show ?thesis using sp np out again crit by auto
qed

section \<open>Acquisition leaves no lock behind\<close>

lemma reject_services_inactive:
  "reject_services P ss w = (Ok (), w') \<Longrightarrow> s \<in> set ss \<Longrightarrow>
     \<exists>p r. fst (is_service_active P s p) = r \<and> (r = Ok False \<or> (\<exists>e. r = Err e \<and> pe_kind e = NotFound))"
proof (induction ss arbitrary: w)
  case (Cons t ss)
  obtain r w1 where t: "on_platform (is_service_active P t) w = (r, w1)" by fastforce
  then have ft: "fst (is_service_active P t (platform w)) = r" by (auto simp: on_platform_def split: prod.splits)
  have go: "reject_services P ss w1 = (Ok (), w')" "r = Ok False \<or> (\<exists>e. r = Err e \<and> pe_kind e = NotFound)"
    using Cons.prems(1) t by (cases r; auto simp: try_io_def catch_io_def return_io_def split: if_splits)+
  show ?case using Cons.IH [OF go(1)] Cons.prems(2) ft go(2) by auto
qed simp

lemma apply_step_locks: "runtime_lock_backend (snd (apply_step st p)) = runtime_lock_backend p"
  by (cases st) (auto simp: replace_contents_def remove_path_def Let_def split: option.splits)

lemma next_step_locks:
  "wp apply_next_step (\<lambda>_ p'. runtime_lock_backend p' = runtime_lock_backend p) p"
  "wp apply_next_runtime_lock_step (\<lambda>_ p'. runtime_lock_backend p' = runtime_lock_backend p) p"
  by (auto simp: wp_def apply_next_step_def apply_next_runtime_lock_step_def apply_step_locks split: list.splits prod.splits
      dest!: arg_cong [of _ _ "\<lambda>x. runtime_lock_backend (snd x)"])

lemma reject_locks:
  "wp (reject_services fake_ops ss) (\<lambda>_ w'. runtime_lock_backend (platform w') = runtime_lock_backend (platform w)) w"
proof (induction ss arbitrary: w)
  case (Cons s ss)
  have svc: "wp (on_platform (is_service_active fake_ops s)) (\<lambda>_ w'. runtime_lock_backend (platform w') = runtime_lock_backend (platform w)) w"
    by (auto simp: fake_ops_def fake_is_service_active_def io_simps intro!: wp_mono [OF next_step_locks(1)] split: outcome.splits)
  show ?case
    unfolding reject_services.simps
    by (rule wp_try [OF wp_catch [OF svc]])
      (auto simp: wp_return split: outcome.splits sum.splits intro!: wp_mono [OF Cons.IH])
qed (simp add: wp_return)

abbreviation backend :: "(fake_platform, 'l, 's) world \<Rightarrow> fake_runtime_lock_state" where
  "backend w \<equiv> runtime_lock_backend (platform w)"

abbreviation held :: "(fake_platform, 'l, 's) world \<Rightarrow> path \<Rightarrow> u64 option" where
  "held w \<equiv> map_of (rl_locks (backend w))"

lemma logged_lock_step:
  "wp (try_io (log_operation oper) (\<lambda>_. try_io (map_err_io h apply_next_runtime_lock_step) f)) Q p"
  if "\<And>p1. runtime_lock_backend p1 = runtime_lock_backend p \<Longrightarrow> wp (f ()) Q p1"
    "\<And>e p1. runtime_lock_backend p1 = runtime_lock_backend p \<Longrightarrow> Q (Err (h e)) p1"
    "\<And>p1. runtime_lock_backend p1 = runtime_lock_backend p \<Longrightarrow> Q Panic p1"
  unfolding wp_try_io wp_log_operation outcome.case wp_map_err_io
  by (rule wp_mono [OF next_step_locks(2)]) (auto simp: map_err_def intro: that split: outcome.splits)

lemma acquire_lock_effect:
  "wp (on_platform (try_acquire_root_runtime_lock fake_ops path)) (\<lambda>r w'. case r of
      Ok lock \<Rightarrow> held w path = None \<and> held w' = (held w)(path \<mapsto> frl_identity lock) \<and> frl_path lock = path
        \<and> frl_backend lock = rl_address (backend w')
    | _ \<Rightarrow> held w' = held w) w"
  unfolding fake_ops_def platform_ops.simps fake_try_acquire_root_runtime_lock_def wp_on_platform
  by (rule logged_lock_step) (auto simp: wp_def Let_def update_conv')

lemma release_lock_effect:
  assumes "held w (frl_path lock) = Some (frl_identity lock)" "frl_backend lock = rl_address (backend w)"
  shows "wp (on_platform (release_runtime_lock fake_ops lock)) (\<lambda>r w'. case r of
      Ok _ \<Rightarrow> held w' = (held w)(frl_path lock := None) | _ \<Rightarrow> True) w"
  unfolding fake_ops_def platform_ops.simps fake_release_runtime_lock_def wp_on_platform
  by (rule logged_lock_step) (use assms in \<open>auto simp: wp_def Let_def delete_conv'\<close>)

lemma inspect_err_effect:
  assumes "wp m R w" "\<And>r w1 js. R r w1 \<Longrightarrow> R r (w1\<lparr>journal := js\<rparr>)"
  shows "wp (inspect_err_io m (emit_fault f e)) R w"
  unfolding inspect_err_io_def
  by (rule wp_try [OF wp_catch [OF assms(1)]])
    (auto simp: io_simps intro: assms(2) split: sum.splits outcome.splits)

text \<open>
  On the scripted platform, whatever its script does to the service probes and to the lock:
  acquisition succeeds only when nobody held the lock, and then the owner's token is the one
  recorded, every competing service having been seen inactive or absent after the lock was taken. A
  failed acquisition leaves the locks as they were, unless the release itself failed, which is
  then the error reported.
\<close>

lemma acquire_takes_or_leaves_lock:
  fixes w :: "(fake_platform, fake_runtime_lock, 'x) world"
  assumes "acquire_controller_ownership fake_ops w = (r, w')"
  shows "(r = Ok () \<longrightarrow> held w runtime_lock_path = None
        \<and> (\<exists>lock. own_lock w' = Some lock \<and> held w' = (held w)(runtime_lock_path \<mapsto> frl_identity lock))
        \<and> (\<forall>s \<in> set competing_fan_control_services. \<exists>p. fst (is_service_active fake_ops s p) = Ok False
              \<or> (\<exists>e. fst (is_service_active fake_ops s p) = Err e \<and> pe_kind e = NotFound)))
    \<and> (\<forall>e. r = Err e \<and> (\<forall>x. e \<noteq> OwnershipRuntimeLock (RuntimeLockPlatform x)) \<longrightarrow> held w' = held w)"
proof -
  let ?svc = "\<forall>s \<in> set competing_fan_control_services. \<exists>p. fst (is_service_active fake_ops s p) = Ok False
      \<or> (\<exists>e. fst (is_service_active fake_ops s p) = Err e \<and> pe_kind e = NotFound)"
  let ?Q = "\<lambda>r w'. (r = Ok () \<longrightarrow> held w runtime_lock_path = None
        \<and> (\<exists>lock. own_lock w' = Some lock \<and> held w' = (held w)(runtime_lock_path \<mapsto> frl_identity lock)) \<and> ?svc)
    \<and> (\<forall>e. r = Err e \<and> (\<forall>x. e \<noteq> OwnershipRuntimeLock (RuntimeLockPlatform x)) \<longrightarrow> held w' = held w)"
  have rej: "wp (reject_competing_services fake_ops) (\<lambda>r w1. backend w1 = backend w0 \<and> (r = Ok () \<longrightarrow> ?svc)) w0"
    for w0 :: "(fake_platform, fake_runtime_lock, 'x) world"
  proof -
    obtain x w1 where x: "reject_services fake_ops competing_fan_control_services w0 = (x, w1)" by fastforce
    have "x = Ok () \<longrightarrow> ?svc" using reject_services_inactive [of fake_ops _ w0 w1] x by blast
    then show ?thesis
      using wp_eqD [OF reject_locks x] x unfolding reject_competing_services_def by (simp add: wp_def)
  qed
  have fin: "wp (try_io (catch_io (reject_competing_services fake_ops)) (\<lambda>rejected.
       case rejected of
         Inl rejection \<Rightarrow>
           try_io (emit_fault FaultOwnershipDenied None) (\<lambda>_.
           try_io (catch_io (on_platform (release_runtime_lock fake_ops lock))) (\<lambda>released.
             return_io (Err (case released of
                Inr _ \<Rightarrow> rejection
              | Inl (_, error) \<Rightarrow> OwnershipRuntimeLock (RuntimeLockPlatform error)))))
       | Inr _ \<Rightarrow>
           try_io next_ownership_id_io (\<lambda>i.
             modify_io (\<lambda>w. w\<lparr>own_lock := Some lock, ownership_id := i, controlled_device := None,
               restoration_confirmed := False, sampling_epoch_started := False, sampling_epoch := 0\<rparr>)))) ?Q w2"
    if w2: "held w runtime_lock_path = None" "held w2 = (held w)(runtime_lock_path \<mapsto> frl_identity lock)"
      "frl_path lock = runtime_lock_path" "frl_backend lock = rl_address (backend w2)"
    for lock and w2 :: "(fake_platform, fake_runtime_lock, 'x) world"
  proof (rule wp_try [OF wp_catch [OF rej [of w2]]], goal_cases)
    case (1 x w3)
    show ?case
    proof (cases x)
      case (Inl rejection)
      with 1 have b: "backend w3 = backend w2" by simp
      have undone: "(held w2)(runtime_lock_path := None) = held w" "held w2 runtime_lock_path = Some (frl_identity lock)"
        using w2(1,2) by (auto simp: fun_upd_def)
      show ?thesis
        unfolding Inl sum.case emit_fault_def wp_try_io [of "emit _"] wp_emit outcome.case
        by (rule wp_try [OF wp_catch [OF release_lock_effect]])
          (use b w2(3,4) undone in \<open>auto simp: wp_return split: sum.splits outcome.splits\<close>)
    next
      case (Inr u)
      with 1 have b: "backend w3 = backend w2" "?svc" by auto
      show ?thesis
        unfolding Inr sum.case
        by (cases "word_checked_add (next_ownership_id w3) 1")
          (use b w2 in \<open>auto simp: wp_def try_io_def next_ownership_id_io_def modify_io_def\<close>)
    qed
  qed (auto split: outcome.splits)
  have "wp (acquire_controller_ownership fake_ops) ?Q w"
    unfolding acquire_controller_ownership_def
  proof (rule wp_try [OF inspect_err_effect [OF rej [of w]]], goal_cases)
    case (2 u w1)
    then have b: "backend w1 = backend w" by simp
    show ?case
      by (rule wp_try [OF inspect_err_effect [where R = "\<lambda>r w'. case r of
          Ok lock \<Rightarrow> held w runtime_lock_path = None \<and> held w' = (held w)(runtime_lock_path \<mapsto> frl_identity lock)
            \<and> frl_path lock = runtime_lock_path \<and> frl_backend lock = rl_address (backend w')
        | _ \<Rightarrow> held w' = held w"]])
        (use b fin in \<open>auto simp: wp_map_err_io split: outcome.splits intro!: wp_mono [OF acquire_lock_effect]\<close>)
  qed auto
  from wp_eqD [OF this assms] show ?thesis .
qed

end
