(* ===== verification/Tachometer.thy ===== *)
theory Tachometer
  imports Config
begin

text \<open>
  Tachometer calibration and observation (\<open>fan-control-core/src/tachometer.rs\<close>). Integers keep
  their widths: basis points are \<open>u16\<close>, speeds \<open>u32\<close>, and the interpolation is done in \<open>u64\<close>.
  Shown here: a qualified calibration spans every PWM from the floor up, interpolation neither
  wraps nor leaves its anchors, and an observation is an error exactly when it is out of band
  after the response deadline.
\<close>

section \<open>Calibration\<close>

definition maximum_duty_basis_points :: u16 where "maximum_duty_basis_points = 10000"
definition maximum_response_deadline_millis :: u64 where "maximum_response_deadline_millis = 30000"
definition minimum_plausible_rpm :: u32 where "minimum_plausible_rpm = 100"
definition maximum_plausible_rpm :: u32 where "maximum_plausible_rpm = 20000"

record rpm_anchor =
  duty_basis_points :: u16
  median_rpm :: u32

record fan_calibration_config =
  floor_basis_points :: u16
  response_deadline_millis :: u64
  cal_anchors :: "rpm_anchor list"

record tachometer_calibration_config =
  tcc_cpu :: fan_calibration_config
  tcc_gpu :: fan_calibration_config

record qualified_fan_calibration =
  response_window :: duration
  anchors :: "rpm_anchor list"

record qualified_tachometer_calibrations =
  qtc_cpu :: qualified_fan_calibration
  qtc_gpu :: qualified_fan_calibration

datatype tachometer_calibration_error =
    FloorMismatch fan u16 u16
  | ZeroResponseDeadline fan
  | ResponseDeadlineTooLong fan u64 u64
  | InsufficientAnchors fan
  | AnchorRangeMismatch fan
  | AnchorsNotStrictlyIncreasing fan
  | RpmZeroOrDecreasing fan
  | RpmOutOfRange fan u32 u32 u32

definition percent_to_basis_points :: "f64 \<Rightarrow> u16" where
  "percent_to_basis_points percent = f64_to_unsigned (f64_mul percent (Fin 100))"

definition rpm_plausible :: "rpm_anchor \<Rightarrow> bool" where
  "rpm_plausible anchor =
     (minimum_plausible_rpm \<le> median_rpm anchor \<and> median_rpm anchor \<le> maximum_plausible_rpm)"

definition qualify_fan ::
  "fan \<Rightarrow> fan_calibration_config \<Rightarrow> u16 \<Rightarrow> (tachometer_calibration_error, qualified_fan_calibration) outcome" where
  "qualify_fan fan calibration protected_floor =
     (let as = cal_anchors calibration
      in if floor_basis_points calibration \<noteq> protected_floor
         then Err (FloorMismatch fan (floor_basis_points calibration) protected_floor)
         else if response_deadline_millis calibration = 0 then Err (ZeroResponseDeadline fan)
         else if maximum_response_deadline_millis < response_deadline_millis calibration
         then Err (ResponseDeadlineTooLong fan (response_deadline_millis calibration)
                maximum_response_deadline_millis)
         else if length as < 2 then Err (InsufficientAnchors fan)
         else if duty_basis_points (hd as) \<noteq> protected_floor
                 \<or> duty_basis_points (last as) \<noteq> maximum_duty_basis_points
         then Err (AnchorRangeMismatch fan)
         else if list_ex (\<lambda>(a, b). duty_basis_points b \<le> duty_basis_points a) (windows2 as)
         then Err (AnchorsNotStrictlyIncreasing fan)
         else
           (case find (\<lambda>a. \<not> rpm_plausible a) as of
              Some anchor \<Rightarrow>
                Err (RpmOutOfRange fan (median_rpm anchor) minimum_plausible_rpm maximum_plausible_rpm)
            | None \<Rightarrow>
                if median_rpm (hd as) = 0
                   \<or> list_ex (\<lambda>(a, b). median_rpm b < median_rpm a \<or> median_rpm b = 0) (windows2 as)
                then Err (RpmZeroOrDecreasing fan)
                else Ok \<lparr>response_window = from_millis (unat (response_deadline_millis calibration)),
                         anchors = as\<rparr>))"

definition qualify ::
  "tachometer_calibration_config \<Rightarrow> validated_config
     \<Rightarrow> (tachometer_calibration_error, qualified_tachometer_calibrations) outcome" where
  "qualify config protected =
     bind_ok (qualify_fan FanCpu (tcc_cpu config)
       (percent_to_basis_points (minimum_duty (cpu (fans protected))))) (\<lambda>c.
     bind_ok (qualify_fan FanGpu (tcc_gpu config)
       (percent_to_basis_points (minimum_duty (gpu (fans protected))))) (\<lambda>g.
       Ok \<lparr>qtc_cpu = c, qtc_gpu = g\<rparr>))"

section \<open>Expected speed\<close>

definition interpolate_rpm_values :: "u16 \<Rightarrow> u32 \<Rightarrow> u16 \<Rightarrow> u32 \<Rightarrow> u16 \<Rightarrow> ('e, u32) outcome" where
  "interpolate_rpm_values lower_duty lower_rpm upper_duty upper_rpm duty =
     (if upper_duty < lower_duty then Panic
      else
        (let clamped = (if duty < lower_duty then lower_duty else if upper_duty < duty then upper_duty else duty);
             span = (ucast (upper_duty - lower_duty) :: u64);
             offset = (ucast (clamped - lower_duty) :: u64);
             rpm_delta = (ucast (upper_rpm - lower_rpm) :: u64)
         in if span = 0 then Panic
            else
              (let interpolated = ucast lower_rpm + (rpm_delta * offset + span div 2) div span
               in if unat interpolated < 2 ^ 32 then Ok (ucast interpolated) else Panic)))"

definition interpolate_rpm :: "rpm_anchor \<Rightarrow> rpm_anchor \<Rightarrow> u16 \<Rightarrow> ('e, u32) outcome" where
  "interpolate_rpm lower upper duty =
     interpolate_rpm_values (duty_basis_points lower) (median_rpm lower)
       (duty_basis_points upper) (median_rpm upper) duty"

definition pwm_to_basis_points :: "pwm \<Rightarrow> u16" where
  "pwm_to_basis_points pwm = ucast ((ucast pwm * 10000 + 255 div 2) div 255 :: u32)"

definition expected_rpm :: "qualified_fan_calibration \<Rightarrow> pwm \<Rightarrow> ('e, u32) outcome" where
  "expected_rpm calibration pwm =
     (let duty = pwm_to_basis_points pwm
      in case find (\<lambda>(_, upper). duty \<le> duty_basis_points upper) (windows2 (anchors calibration)) of
           None \<Rightarrow> Panic
         | Some (lower, upper) \<Rightarrow> interpolate_rpm lower upper duty)"

definition rpm_in_band :: "u32 \<Rightarrow> u32 \<Rightarrow> bool" where
  "rpm_in_band actual expected =
     (let a = (ucast actual :: u64); e = (ucast expected :: u64)
      in e * 70 \<le> a * 100 \<and> a * 100 \<le> e * 130)"

section \<open>The validator\<close>

record fan_response_state =
  commanded_pwm :: pwm
  commanded_at :: duration

record tachometer_validator =
  tv_calibration :: qualified_tachometer_calibrations
  tv_cpu :: fan_response_state
  tv_gpu :: fan_response_state

datatype tachometer_observation_error = DeadlineOverflow | OutOfBand u32 u32

definition tachometer_validator_new ::
  "qualified_tachometer_calibrations \<Rightarrow> pwm \<Rightarrow> duration \<Rightarrow> duration \<Rightarrow> tachometer_validator" where
  "tachometer_validator_new calibration pwm cpu_commanded_at gpu_commanded_at =
     \<lparr>tv_calibration = calibration,
      tv_cpu = \<lparr>commanded_pwm = pwm, commanded_at = cpu_commanded_at\<rparr>,
      tv_gpu = \<lparr>commanded_pwm = pwm, commanded_at = gpu_commanded_at\<rparr>\<rparr>"

fun command_confirmed :: "fan \<Rightarrow> pwm \<Rightarrow> duration \<Rightarrow> tachometer_validator \<Rightarrow> tachometer_validator" where
  "command_confirmed FanCpu pwm confirmed_at self =
     self\<lparr>tv_cpu := \<lparr>commanded_pwm = pwm, commanded_at = confirmed_at\<rparr>\<rparr>"
| "command_confirmed FanGpu pwm confirmed_at self =
     self\<lparr>tv_gpu := \<lparr>commanded_pwm = pwm, commanded_at = confirmed_at\<rparr>\<rparr>"

fun fan_calibration_state :: "fan \<Rightarrow> tachometer_validator \<Rightarrow> qualified_fan_calibration \<times> fan_response_state" where
  "fan_calibration_state FanCpu self = (qtc_cpu (tv_calibration self), tv_cpu self)"
| "fan_calibration_state FanGpu self = (qtc_gpu (tv_calibration self), tv_gpu self)"

definition observe ::
  "tachometer_validator \<Rightarrow> fan \<Rightarrow> u32 \<Rightarrow> duration \<Rightarrow> (tachometer_observation_error, unit) outcome" where
  "observe self fan rpm observed_at =
     (case fan_calibration_state fan self of
        (calibration, state) \<Rightarrow>
          bind_ok (ok_or DeadlineOverflow (duration_checked_add (commanded_at state) (response_window calibration)))
            (\<lambda>response_deadline.
          bind_ok (expected_rpm calibration (commanded_pwm state)) (\<lambda>expected.
            if rpm_in_band rpm expected then Ok ()
            else if observed_at \<le> response_deadline then Ok ()
            else Err (OutOfBand expected rpm))))"

section \<open>Invariant of a qualified calibration\<close>

definition anchor_below :: "rpm_anchor \<Rightarrow> rpm_anchor \<Rightarrow> bool" where
  "anchor_below a b = (duty_basis_points a < duty_basis_points b \<and> median_rpm a \<le> median_rpm b)"

definition calibration_ok :: "qualified_fan_calibration \<Rightarrow> bool" where
  "calibration_ok q =
     (2 \<le> length (anchors q) \<and> sorted_wrt anchor_below (anchors q)
      \<and> duty_basis_points (last (anchors q)) = maximum_duty_basis_points
      \<and> list_all rpm_plausible (anchors q)
      \<and> 0 < response_window q \<and> response_window q \<le> from_millis 30000)"

lemma transp_anchor_below: "transp anchor_below"
  by (rule transpI) (auto simp: anchor_below_def)

lemma qualify_fan_ok:
  assumes "qualify_fan fan c fl = Ok q"
  shows "calibration_ok q" "duty_basis_points (hd (anchors q)) = fl"
proof -
  have r: "0 < unat (response_deadline_millis c)" "unat (response_deadline_millis c) \<le> 30000"
    if "response_deadline_millis c \<noteq> 0" "\<not> maximum_response_deadline_millis < response_deadline_millis c"
    using that by (auto simp: maximum_response_deadline_millis_def word_less_nat_alt unat_gt_0 not_less)
  have "sorted_wrt anchor_below (cal_anchors c)"
    if "\<not> list_ex (\<lambda>(a, b). duty_basis_points b \<le> duty_basis_points a) (windows2 (cal_anchors c))"
      "\<not> list_ex (\<lambda>(a, b). median_rpm b < median_rpm a \<or> median_rpm b = 0) (windows2 (cal_anchors c))"
    using that by (subst windows2_sorted_wrt [OF transp_anchor_below, symmetric])
      (fastforce simp: list_ex_iff anchor_below_def not_le not_less)
  then show "calibration_ok q" "duty_basis_points (hd (anchors q)) = fl"
    using assms r
    by (auto simp: qualify_fan_def Let_def calibration_ok_def from_millis_def list_all_iff find_None_iff
        split: if_splits option.splits)
qed

lemma qualify_ok:
  "qualify config protected = Ok q \<Longrightarrow> calibration_ok (qtc_cpu q) \<and> calibration_ok (qtc_gpu q)"
  by (auto simp: qualify_def bind_ok_eq_Ok dest: qualify_fan_ok(1))

lemma unat_interpolated:
  fixes lo hi :: u32 and span offset :: u64
  assumes "lo \<le> hi" "unat offset \<le> unat span" "0 < unat span" "unat span < 2 ^ 16"
  shows "unat (ucast lo + (ucast (hi - lo) * offset + span div 2) div span :: u64)
    = unat lo + ((unat hi - unat lo) * unat offset + unat span div 2) div unat span"
    and "((unat hi - unat lo) * unat offset + unat span div 2) div unat span \<le> unat hi - unat lo"
proof -
  define d where "d = unat hi - unat lo"
  have lohi: "unat lo \<le> unat hi" "unat hi < 2 ^ 32" "unat lo < 2 ^ 32"
    using assms(1) unsigned_less [of hi] unsigned_less [of lo] by (auto simp: word_le_nat_alt)
  then have d: "d < 2 ^ 32" by (simp add: d_def)
  have ud: "unat (ucast (hi - lo) :: u64) = d"
    using d assms(1) by (simp add: unsigned_ucast_eq unat_sub d_def take_bit_nat_eq_self)
  have ul: "unat (ucast lo :: u64) = unat lo" using lohi by (simp add: unsigned_ucast_eq take_bit_nat_eq_self)
  have "d * unat offset \<le> d * unat span" using assms(2) by simp
  also have "\<dots> \<le> 2 ^ 32 * 2 ^ 16" using d assms(4) by (intro mult_mono) auto
  finally have b: "d * unat offset \<le> 2 ^ 48" by simp
  have s2: "unat (span div 2) = unat span div 2" by (simp add: unat_div)
  have p: "unat (ucast (hi - lo) * offset :: u64) = d * unat offset"
    using b ud by (simp add: unat_word_ariths)
  have n: "unat (ucast (hi - lo) * offset + span div 2) = d * unat offset + unat span div 2"
    using b assms(4) p s2 by (simp add: unat_word_ariths)
  have "d * unat offset + unat span div 2 < (d + 1) * unat span"
  proof -
    have "d * unat offset \<le> d * unat span" by (rule mult_le_mono2) (rule assms(2))
    moreover have "unat span div 2 < unat span" using assms(3) by simp
    ultimately show ?thesis by (simp only: add_mult_distrib mult_1 add_le_less_mono)
  qed
  then have q: "(d * unat offset + unat span div 2) div unat span < d + 1"
    using assms(3) by (subst div_less_iff_less_mult) simp_all
  show "((unat hi - unat lo) * unat offset + unat span div 2) div unat span \<le> unat hi - unat lo"
    using q by (simp add: d_def)
  have "unat ((ucast (hi - lo) * offset + span div 2) div span) = (d * unat offset + unat span div 2) div unat span"
    using n by (simp add: unat_div)
  then show "unat (ucast lo + (ucast (hi - lo) * offset + span div 2) div span :: u64)
    = unat lo + ((unat hi - unat lo) * unat offset + unat span div 2) div unat span"
    using q d lohi ul by (simp add: unat_word_ariths d_def)
qed


lemma interpolate_rpm_between:
  assumes "anchor_below lower upper"
  shows "\<exists>r. interpolate_rpm lower upper duty = (Ok r :: ('e, u32) outcome)
    \<and> median_rpm lower \<le> r \<and> r \<le> median_rpm upper"
proof -
  define ld ud where "ld = duty_basis_points lower" and "ud = duty_basis_points upper"
  define cl where "cl = (if duty < ld then ld else if ud < duty then ud else duty)"
  have lt: "ld < ud" using assms by (simp add: anchor_below_def ld_def ud_def)
  then have cl: "ld \<le> cl" "cl \<le> ud" by (auto simp: cl_def)
  have u: "unat (ucast (x - ld) :: u64) = unat x - unat ld" if "ld \<le> x" for x :: u16
    using that by (simp add: unat_upcast unat_sub word_le_nat_alt)
  define span offset :: u64 where "span = ucast (ud - ld)" and "offset = ucast (cl - ld)"
  have so: "unat offset \<le> unat span" "0 < unat span" "unat span < 2 ^ 16"
    using u [of ud] u [of cl] cl lt unat_bounds(2) [of ud]
    by (auto simp: span_def offset_def word_le_nat_alt word_less_nat_alt)
  have rp: "median_rpm lower \<le> median_rpm upper" using assms by (simp add: anchor_below_def)
  define w where "w = (ucast (median_rpm lower) + (ucast (median_rpm upper - median_rpm lower) * offset + span div 2) div span :: u64)"
  note n = unat_interpolated [OF rp so]
  have w: "unat (median_rpm lower) \<le> unat w" "unat w \<le> unat (median_rpm upper)"
    using n rp unfolding w_def by (simp_all add: word_le_nat_alt)
  then have small: "unat w < 2 ^ 32" using unat_bounds(3) [of "median_rpm upper"] by simp
  have "interpolate_rpm lower upper duty = (Ok (ucast w) :: ('e, u32) outcome)"
    using lt small so(2) unfolding w_def span_def offset_def cl_def
    by (auto simp: interpolate_rpm_def interpolate_rpm_values_def ld_def ud_def Let_def unat_gt_0)
  moreover have "unat (ucast w :: u32) = unat w"
    using small by (simp add: unsigned_ucast_eq take_bit_nat_eq_self)
  ultimately show ?thesis using w by (simp add: word_le_nat_alt)
qed

lemma pwm_to_basis_points_bounds: "pwm_to_basis_points pwm \<le> maximum_duty_basis_points"
proof -
  have p: "unat pwm < 256" using unsigned_less [of pwm] by simp
  have m: "unat (ucast pwm * 10000 + 127 :: u32) = unat pwm * 10000 + 127"
    using p by (simp add: unat_word_ariths unsigned_ucast_eq take_bit_nat_eq_self)
  have "unat ((ucast pwm * 10000 + 127) div 255 :: u32) = (unat pwm * 10000 + 127) div 255"
    using m by (simp add: unat_div)
  moreover have "(unat pwm * 10000 + 127) div 255 \<le> 10000" using p by simp
  ultimately show ?thesis
    by (simp add: pwm_to_basis_points_def maximum_duty_basis_points_def word_le_nat_alt
        unsigned_ucast_eq take_bit_nat_eq_self)
qed

lemma expected_rpm_plausible:
  assumes "calibration_ok q"
  shows "\<exists>r. expected_rpm q pwm = (Ok r :: ('e, u32) outcome)
    \<and> minimum_plausible_rpm \<le> r \<and> r \<le> maximum_plausible_rpm"
proof -
  let ?duty = "pwm_to_basis_points pwm"
  let ?P = "\<lambda>(_, upper). ?duty \<le> duty_basis_points upper"
  obtain x where x: "(x, last (anchors q)) \<in> set (windows2 (anchors q))"
    using assms windows2_last by (auto simp: calibration_ok_def)
  have "?P (x, last (anchors q))"
    using assms pwm_to_basis_points_bounds by (simp add: calibration_ok_def)
  then obtain l u where f: "find ?P (windows2 (anchors q)) = Some (l, u)"
    using x find_None_iff [of ?P "windows2 (anchors q)"] by (cases "find ?P (windows2 (anchors q))") auto
  then have lu: "(l, u) \<in> set (windows2 (anchors q))" by (auto simp: find_Some_iff in_set_conv_nth)
  then have "anchor_below l u"
    using assms windows2_sorted_wrt [OF transp_anchor_below] by (auto simp: calibration_ok_def)
  then obtain r where r: "interpolate_rpm l u ?duty = (Ok r :: ('e, u32) outcome)"
    "median_rpm l \<le> r" "r \<le> median_rpm u"
    using interpolate_rpm_between by metis
  have "rpm_plausible l" "rpm_plausible u"
    using windows2_set [OF lu] assms by (auto simp: calibration_ok_def list_all_iff)
  then show ?thesis using r f by (auto simp: expected_rpm_def rpm_plausible_def)
qed

lemma rpm_in_band_iff:
  "rpm_in_band a e \<longleftrightarrow> 70 * unat e \<le> 100 * unat a \<and> 100 * unat a \<le> 130 * unat e"
proof -
  have "unat (ucast x * 100 :: u64) = 100 * unat x" "unat (ucast x * 70 :: u64) = 70 * unat x"
    "unat (ucast x * 130 :: u64) = 130 * unat x" for x :: u32
    using unat_bounds(3) [of x] by (simp_all add: unat_word_ariths unat_upcast)
  then show ?thesis by (simp add: rpm_in_band_def Let_def word_le_nat_alt)
qed

section \<open>Properties\<close>

text \<open>
  C33. A calibration that qualifies against the protected configuration predicts a speed for every
  PWM value without a panic, an overflow or a wrap-around, and the prediction lies between the
  plausible speeds of 100 and 20000 RPM; the response window is positive and at most 30 seconds.
\<close>

theorem qualified_calibration_predicts:
  assumes "qualify config protected = Ok q" "cal \<in> {qtc_cpu q, qtc_gpu q}"
  shows "\<exists>r. expected_rpm cal pwm = (Ok r :: ('e, u32) outcome) \<and> 100 \<le> r \<and> r \<le> 20000
    \<and> 0 < response_window cal \<and> response_window cal \<le> from_secs 30"
proof -
  have c: "calibration_ok cal"
    using assms qualify_ok [OF assms(1)] by auto
  from expected_rpm_plausible [OF c, of pwm, where 'e = 'e] c show ?thesis
    by (simp add: minimum_plausible_rpm_def maximum_plausible_rpm_def calibration_ok_def from_millis_def from_secs_def)
qed

definition sample_anchors :: "rpm_anchor list" where
  "sample_anchors = [\<lparr>duty_basis_points = 3000, median_rpm = 2500\<rparr>, \<lparr>duty_basis_points = 10000, median_rpm = 3500\<rparr>]"

definition sample_calibration_config :: tachometer_calibration_config where
  "sample_calibration_config =
     \<lparr>tcc_cpu = \<lparr>floor_basis_points = 3000, response_deadline_millis = 5000, cal_anchors = sample_anchors\<rparr>,
      tcc_gpu = \<lparr>floor_basis_points = 2500, response_deadline_millis = 5000,
        cal_anchors = [\<lparr>duty_basis_points = 2500, median_rpm = 2400\<rparr>, \<lparr>duty_basis_points = 10000, median_rpm = 3600\<rparr>]\<rparr>\<rparr>"

definition sample_calibrations :: qualified_tachometer_calibrations where
  "sample_calibrations =
     \<lparr>qtc_cpu = \<lparr>response_window = from_millis 5000, anchors = sample_anchors\<rparr>,
      qtc_gpu = \<lparr>response_window = from_millis 5000,
        anchors = [\<lparr>duty_basis_points = 2500, median_rpm = 2400\<rparr>, \<lparr>duty_basis_points = 10000, median_rpm = 3600\<rparr>]\<rparr>\<rparr>"

lemma percent_to_basis_points_int:
  assumes "0 \<le> n" "n \<le> 100"
  shows "percent_to_basis_points (Fin (of_int n)) = word_of_int (n * 100)"
proof -
  have "f64_mul (Fin (of_int n)) (Fin 100) = f64_of_int (n * 100)"
    by (simp add: f64_of_int_def)
  also have "\<dots> = Fin (of_int (n * 100))" by (rule f64_of_small_int) (use assms in simp)
  finally show ?thesis
    unfolding percent_to_basis_points_def using f64_to_unsigned_of_int [of "n * 100", where 'a = 16] assms by simp
qed

lemma sample_qualifies: "qualify sample_calibration_config (exact_config example_config) = Ok sample_calibrations"
proof -
  have "percent_to_basis_points (minimum_duty (cpu (fans (exact_config example_config)))) = 3000"
    "percent_to_basis_points (minimum_duty (gpu (fans (exact_config example_config)))) = 2500"
    using percent_to_basis_points_int [of 30] percent_to_basis_points_int [of 25]
    by (simp_all add: exact_config_def example_config_def)
  then show ?thesis
    by (simp add: qualify_def qualify_fan_def sample_calibration_config_def sample_calibrations_def sample_anchors_def
        maximum_response_deadline_millis_def maximum_duty_basis_points_def rpm_plausible_def
        minimum_plausible_rpm_def maximum_plausible_rpm_def Let_def)
qed

theorem qualified_calibration_predicts_witness:
  "\<exists>r. expected_rpm (qtc_gpu sample_calibrations) 100 = (Ok r :: (tachometer_observation_error, u32) outcome) \<and> 100 \<le> r \<and> r \<le> 20000"
  using qualified_calibration_predicts [OF sample_qualifies, of "qtc_gpu sample_calibrations" 100, where 'e = tachometer_observation_error]
  by blast

text \<open>
  C34. An observation on a qualified calibration is accepted exactly when the speed is within thirty
  percent of the expectation or the response deadline has not passed, and is otherwise an
  out-of-band error; the only other failure is a deadline beyond the range of a duration.
\<close>

theorem observe_correct:
  assumes "calibration_ok (fst (fan_calibration_state fan self))"
  shows "\<exists>r. expected_rpm (fst (fan_calibration_state fan self)) (commanded_pwm (snd (fan_calibration_state fan self)))
        = (Ok r :: (tachometer_observation_error, u32) outcome)
    \<and> (let deadline = commanded_at (snd (fan_calibration_state fan self))
                        + response_window (fst (fan_calibration_state fan self));
           in_band = (70 * unat r \<le> 100 * unat rpm \<and> 100 * unat rpm \<le> 130 * unat r)
       in observe self fan rpm now =
            (if duration_max < deadline then Err DeadlineOverflow
             else if in_band \<or> now \<le> deadline then Ok ()
             else Err (OutOfBand r rpm)))"
proof -
  obtain cal st where cs: "fan_calibration_state fan self = (cal, st)" by (cases "fan_calibration_state fan self")
  from assms obtain r where "expected_rpm cal (commanded_pwm st) = (Ok r :: (tachometer_observation_error, u32) outcome)"
    using expected_rpm_plausible [of cal "commanded_pwm st", where 'e = tachometer_observation_error] by (auto simp: cs)
  then show ?thesis
    by (auto simp: cs observe_def Let_def rpm_in_band_iff duration_checked_add_def)
qed


lemma sample_calibration_ok: "calibration_ok (qtc_cpu sample_calibrations)"
  using qualify_ok [OF sample_qualifies] by simp

theorem observe_correct_witness:
  "\<exists>r. observe (tachometer_validator_new sample_calibrations pwm_maximum 0 0) FanCpu 0 (from_secs 6) = Err (OutOfBand r 0)"
proof -
  define v where "v = tachometer_validator_new sample_calibrations pwm_maximum 0 0"
  have s: "fan_calibration_state FanCpu v = (qtc_cpu sample_calibrations, \<lparr>commanded_pwm = pwm_maximum, commanded_at = 0\<rparr>)"
    by (simp add: v_def tachometer_validator_new_def)
  have w: "response_window (qtc_cpu sample_calibrations) = 5000000000"
    by (simp add: sample_calibrations_def from_millis_def)
  have c: "calibration_ok (fst (fan_calibration_state FanCpu v))"
    unfolding s using sample_calibration_ok by simp
  obtain r where r: "expected_rpm (qtc_cpu sample_calibrations) pwm_maximum = (Ok r :: (tachometer_observation_error, u32) outcome)"
    "100 \<le> r"
    using expected_rpm_plausible [OF sample_calibration_ok, of pwm_maximum, where 'e = tachometer_observation_error]
    by (auto simp: minimum_plausible_rpm_def)
  have "\<not> unat r = 0" using r(2) by (simp add: word_le_nat_alt)
  moreover have "\<not> duration_max < 5000000000" by (simp add: duration_max_def)
  ultimately show ?thesis
    using observe_correct [OF c, of 0 "from_secs 6", unfolded s] r
    by (simp add: w Let_def from_secs_def v_def [symmetric])
qed

end
