(* ===== verification/Compatibility.thy ===== *)
theory Compatibility
  imports Platform
begin

text \<open>
  Admission of the machine (\<open>fan-control-core/src/compatibility.rs\<close>): the declared hardware, kernel,
  module and fan ABI, and the single observation that has to match them. Parsing the declaration is
  the TOML library's work and is a parameter. Shown here: exactly one fully matching, trusted and
  complete observation of a qualified declaration is admitted, and the textual comparison of
  kernel releases is the numeric one.
\<close>

section \<open>Declarations and observations\<close>

definition expected_product :: string where "expected_product = ''Predator PT315-53''"
definition expected_board :: string where "expected_board = ''Civic_TLS''"
definition expected_bios :: string where "expected_bios = ''V1.17''"
definition expected_kernel_package :: string where "expected_kernel_package = ''linux-cachyos-pt31553''"
definition expected_module_name :: string where "expected_module_name = ''acer_wmi''"
definition expected_hwmon_name :: string where "expected_hwmon_name = ''acer''"

definition declared_endpoints :: "string list" where
  "declared_endpoints = [''pwm1'', ''pwm1_enable'', ''fan1_input'', ''pwm2'', ''pwm2_enable'', ''fan2_input'']"

datatype escape_hatch_capability =
    ForceCaps | EcRawMode | PredatorV4Override | CapabilityDirectWmi | CapabilityRawEc
  | ReplacementWmiModule | AlternateFanWriteBackend

definition forbidden_capabilities :: "escape_hatch_capability list" where
  "forbidden_capabilities =
     [ForceCaps, EcRawMode, PredatorV4Override, CapabilityDirectWmi, CapabilityRawEc,
      ReplacementWmiModule, AlternateFanWriteBackend]"

record hardware_identity =
  dmi_product_name :: string
  dmi_board_name :: string
  bios_version :: string

record kernel_identity =
  release :: string
  package :: string
  source_commit :: string
  image_sha256 :: string
  image_signer_fingerprint :: string

datatype module_provenance = InTree | External

record module_identity =
  mi_name :: string
  mi_path :: string
  mi_sha256 :: string
  signer_fingerprint :: string
  vermagic :: string
  provenance :: module_provenance

record secure_boot_requirements =
  secure_boot_required :: bool

datatype fan_write_backend = AcerHwmon | DirectWmi | RawEc | ReplacementModule

record fan_control_declaration =
  fcd_backend :: fan_write_backend
  fcd_hwmon_name :: string
  fcd_endpoints :: "string list"
  fcd_forbidden_capabilities :: "escape_hatch_capability list"

record compatibility_declaration_v1 =
  cd_schema_version :: u32
  cd_hardware :: hardware_identity
  cd_kernel :: kernel_identity
  cd_module :: module_identity
  cd_secure_boot :: secure_boot_requirements
  cd_fan_control :: fan_control_declaration

datatype evidence_completeness = Complete | Incomplete

record observed_fan_abi =
  abi_hwmon_name :: string
  abi_endpoints :: "string list"

record compatibility_observation =
  co_hardware :: hardware_identity
  co_kernel :: kernel_identity
  co_module :: module_identity
  secure_boot_enabled :: bool
  kernel_image_trusted :: bool
  module_signature_trusted :: bool
  co_fan_abi :: observed_fan_abi
  backend_evidence_completeness :: evidence_completeness
  co_backends :: "fan_write_backend list"
  capability_evidence_completeness :: evidence_completeness
  enabled_capabilities :: "escape_hatch_capability list"

datatype 't compatibility_declaration_error = DeclarationParse 't | DeclarationUnsafe string string

datatype compatibility_admission_error =
    UnsafeDeclaration string
  | MissingObservation
  | AmbiguousObservations nat
  | Mismatch string
  | IncompleteEvidence string
  | Untrusted string
  | ForbiddenCapability escape_hatch_capability
  | MissingBackend
  | AmbiguousBackends nat
  | UnsupportedBackend fan_write_backend

section \<open>Text checks\<close>

definition is_ascii_alphanumeric :: "char \<Rightarrow> bool" where
  "is_ascii_alphanumeric c =
     (let n = (of_char c :: nat)
      in 48 \<le> n \<and> n \<le> 57 \<or> 65 \<le> n \<and> n \<le> 90 \<or> 97 \<le> n \<and> n \<le> 122)"

definition ends_with :: "string \<Rightarrow> string \<Rightarrow> bool" where
  "ends_with s suffix = (length suffix \<le> length s \<and> drop (length s - length suffix) s = suffix)"

definition split_once :: "char \<Rightarrow> string \<Rightarrow> (string \<times> string) option" where
  "split_once c s =
     (case dropWhile (\<lambda>x. x \<noteq> c) s of
        [] \<Rightarrow> None
      | _ # rest \<Rightarrow> Some (takeWhile (\<lambda>x. x \<noteq> c) s, rest))"

definition strip_prefix :: "string \<Rightarrow> string \<Rightarrow> string option" where
  "strip_prefix prefix s =
     (if take (length prefix) s = prefix then Some (drop (length prefix) s) else None)"

fun pairs_of :: "'a list \<Rightarrow> ('a \<times> 'a) list" where
  "pairs_of (x # y # rest) = (x, y) # pairs_of (y # rest)"
| "pairs_of _ = []"

definition decimal_at_least :: "string \<Rightarrow> string \<Rightarrow> bool" where
  "decimal_at_least value least =
     (length least < length value \<or> length value = length least \<and> least \<le> value)"

text \<open>A release that passes the first group of checks starts with a digit: its major text is not empty.\<close>

definition supported_kernel_release :: "string \<Rightarrow> bool" where
  "supported_kernel_release r =
     (if \<not> ends_with r ''-cachyos-pt31553''
         \<or> \<not> list_all (\<lambda>b. is_ascii_alphanumeric b \<or> b \<in> set ''.-_+'') r
         \<or> \<not> (r \<noteq> [] \<and> is_ascii_digit (hd r))
         \<or> \<not> (r \<noteq> [] \<and> is_ascii_alphanumeric (last r))
         \<or> list_ex (\<lambda>(a, b). \<not> is_ascii_alphanumeric a \<and> \<not> is_ascii_alphanumeric b) (pairs_of r)
      then False
      else
        (case split_once CHR ''.'' r of
           None \<Rightarrow> False
         | Some (major_text, remainder) \<Rightarrow>
             if \<not> list_all is_ascii_digit major_text \<or> 1 < length major_text \<and> hd major_text = CHR ''0''
             then False
             else
               (let minor_length = length (takeWhile is_ascii_digit remainder)
                in if minor_length = 0 \<or> 1 < minor_length \<and> hd remainder = CHR ''0'' then False
                   else if \<not> (case drop minor_length remainder of b # _ \<Rightarrow> b \<in> set ''.-_+'' | [] \<Rightarrow> False)
                   then False
                   else
                     1 < length major_text
                     \<or> CHR ''6'' < hd major_text
                     \<or> major_text = ''6'' \<and> decimal_at_least (take minor_length remainder) ''19'')))"

definition is_lower_hex :: "string \<Rightarrow> nat \<Rightarrow> bool" where
  "is_lower_hex value expected_len =
     (length value = expected_len
      \<and> list_all (\<lambda>b. is_ascii_digit b \<or> 97 \<le> (of_char b :: nat) \<and> (of_char b :: nat) \<le> 102) value)"

definition is_exact_string_set :: "string list \<Rightarrow> string list \<Rightarrow> bool" where
  "is_exact_string_set values expected =
     (length values = card (set values) \<and> set values = set expected)"

definition is_same_unique_set :: "string list \<Rightarrow> string list \<Rightarrow> bool" where
  "is_same_unique_set left right =
     (length left = card (set left) \<and> length right = card (set right) \<and> set left = set right)"

definition is_exact_capability_set :: "escape_hatch_capability list \<Rightarrow> escape_hatch_capability list \<Rightarrow> bool" where
  "is_exact_capability_set values expected =
     (length values = card (set values) \<and> set values = set expected)"

section \<open>Validation and admission\<close>

definition require_equal :: "string \<Rightarrow> 'a \<Rightarrow> 'a \<Rightarrow> (compatibility_admission_error, unit) outcome" where
  "require_equal field expected actual = (if expected = actual then Ok () else Err (Mismatch field))"

definition require_safe :: "bool \<Rightarrow> string \<Rightarrow> string \<Rightarrow> ('t compatibility_declaration_error, unit) outcome" where
  "require_safe condition field reason = (if condition then Ok () else Err (DeclarationUnsafe field reason))"

fun all_ok :: "('e, unit) outcome list \<Rightarrow> ('e, unit) outcome" where
  "all_ok [] = Ok ()"
| "all_ok (r # rs) = bind_ok r (\<lambda>_. all_ok rs)"

definition expected_module_path :: "string \<Rightarrow> string" where
  "expected_module_path r = ''/usr/lib/modules/'' @ r @ ''/kernel/drivers/platform/x86/acer-wmi.ko.zst''"

definition vermagic_bound :: "string \<Rightarrow> string \<Rightarrow> bool" where
  "vermagic_bound magic r =
     (case strip_prefix r magic of
        None \<Rightarrow> False
      | Some suffix \<Rightarrow> suffix \<noteq> [] \<and> hd suffix = CHR '' '' \<and> 1 < length suffix)"

definition validate_declaration ::
  "compatibility_declaration_v1 \<Rightarrow> ('t compatibility_declaration_error, unit) outcome" where
  "validate_declaration d =
     (let h = cd_hardware d; k = cd_kernel d; m = cd_module d; f = cd_fan_control d
      in all_ok
        [require_safe (cd_schema_version d = 1) ''schema_version'' ''only schema version 1 is supported'',
         require_safe (dmi_product_name h = expected_product) ''hardware.dmi_product_name''
           ''must name the qualified product'',
         require_safe (dmi_board_name h = expected_board) ''hardware.dmi_board_name''
           ''must name the qualified board'',
         require_safe (bios_version h = expected_bios) ''hardware.bios_version'' ''must name the qualified BIOS'',
         require_safe (package k = expected_kernel_package) ''kernel.package''
           ''must name the dedicated kernel package'',
         require_safe (supported_kernel_release (release k)) ''kernel.release'' ''must be kernel 6.19 or newer'',
         require_safe (is_lower_hex (source_commit k) 40) ''kernel.source_commit''
           ''must be an exact hexadecimal source commit'',
         require_safe (is_lower_hex (image_sha256 k) 64) ''kernel.image_sha256'' ''must be a SHA-256 digest'',
         require_safe (is_lower_hex (image_signer_fingerprint k) 64) ''kernel.image_signer_fingerprint''
           ''must be a full signing-key fingerprint'',
         require_safe (mi_name m = expected_module_name) ''module.name''
           ''must use the in-tree acer_wmi module'',
         require_safe (mi_path m = expected_module_path (release k)) ''module.path''
           ''must use the packaged in-tree module path'',
         require_safe (is_lower_hex (mi_sha256 m) 64) ''module.sha256'' ''must be a SHA-256 digest'',
         require_safe (is_lower_hex (signer_fingerprint m) 64) ''module.signer_fingerprint''
           ''must be a full signing-key fingerprint'',
         require_safe (vermagic_bound (vermagic m) (release k)) ''module.vermagic''
           ''must bind the module to the declared kernel release'',
         require_safe (provenance m = InTree) ''module.provenance''
           ''external or replacement modules are forbidden'',
         require_safe (secure_boot_required (cd_secure_boot d)) ''secure_boot.required''
           ''Secure Boot trust is mandatory'',
         require_safe (fcd_backend f = AcerHwmon) ''fan_control.backend''
           ''only the standard Acer hwmon backend is allowed'',
         require_safe (fcd_hwmon_name f = expected_hwmon_name) ''fan_control.hwmon_name''
           ''must use the acer hwmon device'',
         require_safe (is_exact_string_set (fcd_endpoints f) declared_endpoints) ''fan_control.endpoints''
           ''must declare exactly the two-fan Acer hwmon ABI'',
         require_safe (is_exact_capability_set (fcd_forbidden_capabilities f) forbidden_capabilities)
           ''fan_control.forbidden_capabilities'' ''must forbid every known escape hatch''])"

definition parse_compatibility_v1 ::
  "(string \<Rightarrow> ('t, compatibility_declaration_v1) outcome) \<Rightarrow> string
     \<Rightarrow> ('t compatibility_declaration_error, compatibility_declaration_v1) outcome" where
  "parse_compatibility_v1 toml_from_str source =
     bind_ok (map_err DeclarationParse (toml_from_str source)) (\<lambda>declaration.
     bind_ok (validate_declaration declaration) (\<lambda>_. Ok declaration))"

definition unique_observation ::
  "compatibility_declaration_v1 \<Rightarrow> compatibility_observation list
     \<Rightarrow> (compatibility_admission_error, compatibility_observation) outcome" where
  "unique_observation d observations =
     (case (validate_declaration d :: (unit compatibility_declaration_error, unit) outcome) of
        Err (DeclarationUnsafe field _) \<Rightarrow> Err (UnsafeDeclaration field)
      | _ \<Rightarrow>
          (case observations of
             [] \<Rightarrow> Err MissingObservation
           | [observation] \<Rightarrow> Ok observation
           | _ \<Rightarrow> Err (AmbiguousObservations (length observations))))"

definition check_platform_compatibility ::
  "compatibility_declaration_v1 \<Rightarrow> compatibility_observation list
     \<Rightarrow> (compatibility_admission_error, unit) outcome" where
  "check_platform_compatibility d observations =
     bind_ok (unique_observation d observations) (\<lambda>ob.
       let h = cd_hardware d; k = cd_kernel d; m = cd_module d;
           h' = co_hardware ob; k' = co_kernel ob; m' = co_module ob
       in all_ok
        [require_equal ''hardware.dmi_product_name'' (dmi_product_name h) (dmi_product_name h'),
         require_equal ''hardware.dmi_board_name'' (dmi_board_name h) (dmi_board_name h'),
         require_equal ''hardware.bios_version'' (bios_version h) (bios_version h'),
         require_equal ''kernel.release'' (release k) (release k'),
         require_equal ''kernel.package'' (package k) (package k'),
         require_equal ''kernel.source_commit'' (source_commit k) (source_commit k'),
         require_equal ''kernel.image_sha256'' (image_sha256 k) (image_sha256 k'),
         require_equal ''kernel.image_signer_fingerprint'' (image_signer_fingerprint k)
           (image_signer_fingerprint k'),
         require_equal ''module.name'' (mi_name m) (mi_name m'),
         require_equal ''module.path'' (mi_path m) (mi_path m'),
         require_equal ''module.sha256'' (mi_sha256 m) (mi_sha256 m'),
         require_equal ''module.signer_fingerprint'' (signer_fingerprint m) (signer_fingerprint m'),
         require_equal ''module.vermagic'' (vermagic m) (vermagic m'),
         require_equal ''module.provenance'' (provenance m) (provenance m')])"

definition check_trust_compatibility ::
  "compatibility_declaration_v1 \<Rightarrow> compatibility_observation list
     \<Rightarrow> (compatibility_admission_error, unit) outcome" where
  "check_trust_compatibility d observations =
     bind_ok (unique_observation d observations) (\<lambda>ob.
       if \<not> secure_boot_enabled ob then Err (Untrusted ''secure_boot.enabled'')
       else if \<not> kernel_image_trusted ob then Err (Untrusted ''secure_boot.kernel_image_trusted'')
       else if \<not> module_signature_trusted ob then Err (Untrusted ''secure_boot.module_signature_trusted'')
       else Ok ())"

definition check_fan_abi_compatibility ::
  "compatibility_declaration_v1 \<Rightarrow> compatibility_observation list
     \<Rightarrow> (compatibility_admission_error, unit) outcome" where
  "check_fan_abi_compatibility d observations =
     bind_ok (unique_observation d observations) (\<lambda>ob.
       if capability_evidence_completeness ob \<noteq> Complete then Err (IncompleteEvidence ''fan_control.capabilities'')
       else if enabled_capabilities ob \<noteq> [] then Err (ForbiddenCapability (hd (enabled_capabilities ob)))
       else if backend_evidence_completeness ob \<noteq> Complete then Err (IncompleteEvidence ''fan_control.backends'')
       else
         (case find (\<lambda>b. b \<noteq> AcerHwmon) (co_backends ob) of
            Some b \<Rightarrow> Err (UnsupportedBackend b)
          | None \<Rightarrow>
              bind_ok
                (case co_backends ob of
                   [] \<Rightarrow> Err MissingBackend
                 | [AcerHwmon] \<Rightarrow> Ok ()
                 | bs \<Rightarrow> Err (AmbiguousBackends (length bs))) (\<lambda>_.
              bind_ok (require_equal ''fan_control.hwmon_name'' (fcd_hwmon_name (cd_fan_control d))
                         (abi_hwmon_name (co_fan_abi ob))) (\<lambda>_.
                if \<not> is_same_unique_set (fcd_endpoints (cd_fan_control d)) (abi_endpoints (co_fan_abi ob))
                then Err (Mismatch ''fan_control.endpoints'')
                else Ok ()))))"

definition admit_compatibility ::
  "compatibility_declaration_v1 \<Rightarrow> compatibility_observation list
     \<Rightarrow> (compatibility_admission_error, unit) outcome" where
  "admit_compatibility d observations =
     bind_ok (check_platform_compatibility d observations) (\<lambda>_.
     bind_ok (check_trust_compatibility d observations) (\<lambda>_.
       check_fan_abi_compatibility d observations))"

definition compat_deserialize_schema_version :: "int \<Rightarrow> (string, u32) outcome" where
  "compat_deserialize_schema_version version =
     (if version = 1 then Ok 1 else Err ''schema_version must be 1'')"

definition compat_serialize_schema_version :: "u32 \<Rightarrow> (string, u32) outcome" where
  "compat_serialize_schema_version version =
     (if version = 1 then Ok 1 else Err ''schema_version must be 1'')"

section \<open>Releases as numbers\<close>

lemma dec_string_append_digit:
  "0 < n \<Longrightarrow> d < 10 \<Longrightarrow> dec_string (10 * n + d) = dec_string n @ [digit_char d]"
proof -
  assume a: "0 < n" "d < 10"
  have "(10 * n + d) div 10 = n" "digit_char (10 * n + d) = digit_char d" using a by (auto simp: digit_char_def)
  then show ?thesis using a by (subst dec_string.simps) simp
qed

lemma digit_char_value: "is_ascii_digit c \<Longrightarrow> digit_char (digit_value c) = c \<and> digit_value c < 10"
proof -
  assume a: "is_ascii_digit c"
  then have b: "48 \<le> (of_char c :: nat)" "(of_char c :: nat) \<le> 57" by (auto simp: is_ascii_digit_def)
  then have "48 + (of_char c - 48 :: nat) mod 10 = of_char c" by simp
  then show ?thesis using b by (simp add: digit_char_def digit_value_def)
qed

lemma dec_value_snoc [simp]: "dec_value (s @ [c]) = 10 * dec_value s + digit_value c"
  by (simp add: dec_value_def)

lemma digit_char_0: "digit_char 0 = CHR ''0''" "digit_value CHR ''0'' = 0"
  by code_simp+

lemma digit_value_zero: "is_ascii_digit c \<Longrightarrow> digit_value c = 0 \<longleftrightarrow> c = CHR ''0''"
  using digit_char_value [of c] digit_char_0 by auto

lemma dec_value_pos:
  "list_all is_ascii_digit s \<Longrightarrow> s \<noteq> [] \<Longrightarrow> hd s \<noteq> CHR ''0'' \<Longrightarrow> 0 < dec_value s"
proof (induction s rule: rev_induct)
  case (snoc c s)
  show ?case
  proof (cases "s = []")
    case True
    then show ?thesis using snoc.prems digit_value_zero [of c] by (simp add: dec_value_def)
  next
    case False
    then show ?thesis using snoc by simp
  qed
qed simp

text \<open>Decimal text without a superfluous leading zero is the text of its value.\<close>

lemma dec_string_dec_value:
  "list_all is_ascii_digit s \<Longrightarrow> s \<noteq> [] \<Longrightarrow> \<not> (1 < length s \<and> hd s = CHR ''0'') \<Longrightarrow> dec_string (dec_value s) = s"
proof (induction s rule: rev_induct)
  case (snoc c s)
  have c: "digit_char (digit_value c) = c" "digit_value c < 10" using snoc.prems digit_char_value by auto
  show ?case
  proof (cases "s = []")
    case True
    then show ?thesis using c by (simp add: dec_value_def dec_string.simps)
  next
    case False
    then have "hd s \<noteq> CHR ''0''" using snoc.prems(3) by (cases s) auto
    then have "0 < dec_value s" "dec_string (dec_value s) = s"
      using snoc False dec_value_pos [of s] by auto
    then show ?thesis using c dec_string_append_digit by simp
  qed
qed simp

lemma dec_string_length_1: "length (dec_string n) = 1 \<longleftrightarrow> n < 10"
  by (subst dec_string.simps) simp

lemma dec_string_length_2: "length (dec_string n) \<le> 2 \<longleftrightarrow> n < 100"
proof (cases "n < 10")
  case False
  have "length (dec_string n) = length (dec_string (n div 10)) + 1" using False by (subst dec_string.simps) simp
  moreover have "length (dec_string (n div 10)) \<ge> 1" by (simp add: Suc_le_eq)
  ultimately have "length (dec_string n) \<le> 2 \<longleftrightarrow> length (dec_string (n div 10)) = 1" by auto
  also have "\<dots> \<longleftrightarrow> n < 100" unfolding dec_string_length_1 by auto
  finally show ?thesis .
qed (simp add: dec_string.simps)

lemma two_digit_comparison:
  "\<forall>n \<in> set [10..<100]. ''19'' \<le> dec_string n \<longleftrightarrow> 19 \<le> n"
  by code_simp

lemma decimal_at_least_19: "decimal_at_least (dec_string n) ''19'' \<longleftrightarrow> 19 \<le> n"
proof (cases "n < 10 \<or> 100 \<le> n")
  case True
  then show ?thesis
    using dec_string_length_1 [of n] dec_string_length_2 [of n] by (auto simp: decimal_at_least_def)
next
  case False
  then have "length (dec_string n) \<noteq> 1" "length (dec_string n) \<le> 2" "dec_string n \<noteq> []"
    using dec_string_length_1 [of n] dec_string_length_2 [of n] by auto
  then have "length (dec_string n) = 2" by (cases "dec_string n") (auto simp: le_Suc_eq)
  moreover have "''19'' \<le> dec_string n \<longleftrightarrow> 19 \<le> n" by (rule bspec [OF two_digit_comparison], unfold set_upt atLeastLessThan_iff) (use False in linarith)
  ultimately show ?thesis by (simp add: decimal_at_least_def)
qed

lemma one_digit_major:
  "\<forall>n \<in> set [0..<10]. (CHR ''6'' < hd (dec_string n) \<longleftrightarrow> 6 < n) \<and> (dec_string n = ''6'' \<longleftrightarrow> n = 6)"
  by code_simp

lemma major_at_least_7:
  "1 < length (dec_string n) \<or> CHR ''6'' < hd (dec_string n) \<longleftrightarrow> 6 < n"
proof (cases "n < 10")
  case True
  then have "n \<in> set [0..<10]" by simp
  from bspec [OF one_digit_major this] True show ?thesis using dec_string_length_1 [of n] by auto
next
  case False
  then have "length (dec_string n) \<noteq> 1" using dec_string_length_1 [of n] by simp
  then have "1 < length (dec_string n)" by (cases "dec_string n") auto
  then show ?thesis using False by simp
qed

lemma dropWhile_not_digit: "dropWhile is_ascii_digit s = drop (length (takeWhile is_ascii_digit s)) s"
  by (induction s) auto

definition release_well_formed :: "string \<Rightarrow> bool" where
  "release_well_formed r =
     (ends_with r ''-cachyos-pt31553''
      \<and> (\<forall>b \<in> set r. is_ascii_alphanumeric b \<or> b \<in> set ''.-_+'')
      \<and> is_ascii_alphanumeric (last r)
      \<and> (\<forall>(a, b) \<in> set (pairs_of r). is_ascii_alphanumeric a \<or> is_ascii_alphanumeric b))"

definition versioned :: "string \<Rightarrow> nat \<Rightarrow> nat \<Rightarrow> char \<Rightarrow> string \<Rightarrow> bool" where
  "versioned r major minor sep rest =
     (r = dec_string major @ ''.'' @ dec_string minor @ sep # rest \<and> sep \<in> set ''.-_+'')"

lemma dec_string_digits: "list_all is_ascii_digit (dec_string n)"
  by (auto simp: list_all_iff dest: dec_string_set)

lemma dec_string_no_zero: "\<not> (1 < length (dec_string n) \<and> hd (dec_string n) = CHR ''0'')"
proof (induction n rule: dec_string.induct)
  case (1 n)
  show ?case
  proof (cases "n < 10")
    case False
    have e: "dec_string n = dec_string (n div 10) @ [digit_char n]" using False by (subst dec_string.simps) simp
    show ?thesis
    proof (cases "n div 10 < 10")
      case True
      then have "hd (dec_string n) = digit_char (n div 10)" using e by (simp add: dec_string.simps [of "n div 10"])
      moreover have "digit_value (digit_char (n div 10)) \<noteq> digit_value CHR ''0''"
        using True False by (simp add: digit_char_0)
      ultimately show ?thesis by metis
    next
      case big: False
      then have "1 < length (dec_string (n div 10))" using dec_string_length_1 [of "n div 10"]
        by (cases "dec_string (n div 10)") auto
      then show ?thesis using 1 [OF False] e by (simp add: hd_append)
    qed
  qed (simp add: dec_string.simps)
qed

lemma split_versioned:
  assumes "versioned r major minor sep rest"
  shows "split_once CHR ''.'' r = Some (dec_string major, dec_string minor @ sep # rest)"
    "takeWhile is_ascii_digit (dec_string minor @ sep # rest) = dec_string minor" "r \<noteq> []" "is_ascii_digit (hd r)"
proof -
  have nd: "CHR ''.'' \<notin> set (dec_string major)"
  proof
    assume "CHR ''.'' \<in> set (dec_string major)"
    then have "is_ascii_digit CHR ''.''" using dec_string_digits [of major] by (auto simp: list_all_iff)
    then show False by (simp add: is_ascii_digit_def)
  qed
  have ns: "\<not> is_ascii_digit sep" using assms by (auto simp: versioned_def is_ascii_digit_def)
  have r: "r = dec_string major @ CHR ''.'' # dec_string minor @ sep # rest" using assms by (simp add: versioned_def)
  have ne: "\<forall>x \<in> set (dec_string major). x \<noteq> CHR ''.''" using nd by auto
  show "split_once CHR ''.'' r = Some (dec_string major, dec_string minor @ sep # rest)"
    using ne by (simp add: r split_once_def dropWhile_append2 takeWhile_append2)
  show "takeWhile is_ascii_digit (dec_string minor @ sep # rest) = dec_string minor"
    using dec_string_digits [of minor] ns by (simp add: list_all_iff takeWhile_append2)
  show "r \<noteq> []" "is_ascii_digit (hd r)"
    using dec_string_digits [of major] by (auto simp: r hd_append list_all_iff intro: hd_in_set)
qed

lemma supported_versioned:
  assumes v: "versioned r major minor sep rest"
  shows "supported_kernel_release r \<longleftrightarrow> release_well_formed r \<and> (6 < major \<or> major = 6 \<and> 19 \<le> minor)"
proof -
  note sp = split_versioned [OF v]
  have sep: "sep \<in> set ''.-_+''" using v by (simp add: versioned_def)
  have num: "1 < length (dec_string major) \<or> CHR ''6'' < hd (dec_string major)
      \<or> dec_string major = ''6'' \<and> decimal_at_least (dec_string minor) ''19'' \<longleftrightarrow> 6 < major \<or> major = 6 \<and> 19 \<le> minor"
    using major_at_least_7 [of major] decimal_at_least_19 [of minor] one_digit_major dec_string_length_1 [of major]
    by (cases "major < 10") auto
  have wf: "release_well_formed r \<longleftrightarrow> \<not> (\<not> ends_with r ''-cachyos-pt31553''
         \<or> \<not> list_all (\<lambda>b. is_ascii_alphanumeric b \<or> b \<in> set ''.-_+'') r
         \<or> \<not> (r \<noteq> [] \<and> is_ascii_digit (hd r))
         \<or> \<not> (r \<noteq> [] \<and> is_ascii_alphanumeric (last r))
         \<or> list_ex (\<lambda>(a, b). \<not> is_ascii_alphanumeric a \<and> \<not> is_ascii_alphanumeric b) (pairs_of r))"
    using sp(3,4) by (auto simp: release_well_formed_def list_all_iff list_ex_iff)
  have nz: "\<not> (1 < length (dec_string major) \<and> hd (dec_string major) = CHR ''0'')"
    "\<not> (1 < length (dec_string minor) \<and> hd (dec_string minor @ sep # rest) = CHR ''0'')"
    using dec_string_no_zero [of major] dec_string_no_zero [of minor] by (auto simp: hd_append)
  show ?thesis
    unfolding supported_kernel_release_def sp(1) option.case prod.case Let_def sp(2)
    using wf nz num sep dec_string_digits [of major] by auto
qed

lemma supported_has_version:
  assumes "supported_kernel_release r"
  shows "\<exists>major minor sep rest. versioned r major minor sep rest"
proof -
  obtain major_text remainder where sp: "split_once CHR ''.'' r = Some (major_text, remainder)"
    using assms by (cases "split_once CHR ''.'' r") (auto simp: supported_kernel_release_def split: if_splits)
  let ?minor = "takeWhile is_ascii_digit remainder"
  have c: "r \<noteq> []" "is_ascii_digit (hd r)" "list_all is_ascii_digit major_text"
      "\<not> (1 < length major_text \<and> hd major_text = CHR ''0'')" "?minor \<noteq> []"
      "\<not> (1 < length ?minor \<and> hd remainder = CHR ''0'')"
      "case drop (length ?minor) remainder of b # _ \<Rightarrow> b \<in> set ''.-_+'' | [] \<Rightarrow> False"
    using assms sp by (auto simp: supported_kernel_release_def Let_def split: if_splits)
  obtain sep rest where d: "drop (length ?minor) remainder = sep # rest" "sep \<in> set ''.-_+''"
    using c(7) by (cases "drop (length ?minor) remainder") auto
  have rem: "remainder = ?minor @ sep # rest"
    using takeWhile_dropWhile_id [of is_ascii_digit remainder] d(1) dropWhile_not_digit [of remainder] by simp
  have r: "r = major_text @ CHR ''.'' # remainder"
  proof -
    obtain y where y: "dropWhile (\<lambda>x. x \<noteq> CHR ''.'') r = y # remainder" "major_text = takeWhile (\<lambda>x. x \<noteq> CHR ''.'') r"
      using sp by (auto simp: split_once_def split: list.splits)
    have "y = CHR ''.''" using hd_dropWhile [of "\<lambda>x. x \<noteq> CHR ''.''" r] y(1) by simp
    then show ?thesis using y takeWhile_dropWhile_id [of "\<lambda>x. x \<noteq> CHR ''.''" r] by simp
  qed
  have "major_text \<noteq> []" using c(2) r by (auto simp: is_ascii_digit_def)
  then have mj: "dec_string (dec_value major_text) = major_text" using c(3,4) dec_string_dec_value by blast
  have "hd remainder = hd ?minor" using rem c(5) by (metis hd_append)
  then have mn: "dec_string (dec_value ?minor) = ?minor"
    using c(5,6) by (intro dec_string_dec_value) (auto simp: list_all_iff dest: set_takeWhileD)
  have "versioned r (dec_value major_text) (dec_value ?minor) sep rest"
    unfolding versioned_def mj mn using r rem d(2) by simp
  then show ?thesis by blast
qed

section \<open>What is admitted\<close>

lemma all_ok_Ok: "all_ok rs = Ok () \<longleftrightarrow> (\<forall>r \<in> set rs. r = Ok ())"
  by (induction rs) (auto simp: bind_ok_eq_Ok)

lemma require_safe_Ok [simp]: "require_safe b field reason = Ok () \<longleftrightarrow> b"
  by (simp add: require_safe_def)

lemma require_equal_Ok [simp]: "require_equal field x y = Ok () \<longleftrightarrow> x = y"
  by (simp add: require_equal_def)

lemma unique_observation_Ok:
  "unique_observation d os = Ok ob \<longleftrightarrow>
     (validate_declaration d :: (unit compatibility_declaration_error, unit) outcome) = Ok () \<and> os = [ob]"
proof -
  have v: "validate_declaration d = (Ok () :: (unit compatibility_declaration_error, unit) outcome)
      \<or> (\<exists>f r. validate_declaration d = (Err (DeclarationUnsafe f r) :: (unit compatibility_declaration_error, unit) outcome))"
  proof -
    have "(\<forall>r \<in> set rs. r = Ok () \<or> (\<exists>f x. r = Err (DeclarationUnsafe f x)))
        \<Longrightarrow> all_ok rs = Ok () \<or> (\<exists>f x. all_ok rs = Err (DeclarationUnsafe f x))"
      for rs :: "(unit compatibility_declaration_error, unit) outcome list"
      by (induction rs) auto
    then show ?thesis unfolding validate_declaration_def Let_def by (simp add: require_safe_def)
  qed
  then show ?thesis by (auto simp: unique_observation_def split: list.splits)
qed

lemma length_card_distinct: "length xs = card (set xs) \<longleftrightarrow> distinct xs"
  using card_distinct [of xs] distinct_card [of xs] by auto

section \<open>A qualified machine\<close>

definition qualified_declaration :: compatibility_declaration_v1 where
  "qualified_declaration =
     (let r = ''6.19.0-cachyos-pt31553''; digest = replicate 64 CHR ''a''
      in \<lparr>cd_schema_version = 1,
          cd_hardware = \<lparr>dmi_product_name = expected_product, dmi_board_name = expected_board, bios_version = expected_bios\<rparr>,
          cd_kernel = \<lparr>release = r, package = expected_kernel_package, source_commit = replicate 40 CHR ''a'',
            image_sha256 = digest, image_signer_fingerprint = digest\<rparr>,
          cd_module = \<lparr>mi_name = expected_module_name, mi_path = expected_module_path r, mi_sha256 = digest,
            signer_fingerprint = digest, vermagic = r @ '' SMP'', provenance = InTree\<rparr>,
          cd_secure_boot = \<lparr>secure_boot_required = True\<rparr>,
          cd_fan_control = \<lparr>fcd_backend = AcerHwmon, fcd_hwmon_name = expected_hwmon_name,
            fcd_endpoints = declared_endpoints, fcd_forbidden_capabilities = forbidden_capabilities\<rparr>\<rparr>)"

definition qualified_observation :: compatibility_observation where
  "qualified_observation =
     \<lparr>co_hardware = cd_hardware qualified_declaration, co_kernel = cd_kernel qualified_declaration,
      co_module = cd_module qualified_declaration, secure_boot_enabled = True, kernel_image_trusted = True,
      module_signature_trusted = True,
      co_fan_abi = \<lparr>abi_hwmon_name = ''acer'', abi_endpoints = rev declared_endpoints\<rparr>,
      backend_evidence_completeness = Complete, co_backends = [AcerHwmon],
      capability_evidence_completeness = Complete, enabled_capabilities = []\<rparr>"

lemma qualified_admitted: "admit_compatibility qualified_declaration [qualified_observation] = Ok ()"
  by code_simp

section \<open>Properties\<close>

text \<open>
  C37. The textual checks of a kernel release amount to a numeric comparison: the release is
  accepted exactly when it is well formed and reads as major, dot, minor, separator, rest, with
  decimal numbers that are at least 6.19.
\<close>

theorem kernel_release_is_numeric:
  "supported_kernel_release r \<longleftrightarrow>
     release_well_formed r
     \<and> (\<exists>major minor sep rest. versioned r major minor sep rest \<and> (6 < major \<or> major = 6 \<and> 19 \<le> minor))"
  using supported_has_version supported_versioned by blast

text \<open>
  C36. The machine is admitted exactly when the declaration is the qualified one and there is a
  single observation of the same hardware, kernel and module, trusted by Secure Boot, with complete
  evidence of no escape hatch and of the Acer hwmon as the only backend, whose endpoints are the
  six expected ones, each once.
\<close>

theorem compatibility_admitted_exactly:
  "admit_compatibility d os = Ok () \<longleftrightarrow>
     validate_declaration d = (Ok () :: (unit compatibility_declaration_error, unit) outcome)
     \<and> (\<exists>ob. os = [ob] \<and> co_hardware ob = cd_hardware d \<and> co_kernel ob = cd_kernel d \<and> co_module ob = cd_module d
          \<and> secure_boot_enabled ob \<and> kernel_image_trusted ob \<and> module_signature_trusted ob
          \<and> capability_evidence_completeness ob = Complete \<and> enabled_capabilities ob = []
          \<and> backend_evidence_completeness ob = Complete \<and> co_backends ob = [AcerHwmon]
          \<and> abi_hwmon_name (co_fan_abi ob) = ''acer''
          \<and> distinct (abi_endpoints (co_fan_abi ob)) \<and> set (abi_endpoints (co_fan_abi ob)) = set declared_endpoints)"
proof (cases "\<exists>ob. unique_observation d os = Ok ob")
  case False
  then show ?thesis
    by (auto simp: admit_compatibility_def check_platform_compatibility_def bind_ok_eq_Ok unique_observation_Ok)
next
  case True
  then obtain ob where u: "unique_observation d os = Ok ob" by blast
  then have v: "validate_declaration d = (Ok () :: (unit compatibility_declaration_error, unit) outcome)" "os = [ob]"
    by (simp_all add: unique_observation_Ok)
  from v(1) have f: "fcd_hwmon_name (cd_fan_control d) = ''acer''"
      "distinct (fcd_endpoints (cd_fan_control d))" "set (fcd_endpoints (cd_fan_control d)) = set declared_endpoints"
    unfolding validate_declaration_def Let_def all_ok_Ok
    by (auto simp: is_exact_string_set_def length_card_distinct expected_hwmon_name_def)
  have pl: "check_platform_compatibility d os = Ok () \<longleftrightarrow>
      co_hardware ob = cd_hardware d \<and> co_kernel ob = cd_kernel d \<and> co_module ob = cd_module d"
    unfolding check_platform_compatibility_def u outcome_combinators Let_def all_ok_Ok by auto
  have tr: "check_trust_compatibility d os = Ok () \<longleftrightarrow>
      secure_boot_enabled ob \<and> kernel_image_trusted ob \<and> module_signature_trusted ob"
    unfolding check_trust_compatibility_def u by auto
  have bk: "(find (\<lambda>b. b \<noteq> AcerHwmon) bs = None
      \<and> (case bs of [] \<Rightarrow> Err MissingBackend | [AcerHwmon] \<Rightarrow> Ok () | bs \<Rightarrow> Err (AmbiguousBackends (length bs))) = Ok ())
      \<longleftrightarrow> bs = [AcerHwmon]" for bs
    by (auto split: list.splits fan_write_backend.splits)
  have ab: "check_fan_abi_compatibility d os = Ok () \<longleftrightarrow>
      capability_evidence_completeness ob = Complete \<and> enabled_capabilities ob = []
      \<and> backend_evidence_completeness ob = Complete \<and> co_backends ob = [AcerHwmon]
      \<and> abi_hwmon_name (co_fan_abi ob) = ''acer''
      \<and> distinct (abi_endpoints (co_fan_abi ob)) \<and> set (abi_endpoints (co_fan_abi ob)) = set declared_endpoints"
    unfolding check_fan_abi_compatibility_def u
    using bk [of "co_backends ob"] f distinct_card [OF f(2)]
    by (auto simp: bind_ok_eq_Ok is_same_unique_set_def length_card_distinct split: if_splits option.splits)
  show ?thesis using pl tr ab v by (auto simp: admit_compatibility_def bind_ok_eq_Ok)
qed

end
