(* ===== verification/Divergence.thy ===== *)
theory Divergence
  imports Prelude "HOL-Library.Sublist"
begin

text \<open>
  Sequencing of code that contains a loop with no bound of its own: such code maps a state to
  \<open>None\<close> when it does not return. \<open>wlp m Q s\<close> says that what \<open>m\<close> returns from \<open>s\<close>, if it returns,
  satisfies \<open>Q\<close>; \<open>twp m Q s\<close> says that it returns and satisfies \<open>Q\<close>.

  On top of them, two kinds of specification that compose along the sequence of calls. A triple
  says that, from every state with the invariant, the code does not panic, keeps the invariant,
  relates the two states by a transitive relation and, when it succeeds, establishes \<open>G\<close>. A script
  says that a log grows by a prefix of a fixed list, and by all of it when the code succeeds.
\<close>

type_synonym ('s, 'e, 'a) dio = "'s \<Rightarrow> (('e, 'a) outcome \<times> 's) option"

definition total_io :: "('s, 'e, 'a) io \<Rightarrow> ('s, 'e, 'a) dio" where
  "total_io m s = Some (m s)"

definition try_dio :: "('s, 'e, 'a) dio \<Rightarrow> ('a \<Rightarrow> ('s, 'e, 'b) dio) \<Rightarrow> ('s, 'e, 'b) dio" where
  "try_dio m f s =
     (case m s of
        None \<Rightarrow> None
      | Some (Ok x, s') \<Rightarrow> f x s'
      | Some (Err e, s') \<Rightarrow> Some (Err e, s')
      | Some (Panic, s') \<Rightarrow> Some (Panic, s'))"

definition catch_dio :: "('s, 'e, 'a) dio \<Rightarrow> ('s, 'f, 'e + 'a) dio" where
  "catch_dio m s =
     (case m s of
        None \<Rightarrow> None
      | Some (Ok x, s') \<Rightarrow> Some (Ok (Inr x), s')
      | Some (Err e, s') \<Rightarrow> Some (Ok (Inl e), s')
      | Some (Panic, s') \<Rightarrow> Some (Panic, s'))"

definition map_err_dio :: "('e \<Rightarrow> 'f) \<Rightarrow> ('s, 'e, 'a) dio \<Rightarrow> ('s, 'f, 'a) dio" where
  "map_err_dio g m s = (case m s of None \<Rightarrow> None | Some (r, s') \<Rightarrow> Some (map_err g r, s'))"

definition wlp :: "('s, 'e, 'a) dio \<Rightarrow> (('e, 'a) outcome \<Rightarrow> 's \<Rightarrow> bool) \<Rightarrow> 's \<Rightarrow> bool" where
  "wlp m Q s = (case m s of None \<Rightarrow> True | Some (x, s') \<Rightarrow> Q x s')"

definition twp :: "('s, 'e, 'a) dio \<Rightarrow> (('e, 'a) outcome \<Rightarrow> 's \<Rightarrow> bool) \<Rightarrow> 's \<Rightarrow> bool" where
  "twp m Q s = (case m s of None \<Rightarrow> False | Some (x, s') \<Rightarrow> Q x s')"

named_theorems dio_simps \<open>unfolding rules for code that may diverge\<close>

lemma wlp_total [dio_simps]: "wlp (total_io m) Q s = wp m Q s"
  by (simp add: wlp_def total_io_def wp_def)

lemma twp_total [dio_simps]: "twp (total_io m) Q s = wp m Q s"
  by (simp add: twp_def total_io_def wp_def)

lemma wlp_try_dio [dio_simps]:
  "wlp (try_dio m f) Q s =
     wlp m (\<lambda>r s'. case r of Ok x \<Rightarrow> wlp (f x) Q s' | Err e \<Rightarrow> Q (Err e) s' | Panic \<Rightarrow> Q Panic s') s"
  by (auto simp: wlp_def try_dio_def split: option.splits prod.splits outcome.splits)

lemma twp_try_dio [dio_simps]:
  "twp (try_dio m f) Q s =
     twp m (\<lambda>r s'. case r of Ok x \<Rightarrow> twp (f x) Q s' | Err e \<Rightarrow> Q (Err e) s' | Panic \<Rightarrow> Q Panic s') s"
  by (auto simp: twp_def try_dio_def split: option.splits prod.splits outcome.splits)

lemma wlp_catch_dio [dio_simps]:
  "wlp (catch_dio m) Q s =
     wlp m (\<lambda>r s'. case r of Ok x \<Rightarrow> Q (Ok (Inr x)) s' | Err e \<Rightarrow> Q (Ok (Inl e)) s' | Panic \<Rightarrow> Q Panic s') s"
  by (auto simp: wlp_def catch_dio_def split: option.splits prod.splits outcome.splits)

lemma twp_catch_dio [dio_simps]:
  "twp (catch_dio m) Q s =
     twp m (\<lambda>r s'. case r of Ok x \<Rightarrow> Q (Ok (Inr x)) s' | Err e \<Rightarrow> Q (Ok (Inl e)) s' | Panic \<Rightarrow> Q Panic s') s"
  by (auto simp: twp_def catch_dio_def split: option.splits prod.splits outcome.splits)

lemma wlp_map_err_dio [dio_simps]: "wlp (map_err_dio g m) Q s = wlp m (\<lambda>r. Q (map_err g r)) s"
  by (auto simp: wlp_def map_err_dio_def split: option.splits prod.splits)

lemma twp_map_err_dio [dio_simps]: "twp (map_err_dio g m) Q s = twp m (\<lambda>r. Q (map_err g r)) s"
  by (auto simp: twp_def map_err_dio_def split: option.splits prod.splits)

lemma wlp_mono: "wlp m Q s \<Longrightarrow> (\<And>x s'. Q x s' \<Longrightarrow> Q' x s') \<Longrightarrow> wlp m Q' s"
  by (auto simp: wlp_def split: option.splits)

lemma twp_mono: "twp m Q s \<Longrightarrow> (\<And>x s'. Q x s' \<Longrightarrow> Q' x s') \<Longrightarrow> twp m Q' s"
  by (auto simp: twp_def split: option.splits)

lemma wlp_try:
  assumes "wlp m R s" "\<And>x s'. R (Ok x) s' \<Longrightarrow> wlp (f x) Q s'"
    "\<And>e s'. R (Err e) s' \<Longrightarrow> Q (Err e) s'" "\<And>s'. R Panic s' \<Longrightarrow> Q Panic s'"
  shows "wlp (try_dio m f) Q s"
  unfolding wlp_try_dio
  by (rule wlp_mono [OF assms(1)]) (auto intro: assms(2-) split: outcome.splits)

lemma twp_try:
  assumes "twp m R s" "\<And>x s'. R (Ok x) s' \<Longrightarrow> twp (f x) Q s'"
    "\<And>e s'. R (Err e) s' \<Longrightarrow> Q (Err e) s'" "\<And>s'. R Panic s' \<Longrightarrow> Q Panic s'"
  shows "twp (try_dio m f) Q s"
  unfolding twp_try_dio
  by (rule twp_mono [OF assms(1)]) (auto intro: assms(2-) split: outcome.splits)

text \<open>The same, after a part that always returns.\<close>

lemma wlp_try_total:
  assumes "wp m R s" "\<And>x s'. R (Ok x) s' \<Longrightarrow> wlp (f x) Q s'"
    "\<And>e s'. R (Err e) s' \<Longrightarrow> Q (Err e) s'" "\<And>s'. R Panic s' \<Longrightarrow> Q Panic s'"
  shows "wlp (try_dio (total_io m) f) Q s"
  by (rule wlp_try [of _ R]) (use assms in \<open>auto simp: wlp_total\<close>)

lemma twp_try_total:
  assumes "wp m R s" "\<And>x s'. R (Ok x) s' \<Longrightarrow> twp (f x) Q s'"
    "\<And>e s'. R (Err e) s' \<Longrightarrow> Q (Err e) s'" "\<And>s'. R Panic s' \<Longrightarrow> Q Panic s'"
  shows "twp (try_dio (total_io m) f) Q s"
  by (rule twp_try [of _ R]) (use assms in \<open>auto simp: twp_total\<close>)

lemma wlp_try_rel:
  assumes "transp R" "wlp m (\<lambda>_. R w) w" "\<And>x w1. R w w1 \<Longrightarrow> wlp (f x) (\<lambda>_. R w1) w1"
  shows "wlp (try_dio m f) (\<lambda>_. R w) w"
  by (rule wlp_try [OF assms(2)]) (auto intro: wlp_mono [OF assms(3)] transpD [OF assms(1)])

lemma twp_wlp: "twp m Q s \<Longrightarrow> wlp m Q s"
  by (auto simp: twp_def wlp_def split: option.splits)

lemma twp_returns: "twp m Q s \<Longrightarrow> \<exists>x s'. m s = Some (x, s') \<and> Q x s'"
  by (auto simp: twp_def split: option.splits)

lemma twp_conj: "twp m Q s \<Longrightarrow> wlp m Q' s \<Longrightarrow> twp m (\<lambda>x s'. Q x s' \<and> Q' x s') s"
  by (auto simp: twp_def wlp_def split: option.splits)

lemma wlp_someD: "wlp m Q s \<Longrightarrow> m s = Some (x, s') \<Longrightarrow> Q x s'"
  by (simp add: wlp_def)

section \<open>Triples\<close>

definition triple ::
  "('s \<Rightarrow> bool) \<Rightarrow> ('s \<Rightarrow> 's \<Rightarrow> bool) \<Rightarrow> ('s, 'e, 'a) io \<Rightarrow> ('a \<Rightarrow> 's \<Rightarrow> bool) \<Rightarrow> bool" where
  "triple I R m G = (\<forall>s. I s \<longrightarrow> wp m (\<lambda>r s'. r \<noteq> Panic \<and> I s' \<and> R s s' \<and> (\<forall>y. r = Ok y \<longrightarrow> G y s')) s)"

definition dtriple ::
  "('s \<Rightarrow> bool) \<Rightarrow> ('s \<Rightarrow> 's \<Rightarrow> bool) \<Rightarrow> ('s, 'e, 'a) dio \<Rightarrow> ('a \<Rightarrow> 's \<Rightarrow> bool) \<Rightarrow> bool" where
  "dtriple I R m G = (\<forall>s. I s \<longrightarrow> twp m (\<lambda>r s'. r \<noteq> Panic \<and> I s' \<and> R s s' \<and> (\<forall>y. r = Ok y \<longrightarrow> G y s')) s)"

lemma tripleI:
  "(\<And>s. I s \<Longrightarrow> wp m (\<lambda>r s'. r \<noteq> Panic \<and> I s' \<and> R s s' \<and> (\<forall>y. r = Ok y \<longrightarrow> G y s')) s) \<Longrightarrow> triple I R m G"
  by (simp add: triple_def)

lemma tripleD:
  "triple I R m G \<Longrightarrow> I s \<Longrightarrow> wp m (\<lambda>r s'. r \<noteq> Panic \<and> I s' \<and> R s s' \<and> (\<forall>y. r = Ok y \<longrightarrow> G y s')) s"
  by (simp add: triple_def)

lemma dtripleD:
  "dtriple I R m G \<Longrightarrow> I s \<Longrightarrow> twp m (\<lambda>r s'. r \<noteq> Panic \<and> I s' \<and> R s s' \<and> (\<forall>y. r = Ok y \<longrightarrow> G y s')) s"
  by (simp add: dtriple_def)

lemma triple_mono:
  "triple I R m G \<Longrightarrow> (\<And>s s'. R s s' \<Longrightarrow> R' s s') \<Longrightarrow> (\<And>y s. G y s \<Longrightarrow> G' y s) \<Longrightarrow> triple I R' m G'"
  unfolding triple_def by (blast intro: wp_mono)

lemma triple_try:
  assumes "transp R" "triple I R m (\<lambda>_ _. True)" "\<And>x. triple I R (f x) G"
  shows "triple I R (try_io m f) G"
proof (rule tripleI)
  fix s assume "I s"
  show "wp (try_io m f) (\<lambda>r s'. r \<noteq> Panic \<and> I s' \<and> R s s' \<and> (\<forall>y. r = Ok y \<longrightarrow> G y s')) s"
    by (rule wp_try [OF tripleD [OF assms(2) \<open>I s\<close>]])
      (auto intro: wp_mono [OF tripleD [OF assms(3)]] transpD [OF assms(1)])
qed

text \<open>What one call establishes and the following calls keep is part of the invariant from then on.\<close>

lemma triple_frame:
  "triple I R m G \<Longrightarrow> (\<And>s s'. K s \<Longrightarrow> R s s' \<Longrightarrow> K s') \<Longrightarrow> triple (\<lambda>s. I s \<and> K s) R m G"
  unfolding triple_def by (blast intro: wp_mono)

lemma triple_bind:
  assumes "transp R" "triple I R m (\<lambda>_. K)" "\<And>x. triple (\<lambda>s. I s \<and> K s) R (f x) G"
  shows "triple I R (try_io m f) G"
proof (rule tripleI)
  fix s assume "I s"
  show "wp (try_io m f) (\<lambda>r s'. r \<noteq> Panic \<and> I s' \<and> R s s' \<and> (\<forall>y. r = Ok y \<longrightarrow> G y s')) s"
    by (rule wp_try [OF tripleD [OF assms(2) \<open>I s\<close>]])
      (auto intro: wp_mono [OF tripleD [OF assms(3)]] transpD [OF assms(1)])
qed

lemma triple_result:
  assumes "transp R" "triple I R m (\<lambda>x _. F x)" "\<And>x. F x \<Longrightarrow> triple I R (f x) G"
  shows "triple I R (try_io m f) G"
proof (rule tripleI)
  fix s assume "I s"
  show "wp (try_io m f) (\<lambda>r s'. r \<noteq> Panic \<and> I s' \<and> R s s' \<and> (\<forall>y. r = Ok y \<longrightarrow> G y s')) s"
    by (rule wp_try [OF tripleD [OF assms(2) \<open>I s\<close>]])
      (auto intro: wp_mono [OF tripleD [OF assms(3)]] transpD [OF assms(1)])
qed

lemma triple_return:
  assumes "\<And>s. I s \<Longrightarrow> R s s" "r \<noteq> Panic" "\<And>y s. r = Ok y \<Longrightarrow> I s \<Longrightarrow> G y s"
  shows "triple I R (return_io r) G"
  using assms by (auto simp: triple_def wp_return)

lemma triple_if: "(b \<Longrightarrow> triple I R m G) \<Longrightarrow> (\<not> b \<Longrightarrow> triple I R m' G) \<Longrightarrow> triple I R (if b then m else m') G"
  by simp

lemma triple_map_err: "triple I R m G \<Longrightarrow> triple I R (map_err_io h m) G"
  by (auto simp: triple_def wp_map_err_io)

lemma triple_catch: "triple I R m (\<lambda>_ _. True) \<Longrightarrow> triple I R (catch_io m) (\<lambda>_ _. True)"
  unfolding triple_def wp_catch_io by (auto simp: wp_def split: outcome.splits prod.splits)

lemma dtriple_total: "triple I R m G \<Longrightarrow> dtriple I R (total_io m) G"
  by (simp add: triple_def dtriple_def twp_total)

lemma dtriple_try:
  assumes "transp R" "dtriple I R m (\<lambda>_ _. True)" "\<And>x. dtriple I R (f x) G"
  shows "dtriple I R (try_dio m f) G"
  unfolding dtriple_def
proof (intro allI impI)
  fix s assume "I s"
  show "twp (try_dio m f) (\<lambda>r s'. r \<noteq> Panic \<and> I s' \<and> R s s' \<and> (\<forall>y. r = Ok y \<longrightarrow> G y s')) s"
    by (rule twp_try [OF dtripleD [OF assms(2) \<open>I s\<close>]])
      (auto intro: twp_mono [OF dtripleD [OF assms(3)]] transpD [OF assms(1)])
qed

lemma dtriple_frame:
  "dtriple I R m G \<Longrightarrow> (\<And>s s'. K s \<Longrightarrow> R s s' \<Longrightarrow> K s') \<Longrightarrow> dtriple (\<lambda>s. I s \<and> K s) R m G"
  unfolding dtriple_def by (blast intro: twp_mono)

lemma dtriple_bind:
  assumes "transp R" "dtriple I R m (\<lambda>_. K)" "\<And>x. dtriple (\<lambda>s. I s \<and> K s) R (f x) G"
  shows "dtriple I R (try_dio m f) G"
  unfolding dtriple_def
proof (intro allI impI)
  fix s assume "I s"
  show "twp (try_dio m f) (\<lambda>r s'. r \<noteq> Panic \<and> I s' \<and> R s s' \<and> (\<forall>y. r = Ok y \<longrightarrow> G y s')) s"
    by (rule twp_try [OF dtripleD [OF assms(2) \<open>I s\<close>]])
      (auto intro: twp_mono [OF dtripleD [OF assms(3)]] transpD [OF assms(1)])
qed

lemma dtriple_result:
  assumes "transp R" "dtriple I R m (\<lambda>x _. F x)" "\<And>x. F x \<Longrightarrow> dtriple I R (f x) G"
  shows "dtriple I R (try_dio m f) G"
  unfolding dtriple_def
proof (intro allI impI)
  fix s assume "I s"
  show "twp (try_dio m f) (\<lambda>r s'. r \<noteq> Panic \<and> I s' \<and> R s s' \<and> (\<forall>y. r = Ok y \<longrightarrow> G y s')) s"
    by (rule twp_try [OF dtripleD [OF assms(2) \<open>I s\<close>]])
      (auto intro: twp_mono [OF dtripleD [OF assms(3)]] transpD [OF assms(1)])
qed

lemma dtriple_mono:
  "dtriple I R m G \<Longrightarrow> (\<And>s s'. R s s' \<Longrightarrow> R' s s') \<Longrightarrow> (\<And>y s. G y s \<Longrightarrow> G' y s) \<Longrightarrow> dtriple I R' m G'"
  unfolding dtriple_def by (blast intro: twp_mono)

section \<open>Scripts\<close>

definition script :: "('s \<Rightarrow> 'x list) \<Rightarrow> ('s, 'e, 'a) io \<Rightarrow> 'x list \<Rightarrow> bool" where
  "script lg m xs = (\<forall>s. wp m (\<lambda>r s'. \<exists>ys. lg s' = lg s @ ys \<and> prefix ys xs \<and> (is_ok r \<longrightarrow> ys = xs)) s)"

definition dscript :: "('s \<Rightarrow> 'x list) \<Rightarrow> ('s, 'e, 'a) dio \<Rightarrow> 'x list \<Rightarrow> bool" where
  "dscript lg m xs = (\<forall>s. wlp m (\<lambda>r s'. \<exists>ys. lg s' = lg s @ ys \<and> prefix ys xs \<and> (is_ok r \<longrightarrow> ys = xs)) s)"

lemma script_silent: "(\<And>s. wp m (\<lambda>_ s'. lg s' = lg s) s) \<Longrightarrow> script lg m []"
  by (simp add: script_def)

lemma script_silentD: "script lg m [] \<Longrightarrow> wp m (\<lambda>_ s'. lg s' = lg s) s"
  by (simp add: script_def)

lemma script_return: "script lg (return_io r) []"
  by (rule script_silent) (simp add: wp_return)

lemma script_try:
  assumes "script lg m xs" "\<And>x. script lg (f x) ys"
  shows "script lg (try_io m f) (xs @ ys)"
  unfolding script_def
proof (rule allI, rule wp_try [OF assms(1) [unfolded script_def, rule_format]], goal_cases)
  case (1 s x s')
  then show ?case
    by (intro wp_mono [OF assms(2) [unfolded script_def, rule_format]]) (auto simp: prefix_def)
qed (auto simp: prefix_def)

lemma script_catch: "script lg m [] \<Longrightarrow> script lg (catch_io m) []"
  unfolding script_def wp_catch_io by (auto simp: wp_def split: outcome.splits prod.splits)

lemma is_ok_map_err [simp]: "is_ok (map_err h r) = is_ok r"
  by (cases r) auto

lemma script_map_err: "script lg m xs \<Longrightarrow> script lg (map_err_io h m) xs"
  unfolding script_def wp_map_err_io by simp

lemma script_quiet_try: "script lg m [] \<Longrightarrow> (\<And>x. script lg (f x) ys) \<Longrightarrow> script lg (try_io m f) ys"
  using script_try [of lg m "[]" f ys] by simp

lemma dscript_total: "script lg m xs \<Longrightarrow> dscript lg (total_io m) xs"
  by (simp add: script_def dscript_def wlp_total)

lemma dscript_try:
  assumes "dscript lg m xs" "\<And>x. dscript lg (f x) ys"
  shows "dscript lg (try_dio m f) (xs @ ys)"
  unfolding dscript_def
proof (rule allI, rule wlp_try [OF assms(1) [unfolded dscript_def, rule_format]], goal_cases)
  case (1 s x s')
  then show ?case
    by (intro wlp_mono [OF assms(2) [unfolded dscript_def, rule_format]]) (auto simp: prefix_def)
qed (auto simp: prefix_def)

lemma dscript_quiet_try: "dscript lg m [] \<Longrightarrow> (\<And>x. dscript lg (f x) ys) \<Longrightarrow> dscript lg (try_dio m f) ys"
  using dscript_try [of lg m "[]" f ys] by simp

end
