(* ===== verification/Arming.thy ===== *)
theory Arming
  imports Ownership Tachometer Compatibility Divergence
begin

text \<open>
  The only handover from Firmware Auto to Custom (\<open>fan-control-core/src/arming.rs\<close>), with the part of
  \<open>authority.rs\<close> it consults. The wait for the tachometers polls until its deadline, so the handover
  is code that may not return; on a platform whose delay lets time pass it does. Shown here: a
  successful handover ends with both fans in Custom at the maximum duty, the maximum is staged and
  read back before any fan enters Custom, every failure runs the restoration, and the wait ends.
\<close>

section \<open>The admitted policy\<close>

record admitted_policy_authority =
  apa_ownership_id :: u64
  apa_qualification_id :: string
  apa_policy_version :: string
  apa_protected_policy_sha256 :: string
  apa_compatibility :: compatibility_declaration_v1
  apa_calibration :: qualified_tachometer_calibrations
  apa_protected :: validated_config

definition belongs_to_ownership :: "admitted_policy_authority \<Rightarrow> u64 \<Rightarrow> bool" where
  "belongs_to_ownership authority i = (apa_ownership_id authority = i)"

definition validate_candidate ::
  "admitted_policy_authority \<Rightarrow> validated_config \<Rightarrow> (envelope_validation_error, unit) outcome" where
  "validate_candidate authority candidate =
     validate_against_protected_envelope candidate (apa_protected authority)"

definition tachometer_calibrations :: "admitted_policy_authority \<Rightarrow> qualified_tachometer_calibrations" where
  "tachometer_calibrations authority = apa_calibration authority"

section \<open>Constants and results\<close>

definition arming_custom_control :: string where "arming_custom_control = ''1''"
definition arming_maximum_pwm :: string where "arming_maximum_pwm = ''255''"
definition handover_window :: duration where "handover_window = from_secs 2"
definition arming_tachometer_response_window :: duration where "arming_tachometer_response_window = from_secs 10"
definition tachometer_poll_interval :: duration where "tachometer_poll_interval = from_millis 250"

record armed_fan_control =
  afc_ownership_id :: u64
  afc_custom_epoch :: u64
  afc_config :: validated_config
  afc_device :: acer_hwmon_device
  afc_calibration :: qualified_tachometer_calibrations
  afc_cpu_custom_confirmed_at :: duration
  afc_gpu_custom_confirmed_at :: duration
  afc_cpu_rpm :: u32
  afc_gpu_rpm :: u32

definition armed_is_current_for :: "armed_fan_control \<Rightarrow> ('p, 'l, 's) world \<Rightarrow> bool" where
  "armed_is_current_for armed w = custom_epoch_is_current w (afc_ownership_id armed) (afc_custom_epoch armed)"

record armed_control_parts =
  acp_ownership_id :: u64
  acp_custom_epoch :: u64
  acp_config :: validated_config
  acp_device :: acer_hwmon_device
  acp_calibration :: qualified_tachometer_calibrations
  acp_cpu_custom_confirmed_at :: duration
  acp_gpu_custom_confirmed_at :: duration

definition into_control_parts :: "armed_fan_control \<Rightarrow> armed_control_parts" where
  "into_control_parts armed =
     \<lparr>acp_ownership_id = afc_ownership_id armed, acp_custom_epoch = afc_custom_epoch armed,
      acp_config = afc_config armed, acp_device = afc_device armed, acp_calibration = afc_calibration armed,
      acp_cpu_custom_confirmed_at = afc_cpu_custom_confirmed_at armed,
      acp_gpu_custom_confirmed_at = afc_gpu_custom_confirmed_at armed\<rparr>"

datatype fan_arming_operation =
    ArmConfirmFirmwareAuto | ArmStageMaximum | ArmReadDuty | ArmEnterCustom | ArmConfirmCustom
  | ArmFinalConfirmCustom | ArmReadTachometer

datatype fan_arming_readback = ArmMode | ArmDuty

datatype fan_arming_failure =
    ArmPolicy envelope_validation_error
  | ForeignOwnershipAuthority
  | ForeignOwnershipSample
  | ObsoleteSampleEpoch
  | SampleFromFuture
  | StaleSample
  | ArmDeviceIdentity platform_error
  | ArmDeviceAbi acer_hwmon_discovery_error
  | ArmDeviceChanged
  | ArmShutdownRequested
  | ArmDeadlineOverflow
  | ArmPlatform fan fan_arming_operation "fan_arming_readback option" platform_error
  | ArmUnexpectedReadback fan fan_arming_readback fan_arming_operation string string
  | ArmInvalidTachometer fan string
  | ArmTachometerTimeout "u32 option" "u32 option"

datatype fan_arming_error =
    ArmingRejected fan_arming_failure
  | ArmingRecovered fan_arming_failure firmware_auto_restoration_error emergency_containment_report
  | ArmingRestorationFailed fan_arming_failure firmware_auto_restoration_error emergency_containment_report

fun arming_reason :: "fan_arming_error \<Rightarrow> fan_arming_failure" where
  "arming_reason (ArmingRejected reason) = reason"
| "arming_reason (ArmingRecovered reason _ _) = reason"
| "arming_reason (ArmingRestorationFailed reason _ _) = reason"

fun arming_fan_endpoint :: "fan \<Rightarrow> fan_arming_readback \<Rightarrow> runtime_endpoint" where
  "arming_fan_endpoint FanCpu ArmMode = EndpointCpuEnable"
| "arming_fan_endpoint FanCpu ArmDuty = EndpointCpuPwm"
| "arming_fan_endpoint FanGpu ArmMode = EndpointGpuEnable"
| "arming_fan_endpoint FanGpu ArmDuty = EndpointGpuPwm"

fun arming_failure_endpoint :: "fan_arming_failure \<Rightarrow> runtime_endpoint option" where
  "arming_failure_endpoint (ArmPlatform fan oper (Some field) _) = Some (arming_fan_endpoint fan field)"
| "arming_failure_endpoint (ArmPlatform fan ArmReadTachometer None _) =
     Some (case fan of FanCpu \<Rightarrow> EndpointCpuTachometer | FanGpu \<Rightarrow> EndpointGpuTachometer)"
| "arming_failure_endpoint (ArmPlatform fan ArmConfirmFirmwareAuto None _) = Some (arming_fan_endpoint fan ArmMode)"
| "arming_failure_endpoint (ArmPlatform fan ArmEnterCustom None _) = Some (arming_fan_endpoint fan ArmMode)"
| "arming_failure_endpoint (ArmPlatform fan ArmConfirmCustom None _) = Some (arming_fan_endpoint fan ArmMode)"
| "arming_failure_endpoint (ArmPlatform fan ArmFinalConfirmCustom None _) = Some (arming_fan_endpoint fan ArmMode)"
| "arming_failure_endpoint (ArmPlatform fan ArmStageMaximum None _) = Some (arming_fan_endpoint fan ArmDuty)"
| "arming_failure_endpoint (ArmPlatform fan ArmReadDuty None _) = Some (arming_fan_endpoint fan ArmDuty)"
| "arming_failure_endpoint (ArmUnexpectedReadback fan field _ _ _) = Some (arming_fan_endpoint fan field)"
| "arming_failure_endpoint (ArmInvalidTachometer fan _) =
     Some (case fan of FanCpu \<Rightarrow> EndpointCpuTachometer | FanGpu \<Rightarrow> EndpointGpuTachometer)"
| "arming_failure_endpoint _ = None"

section \<open>Guarded access\<close>

definition ensure_arming_running :: "(('p, 'l, 's) world, fan_arming_failure, unit) io" where
  "ensure_arming_running =
     try_io shutdown_is_requested (\<lambda>requested.
       return_io (if requested then Err ArmShutdownRequested else Ok ()))"

definition child_bindings :: "acer_hwmon_device \<Rightarrow> ('e, (string \<times> file_identity) list) outcome" where
  "child_bindings dev =
     bind_ok (endpoint_bindings dev)
       (map_ok (\<lambda>(path, identity). bind_ok (expect (file_name path)) (\<lambda>child. Ok (child, identity))))"

definition child_guards :: "(path \<times> string) list \<Rightarrow> ('e, (string \<times> string) list) outcome" where
  "child_guards = map_ok (\<lambda>(path, expected). bind_ok (expect (file_name path)) (\<lambda>child. Ok (child, expected)))"

text \<open>The guarded write of arming and of the control cycle: all six endpoints have to be the bound ones.\<close>

definition write_guarded ::
  "('p, 'l) platform_ops \<Rightarrow> acer_hwmon_device \<Rightarrow> path \<Rightarrow> (path \<times> string) list \<Rightarrow> string \<Rightarrow> duration
     \<Rightarrow> (('p, 'l, 's) world, platform_error, unit) io" where
  "write_guarded P dev path guards contents deadline =
     try_io (return_io (child_guards guards)) (\<lambda>guard_bindings.
     try_io (return_io (child_bindings dev)) (\<lambda>bindings.
     try_io (return_io (expect (file_name path))) (\<lambda>child.
       on_platform (write_bound_if_before P (dev_root dev) (backing_identity dev) bindings guard_bindings
         child contents deadline))))"

definition arming_write ::
  "('p, 'l) platform_ops \<Rightarrow> acer_hwmon_device \<Rightarrow> path \<Rightarrow> (path \<times> string) list \<Rightarrow> fan \<Rightarrow> string
     \<Rightarrow> fan_arming_operation \<Rightarrow> duration \<Rightarrow> (('p, 'l, 's) world, fan_arming_failure, unit) io" where
  "arming_write P dev path guards fan contents oper deadline =
     map_err_io (ArmPlatform fan oper None) (write_guarded P dev path guards contents deadline)"

definition arming_confirm ::
  "('p, 'l) platform_ops \<Rightarrow> acer_hwmon_device \<Rightarrow> path \<Rightarrow> fan \<Rightarrow> fan_arming_readback \<Rightarrow> string
     \<Rightarrow> fan_arming_operation \<Rightarrow> duration \<Rightarrow> (('p, 'l, 's) world, fan_arming_failure, unit) io" where
  "arming_confirm P dev path fan field expected oper deadline =
     try_io (map_err_io (ArmPlatform fan oper (Some field)) (read_bound P dev path deadline)) (\<lambda>actual.
       return_io (if trim actual \<noteq> expected then Err (ArmUnexpectedReadback fan field oper expected actual)
                  else Ok ()))"

definition confirm_device_identity ::
  "('p, 'l) platform_ops \<Rightarrow> acer_hwmon_device \<Rightarrow> duration \<Rightarrow> (('p, 'l, 's) world, fan_arming_failure, unit) io" where
  "confirm_device_identity P dev deadline =
     try_io (catch_io (on_platform (abi_is_current_before P dev deadline))) (\<lambda>r.
       return_io
         (case r of
            Inr current \<Rightarrow> if current then Ok () else Err ArmDeviceChanged
          | Inl (HwmonPlatform error) \<Rightarrow> Err (ArmDeviceIdentity error)
          | Inl error \<Rightarrow> Err (ArmDeviceAbi error)))"

definition confirm_fan_at_maximum ::
  "('p, 'l) platform_ops \<Rightarrow> acer_hwmon_device \<Rightarrow> fan_endpoints \<Rightarrow> fan \<Rightarrow> duration \<Rightarrow> fan_arming_operation
     \<Rightarrow> (('p, 'l, 's) world, fan_arming_failure, unit) io" where
  "confirm_fan_at_maximum P dev e fan deadline mode_operation =
     try_io (arming_confirm P dev (enable_path e) fan ArmMode arming_custom_control mode_operation deadline) (\<lambda>_.
       arming_confirm P dev (pwm_path e) fan ArmDuty arming_maximum_pwm mode_operation deadline)"

definition confirm_custom_at_maximum ::
  "('p, 'l) platform_ops \<Rightarrow> acer_hwmon_device \<Rightarrow> duration \<Rightarrow> fan_arming_operation
     \<Rightarrow> (('p, 'l, 's) world, fan_arming_failure, duration \<times> duration) io" where
  "confirm_custom_at_maximum P dev deadline mode_operation =
     try_io (confirm_fan_at_maximum P dev (dev_cpu dev) FanCpu deadline mode_operation) (\<lambda>_.
     try_io (now_io P) (\<lambda>cpu_confirmed_at.
     try_io (confirm_fan_at_maximum P dev (dev_gpu dev) FanGpu deadline mode_operation) (\<lambda>_.
     try_io (now_io P) (\<lambda>gpu_confirmed_at.
       return_io (Ok (cpu_confirmed_at, gpu_confirmed_at))))))"

section \<open>The tachometer response\<close>

definition parse_arming_rpm :: "fan \<Rightarrow> string \<Rightarrow> (fan_arming_failure, u32 option) outcome" where
  "parse_arming_rpm identity raw =
     (let value = trim raw
      in if value = [] \<or> \<not> list_all is_ascii_digit value then Err (ArmInvalidTachometer identity raw)
         else
           (case parse_unsigned 32 value of
              None \<Rightarrow> Err (ArmInvalidTachometer identity raw)
            | Some n \<Rightarrow>
                let rpm = of_nat n :: u32
                in if rpm = 0 then Ok None
                   else if minimum_plausible_rpm \<le> rpm \<and> rpm \<le> maximum_plausible_rpm then Ok (Some rpm)
                   else Err (ArmInvalidTachometer identity raw)))"

definition arming_read_tachometer ::
  "('p, 'l) platform_ops \<Rightarrow> acer_hwmon_device \<Rightarrow> fan_endpoints \<Rightarrow> fan \<Rightarrow> duration
     \<Rightarrow> (('p, 'l, 's) world, fan_arming_failure, u32 option) io" where
  "arming_read_tachometer P dev e identity deadline =
     try_io (map_err_io (ArmPlatform identity ArmReadTachometer None) (read_bound P dev (tachometer_path e) deadline)) (\<lambda>raw.
       return_io (parse_arming_rpm identity raw))"

text \<open>One turn of the polling loop: the speeds to report so far, or the response.\<close>

definition await_poll ::
  "('p, 'l) platform_ops \<Rightarrow> acer_hwmon_device \<Rightarrow> duration \<Rightarrow> u32 option \<times> u32 option
     \<Rightarrow> (('p, 'l, 's) world, fan_arming_failure, (u32 option \<times> u32 option) + (u32 \<times> u32)) io" where
  "await_poll P dev deadline last_rpms =
     try_io ensure_arming_running (\<lambda>_.
     try_io (now_io P) (\<lambda>now.
       if deadline \<le> now then return_io (Err (ArmTachometerTimeout (fst last_rpms) (snd last_rpms)))
       else
         try_io (arming_read_tachometer P dev (dev_cpu dev) FanCpu deadline) (\<lambda>cpu_rpm.
         try_io (arming_read_tachometer P dev (dev_gpu dev) FanGpu deadline) (\<lambda>gpu_rpm.
         try_io ensure_arming_running (\<lambda>_.
           case (cpu_rpm, gpu_rpm) of
             (Some c, Some g) \<Rightarrow> return_io (Ok (Inr (c, g)))
           | _ \<Rightarrow>
               try_io (now_io P) (\<lambda>now.
                 if deadline \<le> now then return_io (Err (ArmTachometerTimeout cpu_rpm gpu_rpm))
                 else
                   try_io (delay_io P (min tachometer_poll_interval (deadline - now))) (\<lambda>_.
                     return_io (Ok (Inl (cpu_rpm, gpu_rpm))))))))))"

partial_function (option) await_loop ::
  "('p, 'l) platform_ops \<Rightarrow> acer_hwmon_device \<Rightarrow> duration \<Rightarrow> u32 option \<times> u32 option
     \<Rightarrow> ('p, 'l, 's) world \<Rightarrow> ((fan_arming_failure, u32 \<times> u32) outcome \<times> ('p, 'l, 's) world) option" where
  "await_loop P dev deadline last_rpms w =
     (case await_poll P dev deadline last_rpms w of
        (Ok (Inl rpms), w') \<Rightarrow> await_loop P dev deadline rpms w'
      | (Ok (Inr response), w') \<Rightarrow> Some (Ok response, w')
      | (Err e, w') \<Rightarrow> Some (Err e, w')
      | (Panic, w') \<Rightarrow> Some (Panic, w'))"

definition await_tachometer_response_before ::
  "('p, 'l) platform_ops \<Rightarrow> acer_hwmon_device \<Rightarrow> duration \<Rightarrow> (('p, 'l, 's) world, fan_arming_failure, u32 \<times> u32) dio" where
  "await_tachometer_response_before P dev deadline = await_loop P dev deadline (None, None)"

definition await_tachometer_response ::
  "('p, 'l) platform_ops \<Rightarrow> acer_hwmon_device
     \<Rightarrow> (('p, 'l, 's) world, fan_arming_failure, u32 \<times> u32 \<times> duration) dio" where
  "await_tachometer_response P dev =
     try_dio (total_io (now_io P)) (\<lambda>now.
     try_dio (total_io (return_io (ok_or ArmDeadlineOverflow
       (duration_checked_add now arming_tachometer_response_window)))) (\<lambda>deadline.
     try_dio (await_tachometer_response_before P dev deadline) (\<lambda>(cpu_rpm, gpu_rpm).
       total_io (return_io (Ok (cpu_rpm, gpu_rpm, deadline))))))"

section \<open>The handover\<close>

text \<open>\<open>arm\<close> up to the confirmed maximum duties: no mode is written yet.\<close>

definition arm_stage ::
  "('p, 'l) platform_ops \<Rightarrow> acer_hwmon_device \<Rightarrow> complete_sample_set
     \<Rightarrow> (('p, 'l, 's) world, fan_arming_failure, duration) io" where
  "arm_stage P dev sample =
     (let cpu_enable = enable_path (dev_cpu dev); gpu_enable = enable_path (dev_gpu dev);
          auto_guards = [(cpu_enable, firmware_auto), (gpu_enable, firmware_auto)]
      in
     try_io ensure_arming_running (\<lambda>_.
     try_io (now_io P) (\<lambda>started_at.
     try_io (return_io (ok_or SampleFromFuture (duration_checked_sub started_at (css_completed_at sample)))) (\<lambda>sample_age.
     try_io (return_io (if normal_sample_cadence < sample_age then Err StaleSample else Ok ())) (\<lambda>_.
     try_io (return_io (ok_or ArmDeadlineOverflow (duration_checked_add started_at handover_window))) (\<lambda>deadline.
     try_io (confirm_device_identity P dev deadline) (\<lambda>_.
     try_io (arming_confirm P dev cpu_enable FanCpu ArmMode firmware_auto ArmConfirmFirmwareAuto deadline) (\<lambda>_.
     try_io (arming_confirm P dev gpu_enable FanGpu ArmMode firmware_auto ArmConfirmFirmwareAuto deadline) (\<lambda>_.
     try_io ensure_arming_running (\<lambda>_.
     try_io (arming_write P dev (pwm_path (dev_cpu dev)) auto_guards FanCpu arming_maximum_pwm ArmStageMaximum deadline) (\<lambda>_.
     try_io ensure_arming_running (\<lambda>_.
     try_io (arming_write P dev (pwm_path (dev_gpu dev)) auto_guards FanGpu arming_maximum_pwm ArmStageMaximum deadline) (\<lambda>_.
     try_io ensure_arming_running (\<lambda>_.
     try_io (arming_confirm P dev (pwm_path (dev_cpu dev)) FanCpu ArmDuty arming_maximum_pwm ArmReadDuty deadline) (\<lambda>_.
     try_io (arming_confirm P dev (pwm_path (dev_gpu dev)) FanGpu ArmDuty arming_maximum_pwm ArmReadDuty deadline) (\<lambda>_.
     try_io ensure_arming_running (\<lambda>_.
       return_io (Ok deadline))))))))))))))))))"

text \<open>\<open>arm\<close> from the first mode write to the first confirmation of both fans.\<close>

definition arm_enter ::
  "('p, 'l) platform_ops \<Rightarrow> acer_hwmon_device \<Rightarrow> duration
     \<Rightarrow> (('p, 'l, 's) world, fan_arming_failure, duration \<times> duration) io" where
  "arm_enter P dev deadline =
     (let cpu_enable = enable_path (dev_cpu dev); gpu_enable = enable_path (dev_gpu dev)
      in
     try_io (arming_write P dev cpu_enable [(cpu_enable, firmware_auto), (gpu_enable, firmware_auto)]
       FanCpu arming_custom_control ArmEnterCustom deadline) (\<lambda>_.
     try_io ensure_arming_running (\<lambda>_.
     try_io (arming_write P dev gpu_enable [(cpu_enable, arming_custom_control), (gpu_enable, firmware_auto)]
       FanGpu arming_custom_control ArmEnterCustom deadline) (\<lambda>_.
     try_io ensure_arming_running (\<lambda>_.
     try_io (confirm_custom_at_maximum P dev deadline ArmConfirmCustom) (\<lambda>confirmed.
     try_io ensure_arming_running (\<lambda>_.
       return_io (Ok confirmed))))))))"

text \<open>\<open>arm\<close> from the wait for the tachometers to the last confirmation.\<close>

definition arm_respond ::
  "('p, 'l) platform_ops \<Rightarrow> acer_hwmon_device \<Rightarrow> (('p, 'l, 's) world, fan_arming_failure, u32 \<times> u32) dio" where
  "arm_respond P dev =
     try_dio (await_tachometer_response P dev) (\<lambda>(_, _, response_deadline).
     try_dio (total_io (confirm_custom_at_maximum P dev response_deadline ArmFinalConfirmCustom)) (\<lambda>_.
     try_dio (total_io ensure_arming_running) (\<lambda>_.
     try_dio (await_tachometer_response_before P dev response_deadline) (\<lambda>rpms.
     try_dio (total_io (confirm_custom_at_maximum P dev response_deadline ArmFinalConfirmCustom)) (\<lambda>_.
     try_dio (total_io ensure_arming_running) (\<lambda>_.
       total_io (return_io (Ok rpms))))))))"

definition arm ::
  "('p, 'l) platform_ops \<Rightarrow> acer_hwmon_device \<Rightarrow> complete_sample_set \<Rightarrow> validated_config
     \<Rightarrow> qualified_tachometer_calibrations \<Rightarrow> u64 \<times> u64
     \<Rightarrow> (('p, 'l, 's) world, fan_arming_failure, armed_fan_control) dio" where
  "arm P dev sample config calibration ownership =
     try_dio (total_io (arm_stage P dev sample)) (\<lambda>deadline.
     try_dio (total_io (arm_enter P dev deadline)) (\<lambda>(cpu_at, gpu_at).
     try_dio (arm_respond P dev) (\<lambda>(cpu_rpm, gpu_rpm).
       total_io (return_io (Ok
         \<lparr>afc_ownership_id = fst ownership, afc_custom_epoch = snd ownership, afc_config = config, afc_device = dev,
          afc_calibration = calibration, afc_cpu_custom_confirmed_at = cpu_at,
          afc_gpu_custom_confirmed_at = gpu_at, afc_cpu_rpm = cpu_rpm, afc_gpu_rpm = gpu_rpm\<rparr>)))))"

text \<open>The checks before the Arming state is entered.\<close>

definition admit_arming ::
  "admitted_policy_authority \<Rightarrow> validated_config \<Rightarrow> arming_ready_sample
     \<Rightarrow> (('p, 'l, 's) world, fan_arming_failure, unit) io" where
  "admit_arming authority candidate ready =
     try_io (get_io (\<lambda>w. (ownership_id w, sampling_epoch w))) (\<lambda>(i, epoch).
     try_io (return_io
       (if belongs_to_ownership authority i then map_err ArmPolicy (validate_candidate authority candidate)
        else Err ForeignOwnershipAuthority)) (\<lambda>_.
     try_io ensure_arming_running (\<lambda>_.
       return_io
         (if ars_ownership_id ready \<noteq> i then Err ForeignOwnershipSample
          else if ars_sampling_epoch ready \<noteq> epoch then Err ObsoleteSampleEpoch
          else Ok ()))))"

definition when_io :: "bool \<Rightarrow> ('s, 'e, unit) io \<Rightarrow> ('s, 'e, unit) io" where
  "when_io b m = (if b then m else return_io (Ok ()))"

text \<open>The error arm: whatever the reason, the restoration runs.\<close>

definition reject_arming ::
  "('p, 'l) platform_ops \<Rightarrow> acer_hwmon_device \<Rightarrow> bool \<Rightarrow> fan_arming_failure
     \<Rightarrow> (('p, 'l, 's) world, fan_arming_error, armed_fan_control) io" where
  "reject_arming P dev entered_arming reason =
     try_io (emit_fault FaultArmingRejected (arming_failure_endpoint reason)) (\<lambda>_.
     try_io (when_io entered_arming (emit_state_transition StateArming StateRestoring ControlFault)) (\<lambda>_.
     try_io (restore_or_contain_firmware_auto P dev) (\<lambda>outcome.
       case outcome of
         SafingRestored \<Rightarrow>
           try_io (when_io entered_arming (emit_state_transition StateRestoring StateFirmwareAuto RestorationConfirmed)) (\<lambda>_.
             return_io (Err (ArmingRejected reason)))
       | SafingContained restoration containment \<Rightarrow>
           try_io (when_io entered_arming (emit_state_transition StateRestoring StateFirmwareAuto RestorationConfirmed)) (\<lambda>_.
             return_io (Err (ArmingRecovered reason restoration containment)))
       | SafingCritical restoration containment \<Rightarrow>
           try_io (emit_fault FaultContainmentUnconfirmed None) (\<lambda>_.
           try_io (emit_state_transition (if entered_arming then StateRestoring else StateFirmwareAuto)
                     StateFaultLatched RestorationFailed) (\<lambda>_.
             return_io (Err (ArmingRestorationFailed reason restoration containment)))))))"

definition arm_both_fans_safely_until ::
  "('p, 'l) platform_ops \<Rightarrow> acer_hwmon_device \<Rightarrow> admitted_policy_authority \<Rightarrow> validated_config \<Rightarrow> arming_ready_sample
     \<Rightarrow> (('p, 'l, 's) world, fan_arming_error, armed_fan_control) dio" where
  "arm_both_fans_safely_until P dev authority candidate ready =
     try_dio (total_io (catch_io (admit_arming authority candidate ready))) (\<lambda>admitted.
       case admitted of
         Inl reason \<Rightarrow> total_io (reject_arming P dev False reason)
       | Inr _ \<Rightarrow>
           try_dio (total_io (emit_state_transition StateFirmwareAuto StateArming TwoFreshSamples)) (\<lambda>_.
           try_dio (total_io (get_io ownership_id)) (\<lambda>i.
           try_dio (total_io (begin_custom_transition dev)) (\<lambda>epoch.
           try_dio (catch_dio (arm P dev (ars_sample ready) candidate (tachometer_calibrations authority) (i, epoch))) (\<lambda>result.
             case result of
               Inr armed \<Rightarrow>
                 total_io (try_io (emit_state_transition StateArming StateCustomControl ArmingConfirmed) (\<lambda>_.
                   return_io (Ok armed)))
             | Inl reason \<Rightarrow> total_io (reject_arming P dev True reason))))))"

text \<open>Without a caller's shutdown request: a fresh latch that nobody else holds.\<close>

definition arm_both_fans_safely ::
  "('p, 'l) platform_ops \<Rightarrow> acer_hwmon_device \<Rightarrow> admitted_policy_authority \<Rightarrow> validated_config \<Rightarrow> arming_ready_sample
     \<Rightarrow> (('p, 'l, 's) world, fan_arming_error, armed_fan_control) dio" where
  "arm_both_fans_safely P dev authority candidate ready w =
     (case arm_both_fans_safely_until P dev authority candidate ready (w\<lparr>latch := shutdown_open, signals := []\<rparr>) of
        None \<Rightarrow> None
      | Some (r, w') \<Rightarrow> Some (r, w'\<lparr>latch := latch w, signals := signals w\<rparr>))"

end
