(* ===== verification/Control_Cycle.thy ===== *)
theory Control_Cycle
  imports Arming
begin

text \<open>
  One cycle of normal control (\<open>fan-control-core/src/control_cycle.rs\<close>), with the fault mapping of
  \<open>diagnostics.rs\<close> it reports through. The \<open>HealthyControl\<close> object is the first component of the
  state, beside the world; its shutdown request is the latch of the world.
\<close>

section \<open>State and results\<close>

definition cycle_custom_control :: string where "cycle_custom_control = ''1''"

record control_demand_history =
  cdh_cpu_temperature :: effective_temperature
  cdh_gpu_temperature :: effective_temperature
  cdh_smoother :: demand_smoother

record healthy_control =
  hc_ownership_id :: u64
  hc_custom_epoch :: u64
  hc_config :: validated_config
  hc_device :: acer_hwmon_device
  hc_sample_gate :: sample_gate
  hc_demand_history :: "control_demand_history option"
  hc_last_outputs :: fan_outputs
  hc_tachometers :: tachometer_validator
  hc_invalidated :: bool

definition healthy_control_from_armed ::
  "armed_fan_control \<Rightarrow> (('p, 'l, 's) world, 'e, healthy_control) io" where
  "healthy_control_from_armed armed =
     (let parts = into_control_parts armed
      in try_io sample_gate_new (\<lambda>gate.
           return_io (Ok
             \<lparr>hc_ownership_id = acp_ownership_id parts, hc_custom_epoch = acp_custom_epoch parts,
              hc_config = acp_config parts, hc_device = acp_device parts, hc_sample_gate = gate,
              hc_demand_history = None, hc_last_outputs = fan_outputs_maximum,
              hc_tachometers = tachometer_validator_new (acp_calibration parts) pwm_maximum
                (acp_cpu_custom_confirmed_at parts) (acp_gpu_custom_confirmed_at parts),
              hc_invalidated = False\<rparr>)))"

definition control_is_current_for :: "healthy_control \<Rightarrow> ('p, 'l, 's) world \<Rightarrow> bool" where
  "control_is_current_for c w =
     (\<not> hc_invalidated c \<and> custom_epoch_is_current w (hc_ownership_id c) (hc_custom_epoch c))"

definition into_recovery_parts :: "healthy_control \<Rightarrow> validated_config \<times> acer_hwmon_device" where
  "into_recovery_parts c = (hc_config c, hc_device c)"

record completed_control_cycle =
  ccc_sample :: complete_sample_set
  ccc_outputs :: fan_outputs

datatype control_cycle_operation =
    CycleConfirmBeforeOutput | CycleReadPriorDuty | CycleWriteDuty | CycleConfirmWrittenDuty
  | CycleConfirmResult | CycleReadTachometer

datatype control_cycle_readback = CycleMode | CycleDuty

datatype healthy_control_cycle_error =
    CycleInvalidated
  | CycleStaleArmingReceipt
  | CycleShutdownRequested
  | CycleSample sample_set_error
  | CyclePolicyClock monotonic_time_error
  | CycleDeadlineOverflow
  | CycleDeadlineExceeded
  | CycleDevice acer_hwmon_discovery_error
  | CycleDeviceChanged
  | CyclePlatform fan control_cycle_operation "control_cycle_readback option" platform_error
  | CycleUnexpectedReadback fan control_cycle_readback control_cycle_operation string string
  | CycleMalformedTachometer fan string
  | CycleTachometerOutOfBand fan u32 u32

section \<open>Fault diagnostics\<close>

fun sample_endpoint :: "required_input \<Rightarrow> runtime_endpoint" where
  "sample_endpoint InputCpu = EndpointCpuTemperature"
| "sample_endpoint InputGpu = EndpointGpuTemperature"
| "sample_endpoint InputPower = EndpointExternalPower"

fun sample_fault :: "sample_set_error \<Rightarrow> runtime_fault \<times> runtime_endpoint option" where
  "sample_fault FirmwareAutoUnconfirmed = (FaultFirmwareAutoUnconfirmed, None)"
| "sample_fault (SampleInput input _) = (FaultSensorUnavailable, Some (sample_endpoint input))"
| "sample_fault (SampleStale input) = (FaultSensorStale, Some (sample_endpoint input))"
| "sample_fault (SampleFuture input) = (FaultSensorFromFuture, Some (sample_endpoint input))"
| "sample_fault (SampleLate input) = (FaultSensorLate, Some (sample_endpoint input))"
| "sample_fault (CadenceMissed _ _) = (FaultCadenceMissed, None)"
| "sample_fault ClockWentBackwards = (FaultDeadlineExceeded, None)"
| "sample_fault SampleDeadlineOverflow = (FaultDeadlineExceeded, None)"
| "sample_fault CaptureCycleOverflow = (FaultDeadlineExceeded, None)"

fun enable_endpoint :: "fan \<Rightarrow> runtime_endpoint" where
  "enable_endpoint FanCpu = EndpointCpuEnable"
| "enable_endpoint FanGpu = EndpointGpuEnable"

fun pwm_endpoint :: "fan \<Rightarrow> runtime_endpoint" where
  "pwm_endpoint FanCpu = EndpointCpuPwm"
| "pwm_endpoint FanGpu = EndpointGpuPwm"

fun tachometer_endpoint :: "fan \<Rightarrow> runtime_endpoint" where
  "tachometer_endpoint FanCpu = EndpointCpuTachometer"
| "tachometer_endpoint FanGpu = EndpointGpuTachometer"

fun readback_endpoint :: "fan \<Rightarrow> control_cycle_readback \<Rightarrow> runtime_endpoint" where
  "readback_endpoint fan CycleMode = enable_endpoint fan"
| "readback_endpoint fan CycleDuty = pwm_endpoint fan"

fun operation_endpoint ::
  "fan \<Rightarrow> control_cycle_operation \<Rightarrow> control_cycle_readback option \<Rightarrow> runtime_endpoint" where
  "operation_endpoint fan oper (Some field) = readback_endpoint fan field"
| "operation_endpoint fan CycleConfirmBeforeOutput None = enable_endpoint fan"
| "operation_endpoint fan CycleReadPriorDuty None = pwm_endpoint fan"
| "operation_endpoint fan CycleWriteDuty None = pwm_endpoint fan"
| "operation_endpoint fan CycleConfirmWrittenDuty None = pwm_endpoint fan"
| "operation_endpoint fan CycleConfirmResult None = pwm_endpoint fan"
| "operation_endpoint fan CycleReadTachometer None = tachometer_endpoint fan"

fun cycle_fault_diagnostic :: "healthy_control_cycle_error \<Rightarrow> runtime_fault \<times> runtime_endpoint option" where
  "cycle_fault_diagnostic CycleInvalidated = (FaultDeviceChanged, None)"
| "cycle_fault_diagnostic CycleStaleArmingReceipt = (FaultDeviceChanged, None)"
| "cycle_fault_diagnostic CycleShutdownRequested = (FaultShutdownRequested, None)"
| "cycle_fault_diagnostic (CycleSample error) = sample_fault error"
| "cycle_fault_diagnostic (CyclePolicyClock _) = (FaultDeadlineExceeded, None)"
| "cycle_fault_diagnostic CycleDeadlineOverflow = (FaultDeadlineExceeded, None)"
| "cycle_fault_diagnostic CycleDeadlineExceeded = (FaultDeadlineExceeded, None)"
| "cycle_fault_diagnostic (CycleDevice _) = (FaultDeviceChanged, None)"
| "cycle_fault_diagnostic CycleDeviceChanged = (FaultDeviceChanged, None)"
| "cycle_fault_diagnostic (CyclePlatform fan oper readback _) =
     (FaultPlatformOperation, Some (operation_endpoint fan oper readback))"
| "cycle_fault_diagnostic (CycleUnexpectedReadback fan field _ _ _) =
     (FaultUnexpectedReadback, Some (readback_endpoint fan field))"
| "cycle_fault_diagnostic (CycleMalformedTachometer fan _) =
     (FaultTachometerMalformed, Some (tachometer_endpoint fan))"
| "cycle_fault_diagnostic (CycleTachometerOutOfBand fan _ _) =
     (FaultTachometerOutOfBand, Some (tachometer_endpoint fan))"

definition emit_fault_diagnostic ::
  "runtime_fault \<times> runtime_endpoint option \<Rightarrow> (('p, 'l, 's) world, 'e, unit) io" where
  "emit_fault_diagnostic d = emit_fault (fst d) (snd d)"

section \<open>The next demand\<close>

definition next_history ::
  "validated_config \<Rightarrow> control_demand_history option \<Rightarrow> complete_sample_set
     \<Rightarrow> (healthy_control_cycle_error, control_demand_history) outcome" where
  "next_history config history sample =
     (let now = css_completed_at sample
      in case history of
           Some h \<Rightarrow>
             (case effective_temperature_update (css_cpu_temperature sample) (hysteresis (control config)) (cdh_cpu_temperature h) of
                (cpu_result, cpu_history) \<Rightarrow>
              case effective_temperature_update (css_gpu_temperature sample) (hysteresis (control config)) (cdh_gpu_temperature h) of
                (gpu_result, gpu_history) \<Rightarrow>
              bind_ok cpu_result (\<lambda>cpu_temperature.
              bind_ok gpu_result (\<lambda>gpu_temperature.
              bind_ok (calculate_target_demand config cpu_temperature gpu_temperature (css_external_power sample)) (\<lambda>target.
              case demand_smoother_update target now (cdh_smoother h) of
                (updated, smoother) \<Rightarrow>
                  bind_ok (map_err CyclePolicyClock updated) (\<lambda>_.
                    Ok \<lparr>cdh_cpu_temperature = cpu_history, cdh_gpu_temperature = gpu_history, cdh_smoother = smoother\<rparr>)))))
         | None \<Rightarrow>
             (let cpu_temperature = effective_temperature_new (css_cpu_temperature sample);
                  gpu_temperature = effective_temperature_new (css_gpu_temperature sample)
              in bind_ok (calculate_target_demand config (et_current cpu_temperature) (et_current gpu_temperature)
                            (css_external_power sample)) (\<lambda>target.
                   Ok \<lparr>cdh_cpu_temperature = cpu_temperature, cdh_gpu_temperature = gpu_temperature,
                       cdh_smoother = demand_smoother_new target (downshift (control config)) now\<rparr>)))"

definition next_outputs ::
  "validated_config \<Rightarrow> control_demand_history option \<Rightarrow> complete_sample_set
     \<Rightarrow> (healthy_control_cycle_error, control_demand_history \<times> fan_outputs) outcome" where
  "next_outputs config history sample =
     bind_ok (next_history config history sample) (\<lambda>next.
       Ok (next, fan_outputs_for_demand config (commanded (cdh_smoother next))))"

section \<open>Access to the fans\<close>

definition operation_error ::
  "fan \<Rightarrow> control_cycle_operation \<Rightarrow> control_cycle_readback option \<Rightarrow> platform_error \<Rightarrow> healthy_control_cycle_error" where
  "operation_error fan oper readback source =
     (if pe_kind source = TimedOut then CycleDeadlineExceeded else CyclePlatform fan oper readback source)"

definition ensure_running :: "(('p, 'l, 's) world, healthy_control_cycle_error, unit) io" where
  "ensure_running =
     try_io shutdown_is_requested (\<lambda>requested.
       return_io (if requested then Err CycleShutdownRequested else Ok ()))"

definition verify_device_before ::
  "('p, 'l) platform_ops \<Rightarrow> acer_hwmon_device \<Rightarrow> duration
     \<Rightarrow> (('p, 'l, 's) world, healthy_control_cycle_error, unit) io" where
  "verify_device_before P expected deadline =
     try_io (catch_io (on_platform (abi_is_current_before P expected deadline))) (\<lambda>r.
       return_io
         (case r of
            Inr current \<Rightarrow> if current then Ok () else Err CycleDeviceChanged
          | Inl (HwmonPlatform error) \<Rightarrow>
              if pe_kind error = TimedOut then Err CycleDeadlineExceeded else Err (CycleDevice (HwmonPlatform error))
          | Inl error \<Rightarrow> Err (CycleDevice error)))"

definition cycle_confirm ::
  "('p, 'l) platform_ops \<Rightarrow> acer_hwmon_device \<Rightarrow> path \<Rightarrow> fan \<Rightarrow> control_cycle_readback \<Rightarrow> string
     \<Rightarrow> control_cycle_operation \<Rightarrow> duration \<Rightarrow> (('p, 'l, 's) world, healthy_control_cycle_error, unit) io" where
  "cycle_confirm P dev path fan field expected oper deadline =
     try_io (map_err_io (operation_error fan oper (Some field)) (read_bound P dev path deadline)) (\<lambda>actual.
       return_io (if trim actual \<noteq> expected then Err (CycleUnexpectedReadback fan field oper expected actual)
                  else Ok ()))"

definition duty_text :: "pwm \<Rightarrow> string" where
  "duty_text value = dec_string (unat value)"

text \<open>One turn of the loop in \<open>confirm_state\<close>, for one fan.\<close>

definition confirm_fan_state ::
  "('p, 'l) platform_ops \<Rightarrow> acer_hwmon_device \<Rightarrow> fan \<Rightarrow> fan_endpoints \<Rightarrow> pwm \<Rightarrow> duration
     \<Rightarrow> control_cycle_operation \<Rightarrow> control_cycle_operation
     \<Rightarrow> (('p, 'l, 's) world, healthy_control_cycle_error, unit) io" where
  "confirm_fan_state P dev fan e value deadline mode_operation duty_operation =
     try_io (cycle_confirm P dev (enable_path e) fan CycleMode cycle_custom_control mode_operation deadline) (\<lambda>_.
       cycle_confirm P dev (pwm_path e) fan CycleDuty (duty_text value) duty_operation deadline)"

definition confirm_state ::
  "('p, 'l) platform_ops \<Rightarrow> acer_hwmon_device \<Rightarrow> fan_outputs \<Rightarrow> duration
     \<Rightarrow> control_cycle_operation \<Rightarrow> control_cycle_operation
     \<Rightarrow> (('p, 'l, 's) world, healthy_control_cycle_error, unit) io" where
  "confirm_state P dev outputs deadline mode_operation duty_operation =
     try_io (confirm_fan_state P dev FanCpu (dev_cpu dev) (cpu_pwm outputs) deadline mode_operation duty_operation) (\<lambda>_.
       confirm_fan_state P dev FanGpu (dev_gpu dev) (gpu_pwm outputs) deadline mode_operation duty_operation)"

definition cycle_write ::
  "('p, 'l) platform_ops \<Rightarrow> acer_hwmon_device \<Rightarrow> fan_endpoints \<Rightarrow> fan \<Rightarrow> pwm \<Rightarrow> duration
     \<Rightarrow> (('p, 'l, 's) world, healthy_control_cycle_error, unit) io" where
  "cycle_write P dev e fan value deadline =
     map_err_io (operation_error fan CycleWriteDuty None)
       (write_guarded P dev (pwm_path e)
          [(enable_path (dev_cpu dev), cycle_custom_control), (enable_path (dev_gpu dev), cycle_custom_control)]
          (duty_text value) deadline)"

text \<open>One turn of the loop in \<open>write_changed_outputs\<close>, for one fan.\<close>

definition write_changed_output ::
  "('p, 'l) platform_ops \<Rightarrow> acer_hwmon_device \<Rightarrow> fan \<Rightarrow> fan_endpoints \<Rightarrow> pwm \<Rightarrow> pwm \<Rightarrow> duration
     \<Rightarrow> (healthy_control \<times> ('p, 'l, 's) world, healthy_control_cycle_error, unit) io" where
  "write_changed_output P dev fan e previous_pwm next_pwm deadline =
     (if previous_pwm = next_pwm then return_io (Ok ())
      else
        try_io (on_snd ensure_running) (\<lambda>_.
        try_io (on_snd (cycle_confirm P dev (enable_path e) fan CycleMode cycle_custom_control CycleConfirmBeforeOutput deadline)) (\<lambda>_.
        try_io (on_snd ensure_running) (\<lambda>_.
        try_io (on_snd (cycle_write P dev e fan next_pwm deadline)) (\<lambda>_.
        try_io (on_snd ensure_running) (\<lambda>_.
        try_io (on_snd (cycle_confirm P dev (pwm_path e) fan CycleDuty (duty_text next_pwm) CycleConfirmWrittenDuty deadline)) (\<lambda>_.
        try_io (on_snd (now_io P)) (\<lambda>now.
          modify_fst (\<lambda>c. c\<lparr>hc_tachometers := command_confirmed fan next_pwm now (hc_tachometers c)\<rparr>)))))))))"

definition write_changed_outputs ::
  "('p, 'l) platform_ops \<Rightarrow> acer_hwmon_device \<Rightarrow> fan_outputs \<Rightarrow> fan_outputs \<Rightarrow> duration
     \<Rightarrow> (healthy_control \<times> ('p, 'l, 's) world, healthy_control_cycle_error, unit) io" where
  "write_changed_outputs P dev previous outputs deadline =
     try_io (write_changed_output P dev FanCpu (dev_cpu dev) (cpu_pwm previous) (cpu_pwm outputs) deadline) (\<lambda>_.
       write_changed_output P dev FanGpu (dev_gpu dev) (gpu_pwm previous) (gpu_pwm outputs) deadline)"

section \<open>Tachometers\<close>

definition cycle_read_tachometer ::
  "('p, 'l) platform_ops \<Rightarrow> acer_hwmon_device \<Rightarrow> fan_endpoints \<Rightarrow> fan \<Rightarrow> duration
     \<Rightarrow> (('p, 'l, 's) world, healthy_control_cycle_error, string) io" where
  "cycle_read_tachometer P dev e fan deadline =
     map_err_io (operation_error fan CycleReadTachometer None) (read_bound P dev (tachometer_path e) deadline)"

definition parse_tachometer :: "fan \<Rightarrow> string \<Rightarrow> (healthy_control_cycle_error, u32) outcome" where
  "parse_tachometer fan actual =
     (case parse_unsigned 32 (trim actual) of
        Some n \<Rightarrow> Ok (of_nat n)
      | None \<Rightarrow> Err (CycleMalformedTachometer fan actual))"

definition observe_tachometer ::
  "tachometer_validator \<Rightarrow> fan \<Rightarrow> u32 \<Rightarrow> duration \<Rightarrow> (healthy_control_cycle_error, unit) outcome" where
  "observe_tachometer tachometers fan rpm observed_at =
     (case observe tachometers fan rpm observed_at of
        Ok _ \<Rightarrow> Ok ()
      | Err DeadlineOverflow \<Rightarrow> Err CycleDeadlineOverflow
      | Err (OutOfBand expected actual) \<Rightarrow> Err (CycleTachometerOutOfBand fan expected actual)
      | Panic \<Rightarrow> Panic)"

text \<open>\<open>validate_tachometer_response\<close> does the same for the CPU fan, then for the GPU fan.\<close>

definition validate_fan_response ::
  "('p, 'l) platform_ops \<Rightarrow> acer_hwmon_device \<Rightarrow> tachometer_validator \<Rightarrow> fan \<Rightarrow> fan_endpoints \<Rightarrow> duration
     \<Rightarrow> (('p, 'l, 's) world, healthy_control_cycle_error, u32) io" where
  "validate_fan_response P dev tachometers fan e deadline =
     try_io (cycle_read_tachometer P dev e fan deadline) (\<lambda>raw.
     try_io (now_io P) (\<lambda>observed_at.
     try_io (return_io (parse_tachometer fan raw)) (\<lambda>rpm.
     try_io (return_io (observe_tachometer tachometers fan rpm observed_at)) (\<lambda>_.
       return_io (Ok rpm)))))"

definition validate_tachometer_response ::
  "('p, 'l) platform_ops \<Rightarrow> acer_hwmon_device \<Rightarrow> tachometer_validator \<Rightarrow> duration
     \<Rightarrow> (('p, 'l, 's) world, healthy_control_cycle_error, u32 \<times> u32) io" where
  "validate_tachometer_response P dev tachometers deadline =
     try_io (validate_fan_response P dev tachometers FanCpu (dev_cpu dev) deadline) (\<lambda>cpu_rpm.
     try_io (validate_fan_response P dev tachometers FanGpu (dev_gpu dev) deadline) (\<lambda>gpu_rpm.
       return_io (Ok (cpu_rpm, gpu_rpm))))"

section \<open>The cycle\<close>

definition on_gate ::
  "(sample_gate \<times> 'w, 'e, 'a) io \<Rightarrow> (healthy_control \<times> 'w, 'e, 'a) io" where
  "on_gate m cw =
     (case cw of (c, w) \<Rightarrow> (case m (hc_sample_gate c, w) of (r, (g, w')) \<Rightarrow> (r, (c\<lparr>hc_sample_gate := g\<rparr>, w'))))"

definition cycle_diagnostic ::
  "complete_sample_set \<Rightarrow> control_demand_history \<Rightarrow> fan_outputs \<Rightarrow> fan_outputs \<Rightarrow> u32 \<Rightarrow> u32 \<Rightarrow> control_cycle_diagnostic" where
  "cycle_diagnostic sample history outputs rpm_commands cpu_rpm gpu_rpm =
     \<lparr>ccd_cpu_temperature = css_cpu_temperature sample, ccd_gpu_temperature = css_gpu_temperature sample,
      ccd_external_power = css_external_power sample, ccd_demand = commanded (cdh_smoother history),
      ccd_cpu = \<lparr>fd_command = cpu_pwm outputs, fd_readback = cpu_pwm outputs, fd_rpm_command = cpu_pwm rpm_commands, fd_rpm = cpu_rpm\<rparr>,
      ccd_gpu = \<lparr>fd_command = gpu_pwm outputs, fd_readback = gpu_pwm outputs, fd_rpm_command = gpu_pwm rpm_commands, fd_rpm = gpu_rpm\<rparr>\<rparr>"

definition sample_control ::
  "('p, 'l) platform_ops \<Rightarrow> ('p, 's) sample_sources
     \<Rightarrow> (healthy_control \<times> ('p, 'l, 's) world, healthy_control_cycle_error, complete_sample_set) io" where
  "sample_control P S = map_err_io CycleSample (on_gate (control_gate_sample P S))"

text \<open>\<open>try_run_cycle\<close> after the sample: everything up to the writes reads only.\<close>

definition observe_cycle ::
  "('p, 'l) platform_ops \<Rightarrow> acer_hwmon_device \<Rightarrow> duration
     \<Rightarrow> (healthy_control \<times> ('p, 'l, 's) world, healthy_control_cycle_error, u32 \<times> u32) io" where
  "observe_cycle P dev deadline =
     try_io get_fst (\<lambda>c.
     try_io (on_snd (verify_device_before P dev deadline)) (\<lambda>_.
     try_io (on_snd ensure_running) (\<lambda>_.
     try_io (on_snd (confirm_state P dev (hc_last_outputs c) deadline CycleConfirmBeforeOutput CycleReadPriorDuty)) (\<lambda>_.
     try_io (on_snd ensure_running) (\<lambda>_.
     try_io (on_snd (verify_device_before P dev deadline)) (\<lambda>_.
     try_io (on_snd ensure_running) (\<lambda>_.
     try_io (on_snd (validate_tachometer_response P dev (hc_tachometers c) deadline)) (\<lambda>rpms.
     try_io (on_snd ensure_running) (\<lambda>_.
     try_io (on_snd (confirm_state P dev (hc_last_outputs c) deadline CycleConfirmResult CycleConfirmResult)) (\<lambda>_.
     try_io (on_snd ensure_running) (\<lambda>_.
     try_io (on_snd (verify_device_before P dev deadline)) (\<lambda>_.
     try_io (on_snd ensure_running) (\<lambda>_.
       return_io (Ok rpms))))))))))))))"

definition confirm_cycle ::
  "('p, 'l) platform_ops \<Rightarrow> acer_hwmon_device \<Rightarrow> fan_outputs \<Rightarrow> duration
     \<Rightarrow> (healthy_control \<times> ('p, 'l, 's) world, healthy_control_cycle_error, unit) io" where
  "confirm_cycle P dev outputs deadline =
     try_io (on_snd ensure_running) (\<lambda>_.
     try_io (on_snd (confirm_state P dev outputs deadline CycleConfirmResult CycleConfirmResult)) (\<lambda>_.
     try_io (on_snd ensure_running) (\<lambda>_.
     try_io (on_snd (verify_device_before P dev deadline)) (\<lambda>_.
       on_snd ensure_running))))"

definition try_run_cycle ::
  "('p, 'l) platform_ops \<Rightarrow> ('p, 's) sample_sources
     \<Rightarrow> (healthy_control \<times> ('p, 'l, 's) world, healthy_control_cycle_error, completed_control_cycle) io" where
  "try_run_cycle P S =
     try_io (on_snd ensure_running) (\<lambda>_.
     try_io get_fst (\<lambda>before.
     try_io (sample_control P S) (\<lambda>sample.
     try_io (on_snd ensure_running) (\<lambda>_.
     try_io (return_io (ok_or CycleDeadlineOverflow
       (duration_checked_add (css_cycle_started_at sample) normal_sample_cadence))) (\<lambda>deadline.
     try_io (return_io (next_outputs (hc_config before) (hc_demand_history before) sample)) (\<lambda>(history, outputs).
     try_io (observe_cycle P (hc_device before) deadline) (\<lambda>(cpu_rpm, gpu_rpm).
     try_io (write_changed_outputs P (hc_device before) (hc_last_outputs before) outputs deadline) (\<lambda>_.
     try_io (confirm_cycle P (hc_device before) outputs deadline) (\<lambda>_.
     try_io (modify_fst (\<lambda>c. c\<lparr>hc_demand_history := Some history, hc_last_outputs := outputs\<rparr>)) (\<lambda>_.
     try_io (on_snd (emit_control_cycle
       (cycle_diagnostic sample history outputs (hc_last_outputs before) cpu_rpm gpu_rpm))) (\<lambda>_.
       return_io (Ok \<lparr>ccc_sample = sample, ccc_outputs = outputs\<rparr>))))))))))))"

definition run_control_cycle ::
  "('p, 'l) platform_ops \<Rightarrow> ('p, 's) sample_sources
     \<Rightarrow> (healthy_control \<times> ('p, 'l, 's) world, healthy_control_cycle_error, completed_control_cycle) io" where
  "run_control_cycle P S =
     try_io get_fst (\<lambda>c.
       if hc_invalidated c then return_io (Err CycleInvalidated)
       else
         try_io (on_snd (get_io (control_is_current_for c))) (\<lambda>current.
           if \<not> current
           then try_io (modify_fst (\<lambda>c. c\<lparr>hc_invalidated := True\<rparr>)) (\<lambda>_.
                try_io (on_snd (emit_fault_diagnostic (cycle_fault_diagnostic CycleStaleArmingReceipt))) (\<lambda>_.
                  return_io (Err CycleStaleArmingReceipt)))
           else
             try_io (catch_io (try_run_cycle P S)) (\<lambda>result.
               case result of
                 Inr completed \<Rightarrow> return_io (Ok completed)
               | Inl error \<Rightarrow>
                   try_io (modify_fst (\<lambda>c. c\<lparr>hc_invalidated := True\<rparr>)) (\<lambda>_.
                   try_io (on_snd (emit_fault_diagnostic (cycle_fault_diagnostic error))) (\<lambda>_.
                     return_io (Err error))))))"

definition run_healthy_control_cycle ::
  "('p, 'l) platform_ops \<Rightarrow> ('p, 's) sample_sources
     \<Rightarrow> (healthy_control \<times> ('p, 'l, 's) world, healthy_control_cycle_error, completed_control_cycle) io" where
  "run_healthy_control_cycle P S = run_control_cycle P S"

end
