(* ===== verification/Sensor_Recovery.thy ===== *)
theory Sensor_Recovery
  imports Control_Cycle
begin

text \<open>
  Normal control with the one automatic recovery it permits
  (\<open>fan-control-core/src/sensor_recovery.rs\<close>). The state owns the sources of the current epoch as a
  value; while a call uses them they are the world's source state. The discovery of replacement
  sources is code of the daemon and a parameter here, as a state and an operation on it.
\<close>

section \<open>State and results\<close>

definition sensor_rediscovery_window :: duration where "sensor_rediscovery_window = from_secs 1"

record ('d, 'p, 's) sensor_source_discovery =
  rediscover :: "duration \<Rightarrow> ('d \<times> 'p, sample_source_error, 's) io"

datatype sensor_control_state = SensorCustomControl | SensorFirmwareAutoRecovery | SensorFaulted

datatype sensor_control_step =
    StepCompleted completed_control_cycle
  | StepFirmwareAutoRestored sample_set_error
  | StepAwaitingRediscovery sample_source_error
  | StepAwaitingSecondSample
  | StepRearmed

datatype transient_sensor_control_error =
    SensorControlFaulted
  | SensorShutdownRequested
  | ControlLatched healthy_control_cycle_error
  | ControlLatchContained healthy_control_cycle_error firmware_auto_restoration_error emergency_containment_report
  | ControlLatchCritical healthy_control_cycle_error firmware_auto_restoration_error emergency_containment_report
  | RecoveryLatched sample_set_error
  | RecoveryLatchContained sample_set_error firmware_auto_restoration_error emergency_containment_report
  | RecoveryLatchCritical sample_set_error firmware_auto_restoration_error emergency_containment_report
  | Rearming fan_arming_error

record 's recovery_state =
  rs_config :: validated_config
  rs_device :: acer_hwmon_device
  rs_gate :: sample_gate
  rs_sources :: "'s option"

datatype 's control_state =
    CustomState healthy_control 's
  | RecoveringState "'s recovery_state"
  | FaultedState "'s option"

record ('d, 's) transient_sensor_control =
  tsc_authority :: admitted_policy_authority
  tsc_discovery :: 'd
  tsc_state :: "'s control_state option"

type_synonym ('d, 'p, 'l, 's, 'e, 'a) sensor_io =
  "(('d, 's) transient_sensor_control \<times> ('p, 'l, 's) world, 'e, 'a) io"

definition sensor_control_from_armed ::
  "armed_fan_control \<Rightarrow> admitted_policy_authority \<Rightarrow> 'd \<Rightarrow> 's
     \<Rightarrow> (('p, 'l, 's) world, 'e, ('d, 's) transient_sensor_control) io" where
  "sensor_control_from_armed armed authority discovery sources =
     try_io (healthy_control_from_armed armed) (\<lambda>ctl.
       return_io (Ok \<lparr>tsc_authority = authority, tsc_discovery = discovery,
         tsc_state = Some (CustomState ctl sources)\<rparr>))"

fun state_of :: "'s control_state \<Rightarrow> sensor_control_state" where
  "state_of (CustomState _ _) = SensorCustomControl"
| "state_of (RecoveringState _) = SensorFirmwareAutoRecovery"
| "state_of (FaultedState _) = SensorFaulted"

definition sensor_control_state_of :: "('d, 's) transient_sensor_control \<Rightarrow> ('e, sensor_control_state) outcome" where
  "sensor_control_state_of t = bind_ok (expect (tsc_state t)) (\<lambda>st. Ok (state_of st))"

section \<open>Which faults are recoverable\<close>

fun recoverable_sensor_sample_fault :: "sample_set_error \<Rightarrow> bool" where
  "recoverable_sensor_sample_fault (SampleInput input _) = (input = InputCpu \<or> input = InputGpu)"
| "recoverable_sensor_sample_fault (SampleStale input) = (input = InputCpu \<or> input = InputGpu)"
| "recoverable_sensor_sample_fault (SampleFuture input) = (input = InputCpu \<or> input = InputGpu)"
| "recoverable_sensor_sample_fault (SampleLate input) = (input = InputCpu \<or> input = InputGpu)"
| "recoverable_sensor_sample_fault _ = False"

fun recoverable_sensor_cycle_fault :: "healthy_control_cycle_error \<Rightarrow> sample_set_error option" where
  "recoverable_sensor_cycle_fault (CycleSample fault) =
     (if recoverable_sensor_sample_fault fault then Some fault else None)"
| "recoverable_sensor_cycle_fault _ = None"

section \<open>Installing states and lending the sources\<close>

definition take_state :: "('d, 'p, 'l, 's, 'e, 's control_state) sensor_io" where
  "take_state =
     try_io get_fst (\<lambda>t.
     try_io (modify_fst (\<lambda>t. t\<lparr>tsc_state := None\<rparr>)) (\<lambda>_.
       return_io (expect (tsc_state t))))"

definition install :: "'s control_state \<Rightarrow> ('d, 'p, 'l, 's, 'e, unit) sensor_io" where
  "install st = modify_fst (\<lambda>t. t\<lparr>tsc_state := Some st\<rparr>)"

definition latch_with ::
  "'s control_state \<Rightarrow> 'e \<Rightarrow> ('d, 'p, 'l, 's, 'e, 'a) sensor_io" where
  "latch_with st error = try_io (install st) (\<lambda>_. return_io (Err error))"

text \<open>A call that borrows an object of the state and its sources, and hands both back.\<close>

definition lend ::
  "'c \<Rightarrow> 's \<Rightarrow> ('c \<times> ('p, 'l, 's) world, 'e, 'a) io \<Rightarrow> ('t \<times> ('p, 'l, 's) world, 'f, ('e + 'a) \<times> 'c \<times> 's) io" where
  "lend c s m tw =
     (case tw of (t, w) \<Rightarrow>
        (case m (c, w\<lparr>source_state := s\<rparr>) of (r, (c', w')) \<Rightarrow>
           (case r of
              Ok x \<Rightarrow> (Ok (Inr x, c', source_state w'), (t, w'))
            | Err e \<Rightarrow> (Ok (Inl e, c', source_state w'), (t, w'))
            | Panic \<Rightarrow> (Panic, (t, w')))))"

definition on_discovery ::
  "('d \<times> 'p, 'e, 'a) io \<Rightarrow> ('d, 'p, 'l, 's, 'e, 'a) sensor_io" where
  "on_discovery m tw =
     (case tw of (t, w) \<Rightarrow>
        (case m (tsc_discovery t, platform w) of (r, (d, p)) \<Rightarrow> (r, (t\<lparr>tsc_discovery := d\<rparr>, w\<lparr>platform := p\<rparr>))))"

definition on_snd_dio :: "('w, 'e, 'a) dio \<Rightarrow> ('t \<times> 'w, 'e, 'a) dio" where
  "on_snd_dio m tw =
     (case tw of (t, w) \<Rightarrow> (case m w of None \<Rightarrow> None | Some (r, w') \<Rightarrow> Some (r, (t, w'))))"

section \<open>Restoring and latching\<close>

definition emit_safing_outcome_diagnostics ::
  "firmware_auto_safing_outcome \<Rightarrow> (('p, 'l, 's) world, 'e, unit) io" where
  "emit_safing_outcome_diagnostics outcome =
     (case outcome of
        SafingCritical _ _ \<Rightarrow>
          try_io (emit_fault FaultContainmentUnconfirmed None) (\<lambda>_.
            emit_state_transition StateRestoring StateFaultLatched RestorationFailed)
      | _ \<Rightarrow> emit_state_transition StateRestoring StateFirmwareAuto RestorationConfirmed)"

definition restore_for_recovery ::
  "('p, 'l) platform_ops \<Rightarrow> validated_config \<Rightarrow> acer_hwmon_device \<Rightarrow> sample_set_error \<Rightarrow> 's
     \<Rightarrow> ('d, 'p, 'l, 's, transient_sensor_control_error, sensor_control_step) sensor_io" where
  "restore_for_recovery P config dev fault sources =
     try_io (on_snd (restore_or_contain_firmware_auto P dev)) (\<lambda>outcome.
     try_io (on_snd (emit_safing_outcome_diagnostics outcome)) (\<lambda>_.
       case outcome of
         SafingRestored \<Rightarrow>
           try_io (on_snd sample_gate_new) (\<lambda>gate.
           try_io (install (RecoveringState \<lparr>rs_config = config, rs_device = dev, rs_gate = gate, rs_sources = None\<rparr>)) (\<lambda>_.
             return_io (Ok (StepFirmwareAutoRestored fault))))
       | SafingContained restoration containment \<Rightarrow>
           try_io (on_snd (emit_state_transition StateFirmwareAuto StateFaultLatched RestorationFailed)) (\<lambda>_.
             latch_with (FaultedState None) (RecoveryLatchContained fault restoration containment))
       | SafingCritical restoration containment \<Rightarrow>
           latch_with (FaultedState (Some sources)) (RecoveryLatchCritical fault restoration containment)))"

definition latch_control_fault ::
  "('p, 'l) platform_ops \<Rightarrow> acer_hwmon_device \<Rightarrow> healthy_control_cycle_error \<Rightarrow> 's
     \<Rightarrow> ('d, 'p, 'l, 's, transient_sensor_control_error, sensor_control_step) sensor_io" where
  "latch_control_fault P dev fault sources =
     try_io (on_snd (restore_or_contain_firmware_auto P dev)) (\<lambda>outcome.
     try_io (on_snd (emit_safing_outcome_diagnostics outcome)) (\<lambda>_.
       case outcome of
         SafingRestored \<Rightarrow>
           try_io (on_snd (emit_state_transition StateFirmwareAuto StateFaultLatched ControlFault)) (\<lambda>_.
             latch_with (FaultedState None) (ControlLatched fault))
       | SafingContained restoration containment \<Rightarrow>
           try_io (on_snd (emit_state_transition StateFirmwareAuto StateFaultLatched ControlFault)) (\<lambda>_.
             latch_with (FaultedState None) (ControlLatchContained fault restoration containment))
       | SafingCritical restoration containment \<Rightarrow>
           latch_with (FaultedState (Some sources)) (ControlLatchCritical fault restoration containment)))"

definition latch_recovery_fault ::
  "('p, 'l) platform_ops \<Rightarrow> acer_hwmon_device \<Rightarrow> sample_set_error \<Rightarrow> 's option
     \<Rightarrow> ('d, 'p, 'l, 's, transient_sensor_control_error, sensor_control_step) sensor_io" where
  "latch_recovery_fault P dev fault sources =
     try_io (on_snd (restore_or_contain_firmware_auto P dev)) (\<lambda>outcome.
     try_io (on_snd (emit_safing_outcome_diagnostics outcome)) (\<lambda>_.
       case outcome of
         SafingRestored \<Rightarrow>
           try_io (on_snd (emit_state_transition StateFirmwareAuto StateFaultLatched ControlFault)) (\<lambda>_.
             latch_with (FaultedState None) (RecoveryLatched fault))
       | SafingContained restoration containment \<Rightarrow>
           try_io (on_snd (emit_state_transition StateFirmwareAuto StateFaultLatched ControlFault)) (\<lambda>_.
             latch_with (FaultedState None) (RecoveryLatchContained fault restoration containment))
       | SafingCritical restoration containment \<Rightarrow>
           latch_with (FaultedState sources) (RecoveryLatchCritical fault restoration containment)))"

section \<open>One step\<close>

definition step_custom ::
  "('p, 'l) platform_ops \<Rightarrow> ('p, 's) sample_sources \<Rightarrow> healthy_control \<Rightarrow> 's
     \<Rightarrow> ('d, 'p, 'l, 's, transient_sensor_control_error, sensor_control_step) sensor_io" where
  "step_custom P S ctl sources =
     try_io (lend ctl sources (run_healthy_control_cycle P S)) (\<lambda>(r, ctl, sources).
       case r of
         Inr completed \<Rightarrow>
           try_io (install (CustomState ctl sources)) (\<lambda>_. return_io (Ok (StepCompleted completed)))
       | Inl CycleShutdownRequested \<Rightarrow>
           try_io (on_snd (emit_state_transition StateCustomControl StateFaultLatched Shutdown)) (\<lambda>_.
             latch_with (FaultedState (Some sources)) SensorShutdownRequested)
       | Inl error \<Rightarrow>
           (case recoverable_sensor_cycle_fault error of
              None \<Rightarrow>
                try_io (on_snd (emit_state_transition StateCustomControl StateRestoring ControlFault)) (\<lambda>_.
                  latch_control_fault P (snd (into_recovery_parts ctl)) error sources)
            | Some fault \<Rightarrow>
                try_io (on_snd (emit_state_transition StateCustomControl StateRestoring SensorFault)) (\<lambda>_.
                  restore_for_recovery P (fst (into_recovery_parts ctl)) (snd (into_recovery_parts ctl)) fault sources)))"

text \<open>A shutdown request seen while Firmware Auto owns the fans.\<close>

definition latch_shutdown ::
  "'s option \<Rightarrow> ('d, 'p, 'l, 's, transient_sensor_control_error, 'a) sensor_io" where
  "latch_shutdown sources =
     try_io (on_snd (emit_fault FaultShutdownRequested None)) (\<lambda>_.
     try_io (on_snd (emit_state_transition StateFirmwareAuto StateFaultLatched Shutdown)) (\<lambda>_.
       latch_with (FaultedState sources) SensorShutdownRequested))"

text \<open>The sources of the recovery: those installed, or rediscovered ones. A left value ends the step.\<close>

definition recovery_sources ::
  "('p, 'l) platform_ops \<Rightarrow> ('d, 'p, 's) sensor_source_discovery \<Rightarrow> 's recovery_state
     \<Rightarrow> ('d, 'p, 'l, 's, transient_sensor_control_error, sensor_control_step + sample_gate \<times> 's) sensor_io" where
  "recovery_sources P D r =
     (case rs_sources r of
        Some sources \<Rightarrow> return_io (Ok (Inr (rs_gate r, sources)))
      | None \<Rightarrow>
          try_io (on_snd (refresh_firmware_auto_confirmation P (rs_device r))) (\<lambda>confirmed.
            if \<not> confirmed then
              try_io (on_snd (emit_fault FaultFirmwareAutoUnconfirmed None)) (\<lambda>_.
              try_io (on_snd (emit_state_transition StateFirmwareAuto StateRestoring ControlFault)) (\<lambda>_.
              try_io (latch_recovery_fault P (rs_device r) FirmwareAutoUnconfirmed None) (\<lambda>step.
                return_io (Ok (Inl step)))))
            else
              try_io (on_snd (now_io P)) (\<lambda>now.
              try_io (catch_io (on_discovery (rediscover D (duration_saturating_add now sensor_rediscovery_window)))) (\<lambda>found.
                case found of
                  Inr rediscovered \<Rightarrow> return_io (Ok (Inr (gate_reset (rs_gate r), rediscovered)))
                | Inl source \<Rightarrow>
                    try_io (on_snd (emit_fault FaultSensorUnavailable None)) (\<lambda>_.
                    try_io (install (RecoveringState (r\<lparr>rs_sources := None\<rparr>))) (\<lambda>_.
                      return_io (Ok (Inl (StepAwaitingRediscovery source)))))))))"

text \<open>The handover at the end of a recovery.\<close>

definition rearm ::
  "('p, 'l) platform_ops \<Rightarrow> validated_config \<Rightarrow> acer_hwmon_device \<Rightarrow> 's \<Rightarrow> arming_ready_sample
     \<Rightarrow> (('d, 's) transient_sensor_control \<times> ('p, 'l, 's) world, transient_sensor_control_error, sensor_control_step) dio" where
  "rearm P config dev sources sample =
     try_dio (total_io get_fst) (\<lambda>t.
     try_dio (catch_dio (on_snd_dio (arm_both_fans_safely_until P dev (tsc_authority t) config sample))) (\<lambda>result.
       case result of
         Inr armed \<Rightarrow>
           total_io (try_io (on_snd (healthy_control_from_armed armed)) (\<lambda>ctl.
             try_io (install (CustomState ctl sources)) (\<lambda>_. return_io (Ok StepRearmed))))
       | Inl error \<Rightarrow>
           (let failed = (case error of ArmingRestorationFailed _ _ _ \<Rightarrow> True | _ \<Rightarrow> False)
            in total_io (try_io (on_snd shutdown_is_requested) (\<lambda>requested.
                 if requested \<and> \<not> failed then latch_with (FaultedState None) SensorShutdownRequested
                 else
                   try_io (when_io (\<not> failed)
                     (on_snd (emit_state_transition StateFirmwareAuto StateFaultLatched ControlFault))) (\<lambda>_.
                     latch_with (FaultedState (if failed then Some sources else None)) (Rearming error)))))))"

text \<open>What follows a collected sample set.\<close>

definition after_sample ::
  "('p, 'l) platform_ops \<Rightarrow> 's recovery_state \<Rightarrow> (sample_set_error + ownership_sample_readiness) \<times> sample_gate \<times> 's
     \<Rightarrow> (('d, 's) transient_sensor_control \<times> ('p, 'l, 's) world, transient_sensor_control_error, sensor_control_step) dio" where
  "after_sample P r taken =
     (case taken of (readiness, gate, sources) \<Rightarrow>
       (case readiness of
          Inr OwnershipAwaitingSecondSample \<Rightarrow>
            total_io (try_io (catch_io (on_snd (wait_for_next_sample P gate))) (\<lambda>waited.
              case waited of
                Inl fault \<Rightarrow>
                  try_io (on_snd (emit_fault_diagnostic (sample_fault fault))) (\<lambda>_.
                  try_io (on_snd (emit_state_transition StateFirmwareAuto StateRestoring ControlFault)) (\<lambda>_.
                    latch_recovery_fault P (rs_device r) fault (Some sources)))
              | Inr _ \<Rightarrow>
                  try_io (install (RecoveringState (r\<lparr>rs_gate := gate, rs_sources := Some sources\<rparr>))) (\<lambda>_.
                    return_io (Ok StepAwaitingSecondSample))))
        | Inr (OwnershipReady sample) \<Rightarrow>
            try_dio (total_io (on_snd shutdown_is_requested)) (\<lambda>requested.
              if requested then total_io (latch_shutdown (Some sources))
              else rearm P (rs_config r) (rs_device r) sources sample)
        | Inl fault \<Rightarrow>
            total_io (try_io (on_snd (emit_fault_diagnostic (sample_fault fault))) (\<lambda>_.
              if recoverable_sensor_sample_fault fault then
                try_io (on_snd (emit_state_transition StateFirmwareAuto StateRestoring SensorFault)) (\<lambda>_.
                  restore_for_recovery P (rs_config r) (rs_device r) fault sources)
              else
                try_io (on_snd (emit_state_transition StateFirmwareAuto StateRestoring ControlFault)) (\<lambda>_.
                  latch_recovery_fault P (rs_device r) fault (Some sources))))))"

definition step_recovering ::
  "('p, 'l) platform_ops \<Rightarrow> ('p, 's) sample_sources \<Rightarrow> ('d, 'p, 's) sensor_source_discovery \<Rightarrow> 's recovery_state
     \<Rightarrow> (('d, 's) transient_sensor_control \<times> ('p, 'l, 's) world, transient_sensor_control_error, sensor_control_step) dio" where
  "step_recovering P S D r =
     try_dio (total_io (on_snd shutdown_is_requested)) (\<lambda>requested.
       if requested then total_io (latch_shutdown (rs_sources r))
       else
         try_dio (total_io (recovery_sources P D r)) (\<lambda>found.
           case found of
             Inl step \<Rightarrow> total_io (return_io (Ok step))
           | Inr (gate, sources) \<Rightarrow>
               try_dio (total_io (lend gate sources (collect_fresh_sample P S (rs_device r)))) (after_sample P r)))"

definition step ::
  "('p, 'l) platform_ops \<Rightarrow> ('p, 's) sample_sources \<Rightarrow> ('d, 'p, 's) sensor_source_discovery
     \<Rightarrow> (('d, 's) transient_sensor_control \<times> ('p, 'l, 's) world, transient_sensor_control_error, sensor_control_step) dio" where
  "step P S D =
     try_dio (total_io take_state) (\<lambda>st.
       case st of
         CustomState ctl sources \<Rightarrow> total_io (step_custom P S ctl sources)
       | RecoveringState r \<Rightarrow> step_recovering P S D r
       | FaultedState retained \<Rightarrow> total_io (latch_with (FaultedState retained) SensorControlFaulted))"

end
