(* ===== verification/Arming_Contract.thy ===== *)
theory Arming_Contract
  imports Arming "HOL-Library.Code_Target_Nat"
begin

text \<open>
  What the handover promises: its effect on the fan files on success and at every point where it
  can stop, the order of its writes, that a failure restores, and that it returns.
\<close>

section \<open>Runs that poll the latch\<close>

definition ran_on :: "('p \<Rightarrow> duration) \<Rightarrow> ('p, 'l, 's) world \<Rightarrow> ('p, 'l, 's) world \<Rightarrow> bool" where
  "ran_on now w w' =
     (w' = w\<lparr>platform := platform w', journal := journal w', latch := latch w', signals := signals w'\<rparr>
      \<and> now (platform w) \<le> now (platform w'))"

text \<open>The run stored nothing but \<open>v\<close> and that only at \<open>A\<close>.\<close>

definition stores ::
  "('p \<Rightarrow> path \<Rightarrow> string option) \<Rightarrow> ('p \<Rightarrow> duration) \<Rightarrow> path set \<Rightarrow> string \<Rightarrow> ('p, 'l, 's) world \<Rightarrow> ('p, 'l, 's) world \<Rightarrow> bool" where
  "stores content now A v w w' = (ran_on now w w' \<and> only_stored A v (content (platform w)) (content (platform w')))"

abbreviation keeps ::
  "('p \<Rightarrow> path \<Rightarrow> string option) \<Rightarrow> ('p \<Rightarrow> duration) \<Rightarrow> ('p, 'l, 's) world \<Rightarrow> ('p, 'l, 's) world \<Rightarrow> bool" where
  "keeps content now \<equiv> stores content now {} []"

lemma ran_on_trans: "ran_on now w w1 \<Longrightarrow> ran_on now w1 w2 \<Longrightarrow> ran_on now w w2"
  by (cases w; cases w1; cases w2) (auto simp: ran_on_def)

lemma ran_to_on: "ran_to sound now w w' \<Longrightarrow> ran_on now w w'"
  by (cases w; cases w') (auto simp: ran_to_def ran_on_def)

lemma ran_on_refl [simp]: "ran_on now w w"
  by (simp add: ran_on_def)

lemma ran_on_now: "ran_on now w w' \<Longrightarrow> now (platform w) \<le> now (platform w')"
  by (simp add: ran_on_def)

lemma stores_transp: "transp (stores content now A v)"
  by (auto intro!: transpI simp: stores_def intro: ran_on_trans only_stored_trans)

lemma stores_refl [simp]: "stores content now A v w w"
  by (simp add: stores_def only_stored_refl)

lemma only_stored_empty [simp]: "only_stored {} v c c' \<longleftrightarrow> c' = c"
  by (auto simp: only_stored_def)

lemma keeps_content: "keeps content now w w' \<longleftrightarrow> ran_on now w w' \<and> content (platform w') = content (platform w)"
  by (simp add: stores_def)

lemma keeps_stores: "keeps content now w w' \<Longrightarrow> stores content now A v w w'"
  by (simp add: stores_def only_stored_refl)

lemma ran_on_fields:
  assumes "ran_on now w w'"
  shows "restoration_confirmed w' = restoration_confirmed w" "controlled_device w' = controlled_device w"
    "ownership_id w' = ownership_id w" "sampling_epoch w' = sampling_epoch w" "own_lock w' = own_lock w"
    "source_state w' = source_state w" "sampling_epoch_started w' = sampling_epoch_started w"
    "foreign_device dev w' = foreign_device dev w"
proof -
  have e: "w' = w\<lparr>platform := platform w', journal := journal w', latch := latch w', signals := signals w'\<rparr>"
    using assms by (simp add: ran_on_def)
  show "restoration_confirmed w' = restoration_confirmed w" "controlled_device w' = controlled_device w"
    "ownership_id w' = ownership_id w" "sampling_epoch w' = sampling_epoch w" "own_lock w' = own_lock w"
    "source_state w' = source_state w" "sampling_epoch_started w' = sampling_epoch_started w"
    "foreign_device dev w' = foreign_device dev w"
    by (subst e, simp add: foreign_device_def)+
qed

lemma wp_shutdown_is_requested:
  "wp shutdown_is_requested (\<lambda>r w'. (\<exists>b. r = Ok b) \<and> platform w' = platform w \<and> journal w' = journal w \<and> ran_on now w w') w"
  by (auto simp: wp_def shutdown_is_requested_def deliver_signal_def ran_on_def Let_def split: list.splits)

lemma guards_total:
  assumes "device_ok dev" "fst ` set gs \<subseteq> set (device_paths dev)"
  shows "\<exists>gs'. child_guards gs = (Ok gs' :: ('e, _) outcome)
      \<and> (guards_hold c (dev_root dev) gs' \<longleftrightarrow> (\<forall>(path, e) \<in> set gs. \<exists>v. c path = Some v \<and> trim v = e))"
  using assms(2)
proof (induction gs)
  case (Cons g gs)
  obtain path e where g: "g = (path, e)" by (cases g)
  obtain name where n: "file_name path = Some name" "direct_bound_child (dev_root dev) name = Ok path"
    using device_path_names [OF assms(1), of path] Cons.prems g by auto
  have "fst ` set gs \<subseteq> set (device_paths dev)" using Cons.prems by auto
  from Cons.IH [OF this] obtain gs' where "child_guards gs = (Ok gs' :: ('e, _) outcome)
    \<and> (guards_hold c (dev_root dev) gs' \<longleftrightarrow> (\<forall>(path, e) \<in> set gs. \<exists>v. c path = Some v \<and> trim v = e))" by (rule exE)
  then show ?case using n g by (auto simp: child_guards_def guards_hold_def)
qed (simp add: child_guards_def guards_hold_def)

lemma child_bindings_total: "device_ok dev \<Longrightarrow> \<exists>bs. child_bindings dev = (Ok bs :: ('e, _) outcome)"
proof -
  assume d: "device_ok dev"
  obtain bs where b: "endpoint_bindings dev = (Ok bs :: ('e, _) outcome)" "map fst bs = device_paths dev"
    using endpoint_bindings_total [OF d] by blast
  have "file_name (fst x) \<noteq> None" if "x \<in> set bs" for x
  proof -
    have "fst x \<in> set (device_paths dev)" using that by (simp add: b(2) [symmetric])
    then show ?thesis using device_path_names [OF d] by (metis option.distinct(1))
  qed
  then have "map_ok (\<lambda>(path, identity). bind_ok (expect (file_name path)) (\<lambda>child. Ok (child, identity))) bs
      = (Ok (map (\<lambda>(path, identity). (the (file_name path), identity)) bs) :: ('e, _) outcome)"
    by (intro map_ok_total) (fastforce simp: expect_def split: option.splits)
  then show ?thesis using b(1) by (simp add: child_bindings_def)
qed

section \<open>The steps on a platform of the interface\<close>

lemma wp_seq_total:
  assumes "transp R" "\<And>p p'. N p \<Longrightarrow> R p p' \<Longrightarrow> N p'" "wp m (\<lambda>r p'. (N p \<longrightarrow> r \<noteq> Panic) \<and> R p p') p"
    "\<And>x p1. R p p1 \<Longrightarrow> wp (f x) (\<lambda>r p'. (N p1 \<longrightarrow> r \<noteq> Panic) \<and> R p1 p') p1"
  shows "wp (try_io m f) (\<lambda>r p'. (N p \<longrightarrow> r \<noteq> Panic) \<and> R p p') p"
  by (rule wp_try [OF assms(3)])
    (auto intro: wp_mono [OF assms(4)] transpD [OF assms(1)] assms(2))

text \<open>
  What every bounded query of the platform keeps, the check of the device keeps. \<open>N\<close> is the
  condition under which nothing panics.
\<close>

lemma abi_current_rel:
  fixes P :: "('p, 'l) platform_ops"
  assumes "transp R" "\<And>p p'. N p \<Longrightarrow> R p p' \<Longrightarrow> N p'" "reflp R" "\<And>p. N p \<Longrightarrow> device_ok dev"
    and "\<And>p dir dl. wp (list_before P dir dl) (\<lambda>r p'. (N p \<longrightarrow> r \<noteq> Panic) \<and> R p p') p"
    and "\<And>p path dl. wp (identity_before P path dl) (\<lambda>r p'. (N p \<longrightarrow> r \<noteq> Panic) \<and> R p p') p"
    and "\<And>p dir i dl. wp (list_bound_before P dir i dl) (\<lambda>r p'. (N p \<longrightarrow> r \<noteq> Panic) \<and> R p p') p"
    and "\<And>p dir i child ci dl. wp (permissions_bound_before P dir i child ci dl) (\<lambda>r p'. (N p \<longrightarrow> r \<noteq> Panic) \<and> R p p') p"
    and "\<And>p dir i child ci dl. wp (read_bound_before P dir i child ci dl) (\<lambda>r p'. (N p \<longrightarrow> r \<noteq> Panic) \<and> R p p') p"
  shows "wp (abi_is_current_before P dev dl) (\<lambda>r p'. (N p \<longrightarrow> r \<noteq> Panic) \<and> R p p') p"
proof -
  have ret: "N p \<longrightarrow> r \<noteq> Panic \<Longrightarrow> wp (return_io r) (\<lambda>r p'. (N p \<longrightarrow> r \<noteq> Panic) \<and> R p p') p" for r p
    using assms(3) by (simp add: wp_return reflpD)
  have err: "wp m (\<lambda>r p'. (N p \<longrightarrow> r \<noteq> Panic) \<and> R p p') p \<Longrightarrow> wp (hwmon_io m) (\<lambda>r p'. (N p \<longrightarrow> r \<noteq> Panic) \<and> R p p') p"
    for m :: "('p, platform_error, 'x) io" and p
    by (simp add: hwmon_io_def wp_map_err_io)
  note steps = wp_seq_total [OF assms(1,2)] ret err assms(5-9)
  have np: "validate_hwmon_entry r c \<noteq> Panic" "validate_each_entry_name r es \<noteq> Panic"
    "validate_endpoint_counts r es cs \<noteq> Panic" for r c es cs
    by (simp add: validate_hwmon_entry_def Let_def, induction es, auto split: option.splits)
      (induction cs, auto split: if_splits)
  have np2: "validate_entry_names r es \<noteq> Panic" "the_single_device ds \<noteq> Panic" for r es ds
    using np by (auto simp: validate_entry_names_def bind_ok_eq_Panic the_single_device_def split: list.splits)
  have scan: "wp (scan_candidates_before P root dl cs found) (\<lambda>r p'. (N p \<longrightarrow> r \<noteq> Panic) \<and> R p p') p" for root cs found p
    by (induction cs arbitrary: found p) (simp_all add: ret, intro steps, simp_all add: np)
  have find: "wp (find_acer_devices_before P root dl) (\<lambda>r p'. (N p \<longrightarrow> r \<noteq> Panic) \<and> R p p') p" for root p
    unfolding find_acer_devices_before_def by (intro steps scan)
  have perm: "wp (require_permissions_bound_before P r i c ci e dl) (\<lambda>r p'. (N p \<longrightarrow> r \<noteq> Panic) \<and> R p p') p" for r i c ci e p
    unfolding require_permissions_bound_before_def by (intro steps) auto
  have perms: "wp (require_bindings_permissions P dev dl bs) (\<lambda>r p'. (N p \<longrightarrow> r \<noteq> Panic) \<and> R p p') p"
    if "device_ok dev \<longrightarrow> fst ` set bs \<subseteq> set (device_paths dev)" for bs p
    using that
  proof (induction bs arbitrary: p)
    case (Cons b bs)
    obtain path i where b: "b = (path, i)" by (cases b)
    have "N p \<longrightarrow> (expect (file_name path) :: (acer_hwmon_discovery_error, _) outcome) \<noteq> Panic"
    proof
      assume "N p"
      then have "device_ok dev" "path \<in> set (device_paths dev)" using Cons.prems assms(4) b by auto
      then obtain name where "file_name path = Some name" by (rule device_path_names)
      then show "(expect (file_name path) :: (acer_hwmon_discovery_error, _) outcome) \<noteq> Panic" by simp
    qed
    moreover have "device_ok dev \<longrightarrow> fst ` set bs \<subseteq> set (device_paths dev)" using Cons.prems by simp
    ultimately show ?case unfolding b require_bindings_permissions.simps Let_def
      by (intro steps perm Cons.IH)
  qed (simp add: ret)
  have bound: "wp (try_io (return_io (endpoint_bindings dev)) (require_bindings_permissions P dev dl))
      (\<lambda>r p'. (N p \<longrightarrow> r \<noteq> Panic) \<and> R p p') p" for p
  proof (cases "device_ok dev")
    case True
    obtain bs where bs: "endpoint_bindings dev = (Ok bs :: (acer_hwmon_discovery_error, _) outcome)" "map fst bs = device_paths dev"
      using endpoint_bindings_total [OF True] by blast
    have "fst ` set bs = set (device_paths dev)" using bs(2) by (metis list.set_map)
    then show ?thesis unfolding bs(1) try_io_known by (intro perms) simp
  next
    case False
    then have "\<not> N p" for p using assms(4) by blast
    then show ?thesis using False by (intro steps perms) auto
  qed
  have abi: "wp (validate_exact_two_fan_abi_before P dev dl) (\<lambda>r p'. (N p \<longrightarrow> r \<noteq> Panic) \<and> R p p') p" for p
    unfolding validate_exact_two_fan_abi_before_def Let_def
    by (intro steps perm) (auto simp: np2 ret intro!: steps perm bound)
  have ids: "wp (identities_current P dl es) (\<lambda>r p'. (N p \<longrightarrow> r \<noteq> Panic) \<and> R p p') p"
    if "device_ok dev \<longrightarrow> (\<forall>e \<in> set es. snd e \<noteq> None)" for es p
    using that
  proof (induction es arbitrary: p)
    case (Cons e es)
    obtain path i where e: "e = (path, i)" by (cases e)
    have i: "N p \<longrightarrow> (expect i :: (acer_hwmon_discovery_error, _) outcome) \<noteq> Panic" for p
      using Cons.prems e assms(4) by (auto simp: expect_def split: option.splits)
    have "device_ok dev \<longrightarrow> (\<forall>e \<in> set es. snd e \<noteq> None)" using Cons.prems by simp
    from Cons.IH [OF this] show ?case
      unfolding e identities_current.simps by (intro steps) (auto simp: i ret)
  qed (simp add: ret)
  have bnd: "device_ok dev \<longrightarrow> (\<forall>e \<in> set (device_endpoints dev). snd e \<noteq> None)"
    by (auto simp: device_endpoints_def device_ok_def bound_channel_def)
  show ?thesis
    unfolding abi_is_current_before_def
    by (intro steps find) (auto simp: np2 ret intro!: steps abi ids [OF bnd])
qed

definition holds_text :: "(path \<Rightarrow> string option) \<Rightarrow> path \<Rightarrow> string \<Rightarrow> bool" where
  "holds_text c path v = (\<exists>raw. c path = Some raw \<and> trim raw = v)"

lemma ensure_arming_triple:
  fixes now :: "'p \<Rightarrow> duration" and R :: "('p, 'l, 's) world \<Rightarrow> ('p, 'l, 's) world \<Rightarrow> bool"
  assumes "\<And>w w'. ran_on now w w' \<Longrightarrow> platform w' = platform w \<Longrightarrow> R w w'"
  shows "triple (\<lambda>w. sound (platform w)) R ensure_arming_running (\<lambda>_ _. True)"
proof (rule tripleI)
  fix w :: "('p, 'l, 's) world" assume "sound (platform w)"
  then show "wp ensure_arming_running (\<lambda>r w'. r \<noteq> Panic \<and> sound (platform w') \<and> R w w' \<and> (\<forall>y. r = Ok y \<longrightarrow> True)) w"
    unfolding ensure_arming_running_def
    by (intro wp_try [OF wp_shutdown_is_requested [where now = now]]) (auto simp: wp_return intro: assms)
qed

definition at_maximum :: "(path \<Rightarrow> string option) \<Rightarrow> fan_endpoints \<Rightarrow> bool" where
  "at_maximum c fan =
     (holds_text c (enable_path fan) arming_custom_control \<and> holds_text c (pwm_path fan) arming_maximum_pwm)"

definition custom_at_maximum :: "acer_hwmon_device \<Rightarrow> (path \<Rightarrow> string option) \<Rightarrow> bool" where
  "custom_at_maximum dev c = (\<forall>fan \<in> device_fans dev. at_maximum c fan)"

definition duties_staged :: "acer_hwmon_device \<Rightarrow> (path \<Rightarrow> string option) \<Rightarrow> bool" where
  "duties_staged dev c = (\<forall>path \<in> pwm_paths dev. holds_text c path arming_maximum_pwm)"

context fan_platform
begin

abbreviation ok :: "('p, 'l, 's) world \<Rightarrow> bool" where
  "ok w \<equiv> sound (platform w)"

lemma now_triple: "triple ok (stores content now A v) (now_io P) (\<lambda>_ _. True)"
  by (rule tripleI, rule wp_mono [OF now_io_spec])
    (auto simp: stores_def only_stored_refl dest: ran_to_sound ran_to_on)

lemma ensure_triple: "triple ok (stores content now A v) ensure_arming_running (\<lambda>_ _. True)"
  by (rule ensure_arming_triple [where now = now]) (simp add: stores_def only_stored_refl)

lemma return_triple: "r \<noteq> Panic \<Longrightarrow> (\<And>y w. r = Ok y \<Longrightarrow> ok w \<Longrightarrow> G y w) \<Longrightarrow> triple ok (stores content now A v) (return_io r) G"
  by (rule triple_return) auto

lemma read_triple:
  assumes "device_ok dev" "path \<in> set (device_paths dev)"
  shows "triple ok (stores content now A v) (read_bound P dev path dl) (\<lambda>y w'. content (platform w') path = Some y)"
  by (rule tripleI, rule wp_mono [OF read_bound_spec [OF assms]])
    (auto simp: stores_def only_stored_refl dest: ran_to_sound ran_to_on)

lemma confirm_triple:
  assumes "device_ok dev" "path \<in> set (device_paths dev)"
  shows "triple ok (stores content now A v) (arming_confirm P dev path fan field expected oper dl)
    (\<lambda>_ w'. holds_text (content (platform w')) path expected)"
proof (rule tripleI)
  fix w :: "('p, 'l, 's) world" assume s: "ok w"
  show "wp (arming_confirm P dev path fan field expected oper dl) (\<lambda>r w'. r \<noteq> Panic \<and> ok w' \<and> stores content now A v w w'
    \<and> (\<forall>y. r = Ok y \<longrightarrow> holds_text (content (platform w')) path expected)) w"
    unfolding arming_confirm_def
    by (rule wp_try [OF tripleD [OF triple_map_err [OF read_triple [OF assms]] s]]) (auto simp: wp_return holds_text_def)
qed

lemma abi_wp:
  assumes "device_ok dev" "sound p"
  shows "wp (abi_is_current_before P dev dl) (\<lambda>r p'. r \<noteq> Panic \<and> steady sound content now p p') p"
proof -
  let ?R = "\<lambda>p p'. sound p \<longrightarrow> steady sound content now p p'"
  have t: "transp ?R" by (auto intro!: transpI simp: steady_def)
  have n: "wp m (\<lambda>r p'. (sound p \<longrightarrow> r \<noteq> Panic) \<and> ?R p p') p" if "sound p \<Longrightarrow> wp m (\<lambda>r p'. steady sound content now p p' \<and> r \<noteq> Panic) p"
    for p and m :: "('p, platform_error, 'x) io"
    using that by (cases "sound p") (auto simp: wp_def split: prod.splits)
  have rd: "sound p \<Longrightarrow> wp (read_bound_before P dir i child ci dl) (\<lambda>r p'. steady sound content now p p' \<and> r \<noteq> Panic) p"
    for p dir i child ci dl by (rule wp_mono [OF read_spec]) auto
  have "wp (abi_is_current_before P dev dl) (\<lambda>r p'. (sound p \<longrightarrow> r \<noteq> Panic) \<and> ?R p p') p"
    by (rule abi_current_rel [OF t _ _ _ n [OF list_spec] n [OF identity_spec] n [OF list_bound_spec] n [OF permissions_spec] n [OF rd]])
      (use assms(1) in \<open>auto simp: steady_def intro: reflpI\<close>)
  then show ?thesis using assms(2) by simp
qed

lemma abi_triple:
  assumes "device_ok dev"
  shows "triple ok (stores content now A v) (on_platform (abi_is_current_before P dev dl)) (\<lambda>_ _. True)"
  unfolding triple_def wp_on_platform
  by (intro allI impI wp_mono [OF abi_wp [OF assms]]) (auto simp: stores_def ran_on_def steady_def only_stored_refl)

lemma identity_triple:
  assumes "device_ok dev"
  shows "triple ok (stores content now A v) (confirm_device_identity P dev dl) (\<lambda>_ _. True)"
  unfolding confirm_device_identity_def
  by (intro triple_try stores_transp triple_catch abi_triple [OF assms] return_triple)
    (auto split: sum.splits acer_hwmon_discovery_error.splits)

lemma write_triple:
  assumes "device_ok dev" "path \<in> set (device_paths dev)" "path \<in> A" "fst ` set gs \<subseteq> set (device_paths dev)"
  shows "triple ok (stores content now A v) (write_guarded P dev path gs v dl)
    (\<lambda>_ w'. content (platform w') path = Some v)"
proof (rule tripleI)
  fix w :: "('p, 'l, 's) world" assume s: "ok w"
  obtain gs' where g: "child_guards gs = (Ok gs' :: (platform_error, _) outcome)" using guards_total [OF assms(1,4)] by blast
  obtain bs where b: "child_bindings dev = (Ok bs :: (platform_error, _) outcome)" using child_bindings_total [OF assms(1)] by blast
  obtain name where n: "file_name path = Some name" "direct_bound_child (dev_root dev) name = Ok path"
    using device_path_names [OF assms(1,2)] by metis
  show "wp (write_guarded P dev path gs v dl) (\<lambda>r w'. r \<noteq> Panic \<and> ok w' \<and> stores content now A v w w'
    \<and> (\<forall>y. r = Ok y \<longrightarrow> content (platform w') path = Some v)) w"
    unfolding write_guarded_def g b n(1) try_io_known outcome_combinators wp_on_platform
    by (rule wp_mono [OF write_spec [OF s]])
      (use assms(3) in \<open>auto simp: write_effect_def n(2) stores_def ran_on_def only_stored_def split: if_splits\<close>)
qed

lemma arming_write_triple:
  assumes "device_ok dev" "path \<in> set (device_paths dev)" "path \<in> A" "fst ` set gs \<subseteq> set (device_paths dev)"
  shows "triple ok (stores content now A v) (arming_write P dev path gs fan v oper dl) (\<lambda>_ w'. content (platform w') path = Some v)"
  unfolding arming_write_def by (intro triple_map_err write_triple assms)

lemma maximum_triple:
  assumes "device_ok dev" "fan \<in> device_fans dev"
  shows "triple ok (keeps content now) (confirm_fan_at_maximum P dev fan i dl oper)
    (\<lambda>_ w'. holds_text (content (platform w')) (enable_path fan) arming_custom_control
       \<and> holds_text (content (platform w')) (pwm_path fan) arming_maximum_pwm)"
proof (rule tripleI)
  fix w :: "('p, 'l, 's) world" assume s: "ok w"
  have p: "enable_path fan \<in> set (device_paths dev)" "pwm_path fan \<in> set (device_paths dev)"
    using assms(2) by (auto simp: device_fans_def)
  show "wp (confirm_fan_at_maximum P dev fan i dl oper) (\<lambda>r w'. r \<noteq> Panic \<and> ok w' \<and> keeps content now w w'
    \<and> (\<forall>y. r = Ok y \<longrightarrow> holds_text (content (platform w')) (enable_path fan) arming_custom_control
       \<and> holds_text (content (platform w')) (pwm_path fan) arming_maximum_pwm)) w"
    unfolding confirm_fan_at_maximum_def
  proof (rule wp_try [OF tripleD [OF confirm_triple [OF assms(1) p(1), where A = "{}" and v = "[]"] s]], goal_cases)
    case (1 x w1)
    then have "ok w1" by simp
    show ?case
      by (rule wp_mono [OF tripleD [OF confirm_triple [OF assms(1) p(2), where A = "{}" and v = "[]"] \<open>ok w1\<close>]])
        (use 1 in \<open>auto simp: keeps_content intro: ran_on_trans\<close>)
  qed auto
qed

lemma keeps_text: "holds_text (content (platform w)) path v \<Longrightarrow> keeps content now w w' \<Longrightarrow> holds_text (content (platform w')) path v"
  by (simp add: keeps_content)

lemma custom_triple:
  assumes "device_ok dev"
  shows "triple ok (keeps content now) (confirm_custom_at_maximum P dev dl oper)
    (\<lambda>_ w'. custom_at_maximum dev (content (platform w')))"
proof -
  have f: "dev_cpu dev \<in> device_fans dev" "dev_gpu dev \<in> device_fans dev" by (simp_all add: device_fans_def)
  let ?K = "\<lambda>w. at_maximum (content (platform w)) (dev_cpu dev)" and ?L = "\<lambda>w. at_maximum (content (platform w)) (dev_gpu dev)"
  have k: "?K w \<Longrightarrow> keeps content now w w' \<Longrightarrow> ?K w'" "?L w \<Longrightarrow> keeps content now w w' \<Longrightarrow> ?L w'" for w w'
    by (simp_all add: keeps_content)
  note m = maximum_triple [OF assms, folded at_maximum_def]
  show ?thesis
    unfolding confirm_custom_at_maximum_def
    by (rule triple_bind [OF stores_transp m [OF f(1)]], rule triple_try [OF stores_transp triple_frame [OF now_triple k(1)]],
        assumption, assumption, rule triple_bind [OF stores_transp triple_frame [OF m [OF f(2)] k(1)]],
        assumption, assumption, rule triple_try [OF stores_transp triple_frame [OF triple_frame [OF now_triple k(1)] k(2)]])
      (auto intro!: triple_return simp: custom_at_maximum_def device_fans_def)
qed

lemma stage_triple:
  assumes "device_ok dev"
  shows "triple ok (stores content now (pwm_paths dev) arming_maximum_pwm) (arm_stage P dev sample)
    (\<lambda>_ w'. duties_staged dev (content (platform w')))"
proof -
  let ?c = "pwm_path (dev_cpu dev)" and ?g = "pwm_path (dev_gpu dev)"
  let ?R = "stores content now (pwm_paths dev) arming_maximum_pwm"
  have p: "?c \<in> pwm_paths dev" "?g \<in> pwm_paths dev" by (simp_all add: pwm_paths_def)
  have k: "holds_text (content (platform w)) path arming_maximum_pwm \<Longrightarrow> ?R w w' \<Longrightarrow> holds_text (content (platform w')) path arming_maximum_pwm"
    for path and w w' :: "('p, 'l, 'b) world"
    by (auto simp: stores_def only_stored_def holds_text_def arming_maximum_pwm_def) (metis option.inject trim_constants(2) maximum_pwm_def)+
  note st = triple_try [OF stores_transp]
  have tail: "triple ok ?R (try_io (arming_confirm P dev ?c FanCpu ArmDuty arming_maximum_pwm ArmReadDuty dl) (\<lambda>_.
     try_io (arming_confirm P dev ?g FanGpu ArmDuty arming_maximum_pwm ArmReadDuty dl) (\<lambda>_.
     try_io ensure_arming_running (\<lambda>_. return_io (Ok dl))))) (\<lambda>_ w'. duties_staged dev (content (platform w')))" for dl
    by (rule triple_bind [OF stores_transp confirm_triple [OF assms device_path_in(3)]],
        rule triple_bind [OF stores_transp triple_frame [OF confirm_triple [OF assms device_path_in(4)] k]], assumption, assumption,
        rule triple_try [OF stores_transp triple_frame [OF triple_frame [OF ensure_triple k] k]], assumption, assumption, assumption, assumption)
      (auto intro!: triple_return simp: duties_staged_def pwm_paths_def)
  show ?thesis
    unfolding arm_stage_def Let_def
    by (intro st ensure_triple now_triple identity_triple tail assms return_triple
        triple_mono [OF confirm_triple] triple_mono [OF arming_write_triple])
      (auto simp: p ok_or_def split: option.splits)
qed

lemma enter_triple:
  assumes "device_ok dev"
  shows "triple ok (stores content now (enable_paths dev) arming_custom_control) (arm_enter P dev dl)
    (\<lambda>_ w'. custom_at_maximum dev (content (platform w')))"
proof -
  have p: "enable_path (dev_cpu dev) \<in> enable_paths dev" "enable_path (dev_gpu dev) \<in> enable_paths dev"
    by (simp_all add: enable_paths_def)
  let ?K = "\<lambda>w. custom_at_maximum dev (content (platform w))"
  have k: "?K w \<Longrightarrow> keeps content now w w' \<Longrightarrow> ?K w'" for w w' :: "('p, 'l, 'b) world" by (simp add: keeps_content)
  have tail: "triple ok (keeps content now) (try_io (confirm_custom_at_maximum P dev dl ArmConfirmCustom) (\<lambda>confirmed.
     try_io ensure_arming_running (\<lambda>_. return_io (Ok confirmed)))) (\<lambda>_ w'. ?K w')"
    by (rule triple_bind [OF stores_transp custom_triple [OF assms]],
        rule triple_try [OF stores_transp triple_frame [OF ensure_triple k]], assumption, assumption) (auto intro!: triple_return)
  show ?thesis
    unfolding arm_enter_def Let_def
    by (intro triple_try [OF stores_transp] ensure_triple triple_mono [OF arming_write_triple] triple_mono [OF tail] assms)
      (auto simp: p intro: keeps_stores)
qed

end

text \<open>
  The files wherever the handover may stop: only the two maxima and the two modes are stored, and
  a mode only when both duties are at the maximum.
\<close>

definition handover_safe :: "acer_hwmon_device \<Rightarrow> (path \<Rightarrow> string option) \<Rightarrow> (path \<Rightarrow> string option) \<Rightarrow> bool" where
  "handover_safe dev c c' =
     (\<forall>path. c' path = c path
        \<or> path \<in> pwm_paths dev \<and> c' path = Some arming_maximum_pwm
        \<or> path \<in> enable_paths dev \<and> c' path = Some arming_custom_control \<and> duties_staged dev c')"

lemma handover_staged: "only_stored (pwm_paths dev) arming_maximum_pwm c c' \<Longrightarrow> handover_safe dev c c'"
  by (auto simp: only_stored_def handover_safe_def)

lemma handover_entered:
  assumes "device_ok dev" "only_stored (pwm_paths dev) arming_maximum_pwm c c1" "duties_staged dev c1"
    "only_stored (enable_paths dev) arming_custom_control c1 c2"
  shows "handover_safe dev c c2"
proof -
  have "c2 path = c1 path" if "path \<in> pwm_paths dev" for path
    using assms(4) pwm_enable_disjoint [OF assms(1)] that by (auto simp: only_stored_def)
  then have "duties_staged dev c2" using assms(3) by (auto simp: duties_staged_def holds_text_def)
  then show ?thesis using assms(2,4) unfolding handover_safe_def only_stored_def by metis
qed

section \<open>Restoration after a failure\<close>

definition safing_confirmed :: "firmware_auto_safing_outcome \<Rightarrow> bool" where
  "safing_confirmed out = (case out of SafingCritical _ _ \<Rightarrow> False | _ \<Rightarrow> True)"

lemma safing_confirmed_iff: "safing_confirmed out \<longleftrightarrow> (\<forall>e rep. out \<noteq> SafingCritical e rep)"
  by (cases out) (auto simp: safing_confirmed_def)

definition arming_critical :: "fan_arming_error \<Rightarrow> bool" where
  "arming_critical e = (case e of ArmingRestorationFailed _ _ _ \<Rightarrow> True | _ \<Rightarrow> False)"

lemma invalidate_epoch:
  "wp invalidate_firmware_auto_epoch (\<lambda>r w'. (r = Ok () \<longrightarrow> unat (sampling_epoch w') = unat (sampling_epoch w) + 1)
     \<and> (unat (sampling_epoch w) + 1 < 2 ^ 64 \<longrightarrow> r \<noteq> Panic)) w"
proof (cases "word_checked_add (sampling_epoch w) 1")
  case None
  then have "\<not> unat (sampling_epoch w) + 1 < 2 ^ 64" by (auto simp: word_checked_add_def split: if_splits)
  then show ?thesis using None by (simp add: invalidate_firmware_auto_epoch_def wp_modify_io wp_try_io reset_sampling_epoch_def wp_def)
next
  case (Some n)
  then show ?thesis using unat_word_checked_add [OF Some]
    by (simp add: invalidate_firmware_auto_epoch_def wp_modify_io wp_try_io reset_sampling_epoch_def wp_def)
qed

context fan_platform
begin

text \<open>What the owner's restoration ends with, and that only an exhausted epoch counter makes it panic.\<close>

lemma safing_effect:
  assumes "device_ok dev" "sound (platform w)"
  shows "wp (restore_or_contain_firmware_auto P dev) (\<lambda>r w'.
      (unat (sampling_epoch w) + 2 < 2 ^ 64 \<longrightarrow> r \<noteq> Panic)
    \<and> (\<forall>out. r = Ok out \<longrightarrow> safing_confirmed out \<longrightarrow> in_firmware_auto dev (content (platform w')))) w"
  unfolding restore_or_contain_firmware_auto_def
proof (rule wp_try [OF wp_catch [where R = "\<lambda>r w'. (unat (sampling_epoch w) + 1 < 2 ^ 64 \<longrightarrow> r \<noteq> Panic)
      \<and> (r \<noteq> Panic \<longrightarrow> unat (sampling_epoch w') = unat (sampling_epoch w) + 1 \<and> sound (platform w'))
      \<and> (r = Ok () \<longrightarrow> in_firmware_auto dev (content (platform w')))"]], goal_cases)
  case 1
  show ?case
    unfolding owned_restore_firmware_auto_def
  proof (rule wp_try [OF wp_conj [OF invalidate_spec invalidate_epoch]], goal_cases)
    case (1 x w1)
    then have "sound (platform w1)" using assms(2) by simp
    from restore_spec [OF assms(1) this] show ?case
      by (rule wp_try) (use 1 in \<open>auto simp: io_simps ran_to_fields split: option.splits dest: ran_to_sound\<close>)
  qed auto
next
  case (2 x w1)
  show ?case
  proof (cases x)
    case (Inl e)
    then have s1: "sound (platform w1)" "unat (sampling_epoch w1) = unat (sampling_epoch w) + 1" using 2 by auto
    show ?thesis
      unfolding Inl sum.case owned_contain_custom_fans_at_maximum_def
    proof (rule wp_try [of _ "\<lambda>r w'. (unat (sampling_epoch w1) + 1 < 2 ^ 64 \<longrightarrow> r \<noteq> Panic)
        \<and> (\<forall>rep. r = Ok rep \<longrightarrow> report_restoration_confirmed rep \<longrightarrow> in_firmware_auto dev (content (platform w')))"], goal_cases)
      case 1
      show ?case
      proof (rule wp_try [OF wp_conj [OF invalidate_spec invalidate_epoch]], goal_cases)
        case (1 x w2)
        then have "sound (platform w2)" using s1 by simp
        from contain_spec [OF assms(1) this] show ?case
          by (rule wp_try) (auto simp: io_simps containment_effect_def dest: contained_auto)
      qed auto
    qed (use s1(2) in \<open>auto simp: io_simps safing_confirmed_def\<close>)
  qed (use 2 in \<open>auto simp: wp_return\<close>)
qed auto

lemma reject_effect:
  assumes "device_ok dev" "sound (platform w)"
  shows "wp (reject_arming P dev entered reason) (\<lambda>r w'.
      (unat (sampling_epoch w) + 2 < 2 ^ 64 \<longrightarrow> r \<noteq> Panic)
    \<and> (r \<noteq> Panic \<longrightarrow> (\<exists>e. r = Err e \<and> arming_reason e = reason \<and> owner_safe sound content w'
        \<and> safing_writes dev (content (platform w)) (content (platform w'))
        \<and> (restoration_confirmed w' \<longleftrightarrow> \<not> arming_critical e)
        \<and> (\<not> arming_critical e \<longrightarrow> in_firmware_auto dev (content (platform w')))))) w"
proof -
  have j: "owner_safe sound content (w'\<lparr>journal := js\<rparr>) = owner_safe sound content w'" for w' :: "('p, 'l, 'b) world" and js
    by (simp add: owner_safe_def foreign_device_def)
  have s: "sound (platform (w\<lparr>journal := js\<rparr>))" for js using assms(2) by simp
  note sp = wp_conj [OF safing_safe [OF assms(1) s] safing_effect [OF assms(1) s]]
  show ?thesis
    unfolding reject_arming_def emit_fault_def emit_state_transition_def when_io_def
      wp_try_io [of "emit (FaultEvent FaultArmingRejected _)"] wp_emit outcome.case
  proof (rule wp_try [where R = "\<lambda>r w1. r = Ok () \<and> (\<exists>js. w1 = w\<lparr>journal := js\<rparr>)"], goal_cases)
    case (2 u w1)
    then obtain js where w1: "w1 = w\<lparr>journal := js\<rparr>" by blast
    show ?case
      unfolding w1 by (rule wp_try [OF sp]) (auto simp: io_simps j arming_critical_def safing_confirmed_iff split: firmware_auto_safing_outcome.splits)
  qed (auto simp: io_simps)
qed

end

text \<open>What has to agree before the Arming state is entered.\<close>

definition admits :: "admitted_policy_authority \<Rightarrow> validated_config \<Rightarrow> arming_ready_sample \<Rightarrow> ('p, 'l, 's) world \<Rightarrow> bool" where
  "admits authority candidate ready w \<longleftrightarrow>
     belongs_to_ownership authority (ownership_id w) \<and> config_covers candidate (apa_protected authority)
     \<and> ars_ownership_id ready = ownership_id w \<and> ars_sampling_epoch ready = sampling_epoch w"

lemma begin_custom_spec:
  "wp (begin_custom_transition dev) (\<lambda>r w'. r = Panic \<and> \<not> unat (sampling_epoch w) + 1 < 2 ^ 64
     \<or> (\<exists>epoch. r = Ok epoch \<and> \<not> restoration_confirmed w' \<and> platform w' = platform w \<and> ownership_id w' = ownership_id w
          \<and> controlled_device w' = Some (backing_identity dev) \<and> sampling_epoch w' = epoch
          \<and> unat epoch = unat (sampling_epoch w) + 1)) w"
proof (cases "word_checked_add (sampling_epoch w) 1")
  case None
  then have "\<not> unat (sampling_epoch w) + 1 < 2 ^ 64" by (auto simp: word_checked_add_def split: if_splits)
  then show ?thesis using None
    by (simp add: begin_custom_transition_def wp_def try_io_def modify_io_def reset_sampling_epoch_def)
next
  case (Some n)
  then show ?thesis using unat_word_checked_add [OF Some]
    by (simp add: begin_custom_transition_def wp_def try_io_def modify_io_def reset_sampling_epoch_def get_io_def)
qed

section \<open>The wait ends\<close>

text \<open>A platform whose delay lets the requested time pass, up to the end of the clock.\<close>

locale ticking_platform = fan_platform P sound content now
  for P :: "('p, 'l) platform_ops"
    and sound :: "'p \<Rightarrow> bool"
    and content :: "'p \<Rightarrow> path \<Rightarrow> string option"
    and now :: "'p \<Rightarrow> duration" +
  assumes delay_passes: "sound p \<Longrightarrow> min (now p + d) duration_max \<le> now (delay P d p)"

interpretation fake: ticking_platform fake_ops quiet file_contents monotonic_time
  by unfold_locales (simp add: fake_ops_def fake_delay_def duration_saturating_add_def)

lemma parse_arming_rpm_no_panic: "parse_arming_rpm fan raw \<noteq> Panic"
  by (auto simp: parse_arming_rpm_def Let_def split: option.splits)

context ticking_platform
begin

lemma read_rpm_triple:
  assumes "device_ok dev" "fan \<in> device_fans dev"
  shows "triple ok (keeps content now) (arming_read_tachometer P dev fan i dl) (\<lambda>_ _. True)"
proof -
  have p: "tachometer_path fan \<in> set (device_paths dev)" using assms(2) by (auto simp: device_fans_def)
  show ?thesis
    unfolding arming_read_tachometer_def
    by (intro triple_try [OF stores_transp] triple_map_err triple_mono [OF read_triple [OF assms(1) p]] return_triple)
      (auto simp: parse_arming_rpm_no_panic)
qed

lemma poll_ends:
  fixes w :: "('p, 'l, 'b) world"
  assumes "device_ok dev" "dl \<le> duration_max" "ok w"
  shows "wp (await_poll P dev dl rpms) (\<lambda>r w'. r \<noteq> Panic \<and> ok w' \<and> keeps content now w w'
    \<and> (\<forall>x. r = Ok (Inl x) \<longrightarrow> dl - now (platform w') < dl - now (platform w))) w"
proof -
  note fans = device_fans_def
  have rest: "wp (try_io (now_io P) (\<lambda>t.
       if dl \<le> t then return_io (Err (ArmTachometerTimeout c g))
       else try_io (delay_io P (min tachometer_poll_interval (dl - t))) (\<lambda>_. return_io (Ok (Inl (c, g))))))
     (\<lambda>r w'. r \<noteq> Panic \<and> ok w' \<and> keeps content now w w'
       \<and> (\<forall>x. r = Ok (Inl x) \<longrightarrow> dl - now (platform w') < dl - now (platform w))) w1"
    if w1: "ok w1" "keeps content now w w1" for w1 :: "('p, 'l, 'b) world" and c g
  proof (rule wp_try [OF now_io_spec [OF w1(1)]], goal_cases)
    case (1 t w2)
    then have w2: "ok w2" "keeps content now w w2" "now (platform w) \<le> t" "t \<le> now (platform w2)"
      using w1(2) by (auto simp: keeps_content intro: ran_on_trans order_trans dest: ran_to_sound ran_to_on ran_on_now)
    let ?d = "min tachometer_poll_interval (dl - t)"
    have d: "steady sound content now (platform w2) (delay P ?d (platform w2))" by (rule delay_spec [OF w2(1)])
    have "min (now (platform w2) + ?d) duration_max \<le> now (delay P ?d (platform w2))" by (rule delay_passes [OF w2(1)])
    then have "t < dl \<Longrightarrow> t < now (delay P ?d (platform w2))"
      using w2(4) assms(2) by (auto simp: tachometer_poll_interval_def from_millis_def min_def split: if_splits)
    moreover have "ran_on now w2 (w2\<lparr>platform := delay P ?d (platform w2)\<rparr>)" using d by (simp add: ran_on_def steady_def)
    ultimately show ?case
      using w2 d by (auto simp: wp_return wp_try_io wp_delay_io keeps_content steady_def intro: ran_on_trans)
  qed (use w1 in \<open>auto simp: keeps_content intro: ran_on_trans dest: ran_to_sound ran_to_on\<close>)
  let ?Q = "\<lambda>r w'. r \<noteq> Panic \<and> ok w' \<and> keeps content now w w'
    \<and> (\<forall>x. r = Ok (Inl x) \<longrightarrow> dl - now (platform w') < dl - now (platform w))"
  have step: "wp (try_io m f) ?Q w1" if "ok w1" "keeps content now w w1" "triple ok (keeps content now) m (\<lambda>_ _. True)"
      "\<And>x w2. ok w2 \<Longrightarrow> keeps content now w w2 \<Longrightarrow> wp (f x) ?Q w2"
    for w1 and m :: "(('p, 'l, 'b) world, fan_arming_failure, 'x) io" and f
  proof (rule wp_try [OF tripleD [OF that(3,1)]], goal_cases)
    case (1 x w2)
    then show ?case using that(2) by (intro that(4)) (auto intro: transpD [OF stores_transp])
  qed (use that(2) in \<open>auto intro: transpD [OF stores_transp]\<close>)
  have ret: "wp (return_io r) ?Q w1" if "ok w1" "keeps content now w w1" "r \<noteq> Panic" "\<And>x. r \<noteq> Ok (Inl x)" for w1 r
    using that by (simp add: wp_return)
  have w: "keeps content now w w" by simp
  show ?thesis
    unfolding await_poll_def
  proof (intro step [OF assms(3) w ensure_triple] step [OF _ _ now_triple], goal_cases)
    case (3 _ w1 t w2)
    show ?case
    proof (cases "dl \<le> t")
      case True
      then show ?thesis using 3 by (simp only: if_True) (rule ret; simp)
    next
      case False
      then show ?thesis
        unfolding if_not_P [OF False]
        by (intro step [OF 3(3,4) read_rpm_triple [OF assms(1)]] step [OF _ _ read_rpm_triple [OF assms(1)]] step [OF _ _ ensure_triple])
          (auto simp only: fans insert_iff prod.case split: option.splits intro!: ret rest)
    qed
  qed
qed

lemma await_triple:
  assumes "device_ok dev" "dl \<le> duration_max"
  shows "dtriple ok (keeps content now) (await_loop P dev dl rpms :: (('p, 'l, 'b) world, _, _) dio) (\<lambda>_ _. True)"
proof -
  have "ok w \<Longrightarrow> twp (await_loop P dev dl rpms) (\<lambda>r w'. r \<noteq> Panic \<and> ok w' \<and> keeps content now w w') w" for w :: "('p, 'l, 'b) world"
  proof (induction "dl - now (platform w)" arbitrary: w rpms rule: less_induct)
    case less
    obtain r w1 where r: "await_poll P dev dl rpms w = (r, w1)" by fastforce
    note e = wp_eqD [OF poll_ends [OF assms less.prems] r]
    show ?case
    proof (cases "\<exists>x. r = Ok (Inl x)")
      case True
      then obtain x where x: "r = Ok (Inl x)" by blast
      with e less.hyps [of w1 x] have "twp (await_loop P dev dl x) (\<lambda>r w'. r \<noteq> Panic \<and> ok w' \<and> keeps content now w1 w') w1" by simp
      then have "twp (await_loop P dev dl x) (\<lambda>r w'. r \<noteq> Panic \<and> ok w' \<and> keeps content now w w') w1"
        by (rule twp_mono) (use e in \<open>auto intro: transpD [OF stores_transp]\<close>)
      then show ?thesis unfolding twp_def by (subst await_loop.simps) (simp add: r x)
    next
      case False
      then show ?thesis
        unfolding twp_def using e by (subst await_loop.simps) (auto simp: r split: outcome.splits sum.splits)
    qed
  qed
  then show ?thesis by (simp add: dtriple_def)
qed

lemma respond_triple:
  assumes "device_ok dev"
  shows "dtriple ok (keeps content now) (arm_respond P dev) (\<lambda>_ w'. custom_at_maximum dev (content (platform w')))"
proof -
  let ?K = "\<lambda>w. custom_at_maximum dev (content (platform w))"
  have k: "?K w \<Longrightarrow> keeps content now w w' \<Longrightarrow> ?K w'" for w w' :: "('p, 'l, 'b) world" by (simp add: keeps_content)
  note st = dtriple_try [OF stores_transp]
  have tail: "dtriple ok (keeps content now) (try_dio (total_io (confirm_custom_at_maximum P dev dl oper)) (\<lambda>_.
      try_dio (total_io ensure_arming_running) (\<lambda>_. total_io (return_io (Ok x))))) (\<lambda>_ w'. ?K w')" for dl oper x
    by (rule dtriple_bind [OF stores_transp dtriple_total [OF custom_triple [OF assms]]],
        rule st [OF dtriple_total [OF triple_frame [OF ensure_triple k]]], assumption, assumption)
      (auto intro!: dtriple_total triple_return)
  have body: "dtriple ok (keeps content now) (try_dio (total_io (confirm_custom_at_maximum P dev dl ArmFinalConfirmCustom)) (\<lambda>_.
     try_dio (total_io ensure_arming_running) (\<lambda>_.
     try_dio (await_tachometer_response_before P dev dl) (\<lambda>rpms.
     try_dio (total_io (confirm_custom_at_maximum P dev dl ArmFinalConfirmCustom)) (\<lambda>_.
     try_dio (total_io ensure_arming_running) (\<lambda>_. total_io (return_io (Ok rpms)))))))) (\<lambda>_ w'. ?K w')"
    if "dl \<le> duration_max" for dl
    unfolding await_tachometer_response_before_def
    by (intro st tail dtriple_mono [OF dtriple_total [OF custom_triple [OF assms]]] dtriple_total [OF ensure_triple]
        await_triple [OF assms that]) auto
  have response: "dtriple ok (keeps content now) (await_tachometer_response P dev :: (('p, 'l, 'b) world, _, _) dio)
      (\<lambda>(_, _, dl) _. dl \<le> duration_max)"
    unfolding await_tachometer_response_def await_tachometer_response_before_def
    by (rule st [OF dtriple_total [OF now_triple]],
        rule dtriple_result [OF stores_transp dtriple_total [OF return_triple [where G = "\<lambda>dl _. dl \<le> duration_max"]]])
      (auto simp: ok_or_def split: option.splits intro!: st await_triple [OF assms] dtriple_total return_triple)
  show ?thesis
    unfolding arm_respond_def
    by (rule dtriple_result [OF stores_transp response [unfolded case_prod_unfold]])
      (auto simp: case_prod_unfold intro: body)
qed

lemma arm_effect:
  assumes "device_ok dev" "ok w"
  shows "twp (arm P dev sample config calibration ids) (\<lambda>r w'. r \<noteq> Panic \<and> ok w' \<and> ran_on now w w'
    \<and> handover_safe dev (content (platform w)) (content (platform w'))
    \<and> (\<forall>armed. r = Ok armed \<longrightarrow> custom_at_maximum dev (content (platform w')) \<and> afc_device armed = dev
         \<and> afc_config armed = config \<and> afc_ownership_id armed = fst ids \<and> afc_custom_epoch armed = snd ids)) w"
  unfolding arm_def
proof (rule twp_try_total [OF tripleD [OF stage_triple [OF assms(1)] assms(2)]], goal_cases)
  case (1 dl w1)
  then have w1: "ok w1" "ran_on now w w1" "only_stored (pwm_paths dev) arming_maximum_pwm (content (platform w)) (content (platform w1))"
    "duties_staged dev (content (platform w1))" by (auto simp: stores_def)
  show ?case
  proof (rule twp_try_total [OF tripleD [OF enter_triple [OF assms(1)] w1(1)]], goal_cases)
    case (1 at w2)
    then have w2: "ok w2" "ran_on now w w2" "handover_safe dev (content (platform w)) (content (platform w2))"
      using w1 by (auto simp: stores_def intro: ran_on_trans handover_entered [OF assms(1)])
    show ?case
      unfolding case_prod_unfold
      by (rule twp_try [OF dtripleD [OF respond_triple [OF assms(1)] w2(1)]])
        (use w2 in \<open>auto simp: twp_total wp_return keeps_content intro: ran_on_trans\<close>)
  qed (use w1 in \<open>auto simp: stores_def intro: ran_on_trans handover_entered [OF assms(1)]\<close>)
qed (auto simp: stores_def intro: handover_staged)

lemma admit_effect:
  assumes "config_ok candidate" "config_ok (apa_protected authority)"
  shows "wp (admit_arming authority candidate ready) (\<lambda>r w'. r \<noteq> Panic \<and> platform w' = platform w \<and> ran_on now w w'
    \<and> (r = Ok () \<longrightarrow> admits authority candidate ready w)) w"
proof -
  have v: "validate_candidate authority candidate \<noteq> Panic"
    "validate_candidate authority candidate = Ok () \<Longrightarrow> config_covers candidate (apa_protected authority)"
    using envelope_check_cases [OF assms] by (auto simp: validate_candidate_def)
  show ?thesis
    unfolding admit_arming_def wp_try_io [of "get_io _"] wp_get_io outcome.case prod.case
  proof (rule wp_try [where R = "\<lambda>r w'. w' = w \<and> r \<noteq> Panic \<and> (r = Ok () \<longrightarrow> belongs_to_ownership authority (ownership_id w)
      \<and> config_covers candidate (apa_protected authority))"], goal_cases)
    case (2 u w1)
    then show ?case
      unfolding ensure_arming_running_def wp_try_io [of "try_io _ _"]
      by (intro wp_try [OF wp_shutdown_is_requested [where now = now]]) (auto simp: wp_return admits_def)
  qed (use v in \<open>auto simp: wp_return\<close>)
qed

lemma arm_both_effect:
  assumes "device_ok dev" "ok w" "config_ok candidate" "config_ok (apa_protected authority)"
  shows "twp (arm_both_fans_safely_until P dev authority candidate ready) (\<lambda>r w'.
      (unat (sampling_epoch w) + 3 < 2 ^ 64 \<longrightarrow> r \<noteq> Panic)
    \<and> (\<forall>armed. r = Ok armed \<longrightarrow> custom_at_maximum dev (content (platform w')) \<and> admits authority candidate ready w
        \<and> armed_is_current_for armed w' \<and> afc_device armed = dev \<and> afc_config armed = candidate
        \<and> controlled_device w' = Some (backing_identity dev) \<and> sound (platform w')
        \<and> handover_safe dev (content (platform w)) (content (platform w')))
    \<and> (\<forall>e. r = Err e \<longrightarrow> owner_safe sound content w' \<and> (restoration_confirmed w' \<longleftrightarrow> \<not> arming_critical e)
        \<and> (\<not> arming_critical e \<longrightarrow> in_firmware_auto dev (content (platform w')))
        \<and> (\<exists>c1. handover_safe dev (content (platform w)) c1 \<and> safing_writes dev c1 (content (platform w'))))) w"
    (is "twp _ ?Q w")
proof -
  have rej: "twp (total_io (reject_arming P dev entered reason)) ?Q w1"
    if "ok w1" "unat (sampling_epoch w1) \<le> unat (sampling_epoch w) + 1"
      "handover_safe dev (content (platform w)) (content (platform w1))" for entered reason w1
    unfolding twp_total
    by (rule wp_mono [OF reject_effect [OF assms(1) that(1)]]) (use that(2,3) in auto)
  have fin: "twp (try_dio (catch_dio (arm P dev (ars_sample ready) candidate (tachometer_calibrations authority) (ownership_id w, epoch))) (\<lambda>result.
       case result of
         Inr armed \<Rightarrow> total_io (try_io (emit_state_transition StateArming StateCustomControl ArmingConfirmed) (\<lambda>_. return_io (Ok armed)))
       | Inl reason \<Rightarrow> total_io (reject_arming P dev True reason))) ?Q w1"
    if w1: "ok w1" "admits authority candidate ready w" "content (platform w1) = content (platform w)" "sampling_epoch w1 = epoch"
      "unat epoch = unat (sampling_epoch w) + 1" "\<not> restoration_confirmed w1" "ownership_id w1 = ownership_id w"
      "controlled_device w1 = Some (backing_identity dev)" for epoch w1
    unfolding twp_try_dio twp_catch_dio
  proof (rule twp_mono [OF arm_effect [OF assms(1) w1(1)]], goal_cases)
    case (1 r w2)
    then have w2: "r \<noteq> Panic" "ok w2" "ran_on now w1 w2" "handover_safe dev (content (platform w)) (content (platform w2))"
      using w1(3) by auto
    note f = ran_on_fields [OF w2(3)]
    show ?case
    proof (cases r)
      case (Ok armed)
      then show ?thesis using 1 w2 w1 f
        by (auto simp: twp_total io_simps armed_is_current_for_def custom_epoch_is_current_def)
    next
      case (Err e)
      then show ?thesis using rej [OF w2(2) _ w2(4), of True e] w1(4,5) f(4) by simp
    qed (use w2(1) in simp)
  qed
  show ?thesis
    unfolding arm_both_fans_safely_until_def
  proof (rule twp_try_total [OF wp_catch [OF admit_effect [OF assms(3,4)]]], goal_cases)
    case (1 x w1)
    then have w1: "platform w1 = platform w" "ran_on now w w1" by (auto split: sum.splits)
    note f = ran_on_fields [OF w1(2)]
    show ?case
    proof (cases x)
      case (Inl reason)
      show ?thesis unfolding Inl sum.case
        by (rule rej) (use w1 assms(2) f in \<open>auto simp: handover_safe_def\<close>)
    next
      case (Inr u)
      let ?w = "w1\<lparr>journal := journal w1 @ [StateTransitionEvent StateFirmwareAuto StateArming TwoFreshSamples]\<rparr>"
      have adm: "admits authority candidate ready w" using 1 Inr by simp
      show ?thesis
        unfolding Inr sum.case twp_try_dio [of "total_io (emit _)"] twp_total emit_state_transition_def wp_emit outcome.case
          twp_try_dio [of "total_io (get_io _)"] wp_get_io
      proof (rule twp_try_total [OF begin_custom_spec], goal_cases)
        case (1 epoch w2)
        have "twp (try_dio (catch_dio (arm P dev (ars_sample ready) candidate (tachometer_calibrations authority) (ownership_id w, epoch))) (\<lambda>result.
            case result of
              Inr armed \<Rightarrow> total_io (try_io (emit_state_transition StateArming StateCustomControl ArmingConfirmed) (\<lambda>_. return_io (Ok armed)))
            | Inl reason \<Rightarrow> total_io (reject_arming P dev True reason))) ?Q w2"
          by (rule fin) (use 1 w1 f adm assms(2) in auto)
        from this [unfolded emit_state_transition_def] show ?case using f(3) by simp
      qed (use f(4) in auto)
    qed
  qed (auto split: outcome.splits)
qed

end

section \<open>The order of the writes\<close>

definition handover_writes :: "acer_hwmon_device \<Rightarrow> (path \<times> string) list" where
  "handover_writes dev =
     [(pwm_path (dev_cpu dev), arming_maximum_pwm), (pwm_path (dev_gpu dev), arming_maximum_pwm),
      (enable_path (dev_cpu dev), arming_custom_control), (enable_path (dev_gpu dev), arming_custom_control)]"

definition safing_attempts :: "acer_hwmon_device \<Rightarrow> (path \<times> string) set" where
  "safing_attempts dev = enable_paths dev \<times> {firmware_auto} \<union> pwm_paths dev \<times> {maximum_pwm}"

lemma await_invariant:
  fixes w :: "('p, 'l, 's) world"
  assumes run: "await_loop P dev dl rpms w = Some (r, w')" and start: "I w"
    and poll: "\<And>rpms (w :: ('p, 'l, 's) world). I w \<Longrightarrow> wp (await_poll P dev dl rpms) (\<lambda>_ w'. I w') w"
  shows "I w'"
proof -
  define Pr where "Pr x y \<longleftrightarrow> (fst (fst (fst x)) = (P, dev) \<longrightarrow> snd (fst (fst x)) = dl \<longrightarrow> I (snd x) \<longrightarrow> I (snd y))"
    for x :: "(((('p, 'l) platform_ops \<times> acer_hwmon_device) \<times> duration) \<times> (u32 option \<times> u32 option)) \<times> ('p, 'l, 's) world"
      and y :: "(fan_arming_failure, u32 \<times> u32) outcome \<times> ('p, 'l, 's) world"
  have "Pr ((((P, dev), dl), rpms), w) (r, w')"
  proof (rule await_loop.raw_induct [OF _ run])
    fix rec P' dev' dl' rpms' and w0 :: "('p, 'l, 's) world" and y
    assume IH: "\<And>P' dev' dl' rpms' w0 y. rec P' dev' dl' rpms' w0 = Some y \<Longrightarrow> Pr ((((P', dev'), dl'), rpms'), w0) y"
      and y: "(case await_poll P' dev' dl' rpms' w0 of
        (Ok (Inl rpms), w') \<Rightarrow> rec P' dev' dl' rpms w'
      | (Ok (Inr response), w') \<Rightarrow> Some (Ok response, w')
      | (Err e, w') \<Rightarrow> Some (Err e, w') | (Panic, w') \<Rightarrow> Some (Panic, w')) = Some y"
    show "Pr ((((P', dev'), dl'), rpms'), w0) y"
      unfolding Pr_def
    proof (intro impI, simp only: fst_conv snd_conv prod.inject, elim conjE)
      assume eq: "P' = P" "dev' = dev" "dl' = dl" "I w0"
      show "I (snd y)"
        using y poll [OF eq(4), of rpms'] IH [of P dev dl _ _ y]
        unfolding eq(1-3) wp_def Pr_def by (auto split: prod.splits outcome.splits sum.splits)
    qed
  qed
  then show ?thesis using start by (simp add: Pr_def)
qed

context guarded_writes
begin

abbreviation lg :: "('p, 'l, 's) world \<Rightarrow> (path \<times> string) list" where
  "lg w \<equiv> attempts (platform w)"

lemma script_now: "script lg (now_io P) []"
  by (rule script_silent) (simp add: wp_now_io wp_mono [OF attempts_now])

lemma script_delay: "script lg (delay_io P d) []"
  by (rule script_silent) (simp add: wp_delay_io attempts_delay)

lemma script_emit: "script lg (emit e) []"
  by (rule script_silent) (simp add: wp_emit)

lemma script_get: "script lg (get_io f) []"
  by (rule script_silent) (simp add: wp_get_io)

lemma script_ensure: "script lg ensure_arming_running []"
  unfolding ensure_arming_running_def
  by (intro script_quiet_try script_return) (rule script_silent, rule wp_mono [OF wp_shutdown_is_requested [where now = "\<lambda>_. 0"]], auto)

lemma script_read: "script lg (read_bound P dev path dl) []"
  unfolding read_bound_def
  by (intro script_quiet_try script_return) (auto simp: wp_on_platform intro!: script_silent wp_mono [OF attempts_read] split: prod.splits)

lemma script_abi: "script lg (on_platform (abi_is_current_before P dev dl)) []"
proof -
  have "wp (abi_is_current_before P dev dl) (\<lambda>r p'. (False \<longrightarrow> r \<noteq> Panic) \<and> attempts p' = attempts p) p" for p
    by (rule abi_current_rel [where N = "\<lambda>_. False" and R = "\<lambda>p p'. attempts p' = attempts p"])
      (auto intro!: transpI reflpI wp_mono [OF attempts_list] wp_mono [OF attempts_identity] wp_mono [OF attempts_list_bound]
        wp_mono [OF attempts_permissions] wp_mono [OF attempts_read])
  then show ?thesis by (intro script_silent) (simp add: wp_on_platform wp_mono)
qed

lemma script_identity: "script lg (confirm_device_identity P dev dl) []"
  unfolding confirm_device_identity_def by (intro script_quiet_try script_catch script_abi script_return)

lemma script_confirm: "script lg (arming_confirm P dev path fan field expected oper dl) []"
  unfolding arming_confirm_def by (intro script_quiet_try script_map_err script_read script_return)

lemma script_write:
  assumes "device_ok dev" "path \<in> set (device_paths dev)"
  shows "script lg (write_guarded P dev path gs v dl) [(path, v)]"
proof -
  obtain name where n: "file_name path = Some name" "direct_bound_child (dev_root dev) name = Ok path"
    using device_path_names [OF assms] by metis
  have "script lg (on_platform (write_bound_if_before P (dev_root dev) (backing_identity dev) bs gs' name v dl)) [(path, v)]" for bs gs'
    unfolding script_def wp_on_platform
    by (intro allI wp_mono [OF attempts_write]) (auto simp: write_attempt_def n(2))
  then show ?thesis
    unfolding write_guarded_def n(1) outcome_combinators try_io_known by (intro script_quiet_try script_return)
qed

lemma script_arming_write:
  "device_ok dev \<Longrightarrow> path \<in> set (device_paths dev) \<Longrightarrow> script lg (arming_write P dev path gs fan v oper dl) [(path, v)]"
  unfolding arming_write_def by (intro script_map_err script_write)

lemma script_custom: "script lg (confirm_custom_at_maximum P dev dl oper) []"
  unfolding confirm_custom_at_maximum_def confirm_fan_at_maximum_def
  by (intro script_quiet_try script_confirm script_now script_return)

lemma script_cons_try:
  "script lg m [x] \<Longrightarrow> (\<And>y. script lg (f y) xs) \<Longrightarrow> script lg (try_io m f) (x # xs)"
  using script_try [of lg m "[x]" f xs] by simp

lemma script_stage:
  assumes "device_ok dev"
  shows "script lg (arm_stage P dev sample) (take 2 (handover_writes dev))"
  unfolding arm_stage_def Let_def
  by (simp add: handover_writes_def)
    (intro script_quiet_try [OF script_ensure] script_quiet_try [OF script_now] script_quiet_try [OF script_return]
      script_quiet_try [OF script_identity] script_quiet_try [OF script_confirm]
      script_cons_try [OF script_arming_write [OF assms]] script_return device_path_in)

lemma script_enter:
  assumes "device_ok dev"
  shows "script lg (arm_enter P dev dl) (drop 2 (handover_writes dev))"
  unfolding arm_enter_def Let_def
  by (simp add: handover_writes_def)
    (intro script_quiet_try [OF script_ensure] script_quiet_try [OF script_custom]
      script_cons_try [OF script_arming_write [OF assms]] script_return device_path_in)

lemma script_poll: "script lg (await_poll P dev dl rpms) []"
  unfolding await_poll_def arming_read_tachometer_def
  by (intro script_quiet_try script_ensure script_now)
    (auto intro!: script_quiet_try script_ensure script_now script_map_err script_read script_return script_delay split: option.splits)

lemma dscript_await: "dscript lg (await_loop P dev dl rpms) []"
proof -
  have "lg w' = lg w" if "await_loop P dev dl rpms w = Some (r, w')" for r and w w' :: "('p, 'l, 's) world"
    by (rule await_invariant [OF that, of "\<lambda>w'. lg w' = lg w"]) (auto intro: wp_mono [OF script_silentD [OF script_poll]])
  then show ?thesis by (auto simp: dscript_def wlp_def split: option.splits)
qed

lemma dscript_respond: "dscript lg (arm_respond P dev) []"
  unfolding arm_respond_def await_tachometer_response_def await_tachometer_response_before_def case_prod_unfold
  by (intro dscript_quiet_try dscript_await dscript_total script_now script_return script_custom script_ensure)

lemma dscript_arm:
  assumes "device_ok dev"
  shows "dscript lg (arm P dev sample config calibration ids) (handover_writes dev)"
proof -
  have "dscript lg (arm P dev sample config calibration ids) (take 2 (handover_writes dev) @ drop 2 (handover_writes dev) @ [])"
    unfolding arm_def case_prod_unfold
    by (intro dscript_try dscript_quiet_try [OF dscript_respond] dscript_total script_stage script_enter script_return assms)
  then show ?thesis by simp
qed

lemma reject_logged:
  assumes "device_ok dev"
  shows "wp (reject_arming P dev entered reason) (\<lambda>r w'. \<not> is_ok r \<and> logged attempts (safing_attempts dev) 8 w w') w"
proof -
  have A: "enable_paths dev \<times> {firmware_auto} \<subseteq> safing_attempts dev" "pwm_paths dev \<times> {maximum_pwm} \<subseteq> safing_attempts dev"
    by (auto simp: safing_attempts_def)
  have inv: "wp invalidate_firmware_auto_epoch (\<lambda>_. logged attempts A 0 w) w" for A and w :: "('p, 'l, 'b) world"
    by (rule wp_mono [OF invalidate_spec]) (simp add: logged_none)
  have get: "wp (get_io f) (\<lambda>_. logged attempts A 0 w) w" for f A and w :: "('p, 'l, 'b) world" by (simp add: wp_get_io)
  have modi: "wp (modify_io (\<lambda>w. w\<lparr>restoration_confirmed := f w\<rparr>)) (\<lambda>_. logged attempts A 0 w) w"
    for f A and w :: "('p, 'l, 'b) world" by (simp add: wp_modify_io logged_def)
  have lr: "wp (restore_firmware_auto P dev) (\<lambda>_. logged attempts (safing_attempts dev) 6 w) w" for w :: "('p, 'l, 'b) world"
    by (rule wp_mono [OF logged_restore [OF assms]]) (rule logged_mono [OF _ A(1)], auto)
  have lc: "wp (contain_custom_fans_at_maximum P dev) (\<lambda>_. logged attempts (safing_attempts dev) 2 w) w" for w :: "('p, 'l, 'b) world"
    by (rule wp_mono [OF logged_contain [OF assms]]) (rule logged_mono [OF _ A(2)], auto)
  have res: "wp (owned_restore_firmware_auto P dev) (\<lambda>_. logged attempts (safing_attempts dev) (0 + (6 + (0 + (0 + 0)))) w) w"
    for w :: "('p, 'l, 'b) world"
    unfolding owned_restore_firmware_auto_def by (intro wp_logged_try inv lr get wp_logged_return modi)
  have con: "wp (owned_contain_custom_fans_at_maximum P dev) (\<lambda>_. logged attempts (safing_attempts dev) (0 + (2 + (0 + 0))) w) w"
    for w :: "('p, 'l, 'b) world"
    unfolding owned_contain_custom_fans_at_maximum_def by (intro wp_logged_try inv lc modi wp_logged_return)
  have saf: "wp (restore_or_contain_firmware_auto P dev) (\<lambda>_. logged attempts (safing_attempts dev) 8 w) w" for w :: "('p, 'l, 'b) world"
  proof -
    have "wp (restore_or_contain_firmware_auto P dev) (\<lambda>_. logged attempts (safing_attempts dev) (6 + 2) w) w"
      unfolding restore_or_contain_firmware_auto_def
    proof (rule wp_logged_try [OF wp_logged_catch], goal_cases)
      case 1
      show ?case using res by simp
    next
      case (2 x w1)
      have "wp (try_io (owned_contain_custom_fans_at_maximum P dev) (\<lambda>containment.
           try_io (get_io restoration_confirmed) (\<lambda>confirmed. return_io (Ok (h containment confirmed)))))
         (\<lambda>_. logged attempts (safing_attempts dev) ((0 + (2 + (0 + 0))) + (0 + 0)) w1) w1" for h
        by (intro wp_logged_try con get wp_logged_return)
      from this [unfolded add_0 add_0_right] show ?case
        by (cases x; simp only: sum.case) (auto simp: wp_return)
    qed
    then show ?thesis by simp
  qed
  show ?thesis
    unfolding reject_arming_def when_io_def emit_defs
    by (rule wp_try [where R = "\<lambda>r w1. r = Ok () \<and> lg w1 = lg w"], simp add: wp_emit,
        rule wp_try [where R = "\<lambda>r w1. r = Ok () \<and> lg w1 = lg w"], simp add: wp_emit wp_return, rule wp_try [OF saf])
      (auto simp: io_simps logged_def split: firmware_auto_safing_outcome.splits)
qed

lemma arm_both_logged:
  assumes "device_ok dev"
  shows "wlp (arm_both_fans_safely_until P dev authority candidate ready) (\<lambda>r w'. \<exists>before after.
      lg w' = lg w @ before @ after \<and> prefix before (handover_writes dev) \<and> set after \<subseteq> safing_attempts dev
      \<and> (is_ok r \<longrightarrow> before = handover_writes dev \<and> after = [])) w" (is "wlp _ ?Q w")
proof -
  have rej: "wlp (total_io (reject_arming P dev entered reason)) ?Q w1"
    if "lg w1 = lg w @ before" "prefix before (handover_writes dev)" for before w1 entered reason
    unfolding wlp_total
    by (rule wp_mono [OF reject_logged [OF assms]]) (use that in \<open>auto simp: logged_def\<close>)
  have adm: "script lg (admit_arming authority candidate ready) []"
    unfolding admit_arming_def case_prod_unfold by (intro script_quiet_try script_get script_return script_ensure)
  have beg: "wp (begin_custom_transition dev) (\<lambda>r w'. r = Panic \<and> lg w' = lg w1 \<or> (\<exists>x. r = Ok x \<and> lg w' = lg w1)) w1"
    for w1 :: "('p, 'l, 'b) world"
    by (auto simp: begin_custom_transition_def wp_def try_io_def modify_io_def reset_sampling_epoch_def get_io_def split: option.splits)
  have run: "wlp (try_dio (catch_dio (arm P dev smp candidate cal ids)) (\<lambda>result.
       case result of
         Inr armed \<Rightarrow> total_io (try_io (emit e) (\<lambda>_. return_io (Ok armed)))
       | Inl reason \<Rightarrow> total_io (reject_arming P dev True reason))) ?Q w1"
    if same: "lg w1 = lg w" for w1 smp cal ids e
    unfolding wlp_try_dio wlp_catch_dio
  proof (rule wlp_mono [OF dscript_arm [OF assms, unfolded dscript_def, rule_format]], goal_cases)
    case (1 r w2)
    then obtain before where b: "lg w2 = lg w @ before" "prefix before (handover_writes dev)" "is_ok r \<longrightarrow> before = handover_writes dev"
      using same by auto
    have "\<exists>xs ys. before = xs @ ys \<and> prefix xs (handover_writes dev) \<and> set ys \<subseteq> safing_attempts dev"
      by (rule exI [of _ before], rule exI [of _ "[]"]) (simp add: b(2))
    then show ?case using b rej [OF b(1,2), of True] by (cases r) (auto simp: wlp_total io_simps)
  qed
  show ?thesis
    unfolding arm_both_fans_safely_until_def emit_state_transition_def
  proof (rule wlp_try_total [OF script_silentD [OF script_catch [OF adm]]], goal_cases)
    case (1 x w1)
    show ?case
    proof (cases x)
      case (Inl reason)
      show ?thesis unfolding Inl sum.case by (rule rej [of _ "[]"]) (use 1 in auto)
    next
      case (Inr u)
      show ?thesis
        unfolding Inr sum.case wlp_try_dio [of "total_io (emit _)"] wlp_total wp_emit outcome.case
          wlp_try_dio [of "total_io (get_io _)"] wp_get_io
        by (rule wlp_try_total [OF beg]) (use 1 run in auto)
    qed
  qed auto
qed

end

section \<open>A concrete handover\<close>

definition auto_platform :: fake_platform where
  "auto_platform = (sample_platform [])\<lparr>
     files := map (\<lambda>(path, f). (path, if last path \<in> {''pwm1_enable'', ''pwm2_enable''} then f\<lparr>ff_contents := firmware_auto\<rparr> else f))
       (files (sample_platform [])),
     directories := [[''sys'', ''class'', ''hwmon''], sample_root]\<rparr>"

definition auto_world :: "(fake_platform, fake_runtime_lock, unit) world" where
  "auto_world = world_of auto_platform ()"

definition sample_ready :: arming_ready_sample where
  "sample_ready =
     \<lparr>ars_sample = \<lparr>css_cpu_temperature = Fin 50, css_gpu_temperature = Fin 50, css_external_power = Connected,
        css_cycle_started_at = 0, css_completed_at = 0\<rparr>,
      ars_ownership_id = 0, ars_sampling_epoch = 0\<rparr>"

definition sample_authority :: "u64 \<Rightarrow> admitted_policy_authority" where
  "sample_authority i =
     \<lparr>apa_ownership_id = i, apa_qualification_id = [], apa_policy_version = [], apa_protected_policy_sha256 = [],
      apa_compatibility = qualified_declaration, apa_calibration = sample_calibrations, apa_protected = exact_config example_config\<rparr>"

definition begun_world :: "(fake_platform, fake_runtime_lock, unit) world" where
  "begun_world = auto_world\<lparr>journal := [StateTransitionEvent StateFirmwareAuto StateArming TwoFreshSamples],
     controlled_device := Some (backing_identity sample_device), sampling_epoch := 1\<rparr>"

definition returns_ok :: "(('e, 'a) outcome \<times> 's) option \<Rightarrow> bool" where
  "returns_ok x = (case x of None \<Rightarrow> False | Some (r, _) \<Rightarrow> is_ok r)"

declare await_loop.simps [code]

lemma auto_quiet: "quiet (platform auto_world)"
  by (simp add: quiet_def auto_world_def world_of_def auto_platform_def sample_platform_def fake_new_def)

lemma sample_configs: "config_ok (exact_config example_config)" "config_ok (apa_protected (sample_authority i))"
  using validate_config_Ok(2) [OF example_config_valid] by (simp_all add: sample_authority_def)

lemma sample_arms:
  "returns_ok (arm fake_ops sample_device (ars_sample sample_ready) config calibration (0, 1) begun_world)"
  by code_simp

lemma sample_handover:
  "\<exists>armed w'. arm_both_fans_safely_until fake_ops sample_device (sample_authority 0) (exact_config example_config) sample_ready auto_world
     = Some (Ok armed, w')"
proof -
  have v: "validate_candidate (sample_authority 0) (exact_config example_config) = Ok ()"
    using envelope_check_cases [OF sample_configs(1,1)] config_covers_refl [OF sample_configs(1)]
    by (simp add: validate_candidate_def sample_authority_def)
  have f: "ownership_id auto_world = 0" "sampling_epoch auto_world = 0" "signals auto_world = []" "latch auto_world = 0" "journal auto_world = []"
    by (simp_all add: auto_world_def world_of_def shutdown_open_def)
  have adm: "admit_arming (sample_authority 0) (exact_config example_config) sample_ready auto_world = (Ok (), auto_world)"
    by (simp add: admit_arming_def get_io_def f belongs_to_ownership_def sample_authority_def v [unfolded sample_authority_def]
        ensure_arming_running_def shutdown_is_requested_def deliver_signal_def is_requested_def sample_ready_def Let_def)
      (rule exI [of _ False], simp)
  have beg: "(begin_custom_transition sample_device :: (_, fan_arming_error, _) io) (auto_world\<lparr>journal := [StateTransitionEvent StateFirmwareAuto StateArming TwoFreshSamples]\<rparr>)
      = (Ok 1, begun_world)"
    by (simp add: begin_custom_transition_def modify_io_def get_io_def reset_sampling_epoch_def f word_checked_add_def begun_world_def)
      (simp add: auto_world_def world_of_def)
  obtain armed w' where a: "arm fake_ops sample_device (ars_sample sample_ready) (exact_config example_config)
      (tachometer_calibrations (sample_authority 0)) (0, 1) begun_world = Some (Ok armed, w')"
    using sample_arms [of "exact_config example_config" "tachometer_calibrations (sample_authority 0)"]
    by (auto simp: returns_ok_def is_ok_def split: option.splits outcome.splits)
  show ?thesis
    using adm beg a f
    by (auto simp: arm_both_fans_safely_until_def try_dio_def total_io_def catch_io_def catch_dio_def emit_state_transition_def emit_def
        modify_io_def get_io_def)
qed

section \<open>Properties\<close>



text \<open>
  C5. A successful handover leaves both fans in Custom with the duty at the maximum, as read back
  after the tachometers responded. It happened under the admitted policy of this owner, with a
  sample of its current Firmware Auto epoch, for a configuration that covers the protected one; the
  receipt is current, and nothing but the two maxima and the two modes was stored.
\<close>

theorem arming_success:
  assumes "ticking_platform P sound content now" "device_ok dev" "sound (platform w)"
    "config_ok candidate" "config_ok (apa_protected authority)"
    "arm_both_fans_safely_until P dev authority candidate ready w = Some (Ok armed, w')"
  shows "custom_at_maximum dev (content (platform w')) \<and> handover_safe dev (content (platform w)) (content (platform w'))
    \<and> admits authority candidate ready w \<and> armed_is_current_for armed w'
    \<and> controlled_device w' = Some (backing_identity dev) \<and> afc_config armed = candidate \<and> afc_device armed = dev"
  using twp_returns [OF ticking_platform.arm_both_effect [OF assms(1-5), of ready]] assms(6) by auto

theorem arming_success_witness:
  "\<exists>armed w'. arm_both_fans_safely_until fake_ops sample_device (sample_authority 0) (exact_config example_config) sample_ready auto_world
      = Some (Ok armed, w') \<and> custom_at_maximum sample_device (file_contents (platform w'))"
  using sample_handover
    arming_success [OF fake.ticking_platform_axioms sample_device_ok auto_quiet sample_configs(1,2)] by blast

text \<open>
  C6. Every failed handover has run the restoration: the owner's confirmation is set exactly when
  the failure is not the critical one, both fans are then in Firmware Auto, and the files were
  changed only by the handover's own safe writes followed by those of restoration and containment.
\<close>

theorem arming_failure_restores:
  assumes "ticking_platform P sound content now" "device_ok dev" "sound (platform w)"
    "config_ok candidate" "config_ok (apa_protected authority)"
    "arm_both_fans_safely_until P dev authority candidate ready w = Some (Err e, w')"
  shows "owner_safe sound content w' \<and> (restoration_confirmed w' \<longleftrightarrow> \<not> arming_critical e)
    \<and> (\<not> arming_critical e \<longrightarrow> in_firmware_auto dev (content (platform w')))
    \<and> (\<exists>c1. handover_safe dev (content (platform w)) c1 \<and> safing_writes dev c1 (content (platform w')))"
  using twp_returns [OF ticking_platform.arm_both_effect [OF assms(1-5), of ready]] assms(6) by auto

theorem arming_failure_restores_witness:
  "\<exists>e w'. arm_both_fans_safely_until fake_ops sample_device (sample_authority 7) (exact_config example_config) sample_ready auto_world
      = Some (Err e, w') \<and> (restoration_confirmed w' \<longleftrightarrow> \<not> arming_critical e)"
proof -
  obtain r w' where r: "arm_both_fans_safely_until fake_ops sample_device (sample_authority 7) (exact_config example_config) sample_ready auto_world
      = Some (r, w')" "unat (sampling_epoch auto_world) + 3 < 2 ^ 64 \<longrightarrow> r \<noteq> Panic"
    "\<forall>armed. r = Ok armed \<longrightarrow> admits (sample_authority 7) (exact_config example_config) sample_ready auto_world"
    using twp_returns [OF fake.arm_both_effect [OF sample_device_ok auto_quiet sample_configs(1,2), of 7 sample_ready]] by blast
  have f: "ownership_id auto_world = 0" "sampling_epoch auto_world = 0" by (simp_all add: auto_world_def world_of_def)
  have "\<not> admits (sample_authority 7) (exact_config example_config) sample_ready auto_world"
    by (simp add: admits_def belongs_to_ownership_def sample_authority_def f)
  then obtain e where e: "r = Err e" using r(2,3) f(2) by (cases r) auto
  show ?thesis
    using arming_failure_restores [OF fake.ticking_platform_axioms sample_device_ok auto_quiet sample_configs(1,2) r(1) [unfolded e]]
      r(1) e by blast
qed

text \<open>
  C14. The writes of a handover are attempted in a fixed order: the maximum duty for the CPU fan, for
  the GPU fan, then Custom for the CPU fan, for the GPU fan. A failed handover has attempted an
  initial part of it, followed only by Firmware Auto modes and maximum duties.
\<close>

theorem arming_write_order:
  assumes "guarded_writes P attempts" "device_ok dev"
    "arm_both_fans_safely_until P dev authority candidate ready w = Some (r, w')"
  shows "\<exists>before after. attempts (platform w') = attempts (platform w) @ before @ after
    \<and> prefix before (handover_writes dev) \<and> set after \<subseteq> safing_attempts dev
    \<and> (is_ok r \<longrightarrow> before = handover_writes dev \<and> after = [])"
  using wlp_someD [OF guarded_writes.arm_both_logged [OF assms(1,2)] assms(3)] .

theorem arming_write_order_witness:
  "\<exists>armed w'. arm_both_fans_safely_until fake_ops sample_device (sample_authority 0) (exact_config example_config) sample_ready auto_world
      = Some (Ok armed, w') \<and> fake_attempts (platform w') = fake_attempts (platform auto_world) @ handover_writes sample_device"
  using sample_handover arming_write_order [OF fake.guarded_writes_axioms sample_device_ok] by fastforce

end
