(* ===== verification/Control_Contract.thy ===== *)
theory Control_Contract
  imports Control_Cycle Arming_Contract
begin

text \<open>
  What a cycle of normal control promises, on every platform of the interface and for every
  sources that observe without touching the fans: it never panics, keeps the invariant of the
  control state, leaves the modes alone, drives both fans at least as hard as the sample demands,
  and any failure invalidates the state for good.
\<close>

section \<open>The demand of a cycle\<close>

definition history_ok :: "control_demand_history \<Rightarrow> bool" where
  "history_ok h =
     (temperature_ok (et_current (cdh_cpu_temperature h)) \<and> temperature_ok (et_current (cdh_gpu_temperature h))
      \<and> smoother_ok (cdh_smoother h))"

definition calibrations_ok :: "tachometer_validator \<Rightarrow> bool" where
  "calibrations_ok t = (calibration_ok (qtc_cpu (tv_calibration t)) \<and> calibration_ok (qtc_gpu (tv_calibration t)))"

definition control_ok :: "healthy_control \<Rightarrow> bool" where
  "control_ok c \<longleftrightarrow> device_ok (hc_device c) \<and> config_ok (hc_config c)
     \<and> (\<forall>h. hc_demand_history c = Some h \<longrightarrow> history_ok h) \<and> calibrations_ok (hc_tachometers c)"

definition sample_typed :: "complete_sample_set \<Rightarrow> bool" where
  "sample_typed s = (temperature_ok (css_cpu_temperature s) \<and> temperature_ok (css_gpu_temperature s))"

text \<open>The duties the curves demand for this sample, without history, are computed and not undercut.\<close>

definition meets_demand :: "validated_config \<Rightarrow> complete_sample_set \<Rightarrow> fan_outputs \<Rightarrow> bool" where
  "meets_demand config s outputs \<longleftrightarrow>
     (\<exists>d. calculate_fan_outputs config (css_cpu_temperature s) (css_gpu_temperature s) (css_external_power s)
            = (Ok d :: (healthy_control_cycle_error, fan_outputs) outcome)
        \<and> cpu_pwm d \<le> cpu_pwm outputs \<and> gpu_pwm d \<le> gpu_pwm outputs)"

lemma config_ok_parts:
  "config_ok v \<Longrightarrow> hysteresis_ok (hysteresis (control v)) \<and> policy_ok (downshift (control v))"
  by (simp add: config_ok_def)

lemma next_outputs_ok:
  assumes "config_ok config" "sample_typed s" "\<And>h. history = Some h \<Longrightarrow> history_ok h"
  shows "(\<exists>e. next_outputs config history s = Err (CyclePolicyClock e))
    \<or> (\<exists>h outputs. next_outputs config history s = Ok (h, outputs) \<and> history_ok h \<and> meets_demand config s outputs
         \<and> outputs = fan_outputs_for_demand config (commanded (cdh_smoother h)))"
proof -
  let ?c = "css_cpu_temperature s" and ?g = "css_gpu_temperature s" and ?p = "css_external_power s"
  have t: "temperature_ok ?c" "temperature_ok ?g" using assms(2) by (simp_all add: sample_typed_def)
  have refl: "f64_le x x" if "temperature_ok x" for x using that by (auto elim: temperature_okE)
  have meets: "meets_demand config s (fan_outputs_for_demand config d')"
    if pre: "temperature_ok c'" "temperature_ok g'" "f64_le ?c c'" "f64_le ?g g'"
      "calculate_target_demand config c' g' ?p = (Ok d0 :: (healthy_control_cycle_error, f64) outcome)"
      "demand_ok d'" "f64_le d0 d'" for c' g' d0 d'
  proof -
    obtain d e where d: "calculate_target_demand config ?c ?g ?p = (Ok d :: (healthy_control_cycle_error, f64) outcome)"
      "calculate_target_demand config c' g' ?p = (Ok e :: (healthy_control_cycle_error, f64) outcome)"
      "demand_ok d" "demand_ok e" "f64_le d e"
      using target_mono [OF assms(1) t(1) pre(1) t(2) pre(2,3,4), of ?p, where 'e = healthy_control_cycle_error] by blast
    then have "f64_le d d'" using pre(5,7) f64_le_trans by auto
    from outputs_mono [OF assms(1) d(3) pre(6) this] show ?thesis
      by (auto simp: meets_demand_def calculate_fan_outputs_def d(1))
  qed
  show ?thesis
  proof (cases history)
    case None
    obtain d where d: "calculate_target_demand config ?c ?g ?p = (Ok d :: (healthy_control_cycle_error, f64) outcome)" "demand_ok d"
      using target_mono [OF assms(1) t(1,1) t(2,2) refl [OF t(1)] refl [OF t(2)], of ?p, where 'e = healthy_control_cycle_error] by blast
    have le: "f64_le d d" using d(2) by (auto elim: demand_okE)
    have "history_ok \<lparr>cdh_cpu_temperature = effective_temperature_new ?c, cdh_gpu_temperature = effective_temperature_new ?g,
        cdh_smoother = demand_smoother_new d (downshift (control config)) (css_completed_at s)\<rparr>"
      using t d(2) le config_ok_parts [OF assms(1)]
      by (simp add: history_ok_def effective_temperature_new_def demand_smoother_new_def smoother_ok_def)
    then show ?thesis
      using d(1) meets [OF t refl [OF t(1)] refl [OF t(2)] d(1) d(2) le]
      by (auto simp: next_outputs_def next_history_def None Let_def effective_temperature_new_def demand_smoother_new_def)
  next
    case (Some h)
    then have h: "temperature_ok (et_current (cdh_cpu_temperature h))" "temperature_ok (et_current (cdh_gpu_temperature h))"
      "smoother_ok (cdh_smoother h)" using assms(3) by (simp_all add: history_ok_def)
    have hy: "hysteresis_ok (hysteresis (control config))" using config_ok_parts [OF assms(1)] by simp
    obtain c' where c': "effective_temperature_update ?c (hysteresis (control config)) (cdh_cpu_temperature h)
        = ((Ok c' :: (healthy_control_cycle_error, f64) outcome), \<lparr>et_current = c'\<rparr>)" "temperature_ok c'" "f64_le ?c c'"
      using effective_temperature_update_ok [OF h(1) t(1) hy] by metis
    obtain g' where g': "effective_temperature_update ?g (hysteresis (control config)) (cdh_gpu_temperature h)
        = ((Ok g' :: (healthy_control_cycle_error, f64) outcome), \<lparr>et_current = g'\<rparr>)" "temperature_ok g'" "f64_le ?g g'"
      using effective_temperature_update_ok [OF h(2) t(2) hy] by metis
    obtain d where d: "calculate_target_demand config c' g' ?p = (Ok d :: (healthy_control_cycle_error, f64) outcome)" "demand_ok d"
      using target_mono [OF assms(1) t(1) c'(2) t(2) g'(2) c'(3) g'(3), of ?p, where 'e = healthy_control_cycle_error] by blast
    show ?thesis
    proof (cases "css_completed_at s < last_update (cdh_smoother h)")
      case True
      then show ?thesis by (simp add: next_outputs_def next_history_def Some c' g' d demand_smoother_update_def)
    next
      case False
      then obtain d' sm where u: "demand_smoother_update d (css_completed_at s) (cdh_smoother h) = (Ok d', sm)"
        "smoother_ok sm" "commanded sm = d'" "f64_le d d'"
        using smoother_update_ok [OF h(3) d(2), of "css_completed_at s"] by (auto simp: not_less)
      then have "demand_ok d'" by (auto simp: smoother_ok_def)
      from meets [OF c'(2) g'(2) c'(3) g'(3) d(1) this u(4)] show ?thesis
        using u c'(2) g'(2) by (simp add: next_outputs_def next_history_def Some c' g' d history_ok_def)
    qed
  qed
qed

section \<open>The steps of a cycle\<close>

definition owner_kept :: "('p, 'l, 's) world \<Rightarrow> ('p, 'l, 's) world \<Rightarrow> bool" where
  "owner_kept w w' \<longleftrightarrow> restoration_confirmed w' = restoration_confirmed w \<and> controlled_device w' = controlled_device w
     \<and> ownership_id w' = ownership_id w \<and> sampling_epoch w' = sampling_epoch w \<and> own_lock w' = own_lock w"

definition control_kept :: "healthy_control \<Rightarrow> healthy_control \<Rightarrow> bool" where
  "control_kept c c' \<longleftrightarrow> hc_ownership_id c' = hc_ownership_id c \<and> hc_custom_epoch c' = hc_custom_epoch c
     \<and> hc_config c' = hc_config c \<and> hc_device c' = hc_device c \<and> hc_invalidated c' = hc_invalidated c"

text \<open>A part of a cycle keeps the owner, the identity of the control state and every file but the two duties.\<close>

definition cycle_keeps ::
  "('p \<Rightarrow> path \<Rightarrow> string option) \<Rightarrow> acer_hwmon_device \<Rightarrow> healthy_control \<times> ('p, 'l, 's) world
     \<Rightarrow> healthy_control \<times> ('p, 'l, 's) world \<Rightarrow> bool" where
  "cycle_keeps content dev cw cw' \<longleftrightarrow> control_kept (fst cw) (fst cw') \<and> owner_kept (snd cw) (snd cw')
     \<and> (\<forall>path. path \<notin> pwm_paths dev \<longrightarrow> content (platform (snd cw')) path = content (platform (snd cw)) path)"

definition cycle_ready ::
  "('p \<Rightarrow> bool) \<Rightarrow> acer_hwmon_device \<Rightarrow> validated_config \<Rightarrow> healthy_control \<times> ('p, 'l, 's) world \<Rightarrow> bool" where
  "cycle_ready sound dev config cw \<longleftrightarrow> sound (platform (snd cw)) \<and> control_ok (fst cw) \<and> hc_device (fst cw) = dev
     \<and> hc_config (fst cw) = config"

definition cycle_applied :: "acer_hwmon_device \<Rightarrow> fan_outputs \<Rightarrow> (path \<Rightarrow> string option) \<Rightarrow> bool" where
  "cycle_applied dev outputs c \<longleftrightarrow>
     holds_text c (enable_path (dev_cpu dev)) cycle_custom_control \<and> holds_text c (pwm_path (dev_cpu dev)) (duty_text (cpu_pwm outputs))
     \<and> holds_text c (enable_path (dev_gpu dev)) cycle_custom_control \<and> holds_text c (pwm_path (dev_gpu dev)) (duty_text (gpu_pwm outputs))"

definition cycle_completed ::
  "('p \<Rightarrow> path \<Rightarrow> string option) \<Rightarrow> validated_config \<Rightarrow> acer_hwmon_device \<Rightarrow> completed_control_cycle
     \<Rightarrow> healthy_control \<times> ('p, 'l, 's) world \<Rightarrow> bool" where
  "cycle_completed content config dev y cw \<longleftrightarrow> hc_last_outputs (fst cw) = ccc_outputs y
     \<and> hc_demand_history (fst cw) \<noteq> None
     \<and> meets_demand config (ccc_sample y) (ccc_outputs y) \<and> cycle_applied dev (ccc_outputs y) (content (platform (snd cw)))"

text \<open>Sources whose temperatures are values of their type and that do not panic.\<close>

definition typed_sources :: "('p \<Rightarrow> bool) \<Rightarrow> ('p, 's) sample_sources \<Rightarrow> bool" where
  "typed_sources sound S \<longleftrightarrow>
     (\<forall>c s p. sound p \<longrightarrow>
        wp (sample_cpu S c) (\<lambda>r _. r \<noteq> Panic \<and> (\<forall>ob. r = Ok ob \<longrightarrow> temperature_ok (os_value ob))) (s, p)
      \<and> wp (sample_gpu S c) (\<lambda>r _. r \<noteq> Panic \<and> (\<forall>ob. r = Ok ob \<longrightarrow> temperature_ok (os_value ob))) (s, p)
      \<and> wp (observe_external_power_op S c) (\<lambda>r _. r \<noteq> Panic) (s, p))"

lemma cycle_keeps_transp: "transp (cycle_keeps content dev)"
  by (rule transpI) (auto simp: cycle_keeps_def control_kept_def owner_kept_def)

lemma cycle_keeps_refl [simp]: "cycle_keeps content dev cw cw"
  by (simp add: cycle_keeps_def control_kept_def owner_kept_def)

definition sampling :: "('p \<Rightarrow> path \<Rightarrow> string option) \<Rightarrow> ('p, 'l, 's) world \<Rightarrow> ('p, 'l, 's) world \<Rightarrow> bool" where
  "sampling content w w' \<longleftrightarrow> content (platform w') = content (platform w) \<and> owner_kept w w'"

lemma sampling_transp: "transp (sampling content)"
  by (rule transpI) (auto simp: sampling_def owner_kept_def)

lemma on_snd_try: "try_io (on_snd m) (\<lambda>x. on_snd (f x)) = on_snd (try_io m f)"
  by (rule ext) (auto simp: try_io_def on_snd_def split: prod.splits outcome.splits)

lemma triple_on_snd:
  assumes "triple (\<lambda>w. sound (platform w)) (stores content now A v) m G" "A \<subseteq> pwm_paths dev"
  shows "triple (cycle_ready sound dev config) (cycle_keeps content dev) (on_snd m) (\<lambda>y cw. G y (snd cw))"
  unfolding triple_def wp_on_snd
proof (intro allI impI, goal_cases)
  case (1 cw)
  then have "sound (platform (snd cw))" by (simp add: cycle_ready_def)
  from tripleD [OF assms(1) this] show ?case
    by (rule wp_mono)
      (use 1 assms(2) in \<open>auto simp: cycle_ready_def cycle_keeps_def control_kept_def owner_kept_def stores_def only_stored_def
        ran_on_fields\<close>)
qed

lemma get_control_triple:
  assumes "\<And>c. control_ok c \<Longrightarrow> hc_device c = dev \<Longrightarrow> hc_config c = config \<Longrightarrow> triple (cycle_ready sound dev config) (cycle_keeps content dev) (f c) G"
  shows "triple (cycle_ready sound dev config) (cycle_keeps content dev) (try_io get_fst f) G"
proof (rule triple_result [OF cycle_keeps_transp, where F = "\<lambda>c. control_ok c \<and> hc_device c = dev \<and> hc_config c = config"], goal_cases)
  case 1
  show ?case by (auto simp: triple_def wp_get_fst cycle_ready_def)
next
  case (2 c)
  then show ?case using assms by blast
qed

lemma ensure_running_triple:
  fixes now :: "'p \<Rightarrow> duration" and R :: "('p, 'l, 's) world \<Rightarrow> ('p, 'l, 's) world \<Rightarrow> bool"
  assumes "\<And>w w'. ran_on now w w' \<Longrightarrow> platform w' = platform w \<Longrightarrow> R w w'"
  shows "triple (\<lambda>w. sound (platform w)) R ensure_running (\<lambda>_ _. True)"
proof (rule tripleI)
  fix w :: "('p, 'l, 's) world" assume "sound (platform w)"
  then show "wp ensure_running (\<lambda>r w'. r \<noteq> Panic \<and> sound (platform w') \<and> R w w' \<and> (\<forall>y. r = Ok y \<longrightarrow> True)) w"
    unfolding ensure_running_def
    by (intro wp_try [OF wp_shutdown_is_requested [where now = now]]) (auto simp: wp_return intro: assms)
qed

text \<open>What a failure leaves of the control state and of the world.\<close>

definition failed_cycle ::
  "healthy_control_cycle_error \<Rightarrow> healthy_control \<times> ('p, 'l, 's) world \<Rightarrow> healthy_control \<times> ('p, 'l, 's) world" where
  "failed_cycle e cw =
     ((fst cw)\<lparr>hc_invalidated := True\<rparr>,
      (snd cw)\<lparr>journal := journal (snd cw) @ [FaultEvent (fst (cycle_fault_diagnostic e)) (snd (cycle_fault_diagnostic e))]\<rparr>)"

lemma wp_run_control_cycle:
  "wp (run_control_cycle P S) Q (c, w) \<longleftrightarrow>
     (hc_invalidated c \<longrightarrow> Q (Err CycleInvalidated) (c, w))
   \<and> (\<not> hc_invalidated c \<longrightarrow> \<not> control_is_current_for c w \<longrightarrow>
        Q (Err CycleStaleArmingReceipt) (failed_cycle CycleStaleArmingReceipt (c, w)))
   \<and> (\<not> hc_invalidated c \<and> control_is_current_for c w \<longrightarrow>
        wp (try_run_cycle P S) (\<lambda>r cw'. Q r (case r of Err e \<Rightarrow> failed_cycle e cw' | _ \<Rightarrow> cw')) (c, w))"
proof -
  note emits = wp_try_io wp_modify_fst wp_on_snd wp_return emit_fault_diagnostic_def emit_fault_def wp_emit
  have tail: "wp (try_io (catch_io (try_run_cycle P S)) (\<lambda>result.
         case result of
           Inr completed \<Rightarrow> return_io (Ok completed)
         | Inl error \<Rightarrow>
             try_io (modify_fst (\<lambda>c. c\<lparr>hc_invalidated := True\<rparr>)) (\<lambda>_.
             try_io (on_snd (emit_fault_diagnostic (cycle_fault_diagnostic error))) (\<lambda>_. return_io (Err error))))) Q (c, w)
     = wp (try_run_cycle P S) (\<lambda>r cw'. Q r (case r of Err e \<Rightarrow> failed_cycle e cw' | _ \<Rightarrow> cw')) (c, w)"
    unfolding wp_try_io [of "catch_io _"] wp_catch_io
    by (rule arg_cong [where f = "\<lambda>Q. wp (try_run_cycle P S) Q (c, w)"])
      (auto simp: emits failed_cycle_def fun_eq_iff split: outcome.split)
  show ?thesis
    unfolding run_control_cycle_def wp_try_io [of get_fst] wp_get_fst outcome.case fst_conv
    by (simp add: tail wp_try_io [of "on_snd (get_io _)"] wp_on_snd [of "get_io _"] wp_get_io)
      (auto simp: emits failed_cycle_def)
qed

lemma wp_on_gate:
  "wp (on_gate m) Q cw = wp m (\<lambda>r gw. Q r ((fst cw)\<lparr>hc_sample_gate := fst gw\<rparr>, snd gw)) (hc_sample_gate (fst cw), snd cw)"
  by (auto simp: wp_def on_gate_def split: prod.splits)

lemma triple_carry:
  "triple I R m G \<Longrightarrow> (\<And>s s'. K s \<Longrightarrow> R s s' \<Longrightarrow> K s') \<Longrightarrow> triple (\<lambda>s. I s \<and> K s) R m (\<lambda>_. K)"
  unfolding triple_def by (blast intro: wp_mono)

context fan_platform
begin

lemma running_triple: "triple ok (stores content now A v) ensure_running (\<lambda>_ _. True)"
  by (rule ensure_running_triple [where now = now]) (simp add: stores_def only_stored_refl)

lemma verify_triple:
  assumes "device_ok dev"
  shows "triple ok (stores content now A v) (verify_device_before P dev dl) (\<lambda>_ _. True)"
  unfolding verify_device_before_def
  by (intro triple_try stores_transp triple_catch abi_triple [OF assms] return_triple)
    (auto split: sum.splits acer_hwmon_discovery_error.splits)

lemma cycle_confirm_triple:
  assumes "device_ok dev" "path \<in> set (device_paths dev)"
  shows "triple ok (stores content now A v) (cycle_confirm P dev path fan field expected oper dl)
    (\<lambda>_ w'. holds_text (content (platform w')) path expected)"
proof (rule tripleI)
  fix w :: "('p, 'l, 's) world" assume s: "ok w"
  show "wp (cycle_confirm P dev path fan field expected oper dl) (\<lambda>r w'. r \<noteq> Panic \<and> ok w' \<and> stores content now A v w w'
    \<and> (\<forall>y. r = Ok y \<longrightarrow> holds_text (content (platform w')) path expected)) w"
    unfolding cycle_confirm_def
    by (rule wp_try [OF tripleD [OF triple_map_err [OF read_triple [OF assms]] s]]) (auto simp: wp_return holds_text_def)
qed

lemma confirm_state_triple:
  assumes "device_ok dev"
  shows "triple ok (keeps content now) (confirm_state P dev outputs dl mo du)
    (\<lambda>_ w'. cycle_applied dev outputs (content (platform w')))"
proof -
  note c = cycle_confirm_triple [OF assms, where A = "{}" and v = "[]"]
  have k: "holds_text (content (platform w)) path v \<Longrightarrow> keeps content now w w' \<Longrightarrow> holds_text (content (platform w')) path v"
    for path v and w w' :: "('p, 'l, 'b) world" by (simp add: keeps_content)
  have fan: "triple ok (keeps content now) (confirm_fan_state P dev i e val dl mo du)
      (\<lambda>_ w'. holds_text (content (platform w')) (enable_path e) cycle_custom_control
         \<and> holds_text (content (platform w')) (pwm_path e) (duty_text val))" if "e \<in> device_fans dev" for i e val
    unfolding confirm_fan_state_def
  proof (rule triple_bind [OF stores_transp c], goal_cases)
    case (2 x)
    have p: "pwm_path e \<in> set (device_paths dev)" using that by (auto simp: device_fans_def)
    show ?case
      unfolding triple_def
    proof (intro allI impI, goal_cases)
      case (1 w)
      then have "ok w" by simp
      from tripleD [OF c [OF p] this] show ?case by (rule wp_mono) (use 1 in \<open>auto simp: keeps_content\<close>)
    qed
  qed (use that in \<open>auto simp: device_fans_def\<close>)
  have f: "dev_cpu dev \<in> device_fans dev" "dev_gpu dev \<in> device_fans dev" by (simp_all add: device_fans_def)
  show ?thesis
    unfolding confirm_state_def triple_def
  proof (intro allI impI, rule wp_try [OF tripleD [OF fan [OF f(1)]]], goal_cases)
    case (2 w x w1)
    then have "ok w1" by simp
    from tripleD [OF fan [OF f(2)] this] show ?case
      by (rule wp_mono) (use 2 in \<open>auto simp: keeps_content cycle_applied_def intro: ran_on_trans\<close>)
  qed auto
qed

lemma cycle_write_triple:
  assumes "device_ok dev" "e \<in> device_fans dev"
  shows "triple ok (stores content now (pwm_paths dev) (duty_text val)) (cycle_write P dev e fan val dl) (\<lambda>_ _. True)"
  unfolding cycle_write_def
  by (intro triple_map_err triple_mono [OF write_triple [OF assms(1)]])
    (use assms(2) in \<open>auto simp: device_fans_def pwm_paths_def\<close>)

lemma response_triple:
  assumes "device_ok dev" "calibrations_ok t"
  shows "triple ok (keeps content now) (validate_tachometer_response P dev t dl) (\<lambda>_ _. True)"
proof -
  have ob: "observe_tachometer t fan rpm obs \<noteq> Panic" for fan rpm obs
  proof -
    have "calibration_ok (fst (fan_calibration_state fan t))" using assms(2) by (cases fan) (simp_all add: calibrations_ok_def)
    from expected_rpm_plausible [OF this, where 'e = tachometer_observation_error]
    have "observe t fan rpm obs \<noteq> Panic"
      by (auto simp: observe_def bind_ok_eq_Panic ok_or_def split: prod.splits option.splits) (metis fst_conv outcome.distinct(3))
    then show ?thesis by (auto simp: observe_tachometer_def split: outcome.splits tachometer_observation_error.splits)
  qed
  have pa: "parse_tachometer fan raw \<noteq> Panic" for fan raw by (simp add: parse_tachometer_def split: option.splits)
  have fan: "triple ok (keeps content now) (validate_fan_response P dev t i e dl) (\<lambda>_ _. True)" if "e \<in> device_fans dev" for i e
    unfolding validate_fan_response_def cycle_read_tachometer_def
    by (intro triple_try [OF stores_transp] triple_map_err triple_mono [OF read_triple [OF assms(1)]] now_triple return_triple)
      (use that in \<open>auto simp: ob pa device_fans_def\<close>)
  show ?thesis
    unfolding validate_tachometer_response_def
    by (intro triple_try [OF stores_transp] fan return_triple) (auto simp: device_fans_def)
qed

lemma confirm_cycle_triple:
  assumes "device_ok dev"
  shows "triple (cycle_ready sound dev config) (cycle_keeps content dev) (confirm_cycle P dev outputs dl)
    (\<lambda>_ cw. cycle_applied dev outputs (content (platform (snd cw))))"
proof -
  let ?K = "\<lambda>w :: ('p, 'l, 'b) world. cycle_applied dev outputs (content (platform w))"
  have carried: "triple (\<lambda>w. ok w \<and> ?K w) (keeps content now) m (\<lambda>_. ?K)"
    if "triple ok (keeps content now) m (\<lambda>_ _. True)" for m :: "(('p, 'l, 'b) world, healthy_control_cycle_error, unit) io"
    by (rule triple_carry [OF that]) (simp add: keeps_content)
  have weak: "triple (\<lambda>w. ok w \<and> ?K w) (keeps content now) m (\<lambda>_ _. True)"
    if "triple ok (keeps content now) m (\<lambda>_ _. True)" for m :: "(('p, 'l, 'b) world, healthy_control_cycle_error, unit) io"
    by (rule triple_mono [OF carried [OF that]]) auto
  have "triple ok (keeps content now) (try_io ensure_running (\<lambda>_.
     try_io (confirm_state P dev outputs dl CycleConfirmResult CycleConfirmResult) (\<lambda>_.
     try_io ensure_running (\<lambda>_. try_io (verify_device_before P dev dl) (\<lambda>_. ensure_running))))) (\<lambda>_. ?K)"
    by (intro triple_try [OF stores_transp running_triple] triple_bind [OF stores_transp confirm_state_triple [OF assms]]
        triple_try [OF stores_transp weak] carried running_triple verify_triple [OF assms])
  from triple_on_snd [OF this] show ?thesis unfolding confirm_cycle_def on_snd_try by simp
qed

lemma write_changed_triple:
  assumes "device_ok dev" "e \<in> device_fans dev"
  shows "triple (cycle_ready sound dev config) (cycle_keeps content dev) (write_changed_output P dev fan e p n dl) (\<lambda>_ _. True)"
proof -
  have t: "triple (cycle_ready sound dev config) (cycle_keeps content dev) (modify_fst (\<lambda>c. c\<lparr>hc_tachometers := command_confirmed fan n t (hc_tachometers c)\<rparr>))
      (\<lambda>_ _. True)" for t
    by (cases fan) (auto simp: triple_def wp_modify_fst cycle_ready_def cycle_keeps_def control_ok_def calibrations_ok_def control_kept_def owner_kept_def)
  have p: "enable_path e \<in> set (device_paths dev)" "pwm_path e \<in> set (device_paths dev)" using assms(2) by (auto simp: device_fans_def)
  note on = triple_on_snd [where A = "{}" and v = "[]" and G = "\<lambda>_ _. True" and now = now]
  have cc: "triple ok (keeps content now) (cycle_confirm P dev path fan field expected oper dl) (\<lambda>_ _. True)"
    if "path \<in> set (device_paths dev)" for path field expected oper
    by (rule triple_mono [OF cycle_confirm_triple [OF assms(1) that]]) auto
  show ?thesis
    unfolding write_changed_output_def
    by (intro triple_if triple_try [OF cycle_keeps_transp] on [OF running_triple] on [OF cc [OF p(1)]] on [OF cc [OF p(2)]] t
        triple_on_snd [OF cycle_write_triple [OF assms]] on [OF now_triple] triple_return) auto
qed

lemma observe_cycle_triple:
  assumes "device_ok dev"
  shows "triple (cycle_ready sound dev config) (cycle_keeps content dev) (observe_cycle P dev dl) (\<lambda>_ _. True)"
proof -
  note on = triple_on_snd [where A = "{}" and v = "[]" and G = "\<lambda>_ _. True" and now = now]
  have cs: "triple ok (keeps content now) (confirm_state P dev outputs dl mo du) (\<lambda>_ _. True)" for outputs mo du
    by (rule triple_mono [OF confirm_state_triple [OF assms]]) auto
  show ?thesis
    unfolding observe_cycle_def
    by (rule get_control_triple)
      (intro triple_try [OF cycle_keeps_transp] on [OF running_triple] on [OF verify_triple [OF assms]] on [OF cs]
        on [OF response_triple [OF assms]] triple_return; auto simp: control_ok_def)
qed

lemma source_triple:
  assumes "\<And>s p. sound p \<Longrightarrow> wp m (\<lambda>_ sp. sound (snd sp) \<and> content (snd sp) = content p) (s, p)"
    "\<And>s p. sound p \<Longrightarrow> wp m (\<lambda>r _. r \<noteq> Panic \<and> (\<forall>ob. r = Ok ob \<longrightarrow> G ob)) (s, p)"
  shows "triple ok (sampling content) (map_err_io h (on_sources m)) (\<lambda>y _. G y)"
  unfolding triple_def wp_map_err_io wp_on_sources
  by (intro allI impI, rule wp_mono [OF wp_conj [OF assms]]) (auto simp: sampling_def owner_kept_def)

lemma sampling_now: "triple ok (sampling content) (now_io P) (\<lambda>_ _. True)"
  by (rule triple_mono [OF now_triple [where A = "{}" and v = "[]"]])
    (auto simp: keeps_content sampling_def owner_kept_def ran_on_fields)

lemma sampling_return:
  "r \<noteq> Panic \<Longrightarrow> (\<And>y. r = Ok y \<Longrightarrow> G y) \<Longrightarrow> triple ok (sampling content) (return_io r) (\<lambda>y _. G y)"
  by (rule triple_return) (auto simp: sampling_def owner_kept_def)

lemma collect_triple:
  assumes "passive_sources sound content S" "typed_sources sound S"
  shows "triple ok (sampling content) (collect_complete_set P S cycle prev) (\<lambda>s _. sample_typed s)"
proof -
  note pa = assms(1) [unfolded passive_sources_def, rule_format] and ty = assms(2) [unfolded typed_sources_def, rule_format]
  note tr = sampling_transp [of content]
  let ?T = "\<lambda>ob. temperature_ok (os_value ob)"
  have src: "triple ok (sampling content) (map_err_io h (on_sources (sample_cpu S c))) (\<lambda>y _. ?T y)"
    "triple ok (sampling content) (map_err_io h (on_sources (sample_gpu S c))) (\<lambda>y _. ?T y)"
    "triple ok (sampling content) (map_err_io h' (on_sources (observe_external_power_op S c))) (\<lambda>_ _. True)" for h h' c
    by (rule source_triple; use pa ty in simp)+
  have no: "validate_observation i ob t a b c \<noteq> Panic" for i t a b c and ob :: "'v observed_sample"
    by (simp add: validate_observation_def)
  show ?thesis
    unfolding collect_complete_set_def Let_def
    by (intro triple_try [OF tr sampling_now] triple_try [OF tr sampling_return] triple_try [OF tr src(3)]
        triple_result [OF tr src(1)] triple_result [OF tr src(2)] sampling_return)
      (auto simp: no sample_typed_def ok_or_def split: option.splits)
qed

lemma wait_triple: "triple ok (sampling content) (wait_for_next_sample P g) (\<lambda>_ _. True)"
proof -
  have delay: "triple ok (sampling content) (delay_io P d) (\<lambda>_ _. True)" for d
    unfolding triple_def wp_delay_io using delay_spec [of _ d] by (auto simp: sampling_def owner_kept_def steady_def)
  show ?thesis
    unfolding wait_for_next_sample_def
    by (cases "sg_last_started g")
      (auto intro!: triple_try [OF sampling_transp] sampling_now sampling_return delay triple_if simp: ok_or_def split: option.splits)
qed

abbreviation gate_ok :: "sample_gate \<times> ('p, 'l, 'b) world \<Rightarrow> bool" where
  "gate_ok gw \<equiv> sound (platform (snd gw))"

lemma gate_triple:
  assumes "passive_sources sound content S" "typed_sources sound S"
  shows "triple gate_ok (\<lambda>gw gw'. sampling content (snd gw) (snd gw')) (control_gate_sample P S) (\<lambda>s _. sample_typed s)"
proof -
  let ?R = "\<lambda>gw gw'. sampling content (snd gw) (snd gw')"
  have tr: "transp ?R" by (rule transpI) (blast dest: transpD [OF sampling_transp])
  have snd: "triple gate_ok ?R (on_snd m) (\<lambda>y _. F y)" if "triple ok (sampling content) m (\<lambda>y _. F y)"
    for m :: "(('p, 'l, 'b) world, sample_set_error, 'y) io" and F
    using that by (auto simp: triple_def wp_on_snd)
  have fst: "triple gate_ok ?R get_fst (\<lambda>_ _. True)" "triple gate_ok ?R (modify_fst f) (\<lambda>_ _. True)" for f
    by (auto simp: triple_def wp_get_fst wp_modify_fst sampling_def owner_kept_def)
  have ret: "r \<noteq> Panic \<Longrightarrow> (\<And>y. r = Ok y \<Longrightarrow> F y) \<Longrightarrow> triple gate_ok ?R (return_io r) (\<lambda>y _. F y)"
    for r :: "(sample_set_error, 'y) outcome" and F
    by (rule triple_return) (auto simp: sampling_def owner_kept_def)
  have cadence: "(case last of None \<Rightarrow> Ok () | Some t \<Rightarrow>
      bind_ok (ok_or ClockWentBackwards (duration_checked_sub u t)) (\<lambda>elapsed.
        if \<not> is_normal_cadence elapsed
        then bind_ok (ok_or SampleDeadlineOverflow (duration_checked_add t normal_sample_cadence)) (\<lambda>expected_at. Err (CadenceMissed expected_at u))
        else Ok ())) \<noteq> Panic" for last u
    by (auto simp: ok_or_def split: option.splits)
  show ?thesis
    unfolding control_gate_sample_def Let_def
    by (intro triple_try [OF tr fst(1)] triple_try [OF tr fst(2)] triple_try [OF tr snd [OF wait_triple]]
        triple_result [OF tr snd [OF collect_triple [OF assms]]] triple_try [OF tr ret] ret)
      (auto simp: ok_or_def cadence split: option.splits)
qed

lemma sample_triple:
  assumes "passive_sources sound content S" "typed_sources sound S"
  shows "triple (cycle_ready sound dev config) (cycle_keeps content dev) (sample_control P S) (\<lambda>s _. sample_typed s)"
  unfolding sample_control_def
proof (rule triple_map_err, unfold triple_def wp_on_gate, intro allI impI, goal_cases)
  case (1 cw)
  then have "sound (platform (snd (hc_sample_gate (fst cw), snd cw)))" by (simp add: cycle_ready_def)
  from tripleD [OF gate_triple [OF assms], of "(hc_sample_gate (fst cw), snd cw)", OF this] show ?case
    by (rule wp_mono) (use 1 in \<open>auto simp: cycle_ready_def cycle_keeps_def sampling_def control_kept_def control_ok_def\<close>)
qed

lemma changed_triple:
  assumes "device_ok dev"
  shows "triple (cycle_ready sound dev config) (cycle_keeps content dev) (write_changed_outputs P dev previous outputs dl) (\<lambda>_ _. True)"
  unfolding write_changed_outputs_def
  by (intro triple_try [OF cycle_keeps_transp] write_changed_triple [OF assms]) (simp_all add: device_fans_def)

lemma finish_triple:
  assumes "history_ok history"
  shows "triple (\<lambda>cw. cycle_ready sound dev config cw \<and> cycle_applied dev outputs (content (platform (snd cw))))
    (cycle_keeps content dev)
    (try_io (modify_fst (\<lambda>c. c\<lparr>hc_demand_history := Some history, hc_last_outputs := outputs\<rparr>)) (\<lambda>_.
     try_io (on_snd (emit_control_cycle d)) (\<lambda>_.
       return_io (Ok \<lparr>ccc_sample = sample, ccc_outputs = outputs\<rparr>))))
    (\<lambda>y cw. y = \<lparr>ccc_sample = sample, ccc_outputs = outputs\<rparr> \<and> hc_last_outputs (fst cw) = outputs
       \<and> hc_demand_history (fst cw) = Some history \<and> cycle_applied dev outputs (content (platform (snd cw))))"
  using assms
  by (auto simp: triple_def wp_try_io wp_modify_fst wp_on_snd wp_return emit_control_cycle_def emit_def wp_modify_io
      cycle_ready_def cycle_keeps_def control_kept_def owner_kept_def control_ok_def)

lemma try_run_triple:
  assumes "device_ok dev" "config_ok config" "passive_sources sound content S" "typed_sources sound S"
  shows "triple (cycle_ready sound dev config) (cycle_keeps content dev) (try_run_cycle P S)
    (\<lambda>y cw. cycle_completed content config dev y cw)"
proof -
  note tr = cycle_keeps_transp [of content dev]
  note on = triple_on_snd [where A = "{}" and v = "[]" and G = "\<lambda>_ _. True" and now = now]
  have ret: "r \<noteq> Panic \<Longrightarrow> (\<And>y. r = Ok y \<Longrightarrow> F y) \<Longrightarrow> triple (cycle_ready sound dev config) (cycle_keeps content dev) (return_io r) (\<lambda>y _. F y)"
    for r :: "(healthy_control_cycle_error, 'y) outcome" and F
    by (rule triple_return) auto
  have out: "triple (cycle_ready sound dev config) (cycle_keeps content dev) (return_io (next_outputs config (hc_demand_history c) s))
      (\<lambda>ho _. history_ok (fst ho) \<and> meets_demand config s (snd ho))"
    if "control_ok c" "sample_typed s" for c s
  proof (rule ret)
    have n: "(\<exists>e. next_outputs config (hc_demand_history c) s = Err (CyclePolicyClock e))
      \<or> (\<exists>h outputs. next_outputs config (hc_demand_history c) s = Ok (h, outputs) \<and> history_ok h \<and> meets_demand config s outputs)"
      using next_outputs_ok [OF assms(2) that(2), of "hc_demand_history c"] that(1) by (auto simp: control_ok_def)
    from n show "next_outputs config (hc_demand_history c) s \<noteq> Panic" by auto
    from n show "history_ok (fst y) \<and> meets_demand config s (snd y)" if "next_outputs config (hc_demand_history c) s = Ok y" for y
      using that by auto
  qed
  have tail: "triple (cycle_ready sound dev config) (cycle_keeps content dev)
      (try_io (confirm_cycle P dev outputs dl) (\<lambda>_.
       try_io (modify_fst (\<lambda>c. c\<lparr>hc_demand_history := Some history, hc_last_outputs := outputs\<rparr>)) (\<lambda>_.
       try_io (on_snd (emit_control_cycle d)) (\<lambda>_. return_io (Ok \<lparr>ccc_sample = s, ccc_outputs = outputs\<rparr>)))))
      (\<lambda>y cw. cycle_completed content config dev y cw)"
    if "history_ok history" "meets_demand config s outputs" for outputs dl history d s
    by (rule triple_bind [OF tr confirm_cycle_triple [OF assms(1)]], rule triple_mono [OF finish_triple [OF that(1)]])
      (use that(2) in \<open>auto simp: cycle_completed_def\<close>)
  show ?thesis
    unfolding try_run_cycle_def
  proof (rule triple_try [OF tr on [OF running_triple]], simp, rule get_control_triple, goal_cases)
    case (1 x c)
    show ?case
      unfolding 1
    proof (rule triple_result [OF tr sample_triple [OF assms(3,4)]], rule triple_try [OF tr on [OF running_triple]], simp,
        rule triple_try [OF tr], rule ret, simp add: ok_or_def split: option.splits, simp,
        rule triple_result [OF tr out], goal_cases)
      case (3 s u dl ho)
      then show ?case
        by (cases ho) (auto intro!: triple_try [OF tr observe_cycle_triple [OF assms(1)]]
            triple_try [OF tr changed_triple [OF assms(1)]] tail split: prod.split)
    qed (use 1 in auto)
  qed
qed

lemma run_cycle_effect:
  assumes "control_ok c" "sound (platform w)" "passive_sources sound content S" "typed_sources sound S"
  shows "wp (run_control_cycle P S) (\<lambda>r cw'. r \<noteq> Panic \<and> sound (platform (snd cw')) \<and> control_ok (fst cw') \<and> owner_kept w (snd cw')
      \<and> hc_config (fst cw') = hc_config c \<and> hc_device (fst cw') = hc_device c
      \<and> (\<forall>path. path \<notin> pwm_paths (hc_device c) \<longrightarrow> content (platform (snd cw')) path = content (platform w) path)
      \<and> (\<forall>y. r = Ok y \<longrightarrow> control_is_current_for c w \<and> control_is_current_for (fst cw') (snd cw')
           \<and> cycle_completed content (hc_config c) (hc_device c) y cw')) (c, w)"
proof -
  have d: "device_ok (hc_device c)" "config_ok (hc_config c)" using assms(1) by (simp_all add: control_ok_def)
  have ready: "cycle_ready sound (hc_device c) (hc_config c) (c, w)" using assms(1,2) by (simp add: cycle_ready_def)
  show ?thesis
  proof (cases "control_is_current_for c w")
    case False
    then show ?thesis
      using assms by (auto simp: wp_run_control_cycle failed_cycle_def owner_kept_def control_ok_def)
  next
    case True
    show ?thesis
      unfolding wp_run_control_cycle
      by (use True in \<open>auto simp: control_is_current_for_def\<close>; rule wp_mono [OF tripleD [OF try_run_triple [OF d assms(3,4)] ready]])
        (use True in \<open>auto simp: failed_cycle_def cycle_ready_def cycle_keeps_def control_kept_def owner_kept_def control_ok_def
          control_is_current_for_def custom_epoch_is_current_def split: outcome.splits\<close>)
  qed
qed

end

section \<open>The writes of a cycle\<close>

definition changed_duty :: "fan_endpoints \<Rightarrow> pwm \<Rightarrow> pwm \<Rightarrow> (path \<times> string) list" where
  "changed_duty e previous_pwm next_pwm = (if previous_pwm = next_pwm then [] else [(pwm_path e, duty_text next_pwm)])"

definition changed_duties :: "acer_hwmon_device \<Rightarrow> fan_outputs \<Rightarrow> fan_outputs \<Rightarrow> (path \<times> string) list" where
  "changed_duties dev previous outputs =
     changed_duty (dev_cpu dev) (cpu_pwm previous) (cpu_pwm outputs) @ changed_duty (dev_gpu dev) (gpu_pwm previous) (gpu_pwm outputs)"

text \<open>Sources that do not attempt a write.\<close>

definition writeless_sources :: "('p \<Rightarrow> (path \<times> string) list) \<Rightarrow> ('p, 's) sample_sources \<Rightarrow> bool" where
  "writeless_sources attempts S \<longleftrightarrow>
     (\<forall>c s p. wp (sample_cpu S c) (\<lambda>_ sp. attempts (snd sp) = attempts p) (s, p)
        \<and> wp (sample_gpu S c) (\<lambda>_ sp. attempts (snd sp) = attempts p) (s, p)
        \<and> wp (observe_external_power_op S c) (\<lambda>_ sp. attempts (snd sp) = attempts p) (s, p))"

definition yields :: "('s, 'e, 'a) io \<Rightarrow> ('a \<Rightarrow> bool) \<Rightarrow> bool" where
  "yields m F = (\<forall>s. wp m (\<lambda>r _. \<forall>y. r = Ok y \<longrightarrow> F y) s)"

lemma yields_try: "(\<And>x. yields (f x) F) \<Longrightarrow> yields (try_io m f) F"
  unfolding yields_def by (intro allI wp_try [where R = "\<lambda>_ _. True"]) (simp_all add: wp_def [of m])

lemma yields_return: "(\<And>y. r = Ok y \<Longrightarrow> F y) \<Longrightarrow> yields (return_io r) F"
  by (simp add: yields_def wp_return)

lemma script_on_snd: "script lg m xs \<Longrightarrow> script (\<lambda>cw. lg (snd cw)) (on_snd m) xs"
  by (simp add: script_def wp_on_snd)

lemma script_fst: "script (\<lambda>cw. lg (snd cw)) get_fst []" "script (\<lambda>cw. lg (snd cw)) (modify_fst f) []"
  by (simp_all add: script_def wp_get_fst wp_modify_fst)

context guarded_writes
begin

abbreviation clg :: "'c \<times> ('p, 'l, 's) world \<Rightarrow> (path \<times> string) list" where
  "clg cw \<equiv> attempts (platform (snd cw))"

lemma script_running: "script lg ensure_running []"
  unfolding ensure_running_def
  by (intro script_quiet_try script_return) (rule script_silent, rule wp_mono [OF wp_shutdown_is_requested [where now = "\<lambda>_. 0"]], auto)

lemma script_verify: "script lg (verify_device_before P dev dl) []"
  unfolding verify_device_before_def by (intro script_quiet_try script_catch script_abi script_return)

lemma script_cycle_confirm: "script lg (cycle_confirm P dev path fan field expected oper dl) []"
  unfolding cycle_confirm_def by (intro script_quiet_try script_map_err script_read script_return)

lemma script_state: "script lg (confirm_state P dev outputs dl mo du) []"
  unfolding confirm_state_def confirm_fan_state_def by (intro script_quiet_try script_cycle_confirm)

lemma script_response: "script lg (validate_tachometer_response P dev t dl) []"
  unfolding validate_tachometer_response_def validate_fan_response_def cycle_read_tachometer_def
  by (intro script_quiet_try script_map_err script_read script_now script_return)

lemmas script_cycle_parts = script_on_snd [OF script_running] script_on_snd [OF script_verify] script_on_snd [OF script_state]
  script_on_snd [OF script_response] script_on_snd [OF script_cycle_confirm] script_on_snd [OF script_now] script_fst script_return

lemma script_observe: "script clg (observe_cycle P dev dl) []"
  unfolding observe_cycle_def by (intro script_quiet_try script_cycle_parts)

lemma script_confirm_cycle: "script clg (confirm_cycle P dev outputs dl) []"
  unfolding confirm_cycle_def by (intro script_quiet_try script_cycle_parts)

lemma script_changed:
  assumes "device_ok dev" "e \<in> device_fans dev"
  shows "script clg (write_changed_output P dev fan e p n dl) (changed_duty e p n)"
proof (cases "p = n")
  case True
  then show ?thesis by (simp add: write_changed_output_def changed_duty_def script_return)
next
  case False
  have "pwm_path e \<in> set (device_paths dev)" using assms(2) by (auto simp: device_fans_def)
  then have w: "script lg (cycle_write P dev e fan n dl) [(pwm_path e, duty_text n)]"
    unfolding cycle_write_def by (intro script_map_err script_write assms(1))
  have tail: "script clg (try_io (on_snd ensure_running) (\<lambda>_.
      try_io (on_snd (cycle_confirm P dev (pwm_path e) fan CycleDuty (duty_text n) CycleConfirmWrittenDuty dl)) (\<lambda>_.
      try_io (on_snd (now_io P)) (\<lambda>now.
        modify_fst (\<lambda>c. c\<lparr>hc_tachometers := command_confirmed fan n now (hc_tachometers c)\<rparr>))))) []"
    by (intro script_quiet_try script_cycle_parts)
  show ?thesis
    unfolding write_changed_output_def changed_duty_def if_not_P [OF False]
    by (intro script_quiet_try [OF script_cycle_parts(1)] script_quiet_try [OF script_cycle_parts(5)])
      (use script_try [OF script_on_snd [OF w] tail] in simp)
qed

lemma script_changed_outputs:
  assumes "device_ok dev"
  shows "script clg (write_changed_outputs P dev previous outputs dl) (changed_duties dev previous outputs)"
  unfolding write_changed_outputs_def changed_duties_def
  by (intro script_try script_changed assms) (simp_all add: device_fans_def)

lemma script_sample:
  assumes "writeless_sources attempts S"
  shows "script clg (sample_control P S) []"
proof -
  note wl = assms [unfolded writeless_sources_def, rule_format]
  have src: "script lg (map_err_io h (on_sources m)) []" if "\<And>s p. wp m (\<lambda>_ sp. attempts (snd sp) = attempts p) (s, p)" for h m
    by (rule script_map_err, rule script_silent) (simp add: wp_on_sources, rule wp_mono [OF that], simp)
  have collect: "script lg (collect_complete_set P S cycle prev) []" for cycle prev
    unfolding collect_complete_set_def Let_def by (intro script_quiet_try script_now script_return src) (use wl in auto)
  have wait: "script lg (wait_for_next_sample P g) []" for g
    unfolding wait_for_next_sample_def
    by (auto intro!: script_quiet_try script_now script_return script_delay split: option.split)
  have "script clg (control_gate_sample P S) []"
    unfolding control_gate_sample_def Let_def
    by (intro script_quiet_try script_on_snd [OF collect] script_on_snd [OF wait] script_fst script_return)
  then show ?thesis
    unfolding sample_control_def by (intro script_map_err) (simp add: script_def wp_on_gate)
qed

lemma try_run_writes:
  fixes w :: "('p, 'l, 's) world"
  assumes "device_ok (hc_device c)" "writeless_sources attempts S"
  shows "wp (try_run_cycle P S) (\<lambda>r cw'. \<exists>outputs ys. clg cw' = attempts (platform w) @ ys
      \<and> prefix ys (changed_duties (hc_device c) (hc_last_outputs c) outputs)
      \<and> (\<forall>y. r = Ok y \<longrightarrow> ccc_outputs y = outputs \<and> ys = changed_duties (hc_device c) (hc_last_outputs c) outputs)) (c, w)"
    (is "wp _ ?Q _")
proof -
  let ?tail = "\<lambda>dl outputs history d s. try_io (observe_cycle P (hc_device c) dl) (\<lambda>(cpu_rpm, gpu_rpm).
     try_io (write_changed_outputs P (hc_device c) (hc_last_outputs c) outputs dl) (\<lambda>_.
     try_io (confirm_cycle P (hc_device c) outputs dl) (\<lambda>_.
     try_io (modify_fst (\<lambda>c. c\<lparr>hc_demand_history := Some history, hc_last_outputs := outputs\<rparr>)) (\<lambda>_.
     try_io (on_snd (emit_control_cycle (d cpu_rpm gpu_rpm))) (\<lambda>_.
       return_io (Ok \<lparr>ccc_sample = s, ccc_outputs = outputs\<rparr>))))))"
  have tail: "wp (?tail dl outputs history d s) ?Q cw" if "clg cw = attempts (platform w)" for dl outputs history d s cw
  proof -
    have sc: "script clg (?tail dl outputs history d s) (changed_duties (hc_device c) (hc_last_outputs c) outputs)"
      unfolding emit_control_cycle_def
      by (rule script_quiet_try [OF script_observe], split prod.split, intro allI impI,
          rule script_try [where ys = "[]", OF script_changed_outputs [OF assms(1)], simplified],
          intro script_quiet_try script_confirm_cycle script_fst script_on_snd [OF script_emit] script_return)
    have y: "yields (?tail dl outputs history d s) (\<lambda>y. ccc_outputs y = outputs)"
      by (intro yields_try, split prod.split, intro allI impI yields_try yields_return) auto
    show ?thesis
    proof (rule wp_mono [OF wp_conj [OF sc [unfolded script_def, rule_format] y [unfolded yields_def, rule_format]]], goal_cases)
      case (1 r cw')
      then show ?case using that by (intro exI [of _ outputs]) (auto simp: is_ok_def)
    qed
  qed
  have quiet: "wp (try_io m f) ?Q cw"
    if "script clg m []" "clg cw = attempts (platform w)" "\<And>x cw'. clg cw' = attempts (platform w) \<Longrightarrow> wp (f x) ?Q cw'" for m f cw
    by (rule wp_try [OF script_silentD [OF that(1)]]) (use that(2,3) in auto)
  show ?thesis
    unfolding try_run_cycle_def
  proof (rule wp_try [where R = "\<lambda>_ cw. fst cw = c \<and> clg cw = attempts (platform w)"], goal_cases)
    case 1
    show ?case using script_silentD [OF script_running, of w] by (simp add: wp_on_snd)
  next
    case (2 x cw)
    then have c: "fst cw = c" "clg cw = attempts (platform w)" by simp_all
    show ?case
      unfolding wp_try_io [of get_fst] wp_get_fst outcome.case c(1)
      by (rule quiet [OF script_sample [OF assms(2)] c(2)], rule quiet [OF script_cycle_parts(1)], assumption,
          rule quiet [OF script_return], assumption, rule quiet [OF script_return], assumption,
          split prod.split, intro allI impI, erule tail)
  qed (auto intro!: exI [of _ "[]"])
qed

lemma run_cycle_writes:
  assumes "device_ok (hc_device c)" "writeless_sources attempts S"
  shows "wp (run_control_cycle P S) (\<lambda>r cw'. \<exists>outputs ys. clg cw' = attempts (platform w) @ ys
      \<and> prefix ys (changed_duties (hc_device c) (hc_last_outputs c) outputs)
      \<and> (\<forall>y. r = Ok y \<longrightarrow> ccc_outputs y = outputs \<and> ys = changed_duties (hc_device c) (hc_last_outputs c) outputs)) (c, w)"
    (is "wp _ ?Q _")
  unfolding wp_run_control_cycle
proof (intro conjI impI, goal_cases)
  case 3
  show ?case
    by (rule wp_mono [OF try_run_writes [OF assms]]) (auto simp: failed_cycle_def split: outcome.splits)
qed (auto simp: failed_cycle_def intro!: exI [of _ "[]"])

end

end
