(* ===== verification/Recovery_Trace.thy ===== *)
theory Recovery_Trace
  imports Sensor_Recovery Control_Contract
begin

text \<open>
  The runtime states a step of sensor control reports, as a refinement of an abstract machine: the
  transitions it emits form a path from the state it starts in to the state it ends in. Nothing is
  assumed of the platform, of the sources or of the discovery.
\<close>

section \<open>Parts that cannot fail\<close>

definition never_err :: "('s, 'e, 'a) io \<Rightarrow> bool" where
  "never_err m = (\<forall>s. wp m (\<lambda>r _. \<forall>e. r \<noteq> Err e) s)"

lemma never_err_basic:
  "never_err (catch_io m)" "never_err (return_io (Ok x))" "never_err (modify_io h)" "never_err (get_io k)" "never_err (now_io P)"
  by (auto simp: never_err_def wp_def catch_io_def return_io_def modify_io_def get_io_def now_io_def lift_io_def
      split: prod.splits outcome.splits)

lemma never_err_try: "never_err m \<Longrightarrow> (\<And>x. never_err (f x)) \<Longrightarrow> never_err (try_io m f)"
  unfolding never_err_def by (intro allI wp_try [where R = "\<lambda>r _. \<forall>e. r \<noteq> Err e"]) auto

lemma never_err_if: "never_err m \<Longrightarrow> never_err m' \<Longrightarrow> never_err (if b then m else m')"
  by simp

lemma epoch_never_err: "never_err reset_sampling_epoch" "never_err (begin_custom_transition dev)"
proof -
  show r: "never_err reset_sampling_epoch"
    by (simp add: never_err_def wp_def reset_sampling_epoch_def split: option.split)
  show "never_err (begin_custom_transition dev)"
    unfolding begin_custom_transition_def by (intro never_err_try never_err_basic r)
qed

lemma safing_never_err: "never_err (restore_or_contain_firmware_auto P dev)"
proof -
  have "never_err (contain_fan P dev fan dl)" for fan dl
    unfolding contain_fan_def Let_def by (auto intro!: never_err_try never_err_basic split: sum.split)
  then show ?thesis
    unfolding restore_or_contain_firmware_auto_def owned_contain_custom_fans_at_maximum_def contain_custom_fans_at_maximum_def
      contain_custom_fans_before_def invalidate_firmware_auto_epoch_def
    by (auto intro!: never_err_try never_err_basic epoch_never_err(1) split: sum.split)
qed

section \<open>What a part of the world tells about a run\<close>

text \<open>
  An observer of the world that sees at most the journal and the gate counter. Its value grows by
  what it reads off each emitted event, and nothing else the controller does changes it.
\<close>

locale world_observer =
  fixes f :: "('p, 'l, 's) world \<Rightarrow> 'x list" and g :: "runtime_event \<Rightarrow> 'x list"
  assumes platform_unseen: "f (w\<lparr>platform := p\<rparr>) = f w"
    and sources_unseen: "f (w\<lparr>source_state := s\<rparr>) = f w"
    and latch_unseen: "f (w\<lparr>latch := l\<rparr>) = f w"
    and signals_unseen: "f (w\<lparr>signals := ss\<rparr>) = f w"
    and device_unseen: "f (w\<lparr>controlled_device := d\<rparr>) = f w"
    and confirmed_unseen: "f (w\<lparr>restoration_confirmed := b\<rparr>) = f w"
    and started_unseen: "f (w\<lparr>sampling_epoch_started := b\<rparr>) = f w"
    and epoch_unseen: "f (w\<lparr>sampling_epoch := n\<rparr>) = f w"
    and event_seen: "f (w\<lparr>journal := journal w @ [e]\<rparr>) = f w @ g e"
    and fault_unseen: "g (FaultEvent fault endpoint) = []"
    and attempt_unseen: "g (RestorationAttemptEvent a) = []"
    and cycle_unseen: "g (ControlCycleEvent c) = []"
begin

lemma events_seen: "f (w\<lparr>journal := journal w @ es\<rparr>) = f w @ concat (map g es)"
proof (induction es rule: rev_induct)
  case (snoc e es)
  then show ?case using event_seen [of "w\<lparr>journal := journal w @ es\<rparr>" e] by simp
qed simp

lemmas unseen = platform_unseen sources_unseen latch_unseen signals_unseen device_unseen confirmed_unseen started_unseen
  epoch_unseen events_seen fault_unseen attempt_unseen cycle_unseen

abbreviation gf :: "'c \<times> ('p, 'l, 's) world \<Rightarrow> 'x list" where
  "gf cw \<equiv> f (snd cw)"

lemma obs_platform: "script f (on_platform m) []"
  by (rule script_silent) (simp add: wp_def on_platform_def split_beta unseen)

lemma obs_sources: "script f (on_sources m) []"
  by (rule script_silent) (simp add: wp_def on_sources_def split_beta unseen)

lemma obs_now: "script f (now_io P) []"
  by (rule script_silent) (simp add: wp_def now_io_def lift_io_def on_platform_def split_beta unseen)

lemma obs_delay: "script f (delay_io P d) []"
  by (rule script_silent) (simp add: wp_delay_io unseen)

lemma obs_emit: "script f (emit e) (g e)"
  by (simp add: script_def wp_emit unseen)

lemma obs_fault: "script f (emit_fault fault endpoint) []"
  using obs_emit [of "FaultEvent fault endpoint"] by (simp add: emit_fault_def unseen)

lemma obs_get: "script f (get_io h) []"
  by (rule script_silent) (simp add: wp_get_io)

lemma obs_requested: "script f shutdown_is_requested []"
  by (rule script_silent)
    (auto simp: wp_def shutdown_is_requested_def deliver_signal_def Let_def unseen split: list.split)

lemma obs_read: "script f (read_bound P dev path dl) []"
  unfolding read_bound_def case_prod_unfold by (intro script_quiet_try script_return obs_platform)

lemma obs_write: "script f (write_bound P dev path v dl) []"
  unfolding write_bound_def case_prod_unfold by (intro script_quiet_try script_return obs_platform)

lemma obs_guarded: "script f (write_guarded P dev path gs v dl) []"
  unfolding write_guarded_def by (intro script_quiet_try script_return obs_platform)

lemma obs_epoch: "script f invalidate_firmware_auto_epoch []" "script f (begin_custom_transition dev) []"
proof -
  have r: "script f reset_sampling_epoch []"
    by (rule script_silent) (auto simp: wp_def reset_sampling_epoch_def unseen split: option.split)
  show "script f invalidate_firmware_auto_epoch []"
    unfolding invalidate_firmware_auto_epoch_def
    by (intro script_quiet_try r) (simp add: script_def wp_modify_io unseen)
  have "f (w\<lparr>controlled_device := d, restoration_confirmed := False\<rparr>) = f w" for w d by (simp add: unseen)
  then show "script f (begin_custom_transition dev) []"
    unfolding begin_custom_transition_def
    by (intro script_quiet_try r obs_get) (simp add: script_def wp_modify_io)
qed

lemma obs_confirmed: "script f (modify_io (\<lambda>w. w\<lparr>restoration_confirmed := h w\<rparr>)) []"
  by (simp add: script_def wp_modify_io unseen)

section \<open>Restoration and containment\<close>

lemma obs_restore_loop: "script f (restore_loop P dev dl attempts t n ls) []"
proof (induction attempts arbitrary: t n ls)
  case Nil
  show ?case
    unfolding restore_loop.simps restoration_unconfirmed_def case_prod_unfold
    by (intro script_quiet_try obs_fault script_return)
next
  case (Cons a as)
  have "script f (emit_attempt a c g') []" for a c g'
    using obs_emit [of "RestorationAttemptEvent _"] by (simp add: emit_attempt_def emit_restoration_attempt_def unseen)
  then show ?case
    unfolding restore_loop.simps restoration_unconfirmed_def restoration_deadline_exceeded_def restoration_attempt_def status_def
      case_prod_unfold
    by (auto intro!: script_quiet_try obs_fault script_return script_catch obs_write obs_read obs_now Cons.IH)
qed

lemma obs_contain: "script f (contain_custom_fans_at_maximum P dev) []"
proof -
  have "script f (contain_fan P dev fan dl) []" for fan dl
    unfolding contain_fan_def Let_def
    by (auto intro!: script_quiet_try obs_now script_catch obs_read obs_write script_return split: sum.split)
  then show ?thesis
    unfolding contain_custom_fans_at_maximum_def contain_custom_fans_before_def
    by (intro script_quiet_try obs_now script_return)
qed

lemma obs_restore: "script f (restore_firmware_auto P dev) []"
  unfolding restore_firmware_auto_def restore_firmware_auto_before_def by (intro script_quiet_try obs_now obs_restore_loop)

lemma obs_safing: "script f (restore_or_contain_firmware_auto P dev) []"
  unfolding restore_or_contain_firmware_auto_def owned_restore_firmware_auto_def owned_contain_custom_fans_at_maximum_def
  by (auto intro!: script_quiet_try script_catch obs_epoch(1) obs_restore obs_get script_return obs_confirmed
      obs_contain split: sum.split)

section \<open>Sampling\<close>

lemma obs_collect: "script f (collect_complete_set P S cycle prev) []"
  unfolding collect_complete_set_def Let_def
  by (intro script_quiet_try obs_now script_return script_map_err obs_sources)

lemma obs_wait: "script f (wait_for_next_sample P gate) []"
  unfolding wait_for_next_sample_def
  by (auto intro!: script_quiet_try obs_now script_return obs_delay split: option.split)

lemma obs_refresh: "script f (refresh_firmware_auto_confirmation P dev) []"
  unfolding refresh_firmware_auto_confirmation_def Let_def
  by (intro script_quiet_try obs_get)
    (auto intro!: script_quiet_try script_return obs_epoch(1) obs_now script_catch obs_read)

lemma obs_fresh_gate: "script gf (fresh_gate_sample P S) []"
proof -
  have "script gf (or_reset (on_snd (collect_complete_set P S cycle prev)) h) []" for cycle prev h
    unfolding or_reset_def
    by (auto intro!: script_quiet_try script_catch script_on_snd [OF obs_collect] script_return script_fst split: sum.split)
  then show ?thesis
    unfolding fresh_gate_sample_def Let_def
    by (intro script_quiet_try script_fst)
      (auto intro!: script_quiet_try script_fst script_return split: option.split)
qed

lemma obs_fresh_sample: "script gf (collect_fresh_sample P S dev) []"
proof -
  have "script f (modify_io (\<lambda>w. w\<lparr>sampling_epoch_started := True\<rparr>)) []" by (simp add: script_def wp_modify_io unseen)
  then show ?thesis
    unfolding collect_fresh_sample_def case_prod_unfold
    by (intro script_quiet_try script_on_snd [OF obs_refresh])
      (auto intro!: script_quiet_try script_fst script_return script_on_snd [OF obs_get] script_on_snd script_catch obs_fresh_gate
        obs_epoch(1) split: sum.split sample_readiness.split)
qed

section \<open>The control cycle\<close>

lemma obs_running: "script f ensure_running []"
  unfolding ensure_running_def by (intro script_quiet_try obs_requested script_return)

lemma obs_verify: "script f (verify_device_before P dev dl) []"
  unfolding verify_device_before_def by (intro script_quiet_try script_catch obs_platform script_return)

lemma obs_cycle_confirm: "script f (cycle_confirm P dev path fan field expected oper dl) []"
  unfolding cycle_confirm_def by (intro script_quiet_try script_map_err obs_read script_return)

lemma obs_state: "script f (confirm_state P dev outputs dl mo du) []"
  unfolding confirm_state_def confirm_fan_state_def by (intro script_quiet_try obs_cycle_confirm)

lemma obs_response: "script f (validate_tachometer_response P dev t dl) []"
  unfolding validate_tachometer_response_def validate_fan_response_def cycle_read_tachometer_def
  by (intro script_quiet_try script_map_err obs_read obs_now script_return)

lemma obs_cycle_write: "script f (cycle_write P dev e fan v dl) []"
  unfolding cycle_write_def by (intro script_map_err obs_guarded)

lemmas obs_cycle_parts = script_on_snd [OF obs_running] script_on_snd [OF obs_verify] script_on_snd [OF obs_state]
  script_on_snd [OF obs_response] script_on_snd [OF obs_cycle_confirm] script_on_snd [OF obs_cycle_write] script_on_snd [OF obs_now]
  script_on_snd [OF obs_get] script_on_snd [OF obs_fault] script_fst script_return

lemma obs_sample_control: "script gf (sample_control P S) []"
proof -
  have "script gf (control_gate_sample P S) []"
    unfolding control_gate_sample_def Let_def
    by (intro script_quiet_try script_on_snd [OF obs_collect] script_on_snd [OF obs_wait] script_fst script_return)
  then show ?thesis
    unfolding sample_control_def by (intro script_map_err) (simp add: script_def wp_on_gate)
qed

lemma obs_changed: "script gf (write_changed_outputs P dev previous outputs dl) []"
  unfolding write_changed_outputs_def write_changed_output_def
  by (auto intro!: script_quiet_try obs_cycle_parts)

lemma obs_try_run: "script gf (try_run_cycle P S) []"
proof -
  have emit: "script f (emit_control_cycle d) []" for d
    using obs_emit [of "ControlCycleEvent d"] by (simp add: emit_control_cycle_def unseen)
  show ?thesis
    unfolding try_run_cycle_def observe_cycle_def confirm_cycle_def case_prod_unfold
    by (intro script_quiet_try obs_cycle_parts obs_sample_control obs_changed script_on_snd [OF emit])
qed

lemma obs_cycle: "script gf (run_healthy_control_cycle P S) []"
  unfolding run_healthy_control_cycle_def run_control_cycle_def emit_fault_diagnostic_def
  by (intro script_quiet_try script_fst)
    (auto intro!: script_quiet_try obs_cycle_parts script_catch obs_try_run split: sum.split)

section \<open>The handover\<close>

abbreviation tr :: "runtime_state \<Rightarrow> runtime_state \<Rightarrow> runtime_transition \<Rightarrow> 'x list" where
  "tr a b r \<equiv> g (StateTransitionEvent a b r)"

lemma obs_transition: "script f (emit_state_transition a b r) (tr a b r)"
  unfolding emit_state_transition_def by (rule obs_emit)

lemma obs_ensure: "script f ensure_arming_running []"
  unfolding ensure_arming_running_def by (intro script_quiet_try obs_requested script_return)

lemma obs_confirm: "script f (arming_confirm P dev path fan field expected oper dl) []"
  unfolding arming_confirm_def by (intro script_quiet_try script_map_err obs_read script_return)

lemma obs_custom: "script f (confirm_custom_at_maximum P dev dl oper) []"
  unfolding confirm_custom_at_maximum_def confirm_fan_at_maximum_def
  by (intro script_quiet_try obs_confirm obs_now script_return)

lemma obs_await: "dscript f (await_loop P dev dl rpms) []"
proof -
  have poll: "script f (await_poll P dev dl rpms) []" for rpms
    unfolding await_poll_def arming_read_tachometer_def
    by (intro script_quiet_try obs_ensure obs_now)
      (auto intro!: script_quiet_try obs_ensure obs_now script_map_err obs_read script_return obs_delay split: option.splits)
  have "f w' = f w" if "await_loop P dev dl rpms w = Some (r, w')" for r w w'
    by (rule await_invariant [OF that, of "\<lambda>w'. f w' = f w"]) (auto intro: wp_mono [OF script_silentD [OF poll]])
  then show ?thesis by (auto simp: dscript_def wlp_def split: option.splits)
qed

lemma obs_arm: "dscript f (arm P dev sample config calibration ids) []"
proof -
  have idn: "script f (confirm_device_identity P dev dl) []" for dl
    unfolding confirm_device_identity_def by (intro script_quiet_try script_catch obs_platform script_return)
  have wr: "script f (arming_write P dev path gs fan v oper dl) []" for path gs fan v oper dl
    unfolding arming_write_def by (intro script_map_err obs_guarded)
  show ?thesis
    unfolding arm_def arm_stage_def arm_enter_def arm_respond_def await_tachometer_response_def
      await_tachometer_response_before_def case_prod_unfold Let_def
    by (intro dscript_quiet_try obs_await dscript_total script_quiet_try obs_now script_return obs_custom obs_ensure idn wr obs_confirm)
qed

lemma obs_reject:
  "wp (reject_arming P dev entered reason) (\<lambda>r w'. \<not> is_ok r \<and> (\<forall>e. r = Err e \<longrightarrow> f w' = f w @
      (if entered then tr StateArming StateRestoring ControlFault @
         (if arming_critical e then tr StateRestoring StateFaultLatched RestorationFailed
          else tr StateRestoring StateFirmwareAuto RestorationConfirmed)
       else if arming_critical e then tr StateFirmwareAuto StateFaultLatched RestorationFailed else []))) w"
proof -
  note emits = wp_try_io wp_emit wp_return when_io_def emit_fault_def emit_state_transition_def
  have safing: "wp (restore_or_contain_firmware_auto P dev) (\<lambda>r w'. (\<forall>e. r \<noteq> Err e) \<and> f w' = f w1) w1" for w1
    by (rule wp_conj [OF safing_never_err [unfolded never_err_def, rule_format] script_silentD [OF obs_safing]])
  show ?thesis
    unfolding reject_arming_def
    by (cases entered)
      (auto simp: emits unseen arming_critical_def is_ok_def intro!: wp_mono [OF safing] split: outcome.split firmware_auto_safing_outcome.split)
qed

lemma obs_arm_both:
  "wlp (arm_both_fans_safely_until P dev authority candidate ready) (\<lambda>r w'.
     (\<forall>armed. r = Ok armed \<longrightarrow> f w' = f w @ tr StateFirmwareAuto StateArming TwoFreshSamples @ tr StateArming StateCustomControl ArmingConfirmed)
   \<and> (\<forall>e. r = Err e \<longrightarrow> (\<exists>entered. f w' = f w @
      (if entered then tr StateFirmwareAuto StateArming TwoFreshSamples @ tr StateArming StateRestoring ControlFault @
         (if arming_critical e then tr StateRestoring StateFaultLatched RestorationFailed
          else tr StateRestoring StateFirmwareAuto RestorationConfirmed)
       else if arming_critical e then tr StateFirmwareAuto StateFaultLatched RestorationFailed else [])))) w"
    (is "wlp _ ?Q w")
proof -
  have adm: "script f (catch_io (admit_arming authority candidate ready)) []"
    unfolding admit_arming_def case_prod_unfold by (intro script_catch script_quiet_try obs_get script_return obs_ensure)
  have arm: "wlp (arm P dev (ars_sample ready) candidate (tachometer_calibrations authority) ids) (\<lambda>_ w'. f w' = f w1) w1" for ids w1
    using obs_arm unfolding dscript_def by simp
  have beg: "wp (begin_custom_transition dev) (\<lambda>r w'. (\<forall>e. r \<noteq> Err e) \<and> f w' = f w1) w1" for w1
    by (rule wp_conj [OF epoch_never_err(2) [unfolded never_err_def, rule_format] script_silentD [OF obs_epoch(2)]])
  have fin: "wlp (try_dio (catch_dio (arm P dev (ars_sample ready) candidate (tachometer_calibrations authority) ids)) (\<lambda>result.
       case result of
         Inr armed \<Rightarrow> total_io (try_io (emit_state_transition StateArming StateCustomControl ArmingConfirmed) (\<lambda>_. return_io (Ok armed)))
       | Inl reason \<Rightarrow> total_io (reject_arming P dev True reason))) ?Q w1"
    if "f w1 = f w @ tr StateFirmwareAuto StateArming TwoFreshSamples" for ids w1
    unfolding wlp_try_dio wlp_catch_dio
  proof (rule wlp_mono [OF arm [of ids w1]], goal_cases)
    case (1 r w2)
    have "wp (reject_arming P dev True reason) ?Q w2" for reason
      by (rule wp_mono [OF obs_reject]) (use 1 that in \<open>auto simp: is_ok_def intro: exI [of _ True]\<close>)
    then show ?case
      using 1 that
      by (cases r) (simp_all only: outcome.case sum.case wlp_total, simp_all add: wp_try_io wp_return emit_state_transition_def wp_emit unseen)
  qed
  show ?thesis
    unfolding arm_both_fans_safely_until_def
  proof (rule wlp_try_total [OF wp_conj [OF never_err_basic(1) [unfolded never_err_def, rule_format] script_silentD [OF adm]]], goal_cases)
    case (1 x w1)
    then have \<open>f w1 = f w\<close> by simp
    show ?case
    proof (cases x)
      case (Inl reason)
      show ?thesis
        unfolding Inl sum.case wlp_total
        by (rule wp_mono [OF obs_reject]) (use 1 in \<open>auto simp: is_ok_def intro: exI [of _ False]\<close>)
    next
      case (Inr u)
      show ?thesis
        unfolding Inr sum.case wlp_try_dio [of "total_io (emit _)"] wlp_total emit_state_transition_def wp_emit outcome.case
          wlp_try_dio [of "total_io (get_io _)"] wp_get_io
      proof (rule wlp_try_total [OF beg], goal_cases)
        case (1 epoch w2)
        show ?case
          by (rule fin [unfolded emit_state_transition_def]) (use 1 \<open>f w1 = f w\<close> in \<open>simp add: unseen\<close>)
      qed (simp, simp)
    qed
  qed (simp, simp)
qed

end

section \<open>The abstract machines\<close>

fun event_transition :: "runtime_event \<Rightarrow> (runtime_state \<times> runtime_state \<times> runtime_transition) list" where
  "event_transition (StateTransitionEvent a b r) = [(a, b, r)]"
| "event_transition _ = []"

definition transitions :: "('p, 'l, 's) world \<Rightarrow> (runtime_state \<times> runtime_state \<times> runtime_transition) list" where
  "transitions w = concat (map event_transition (journal w))"

interpretation trail: world_observer transitions event_transition
  by unfold_locales (simp_all add: transitions_def)

interpretation gates: world_observer "\<lambda>w. [next_gate_id w]" "\<lambda>_. []"
  by unfold_locales simp_all

definition runtime_moves :: "(runtime_state \<times> runtime_state \<times> runtime_transition) list" where
  "runtime_moves =
     [(StateFirmwareAuto, StateArming, TwoFreshSamples), (StateArming, StateCustomControl, ArmingConfirmed),
      (StateArming, StateRestoring, ControlFault),
      (StateCustomControl, StateRestoring, SensorFault), (StateCustomControl, StateRestoring, ControlFault),
      (StateCustomControl, StateFaultLatched, Shutdown),
      (StateFirmwareAuto, StateRestoring, SensorFault), (StateFirmwareAuto, StateRestoring, ControlFault),
      (StateRestoring, StateFirmwareAuto, RestorationConfirmed), (StateRestoring, StateFaultLatched, RestorationFailed),
      (StateFirmwareAuto, StateFaultLatched, Shutdown), (StateFirmwareAuto, StateFaultLatched, ControlFault),
      (StateFirmwareAuto, StateFaultLatched, RestorationFailed)]"

text \<open>A sequence of transitions that leads from one runtime state to another.\<close>

inductive runtime_path ::
  "runtime_state \<Rightarrow> (runtime_state \<times> runtime_state \<times> runtime_transition) list \<Rightarrow> runtime_state \<Rightarrow> bool" where
  stay: "runtime_path s [] s"
| move: "(a, b, r) \<in> set runtime_moves \<Longrightarrow> runtime_path b es c \<Longrightarrow> runtime_path a ((a, b, r) # es) c"

inductive_simps runtime_path_simps [simp]: "runtime_path a [] c" "runtime_path a (e # es) c"

lemma runtime_path_append: "runtime_path a es b \<Longrightarrow> runtime_path b fs c \<Longrightarrow> runtime_path a (es @ fs) c"
  by (induction rule: runtime_path.induct) auto

text \<open>What a caller sees of a step: the state before, the result and the state after.\<close>

inductive sensor_move ::
  "sensor_control_state \<Rightarrow> (transient_sensor_control_error, sensor_control_step) outcome \<Rightarrow> sensor_control_state \<Rightarrow> bool" where
  cycle: "sensor_move SensorCustomControl (Ok (StepCompleted y)) SensorCustomControl"
| fallback: "s \<noteq> SensorFaulted \<Longrightarrow> recoverable_sensor_sample_fault fault
    \<Longrightarrow> sensor_move s (Ok (StepFirmwareAutoRestored fault)) SensorFirmwareAutoRecovery"
| await_sources: "sensor_move SensorFirmwareAutoRecovery (Ok (StepAwaitingRediscovery e)) SensorFirmwareAutoRecovery"
| await_sample: "sensor_move SensorFirmwareAutoRecovery (Ok StepAwaitingSecondSample) SensorFirmwareAutoRecovery"
| rearmed: "sensor_move SensorFirmwareAutoRecovery (Ok StepRearmed) SensorCustomControl"
| latched: "s \<noteq> SensorFaulted \<Longrightarrow> e \<noteq> SensorControlFaulted \<Longrightarrow> sensor_move s (Err e) SensorFaulted"
| faulted: "sensor_move SensorFaulted (Err SensorControlFaulted) SensorFaulted"

fun runtime_of :: "'s control_state \<Rightarrow> runtime_state" where
  "runtime_of (CustomState _ _) = StateCustomControl"
| "runtime_of (RecoveringState _) = StateFirmwareAuto"
| "runtime_of (FaultedState _) = StateFaultLatched"

section \<open>The refinement\<close>

definition reported ::
  "'s control_state \<Rightarrow> (runtime_state \<times> runtime_state \<times> runtime_transition) list \<Rightarrow> runtime_state \<Rightarrow> ('p, 'l, 's) world \<Rightarrow> bool" where
  "reported st js s w \<longleftrightarrow> (\<exists>es. transitions w = js @ es \<and> runtime_path (runtime_of st) es s)"

definition refined ::
  "'s control_state \<Rightarrow> (runtime_state \<times> runtime_state \<times> runtime_transition) list
     \<Rightarrow> (transient_sensor_control_error, sensor_control_step) outcome
     \<Rightarrow> ('d, 's) transient_sensor_control \<times> ('p, 'l, 's) world \<Rightarrow> bool" where
  "refined st js r tw \<longleftrightarrow> r = Panic \<or>
     (\<exists>st' s'. tsc_state (fst tw) = Some st' \<and> sensor_move (state_of st) r (state_of st') \<and> reported st js s' (snd tw)
        \<and> (s' = runtime_of st' \<or> s' = StateFirmwareAuto \<and> r = Err SensorShutdownRequested \<and> st' = FaultedState None))"

lemma reported_events:
  assumes "reported st js a w" "runtime_path a (concat (map event_transition es)) b"
  shows "reported st js b (w\<lparr>journal := journal w @ es\<rparr>)"
proof -
  obtain fs where "transitions w = js @ fs" "runtime_path (runtime_of st) fs a" using assms(1) by (auto simp: reported_def)
  with assms(2) show ?thesis
    by (auto simp: reported_def transitions_def intro!: exI [of _ "fs @ concat (map event_transition es)"] runtime_path_append)
qed

lemma reported_same: "reported st js a w \<Longrightarrow> transitions w' = transitions w \<Longrightarrow> reported st js a w'"
  by (simp add: reported_def)

lemmas sensor_emits = wp_try_io wp_on_snd wp_emit wp_return latch_with_def install_def wp_modify_fst emit_fault_def
  emit_state_transition_def

lemma safing_reported:
  assumes "reported st js StateRestoring w"
  shows "wp (restore_or_contain_firmware_auto P dev) (\<lambda>r w'. (\<forall>e. r \<noteq> Err e) \<and> reported st js StateRestoring w') w"
  by (rule wp_mono [OF wp_conj [OF safing_never_err [unfolded never_err_def, rule_format] script_silentD [OF trail.obs_safing]]])
    (use assms reported_same in blast)

text \<open>The three ways a fault ends, after the safing outcome has been reported.\<close>

lemma safing_outcome_reported:
  assumes "reported st js StateRestoring w"
  shows "wp (emit_safing_outcome_diagnostics outcome) (\<lambda>r w'. r = Ok () \<and> reported st js
     (case outcome of SafingCritical _ _ \<Rightarrow> StateFaultLatched | _ \<Rightarrow> StateFirmwareAuto) w') w"
  unfolding emit_safing_outcome_diagnostics_def
  by (cases outcome) (auto simp: sensor_emits runtime_moves_def intro!: reported_events [OF assms])

definition safed_state :: "firmware_auto_safing_outcome \<Rightarrow> runtime_state" where
  "safed_state outcome = (case outcome of SafingCritical _ _ \<Rightarrow> StateFaultLatched | _ \<Rightarrow> StateFirmwareAuto)"

lemma after_safing:
  assumes "reported st js StateRestoring (snd tw)"
    "\<And>outcome tw. reported st js (safed_state outcome) (snd tw) \<Longrightarrow> wp (k outcome) (refined st js) tw"
  shows "wp (try_io (on_snd (restore_or_contain_firmware_auto P dev)) (\<lambda>outcome.
      try_io (on_snd (emit_safing_outcome_diagnostics outcome)) (\<lambda>_. k outcome))) (refined st js) tw"
proof (rule wp_try [where R = "\<lambda>r tw. (\<forall>e. r \<noteq> Err e) \<and> reported st js StateRestoring (snd tw)"], goal_cases)
  case 1
  show ?case unfolding wp_on_snd by (rule wp_mono [OF safing_reported [OF assms(1)]]) simp
next
  case (2 outcome tw)
  then have "reported st js StateRestoring (snd tw)" by simp
  then show ?case
    by (intro wp_try [where R = "\<lambda>r tw. r = Ok () \<and> reported st js (safed_state outcome) (snd tw)"])
      (auto simp: wp_on_snd safed_state_def intro!: wp_mono [OF safing_outcome_reported] assms(2))
qed (auto simp: refined_def)

lemma gate_new_reported:
  "wp sample_gate_new (\<lambda>r w'. (\<forall>e. r \<noteq> Err e) \<and> transitions w' = transitions w) w"
  by (auto simp: sample_gate_new_def try_io_def return_io_def next_gate_id_io_def wp_def transitions_def split: option.split)

lemma refinedI:
  "tsc_state (fst tw) = Some st' \<Longrightarrow> sensor_move (state_of st) r (state_of st') \<Longrightarrow> reported st js (runtime_of st') (snd tw)
     \<Longrightarrow> refined st js r tw"
  by (auto simp: refined_def)

lemma fault_ends:
  assumes "reported st js StateRestoring (snd tw)" "state_of st \<noteq> SensorFaulted"
  shows "recoverable_sensor_sample_fault fault \<Longrightarrow> wp (restore_for_recovery P config dev fault sources) (refined st js) tw"
    "wp (latch_control_fault P dev error sources) (refined st js) tw"
    "wp (latch_recovery_fault P dev fault' retained) (refined st js) tw"
proof -
  note move = fallback [OF assms(2)] latched [OF assms(2)]
  show "wp (restore_for_recovery P config dev fault sources) (refined st js) tw" if "recoverable_sensor_sample_fault fault"
    unfolding restore_for_recovery_def
  proof (rule after_safing [OF assms(1)], goal_cases)
    case (1 outcome tw)
    show ?case
    proof (cases outcome)
      case SafingRestored
      have "wp (on_snd sample_gate_new) (\<lambda>r tw'. (\<forall>e. r \<noteq> Err e) \<and> reported st js StateFirmwareAuto (snd tw')) tw"
        unfolding wp_on_snd
        by (rule wp_mono [OF gate_new_reported]) (use 1 SafingRestored in \<open>auto simp: safed_state_def intro: reported_same\<close>)
      then show ?thesis
        unfolding SafingRestored firmware_auto_safing_outcome.case
        by (rule wp_try) (auto simp: sensor_emits refined_def [of _ _ Panic] intro!: refinedI move that)
    qed (use 1 in \<open>auto simp: sensor_emits safed_state_def runtime_moves_def intro!: refinedI move reported_events\<close>)
  qed
  show "wp (latch_control_fault P dev error sources) (refined st js) tw"
    unfolding latch_control_fault_def
    by (rule after_safing [OF assms(1)])
      (auto simp: sensor_emits safed_state_def runtime_moves_def intro!: refinedI move reported_events split: firmware_auto_safing_outcome.splits)
  show "wp (latch_recovery_fault P dev fault' retained) (refined st js) tw"
    unfolding latch_recovery_fault_def
    by (rule after_safing [OF assms(1)])
      (auto simp: sensor_emits safed_state_def runtime_moves_def intro!: refinedI move reported_events split: firmware_auto_safing_outcome.splits)
qed

lemma lend_reported:
  assumes "script (\<lambda>cw. transitions (snd cw)) m []" "reported st js a (snd tw)"
  shows "wp (lend c s m) (\<lambda>r tw'. (\<forall>e. r \<noteq> Err e) \<and> fst tw' = fst tw \<and> reported st js a (snd tw')) tw"
proof -
  obtain t w where tw: "tw = (t, w)" by fastforce
  have "wp m (\<lambda>_ cw. transitions (snd cw) = transitions w) (c, w\<lparr>source_state := s\<rparr>)"
    using script_silentD [OF assms(1), of "(c, w\<lparr>source_state := s\<rparr>)"] by (simp add: transitions_def)
  then show ?thesis
    using assms(2) unfolding tw
    by (auto simp: wp_def lend_def reported_def split: prod.splits outcome.splits)
qed

lemma step_custom_refines:
  assumes "reported (CustomState c0 s0) js StateCustomControl (snd tw)"
  shows "wp (step_custom P S ctl sources) (refined (CustomState c0 s0) js) tw"
proof -
  let ?st = "CustomState c0 s0"
  have latched_shutdown: "sensor_move SensorCustomControl (Err SensorShutdownRequested) SensorFaulted" by (rule latched) simp_all
  have restoring: "reported ?st js StateRestoring (w\<lparr>journal := journal w @ [StateTransitionEvent StateCustomControl StateRestoring r]\<rparr>)"
    if "reported ?st js StateCustomControl w" "r = SensorFault \<or> r = ControlFault" for w r
    by (rule reported_events [OF that(1)]) (use that(2) in \<open>auto simp: runtime_moves_def\<close>)
  have rec: "recoverable_sensor_sample_fault f" if "recoverable_sensor_cycle_fault e = Some f" for e f
    using that by (cases e) (auto split: if_splits)
  show ?thesis
    unfolding step_custom_def
  proof (rule wp_try [OF lend_reported [OF trail.obs_cycle assms]], goal_cases)
    case (1 x tw')
    obtain r ctl' s' where x: "x = (r, ctl', s')" by (metis prod_cases3)
    from 1 have rep: "reported ?st js StateCustomControl (snd tw')" by simp
    have fault: "wp (case recoverable_sensor_cycle_fault error of
              None \<Rightarrow>
                try_io (on_snd (emit_state_transition StateCustomControl StateRestoring ControlFault)) (\<lambda>_.
                  latch_control_fault P (snd (into_recovery_parts ctl')) error s')
            | Some fault \<Rightarrow>
                try_io (on_snd (emit_state_transition StateCustomControl StateRestoring SensorFault)) (\<lambda>_.
                  restore_for_recovery P (fst (into_recovery_parts ctl')) (snd (into_recovery_parts ctl')) fault s'))
       (refined ?st js) tw'" for error
      using restoring [OF rep]
      by (auto simp: wp_try_io wp_on_snd wp_emit emit_state_transition_def intro!: fault_ends dest: rec split: option.split)
    show ?case
    proof (cases r)
      case (Inl error)
      show ?thesis
      proof (cases "error = CycleShutdownRequested")
        case True
        then show ?thesis
          using rep latched_shutdown unfolding x Inl
          by (auto simp: sensor_emits runtime_moves_def intro!: refinedI reported_events)
      next
        case False
        then show ?thesis unfolding x Inl using fault [of error] by (cases error) auto
      qed
    next
      case (Inr y)
      then show ?thesis using rep unfolding x by (auto simp: sensor_emits intro!: refinedI cycle)
    qed
  qed (auto simp: refined_def)
qed

text \<open>The recovery starts in Firmware Auto; a fault first reports the restoration.\<close>

lemma recovery_faults:
  assumes "reported (RecoveringState r0) js StateFirmwareAuto (snd tw)"
  shows "recoverable_sensor_sample_fault fault \<Longrightarrow>
      wp (try_io (on_snd (emit_state_transition StateFirmwareAuto StateRestoring SensorFault)) (\<lambda>_.
        restore_for_recovery P config dev fault sources)) (refined (RecoveringState r0) js) tw"
    "wp (try_io (on_snd (emit_state_transition StateFirmwareAuto StateRestoring ControlFault)) (\<lambda>_.
        latch_recovery_fault P dev fault' retained)) (refined (RecoveringState r0) js) tw"
    "wp (latch_shutdown retained) (refined (RecoveringState r0) js) tw"
proof -
  let ?st = "RecoveringState r0"
  have restoring: "reported ?st js StateRestoring (snd tw\<lparr>journal := journal (snd tw) @ [StateTransitionEvent StateFirmwareAuto StateRestoring r]\<rparr>)"
    if "r = SensorFault \<or> r = ControlFault" for r
    by (rule reported_events [OF assms]) (use that in \<open>auto simp: runtime_moves_def\<close>)
  show "wp (try_io (on_snd (emit_state_transition StateFirmwareAuto StateRestoring SensorFault)) (\<lambda>_.
        restore_for_recovery P config dev fault sources)) (refined ?st js) tw" if "recoverable_sensor_sample_fault fault"
    using restoring by (auto simp: wp_try_io wp_on_snd wp_emit emit_state_transition_def intro!: fault_ends(1) that)
  show "wp (try_io (on_snd (emit_state_transition StateFirmwareAuto StateRestoring ControlFault)) (\<lambda>_.
        latch_recovery_fault P dev fault' retained)) (refined ?st js) tw"
    using restoring by (auto simp: wp_try_io wp_on_snd wp_emit emit_state_transition_def intro!: fault_ends(3))
  have m: "sensor_move SensorFirmwareAutoRecovery (Err SensorShutdownRequested) SensorFaulted" by (rule latched) simp_all
  show "wp (latch_shutdown retained) (refined ?st js) tw"
    using assms m unfolding latch_shutdown_def
    by (auto simp: sensor_emits runtime_moves_def intro!: refinedI reported_events)
qed

lemma requested_reported:
  "reported st js a (snd tw) \<Longrightarrow>
     wp (on_snd shutdown_is_requested) (\<lambda>r tw'. (\<exists>b. r = Ok b) \<and> fst tw' = fst tw \<and> reported st js a (snd tw')) tw"
  by (cases tw) (auto simp: wp_def on_snd_def shutdown_is_requested_def Let_def deliver_signal_def reported_def transitions_def
      split: list.splits)

lemma wlp_on_snd_dio [dio_simps]: "wlp (on_snd_dio m) Q tw = wlp m (\<lambda>r w'. Q r (fst tw, w')) (snd tw)"
  by (cases tw) (auto simp: wlp_def on_snd_dio_def split: option.splits prod.splits)

lemma twp_on_snd_dio [dio_simps]: "twp (on_snd_dio m) Q tw = twp m (\<lambda>r w'. Q r (fst tw, w')) (snd tw)"
  by (cases tw) (auto simp: twp_def on_snd_dio_def split: option.splits prod.splits)

lemma rearm_refines:
  fixes tw :: "('d, 's) transient_sensor_control \<times> ('p, 'l, 's) world"
  assumes "reported (RecoveringState r0) js StateFirmwareAuto (snd tw)"
  shows "wlp (rearm P config dev sources sample) (refined (RecoveringState r0) js) tw"
proof -
  let ?st = "RecoveringState r0"
  obtain t w where tw: "tw = (t, w)" by fastforce
  obtain es where es: "transitions w = js @ es" "runtime_path StateFirmwareAuto es StateFirmwareAuto"
    using assms by (auto simp: reported_def tw)
  have path: "reported ?st js s w'" if "transitions w' = transitions w @ fs" "runtime_path StateFirmwareAuto fs s" for fs s and w' :: "('p, 'l, 's) world"
    using es that by (auto simp: reported_def intro!: runtime_path_append)
  have m: "sensor_move SensorFirmwareAutoRecovery (Err e) SensorFaulted" if "e \<noteq> SensorControlFaulted" for e
    by (rule latched) (simp_all add: that)
  have shut: "wp (on_snd shutdown_is_requested) (\<lambda>r tw'. (\<exists>b. r = Ok b) \<and> reported ?st js a (snd tw')) (t, w')"
    if "reported ?st js a w'" for a w'
    by (rule wp_mono [OF requested_reported]) (use that in auto)
  have armed: "wp (try_io (on_snd (healthy_control_from_armed armed)) (\<lambda>ctl.
      try_io (install (CustomState ctl sources)) (\<lambda>_. return_io (Ok StepRearmed)))) (refined ?st js) (t, w')"
    if "reported ?st js StateCustomControl w'" for armed w'
  proof (rule wp_try [where R = "\<lambda>r tw'. (\<forall>e. r \<noteq> Err e) \<and> reported ?st js StateCustomControl (snd tw')"], goal_cases)
    case 1
    show ?case
      unfolding wp_on_snd healthy_control_from_armed_def Let_def
      by (rule wp_try [OF gate_new_reported]) (use that in \<open>auto simp: wp_return intro: reported_same\<close>)
  qed (auto simp: sensor_emits refined_def [of _ _ Panic] intro!: refinedI rearmed)
  have failed: "wp (try_io (on_snd shutdown_is_requested) (\<lambda>requested.
       if requested \<and> \<not> arming_critical e then latch_with (FaultedState None) SensorShutdownRequested
       else
         try_io (when_io (\<not> arming_critical e) (on_snd (emit_state_transition StateFirmwareAuto StateFaultLatched ControlFault))) (\<lambda>_.
           latch_with (FaultedState (if arming_critical e then Some sources else None)) (Rearming e)))) (refined ?st js) (t, w')"
    if "reported ?st js (if arming_critical e then StateFaultLatched else StateFirmwareAuto) w'" for e w'
  proof (rule wp_try [OF shut [OF that]], goal_cases)
    case (1 b tw')
    have sd: "refined ?st js (Err SensorShutdownRequested) (fst tw'\<lparr>tsc_state := Some (FaultedState None)\<rparr>, snd tw')"
      if "\<not> arming_critical e"
      using 1 that m [of SensorShutdownRequested] by (auto simp: refined_def)
    show ?case
    proof (cases "b \<and> \<not> arming_critical e")
      case True
      then show ?thesis using sd by (simp add: sensor_emits)
    next
      case False
      then show ?thesis
        unfolding if_not_P [OF False] using 1 m [of "Rearming e"]
        by (cases "arming_critical e") (auto simp: sensor_emits when_io_def runtime_moves_def intro!: refinedI reported_events)
    qed
  qed (auto simp: refined_def)
  show ?thesis
    unfolding rearm_def tw wlp_try_dio [of "total_io get_fst"] wlp_total wp_get_fst outcome.case fst_conv
      arming_critical_def [symmetric] Let_def
  proof (rule wlp_try [where R = "\<lambda>r tw'. fst tw' = t \<and> (\<forall>e. r \<noteq> Err e) \<and> (\<forall>x. r = Ok x \<longrightarrow> (case x of
       Inr _ \<Rightarrow> reported ?st js StateCustomControl (snd tw')
     | Inl e \<Rightarrow> reported ?st js (if arming_critical e then StateFaultLatched else StateFirmwareAuto) (snd tw')))"], goal_cases)
    case 1
    show ?case
      unfolding wlp_catch_dio wlp_on_snd_dio fst_conv snd_conv
    proof (rule wlp_mono [OF trail.obs_arm_both], goal_cases)
      case (1 r w')
      show ?case
      proof (cases r)
        case (Ok armed)
        then have "transitions w' = transitions w @ [(StateFirmwareAuto, StateArming, TwoFreshSamples), (StateArming, StateCustomControl, ArmingConfirmed)]"
          using 1 by simp
        from path [OF this] show ?thesis using Ok by (simp add: runtime_moves_def)
      next
        case (Err e)
        from conjunct2 [OF 1, rule_format, OF Err]
        have "reported ?st js (if arming_critical e then StateFaultLatched else StateFirmwareAuto) w'"
          by (elim exE) (erule path, simp add: runtime_moves_def)
        then show ?thesis using Err by simp
      qed simp
    qed
  next
    case (2 x tw')
    then obtain w' where w': "tw' = (t, w')" by (cases tw') simp
    show ?case
    proof (cases x)
      case (Inl e)
      show ?thesis unfolding w' Inl sum.case wlp_total by (rule failed) (use 2 w' Inl in simp)
    next
      case (Inr a)
      show ?thesis unfolding w' Inr sum.case wlp_total by (rule armed) (use 2 w' Inr in simp)
    qed
  qed (auto simp: refined_def)
qed

lemma after_sample_refines:
  assumes "reported (RecoveringState r0) js StateFirmwareAuto (snd tw)"
  shows "wlp (after_sample P r taken) (refined (RecoveringState r0) js) tw"
proof -
  let ?st = "RecoveringState r0"
  obtain readiness gate sources where x: "taken = (readiness, gate, sources)" by (metis prod_cases3)
  show ?thesis
  proof (cases readiness)
    case (Inl fault)
    have "reported ?st js StateFirmwareAuto (snd tw\<lparr>journal := journal (snd tw) @ [FaultEvent a b]\<rparr>)" for a b
      by (rule reported_events [OF assms]) simp
    then show ?thesis
      unfolding x Inl after_sample_def prod.case sum.case wlp_total
      by (auto simp: wp_try_io [of "on_snd (emit _)"] wp_on_snd emit_fault_diagnostic_def emit_fault_def wp_emit
          intro!: recovery_faults)
  next
    case (Inr ready)
    show ?thesis
    proof (cases ready)
      case OwnershipAwaitingSecondSample
      have wait: "wp (catch_io (on_snd (wait_for_next_sample P gate)))
          (\<lambda>r tw'. (\<forall>e. r \<noteq> Err e) \<and> reported ?st js StateFirmwareAuto (snd tw')) tw"
        by (rule wp_mono [OF wp_conj [OF never_err_basic(1) [unfolded never_err_def, rule_format]
              script_silentD [OF script_catch [OF script_on_snd [OF trail.obs_wait]]]]])
          (use assms reported_same in blast)
      show ?thesis
        unfolding x Inr OwnershipAwaitingSecondSample after_sample_def prod.case sum.case ownership_sample_readiness.case wlp_total
      proof (rule wp_try [OF wait], goal_cases)
        case (1 waited tw')
        then have "reported ?st js StateFirmwareAuto (snd tw')" by simp
        then have "reported ?st js StateFirmwareAuto (snd tw'\<lparr>journal := journal (snd tw') @ [FaultEvent a b]\<rparr>)" for a b
          by (rule reported_events) simp
        then show ?case
          using 1
          by (cases waited)
            (auto simp: wp_try_io [of "on_snd (emit _)"] wp_on_snd emit_fault_diagnostic_def emit_fault_def wp_emit
              wp_try_io [of "modify_fst _"] install_def wp_modify_fst wp_return intro!: recovery_faults refinedI await_sample)
      qed (auto simp: refined_def)
    next
      case (OwnershipReady sample)
      show ?thesis
        unfolding x Inr OwnershipReady after_sample_def prod.case sum.case ownership_sample_readiness.case
        by (rule wlp_try_total [OF requested_reported [OF assms]])
          (auto simp: wlp_total intro!: recovery_faults(3) rearm_refines)
    qed
  qed
qed

lemma refresh_never_err: "never_err (on_snd (refresh_firmware_auto_confirmation P dev))"
proof -
  have "never_err (refresh_firmware_auto_confirmation P dev)"
    unfolding refresh_firmware_auto_confirmation_def invalidate_firmware_auto_epoch_def Let_def
    by (intro never_err_try never_err_basic never_err_if epoch_never_err(1))
  then show ?thesis by (simp add: never_err_def wp_on_snd)
qed

lemma discovery_silent: "script (\<lambda>tw. transitions (snd tw)) (on_discovery m) []"
  by (rule script_silent) (auto simp: wp_def on_discovery_def transitions_def split: prod.split)

definition sourced ::
  "'s control_state \<Rightarrow> (runtime_state \<times> runtime_state \<times> runtime_transition) list
     \<Rightarrow> (transient_sensor_control_error, sensor_control_step + sample_gate \<times> 's) outcome
     \<Rightarrow> ('d, 's) transient_sensor_control \<times> ('p, 'l, 's) world \<Rightarrow> bool" where
  "sourced st js res tw =
     (case res of
        Ok (Inr _) \<Rightarrow> reported st js StateFirmwareAuto (snd tw)
      | Ok (Inl y) \<Rightarrow> refined st js (Ok y) tw
      | Err e \<Rightarrow> refined st js (Err e) tw
      | Panic \<Rightarrow> True)"

lemma recovery_sources_refines:
  assumes "reported (RecoveringState r0) js StateFirmwareAuto (snd tw)"
  shows "wp (recovery_sources P D r) (sourced (RecoveringState r0) js) tw"
proof (cases "rs_sources r")
  case None
  let ?st = "RecoveringState r0"
  have same: "wp m (\<lambda>res tw'. (\<forall>e. res \<noteq> Err e) \<and> reported ?st js StateFirmwareAuto (snd tw')) tw1"
    if "never_err m" "script (\<lambda>cw. transitions (snd cw)) m []" "reported ?st js StateFirmwareAuto (snd tw1)" for m tw1
    by (rule wp_mono [OF wp_conj [OF that(1) [unfolded never_err_def, rule_format] script_silentD [OF that(2)]]])
      (use that(3) reported_same in blast)
  have unconfirmed: "wp (try_io (on_snd (emit_fault FaultFirmwareAutoUnconfirmed None)) (\<lambda>_.
      try_io (on_snd (emit_state_transition StateFirmwareAuto StateRestoring ControlFault)) (\<lambda>_.
      try_io (latch_recovery_fault P (rs_device r) FirmwareAutoUnconfirmed None) (\<lambda>step. return_io (Ok (Inl step))))))
      (sourced ?st js) tw1" if "reported ?st js StateFirmwareAuto (snd tw1)" for tw1
  proof -
    have "reported ?st js StateRestoring (snd (fst tw1, snd tw1\<lparr>journal := journal (snd tw1) @
        [FaultEvent FaultFirmwareAutoUnconfirmed None, StateTransitionEvent StateFirmwareAuto StateRestoring ControlFault]\<rparr>))"
      unfolding snd_conv by (rule reported_events [OF that]) (simp add: runtime_moves_def)
    from wp_try [OF fault_ends(3) [OF this], of "\<lambda>step. return_io (Ok (Inl step))" "sourced ?st js"] show ?thesis
      by (simp add: wp_try_io [of "on_snd (emit _)"] wp_on_snd
          emit_fault_def emit_state_transition_def wp_emit wp_return sourced_def)
  qed
  have m: "never_err (on_snd (now_io P))" "script (\<lambda>cw. transitions (snd cw)) (on_snd (now_io P)) []" for P :: "('p, 'l) platform_ops"
    using never_err_basic(5) script_on_snd [OF trail.obs_now] by (simp_all add: never_err_def wp_on_snd)
  show ?thesis
    unfolding recovery_sources_def None option.case
  proof (rule wp_try [OF same [OF refresh_never_err script_on_snd [OF trail.obs_refresh] assms]], goal_cases)
    case (1 confirmed tw1)
    show ?case
    proof (cases confirmed)
      case True
      show ?thesis
        unfolding eqTrueI [OF True] not_True_eq_False if_False
      proof (rule wp_try [OF same [OF m]], goal_cases)
        case (2 t tw2)
        show ?case
        proof (rule wp_try [OF same [OF never_err_basic(1) script_catch [OF discovery_silent]]], goal_cases)
          case (2 found tw3)
          then have "reported ?st js StateFirmwareAuto (snd tw3\<lparr>journal := journal (snd tw3) @ [FaultEvent FaultSensorUnavailable None]\<rparr>)"
            by (intro reported_events [of _ _ StateFirmwareAuto]) simp_all
          then show ?case
            using 2
            by (cases found) (auto simp: sensor_emits sourced_def intro!: refinedI await_sources)
        qed (use 2 in \<open>auto simp: sourced_def\<close>)
      qed (use 1 in \<open>auto simp: sourced_def\<close>)
    qed (use 1 unconfirmed in simp)
  qed (auto simp: sourced_def)
qed (use assms in \<open>simp add: recovery_sources_def wp_return sourced_def\<close>)

lemma step_recovering_refines:
  assumes "reported (RecoveringState r0) js StateFirmwareAuto (snd tw)"
  shows "wlp (step_recovering P S D r) (refined (RecoveringState r0) js) tw"
  unfolding step_recovering_def
proof (rule wlp_try_total [OF requested_reported [OF assms]], goal_cases)
  case (1 requested tw1)
  then have rep: "reported (RecoveringState r0) js StateFirmwareAuto (snd tw1)" by simp
  show ?case
  proof (cases requested)
    case True
    then show ?thesis using rep by (simp add: wlp_total recovery_faults(3))
  next
    case False
    show ?thesis
      unfolding if_not_P [OF False]
    proof (rule wlp_try_total [OF recovery_sources_refines [OF rep]], goal_cases)
      case (1 found tw2)
      show ?case
      proof (cases found)
        case (Inr gs)
        obtain gate sources where gs: "gs = (gate, sources)" by fastforce
        have rep2: "reported (RecoveringState r0) js StateFirmwareAuto (snd tw2)" using 1 Inr by (simp add: sourced_def)
        show ?thesis
          unfolding Inr gs sum.case prod.case
          by (rule wlp_try_total [OF lend_reported [OF trail.obs_fresh_sample rep2]]) (auto simp: refined_def intro!: after_sample_refines)
      qed (use 1 in \<open>simp add: wlp_total wp_return sourced_def\<close>)
    qed (auto simp: sourced_def refined_def)
  qed
qed (auto simp: refined_def)

section \<open>Property\<close>

lemma step_refines:
  assumes "tsc_state t = Some st"
  shows "wlp (step P S D) (refined st (transitions w)) (t, w)"
proof -
  have start: "reported st (transitions w) (runtime_of st) w" by (auto simp: reported_def)
  let ?t = "t\<lparr>tsc_state := None\<rparr>"
  have take: "wp take_state Q (t, w) = Q (Ok st) (?t, w)" for Q
    by (simp add: take_state_def wp_try_io wp_get_fst wp_modify_fst wp_return assms)
  show ?thesis
    unfolding step_def wlp_try_dio wlp_total take outcome.case
  proof (cases st)
    case (CustomState ctl sources)
    show "wlp (case st of CustomState ctl sources \<Rightarrow> total_io (step_custom P S ctl sources) | RecoveringState r \<Rightarrow> step_recovering P S D r
       | FaultedState retained \<Rightarrow> total_io (latch_with (FaultedState retained) SensorControlFaulted)) (refined st (transitions w)) (?t, w)"
      unfolding CustomState control_state.case wlp_total
      by (rule step_custom_refines) (use start CustomState in simp)
  next
    case (RecoveringState r)
    then have rep: "reported (RecoveringState r) (transitions w) StateFirmwareAuto (snd (?t, w))" using start by simp
    show "wlp (case st of CustomState ctl sources \<Rightarrow> total_io (step_custom P S ctl sources) | RecoveringState r \<Rightarrow> step_recovering P S D r
       | FaultedState retained \<Rightarrow> total_io (latch_with (FaultedState retained) SensorControlFaulted)) (refined st (transitions w)) (?t, w)"
      unfolding RecoveringState control_state.case by (rule step_recovering_refines [OF rep])
  next
    case (FaultedState retained)
    show "wlp (case st of CustomState ctl sources \<Rightarrow> total_io (step_custom P S ctl sources) | RecoveringState r \<Rightarrow> step_recovering P S D r
       | FaultedState retained \<Rightarrow> total_io (latch_with (FaultedState retained) SensorControlFaulted)) (refined st (transitions w)) (?t, w)"
      unfolding FaultedState control_state.case wlp_total
      using start FaultedState by (auto simp: sensor_emits intro!: refinedI faulted)
  qed
qed

definition found_discovery :: "(unit, fake_platform, unit) sensor_source_discovery" where
  "found_discovery = \<lparr>rediscover = (\<lambda>_. return_io (Ok ()))\<rparr>"

definition recovering_control :: "(unit, unit) transient_sensor_control" where
  "recovering_control =
     \<lparr>tsc_authority = sample_authority 0, tsc_discovery = (),
      tsc_state = Some (RecoveringState \<lparr>rs_config = exact_config example_config, rs_device = sample_device,
        rs_gate = new_gate, rs_sources = None\<rparr>)\<rparr>"



end
