(* ===== verification/Recovery_Contract.thy ===== *)
theory Recovery_Contract
  imports Recovery_Trace
begin

text \<open>
  What a step of sensor control promises on a platform whose delay lets time pass: it returns, it
  does not panic while the counters have room, Firmware Auto owns both fans whenever the control
  recovers, and a latched fault that is not critical was latched in Firmware Auto.
\<close>

section \<open>The invariant\<close>

definition passive_discovery ::
  "('p \<Rightarrow> bool) \<Rightarrow> ('p \<Rightarrow> path \<Rightarrow> string option) \<Rightarrow> ('d, 'p, 's) sensor_source_discovery \<Rightarrow> bool" where
  "passive_discovery sound content D \<longleftrightarrow>
     (\<forall>dl d p. sound p \<longrightarrow> wp (rediscover D dl) (\<lambda>r dp. r \<noteq> Panic \<and> sound (snd dp) \<and> content (snd dp) = content p) (d, p))"

definition authority_ok :: "admitted_policy_authority \<Rightarrow> bool" where
  "authority_ok a \<longleftrightarrow> config_ok (apa_protected a) \<and> calibration_ok (qtc_cpu (apa_calibration a))
     \<and> calibration_ok (qtc_gpu (apa_calibration a))"

fun state_ok :: "('p \<Rightarrow> path \<Rightarrow> string option) \<Rightarrow> ('p, 'l, 's) world \<Rightarrow> 's control_state \<Rightarrow> bool" where
  "state_ok content w (CustomState c _) = control_ok c"
| "state_ok content w (RecoveringState r) = (device_ok (rs_device r) \<and> config_ok (rs_config r) \<and> restoration_confirmed w
     \<and> in_firmware_auto (rs_device r) (content (platform w)))"
| "state_ok content w (FaultedState _) = True"

definition sensor_control_ok ::
  "('p \<Rightarrow> bool) \<Rightarrow> ('p \<Rightarrow> path \<Rightarrow> string option) \<Rightarrow> ('d, 's) transient_sensor_control \<times> ('p, 'l, 's) world \<Rightarrow> bool" where
  "sensor_control_ok sound content tw \<longleftrightarrow> authority_ok (tsc_authority (fst tw)) \<and> owner_safe sound content (snd tw)
     \<and> (\<exists>st. tsc_state (fst tw) = Some st \<and> state_ok content (snd tw) st)"

fun device_of :: "'s control_state \<Rightarrow> acer_hwmon_device option" where
  "device_of (CustomState c _) = Some (hc_device c)"
| "device_of (RecoveringState r) = Some (rs_device r)"
| "device_of (FaultedState _) = None"

text \<open>The latched faults after which Firmware Auto owns both fans.\<close>

fun latched_in_firmware_auto :: "transient_sensor_control_error \<Rightarrow> bool" where
  "latched_in_firmware_auto (ControlLatched _) = True"
| "latched_in_firmware_auto (ControlLatchContained _ _ _) = True"
| "latched_in_firmware_auto (RecoveryLatched _) = True"
| "latched_in_firmware_auto (RecoveryLatchContained _ _ _) = True"
| "latched_in_firmware_auto (Rearming e) = (\<not> arming_critical e)"
| "latched_in_firmware_auto _ = False"

definition room :: "nat \<Rightarrow> ('p, 'l, 's) world \<Rightarrow> bool" where
  "room n w \<longleftrightarrow> unat (sampling_epoch w) + n < 2 ^ 64 \<and> unat (next_gate_id w) + 1 < 2 ^ 64"

definition step_post ::
  "('p \<Rightarrow> bool) \<Rightarrow> ('p \<Rightarrow> path \<Rightarrow> string option) \<Rightarrow> bool \<Rightarrow> acer_hwmon_device option
     \<Rightarrow> (transient_sensor_control_error, sensor_control_step) outcome
     \<Rightarrow> ('d, 's) transient_sensor_control \<times> ('p, 'l, 's) world \<Rightarrow> bool" where
  "step_post sound content enough dev r tw \<longleftrightarrow> (enough \<longrightarrow> r \<noteq> Panic)
     \<and> (r \<noteq> Panic \<longrightarrow> sensor_control_ok sound content tw
        \<and> (\<forall>e. r = Err e \<longrightarrow> latched_in_firmware_auto e \<longrightarrow>
             restoration_confirmed (snd tw) \<and> (\<exists>d. dev = Some d \<and> in_firmware_auto d (content (platform (snd tw))))))"

lemma owner_safe_journal [simp]: "owner_safe sound content (w\<lparr>journal := js\<rparr>) = owner_safe sound content w"
  by (simp add: owner_safe_def foreign_device_def)

lemma room_journal [simp]: "room n (w\<lparr>journal := js\<rparr>) = room n w"
  by (simp add: room_def)

lemma state_ok_journal [simp]: "state_ok content (w\<lparr>journal := js\<rparr>) st = state_ok content w st"
  by (cases st) simp_all

lemma gate_new_effect:
  "wp sample_gate_new (\<lambda>r w'. (\<forall>e. r \<noteq> Err e) \<and> (unat (next_gate_id w) + 1 < 2 ^ 64 \<longrightarrow> r \<noteq> Panic)
     \<and> (\<exists>k. w' = w\<lparr>next_gate_id := k\<rparr>)) w"
proof (cases "word_checked_add (next_gate_id w) 1")
  case None
  then have "\<not> unat (next_gate_id w) + 1 < 2 ^ 64" by (auto simp: word_checked_add_def split: if_splits)
  then show ?thesis
    using None by (auto simp: sample_gate_new_def try_io_def next_gate_id_io_def wp_def intro: exI [of _ "next_gate_id w"])
next
  case (Some n)
  then show ?thesis by (auto simp: sample_gate_new_def try_io_def return_io_def next_gate_id_io_def wp_def)
qed

text \<open>How far a part advances the sampling epoch, and that only an exhausted counter makes it panic.\<close>

definition counted ::
  "('p \<Rightarrow> bool) \<Rightarrow> ('x \<Rightarrow> ('p, 'l, 's) world) \<Rightarrow> nat \<Rightarrow> 'x \<Rightarrow> ('e, 'a) outcome \<Rightarrow> 'x \<Rightarrow> bool" where
  "counted sound pr k x r x' \<longleftrightarrow> (unat (sampling_epoch (pr x)) + k < 2 ^ 64 \<longrightarrow> r \<noteq> Panic)
     \<and> (r \<noteq> Panic \<longrightarrow> unat (sampling_epoch (pr x')) \<le> unat (sampling_epoch (pr x)) + k \<and> sound (platform (pr x')))"

definition counts :: "('p \<Rightarrow> bool) \<Rightarrow> ('x \<Rightarrow> ('p, 'l, 's) world) \<Rightarrow> nat \<Rightarrow> ('x, 'e, 'a) io \<Rightarrow> bool" where
  "counts sound pr k m \<longleftrightarrow> (\<forall>x. sound (platform (pr x)) \<longrightarrow> wp m (counted sound pr k x) x)"

lemma counts_add: "counts sound pr j m \<Longrightarrow> (\<And>y. counts sound pr k (f y)) \<Longrightarrow> counts sound pr (j + k) (try_io m f)"
  unfolding counts_def
  by (intro allI impI wp_try [where R = "counted sound pr j _"])
    (assumption | fastforce simp: counted_def elim: wp_mono)+

lemma counts_mono: "counts sound pr j m \<Longrightarrow> j \<le> k \<Longrightarrow> counts sound pr k m"
  unfolding counts_def by (fastforce simp: counted_def elim: wp_mono)

lemma counts_try: "counts sound pr 0 m \<Longrightarrow> (\<And>y. counts sound pr k (f y)) \<Longrightarrow> counts sound pr k (try_io m f)"
  using counts_add [of sound pr 0 m k f] by simp

lemma counts_last: "counts sound pr k m \<Longrightarrow> (\<And>y. counts sound pr 0 (f y)) \<Longrightarrow> counts sound pr k (try_io m f)"
  using counts_add [of sound pr k m 0 f] by simp

lemma counts_if: "counts sound pr k m \<Longrightarrow> counts sound pr k m' \<Longrightarrow> counts sound pr k (if b then m else m')"
  by simp

lemma counts_return: "r \<noteq> Panic \<Longrightarrow> counts sound pr k (return_io r)"
  by (simp add: counts_def counted_def wp_return)

lemma counts_get: "counts sound pr k (get_io f)"
  by (simp add: counts_def counted_def wp_get_io)

lemma counts_catch: "counts sound pr k m \<Longrightarrow> counts sound pr k (catch_io m)"
  unfolding counts_def by (fastforce simp: counted_def wp_catch_io elim: wp_mono split: outcome.splits)

lemma counts_snd: "counts sound (\<lambda>w. w) k m \<Longrightarrow> counts sound snd k (on_snd m)"
  by (simp add: counts_def counted_def [abs_def] wp_on_snd)

lemma counts_fst: "counts sound snd k get_fst" "counts sound snd k (modify_fst f)"
  by (simp_all add: counts_def counted_def wp_get_fst wp_modify_fst)

lemma counts_triple:
  assumes "triple (\<lambda>w. sound (platform w)) R m G" "\<And>w w'. R w w' \<Longrightarrow> sampling_epoch w' = sampling_epoch w"
  shows "counts sound (\<lambda>w. w) k m"
  unfolding counts_def
  by (intro allI impI wp_mono [OF assms(1) [unfolded triple_def, rule_format]]) (use assms(2) in \<open>auto simp: counted_def\<close>)

lemma owner_safe_gate [simp]: "owner_safe sound content (w\<lparr>next_gate_id := k\<rparr>) = owner_safe sound content w"
  by (simp add: owner_safe_def foreign_device_def)

text \<open>What every part of a recovery starts from, and what holds while Firmware Auto is confirmed.\<close>

definition prepared ::
  "('p \<Rightarrow> bool) \<Rightarrow> ('p \<Rightarrow> path \<Rightarrow> string option) \<Rightarrow> bool \<Rightarrow> nat
     \<Rightarrow> ('d, 's) transient_sensor_control \<times> ('p, 'l, 's) world \<Rightarrow> bool" where
  "prepared sound content enough k tw \<longleftrightarrow>
     authority_ok (tsc_authority (fst tw)) \<and> owner_safe sound content (snd tw) \<and> (enough \<longrightarrow> room k (snd tw))"

definition auto_held :: "('p \<Rightarrow> path \<Rightarrow> string option) \<Rightarrow> acer_hwmon_device \<Rightarrow> ('p, 'l, 's) world \<Rightarrow> bool" where
  "auto_held content dev w \<longleftrightarrow> restoration_confirmed w \<and> in_firmware_auto dev (content (platform w))"

lemma prepared_journal [simp]:
  "prepared sound content enough k (t, w\<lparr>journal := js\<rparr>) = prepared sound content enough k (t, w)"
  by (simp add: prepared_def)

lemma prepared_mono: "prepared sound content enough k tw \<Longrightarrow> j \<le> k \<Longrightarrow> prepared sound content enough j tw"
  by (auto simp: prepared_def room_def)

lemma requested_kept:
  "wp (on_snd shutdown_is_requested) (\<lambda>r tw'. (\<exists>b. r = Ok b) \<and> fst tw' = fst tw
     \<and> (prepared sound content enough k tw \<longrightarrow> prepared sound content enough k tw')
     \<and> auto_held content dev (snd tw') = auto_held content dev (snd tw)) tw"
  by (cases tw) (auto simp: wp_def on_snd_def shutdown_is_requested_def Let_def deliver_signal_def prepared_def owner_safe_def
      foreign_device_def room_def auto_held_def split: list.splits)

lemma outcome_okI: "r \<noteq> Panic \<Longrightarrow> \<forall>e. r \<noteq> Err e \<Longrightarrow> \<exists>x. r = Ok x"
  by (cases r) auto

lemma wlp_ok_try:
  "(\<And>x s. wlp (f x) (\<lambda>r _. \<forall>y. r = Ok y \<longrightarrow> F y) s) \<Longrightarrow> wlp (try_dio m f) (\<lambda>r _. \<forall>y. r = Ok y \<longrightarrow> F y) s"
  unfolding wlp_try_dio by (simp add: wlp_def [of m] split: option.split outcome.split)

text \<open>An armed control carries the calibrations of the authority that admitted it.\<close>

lemma armed_calibration:
  "wlp (arm_both_fans_safely_until P dev authority candidate ready)
     (\<lambda>r _. \<forall>armed. r = Ok armed \<longrightarrow> afc_calibration armed = tachometer_calibrations authority) w"
proof -
  have arm: "wlp (arm P dev sample config calibration ids) (\<lambda>r _. \<forall>armed. r = Ok armed \<longrightarrow> afc_calibration armed = calibration) w"
    for sample config calibration ids w
    unfolding arm_def case_prod_unfold by (intro wlp_ok_try) (simp add: wlp_total wp_return)
  have rej: "wp (reject_arming P dev entered reason) (\<lambda>r _. \<forall>armed. r = Ok armed \<longrightarrow> afc_calibration armed = c) w"
    for entered reason c w
    by (rule wp_mono [OF trail.obs_reject]) (auto simp: is_ok_def)
  have fin: "wlp (try_dio (catch_dio (arm P dev sample candidate (tachometer_calibrations authority) ids)) (\<lambda>result.
       case result of
         Inr armed \<Rightarrow> total_io (try_io (emit_state_transition a b c) (\<lambda>_. return_io (Ok armed)))
       | Inl reason \<Rightarrow> total_io (reject_arming P dev True reason)))
     (\<lambda>r _. \<forall>armed. r = Ok armed \<longrightarrow> afc_calibration armed = tachometer_calibrations authority) w" for sample ids a b c w
    unfolding wlp_try_dio wlp_catch_dio
    by (rule wlp_mono [OF arm])
      (auto simp: wlp_total wp_try_io wp_return emit_state_transition_def wp_emit intro!: rej split: outcome.split)
  show ?thesis
    unfolding arm_both_fans_safely_until_def
    by (rule wlp_ok_try) (auto simp: wlp_total intro!: rej wlp_ok_try fin split: sum.split)
qed

context fan_platform
begin

section \<open>Restoring and latching\<close>

lemma safing_post:
  assumes "device_ok dev" "sound (platform w)"
  shows "wp (restore_or_contain_firmware_auto P dev) (\<lambda>r w'. (unat (sampling_epoch w) + 2 < 2 ^ 64 \<longrightarrow> r \<noteq> Panic)
     \<and> next_gate_id w' = next_gate_id w \<and> (r \<noteq> Panic \<longrightarrow> owner_safe sound content w'
       \<and> (\<exists>out. r = Ok out \<and> (restoration_confirmed w' \<longleftrightarrow> safing_confirmed out)
            \<and> (safing_confirmed out \<longrightarrow> in_firmware_auto dev (content (platform w')))))) w"
  by (rule wp_mono [OF wp_conj [OF wp_conj [OF safing_safe [OF assms] safing_effect [OF assms]] script_silentD [OF gates.obs_safing]]])
    (auto simp: safing_confirmed_iff)

lemma after_safing_post:
  assumes "device_ok dev" "sound (platform (snd tw))" "enough \<longrightarrow> room 2 (snd tw)"
    and k: "\<And>out tw'. fst tw' = fst tw \<Longrightarrow> owner_safe sound content (snd tw') \<Longrightarrow> next_gate_id (snd tw') = next_gate_id (snd tw)
      \<Longrightarrow> (restoration_confirmed (snd tw') \<longleftrightarrow> safing_confirmed out)
      \<Longrightarrow> (safing_confirmed out \<Longrightarrow> in_firmware_auto dev (content (platform (snd tw'))))
      \<Longrightarrow> wp (k out) (step_post sound content enough (Some dev)) tw'"
  shows "wp (try_io (on_snd (restore_or_contain_firmware_auto P dev)) (\<lambda>out.
      try_io (on_snd (emit_safing_outcome_diagnostics out)) (\<lambda>_. k out))) (step_post sound content enough (Some dev)) tw"
proof -
  have emit: "wp (try_io (on_snd (emit_safing_outcome_diagnostics out)) (\<lambda>_. k out)) (step_post sound content enough (Some dev)) tw'"
    if "fst tw' = fst tw" "owner_safe sound content (snd tw')" "next_gate_id (snd tw') = next_gate_id (snd tw)"
      "restoration_confirmed (snd tw') \<longleftrightarrow> safing_confirmed out"
      "safing_confirmed out \<Longrightarrow> in_firmware_auto dev (content (platform (snd tw')))" for out tw'
    unfolding emit_safing_outcome_diagnostics_def using that
    by (cases out) (auto simp: wp_try_io [of "on_snd _"] wp_try_io [of "emit _"] wp_on_snd emit_fault_def emit_state_transition_def wp_emit intro!: k)
  show ?thesis
    unfolding wp_try_io [of "on_snd (restore_or_contain_firmware_auto _ _)"] wp_on_snd
    by (rule wp_mono [OF safing_post [OF assms(1,2)]])
      (use assms(3) in \<open>auto simp: step_post_def [of _ _ _ _ Panic] room_def intro!: emit split: outcome.split\<close>)
qed

lemma fault_posts:
  assumes "device_ok dev" "sound (platform (snd tw))" "enough \<longrightarrow> room 2 (snd tw)" "authority_ok (tsc_authority (fst tw))"
  shows "config_ok config \<Longrightarrow> wp (restore_for_recovery P config dev fault sources) (step_post sound content enough (Some dev)) tw"
    "wp (latch_control_fault P dev error sources) (step_post sound content enough (Some dev)) tw"
    "wp (latch_recovery_fault P dev fault' retained) (step_post sound content enough (Some dev)) tw"
proof -
  note post = step_post_def sensor_control_ok_def sensor_emits safing_confirmed_def
  show "wp (restore_for_recovery P config dev fault sources) (step_post sound content enough (Some dev)) tw" if "config_ok config"
    unfolding restore_for_recovery_def
  proof (rule after_safing_post [OF assms(1-3)], goal_cases)
    case (1 out tw')
    show ?case
    proof (cases out)
      case SafingRestored
      show ?thesis
        unfolding SafingRestored firmware_auto_safing_outcome.case wp_try_io [of "on_snd sample_gate_new"] wp_on_snd
        by (rule wp_mono [OF gate_new_effect])
          (use 1 SafingRestored assms that in \<open>auto simp: post room_def split: outcome.split\<close>)
    qed (use 1 assms(4) in \<open>auto simp: post\<close>)
  qed
  show "wp (latch_control_fault P dev error sources) (step_post sound content enough (Some dev)) tw"
    unfolding latch_control_fault_def
    by (rule after_safing_post [OF assms(1-3)]) (use assms(4) in \<open>auto simp: post split: firmware_auto_safing_outcome.splits\<close>)
  show "wp (latch_recovery_fault P dev fault' retained) (step_post sound content enough (Some dev)) tw"
    unfolding latch_recovery_fault_def
    by (rule after_safing_post [OF assms(1-3)]) (use assms(4) in \<open>auto simp: post split: firmware_auto_safing_outcome.splits\<close>)
qed

section \<open>Sampling during the recovery\<close>

lemma counts_now: "counts sound (\<lambda>w. w) k (now_io P)"
  by (rule counts_triple [OF now_triple [where A = "{}" and v = "[]"]]) (auto simp: stores_def ran_on_fields)

lemma counts_read: "device_ok dev \<Longrightarrow> path \<in> set (device_paths dev) \<Longrightarrow> counts sound (\<lambda>w. w) k (read_bound P dev path dl)"
  by (rule counts_triple [OF read_triple [where A = "{}" and v = "[]"]]) (auto simp: stores_def ran_on_fields)

lemma counts_invalidate: "counts sound (\<lambda>w. w) (Suc 0) invalidate_firmware_auto_epoch"
  unfolding counts_def
  by (intro allI impI wp_mono [OF wp_conj [OF invalidate_epoch invalidate_spec]]) (auto simp: counted_def)

lemma counts_refresh:
  assumes "device_ok dev"
  shows "counts sound (\<lambda>w. w) 1 (refresh_firmware_auto_confirmation P dev)"
  unfolding refresh_firmware_auto_confirmation_def Let_def
  by (rule counts_try [OF counts_get])
    (auto intro!: counts_try [OF counts_now] counts_try [OF counts_catch [OF counts_read [OF assms]]]
      counts_last [OF counts_invalidate] counts_return)

lemma counts_fresh_gate:
  assumes "passive_sources sound content S" "typed_sources sound S"
  shows "counts sound snd 0 (fresh_gate_sample P S)"
proof -
  have c: "counts sound (\<lambda>w. w) 0 (collect_complete_set P S cycle prev)" for cycle prev
    by (rule counts_triple [OF collect_triple [OF assms]]) (simp add: sampling_def owner_kept_def)
  show ?thesis
    unfolding fresh_gate_sample_def or_reset_def Let_def
    by (rule counts_try [OF counts_fst(1)])
      (auto intro!: counts_try counts_fst counts_catch counts_snd c counts_return counts_if split: option.split sum.split)
qed

lemma counts_collect:
  assumes "device_ok dev" "passive_sources sound content S" "typed_sources sound S"
  shows "counts sound snd 2 (collect_fresh_sample P S dev)"
proof -
  have started: "counts sound (\<lambda>w. w) 0 (modify_io (\<lambda>w. w\<lparr>sampling_epoch_started := True\<rparr>))"
    by (simp add: counts_def counted_def wp_modify_io)
  have "counts sound snd (1 + 1) (collect_fresh_sample P S dev)"
    unfolding collect_fresh_sample_def case_prod_unfold
    by (rule counts_add [OF counts_snd [OF counts_refresh [OF assms(1)]]])
      (auto intro!: counts_try [OF counts_fst(2)] counts_try [OF counts_snd [OF counts_get]] counts_return
        counts_try [OF counts_if] counts_snd [OF started] counts_try [OF counts_catch [OF counts_fresh_gate [OF assms(2,3)]]]
        counts_last [OF counts_snd [OF counts_invalidate]] split: sum.split sample_readiness.split)
  then show ?thesis by (simp add: numeral_2_eq_2)
qed

section \<open>The parts of a recovery\<close>

lemma shutdown_post:
  assumes "prepared sound content enough k tw"
  shows "wp (latch_shutdown retained) (step_post sound content enough dev) tw"
  using assms unfolding latch_shutdown_def by (auto simp: sensor_emits step_post_def sensor_control_ok_def prepared_def)

lemma recovery_posts:
  assumes "device_ok dev" "prepared sound content enough 2 tw"
  shows "config_ok config \<Longrightarrow> wp (try_io (on_snd (emit_state_transition a b c)) (\<lambda>_.
        restore_for_recovery P config dev fault sources)) (step_post sound content enough (Some dev)) tw"
    "wp (try_io (on_snd (emit_state_transition a b c)) (\<lambda>_.
        latch_recovery_fault P dev fault' retained)) (step_post sound content enough (Some dev)) tw"
    "wp (try_io (on_snd (emit_state_transition a b c)) (\<lambda>_.
        latch_control_fault P dev error sources)) (step_post sound content enough (Some dev)) tw"
  using assms unfolding emit_state_transition_def wp_try_io [of "on_snd (emit _)"] wp_on_snd wp_emit outcome.case
  by (auto simp: prepared_def owner_safe_def intro!: fault_posts)

lemma recovering_post:
  assumes "prepared sound content enough k tw" "auto_held content (rs_device r) (snd tw)" "device_ok (rs_device r)" "config_ok (rs_config r)"
    "rs_device r' = rs_device r" "rs_config r' = rs_config r"
  shows "wp (try_io (install (RecoveringState r')) (\<lambda>_. return_io (Ok done_step))) (step_post sound content enough dev) tw"
  using assms by (auto simp: sensor_emits step_post_def sensor_control_ok_def prepared_def auto_held_def)

lemma same_content_safe:
  assumes "owner_safe sound content w" "sound (platform w')" "content (platform w') = content (platform w)"
    "restoration_confirmed w' = restoration_confirmed w" "controlled_device w' = controlled_device w"
  shows "owner_safe sound content w'"
  using assms by (auto simp: owner_safe_def foreign_device_def split: option.splits)

lemma wait_kept:
  assumes "prepared sound content enough k tw"
  shows "wp (catch_io (on_snd (wait_for_next_sample P g))) (\<lambda>r tw'. (\<exists>x. r = Ok x) \<and> fst tw' = fst tw
     \<and> prepared sound content enough k tw' \<and> auto_held content dev (snd tw') = auto_held content dev (snd tw)) tw"
proof -
  have s: "sound (platform (snd tw))" using assms by (simp add: prepared_def owner_safe_def)
  show ?thesis
    unfolding wp_catch_io wp_on_snd
    by (rule wp_mono [OF wp_conj [OF tripleD [OF wait_triple s] script_silentD [OF gates.obs_wait]]])
      (use assms in \<open>auto simp: prepared_def sampling_def owner_kept_def auto_held_def room_def
        intro: same_content_safe split: outcome.splits\<close>)
qed

lemma collect_kept:
  assumes "prepared sound content enough k tw" "2 \<le> k" "device_ok dev" "passive_sources sound content S" "typed_sources sound S"
  shows "wp (lend g s (collect_fresh_sample P S dev)) (\<lambda>r tw'. (\<forall>e. r \<noteq> Err e) \<and> (enough \<longrightarrow> r \<noteq> Panic)
     \<and> (\<forall>x gs. r = Ok (x, gs) \<longrightarrow> fst tw' = fst tw \<and> prepared sound content enough (k - 2) tw'
        \<and> (\<forall>y. x = Inr y \<longrightarrow> auto_held content dev (snd tw')))) tw"
proof -
  obtain t w where tw: "tw = (t, w)" by fastforce
  let ?w = "w\<lparr>source_state := s\<rparr>"
  have safe: "owner_safe sound content ?w" using assms(1) by (simp add: prepared_def tw owner_safe_def foreign_device_def)
  then have s: "sound (platform (snd (g, ?w)))" by (simp add: owner_safe_def)
  have "wp (collect_fresh_sample P S dev) (\<lambda>r gw. (r \<noteq> Panic \<longrightarrow> owner_safe sound content (snd gw)
       \<and> ((\<exists>x. r = Ok x) \<longrightarrow> auto_held content dev (snd gw))) \<and> counted sound snd 2 (g, ?w) r gw
       \<and> next_gate_id (snd gw) = next_gate_id w) (g, ?w)"
    by (rule wp_mono [OF wp_conj [OF wp_conj [OF collect_fresh_safe [OF assms(3,4) safe]
            counts_collect [OF assms(3-5), unfolded counts_def, rule_format, OF s]] script_silentD [OF gates.obs_fresh_sample]]])
      (auto simp: auto_held_def)
  with assms(1,2) show ?thesis
    unfolding tw
    by (auto simp: wp_def lend_def counted_def prepared_def room_def split: prod.splits outcome.splits)
qed

lemma discovery_kept:
  assumes "prepared sound content enough k tw" "passive_discovery sound content D"
  shows "wp (catch_io (on_discovery (rediscover D dl))) (\<lambda>r tw'. (\<exists>x. r = Ok x) \<and> tsc_authority (fst tw') = tsc_authority (fst tw)
     \<and> prepared sound content enough k tw' \<and> auto_held content dev (snd tw') = auto_held content dev (snd tw)) tw"
proof -
  obtain t w where tw: "tw = (t, w)" by fastforce
  have s: "sound (platform w)" using assms(1) by (simp add: prepared_def owner_safe_def tw)
  have "wp (on_discovery (rediscover D dl)) (\<lambda>r tw'. r \<noteq> Panic \<and> tsc_authority (fst tw') = tsc_authority t
      \<and> (\<exists>p. snd tw' = w\<lparr>platform := p\<rparr> \<and> sound p \<and> content p = content (platform w))) tw"
    using assms(2) [unfolded passive_discovery_def, rule_format, OF s, of dl "tsc_discovery t"]
    by (auto simp: tw wp_def on_discovery_def split: prod.splits)
  then show ?thesis
    unfolding wp_catch_io
    by (rule wp_mono)
      (use assms(1) in \<open>auto simp: tw prepared_def auto_held_def room_def intro: same_content_safe split: outcome.splits\<close>)
qed

lemma refresh_kept:
  assumes "prepared sound content enough k tw" "1 \<le> k" "device_ok dev"
  shows "wp (on_snd (refresh_firmware_auto_confirmation P dev)) (\<lambda>r tw'. (\<forall>e. r \<noteq> Err e) \<and> (enough \<longrightarrow> r \<noteq> Panic)
     \<and> (\<forall>b. r = Ok b \<longrightarrow> fst tw' = fst tw \<and> prepared sound content enough (k - 1) tw' \<and> (b \<longrightarrow> auto_held content dev (snd tw')))) tw"
proof -
  have safe: "owner_safe sound content (snd tw)" using assms(1) by (simp add: prepared_def)
  then have s: "sound (platform (snd tw))" by (simp add: owner_safe_def)
  show ?thesis
    unfolding wp_on_snd
    by (rule wp_mono [OF wp_conj [OF wp_conj [OF refresh_spec [OF assms(3) safe]
            counts_refresh [OF assms(3), unfolded counts_def, rule_format, OF s]] script_silentD [OF gates.obs_refresh]]])
      (use assms(1,2) in \<open>auto simp: prepared_def auto_held_def room_def counted_def\<close>)
qed

lemma now_kept:
  assumes "prepared sound content enough k tw"
  shows "wp (on_snd (now_io P)) (\<lambda>r tw'. (\<exists>x. r = Ok x) \<and> fst tw' = fst tw
     \<and> prepared sound content enough k tw' \<and> auto_held content dev (snd tw') = auto_held content dev (snd tw)) tw"
proof -
  have s: "sound (platform (snd tw))" using assms by (simp add: prepared_def owner_safe_def)
  note ne = never_err_basic(5) [unfolded never_err_def, rule_format]
  show ?thesis
    unfolding wp_on_snd
    by (rule wp_mono [OF wp_conj [OF wp_conj [OF tripleD [OF sampling_now s] ne] script_silentD [OF gates.obs_now]]])
      (use assms in \<open>auto simp: prepared_def sampling_def owner_kept_def auto_held_def room_def
        intro: same_content_safe outcome_okI\<close>)
qed

text \<open>A left result of the discovery ends the step; otherwise the recovery goes on with the sources found.\<close>

lemma sources_post:
  assumes "prepared sound content enough k tw" "3 \<le> k" "device_ok (rs_device r)" "config_ok (rs_config r)" "passive_discovery sound content D"
    "auto_held content (rs_device r) (snd tw)"
  shows "wp (recovery_sources P D r) (\<lambda>x tw'. (enough \<longrightarrow> x \<noteq> Panic) \<and> (\<forall>e. x = Err e \<longrightarrow> step_post sound content enough (Some (rs_device r)) (Err e) tw')
      \<and> (\<forall>y. x = Ok (Inl y) \<longrightarrow> step_post sound content enough (Some (rs_device r)) (Ok y) tw')
      \<and> (\<forall>g. x = Ok (Inr g) \<longrightarrow> prepared sound content enough (k - 1) tw')) tw"
    (is "wp _ ?Q tw")
proof (cases "rs_sources r")
  case (Some s)
  then show ?thesis
    using prepared_mono [OF assms(1), of "k - 1"] by (simp add: recovery_sources_def wp_return)
next
  case None
  have fault: "wp (try_io (on_snd (emit_fault FaultFirmwareAutoUnconfirmed None)) (\<lambda>_.
      try_io (on_snd (emit_state_transition StateFirmwareAuto StateRestoring ControlFault)) (\<lambda>_.
      try_io (latch_recovery_fault P (rs_device r) FirmwareAutoUnconfirmed None) (\<lambda>y. return_io (Ok (Inl y)))))) ?Q tw'"
    if "prepared sound content enough 2 tw'" for tw'
  proof -
    have lf: "wp (latch_recovery_fault P (rs_device r) FirmwareAutoUnconfirmed None)
      (step_post sound content enough (Some (rs_device r))) (fst tw', snd tw'\<lparr>journal := js\<rparr>)" for js
      by (rule fault_posts) (use that assms(3) in \<open>auto simp: prepared_def owner_safe_def\<close>)
    show ?thesis
      by (auto simp: wp_try_io [of "on_snd (emit _)"] wp_on_snd emit_fault_def emit_state_transition_def wp_emit wp_return
          wp_try_io [of "latch_recovery_fault _ _ _ _"] step_post_def intro!: wp_mono [OF lf] split: outcome.split)
  qed
  have found: "wp (try_io (on_snd (now_io P)) (\<lambda>now.
      try_io (catch_io (on_discovery (rediscover D (duration_saturating_add now sensor_rediscovery_window)))) (\<lambda>found.
        case found of
          Inr rediscovered \<Rightarrow> return_io (Ok (Inr (gate_reset (rs_gate r), rediscovered)))
        | Inl source \<Rightarrow>
            try_io (on_snd (emit_fault FaultSensorUnavailable None)) (\<lambda>_.
            try_io (install (RecoveringState (r\<lparr>rs_sources := None\<rparr>))) (\<lambda>_.
              return_io (Ok (Inl (StepAwaitingRediscovery source)))))))) ?Q tw'"
    if "prepared sound content enough (k - 1) tw'" "auto_held content (rs_device r) (snd tw')" for tw'
  proof (rule wp_try [OF now_kept [OF that(1), of "rs_device r"]], goal_cases)
    case (1 t tw1)
    then have p1: "prepared sound content enough (k - 1) tw1" by simp
    show ?case
    proof (rule wp_try [OF discovery_kept [OF p1 assms(5), of _ "rs_device r"]], goal_cases)
      case (1 x tw2)
      then show ?case
        using that assms(3,4) \<open>_ \<and> _ \<and> _ \<and> auto_held _ _ (snd tw1) = _\<close>
        by (cases x) (auto simp: sensor_emits step_post_def sensor_control_ok_def prepared_def auto_held_def)
    qed auto
  qed auto
  show ?thesis
    unfolding recovery_sources_def None option.case
  proof (rule wp_try [OF refresh_kept [OF assms(1) _ assms(3)]], goal_cases)
    case (2 b tw')
    then have p: "prepared sound content enough (k - 1) tw'" "b \<longrightarrow> auto_held content (rs_device r) (snd tw')" by auto
    have p2: "prepared sound content enough 2 tw'" by (rule prepared_mono [OF p(1)]) (use assms(2) in simp)
    show ?case using fault [OF p2] found [OF p(1)] p(2) by auto
  qed (use assms(2) in auto)
qed

lemma from_armed_post:
  assumes "authority_ok (tsc_authority t)" "owner_safe sound content w" "enough \<longrightarrow> unat (next_gate_id w) + 1 < 2 ^ 64"
    "device_ok (afc_device armed)" "config_ok (afc_config armed)" "afc_calibration armed = tachometer_calibrations (tsc_authority t)"
  shows "wp (try_io (on_snd (healthy_control_from_armed armed)) (\<lambda>ctl.
      try_io (install (CustomState ctl sources)) (\<lambda>_. return_io (Ok StepRearmed)))) (step_post sound content enough dev) (t, w)"
proof -
  have ctl: "control_ok ctl" if "hc_device ctl = afc_device armed" "hc_config ctl = afc_config armed" "hc_demand_history ctl = None"
    "hc_tachometers ctl = tachometer_validator_new (afc_calibration armed) d a b" for ctl d a b
    using that assms
    by (simp add: control_ok_def calibrations_ok_def tachometer_validator_new_def tachometer_calibrations_def authority_ok_def)
  show ?thesis
    unfolding wp_try_io [of "on_snd _"] wp_on_snd healthy_control_from_armed_def Let_def wp_try_io [of sample_gate_new] snd_conv fst_conv
    by (rule wp_mono [OF gate_new_effect])
      (use assms(1-3) in \<open>auto simp: sensor_emits step_post_def sensor_control_ok_def into_control_parts_def intro!: ctl split: outcome.split\<close>)
qed

section \<open>A cycle under custom control\<close>

text \<open>A control that may write is current, and then Firmware Auto is not confirmed.\<close>

lemma cycle_kept:
  assumes "control_ok c" "owner_safe sound content w" "passive_sources sound content S" "typed_sources sound S"
  shows "wp (run_healthy_control_cycle P S) (\<lambda>r cw'. r \<noteq> Panic \<and> owner_safe sound content (snd cw') \<and> control_ok (fst cw')
      \<and> hc_device (fst cw') = hc_device c \<and> sampling_epoch (snd cw') = sampling_epoch w \<and> next_gate_id (snd cw') = next_gate_id w) (c, w)"
proof (cases "control_is_current_for c w")
  case True
  then have unconfirmed: "\<not> restoration_confirmed w" by (simp add: control_is_current_for_def custom_epoch_is_current_def)
  have s: "sound (platform w)" using assms(2) by (simp add: owner_safe_def)
  show ?thesis
    by (rule wp_mono [OF wp_conj [OF run_cycle_effect [OF assms(1) s assms(3,4), folded run_healthy_control_cycle_def]
            script_silentD [OF gates.obs_cycle]]])
      (use unconfirmed in \<open>auto simp: owner_kept_def owner_safe_def\<close>)
next
  case False
  then show ?thesis
    using assms(1,2) unfolding run_healthy_control_cycle_def
    by (auto simp: wp_run_control_cycle failed_cycle_def control_ok_def)
qed

lemma lend_cycle:
  assumes "control_ok c" "prepared sound content enough k tw" "passive_sources sound content S" "typed_sources sound S"
  shows "wp (lend c s (run_healthy_control_cycle P S)) (\<lambda>r tw'. (\<exists>x c' s'. r = Ok (x, c', s') \<and> control_ok c' \<and> hc_device c' = hc_device c)
      \<and> fst tw' = fst tw \<and> prepared sound content enough k tw') tw"
proof -
  obtain t w where tw: "tw = (t, w)" by fastforce
  have "owner_safe sound content (w\<lparr>source_state := s\<rparr>)" using assms(2) by (simp add: prepared_def tw owner_safe_def foreign_device_def)
  from cycle_kept [OF assms(1) this assms(3,4)] show ?thesis
    using assms(2) by (auto simp: tw wp_def lend_def prepared_def room_def split: prod.splits outcome.splits)
qed

lemma step_custom_post:
  assumes "control_ok c" "prepared sound content enough 2 tw" "passive_sources sound content S" "typed_sources sound S"
  shows "wp (step_custom P S c s) (step_post sound content enough (Some (hc_device c))) tw"
  unfolding step_custom_def
proof (rule wp_try [OF lend_cycle [OF assms]], goal_cases)
  case (1 x tw')
  then obtain r c' s' where x: "x = (r, c', s')" "control_ok c'" "hc_device c' = hc_device c" and p: "prepared sound content enough 2 tw'"
    by auto
  have d: "device_ok (hc_device c)" "config_ok (hc_config c')" using x(2,3) by (simp_all add: control_ok_def)
  note posts = recovery_posts [OF d(1) p]
  show ?case
  proof (cases r)
    case (Inl e)
    have fault: "wp (case recoverable_sensor_cycle_fault e of
              None \<Rightarrow>
                try_io (on_snd (emit_state_transition StateCustomControl StateRestoring ControlFault)) (\<lambda>_.
                  latch_control_fault P (snd (into_recovery_parts c')) e s')
            | Some fault \<Rightarrow>
                try_io (on_snd (emit_state_transition StateCustomControl StateRestoring SensorFault)) (\<lambda>_.
                  restore_for_recovery P (fst (into_recovery_parts c')) (snd (into_recovery_parts c')) fault s'))
       (step_post sound content enough (Some (hc_device c))) tw'"
      using posts d x(3) by (auto simp: into_recovery_parts_def split: option.split)
    show ?thesis
    proof (cases "e = CycleShutdownRequested")
      case True
      then show ?thesis
        unfolding x Inl using p by (auto simp: sensor_emits step_post_def sensor_control_ok_def prepared_def)
    next
      case False
      then show ?thesis unfolding x Inl using fault by (cases e) auto
    qed
  next
    case (Inr y)
    then show ?thesis
      using x(2) p unfolding x(1) by (auto simp: sensor_emits step_post_def sensor_control_ok_def prepared_def)
  qed
qed auto

end

context ticking_platform
begin

lemma rearm_post:
  assumes "prepared sound content enough 3 tw" "device_ok dev" "config_ok config"
  shows "twp (rearm P config dev sources sample) (step_post sound content enough (Some dev)) tw"
proof -
  obtain t w where tw: "tw = (t, w)" by fastforce
  have p: "authority_ok (tsc_authority t)" "ok w" "enough \<longrightarrow> unat (sampling_epoch w) + 3 < 2 ^ 64" "enough \<longrightarrow> unat (next_gate_id w) + 1 < 2 ^ 64"
    using assms(1) by (auto simp: prepared_def tw owner_safe_def room_def)
  then have prot: "config_ok (apa_protected (tsc_authority t))" by (simp add: authority_ok_def)
  have gid: "wlp (arm_both_fans_safely_until P dev (tsc_authority t) config sample) (\<lambda>r w'. r \<noteq> Panic \<longrightarrow> next_gate_id w' = next_gate_id w) w"
  proof (rule wlp_mono [OF gates.obs_arm_both], goal_cases)
    case (1 r w')
    then show ?case by (cases r) (auto split: if_splits)
  qed
  have failed: "wp (try_io (on_snd shutdown_is_requested) (\<lambda>requested.
       if requested \<and> \<not> arming_critical e then latch_with (FaultedState None) SensorShutdownRequested
       else
         try_io (when_io (\<not> arming_critical e) (on_snd (emit_state_transition StateFirmwareAuto StateFaultLatched ControlFault))) (\<lambda>_.
           latch_with (FaultedState (if arming_critical e then Some sources else None)) (Rearming e))))
       (step_post sound content enough (Some dev)) (t, w')"
    if "owner_safe sound content w'" "\<not> arming_critical e \<longrightarrow> auto_held content dev w'" for e w'
  proof (rule wp_try [OF requested_kept [where tw = "(t, w')" and sound = sound and content = content and enough = False and k = 0 and dev = dev]], goal_cases)
    case (1 b tw')
    then have "owner_safe sound content (snd tw')" "auto_held content dev (snd tw') = auto_held content dev w'" "fst tw' = t"
      using that p(1) by (auto simp: prepared_def)
    then show ?case
      using that(2) p(1)
      by (cases "arming_critical e") (auto simp: sensor_emits when_io_def step_post_def sensor_control_ok_def auto_held_def)
  qed auto
  show ?thesis
    unfolding rearm_def tw twp_try_dio [of "total_io get_fst"] twp_total wp_get_fst outcome.case fst_conv
      arming_critical_def [symmetric] Let_def twp_try_dio [of "catch_dio _"] twp_catch_dio twp_on_snd_dio snd_conv
  proof (rule twp_mono [OF twp_conj [OF twp_conj [OF arm_both_effect [OF assms(2) p(2) assms(3) prot] gid] armed_calibration]], goal_cases)
    case (1 r w')
    show ?case
    proof (cases r)
      case (Ok armed)
      have "owner_safe sound content w'" using 1 Ok by (auto simp: owner_safe_def armed_is_current_for_def custom_epoch_is_current_def)
      with 1 Ok p assms(2,3) show ?thesis
        by (auto simp: twp_total intro!: from_armed_post)
    next
      case (Err e)
      then show ?thesis using 1 by (simp add: twp_total failed auto_held_def)
    qed (use 1 p in \<open>auto simp: step_post_def\<close>)
  qed
qed

lemma after_sample_post:
  assumes "prepared sound content enough 3 tw" "device_ok (rs_device r)" "config_ok (rs_config r)"
    "\<forall>y. readiness = Inr y \<longrightarrow> auto_held content (rs_device r) (snd tw)"
  shows "twp (after_sample P r (readiness, gate, sources)) (step_post sound content enough (Some (rs_device r))) tw"
proof -
  have p2: "prepared sound content enough 2 tw'" if "prepared sound content enough 3 tw'" for tw'
    by (rule prepared_mono [OF that]) simp
  have faulted: "wp (try_io (on_snd (emit_fault_diagnostic d)) (\<lambda>_. m)) (step_post sound content enough dev) tw'"
    if "\<And>js. wp m (step_post sound content enough dev) (fst tw', snd tw'\<lparr>journal := js\<rparr>)" for d m dev tw'
    unfolding emit_fault_diagnostic_def emit_fault_def wp_try_io [of "on_snd (emit _)"] wp_on_snd wp_emit using that by simp
  show ?thesis
  proof (cases readiness)
    case (Inl fault)
    show ?thesis
      unfolding Inl after_sample_def prod.case sum.case twp_total
      by (rule faulted) (use assms p2 [OF assms(1)] in \<open>auto intro!: recovery_posts\<close>)
  next
    case (Inr ready)
    then have held: "auto_held content (rs_device r) (snd tw)" using assms(4) by simp
    show ?thesis
    proof (cases ready)
      case OwnershipAwaitingSecondSample
      show ?thesis
        unfolding Inr OwnershipAwaitingSecondSample after_sample_def prod.case sum.case ownership_sample_readiness.case twp_total
      proof (rule wp_try [OF wait_kept [OF assms(1), of _ "rs_device r"]], goal_cases)
        case (1 waited tw')
        then have p: "prepared sound content enough 3 tw'" "auto_held content (rs_device r) (snd tw')" using held by auto
        show ?case
        proof (cases waited)
          case (Inl fault)
          show ?thesis
            unfolding Inl sum.case by (rule faulted) (use p2 [OF p(1)] assms(2) in \<open>auto intro!: recovery_posts\<close>)
        next
          case (Inr u)
          show ?thesis
            unfolding Inr sum.case by (rule recovering_post [OF p assms(2,3)]) simp_all
        qed
      qed auto
    next
      case (OwnershipReady sample)
      show ?thesis
        unfolding Inr OwnershipReady after_sample_def prod.case sum.case ownership_sample_readiness.case
        by (rule twp_try_total [OF requested_kept [where tw = tw and sound = sound and content = content and enough = enough
                and k = 3 and dev = "rs_device r"]])
          (use assms(1-3) in \<open>auto simp: twp_total intro!: shutdown_post rearm_post\<close>)
    qed
  qed
qed

lemma step_recovering_post:
  assumes "prepared sound content enough 6 tw" "auto_held content (rs_device r) (snd tw)" "device_ok (rs_device r)" "config_ok (rs_config r)"
    "passive_sources sound content S" "typed_sources sound S" "passive_discovery sound content D"
  shows "twp (step_recovering P S D r) (step_post sound content enough (Some (rs_device r))) tw"
  unfolding step_recovering_def
proof (rule twp_try_total [OF requested_kept [where tw = tw and sound = sound and content = content and enough = enough
        and k = 6 and dev = "rs_device r"]], goal_cases)
  case (1 requested tw1)
  then have p1: "prepared sound content enough 6 tw1" "auto_held content (rs_device r) (snd tw1)" using assms by auto
  have go: "twp (try_dio (total_io (recovery_sources P D r)) (\<lambda>found.
           case found of
             Inl y \<Rightarrow> total_io (return_io (Ok y))
           | Inr (gate, sources) \<Rightarrow>
               try_dio (total_io (lend gate sources (collect_fresh_sample P S (rs_device r)))) (after_sample P r)))
     (step_post sound content enough (Some (rs_device r))) tw1"
  proof (rule twp_try_total [OF sources_post [OF p1(1) _ assms(3,4,7) p1(2)]], goal_cases)
    case (2 found tw2)
    show ?case
    proof (cases found)
      case (Inl y)
      then show ?thesis using 2 by (simp add: twp_total wp_return)
    next
      case (Inr gs)
      obtain gate sources where gs: "gs = (gate, sources)" by fastforce
      have p2: "prepared sound content enough 5 tw2" using 2 Inr by simp
      show ?thesis
        unfolding Inr gs sum.case prod.case
      proof (rule twp_try_total [OF collect_kept [OF p2 _ assms(3,5,6)]], goal_cases)
        case (2 taken tw3)
        obtain readiness g s where t: "taken = (readiness, g, s)" by (metis prod_cases3)
        show ?case unfolding t by (rule after_sample_post) (use 2 t assms(3,4) in auto)
      qed (auto simp: step_post_def)
    qed
  qed (auto simp: step_post_def)
  show ?case using go shutdown_post [OF p1(1)] by (simp add: twp_total)
qed auto

lemma step_post_holds:
  assumes "sensor_control_ok sound content tw" "passive_sources sound content S" "typed_sources sound S" "passive_discovery sound content D"
    and st: "tsc_state (fst tw) = Some st"
  shows "twp (step P S D) (step_post sound content (room 6 (snd tw)) (device_of st)) tw"
proof -
  have ok: "prepared sound content (room 6 (snd tw)) 6 (fst tw\<lparr>tsc_state := None\<rparr>, snd tw)" "state_ok content (snd tw) st"
    using assms(1) st by (auto simp: sensor_control_ok_def prepared_def)
  have p2: "prepared sound content (room 6 (snd tw)) 2 (fst tw\<lparr>tsc_state := None\<rparr>, snd tw)"
    by (rule prepared_mono [OF ok(1)]) simp
  have "twp (case st of
         CustomState ctl sources \<Rightarrow> total_io (step_custom P S ctl sources)
       | RecoveringState r \<Rightarrow> step_recovering P S D r
       | FaultedState retained \<Rightarrow> total_io (latch_with (FaultedState retained) SensorControlFaulted))
     (step_post sound content (room 6 (snd tw)) (device_of st)) (fst tw\<lparr>tsc_state := None\<rparr>, snd tw)"
  proof (cases st)
    case (CustomState c s)
    then show ?thesis using step_custom_post [OF _ p2 assms(2,3)] ok(2) by (simp add: twp_total)
  next
    case (RecoveringState r)
    then show ?thesis using step_recovering_post [OF ok(1) _ _ _ assms(2-4)] ok(2) by (simp add: auto_held_def)
  next
    case (FaultedState s)
    then show ?thesis using ok(1) by (simp add: twp_total sensor_emits step_post_def sensor_control_ok_def prepared_def)
  qed
  then show ?thesis
    unfolding step_def take_state_def twp_try_dio twp_total
    by (simp add: sensor_emits wp_get_fst st expect_def)
qed

end

end
