(* ===== verification/Control_Properties.thy ===== *)
theory Control_Properties
  imports Control_Contract
begin

text \<open>
  The properties of a cycle of normal control, and a cycle on the scripted platform that shows them
  at work: from both fans at the maximum, cool sensors bring both duties down to 77.
\<close>

section \<open>A concrete cycle\<close>

definition custom_platform :: fake_platform where
  "custom_platform = (sample_platform [])\<lparr>
     files := map (\<lambda>(path, f). (path, if last path \<in> {''pwm1'', ''pwm2''} then f\<lparr>ff_contents := ''255''\<rparr> else f))
       (files (sample_platform [])),
     directories := [[''sys'', ''class'', ''hwmon''], sample_root]\<rparr>"

definition custom_world :: "(fake_platform, fake_runtime_lock, unit) world" where
  "custom_world = (world_of custom_platform ())\<lparr>controlled_device := Some (backing_identity sample_device), sampling_epoch := 1\<rparr>"

abbreviation cool_sources :: "(fake_platform, unit) sample_sources" where
  "cool_sources \<equiv> constant_sources (Fin 40) (Fin 35) Connected"

definition sample_healthy :: healthy_control where
  "sample_healthy =
     \<lparr>hc_ownership_id = 0, hc_custom_epoch = 1, hc_config = exact_config example_config, hc_device = sample_device,
      hc_sample_gate = new_gate, hc_demand_history = None, hc_last_outputs = fan_outputs_maximum,
      hc_tachometers = tachometer_validator_new sample_calibrations pwm_maximum 0 0, hc_invalidated = False\<rparr>"

definition cool_sample :: complete_sample_set where
  "cool_sample = \<lparr>css_cpu_temperature = Fin 40, css_gpu_temperature = Fin 35, css_external_power = Connected,
     css_cycle_started_at = 0, css_completed_at = 0\<rparr>"

definition cool_outputs :: fan_outputs where
  "cool_outputs = \<lparr>cpu_pwm = 77, gpu_pwm = 77\<rparr>"

lemma sample_sampled: "fst (sample_control fake_ops cool_sources (sample_healthy\<lparr>hc_config := config\<rparr>, custom_world)) = Ok cool_sample"
  "latch (snd (snd (sample_control fake_ops cool_sources (sample_healthy\<lparr>hc_config := config\<rparr>, custom_world)))) = shutdown_open"
  "signals (snd (snd (sample_control fake_ops cool_sources (sample_healthy\<lparr>hc_config := config\<rparr>, custom_world)))) = []"
  by code_simp+

text \<open>The part of the cycle after the demand is known, at the state the sample leaves.\<close>

definition cool_tail ::
  "control_demand_history \<Rightarrow> healthy_control \<times> (fake_platform, fake_runtime_lock, unit) world
     \<Rightarrow> (healthy_control_cycle_error, completed_control_cycle) outcome \<times> healthy_control \<times> (fake_platform, fake_runtime_lock, unit) world" where
  "cool_tail history =
     try_io (observe_cycle fake_ops sample_device (from_secs 2)) (\<lambda>(cpu_rpm, gpu_rpm).
     try_io (write_changed_outputs fake_ops sample_device fan_outputs_maximum cool_outputs (from_secs 2)) (\<lambda>_.
     try_io (confirm_cycle fake_ops sample_device cool_outputs (from_secs 2)) (\<lambda>_.
     try_io (modify_fst (\<lambda>c. c\<lparr>hc_demand_history := Some history, hc_last_outputs := cool_outputs\<rparr>)) (\<lambda>_.
     try_io (on_snd (emit_control_cycle
       (cycle_diagnostic cool_sample history cool_outputs fan_outputs_maximum cpu_rpm gpu_rpm))) (\<lambda>_.
       return_io (Ok \<lparr>ccc_sample = cool_sample, ccc_outputs = cool_outputs\<rparr>))))))"

lemma cool_next:
  "\<exists>h. next_outputs (exact_config example_config) None cool_sample = Ok (h, cool_outputs)"
proof -
  let ?c = "exact_config example_config"
  have t: "calculate_target_demand ?c (Fin 40) (Fin 35) Connected = (Ok (Fin 30) :: (healthy_control_cycle_error, f64) outcome)"
    by (simp add: calculate_target_demand_def exact_config_def example_config_def exact_profile_def
        exact_point_def cfg_point_def evaluate_Cons maximum_def)
  have "uint (pwm_from_demand (Fin 30)) = 77"
    using whole_percent_pwm [of 30] f64_of_small_int [of 30] by simp
  then have "pwm_from_demand (Fin 30) = 77" by (simp add: word_uint_eq_iff)
  then have "fan_outputs_for_demand ?c (Fin 30) = cool_outputs"
    by (simp add: fan_outputs_for_demand_def cool_outputs_def exact_config_def example_config_def maximum_def)
  then show ?thesis
    by (simp add: next_outputs_def next_history_def cool_sample_def Let_def effective_temperature_new_def t demand_smoother_new_def)
qed

lemma sample_tail: "is_ok (fst (cool_tail history (snd (sample_control fake_ops cool_sources (sample_healthy\<lparr>hc_config := config\<rparr>, custom_world)))))"
  by code_simp

lemma sample_cycle:
  "wp (run_control_cycle fake_ops cool_sources) (\<lambda>r _. \<exists>y. r = Ok y) (sample_healthy, custom_world)"
proof -
  have wp_at: "wp m Q s = Q (fst (m s)) (snd (m s))" for m Q and s :: 'x by (simp add: wp_def split_beta)
  have h: "sample_healthy\<lparr>hc_config := exact_config example_config\<rparr> = sample_healthy" by (simp add: sample_healthy_def)
  note sampled = sample_sampled [of "exact_config example_config", unfolded h]
  obtain history where n: "next_outputs (exact_config example_config) None cool_sample = Ok (history, cool_outputs)"
    using cool_next by blast
  note tail = sample_tail [of history "exact_config example_config", unfolded h]
  obtain y where y: "fst (cool_tail history (snd (sample_control fake_ops cool_sources (sample_healthy, custom_world)))) = Ok y"
    using tail by (auto simp: is_ok_def split: outcome.splits)
  have run: "ensure_running w = (Ok (), w)" if "latch w = shutdown_open" "signals w = []" for w :: "(fake_platform, fake_runtime_lock, unit) world"
    using that by (simp add: ensure_running_def shutdown_is_requested_def deliver_signal_def is_requested_def get_io_def shutdown_open_def try_io_def
        return_io_def modify_io_def)
  have cur: "\<not> hc_invalidated sample_healthy" "control_is_current_for sample_healthy custom_world"
    by (simp_all add: sample_healthy_def control_is_current_for_def custom_epoch_is_current_def custom_world_def world_of_def)
  have init: "latch custom_world = shutdown_open" "signals custom_world = []"
    by (simp_all add: custom_world_def world_of_def)
  have fields: "hc_config sample_healthy = exact_config example_config" "hc_demand_history sample_healthy = None"
    "hc_device sample_healthy = sample_device" "hc_last_outputs sample_healthy = fan_outputs_maximum"
    by (simp_all add: sample_healthy_def)
  have dl: "duration_checked_add (css_cycle_started_at cool_sample) normal_sample_cadence = Some (from_secs 2)"
    by (simp add: cool_sample_def duration_checked_add_def normal_sample_cadence_def from_secs_def duration_max_def)
  show ?thesis
    unfolding wp_run_control_cycle using y
    by (simp add: cur wp_at try_run_cycle_def try_io_def [of "on_snd ensure_running"] on_snd_def run init
        try_io_def [of get_fst] get_fst_def try_io_def [of "sample_control _ _"] sampled split_beta fields n dl cool_tail_def)
qed

lemma cool_typed: "typed_sources quiet cool_sources"
  by (simp add: typed_sources_def constant_sources_def constant_source_def capture_def fake_ops_def fake_monotonic_now_def wp_def
      temperature_ok_int [of 40, simplified] temperature_ok_int [of 35, simplified])

lemma cool_writeless: "writeless_sources fake_attempts cool_sources"
  using fake.attempts_now [unfolded wp_def]
  by (simp add: writeless_sources_def constant_sources_def constant_source_def capture_def fake_ops_def wp_def split_beta)

lemma sample_control_ok: "control_ok sample_healthy"
  using sample_device_ok sample_configs(1) qualify_ok [OF sample_qualifies]
  by (simp add: control_ok_def sample_healthy_def calibrations_ok_def tachometer_validator_new_def)

lemma custom_quiet: "quiet (platform custom_world)"
  by (simp add: quiet_def custom_world_def world_of_def custom_platform_def sample_platform_def fake_new_def)

section \<open>Properties\<close>

text \<open>
  C7. A cycle of normal control with sources that only observe does not panic and keeps the control
  state well formed. When it completes, the control state was and is current, both fans are in Custom
  with exactly the duties of the outputs, which are remembered, and neither duty is below what the
  curves demand for the sample alone, whatever the history.
\<close>

theorem cycle_success:
  assumes "fan_platform P sound content now" "passive_sources sound content S" "typed_sources sound S"
    "control_ok c" "sound (platform w)" "run_healthy_control_cycle P S (c, w) = (r, (c', w'))"
  shows "r \<noteq> Panic \<and> control_ok c' \<and> hc_device c' = hc_device c \<and> hc_config c' = hc_config c
    \<and> (\<forall>y. r = Ok y \<longrightarrow> control_is_current_for c w \<and> control_is_current_for c' w'
         \<and> cycle_applied (hc_device c) (ccc_outputs y) (content (platform w')) \<and> hc_last_outputs c' = ccc_outputs y
         \<and> meets_demand (hc_config c) (ccc_sample y) (ccc_outputs y))"
  using fan_platform.run_cycle_effect [OF assms(1,4,5,2,3)] assms(6)
  by (simp add: wp_def run_healthy_control_cycle_def cycle_completed_def)

theorem cycle_success_witness:
  "\<exists>y c' w'. run_healthy_control_cycle fake_ops cool_sources (sample_healthy, custom_world) = (Ok y, (c', w'))
     \<and> cycle_applied sample_device (ccc_outputs y) (file_contents (platform w'))
     \<and> meets_demand (exact_config example_config) (ccc_sample y) (ccc_outputs y)"
proof -
  obtain y c' w' where run: "run_healthy_control_cycle fake_ops cool_sources (sample_healthy, custom_world) = (Ok y, (c', w'))"
    using sample_cycle by (auto simp: wp_def run_healthy_control_cycle_def split: prod.splits)
  from cycle_success [OF fake.fan_platform_axioms constant_passive cool_typed sample_control_ok custom_quiet run] run
  show ?thesis by (auto simp: sample_healthy_def)
qed

text \<open>
  C25. A cycle attempts to write nothing but duties that change, the CPU fan's before the GPU fan's and
  each at most once; it never writes a mode. A completed cycle has written every duty that differs
  between its outputs and the previous ones.
\<close>

theorem cycle_writes:
  assumes "guarded_writes P attempts" "writeless_sources attempts S" "device_ok (hc_device c)"
    "run_healthy_control_cycle P S (c, w) = (r, (c', w'))"
  shows "\<exists>outputs ys. attempts (platform w') = attempts (platform w) @ ys
    \<and> prefix ys (changed_duties (hc_device c) (hc_last_outputs c) outputs)
    \<and> (\<forall>y. r = Ok y \<longrightarrow> ccc_outputs y = outputs \<and> ys = changed_duties (hc_device c) (hc_last_outputs c) outputs)"
  using guarded_writes.run_cycle_writes [OF assms(1,3,2), of w] assms(4) by (simp add: wp_def run_healthy_control_cycle_def)

theorem cycle_writes_witness:
  "\<exists>y c' w'. run_healthy_control_cycle fake_ops cool_sources (sample_healthy, custom_world) = (Ok y, (c', w'))
     \<and> fake_attempts (platform w')
       = fake_attempts (platform custom_world) @ changed_duties sample_device fan_outputs_maximum (ccc_outputs y)"
proof -
  obtain y c' w' where run: "run_healthy_control_cycle fake_ops cool_sources (sample_healthy, custom_world) = (Ok y, (c', w'))"
    using sample_cycle by (auto simp: wp_def run_healthy_control_cycle_def split: prod.splits)
  have f: "hc_device sample_healthy = sample_device" "hc_last_outputs sample_healthy = fan_outputs_maximum"
    by (simp_all add: sample_healthy_def)
  show ?thesis
    using cycle_writes [OF fake.guarded_writes_axioms cool_writeless _ run] run sample_device_ok by (auto simp: f)
qed

text \<open>
  C26. Every failure of a cycle invalidates the control state and, unless it was invalid before, ends
  the journal with the fault of the failure. From then on every cycle is refused with \<open>Invalidated\<close>
  without touching anything, on whatever platform and in whatever world it is tried.
\<close>

theorem cycle_failure_latches:
  assumes "run_healthy_control_cycle P S (c, w) = (Err e, (c', w'))"
  shows "hc_invalidated c'
    \<and> (\<not> hc_invalidated c \<longrightarrow> (\<exists>before. journal w' =
         before @ [FaultEvent (fst (cycle_fault_diagnostic e)) (snd (cycle_fault_diagnostic e))]))
    \<and> (hc_invalidated c \<longrightarrow> e = CycleInvalidated \<and> c' = c \<and> w' = w)
    \<and> run_healthy_control_cycle P' S' (c', w'') = (Err CycleInvalidated, (c', w''))"
proof -
  have "wp (run_control_cycle P S) (\<lambda>r cw'. \<forall>e. r = Err e \<longrightarrow> hc_invalidated (fst cw')
      \<and> (\<not> hc_invalidated c \<longrightarrow> (\<exists>before. journal (snd cw') =
           before @ [FaultEvent (fst (cycle_fault_diagnostic e)) (snd (cycle_fault_diagnostic e))]))
      \<and> (hc_invalidated c \<longrightarrow> e = CycleInvalidated \<and> cw' = (c, w))) (c, w)"
    unfolding wp_run_control_cycle by (auto simp: failed_cycle_def wp_def split: prod.splits outcome.splits)
  with assms have main: "hc_invalidated c'" "\<not> hc_invalidated c \<longrightarrow> (\<exists>before. journal w' =
         before @ [FaultEvent (fst (cycle_fault_diagnostic e)) (snd (cycle_fault_diagnostic e))])"
    "hc_invalidated c \<longrightarrow> e = CycleInvalidated \<and> c' = c \<and> w' = w"
    by (auto simp: wp_def run_healthy_control_cycle_def)
  have "run_healthy_control_cycle P' S' (c', w'') = (Err CycleInvalidated, (c', w''))"
    using main(1) by (simp add: run_healthy_control_cycle_def run_control_cycle_def try_io_def get_fst_def return_io_def)
  with main show ?thesis by blast
qed

theorem cycle_failure_latches_witness:
  "\<exists>e c' w'. run_healthy_control_cycle fake_ops cool_sources (sample_healthy, world_of custom_platform ()) = (Err e, (c', w'))
     \<and> hc_invalidated c' \<and> run_healthy_control_cycle fake_ops cool_sources (c', custom_world) = (Err CycleInvalidated, (c', custom_world))"
proof -
  have "\<not> control_is_current_for sample_healthy (world_of custom_platform ())"
    by (simp add: control_is_current_for_def custom_epoch_is_current_def world_of_def sample_healthy_def)
  then have "wp (run_control_cycle fake_ops cool_sources) (\<lambda>r _. \<exists>e. r = Err e) (sample_healthy, world_of custom_platform ())"
    unfolding wp_run_control_cycle by blast
  then obtain e c' w' where "run_healthy_control_cycle fake_ops cool_sources (sample_healthy, world_of custom_platform ()) = (Err e, (c', w'))"
    by (auto simp: wp_def run_healthy_control_cycle_def split: prod.splits)
  with cycle_failure_latches [OF this] show ?thesis by blast
qed

end
