(* ===== verification/Recovery_Properties.thy ===== *)
theory Recovery_Properties
  imports Recovery_Contract Control_Properties
begin

text \<open>
  Sensor control over any number of steps: the invariant of \<open>Recovery_Contract\<close> holds in every state
  that steps reach, and from every such state the next step returns.
\<close>

section \<open>Reachable states\<close>

inductive sensor_reachable ::
  "('p, 'l) platform_ops \<Rightarrow> ('p, 's) sample_sources \<Rightarrow> ('d, 'p, 's) sensor_source_discovery
     \<Rightarrow> ('d, 's) transient_sensor_control \<times> ('p, 'l, 's) world \<Rightarrow> ('d, 's) transient_sensor_control \<times> ('p, 'l, 's) world \<Rightarrow> bool"
  for P S D tw0 where
  start: "sensor_reachable P S D tw0 tw0"
| next_step: "sensor_reachable P S D tw0 tw \<Longrightarrow> step P S D tw = Some (r, tw') \<Longrightarrow> r \<noteq> Panic \<Longrightarrow> sensor_reachable P S D tw0 tw'"

context ticking_platform
begin

lemma reachable_ok:
  assumes "sensor_reachable P S D tw0 tw" "sensor_control_ok sound content tw0"
    "passive_sources sound content S" "typed_sources sound S" "passive_discovery sound content D"
  shows "sensor_control_ok sound content tw"
  using assms(1)
proof induction
  case (next_step tw r tw')
  then obtain st where "tsc_state (fst tw) = Some st" by (auto simp: sensor_control_ok_def)
  from twp_returns [OF step_post_holds [OF next_step.IH assms(3-5) this]] next_step.hyps
  show ?case by (auto simp: step_post_def)
qed (rule assms(2))

end

section \<open>A concrete recovery\<close>

definition recovering_world :: "(fake_platform, fake_runtime_lock, unit) world" where
  "recovering_world = auto_world\<lparr>controlled_device := Some (backing_identity sample_device), restoration_confirmed := True\<rparr>"

lemma recovering_ok: "sensor_control_ok quiet file_contents (recovering_control, recovering_world)"
proof -
  have "file_contents (platform auto_world) (enable_path (dev_cpu sample_device)) = Some firmware_auto"
    "file_contents (platform auto_world) (enable_path (dev_gpu sample_device)) = Some firmware_auto" "trim firmware_auto = firmware_auto"
    by code_simp+
  then have auto: "in_firmware_auto sample_device (file_contents (platform auto_world))"
    by (simp add: in_firmware_auto_def enable_paths_def device_fans_def)
  have "authority_ok (sample_authority 0)"
    using sample_configs(2) [of 0] qualify_ok [OF sample_qualifies] by (simp add: authority_ok_def sample_authority_def)
  moreover have "owner_safe quiet file_contents recovering_world"
    using auto auto_quiet sample_device_ok by (auto simp: owner_safe_def recovering_world_def foreign_device_def)
  ultimately show ?thesis
    using auto sample_configs(1) sample_device_ok
    by (simp add: sensor_control_ok_def recovering_control_def recovering_world_def)
qed

lemma found_passive: "passive_discovery quiet file_contents found_discovery"
  by (simp add: passive_discovery_def found_discovery_def wp_return)

section \<open>Property\<close>

text \<open>
  C1. On a platform whose delay lets time pass, with sources and a discovery that only observe, every
  state of sensor control that steps reach is well formed: while it recovers, Firmware Auto is
  confirmed and both fans of the device are in Firmware Auto. From every such state the next step
  returns, without a panic while the counters have room; and a fault it latches without calling it
  critical is latched with both fans of the device in Firmware Auto.
\<close>

theorem sensor_control_safe:
  assumes "ticking_platform P sound content now" "passive_sources sound content S" "typed_sources sound S"
    "passive_discovery sound content D" "sensor_control_ok sound content tw0" "sensor_reachable P S D tw0 tw"
  shows "(\<forall>rs. tsc_state (fst tw) = Some (RecoveringState rs) \<longrightarrow>
        restoration_confirmed (snd tw) \<and> in_firmware_auto (rs_device rs) (content (platform (snd tw))))
    \<and> (\<exists>st r tw'. tsc_state (fst tw) = Some st \<and> step P S D tw = Some (r, tw') \<and> (room 6 (snd tw) \<longrightarrow> r \<noteq> Panic)
        \<and> (\<forall>e. r = Err e \<longrightarrow> latched_in_firmware_auto e \<longrightarrow> restoration_confirmed (snd tw')
             \<and> (\<exists>d. device_of st = Some d \<and> in_firmware_auto d (content (platform (snd tw'))))))"
proof -
  have inv: "sensor_control_ok sound content tw"
    by (rule ticking_platform.reachable_ok [OF assms(1,6,5,2,3,4)])
  then obtain st where st: "tsc_state (fst tw) = Some st" "state_ok content (snd tw) st" by (auto simp: sensor_control_ok_def)
  from twp_returns [OF ticking_platform.step_post_holds [OF assms(1) inv assms(2-4) st(1)]] st
  show ?thesis by (auto simp: step_post_def)
qed

theorem sensor_control_safe_witness:
  "in_firmware_auto sample_device (file_contents (platform recovering_world))
   \<and> (\<exists>r tw'. step fake_ops cool_sources found_discovery (recovering_control, recovering_world) = Some (r, tw') \<and> r \<noteq> Panic)"
proof -
  have r: "sensor_reachable fake_ops cool_sources found_discovery (recovering_control, recovering_world) (recovering_control, recovering_world)"
    by (rule start)
  have room: "room 6 recovering_world" by (simp add: room_def recovering_world_def auto_world_def world_of_def)
  from sensor_control_safe [OF fake.ticking_platform_axioms constant_passive cool_typed found_passive recovering_ok r] room
  show ?thesis by (auto simp: recovering_control_def)
qed

end
