(* ===== verification/Supervision.thy ===== *)
theory Supervision
  imports Recovery_Properties
begin

text \<open>
  The service manager's view of the controller (\<open>fan-control-core/src/supervision.rs\<close>): the heartbeat
  of the control loop, one supervised iteration, and the \<open>sd_notify\<close> transport. The notifier of the
  heartbeat is an interface; the socket of the transport is the kernel's and is a parameter.
\<close>

section \<open>Heartbeat\<close>

datatype service_notification = NotifyReady | NotifyWatchdog

record ('n, 'e) service_notifier =
  notify :: "service_notification \<Rightarrow> ('n, 'e, unit) io"

record 'n control_loop_heartbeat =
  clh_notifier :: 'n
  clh_ready :: bool

definition heartbeat_new :: "'n \<Rightarrow> 'n control_loop_heartbeat" where
  "heartbeat_new notifier = \<lparr>clh_notifier = notifier, clh_ready = False\<rparr>"

definition on_notifier :: "('n, 'e, 'a) io \<Rightarrow> ('n control_loop_heartbeat, 'e, 'a) io" where
  "on_notifier m hb = (case m (clh_notifier hb) of (r, n) \<Rightarrow> (r, hb\<lparr>clh_notifier := n\<rparr>))"

definition completed_control_cycle_notify ::
  "('n, 'e) service_notifier \<Rightarrow> ('n control_loop_heartbeat, 'e, unit) io" where
  "completed_control_cycle_notify N =
     try_io (\<lambda>hb. (Ok (clh_ready hb), hb)) (\<lambda>ready.
     try_io (when_io (\<not> ready)
       (try_io (on_notifier (notify N NotifyReady)) (\<lambda>_. modify_io (\<lambda>hb. hb\<lparr>clh_ready := True\<rparr>)))) (\<lambda>_.
       on_notifier (notify N NotifyWatchdog)))"

section \<open>One supervised iteration\<close>

datatype 'e supervised_control_iteration_error =
    IterationControl transient_sensor_control_error
  | IterationNotification 'e

definition on_heartbeat :: "('h, 'e, 'a) io \<Rightarrow> ('h \<times> 'w, 'e, 'a) io" where
  "on_heartbeat m hw = (case m (fst hw) of (r, h) \<Rightarrow> (r, (h, snd hw)))"

definition run_supervised_control_iteration ::
  "('p, 'l) platform_ops \<Rightarrow> ('p, 's) sample_sources \<Rightarrow> ('d, 'p, 's) sensor_source_discovery \<Rightarrow> ('n, 'e) service_notifier
     \<Rightarrow> ('n control_loop_heartbeat \<times> ('d, 's) transient_sensor_control \<times> ('p, 'l, 's) world,
         'e supervised_control_iteration_error, sensor_control_step) dio" where
  "run_supervised_control_iteration P S D N =
     try_dio (map_err_dio IterationControl (on_snd_dio (step P S D))) (\<lambda>done.
       total_io
         (try_io (when_io (case done of StepCompleted _ \<Rightarrow> True | _ \<Rightarrow> False)
            (map_err_io IterationNotification (on_heartbeat (completed_control_cycle_notify N)))) (\<lambda>_.
            return_io (Ok done))))"

section \<open>The sd\_notify transport\<close>

datatype io_error_kind = WriteZero | InvalidInput | OtherKind

datatype socket_addr = AbstractName string | Pathname string

record 'k systemd_notification_transport =
  snt_socket :: 'k
  snt_address :: socket_addr
  snt_watchdog_enabled :: bool

type_synonym 'k systemd_notifier = "'k systemd_notification_transport option"

definition is_enabled :: "'k systemd_notifier \<Rightarrow> bool" where
  "is_enabled n = (n \<noteq> None)"

text \<open>The constructors of \<open>SocketAddr\<close>: 108 bytes hold the address and the byte that starts or ends it.\<close>

definition from_abstract_name :: "string \<Rightarrow> (io_error_kind, socket_addr) outcome" where
  "from_abstract_name name = (if 108 < length name + 1 then Err InvalidInput else Ok (AbstractName name))"

definition from_pathname :: "string \<Rightarrow> (io_error_kind, socket_addr) outcome" where
  "from_pathname name =
     (if CHR 0x00 \<in> set name then Err InvalidInput
      else if 108 \<le> length name then Err InvalidInput
      else Ok (Pathname name))"

definition parse_notify_socket :: "string \<Rightarrow> (io_error_kind, socket_addr) outcome" where
  "parse_notify_socket value =
     (case value of
        c # name \<Rightarrow>
          if c = CHR ''@'' then
            if name = [] then Err InvalidInput else from_abstract_name name
          else if c \<noteq> CHR ''/'' then Err InvalidInput
          else from_pathname value
      | [] \<Rightarrow> Err InvalidInput)"

definition watchdog_enabled_for :: "string option \<Rightarrow> string option \<Rightarrow> u32 \<Rightarrow> bool" where
  "watchdog_enabled_for watchdog_usec watchdog_pid process_id =
     (let timeout_is_positive =
            (case Option.bind watchdog_usec (parse_unsigned 64) of None \<Rightarrow> False | Some value \<Rightarrow> 0 < value);
          addressed_to_process =
            (case watchdog_pid of
               None \<Rightarrow> True
             | Some value \<Rightarrow> map_option of_nat (parse_unsigned 32 value) = Some process_id)
      in timeout_is_positive \<and> addressed_to_process)"

definition systemd_connect ::
  "(io_error_kind, 'k) outcome \<Rightarrow> string \<Rightarrow> bool \<Rightarrow> (io_error_kind, 'k systemd_notifier) outcome" where
  "systemd_connect socket notify_socket watchdog_enabled =
     bind_ok (parse_notify_socket notify_socket) (\<lambda>address.
     bind_ok socket (\<lambda>k.
       Ok (Some \<lparr>snt_socket = k, snt_address = address, snt_watchdog_enabled = watchdog_enabled\<rparr>)))"

text \<open>The environment is a function from variable names; an unbound, non-blocking socket is the kernel's.\<close>

definition systemd_from_environment ::
  "(io_error_kind, 'k) outcome \<Rightarrow> (string \<Rightarrow> string option) \<Rightarrow> u32 \<Rightarrow> (io_error_kind, 'k systemd_notifier) outcome" where
  "systemd_from_environment socket env process_id =
     (case env ''NOTIFY_SOCKET'' of
        None \<Rightarrow> Ok None
      | Some notify_socket \<Rightarrow>
          systemd_connect socket notify_socket
            (watchdog_enabled_for (env ''WATCHDOG_USEC'') (env ''WATCHDOG_PID'') process_id))"

definition systemd_send ::
  "(string \<Rightarrow> socket_addr \<Rightarrow> ('k, io_error_kind, nat) io) \<Rightarrow> string \<Rightarrow> 'k systemd_notification_transport
     \<Rightarrow> ('k systemd_notifier, io_error_kind, unit) io" where
  "systemd_send send_to_addr payload transport =
     try_io (\<lambda>_. case send_to_addr payload (snt_address transport) (snt_socket transport) of
         (r, k) \<Rightarrow> (r, Some (transport\<lparr>snt_socket := k\<rparr>))) (\<lambda>sent.
       return_io (if sent \<noteq> length payload then Err WriteZero else Ok ()))"

definition systemd_notify ::
  "(string \<Rightarrow> socket_addr \<Rightarrow> ('k, io_error_kind, nat) io) \<Rightarrow> service_notification
     \<Rightarrow> ('k systemd_notifier, io_error_kind, unit) io" where
  "systemd_notify send_to_addr notification notifier =
     (case notifier of
        None \<Rightarrow> (Ok (), notifier)
      | Some transport \<Rightarrow>
          (case notification of
             NotifyReady \<Rightarrow> systemd_send send_to_addr ''READY=1'' transport notifier
           | NotifyWatchdog \<Rightarrow>
               if snt_watchdog_enabled transport then systemd_send send_to_addr ''WATCHDOG=1'' transport notifier
               else (Ok (), notifier)))"

definition systemd_service ::
  "(string \<Rightarrow> socket_addr \<Rightarrow> ('k, io_error_kind, nat) io) \<Rightarrow> ('k systemd_notifier, io_error_kind) service_notifier" where
  "systemd_service send_to_addr = \<lparr>notify = systemd_notify send_to_addr\<rparr>"

section \<open>A completed step\<close>

text \<open>What the control loop has achieved when a step reports a completed cycle.\<close>

definition in_control ::
  "('p \<Rightarrow> path \<Rightarrow> string option) \<Rightarrow> completed_control_cycle \<Rightarrow> ('d, 's) transient_sensor_control \<times> ('p, 'l, 's) world \<Rightarrow> bool" where
  "in_control content y tw \<longleftrightarrow>
     (\<exists>c s. tsc_state (fst tw) = Some (CustomState c s) \<and> control_is_current_for c (snd tw)
        \<and> cycle_applied (hc_device c) (ccc_outputs y) (content (platform (snd tw)))
        \<and> meets_demand (hc_config c) (ccc_sample y) (ccc_outputs y))"

lemma fault_yields:
  "yields (restore_for_recovery P config dev fault sources) (\<lambda>d. \<forall>y. d \<noteq> StepCompleted y)"
  "yields (latch_control_fault P dev error sources) (\<lambda>d. \<forall>y. d \<noteq> StepCompleted y)"
  unfolding restore_for_recovery_def latch_control_fault_def latch_with_def
  by (auto intro!: yields_try yields_return split: firmware_auto_safing_outcome.split)

context fan_platform
begin

lemma step_custom_completed:
  assumes "control_ok c" "sound (platform (snd tw))" "passive_sources sound content S" "typed_sources sound S"
  shows "wp (step_custom P S c s) (\<lambda>r tw'. \<forall>y. r = Ok (StepCompleted y) \<longrightarrow> in_control content y tw') tw"
proof -
  obtain t w where tw: "tw = (t, w)" by fastforce
  let ?w = "w\<lparr>source_state := s\<rparr>"
  have s: "sound (platform ?w)" using assms(2) by (simp add: tw)
  have run: "wp (lend c s (run_healthy_control_cycle P S)) (\<lambda>r tw'. \<forall>x c' s'. r = Ok (x, c', s') \<longrightarrow> (\<forall>y. x = Inr y \<longrightarrow>
       control_is_current_for c' (snd tw') \<and> cycle_applied (hc_device c') (ccc_outputs y) (content (platform (snd tw')))
       \<and> meets_demand (hc_config c') (ccc_sample y) (ccc_outputs y))) tw"
    using run_cycle_effect [OF assms(1) s assms(3,4), folded run_healthy_control_cycle_def]
    by (auto simp: tw wp_def lend_def cycle_completed_def split: prod.splits outcome.splits)
  have no: "wp m (\<lambda>r tw'. \<forall>y. r = Ok (StepCompleted y) \<longrightarrow> in_control content y tw') tw'"
    if "yields m (\<lambda>d. \<forall>y. d \<noteq> StepCompleted y)" for m tw'
    by (rule wp_mono [OF that [unfolded yields_def, rule_format]]) auto
  show ?thesis
    unfolding step_custom_def
  proof (rule wp_try [OF run], goal_cases)
    case (1 x tw')
    obtain r c' s' where x: "x = (r, c', s')" by (metis prod_cases3)
    show ?case
    proof (cases r)
      case (Inl e)
      show ?thesis
        unfolding x Inl prod.case sum.case
        by (rule no, cases "e = CycleShutdownRequested", simp_all add: latch_with_def)
          (auto intro!: yields_try yields_return fault_yields split: healthy_control_cycle_error.split option.split)
    next
      case (Inr y)
      then show ?thesis using 1 x by (auto simp: sensor_emits in_control_def)
    qed
  qed auto
qed

lemma step_completed:
  assumes "sensor_control_ok sound content tw" "passive_sources sound content S" "typed_sources sound S"
    "step P S D tw = Some (Ok (StepCompleted y), tw')"
  shows "in_control content y tw'"
proof -
  obtain st where st: "tsc_state (fst tw) = Some st" "state_ok content (snd tw) st" "sound (platform (snd tw))"
    using assms(1) by (auto simp: sensor_control_ok_def owner_safe_def)
  have "step P S D (fst tw, snd tw) = Some (Ok (StepCompleted y), (fst tw', snd tw'))" using assms(4) by simp
  from wlp_someD [OF step_refines [OF st(1)] this]
  have "state_of st = SensorCustomControl" by (auto simp: refined_def elim: sensor_move.cases)
  then obtain c s where c: "st = CustomState c s" by (cases st) auto
  let ?tw = "(fst tw\<lparr>tsc_state := None\<rparr>, snd tw)"
  have "step_custom P S c s ?tw = (Ok (StepCompleted y), tw')"
    using assms(4) st(1) unfolding c step_def take_state_def
    by (cases tw) (simp add: try_dio_def total_io_def try_io_def get_fst_def modify_fst_def return_io_def)
  moreover have "wp (step_custom P S c s) (\<lambda>r tw'. \<forall>y. r = Ok (StepCompleted y) \<longrightarrow> in_control content y tw') ?tw"
    using st c by (intro step_custom_completed assms) auto
  ultimately show ?thesis by (simp add: wp_def)
qed

end

section \<open>The notification protocol\<close>

text \<open>
  What a client of a notifier may rely on: a notification that is accepted adds the datagrams the
  notifier has for it, one that fails adds nothing, and what it says stays the same.
\<close>

locale notification_log =
  fixes N :: "('n, 'e) service_notifier" and sent :: "'n \<Rightarrow> string list" and says :: "'n \<Rightarrow> service_notification \<Rightarrow> string list"
  assumes notify_logged: "wp (notify N x) (\<lambda>r n'. r \<noteq> Panic \<and> says n' = says n
      \<and> sent n' = (if r = Ok () then sent n @ says n x else sent n)) n"
begin

definition announced :: "nat \<Rightarrow> 'n control_loop_heartbeat \<Rightarrow> bool" where
  "announced k hb \<longleftrightarrow> sent (clh_notifier hb) =
     (if clh_ready hb then says (clh_notifier hb) NotifyReady @ concat (replicate k (says (clh_notifier hb) NotifyWatchdog)) else [])"

lemma on_notifier_logged:
  "wp (on_notifier (notify N x)) (\<lambda>r hb'. r \<noteq> Panic \<and> clh_ready hb' = clh_ready hb \<and> says (clh_notifier hb') = says (clh_notifier hb)
      \<and> sent (clh_notifier hb') = (if r = Ok () then sent (clh_notifier hb) @ says (clh_notifier hb) x else sent (clh_notifier hb))) hb"
  using notify_logged [of x "clh_notifier hb"] by (auto simp: wp_def on_notifier_def split: prod.splits)

lemma concat_replicate_snoc: "concat (replicate k xs) @ xs = concat (replicate (Suc k) xs)"
  by (induction k) auto

lemma cycle_announced:
  assumes "announced k hb" "\<not> clh_ready hb \<longrightarrow> k = 0"
  shows "wp (completed_control_cycle_notify N) (\<lambda>r hb'. r \<noteq> Panic \<and> says (clh_notifier hb') = says (clh_notifier hb)
     \<and> (r = Ok () \<longrightarrow> clh_ready hb' \<and> announced (Suc k) hb') \<and> (r \<noteq> Ok () \<longrightarrow> announced k hb' \<and> (\<not> clh_ready hb' \<longrightarrow> k = 0))) hb"
proof -
  have dog: "wp (on_notifier (notify N NotifyWatchdog)) (\<lambda>r hb'. r \<noteq> Panic \<and> says (clh_notifier hb') = says (clh_notifier hb)
     \<and> (r = Ok () \<longrightarrow> clh_ready hb' \<and> announced (Suc k) hb') \<and> (r \<noteq> Ok () \<longrightarrow> announced k hb' \<and> (\<not> clh_ready hb' \<longrightarrow> k = 0))) hb'"
    if "announced k hb'" "clh_ready hb'" "says (clh_notifier hb') = says (clh_notifier hb)" for hb'
    by (rule wp_mono [OF on_notifier_logged]) (use that concat_replicate_snoc [of k] in \<open>auto simp: announced_def\<close>)
  show ?thesis
  proof (cases "clh_ready hb")
    case True
    then show ?thesis
      using dog [OF assms(1)] by (simp add: completed_control_cycle_notify_def when_io_def wp_try_io wp_return wp_def [of "\<lambda>hb. (Ok (clh_ready hb), hb)"])
  next
    case False
    then have "k = 0" "sent (clh_notifier hb) = []" using assms by (auto simp: announced_def)
    have rdy: "wp (try_io (on_notifier (notify N NotifyReady)) (\<lambda>_. modify_io (\<lambda>hb. hb\<lparr>clh_ready := True\<rparr>)))
        (\<lambda>r hb'. r \<noteq> Panic \<and> says (clh_notifier hb') = says (clh_notifier hb)
          \<and> (r = Ok () \<longrightarrow> clh_ready hb' \<and> announced 0 hb') \<and> (r \<noteq> Ok () \<longrightarrow> \<not> clh_ready hb' \<and> announced 0 hb')) hb"
      unfolding wp_try_io
      by (rule wp_mono [OF on_notifier_logged])
        (use False \<open>sent (clh_notifier hb) = []\<close> in \<open>auto simp: wp_modify_io announced_def split: outcome.split\<close>)
    show ?thesis
      using False \<open>k = 0\<close>
      by (simp add: completed_control_cycle_notify_def wp_try_io [of "\<lambda>hb. (Ok (clh_ready hb), hb)"]
          wp_def [of "\<lambda>hb. (Ok (clh_ready hb), hb)"] when_io_def)
        (rule wp_try [OF rdy], use dog in \<open>auto simp: \<open>k = 0\<close>\<close>)
  qed
qed

lemma iteration_announced:
  assumes "run_supervised_control_iteration P S D N (hb, tw) = Some (r, (hb', tw'))" "announced k hb" "\<not> clh_ready hb \<longrightarrow> k = 0"
  shows "\<exists>k'. announced k' hb' \<and> (\<not> clh_ready hb' \<longrightarrow> k' = 0) \<and> says (clh_notifier hb') = says (clh_notifier hb)
    \<and> k' = (case r of Ok (StepCompleted _) \<Rightarrow> Suc k | _ \<Rightarrow> k)"
proof -
  have noted: "wp (on_heartbeat (completed_control_cycle_notify N)) (\<lambda>r hw. r \<noteq> Panic \<and> says (clh_notifier (fst hw)) = says (clh_notifier hb)
     \<and> (r = Ok () \<longrightarrow> clh_ready (fst hw) \<and> announced (Suc k) (fst hw))
     \<and> (r \<noteq> Ok () \<longrightarrow> announced k (fst hw) \<and> (\<not> clh_ready (fst hw) \<longrightarrow> k = 0))) (hb, tw1)" for tw1
    using cycle_announced [OF assms(2,3)] by (auto simp: wp_def on_heartbeat_def split: prod.splits)
  have "wlp (run_supervised_control_iteration P S D N) (\<lambda>r hw. \<exists>k'. announced k' (fst hw) \<and> (\<not> clh_ready (fst hw) \<longrightarrow> k' = 0)
      \<and> says (clh_notifier (fst hw)) = says (clh_notifier hb) \<and> k' = (case r of Ok (StepCompleted _) \<Rightarrow> Suc k | _ \<Rightarrow> k)) (hb, tw)"
    unfolding run_supervised_control_iteration_def wlp_try_dio wlp_map_err_dio wlp_on_snd_dio fst_conv snd_conv
  proof (rule wlp_mono [of _ "\<lambda>_ _. True"], goal_cases)
    case (2 x tw1)
    show ?case
    proof (cases x)
      case (Ok d)
      show ?thesis
        unfolding Ok map_err_def outcome.case wlp_total wp_try_io [of "when_io _ _"]
        using assms(2,3)
        by (cases d) (auto simp: when_io_def wp_return wp_map_err_io intro!: wp_mono [OF noted] split: outcome.split)
    qed (use assms(2,3) in auto)
  qed (simp add: wlp_def split: option.split)
  from wlp_someD [OF this assms(1)] show ?thesis by simp
qed

end

section \<open>The transport on a datagram socket\<close>

text \<open>The documented behaviour of a datagram socket: a datagram is sent whole, or not at all.\<close>

definition datagram_socket :: "(string \<Rightarrow> socket_addr \<Rightarrow> ('k, io_error_kind, nat) io) \<Rightarrow> ('k \<Rightarrow> string list) \<Rightarrow> bool" where
  "datagram_socket send_to_addr datagrams \<longleftrightarrow>
     (\<forall>payload address k. wp (send_to_addr payload address) (\<lambda>r k'. r \<noteq> Panic
        \<and> (\<forall>n. r = Ok n \<longrightarrow> n = length payload \<and> datagrams k' = datagrams k @ [payload])
        \<and> (\<forall>e. r = Err e \<longrightarrow> datagrams k' = datagrams k)) k)"

definition systemd_sent :: "('k \<Rightarrow> string list) \<Rightarrow> 'k systemd_notifier \<Rightarrow> string list" where
  "systemd_sent datagrams n = (case n of None \<Rightarrow> [] | Some transport \<Rightarrow> datagrams (snt_socket transport))"

fun systemd_says :: "'k systemd_notifier \<Rightarrow> service_notification \<Rightarrow> string list" where
  "systemd_says None _ = []"
| "systemd_says (Some transport) NotifyReady = [''READY=1'']"
| "systemd_says (Some transport) NotifyWatchdog = (if snt_watchdog_enabled transport then [''WATCHDOG=1''] else [])"

lemma systemd_logs:
  assumes "datagram_socket send_to_addr datagrams"
  shows "notification_log (systemd_service send_to_addr) (systemd_sent datagrams) systemd_says"
proof
  fix x :: service_notification and n :: "'a systemd_notifier"
  have send: "wp (systemd_send send_to_addr payload transport) (\<lambda>r n'. r \<noteq> Panic \<and> systemd_says n' = systemd_says (Some transport)
      \<and> systemd_sent datagrams n' = (if r = Ok () then systemd_sent datagrams (Some transport) @ [payload]
          else systemd_sent datagrams (Some transport))) m" for payload transport m
  proof -
    have "systemd_says (Some (transport\<lparr>snt_socket := k\<rparr>)) y = systemd_says (Some transport) y" for k y by (cases y) simp_all
    then have says: "systemd_says (Some (transport\<lparr>snt_socket := k\<rparr>)) = systemd_says (Some transport)" for k by (rule ext)
    show ?thesis
      using assms [unfolded datagram_socket_def, rule_format, of payload "snt_address transport" "snt_socket transport"] says
      by (auto simp: systemd_send_def wp_def try_io_def return_io_def systemd_sent_def split: prod.splits outcome.splits)
  qed
  show "wp (notify (systemd_service send_to_addr) x) (\<lambda>r n'. r \<noteq> Panic \<and> systemd_says n' = systemd_says n
      \<and> systemd_sent datagrams n' = (if r = Ok () then systemd_sent datagrams n @ systemd_says n x else systemd_sent datagrams n)) n"
  proof (cases n)
    case None
    then show ?thesis by (simp add: systemd_service_def systemd_notify_def wp_def)
  next
    case (Some transport)
    show ?thesis
      using send [of "''READY=1''" transport n] send [of "''WATCHDOG=1''" transport n]
      by (cases x) (auto simp: Some systemd_service_def systemd_notify_def wp_def split: prod.splits)
  qed
qed

text \<open>A socket that records what it is given.\<close>

definition record_datagram :: "string \<Rightarrow> socket_addr \<Rightarrow> (string list, io_error_kind, nat) io" where
  "record_datagram payload address ds = (Ok (length payload), ds @ [payload])"

lemma record_datagram_socket: "datagram_socket record_datagram (\<lambda>ds. ds)"
  by (simp add: datagram_socket_def record_datagram_def wp_def)

interpretation recorded: notification_log "systemd_service record_datagram" "systemd_sent (\<lambda>ds. ds)" systemd_says
  by (rule systemd_logs [OF record_datagram_socket])

section \<open>Runs of the supervised loop\<close>

text \<open>Iterations from a start, with the number of completed cycles whose heartbeat was accepted.\<close>

inductive supervised_run ::
  "('p, 'l) platform_ops \<Rightarrow> ('p, 's) sample_sources \<Rightarrow> ('d, 'p, 's) sensor_source_discovery \<Rightarrow> ('n, 'e) service_notifier
     \<Rightarrow> 'n control_loop_heartbeat \<times> ('d, 's) transient_sensor_control \<times> ('p, 'l, 's) world \<Rightarrow> nat
     \<Rightarrow> 'n control_loop_heartbeat \<times> ('d, 's) transient_sensor_control \<times> ('p, 'l, 's) world \<Rightarrow> bool"
  for P S D N hw0 where
  idle: "supervised_run P S D N hw0 0 hw0"
| iterate: "supervised_run P S D N hw0 k hw \<Longrightarrow> run_supervised_control_iteration P S D N hw = Some (r, hw')
    \<Longrightarrow> supervised_run P S D N hw0 (case r of Ok (StepCompleted _) \<Rightarrow> Suc k | _ \<Rightarrow> k) hw'"

context notification_log
begin

lemma run_announced:
  assumes "supervised_run P S D N (heartbeat_new n0, tw0) k hw" "sent n0 = []"
  shows "announced k (fst hw) \<and> (\<not> clh_ready (fst hw) \<longrightarrow> k = 0) \<and> says (clh_notifier (fst hw)) = says n0"
  using assms(1)
proof induction
  case idle
  then show ?case using assms(2) by (simp add: announced_def heartbeat_new_def)
next
  case (iterate k hw r hw')
  from iteration_announced [of P S D "fst hw" "snd hw" r "fst hw'" "snd hw'" k] iterate show ?case by auto
qed

end

section \<open>A concrete iteration\<close>

definition custom_sensor_control :: "(unit, unit) transient_sensor_control" where
  "custom_sensor_control = \<lparr>tsc_authority = sample_authority 0, tsc_discovery = (), tsc_state = Some (CustomState sample_healthy ())\<rparr>"

definition recording_notifier :: "string list systemd_notifier" where
  "recording_notifier = Some \<lparr>snt_socket = [], snt_address = AbstractName ''notify'', snt_watchdog_enabled = True\<rparr>"

lemma custom_control_ok: "sensor_control_ok quiet file_contents (custom_sensor_control, custom_world)"
  using sample_control_ok custom_quiet sample_configs(2) [of 0] qualify_ok [OF sample_qualifies]
  by (simp add: sensor_control_ok_def custom_sensor_control_def authority_ok_def owner_safe_def sample_authority_def custom_world_def world_of_def)

lemma sample_completed:
  "\<exists>y tw'. step fake_ops cool_sources found_discovery (custom_sensor_control, custom_world) = Some (Ok (StepCompleted y), tw')"
proof -
  obtain y c' w' where run: "run_healthy_control_cycle fake_ops cool_sources (sample_healthy, custom_world) = (Ok y, (c', w'))"
    using sample_cycle by (auto simp: wp_def run_healthy_control_cycle_def split: prod.splits)
  have same: "custom_world\<lparr>source_state := ()\<rparr> = custom_world" by simp
  show ?thesis
    by (simp add: same run step_def try_dio_def total_io_def take_state_def try_io_def get_fst_def modify_fst_def return_io_def custom_sensor_control_def
        step_custom_def lend_def install_def)
qed

lemma sample_iteration:
  "\<exists>y tw'. run_supervised_control_iteration fake_ops cool_sources found_discovery (systemd_service record_datagram)
     (heartbeat_new recording_notifier, custom_sensor_control, custom_world)
     = Some (Ok (StepCompleted y), (\<lparr>clh_notifier = Some \<lparr>snt_socket = [''READY=1'', ''WATCHDOG=1''],
         snt_address = AbstractName ''notify'', snt_watchdog_enabled = True\<rparr>, clh_ready = True\<rparr>, tw'))"
proof -
  obtain y tw' where "step fake_ops cool_sources found_discovery (custom_sensor_control, custom_world) = Some (Ok (StepCompleted y), tw')"
    using sample_completed by blast
  then show ?thesis
    by (simp add: run_supervised_control_iteration_def try_dio_def map_err_dio_def on_snd_dio_def total_io_def try_io_def when_io_def
        map_err_io_def on_heartbeat_def completed_control_cycle_notify_def heartbeat_new_def on_notifier_def systemd_service_def
        systemd_notify_def recording_notifier_def systemd_send_def record_datagram_def return_io_def modify_io_def)
qed

section \<open>Properties\<close>

text \<open>
  C8. The heartbeat advances only in an iteration whose step completed a control cycle: then the
  control state is current, both fans of the device are in Custom with exactly the outputs of that
  cycle, and the outputs meet the demand of its sample. No other step, a recovery in Firmware Auto or
  a fault included, touches the notifier.
\<close>

theorem heartbeat_needs_control:
  assumes "fan_platform P sound content now" "passive_sources sound content S" "typed_sources sound S"
    "sensor_control_ok sound content tw"
    "run_supervised_control_iteration P S D N (hb, tw) = Some (r, (hb', tw'))" "hb' \<noteq> hb"
  shows "\<exists>y c s. (r = Ok (StepCompleted y) \<or> r = Panic \<or> (\<exists>e. r = Err (IterationNotification e)))
    \<and> tsc_state (fst tw') = Some (CustomState c s) \<and> control_is_current_for c (snd tw')
    \<and> cycle_applied (hc_device c) (ccc_outputs y) (content (platform (snd tw')))
    \<and> meets_demand (hc_config c) (ccc_sample y) (ccc_outputs y)"
proof -
  have "\<exists>y. step P S D tw = Some (Ok (StepCompleted y), tw') \<and> (r = Ok (StepCompleted y) \<or> r = Panic \<or> (\<exists>e. r = Err (IterationNotification e)))"
    using assms(5,6)
    by (auto simp: run_supervised_control_iteration_def try_dio_def map_err_dio_def on_snd_dio_def total_io_def try_io_def when_io_def
        map_err_io_def on_heartbeat_def return_io_def map_err_def
        split: option.splits prod.splits outcome.splits sensor_control_step.splits if_splits)
  then obtain y where y: "step P S D tw = Some (Ok (StepCompleted y), tw')"
    "r = Ok (StepCompleted y) \<or> r = Panic \<or> (\<exists>e. r = Err (IterationNotification e))" by blast
  from fan_platform.step_completed [OF assms(1,4,2,3) y(1)] y(2) show ?thesis
    unfolding in_control_def by blast
qed

theorem heartbeat_needs_control_witness:
  "\<exists>y c s hb' tw'. run_supervised_control_iteration fake_ops cool_sources found_discovery (systemd_service record_datagram)
       (heartbeat_new recording_notifier, custom_sensor_control, custom_world) = Some (Ok (StepCompleted y), (hb', tw'))
     \<and> tsc_state (fst tw') = Some (CustomState c s) \<and> control_is_current_for c (snd tw')"
proof -
  obtain y hb' tw' where run: "run_supervised_control_iteration fake_ops cool_sources found_discovery (systemd_service record_datagram)
       (heartbeat_new recording_notifier, custom_sensor_control, custom_world) = Some (Ok (StepCompleted y), (hb', tw'))" "clh_ready hb'"
    using sample_iteration by fastforce
  have "hb' \<noteq> heartbeat_new recording_notifier" using run(2) by (auto simp: heartbeat_new_def)
  from heartbeat_needs_control [OF fake.fan_platform_axioms constant_passive cool_typed custom_control_ok run(1) this] run(1)
  show ?thesis by blast
qed

text \<open>
  C27. Over any number of supervised iterations on a datagram socket, the service manager receives
  nothing before the first completed cycle; then it receives READY exactly once, followed by exactly
  one WATCHDOG for every iteration that completed a cycle and was acknowledged, if the watchdog is
  enabled, and none otherwise.
\<close>

theorem readiness_protocol:
  assumes "datagram_socket send_to_addr datagrams" "datagrams (snt_socket transport) = []"
    "supervised_run P S D (systemd_service send_to_addr) (heartbeat_new (Some transport), tw0) k (hb, tw)"
  shows "systemd_sent datagrams (clh_notifier hb) =
      (if clh_ready hb then ''READY=1'' # (if snt_watchdog_enabled transport then replicate k ''WATCHDOG=1'' else []) else [])
    \<and> (\<not> clh_ready hb \<longrightarrow> k = 0)"
proof -
  note l = systemd_logs [OF assms(1)]
  have "systemd_sent datagrams (Some transport) = []" using assms(2) by (simp add: systemd_sent_def)
  from notification_log.run_announced [OF l assms(3) this]
  have a: "notification_log.announced (systemd_sent datagrams) systemd_says k hb" "\<not> clh_ready hb \<longrightarrow> k = 0"
    "systemd_says (clh_notifier hb) = systemd_says (Some transport)" by auto
  have "concat (replicate k [x]) = replicate k x" "concat (replicate k []) = []" for x :: string by (induction k) auto
  then show ?thesis using a by (auto simp: notification_log.announced_def [OF l])
qed

theorem readiness_protocol_witness:
  "\<exists>tw. supervised_run fake_ops cool_sources found_discovery (systemd_service record_datagram)
      (heartbeat_new recording_notifier, custom_sensor_control, custom_world) 1
      (\<lparr>clh_notifier = Some \<lparr>snt_socket = [''READY=1'', ''WATCHDOG=1''], snt_address = AbstractName ''notify'',
          snt_watchdog_enabled = True\<rparr>, clh_ready = True\<rparr>, tw)
    \<and> systemd_sent (\<lambda>ds. ds) (Some \<lparr>snt_socket = [''READY=1'', ''WATCHDOG=1''], snt_address = AbstractName ''notify'',
          snt_watchdog_enabled = True\<rparr>) = [''READY=1'', ''WATCHDOG=1'']"
proof -
  obtain y tw where "run_supervised_control_iteration fake_ops cool_sources found_discovery (systemd_service record_datagram)
     (heartbeat_new recording_notifier, custom_sensor_control, custom_world)
     = Some (Ok (StepCompleted y), (\<lparr>clh_notifier = Some \<lparr>snt_socket = [''READY=1'', ''WATCHDOG=1''],
         snt_address = AbstractName ''notify'', snt_watchdog_enabled = True\<rparr>, clh_ready = True\<rparr>, tw))"
    using sample_iteration by blast
  from iterate [OF idle this]
  have run: "supervised_run fake_ops cool_sources found_discovery (systemd_service record_datagram)
      (heartbeat_new recording_notifier, custom_sensor_control, custom_world) 1
      (\<lparr>clh_notifier = Some \<lparr>snt_socket = [''READY=1'', ''WATCHDOG=1''], snt_address = AbstractName ''notify'',
          snt_watchdog_enabled = True\<rparr>, clh_ready = True\<rparr>, tw)" by simp
  have "systemd_sent (\<lambda>ds. ds) (Some \<lparr>snt_socket = [''READY=1'', ''WATCHDOG=1''], snt_address = AbstractName ''notify'',
      snt_watchdog_enabled = True\<rparr>) = [''READY=1'', ''WATCHDOG=1'']"
    using readiness_protocol [OF record_datagram_socket _ run [unfolded recording_notifier_def]] by simp
  with run show ?thesis by blast
qed

end
