(* ===== verification/Sensor_Files.thy ===== *)
theory Sensor_Files
  imports Fake
begin

text \<open>
  What the sensor code relies on from the file access it is given: reading changes nothing, a
  successful read returns the current contents, a successful listing the current entries.
\<close>

definition unchanged ::
  "('p \<Rightarrow> bool) \<Rightarrow> ('p \<Rightarrow> path \<Rightarrow> string option) \<Rightarrow> ('p \<Rightarrow> path \<Rightarrow> path list option) \<Rightarrow> 'p \<Rightarrow> 'p \<Rightarrow> bool" where
  "unchanged sound content listing p p' \<longleftrightarrow> sound p' \<and> content p' = content p \<and> listing p' = listing p"

locale sensor_files =
  fixes P :: "('p, 'l) platform_ops"
    and sound :: "'p \<Rightarrow> bool"
    and content :: "'p \<Rightarrow> path \<Rightarrow> string option"
    and listing :: "'p \<Rightarrow> path \<Rightarrow> path list option"
  assumes list_files: "sound p \<Longrightarrow> wp (list_op P dir) (\<lambda>r p'. r \<noteq> Panic \<and> unchanged sound content listing p p'
        \<and> (\<forall>xs. r = Ok xs \<longrightarrow> listing p dir = Some xs)) p"
    and read_files: "sound p \<Longrightarrow> wp (read_file_op P path) (\<lambda>r p'. r \<noteq> Panic \<and> unchanged sound content listing p p'
        \<and> (\<forall>v. r = Ok v \<longrightarrow> content p path = Some v)) p"
    and identity_files: "sound p \<Longrightarrow> wp (identity_op P path) (\<lambda>r p'. r \<noteq> Panic \<and> unchanged sound content listing p p') p"
    and read_bound_files: "sound p \<Longrightarrow> wp (read_bound_op P dir i child) (\<lambda>r p'. r \<noteq> Panic \<and> unchanged sound content listing p p'
        \<and> (\<forall>v. r = Ok v \<longrightarrow> (\<exists>name. single_normal_component child = Some name \<and> content p (join dir name) = Some v))) p"
    and list_bound_files: "sound p \<Longrightarrow> wp (list_bound_op P dir i) (\<lambda>r p'. r \<noteq> Panic \<and> unchanged sound content listing p p'
        \<and> (\<forall>xs. r = Ok xs \<longrightarrow> listing p dir = Some xs)) p"

section \<open>The scripted platform\<close>

definition fake_listing :: "fake_platform \<Rightarrow> path \<Rightarrow> path list option" where
  "fake_listing p dir = (case list_directory dir p of Ok xs \<Rightarrow> Some xs | _ \<Rightarrow> None)"

lemma quiet_apply_step:
  assumes "quiet_step st" "quiet p"
  shows "same_files p (snd (apply_step st p))"
  using assms duration_saturating_add_ge [of "monotonic_time p"] saturating_add_max [of "monotonic_time p"]
  by (cases st) (auto simp: same_files_def quiet_def)

lemma quiet_file_step: "quiet p \<Longrightarrow> wp apply_next_file_step (\<lambda>r p'. r \<noteq> Panic \<and> same_files p p') p"
proof -
  assume q: "quiet p"
  have fs: "same_files p (snd (apply_step st q'))" "fst (apply_step st q') \<noteq> Panic"
    if "quiet_step st" "quiet q'" "same_files p q'" for st q'
    using quiet_apply_step [OF that(1,2)] that(3) apply_step_no_panic [of st q'] by (auto simp: same_files_def)
  have "quiet (p\<lparr>file_steps := ss\<rparr>)" "same_files p (p\<lparr>file_steps := ss\<rparr>)" if "file_steps p = s # ss" for s ss
    using q that by (auto simp: quiet_def same_files_def)
  moreover have "quiet (p\<lparr>steps := ss\<rparr>)" "same_files p (p\<lparr>steps := ss\<rparr>)" if "steps p = s # ss" for s ss
    using q that by (auto simp: quiet_def same_files_def)
  ultimately show ?thesis
    using q fs by (auto simp: wp_def apply_next_file_step_def apply_next_step_def quiet_def same_files_refl split_beta split: list.split)
qed

lemma same_files_unchanged: "same_files p p' \<Longrightarrow> unchanged quiet file_contents fake_listing p p'"
  by (simp add: unchanged_def same_files_contents) (auto simp: same_files_def fake_listing_def list_directory_def)

lemma fake_listing_operations [simp]: "fake_listing (p\<lparr>operations := ops\<rparr>) = fake_listing p"
  by (rule ext) (simp add: fake_listing_def list_directory_def)

lemma file_step_unchanged:
  "quiet p \<Longrightarrow> wp apply_next_file_step (\<lambda>r p'. r \<noteq> Panic \<and> unchanged quiet file_contents fake_listing p p') p"
  by (rule wp_mono [OF quiet_file_step]) (auto intro: same_files_unchanged)

interpretation fake: sensor_files fake_ops quiet file_contents fake_listing
proof
  note defs = fake_ops_def fake_list_def fake_read_def fake_identity_def fake_read_bound_def fake_list_bound_def
    log_operation_def inspect_io_def
  have rd: "file_contents p path = Some v" if "read_file path p' = Ok v" "file_contents p' = file_contents p" for path p p' v
    using read_file_contents [OF that(1)] that(2) by simp
  have ls: "fake_listing p dir = Some xs" if "list_directory dir p' = Ok xs" "fake_listing p' = fake_listing p" for dir p p' xs
    using that by (metis fake_listing_def outcome.case(1))
  fix p :: fake_platform and dir path :: path and i :: file_identity and child :: string
  assume q: "quiet p"
  have st: "wp apply_next_file_step (\<lambda>r p'. r \<noteq> Panic \<and> unchanged quiet file_contents fake_listing p p') (p\<lparr>operations := ops\<rparr>)" for ops
    by (rule wp_mono [OF file_step_unchanged]) (use q in \<open>auto simp: unchanged_def\<close>)
  show "wp (list_op fake_ops dir) (\<lambda>r p'. r \<noteq> Panic \<and> unchanged quiet file_contents fake_listing p p'
        \<and> (\<forall>xs. r = Ok xs \<longrightarrow> fake_listing p dir = Some xs)) p"
    by (auto simp: defs io_simps wp_def [of "\<lambda>s. (_ s, s)"] intro!: wp_mono [OF st] intro: ls simp: unchanged_def split: outcome.splits)
  show "wp (read_file_op fake_ops path) (\<lambda>r p'. r \<noteq> Panic \<and> unchanged quiet file_contents fake_listing p p'
        \<and> (\<forall>v. r = Ok v \<longrightarrow> file_contents p path = Some v)) p"
    by (auto simp: defs io_simps wp_def [of "\<lambda>s. (_ s, s)"] intro!: wp_mono [OF st] intro: rd simp: unchanged_def split: outcome.splits)
  show "wp (identity_op fake_ops path) (\<lambda>r p'. r \<noteq> Panic \<and> unchanged quiet file_contents fake_listing p p') p"
    by (auto simp: defs io_simps wp_def [of "\<lambda>s. (_ s, s)"] intro!: wp_mono [OF st] simp: unchanged_def split: outcome.splits)
  show "wp (read_bound_op fake_ops dir i child) (\<lambda>r p'. r \<noteq> Panic \<and> unchanged quiet file_contents fake_listing p p'
        \<and> (\<forall>v. r = Ok v \<longrightarrow> (\<exists>name. single_normal_component child = Some name \<and> file_contents p (join dir name) = Some v))) p"
    by (cases "single_normal_component child")
      (use q in \<open>auto simp: defs io_simps wp_def [of "\<lambda>s. (_ s, s)"] intro!: wp_mono [OF st] intro: rd
        simp: unchanged_def split: outcome.splits\<close>)
  show "wp (list_bound_op fake_ops dir i) (\<lambda>r p'. r \<noteq> Panic \<and> unchanged quiet file_contents fake_listing p p'
        \<and> (\<forall>xs. r = Ok xs \<longrightarrow> fake_listing p dir = Some xs)) p"
    by (auto simp: defs io_simps wp_def [of "\<lambda>s. (_ s, s)"] intro!: wp_mono [OF st] intro: ls simp: unchanged_def split: outcome.splits)
qed

end
