(* ===== verification/External_Power.thy ===== *)
theory External_Power
  imports Sensor_Files Output
begin

text \<open>
  The external-power observation (\<open>fan-control-core/src/external_power.rs\<close>). A \<open>BTreeMap\<close> is the list
  of its entries in key order; a function that returns an \<open>Option\<close> has the error \<open>()\<close> for \<open>None\<close>.
\<close>

section \<open>Observation\<close>

definition mains_type :: string where "mains_type = ''Mains'' @ [CHR 10]"

definition battery_type :: string where "battery_type = ''Battery'' @ [CHR 10]"

definition online_payload :: string where "online_payload = ''1'' @ [CHR 10]"

definition offline_payload :: string where "offline_payload = ''0'' @ [CHR 10]"

fun btree_insert :: "'k::linorder \<Rightarrow> 'v \<Rightarrow> ('k \<times> 'v) list \<Rightarrow> ('k \<times> 'v) list" where
  "btree_insert k v [] = [(k, v)]"
| "btree_insert k v ((k', v') # m) =
     (if k < k' then (k, v) # (k', v') # m else if k = k' then (k, v) # m else (k', v') # btree_insert k v m)"

definition ok_io :: "('s, 'e, 'a) io \<Rightarrow> ('s, unit, 'a) io" where
  "ok_io m = map_err_io (\<lambda>_. ()) m"

fun observe_candidates ::
  "('p, 'l) platform_ops \<Rightarrow> path \<Rightarrow> path list \<Rightarrow> path list \<Rightarrow> (path \<times> bool) list \<Rightarrow> ('p, unit, (path \<times> bool) list) io" where
  "observe_candidates P power_supply_root [] seen mains = return_io (Ok mains)"
| "observe_candidates P power_supply_root (candidate # rest) seen mains =
     (if parent candidate \<noteq> Some power_supply_root \<or> file_name candidate = None \<or> candidate \<in> set seen then return_io (Err ())
      else
        try_io (ok_io (read_file_op P (join candidate ''type''))) (\<lambda>kind.
          if kind = battery_type then observe_candidates P power_supply_root rest (candidate # seen) mains
          else if kind = mains_type then
            try_io (ok_io (read_file_op P (join candidate ''online''))) (\<lambda>payload.
            try_io (return_io
              (if payload = online_payload then Ok True
               else if payload = offline_payload then Ok False
               else Err ())) (\<lambda>online.
              observe_candidates P power_supply_root rest (candidate # seen) (btree_insert candidate online mains)))
          else return_io (Err ())))"

definition observe_mains ::
  "('p, 'l) platform_ops \<Rightarrow> path \<Rightarrow> ('p, unit, (path \<times> bool) list) io" where
  "observe_mains P power_supply_root =
     try_io (ok_io (list_op P power_supply_root)) (\<lambda>candidates.
     try_io (observe_candidates P power_supply_root candidates [] []) (\<lambda>mains.
       return_io (if mains \<noteq> [] then Ok mains else Err ())))"

definition observe_external_power ::
  "('p, 'l) platform_ops \<Rightarrow> path \<Rightarrow> ('p, 'e, external_power) io" where
  "observe_external_power P power_supply_root =
     try_io (catch_io (observe_mains P power_supply_root)) (\<lambda>first.
       case first of
         Inl _ \<Rightarrow> return_io (Ok Unknown)
       | Inr first \<Rightarrow>
           try_io (catch_io (observe_mains P power_supply_root)) (\<lambda>second.
             case second of
               Inl _ \<Rightarrow> return_io (Ok Unknown)
             | Inr second \<Rightarrow>
                 return_io (Ok
                   (if first \<noteq> second then Unknown
                    else if list_all (\<lambda>(_, online). online) first then Connected
                    else if list_all (\<lambda>(_, online). \<not> online) first then Disconnected
                    else Unknown))))"

section \<open>What the files say\<close>

definition online_text :: "bool \<Rightarrow> string" where
  "online_text b = (if b then online_payload else offline_payload)"

text \<open>Every supply is a battery or mains whose state is this one, and there is mains.\<close>

definition power_supplies :: "(path \<Rightarrow> string option) \<Rightarrow> path \<Rightarrow> path list \<Rightarrow> bool \<Rightarrow> bool" where
  "power_supplies c dir xs b \<longleftrightarrow> distinct xs
     \<and> (\<forall>x \<in> set xs. parent x = Some dir \<and> (c (join x ''type'') = Some battery_type
          \<or> c (join x ''type'') = Some mains_type \<and> c (join x ''online'') = Some (online_text b)))
     \<and> (\<exists>x \<in> set xs. c (join x ''type'') = Some mains_type)"

lemma wp_ok_io: "wp (ok_io m) Q s = wp m (\<lambda>r. Q (map_err (\<lambda>_. ()) r)) s"
  by (simp add: ok_io_def wp_map_err_io)

lemma btree_insert_set:
  assumes "k \<notin> fst ` set m"
  shows "set (btree_insert k v m) = insert (k, v) (set m)"
  using assms by (induction k v m rule: btree_insert.induct) auto

lemma payloads_differ: "battery_type \<noteq> mains_type" "online_payload \<noteq> offline_payload"
  by (simp_all add: battery_type_def mains_type_def online_payload_def offline_payload_def)

definition mains_seen :: "(path \<Rightarrow> string option) \<Rightarrow> path \<Rightarrow> path list \<Rightarrow> (path \<times> bool) list \<Rightarrow> bool" where
  "mains_seen c dir xs mains \<longleftrightarrow> distinct xs
     \<and> (\<forall>x \<in> set xs. parent x = Some dir
          \<and> (c (join x ''type'') = Some battery_type \<and> x \<notin> fst ` set mains
             \<or> c (join x ''type'') = Some mains_type \<and> (\<exists>b. (x, b) \<in> set mains \<and> c (join x ''online'') = Some (online_text b))))
     \<and> fst ` set mains \<subseteq> set xs"

lemma mains_seen_battery:
  assumes "mains_seen c dir xs mains" "x \<notin> set xs" "parent x = Some dir" "c (join x ''type'') = Some battery_type"
  shows "mains_seen c dir (x # xs) mains"
  using assms by (auto simp: mains_seen_def)

lemma mains_seen_mains:
  assumes "mains_seen c dir xs mains" "x \<notin> set xs" "parent x = Some dir" "c (join x ''type'') = Some mains_type"
    "c (join x ''online'') = Some (online_text b)"
  shows "mains_seen c dir (x # xs) (btree_insert x b mains)"
proof -
  have "x \<notin> fst ` set mains" using assms(1,2) by (auto simp: mains_seen_def)
  from btree_insert_set [OF this] assms show ?thesis by (auto simp: mains_seen_def)
qed

lemma mains_seen_decides:
  assumes "mains_seen c dir xs mains" "set xs = set ys" "distinct ys" "mains \<noteq> []" "list_all (\<lambda>(_, online). online = b) mains"
  shows "power_supplies c dir ys b"
proof -
  obtain x where x: "x \<in> fst ` set mains" using assms(4) by (cases mains) auto
  then have xs: "x \<in> set xs" using assms(1) unfolding mains_seen_def by blast
  then have t: "c (join x ''type'') = Some mains_type" using assms(1) x unfolding mains_seen_def by blast
  have b: "b'' = b" if "(y, b'') \<in> set mains" for y b'' using assms(5) that by (auto simp: list_all_iff)
  have "parent y = Some dir \<and> (c (join y ''type'') = Some battery_type
          \<or> c (join y ''type'') = Some mains_type \<and> c (join y ''online'') = Some (online_text b))" if "y \<in> set xs" for y
    using assms(1) that b unfolding mains_seen_def by blast
  then show ?thesis using assms(2,3) xs t unfolding power_supplies_def by blast
qed

context sensor_files
begin

abbreviation same :: "'p \<Rightarrow> 'p \<Rightarrow> bool" where
  "same \<equiv> unchanged sound content listing"

lemma candidates_observed:
  assumes "sound p" "mains_seen (content p) dir seen mains"
  shows "wp (observe_candidates P dir cs seen mains) (\<lambda>r p'. r \<noteq> Panic \<and> same p p'
     \<and> (\<forall>m. r = Ok m \<longrightarrow> (\<exists>xs. mains_seen (content p) dir xs m \<and> set xs = set seen \<union> set cs) \<and> distinct cs \<and> set seen \<inter> set cs = {})) p"
  using assms
proof (induction cs arbitrary: seen mains p)
  case Nil
  then show ?case by (auto simp: wp_return unchanged_def)
next
  case (Cons x cs)
  show ?case
  proof (cases "parent x \<noteq> Some dir \<or> file_name x = None \<or> x \<in> set seen")
    case True
    then show ?thesis using Cons.prems by (simp add: wp_return unchanged_def)
  next
    case False
    let ?Q = "\<lambda>r p'. r \<noteq> Panic \<and> same p p' \<and> (\<forall>m. r = Ok m \<longrightarrow>
       (\<exists>xs. mains_seen (content p) dir xs m \<and> set xs = set seen \<union> set (x # cs)) \<and> distinct (x # cs) \<and> set seen \<inter> set (x # cs) = {})"
    have next_one: "wp (observe_candidates P dir cs (x # seen) m') ?Q q"
      if "same p q" "mains_seen (content p) dir (x # seen) m'" for q m'
    proof -
      have "sound q" "mains_seen (content q) dir (x # seen) m'" using that by (auto simp: unchanged_def)
      from Cons.IH [OF this] show ?thesis
        by (rule wp_mono) (use that(1) False in \<open>auto simp: unchanged_def\<close>)
    qed
    have online: "wp (try_io (ok_io (read_file_op P (join x ''online''))) (\<lambda>payload.
        try_io (return_io (if payload = online_payload then Ok True else if payload = offline_payload then Ok False else Err ())) (\<lambda>online.
          observe_candidates P dir cs (x # seen) (btree_insert x online mains)))) ?Q q"
      if q: "same p q" "content p (join x ''type'') = Some mains_type" for q
    proof -
      have s: "sound q" using q by (simp add: unchanged_def)
      have m: "mains_seen (content p) dir (x # seen) (btree_insert x b mains)" if "content p (join x ''online'') = Some (online_text b)" for b
        using mains_seen_mains [OF Cons.prems(2) _ _ q(2) that] False by simp
      show ?thesis
        unfolding wp_try_io [of "ok_io _"] wp_ok_io
      proof (rule wp_mono [OF read_files [OF s]], goal_cases)
        case (1 r q')
        then have q': "same p q'" "\<forall>v. r = Ok v \<longrightarrow> content p (join x ''online'') = Some v" using q(1) by (auto simp: unchanged_def)
        have "wp (observe_candidates P dir cs (x # seen) (btree_insert x b mains)) ?Q q'" if "r = Ok (online_text b)" for b
          using q' that by (intro next_one m) auto
        from this [of True] this [of False] 1 q'(1) show ?case
          by (cases r) (auto simp: wp_try_io [of "return_io _"] wp_return online_text_def payloads_differ)
      qed
    qed
    show ?thesis
      unfolding observe_candidates.simps if_not_P [OF False] wp_try_io [of "ok_io _"] wp_ok_io
    proof (rule wp_mono [OF read_files [OF Cons.prems(1)]], goal_cases)
      case (1 r q)
      have b: "mains_seen (content p) dir (x # seen) mains" if "content p (join x ''type'') = Some battery_type"
        using mains_seen_battery [OF Cons.prems(2) _ _ that] False by simp
      show ?case
        by (cases r) (use 1 b online next_one in \<open>auto simp: wp_return\<close>)
    qed
  qed
qed

lemma mains_observed:
  assumes "sound p"
  shows "wp (observe_mains P dir) (\<lambda>r p'. r \<noteq> Panic \<and> same p p' \<and> (\<forall>m b. r = Ok m \<longrightarrow> list_all (\<lambda>(_, online). online = b) m
     \<longrightarrow> (\<exists>xs. listing p dir = Some xs \<and> power_supplies (content p) dir xs b))) p"
  unfolding observe_mains_def wp_try_io [of "ok_io _"] wp_ok_io
proof (rule wp_mono [OF list_files [OF assms]], goal_cases)
  case (1 r q)
  show ?case
  proof (cases r)
    case (Ok cs)
    have q: "sound q" "mains_seen (content q) dir [] []" using 1 by (auto simp: unchanged_def mains_seen_def)
    show ?thesis
      unfolding Ok map_err_def outcome.case wp_try_io
      by (rule wp_mono [OF candidates_observed [OF q, of cs]])
        (use 1 Ok in \<open>auto simp: wp_return unchanged_def split: outcome.split\<close>, blast intro: mains_seen_decides)
  qed (use 1 in auto)
qed

lemma power_observed:
  assumes "sound p"
  shows "wp (observe_external_power P dir) (\<lambda>r p'. \<exists>power. r = Ok power \<and> same p p'
    \<and> (power = Connected \<longrightarrow> (\<exists>xs. listing p dir = Some xs \<and> power_supplies (content p) dir xs True))
    \<and> (power = Disconnected \<longrightarrow> (\<exists>xs. listing p dir = Some xs \<and> power_supplies (content p) dir xs False))) p"
  unfolding observe_external_power_def wp_try_io [of "catch_io _"] wp_catch_io
proof (rule wp_mono [OF mains_observed [OF assms]], goal_cases)
  case (1 r q)
  then have q: "sound q" "same p q" by (auto simp: unchanged_def)
  show ?case
  proof (cases r)
    case (Ok m)
    have dec: "list_all (\<lambda>(_, online). online = True) m = list_all (\<lambda>(_, online). online) m"
      "list_all (\<lambda>(_, online). online = False) m = list_all (\<lambda>(_, online). \<not> online) m" by (simp_all add: list_all_iff)
    show ?thesis
      unfolding Ok outcome.case sum.case wp_try_io [of "catch_io _"] wp_catch_io
      by (rule wp_mono [OF mains_observed [OF q(1)]])
        (use 1 Ok q(2) dec in \<open>auto simp: wp_return unchanged_def split: outcome.split\<close>)
  qed (use 1 q in \<open>auto simp: wp_return\<close>)
qed

end

section \<open>A concrete machine\<close>

definition power_root :: path where "power_root = [''sys'', ''class'', ''power_supply'']"

definition power_platform :: fake_platform where
  "power_platform = fake_new\<lparr>
     files := [(join (join power_root ''AC'') ''type'', \<lparr>ff_contents = mains_type, ff_permissions = permissions_read_only, ff_root_owned = True\<rparr>),
               (join (join power_root ''AC'') ''online'', \<lparr>ff_contents = online_payload, ff_permissions = permissions_read_only, ff_root_owned = True\<rparr>)],
     directories := [power_root, join power_root ''AC'']\<rparr>"

lemma power_quiet: "quiet power_platform"
  by (simp add: quiet_def power_platform_def fake_new_def)

lemma power_connected:
  "fst (observe_external_power fake_ops power_root power_platform :: (unit, external_power) outcome \<times> fake_platform) = Ok Connected"
  by code_simp

section \<open>Property\<close>




end
