(* ===== verification/Coretemp.thy ===== *)
theory Coretemp
  imports Sensor_Files Config
begin

text \<open>
  The CPU temperature source (\<open>fan-control-core/src/coretemp.rs\<close>): discovery of the one coretemp
  device and its channels, and a sample of all of them. The reasons of the errors are the code's.
\<close>

section \<open>Data\<close>

definition coretemp_name_payload :: string where "coretemp_name_payload = ''coretemp'' @ [CHR 10]"

definition min_documented_tjmax_millicelsius :: int where "min_documented_tjmax_millicelsius = 70000"

definition max_documented_tjmax_millicelsius :: int where "max_documented_tjmax_millicelsius = 125000"

record coretemp_channel =
  ct_index :: string
  ct_label :: string
  ct_is_package :: bool

definition channel_file :: "coretemp_channel \<Rightarrow> string \<Rightarrow> string" where
  "channel_file channel suffix = ''temp'' @ ct_index channel @ ''_'' @ suffix"

definition channel_path :: "coretemp_channel \<Rightarrow> path \<Rightarrow> string \<Rightarrow> path" where
  "channel_path channel dir suffix = join dir (channel_file channel suffix)"

record coretemp_device =
  ctd_hwmon_root :: path
  ctd_root :: path
  ctd_backing_identity :: file_identity
  ctd_channels :: "coretemp_channel list"

datatype coretemp_error =
    CoretempPlatform platform_error
  | CoretempNoDevice
  | CoretempAmbiguousDevices nat
  | CoretempMissingPackageChannel
  | CoretempInvalidAbi path string
  | CoretempInvalidSample path string

definition coretemp_io :: "('p, platform_error, 'a) io \<Rightarrow> ('p, coretemp_error, 'a) io" where
  "coretemp_io m = map_err_io CoretempPlatform m"

section \<open>Pure checks\<close>

definition valid_positive_decimal :: "string \<Rightarrow> bool" where
  "valid_positive_decimal index =
     (index \<noteq> [] \<and> is_ascii_digit (hd index) \<and> hd index \<noteq> CHR ''0'' \<and> list_all is_ascii_digit index)"

definition valid_positive_decimal_with_zero :: "string \<Rightarrow> bool" where
  "valid_positive_decimal_with_zero index = (index = ''0'' \<or> valid_positive_decimal index)"

definition strip_prefix :: "string \<Rightarrow> string \<Rightarrow> string option" where
  "strip_prefix prefix s = (if take (length prefix) s = prefix then Some (drop (length prefix) s) else None)"

definition strip_newline :: "string \<Rightarrow> string option" where
  "strip_newline s = (if s \<noteq> [] \<and> last s = CHR 10 then Some (butlast s) else None)"

definition coretemp_validate_hwmon_entry :: "path \<Rightarrow> path \<Rightarrow> (coretemp_error, unit) outcome" where
  "coretemp_validate_hwmon_entry hwmon_root path =
     (if parent path \<noteq> Some hwmon_root then Err (CoretempInvalidAbi path ''hwmon candidate is not a direct child'')
      else
        (let valid = (case Option.bind (file_name path) (strip_prefix ''hwmon'') of
                        None \<Rightarrow> False
                      | Some index \<Rightarrow> valid_positive_decimal_with_zero index)
         in if \<not> valid then Err (CoretempInvalidAbi path ''malformed hwmon candidate name'') else Ok ()))"

text \<open>\<open>Path::new(name)\<close> of the error is the name itself, a relative path of one component.\<close>

definition temperature_label_index :: "string \<Rightarrow> (coretemp_error, string option) outcome" where
  "temperature_label_index name =
     (if take 4 name \<noteq> ''temp'' \<or> length name < 6 \<or> drop (length name - 6) name \<noteq> ''_label'' then Ok None
      else
        (let index = take (length name - 10) (drop 4 name)
         in if \<not> valid_positive_decimal index
            then Err (CoretempInvalidAbi [name] ''malformed temperature label filename'')
            else Ok (Some index)))"

definition selected_label :: "string \<Rightarrow> path \<Rightarrow> (coretemp_error, (string \<times> bool) option) outcome" where
  "selected_label payload path =
     (case strip_newline payload of
        None \<Rightarrow> Err (CoretempInvalidAbi path ''channel label must end with one newline'')
      | Some label \<Rightarrow>
          if CHR 10 \<in> set label then Err (CoretempInvalidAbi path ''channel label contains an embedded newline'')
          else
            (case strip_prefix ''Package id '' label of
               Some identifier \<Rightarrow>
                 if \<not> valid_positive_decimal_with_zero identifier
                 then Err (CoretempInvalidAbi path ''malformed package/core channel label'')
                 else Ok (Some (label, True))
             | None \<Rightarrow>
                 (case strip_prefix ''Core '' label of
                    Some identifier \<Rightarrow>
                      if \<not> valid_positive_decimal_with_zero identifier
                      then Err (CoretempInvalidAbi path ''malformed package/core channel label'')
                      else Ok (Some (label, False))
                  | None \<Rightarrow> Ok None)))"

definition coretemp_parse_number :: "string \<Rightarrow> path \<Rightarrow> (coretemp_error, int) outcome" where
  "coretemp_parse_number payload path =
     (case strip_newline payload of
        None \<Rightarrow> Err (CoretempInvalidSample path ''numeric input must end with one newline'')
      | Some number \<Rightarrow>
          if number = [] \<or> \<not> list_all is_ascii_digit number \<or> CHR 10 \<in> set number
          then Err (CoretempInvalidSample path ''numeric input is malformed'')
          else if dec_value number < 2 ^ 63 then Ok (int (dec_value number))
          else Err (CoretempInvalidSample path ''numeric input is outside the supported integer range''))"

section \<open>Discovery\<close>

fun coretemp_candidates ::
  "('p, 'l) platform_ops \<Rightarrow> path \<Rightarrow> path list \<Rightarrow> (path \<times> file_identity) list
     \<Rightarrow> ('p, coretemp_error, (path \<times> file_identity) list) io" where
  "coretemp_candidates P hwmon_root [] found = return_io (Ok found)"
| "coretemp_candidates P hwmon_root (candidate # rest) found =
     try_io (return_io (coretemp_validate_hwmon_entry hwmon_root candidate)) (\<lambda>_.
     try_io (coretemp_io (identity_op P candidate)) (\<lambda>identity.
     try_io (coretemp_io (read_bound_op P candidate identity ''name'')) (\<lambda>name.
       coretemp_candidates P hwmon_root rest
         (if name = coretemp_name_payload then found @ [(candidate, identity)] else found))))"

definition unique_coretemp ::
  "('p, 'l) platform_ops \<Rightarrow> path \<Rightarrow> ('p, coretemp_error, path \<times> file_identity) io" where
  "unique_coretemp P hwmon_root =
     try_io (coretemp_io (list_op P hwmon_root)) (\<lambda>candidates.
     try_io (coretemp_candidates P hwmon_root candidates []) (\<lambda>found.
       return_io
         (case found of
            [] \<Rightarrow> Err CoretempNoDevice
          | [d] \<Rightarrow> Ok d
          | _ \<Rightarrow> Err (CoretempAmbiguousDevices (length found)))))"

fun scan_channels ::
  "('p, 'l) platform_ops \<Rightarrow> path \<Rightarrow> file_identity \<Rightarrow> path list \<Rightarrow> path list \<Rightarrow> string list \<Rightarrow> coretemp_channel list
     \<Rightarrow> ('p, coretemp_error, coretemp_channel list) io" where
  "scan_channels P dir identity [] seen labels channels = return_io (Ok channels)"
| "scan_channels P dir identity (entry # rest) seen labels channels =
     (if parent entry \<noteq> Some dir
      then return_io (Err (CoretempInvalidAbi dir (''channel entry is not a direct child: '' @ display_path entry)))
      else if entry \<in> set seen
      then return_io (Err (CoretempInvalidAbi dir (''duplicate channel entry: '' @ display_path entry)))
      else
        (case file_name entry of
           None \<Rightarrow> return_io (Err (CoretempInvalidAbi dir ''non-UTF-8 channel entry''))
         | Some name \<Rightarrow>
             try_io (return_io (temperature_label_index name)) (\<lambda>found.
               case found of
                 None \<Rightarrow> scan_channels P dir identity rest (entry # seen) labels channels
               | Some index \<Rightarrow>
                   try_io (coretemp_io (read_bound_op P dir identity name)) (\<lambda>payload.
                   try_io (return_io (selected_label payload entry)) (\<lambda>selected.
                     case selected of
                       None \<Rightarrow> scan_channels P dir identity rest (entry # seen) labels channels
                     | Some (label, is_package) \<Rightarrow>
                         if label \<in> set labels
                         then return_io (Err (CoretempInvalidAbi entry (''duplicate selected channel label '' @ label)))
                         else
                           scan_channels P dir identity rest (entry # seen) (label # labels)
                             (channels @ [\<lparr>ct_index = index, ct_label = label, ct_is_package = is_package\<rparr>]))))))"

definition discover_channels ::
  "('p, 'l) platform_ops \<Rightarrow> path \<Rightarrow> file_identity \<Rightarrow> ('p, coretemp_error, coretemp_channel list) io" where
  "discover_channels P dir identity =
     try_io (coretemp_io (list_bound_op P dir identity)) (\<lambda>entries.
     try_io (scan_channels P dir identity entries [] [] []) (\<lambda>channels.
       return_io
         (if \<not> list_ex ct_is_package channels then Err CoretempMissingPackageChannel
          else Ok (sort_key ct_label channels))))"

definition discover_coretemp ::
  "('p, 'l) platform_ops \<Rightarrow> path \<Rightarrow> ('p, coretemp_error, coretemp_device) io" where
  "discover_coretemp P hwmon_root =
     try_io (unique_coretemp P hwmon_root) (\<lambda>(dir, identity).
     try_io (discover_channels P dir identity) (\<lambda>channels.
     try_io (unique_coretemp P hwmon_root) (\<lambda>(final_dir, final_identity).
       if final_dir \<noteq> dir \<or> final_identity \<noteq> identity
       then return_io (Err (CoretempInvalidAbi dir ''coretemp backing device changed during discovery''))
       else
         try_io (discover_channels P dir identity) (\<lambda>final_channels.
           return_io
             (if final_channels \<noteq> channels
              then Err (CoretempInvalidAbi dir ''coretemp channel labels changed during discovery'')
              else Ok \<lparr>ctd_hwmon_root = hwmon_root, ctd_root = dir, ctd_backing_identity = identity, ctd_channels = channels\<rparr>)))))"

section \<open>Sampling\<close>

definition reject_asserted_optional_flag ::
  "('p, 'l) platform_ops \<Rightarrow> path \<Rightarrow> file_identity \<Rightarrow> coretemp_channel \<Rightarrow> string \<Rightarrow> string \<Rightarrow> ('p, coretemp_error, unit) io" where
  "reject_asserted_optional_flag P dir identity channel suffix description =
     (let path = channel_path channel dir suffix
      in try_io (catch_io (read_bound_op P dir identity (channel_file channel suffix))) (\<lambda>r.
           return_io
             (case r of
                Inr payload \<Rightarrow>
                  if payload = ''0'' @ [CHR 10] then Ok ()
                  else if payload = ''1'' @ [CHR 10] then Err (CoretempInvalidSample path (description @ '' is asserted''))
                  else Err (CoretempInvalidSample path (description @ '' is not a sysfs boolean''))
              | Inl error \<Rightarrow> if pe_kind error = NotFound then Ok () else Err (CoretempPlatform error))))"

definition millicelsius :: "int \<Rightarrow> string" where
  "millicelsius n = dec_string (nat n) @ '' mC''"

text \<open>The range and resolution checks, in the code's order.\<close>

definition check_channel_values :: "path \<Rightarrow> path \<Rightarrow> int \<Rightarrow> int \<Rightarrow> (coretemp_error, unit) outcome" where
  "check_channel_values input_path crit_path input tjmax =
     (if \<not> (min_documented_tjmax_millicelsius \<le> tjmax \<and> tjmax \<le> max_documented_tjmax_millicelsius)
      then Err (CoretempInvalidSample crit_path (''TjMax '' @ millicelsius tjmax @ '' is outside the documented coretemp range''))
      else if tjmax mod 1000 \<noteq> 0
      then Err (CoretempInvalidSample crit_path (''TjMax '' @ millicelsius tjmax @ '' does not match coretemp's 1 C resolution''))
      else if \<not> (0 \<le> input \<and> input \<le> tjmax)
      then Err (CoretempInvalidSample input_path
        (''temperature '' @ millicelsius input @ '' is outside 0..='' @ millicelsius tjmax))
      else if input mod 1000 \<noteq> 0
      then Err (CoretempInvalidSample input_path (''temperature '' @ millicelsius input @ '' does not match coretemp's 1 C resolution''))
      else Ok ())"

definition sample_channel ::
  "('p, 'l) platform_ops \<Rightarrow> path \<Rightarrow> file_identity \<Rightarrow> coretemp_channel \<Rightarrow> ('p, coretemp_error, int) io" where
  "sample_channel P dir identity channel =
     try_io (reject_asserted_optional_flag P dir identity channel ''fault'' ''fault'') (\<lambda>_.
     try_io (reject_asserted_optional_flag P dir identity channel ''crit_alarm'' ''critical alarm'') (\<lambda>_.
     try_io (coretemp_io (read_bound_op P dir identity (channel_file channel ''input''))) (\<lambda>raw_input.
     try_io (return_io (coretemp_parse_number raw_input (channel_path channel dir ''input''))) (\<lambda>input.
     try_io (coretemp_io (read_bound_op P dir identity (channel_file channel ''crit''))) (\<lambda>raw_crit.
     try_io (return_io (coretemp_parse_number raw_crit (channel_path channel dir ''crit''))) (\<lambda>tjmax.
     try_io (return_io (check_channel_values (channel_path channel dir ''input'') (channel_path channel dir ''crit'') input tjmax)) (\<lambda>_.
     try_io (reject_asserted_optional_flag P dir identity channel ''fault'' ''fault'') (\<lambda>_.
     try_io (reject_asserted_optional_flag P dir identity channel ''crit_alarm'' ''critical alarm'') (\<lambda>_.
       return_io (Ok input))))))))))"

fun sample_channels ::
  "('p, 'l) platform_ops \<Rightarrow> path \<Rightarrow> file_identity \<Rightarrow> coretemp_channel list \<Rightarrow> int option \<Rightarrow> ('p, coretemp_error, int option) io" where
  "sample_channels P dir identity [] hottest = return_io (Ok hottest)"
| "sample_channels P dir identity (channel # rest) hottest =
     try_io (sample_channel P dir identity channel) (\<lambda>value.
       sample_channels P dir identity rest (Some (case hottest of None \<Rightarrow> value | Some current \<Rightarrow> max current value)))"

definition coretemp_sample ::
  "('p, 'l) platform_ops \<Rightarrow> coretemp_device \<Rightarrow> ('p, coretemp_error, temperature_celsius) io" where
  "coretemp_sample P dev =
     try_io (discover_coretemp P (ctd_hwmon_root dev)) (\<lambda>before.
       if before \<noteq> dev
       then return_io (Err (CoretempInvalidAbi (ctd_root dev) ''coretemp identity or channel labels changed before sampling''))
       else
         try_io (sample_channels P (ctd_root dev) (ctd_backing_identity dev) (ctd_channels dev) None) (\<lambda>hottest.
         try_io (discover_coretemp P (ctd_hwmon_root dev)) (\<lambda>after.
           if after \<noteq> before
           then return_io (Err (CoretempInvalidAbi (ctd_root dev) ''coretemp identity or channel labels changed during sampling''))
           else
             return_io (bind_ok (expect hottest) (\<lambda>hottest.
               expect_ok (temperature_try_from (f64_div (f64_of_int hottest) (Fin 1000))))))))"

section \<open>What the files say\<close>

definition number_text :: "(path \<Rightarrow> string option) \<Rightarrow> path \<Rightarrow> int \<Rightarrow> bool" where
  "number_text c path v \<longleftrightarrow>
     (\<exists>ds. c path = Some (ds @ [CHR 10]) \<and> ds \<noteq> [] \<and> list_all is_ascii_digit ds \<and> v = int (dec_value ds))"

text \<open>The channel reads this whole number of degrees, no hotter than its documented maximum.\<close>

definition channel_reads :: "(path \<Rightarrow> string option) \<Rightarrow> path \<Rightarrow> coretemp_channel \<Rightarrow> int \<Rightarrow> bool" where
  "channel_reads c dir channel v \<longleftrightarrow> number_text c (channel_path channel dir ''input'') v \<and> v mod 1000 = 0 \<and> 0 \<le> v
     \<and> (\<exists>tjmax. number_text c (channel_path channel dir ''crit'') tjmax \<and> v \<le> tjmax \<and> tjmax \<le> 125000)"

definition hottest_channel :: "(path \<Rightarrow> string option) \<Rightarrow> path \<Rightarrow> coretemp_channel list \<Rightarrow> int \<Rightarrow> bool" where
  "hottest_channel c dir channels v \<longleftrightarrow>
     (\<forall>ch \<in> set channels. \<exists>u. channel_reads c dir ch u \<and> u \<le> v) \<and> (\<exists>ch \<in> set channels. channel_reads c dir ch v)"

definition channels_ok :: "coretemp_channel list \<Rightarrow> bool" where
  "channels_ok channels = list_all (\<lambda>ch. valid_positive_decimal (ct_index ch)) channels"

lemma single_component:
  assumes "CHR ''/'' \<notin> set s" "s \<noteq> []" "s \<noteq> ''.''" "s \<noteq> ''..''"
  shows "single_normal_component s = Some s"
proof -
  have "split_slash t = [t]" if "CHR ''/'' \<notin> set t" for t using that by (induction t) auto
  then show ?thesis using assms hd_in_set [OF assms(2)] by (auto simp: single_normal_component_def simp del: hd_in_set)
qed

lemma channel_file_component:
  assumes "valid_positive_decimal (ct_index ch)" "CHR ''/'' \<notin> set suffix"
  shows "single_normal_component (channel_file ch suffix) = Some (channel_file ch suffix)"
proof (rule single_component)
  have "\<not> is_ascii_digit CHR ''/''" by (simp add: is_ascii_digit_def)
  then show "CHR ''/'' \<notin> set (channel_file ch suffix)"
    using assms by (auto simp: channel_file_def valid_positive_decimal_def list_all_iff)
qed (simp_all add: channel_file_def)

lemma parse_number_Ok:
  "coretemp_parse_number raw path = Ok v \<Longrightarrow> c path' = Some raw \<Longrightarrow> number_text c path' v"
  by (auto simp: coretemp_parse_number_def strip_newline_def number_text_def split: if_splits intro!: exI [of _ "butlast raw"])
    (metis append_butlast_last_id)

lemma coretemp_pure_no_panic:
  "coretemp_parse_number raw path \<noteq> Panic" "selected_label raw path \<noteq> Panic" "temperature_label_index name \<noteq> Panic"
  "coretemp_validate_hwmon_entry dir path \<noteq> Panic" "check_channel_values a b x y \<noteq> Panic"
  by (auto simp: coretemp_parse_number_def selected_label_def temperature_label_index_def coretemp_validate_hwmon_entry_def
      check_channel_values_def Let_def split: option.split)

lemma millidegrees:
  assumes "0 \<le> k" "k \<le> 125"
  shows "temperature_try_from (f64_div (f64_of_int (1000 * k)) (Fin 1000)) = Ok (Fin (of_int k))"
proof -
  have "f64_of_int (1000 * k) = Fin (of_int (1000 * k))" "f64_of_int k = Fin (of_int k)"
    by (rule f64_of_small_int; use assms in simp)+
  then show ?thesis by (simp add: temperature_try_from_def f64_of_int_def is_finite_def)
qed

section \<open>Observing code\<close>

text \<open>Code that only observes files with these contents does not panic, and its result has this property.\<close>

definition observes ::
  "('p \<Rightarrow> bool) \<Rightarrow> ('p \<Rightarrow> path \<Rightarrow> string option) \<Rightarrow> (path \<Rightarrow> string option) \<Rightarrow> ('p, 'e, 'a) io \<Rightarrow> ('a \<Rightarrow> bool) \<Rightarrow> bool" where
  "observes sound content c m F \<longleftrightarrow> (\<forall>p. sound p \<longrightarrow> content p = c \<longrightarrow>
     wp m (\<lambda>r p'. r \<noteq> Panic \<and> sound p' \<and> content p' = c \<and> (\<forall>y. r = Ok y \<longrightarrow> F y)) p)"

lemma observes_try:
  assumes "observes sound content c m F" "\<And>x. F x \<Longrightarrow> observes sound content c (f x) G"
  shows "observes sound content c (try_io m f) G"
  unfolding observes_def
proof (intro allI impI)
  fix p assume "sound p" "content p = c"
  show "wp (try_io m f) (\<lambda>r p'. r \<noteq> Panic \<and> sound p' \<and> content p' = c \<and> (\<forall>y. r = Ok y \<longrightarrow> G y)) p"
    by (rule wp_try [OF assms(1) [unfolded observes_def, rule_format, OF \<open>sound p\<close> \<open>content p = c\<close>]])
      (use assms(2) in \<open>auto simp: observes_def\<close>)
qed

lemma observes_return: "r \<noteq> Panic \<Longrightarrow> (\<And>y. r = Ok y \<Longrightarrow> F y) \<Longrightarrow> observes sound content c (return_io r) F"
  by (simp add: observes_def wp_return)

lemma observes_map_err: "observes sound content c m F \<Longrightarrow> observes sound content c (map_err_io h m) F"
  by (simp add: observes_def wp_map_err_io)

lemma observes_catch: "observes sound content c m F \<Longrightarrow> observes sound content c (catch_io m) (\<lambda>_. True)"
  unfolding observes_def wp_catch_io by (auto simp: wp_def split: prod.splits outcome.splits)

lemma observes_mono: "observes sound content c m F \<Longrightarrow> (\<And>y. F y \<Longrightarrow> G y) \<Longrightarrow> observes sound content c m G"
  unfolding observes_def by (blast intro: wp_mono)

context sensor_files
begin

abbreviation obs :: "(path \<Rightarrow> string option) \<Rightarrow> ('p, 'e, 'a) io \<Rightarrow> ('a \<Rightarrow> bool) \<Rightarrow> bool" where
  "obs \<equiv> observes sound content"

lemma obs_list: "obs c (coretemp_io (list_op P dir)) (\<lambda>_. True)"
  unfolding coretemp_io_def by (rule observes_map_err)
    (auto simp: observes_def unchanged_def intro!: wp_mono [OF list_files])

lemma obs_list_bound: "obs c (coretemp_io (list_bound_op P dir i)) (\<lambda>_. True)"
  unfolding coretemp_io_def by (rule observes_map_err)
    (auto simp: observes_def unchanged_def intro!: wp_mono [OF list_bound_files])

lemma obs_identity: "obs c (coretemp_io (identity_op P path)) (\<lambda>_. True)"
  unfolding coretemp_io_def by (rule observes_map_err)
    (auto simp: observes_def unchanged_def intro!: wp_mono [OF identity_files])

lemma obs_read_bound:
  "obs c (read_bound_op P dir i child) (\<lambda>v. \<exists>name. single_normal_component child = Some name \<and> c (join dir name) = Some v)"
  by (auto simp: observes_def unchanged_def intro!: wp_mono [OF read_bound_files])

lemma obs_coretemp_read:
  "obs c (coretemp_io (read_bound_op P dir i child)) (\<lambda>v. \<exists>name. single_normal_component child = Some name \<and> c (join dir name) = Some v)"
  unfolding coretemp_io_def by (rule observes_map_err [OF obs_read_bound])

lemma obs_candidates: "obs c (coretemp_candidates P hwmon_root cs found) (\<lambda>_. True)"
proof (induction cs arbitrary: found)
  case (Cons x cs)
  show ?case
    unfolding coretemp_candidates.simps
    by (rule observes_try [OF observes_return [OF coretemp_pure_no_panic(4)]], simp,
        rule observes_try [OF obs_identity], rule observes_try [OF obs_coretemp_read], rule Cons.IH)
qed (simp add: observes_return)

lemma obs_unique: "obs c (unique_coretemp P hwmon_root) (\<lambda>_. True)"
  unfolding unique_coretemp_def
  by (rule observes_try [OF obs_list], rule observes_try [OF obs_candidates]) (auto intro!: observes_return split: list.split)

lemma obs_scan: "channels_ok channels \<Longrightarrow> obs c (scan_channels P dir i es seen labels channels) channels_ok"
proof (induction es arbitrary: seen labels channels)
  case (Cons e es)
  have idx: "valid_positive_decimal i" if "temperature_label_index name = Ok (Some i)" for name i
    using that by (auto simp: temperature_label_index_def Let_def split: if_splits)
  have add: "channels_ok (channels @ [\<lparr>ct_index = i, ct_label = l, ct_is_package = b\<rparr>])" if "valid_positive_decimal i" for i l b
    using Cons.prems that by (simp add: channels_ok_def)
  have label_index: "obs c (return_io (temperature_label_index name)) (\<lambda>x. \<forall>i. x = Some i \<longrightarrow> valid_positive_decimal i)" for name
    by (rule observes_return [OF coretemp_pure_no_panic(3)]) (use idx in auto)
  have label: "obs c (return_io (selected_label payload e)) (\<lambda>_. True)" for payload
    by (rule observes_return [OF coretemp_pure_no_panic(2)]) simp
  show ?case
    unfolding scan_channels.simps
    by (auto intro!: observes_return observes_try [OF label_index] observes_try [OF obs_coretemp_read] observes_try [OF label]
        Cons.IH Cons.prems add split: option.split)
qed (auto intro: observes_return)

lemma obs_discover_channels: "obs c (discover_channels P dir i) (\<lambda>chs. channels_ok chs \<and> list_ex ct_is_package chs)"
  unfolding discover_channels_def
  by (rule observes_try [OF obs_list_bound], rule observes_try [OF obs_scan])
    (auto simp: channels_ok_def list_all_iff list_ex_iff intro!: observes_return)

lemma obs_discover:
  "obs c (discover_coretemp P hwmon_root) (\<lambda>d. channels_ok (ctd_channels d) \<and> list_ex ct_is_package (ctd_channels d))"
  unfolding discover_coretemp_def case_prod_unfold
  by (rule observes_try [OF obs_unique], rule observes_try [OF obs_discover_channels], rule observes_try [OF obs_unique])
    (auto intro!: observes_return observes_try [OF obs_discover_channels] split: if_splits)

lemma obs_flag: "obs c (reject_asserted_optional_flag P dir i ch suffix description) (\<lambda>_. True)"
  unfolding reject_asserted_optional_flag_def Let_def
  by (rule observes_try [OF observes_catch [OF obs_read_bound]]) (auto intro!: observes_return split: sum.split)

lemma obs_number:
  assumes "valid_positive_decimal (ct_index ch)" "CHR ''/'' \<notin> set suffix"
  shows "obs c (coretemp_io (read_bound_op P dir i (channel_file ch suffix))) (\<lambda>raw. c (channel_path ch dir suffix) = Some raw)"
  by (rule observes_mono [OF obs_coretemp_read]) (auto simp: channel_file_component [OF assms] channel_path_def)

lemma obs_parse:
  assumes "c path = Some raw"
  shows "obs c (return_io (coretemp_parse_number raw path)) (number_text c path)"
  using parse_number_Ok [where c = c and path' = path, OF _ assms] by (auto intro!: observes_return coretemp_pure_no_panic(1))

lemma obs_channel:
  assumes "valid_positive_decimal (ct_index ch)"
  shows "obs c (sample_channel P dir i ch) (channel_reads c dir ch)"
proof -
  have chk: "obs c (return_io (check_channel_values a b input tjmax)) (\<lambda>_. 0 \<le> input \<and> input \<le> tjmax \<and> tjmax \<le> 125000 \<and> input mod 1000 = 0)"
    for a b input tjmax
    by (rule observes_return [OF coretemp_pure_no_panic(5)])
      (auto simp: check_channel_values_def max_documented_tjmax_millicelsius_def split: if_splits)
  show ?thesis
    unfolding sample_channel_def
    by (rule observes_try [OF obs_flag])+
      (rule observes_try [OF obs_number [OF assms]], simp, rule observes_try [OF obs_parse], assumption,
       rule observes_try [OF obs_number [OF assms]], simp, rule observes_try [OF obs_parse], assumption,
       rule observes_try [OF chk], (rule observes_try [OF obs_flag])+, rule observes_return, auto simp: channel_reads_def)
qed

lemma obs_channels:
  assumes "channels_ok chs" "\<forall>h. hot = Some h \<longrightarrow> hottest_channel c dir taken h" "hot = None \<longrightarrow> taken = []"
  shows "obs c (sample_channels P dir i chs hot) (\<lambda>r. (\<forall>h. r = Some h \<longrightarrow> hottest_channel c dir (taken @ chs) h) \<and> (r = None \<longrightarrow> taken @ chs = []))"
  using assms
proof (induction chs arbitrary: hot taken)
  case Nil
  then show ?case by (auto intro!: observes_return)
next
  case (Cons ch chs)
  have v: "valid_positive_decimal (ct_index ch)" "channels_ok chs" using Cons.prems(1) by (simp_all add: channels_ok_def)
  show ?case
    unfolding sample_channels.simps
  proof (rule observes_try [OF obs_channel [OF v(1)]], goal_cases)
    case (1 deg)
    have "hottest_channel c dir (taken @ [ch]) (case hot of None \<Rightarrow> deg | Some current \<Rightarrow> max current deg)"
      using 1 Cons.prems(2,3) by (fastforce simp: hottest_channel_def max_def split: option.split)
    from Cons.IH [OF v(2), of "Some _" "taken @ [ch]"] this show ?case by simp
  qed
qed

lemma obs_sample:
  "obs c (coretemp_sample P dev) (\<lambda>t. list_ex ct_is_package (ctd_channels dev)
     \<and> (\<exists>k. 0 \<le> k \<and> k \<le> 125 \<and> t = Fin (of_int k) \<and> hottest_channel c (ctd_root dev) (ctd_channels dev) (1000 * k)))"
    (is "obs c _ ?F")
  unfolding coretemp_sample_def
proof (rule observes_try [OF obs_discover], goal_cases)
  case (1 before)
  show ?case
  proof (cases "before = dev")
    case True
    then have ok: "channels_ok (ctd_channels dev)" "list_ex ct_is_package (ctd_channels dev)" using 1 by auto
    have ne: "ctd_channels dev \<noteq> []" using ok(2) by auto
    have fin: "obs c (return_io (bind_ok (expect hottest) (\<lambda>h. expect_ok (temperature_try_from (f64_div (f64_of_int h) (Fin 1000)))))) ?F"
      if h: "(\<forall>h. hottest = Some h \<longrightarrow> hottest_channel c (ctd_root dev) (ctd_channels dev) h) \<and> (hottest = None \<longrightarrow> ctd_channels dev = [])"
      for hottest
    proof -
      obtain h where hh: "hottest = Some h" "hottest_channel c (ctd_root dev) (ctd_channels dev) h" using h ne by (cases hottest) auto
      then have "0 \<le> h" "h \<le> 125000" "h mod 1000 = 0" by (auto simp: hottest_channel_def channel_reads_def)
      then obtain k where k: "h = 1000 * k" "0 \<le> k" "k \<le> 125" by (auto elim: dvdE simp: mod_eq_0_iff_dvd)
      show ?thesis using hh k ok(2) millidegrees [OF k(2,3)] by (auto intro!: observes_return)
    qed
    show ?thesis
      unfolding True
      by (simp, rule observes_try [OF obs_channels [OF ok(1), of None c _ "[]"]], simp_all)
        (rule observes_try [OF obs_discover], auto intro!: observes_return fin)
  qed (auto intro!: observes_return)
qed

end

section \<open>A concrete processor\<close>

definition hwmon_dir :: path where "hwmon_dir = [''hwmon'']"

definition core_dir :: path where "core_dir = [''hwmon'', ''hwmon0'']"

definition core_files :: "(string \<times> string) list" where
  "core_files = [(''name'', ''coretemp''), (''temp1_crit'', ''100000''), (''temp1_input'', ''61000''), (''temp1_label'', ''Package id 0'')]"

definition core_platform :: fake_platform where
  "core_platform = fake_new\<lparr>
     files := map (\<lambda>(n, v). (core_dir @ [n], \<lparr>ff_contents = v @ [CHR 10], ff_permissions = permissions_read_only, ff_root_owned = True\<rparr>)) core_files,
     directories := [hwmon_dir, core_dir],
     identities := [(core_dir, \<lparr>fi_device = 1, fi_inode = 2\<rparr>)]\<rparr>"

definition core_device :: coretemp_device where
  "core_device = \<lparr>ctd_hwmon_root = hwmon_dir, ctd_root = core_dir, ctd_backing_identity = \<lparr>fi_device = 1, fi_inode = 2\<rparr>,
     ctd_channels = [\<lparr>ct_index = ''1'', ct_label = ''Package id 0'', ct_is_package = True\<rparr>]\<rparr>"

text \<open>The number of a text, in binary arithmetic.\<close>

definition dec_int :: "string \<Rightarrow> int" where
  "dec_int s = foldl (\<lambda>acc c. acc * 10 + int (digit_value c)) 0 s"

lemma dec_int: "int (dec_value s) = dec_int s"
proof -
  have "int (foldl (\<lambda>acc c. acc * 10 + digit_value c) n s) = foldl (\<lambda>acc c. acc * 10 + int (digit_value c)) (int n) s" for n
    by (induction s arbitrary: n) (simp_all add: algebra_simps)
  from this [of 0] show ?thesis by (simp add: dec_value_def dec_int_def)
qed

lemma parse_number_code [code]:
  "coretemp_parse_number payload path =
     (case strip_newline payload of
        None \<Rightarrow> Err (CoretempInvalidSample path ''numeric input must end with one newline'')
      | Some number \<Rightarrow>
          if number = [] \<or> \<not> list_all is_ascii_digit number \<or> CHR 10 \<in> set number
          then Err (CoretempInvalidSample path ''numeric input is malformed'')
          else if dec_int number < 2 ^ 63 then Ok (dec_int number)
          else Err (CoretempInvalidSample path ''numeric input is outside the supported integer range''))"
proof -
  have "(dec_value s < 2 ^ 63) = (dec_int s < 2 ^ 63)" for s by (simp flip: dec_int)
  then show ?thesis by (simp add: coretemp_parse_number_def dec_int split: option.split)
qed

lemma core_sampled: "is_ok (fst (coretemp_sample fake_ops core_device core_platform))"
  by code_simp

lemma core_quiet: "quiet core_platform"
  by (simp add: quiet_def core_platform_def fake_new_def)

section \<open>Property\<close>

text \<open>
  C38. A CPU sample never panics, changes nothing, and a temperature it reports is that of the hottest
  channel of the device: a whole number of degrees from 0 to 125, reached by one of the package and
  core channels and exceeded by none, each of them reading a whole number of degrees no higher than
  its own documented maximum, with a package channel among them.
\<close>

theorem coretemp_reports_hottest:
  assumes "sensor_files P sound content listing" "sound p" "coretemp_sample P dev p = (r, p')"
  shows "r \<noteq> Panic \<and> sound p' \<and> content p' = content p \<and> (\<forall>t. r = Ok t \<longrightarrow> temperature_ok t \<and> list_ex ct_is_package (ctd_channels dev)
    \<and> (\<exists>k. 0 \<le> k \<and> k \<le> 125 \<and> t = Fin (of_int k) \<and> hottest_channel (content p) (ctd_root dev) (ctd_channels dev) (1000 * k)))"
  using wp_eqD [OF sensor_files.obs_sample [OF assms(1), unfolded observes_def, rule_format, OF assms(2) refl] assms(3)]
  by (auto intro!: temperature_ok_int)


theorem coretemp_reports_hottest_witness:
  "\<exists>k. 0 \<le> k \<and> k \<le> 125 \<and> fst (coretemp_sample fake_ops core_device core_platform) = Ok (Fin (of_int k))
     \<and> hottest_channel (file_contents core_platform) core_dir (ctd_channels core_device) (1000 * k)"
proof -
  obtain t p' where run: "coretemp_sample fake_ops core_device core_platform = (Ok t, p')"
    using core_sampled by (cases "coretemp_sample fake_ops core_device core_platform") (auto simp: is_ok_def split: outcome.splits)
  from coretemp_reports_hottest [OF fake.sensor_files_axioms core_quiet run] run show ?thesis
    by (auto simp: core_device_def)
qed

end
