(* ===== verification/Nvidia_Gpu.thy ===== *)
theory Nvidia_Gpu
  imports Compatibility Config Fake
begin

text \<open>
  The GPU temperature source (\<open>fan-control-core/src/nvidia_gpu.rs\<close>): canonical device selectors and
  the checks of a sample. The NVML library behind \<open>NvmlAccess\<close> is not part of the sources; its lookup
  is a parameter, an operation on a state of its own.
\<close>

section \<open>Selectors\<close>

definition is_ascii_hexdigit :: "char \<Rightarrow> bool" where
  "is_ascii_hexdigit c =
     (let n = of_char c :: nat in 48 \<le> n \<and> n \<le> 57 \<or> 65 \<le> n \<and> n \<le> 70 \<or> 97 \<le> n \<and> n \<le> 102)"

definition hex_value :: "char \<Rightarrow> nat" where
  "hex_value c = (let n = of_char c :: nat in if n \<le> 57 then n - 48 else if n \<le> 70 then n - 55 else n - 87)"

text \<open>\<open>from_str_radix(s, 16)\<close> on a string of hexadecimal digits: \<open>None\<close> when the value does not fit.\<close>

definition hex_nat :: "string \<Rightarrow> nat" where
  "hex_nat s = foldl (\<lambda>acc c. acc * 16 + hex_value c) 0 s"

definition from_hex :: "nat \<Rightarrow> string \<Rightarrow> nat option" where
  "from_hex w s = (if s \<noteq> [] \<and> hex_nat s < 2 ^ w then Some (hex_nat s) else None)"

text \<open>A number below \<open>16 ^ k\<close> in lower case, padded with zeros to \<open>k\<close> digits.\<close>

fun hex_padded :: "nat \<Rightarrow> nat \<Rightarrow> string" where
  "hex_padded 0 n = []"
| "hex_padded (Suc k) n = hex_padded k (n div 16) @ [hex_digit n]"

definition ascii_lower :: "char \<Rightarrow> char" where
  "ascii_lower c = (let n = of_char c :: nat in if 65 \<le> n \<and> n \<le> 90 then char_of (n + 32) else c)"

definition to_ascii_lowercase :: "string \<Rightarrow> string" where
  "to_ascii_lowercase s = map ascii_lower s"

fun split_char :: "char \<Rightarrow> string \<Rightarrow> string list" where
  "split_char d [] = [[]]"
| "split_char d (c # cs) =
     (if c = d then [] # split_char d cs
      else (case split_char d cs of [] \<Rightarrow> [[c]] | w # ws \<Rightarrow> (c # w) # ws))"

definition hex_group :: "nat \<Rightarrow> string \<Rightarrow> bool" where
  "hex_group n s = (length s = n \<and> list_all is_ascii_hexdigit s)"

definition normalize_uuid :: "string \<Rightarrow> string option" where
  "normalize_uuid value =
     (if take 4 value \<noteq> ''GPU-'' then None
      else
        (let body = drop 4 value; groups = split_char CHR ''-'' body
         in if length groups = 5 \<and> list_all2 hex_group [8, 4, 4, 4, 12] groups
            then Some (''GPU-'' @ to_ascii_lowercase body) else None))"

definition is_nvidia_gpu_uuid :: "string \<Rightarrow> bool" where
  "is_nvidia_gpu_uuid value = (normalize_uuid value \<noteq> None)"

text \<open>The address a PCI bus identifier denotes, and its canonical form.\<close>

definition pci_address :: "string \<Rightarrow> (nat \<times> nat \<times> nat \<times> nat) option" where
  "pci_address value =
     Option.bind (split_once CHR ''.'' value) (\<lambda>(slot, function_text).
       if \<not> hex_group 1 function_text then None
       else
         Option.bind (from_hex 8 function_text) (\<lambda>func.
           if 7 < func then None
           else
             (case split_char CHR '':'' slot of
                [domain, bus, device] \<Rightarrow>
                  if length domain \<notin> {4, 8} \<or> length bus \<noteq> 2 \<or> length device \<noteq> 2
                    \<or> \<not> list_all is_ascii_hexdigit domain \<or> \<not> list_all is_ascii_hexdigit bus
                    \<or> \<not> list_all is_ascii_hexdigit device
                  then None
                  else
                    Option.bind (from_hex 32 domain) (\<lambda>domain.
                    Option.bind (from_hex 8 bus) (\<lambda>bus.
                    Option.bind (from_hex 8 device) (\<lambda>device.
                      if 31 < device then None else Some (domain, bus, device, func))))
              | _ \<Rightarrow> None)))"

definition pci_format :: "nat \<times> nat \<times> nat \<times> nat \<Rightarrow> string" where
  "pci_format address =
     (case address of (domain, bus, device, func) \<Rightarrow>
        hex_padded 8 domain @ '':'' @ hex_padded 2 bus @ '':'' @ hex_padded 2 device @ ''.'' @ hex_padded 1 func)"

definition normalize_pci_bus_id :: "string \<Rightarrow> string option" where
  "normalize_pci_bus_id value = map_option pci_format (pci_address value)"

datatype nvidia_gpu_selector_kind = SelectorUuid | SelectorPciBusId

record nvidia_gpu_selector =
  ngs_kind :: nvidia_gpu_selector_kind
  ngs_normalized :: string

datatype nvidia_gpu_selector_error = InvalidUuid string | InvalidPciBusId string

definition selector_uuid :: "string \<Rightarrow> (nvidia_gpu_selector_error, nvidia_gpu_selector) outcome" where
  "selector_uuid value =
     bind_ok (ok_or (InvalidUuid value) (normalize_uuid value)) (\<lambda>normalized.
       Ok \<lparr>ngs_kind = SelectorUuid, ngs_normalized = normalized\<rparr>)"

definition selector_pci_bus_id :: "string \<Rightarrow> (nvidia_gpu_selector_error, nvidia_gpu_selector) outcome" where
  "selector_pci_bus_id value =
     bind_ok (ok_or (InvalidPciBusId value) (normalize_pci_bus_id value)) (\<lambda>normalized.
       Ok \<lparr>ngs_kind = SelectorPciBusId, ngs_normalized = normalized\<rparr>)"

section \<open>Samples\<close>

record nvml_gpu_sample =
  nvs_uuid :: string
  nvs_pci_bus_id :: string
  nvs_temperature_celsius :: f64

datatype nvml_error_kind =
    ResetRequired | GpuLost | NoData | NotReady | NvmlTimedOut | InvalidState | Unsupported | LibraryFailure | NvmlOther

record nvml_error =
  nve_kind :: nvml_error_kind
  nve_message :: string

record 'n nvml_access =
  sample_by_identity :: "nvidia_gpu_selector \<Rightarrow> ('n, nvml_error, nvml_gpu_sample) io"

datatype nvidia_gpu_sample_error =
    GpuNvml nvml_error
  | GpuIdentityMismatch nvidia_gpu_selector string
  | GpuInvalidTemperature f64

definition min_plausible_gpu_temperature_celsius :: f64 where "min_plausible_gpu_temperature_celsius = Fin 1"

definition max_plausible_gpu_temperature_celsius :: f64 where "max_plausible_gpu_temperature_celsius = Fin 125"

text \<open>\<open>f64::fract\<close>: the value minus its integer part.\<close>

definition f64_trunc :: "f64 \<Rightarrow> f64" where
  "f64_trunc x = (case x of Fin a \<Rightarrow> Fin (of_int (trunc_rat a)) | _ \<Rightarrow> x)"

definition f64_fract :: "f64 \<Rightarrow> f64" where
  "f64_fract x = f64_sub x (f64_trunc x)"

definition sample_nvidia_gpu ::
  "'n nvml_access \<Rightarrow> nvidia_gpu_selector \<Rightarrow> ('n, nvidia_gpu_sample_error, temperature_celsius) io" where
  "sample_nvidia_gpu nvml expected =
     try_io (map_err_io GpuNvml (sample_by_identity nvml expected)) (\<lambda>sample.
       (let (observed, normalized) =
              (case ngs_kind expected of
                 SelectorUuid \<Rightarrow> (nvs_uuid sample, normalize_uuid (nvs_uuid sample))
               | SelectorPciBusId \<Rightarrow> (nvs_pci_bus_id sample, normalize_pci_bus_id (nvs_pci_bus_id sample)));
            value = nvs_temperature_celsius sample
        in return_io
             (if normalized \<noteq> Some (ngs_normalized expected) then Err (GpuIdentityMismatch expected observed)
              else if \<not> is_finite value \<or> \<not> f64_eq (f64_fract value) (Fin 0)
                \<or> \<not> (f64_le min_plausible_gpu_temperature_celsius value \<and> f64_le value max_plausible_gpu_temperature_celsius)
              then Err (GpuInvalidTemperature value)
              else expect_ok (temperature_try_from value))))"

section \<open>Hexadecimal text\<close>

lemma hex_digit_lt: "\<forall>d \<in> set [0..<16]. is_ascii_hexdigit (hex_digit d) \<and> hex_value (hex_digit d) = d
    \<and> hex_digit d \<notin> set '':.''"
  by code_simp

lemma hex_digit_facts:
  "is_ascii_hexdigit (hex_digit n)" "hex_value (hex_digit n) = n mod 16" "hex_digit n \<noteq> CHR '':''" "hex_digit n \<noteq> CHR ''.''"
proof -
  have "hex_digit n = hex_digit (n mod 16)" by (simp add: hex_digit_def)
  moreover have "n mod 16 \<in> set [0..<16]" by simp
  note bspec [OF hex_digit_lt this]
  ultimately show "is_ascii_hexdigit (hex_digit n)" "hex_value (hex_digit n) = n mod 16" "hex_digit n \<noteq> CHR '':''" "hex_digit n \<noteq> CHR ''.''"
    by simp_all
qed

lemma hex_padded_facts:
  "length (hex_padded k n) = k" "list_all is_ascii_hexdigit (hex_padded k n)" "CHR '':'' \<notin> set (hex_padded k n)"
  "CHR ''.'' \<notin> set (hex_padded k n)"
  by (induction k arbitrary: n) (simp_all add: hex_digit_facts hex_digit_facts(3,4) [symmetric])

lemma hex_nat_snoc: "hex_nat (s @ [c]) = hex_nat s * 16 + hex_value c"
  by (simp add: hex_nat_def)

lemma hex_nat_padded: "hex_nat (hex_padded k n) = n mod 16 ^ k"
proof (induction k arbitrary: n)
  case (Suc k)
  have "n mod 16 ^ Suc k = (n div 16 mod 16 ^ k) * 16 + n mod 16" by (metis mod_mult2_eq mult.commute power_Suc add.commute)
  then show ?case by (simp only: hex_padded.simps hex_nat_snoc Suc.IH hex_digit_facts)
qed (simp add: hex_nat_def)

lemma split_char_id: "d \<notin> set w \<Longrightarrow> split_char d w = [w]"
  by (induction w) auto

lemma split_char_append: "d \<notin> set w \<Longrightarrow> split_char d (w @ d # s) = w # split_char d s"
  by (induction w) auto

lemma split_once_append: "d \<notin> set w \<Longrightarrow> split_once d (w @ d # s) = Some (w, s)"
proof -
  assume "d \<notin> set w"
  then have "\<forall>x \<in> set w. x \<noteq> d" by auto
  then show ?thesis by (simp add: split_once_def dropWhile_append2 takeWhile_append2)
qed

lemma hex_value_bound: "is_ascii_hexdigit c \<Longrightarrow> hex_value c < 16"
  by (auto simp: is_ascii_hexdigit_def hex_value_def Let_def)

section \<open>The round trip\<close>

lemma pci_address_format:
  assumes "d < 2 ^ 32" "b < 256" "v < 32" "f < 8"
  shows "pci_address (pci_format (d, b, v, f)) = Some (d, b, v, f)"
proof -
  have "pci_format (d, b, v, f) = (hex_padded 8 d @ CHR '':'' # hex_padded 2 b @ CHR '':'' # hex_padded 2 v) @ CHR ''.'' # hex_padded 1 f"
    by (simp add: pci_format_def)
  moreover have "CHR ''.'' \<notin> set (hex_padded 8 d @ CHR '':'' # hex_padded 2 b @ CHR '':'' # hex_padded 2 v)"
    using hex_padded_facts(4) by auto
  ultimately have once: "split_once CHR ''.'' (pci_format (d, b, v, f))
      = Some (hex_padded 8 d @ CHR '':'' # hex_padded 2 b @ CHR '':'' # hex_padded 2 v, hex_padded 1 f)"
    using split_once_append by metis
  have fields: "split_char CHR '':'' (hex_padded 8 d @ CHR '':'' # hex_padded 2 b @ CHR '':'' # hex_padded 2 v)
      = [hex_padded 8 d, hex_padded 2 b, hex_padded 2 v]"
    by (simp only: split_char_append [OF hex_padded_facts(3)] split_char_id [OF hex_padded_facts(3)])
  have hx: "from_hex w (hex_padded k n) = Some n" if "n < 16 ^ k" "n < 2 ^ w" "0 < k" for w k n
    using that hex_padded_facts(1) [of k n] by (auto simp: from_hex_def hex_nat_padded)
  have "from_hex 32 (hex_padded 8 d) = Some d" "from_hex 8 (hex_padded 2 b) = Some b" "from_hex 8 (hex_padded 2 v) = Some v"
    "from_hex 8 (hex_padded 1 f) = Some f"
    by (rule hx; use assms in simp)+
  then show ?thesis
    unfolding pci_address_def once
    using assms fields by (simp only: Option.bind.simps prod.case hex_group_def hex_padded_facts list.case) simp
qed

lemma pci_address_bounds:
  assumes "pci_address s = Some (d, b, v, f)"
  shows "d < 2 ^ 32" "b < 256" "v < 32" "f < 8"
  using assms
  by (auto simp: pci_address_def from_hex_def bind_eq_Some_conv split: if_splits list.splits)

lemma ascii_lower_value: "(of_char (ascii_lower c) :: nat) = (let n = of_char c in if 65 \<le> n \<and> n \<le> 90 then n + 32 else n)"
  by (simp add: ascii_lower_def Let_def)

lemma ascii_lower_facts:
  "ascii_lower (ascii_lower c) = ascii_lower c" "is_ascii_hexdigit (ascii_lower c) = is_ascii_hexdigit c"
  "ascii_lower c = CHR ''-'' \<longleftrightarrow> c = CHR ''-''"
proof -
  have "(of_char (ascii_lower (ascii_lower c)) :: nat) = of_char (ascii_lower c)" by (simp add: ascii_lower_value Let_def)
  then show "ascii_lower (ascii_lower c) = ascii_lower c" by (simp only: of_char_eq_iff)
  show "is_ascii_hexdigit (ascii_lower c) = is_ascii_hexdigit c" by (auto simp: is_ascii_hexdigit_def ascii_lower_value Let_def)
  have "(of_char (ascii_lower c) :: nat) = of_char CHR ''-'' \<longleftrightarrow> (of_char c :: nat) = of_char CHR ''-''"
    by (simp add: ascii_lower_value Let_def)
  then show "ascii_lower c = CHR ''-'' \<longleftrightarrow> c = CHR ''-''" by (simp only: of_char_eq_iff)
qed

lemma split_char_lower: "split_char CHR ''-'' (map ascii_lower s) = map (map ascii_lower) (split_char CHR ''-'' s)"
  by (induction s) (auto simp: ascii_lower_facts split: list.splits)

lemma hex_group_lower: "hex_group n (map ascii_lower s) = hex_group n s"
  by (simp add: hex_group_def list_all_length ascii_lower_facts)

lemma normalize_uuid_again:
  assumes "normalize_uuid v = Some n"
  shows "normalize_uuid n = Some n"
proof -
  let ?g = "split_char CHR ''-'' (drop 4 v)"
  have g: "length ?g = 5" "list_all2 hex_group [8, 4, 4, 4, 12] ?g" "n = ''GPU-'' @ map ascii_lower (drop 4 v)"
    using assms by (auto simp: normalize_uuid_def Let_def to_ascii_lowercase_def split: if_splits)
  have "list_all2 hex_group [8, 4, 4, 4, 12] (map (map ascii_lower) ?g)"
    using g(2) unfolding list_all2_map2 hex_group_lower .
  moreover have "map ascii_lower (map ascii_lower s) = map ascii_lower s" for s by (simp add: ascii_lower_facts)
  ultimately show ?thesis
    using g(1) unfolding g(3) normalize_uuid_def Let_def to_ascii_lowercase_def
    by (simp add: split_char_lower del: map_map)
qed

lemma whole_degrees:
  assumes "f64_ok x" "is_finite x" "f64_eq (f64_fract x) (Fin 0)" "f64_le (Fin 1) x" "f64_le x (Fin 125)"
  shows "\<exists>k. 1 \<le> k \<and> k \<le> 125 \<and> x = Fin (of_int k)"
proof -
  obtain a where a: "x = Fin a" using assms(2) by (cases x) auto
  then have b: "1 \<le> a" "a \<le> 125" "representable a" using assms by (auto simp: f64_ok_def)
  have f: "1 \<le> \<lfloor>a\<rfloor>" "\<lfloor>a\<rfloor> \<le> 125" using b by (simp_all add: le_floor_iff floor_le_iff)
  have r: "representable (of_int \<lfloor>a\<rfloor>)" by (rule representable_small_int) (use f in simp)
  have "\<not> of_int \<lfloor>a\<rfloor> < a"
  proof
    assume "of_int \<lfloor>a\<rfloor> < a"
    from round_rat_diff_pos [OF r b(3) this] have p: "0 < round_rat (a - of_int \<lfloor>a\<rfloor>)" .
    have "f64_fract x = f64_round (a - of_int \<lfloor>a\<rfloor>)"
      using b(1) by (simp add: a f64_fract_def f64_trunc_def trunc_rat_def f64_sub_def)
    with assms(3) p show False by (auto simp: f64_round_def Let_def split: if_splits)
  qed
  then have "a = of_int \<lfloor>a\<rfloor>" using of_int_floor_le [of a] by linarith
  then show ?thesis using f a by (intro exI [of _ "\<lfloor>a\<rfloor>"]) simp
qed

section \<open>A concrete device\<close>

definition sample_selector :: nvidia_gpu_selector where
  "sample_selector = \<lparr>ngs_kind = SelectorPciBusId, ngs_normalized = ''00000000:01:00.0''\<rparr>"

definition sample_nvml :: "unit nvml_access" where
  "sample_nvml = \<lparr>sample_by_identity = (\<lambda>_. return_io (Ok
     \<lparr>nvs_uuid = ''GPU-x'', nvs_pci_bus_id = ''0000:01:00.0'', nvs_temperature_celsius = Fin 64\<rparr>))\<rparr>"

lemma sample_gpu_identity: "normalize_pci_bus_id ''0000:01:00.0'' = Some ''00000000:01:00.0''"
proof -
  have "pci_address ''0000:01:00.0'' = Some (0, 1, 0, 0)"
    by (simp add: pci_address_def split_once_def from_hex_def hex_nat_def hex_value_def hex_group_def is_ascii_hexdigit_def)
  moreover have "pci_format (0, 1, 0, 0) = ''00000000:01:00.0''" by code_simp
  ultimately show ?thesis by (simp add: normalize_pci_bus_id_def)
qed

section \<open>Properties\<close>

text \<open>
  Device selectors are canonical. The printed form of a PCI address is parsed back to the same
  address exactly when its parts are in range; normalising a normalised PCI bus identifier or GPU
  UUID changes nothing.
\<close>

lemma gpu_selectors_round_trip:
  "(pci_address (pci_format (domain, bus, device, func)) = Some (domain, bus, device, func)
      \<longleftrightarrow> domain < 2 ^ 32 \<and> bus < 256 \<and> device < 32 \<and> func < 8)
   \<and> Option.bind (normalize_pci_bus_id value) normalize_pci_bus_id = normalize_pci_bus_id value
   \<and> Option.bind (normalize_uuid value) normalize_uuid = normalize_uuid value"
proof -
  have "Option.bind (normalize_pci_bus_id value) normalize_pci_bus_id = normalize_pci_bus_id value"
  proof (cases "pci_address value")
    case (Some a)
    obtain d b v f where a: "a = (d, b, v, f)" by (cases a)
    show ?thesis using pci_address_format [OF pci_address_bounds [OF Some [unfolded a]]] Some a by (simp add: normalize_pci_bus_id_def)
  qed (simp add: normalize_pci_bus_id_def)
  moreover have "Option.bind (normalize_uuid value) normalize_uuid = normalize_uuid value"
    using normalize_uuid_again by (cases "normalize_uuid value") auto
  moreover have "pci_address (pci_format (domain, bus, device, func)) = Some (domain, bus, device, func)
      \<longleftrightarrow> domain < 2 ^ 32 \<and> bus < 256 \<and> device < 32 \<and> func < 8"
    using pci_address_format [of domain bus device func] pci_address_bounds [of _ domain bus device func] by blast
  ultimately show ?thesis by simp
qed

text \<open>
  C39. A GPU temperature is accepted only from the device that was asked for: the identity in the
  sample, of the kind the selector has, normalises to the selector. It is then exactly the sampled
  value, and that is a whole number of degrees from 1 to 125. The checks themselves never panic.
\<close>

theorem gpu_sample_is_identified:
  assumes "sample_by_identity nvml expected s = (lookup, s1)" "\<And>sample. lookup = Ok sample \<Longrightarrow> f64_ok (nvs_temperature_celsius sample)"
    "sample_nvidia_gpu nvml expected s = (r, s')"
  shows "s' = s1 \<and> (r = Panic \<longleftrightarrow> lookup = Panic)
    \<and> (\<forall>t. r = Ok t \<longrightarrow> (\<exists>sample k. lookup = Ok sample \<and> t = nvs_temperature_celsius sample
         \<and> t = Fin (of_int k) \<and> 1 \<le> k \<and> k \<le> 125
         \<and> (case ngs_kind expected of
              SelectorUuid \<Rightarrow> normalize_uuid (nvs_uuid sample) = Some (ngs_normalized expected)
            | SelectorPciBusId \<Rightarrow> normalize_pci_bus_id (nvs_pci_bus_id sample) = Some (ngs_normalized expected))))"
proof (cases lookup)
  case (Ok sample)
  let ?x = "nvs_temperature_celsius sample"
  let ?bad = "\<not> is_finite ?x \<or> \<not> f64_eq (f64_fract ?x) (Fin 0) \<or> \<not> (f64_le (Fin 1) ?x \<and> f64_le ?x (Fin 125))"
  have ok: "temperature_try_from ?x = Ok ?x" "\<exists>k. 1 \<le> k \<and> k \<le> 125 \<and> ?x = Fin (of_int k)" if "\<not> ?bad"
    using whole_degrees [OF assms(2) [OF Ok]] that by (auto simp: temperature_try_from_def)
  show ?thesis
    using assms(1,3) Ok ok
    by (cases ?bad; cases "ngs_kind expected")
      (auto simp: sample_nvidia_gpu_def try_io_def map_err_io_def Let_def min_plausible_gpu_temperature_celsius_def
        max_plausible_gpu_temperature_celsius_def split: if_splits)
qed (use assms(1,3) in \<open>auto simp: sample_nvidia_gpu_def try_io_def map_err_io_def\<close>)

theorem gpu_sample_is_identified_witness:
  "sample_nvidia_gpu sample_nvml sample_selector () = (Ok (Fin 64), ())
    \<and> normalize_pci_bus_id ''0000:01:00.0'' = Some ''00000000:01:00.0''"
proof -
  have run: "sample_nvidia_gpu sample_nvml sample_selector () = (Ok (Fin 64), ())"
    using f64_round_exact [of 0] f64_limit_pos
    by (simp add: sample_nvidia_gpu_def sample_nvml_def sample_selector_def return_io_def sample_gpu_identity try_io_def map_err_io_def Let_def
        f64_fract_def f64_trunc_def trunc_rat_def f64_sub_def min_plausible_gpu_temperature_celsius_def
        max_plausible_gpu_temperature_celsius_def temperature_try_from_def)
  have "sample_by_identity sample_nvml sample_selector () =
      (Ok \<lparr>nvs_uuid = ''GPU-x'', nvs_pci_bus_id = ''0000:01:00.0'', nvs_temperature_celsius = Fin 64\<rparr>, ())"
    by (simp add: sample_nvml_def return_io_def)
  from gpu_sample_is_identified [OF this _ run] run show ?thesis
    by (auto simp: f64_ok_def sample_selector_def)
qed

end
