(* ===== verification/Authority.thy ===== *)
theory Authority
  imports Recovery_Contract
begin

text \<open>
  Admission of the policy (\<open>fan-control-core/src/authority.rs\<close>, with the record types of
  \<open>qualification.rs\<close> and \<open>evidence.rs\<close> it reads): the protected policy and the qualification record
  have to name each other, the machine and a passed endurance run before the owner may arm. The TOML
  and JSON libraries and the SHA-256 function are parameters, and so is the platform's access to the
  root-owned files. Shown here: what exactly is admitted, and that a refused admission has restored
  Firmware Auto.
\<close>

section \<open>The artifacts\<close>

text \<open>\<open>evidence.rs\<close>: the enumerations and the identity the artifacts share.\<close>

datatype evidence_record_status = RecordComplete

datatype run_outcome_status = Passed | Failed | NoGo

record evidence_timestamp =
  monotonic_millis :: u64
  wall_unix_millis :: "64 word"

record qualification_envelope_identity_v1 =
  qei_qualification_record_schema_version :: u32
  qei_qualification_id :: string
  qei_policy_version :: string
  qei_protected_policy_sha256 :: string
  qei_compatibility :: compatibility_declaration_v1

text \<open>\<open>qualification.rs\<close>: what the qualification run writes.\<close>

record supervised_endurance_authorization_v1 =
  sea_schema_version :: u32
  sea_evidence_sha256 :: string
  sea_evidence_path :: string
  sea_evidence_schema_version :: u32
  sea_stage :: string
  sea_record_status :: evidence_record_status
  sea_outcome :: run_outcome_status
  sea_final_firmware_auto_confirmed :: bool
  sea_workload_stopped :: bool
  sea_service_stopped :: bool
  sea_completed_at :: evidence_timestamp

record qualification_record_v2 =
  qr_schema_version :: u32
  qr_qualification_id :: string
  qr_policy_version :: string
  qr_protected_policy_sha256 :: string
  qr_compatibility :: compatibility_declaration_v1
  qr_supervised_endurance :: supervised_endurance_authorization_v1

definition deserialize_qualification_schema_version :: "u32 \<Rightarrow> (string, u32) outcome" where
  "deserialize_qualification_schema_version version =
     (if version = 2 then Ok version else Err ''schema_version must be 2'')"

definition deserialize_endurance_authorization_schema_version :: "u32 \<Rightarrow> (string, u32) outcome" where
  "deserialize_endurance_authorization_schema_version version =
     (if version = 1 then Ok version else Err ''supervised_endurance.schema_version must be 1'')"

text \<open>\<open>authority.rs\<close>: the protected policy, and what is left of both after validation.\<close>

record protected_policy_manifest_v2 =
  pm_schema_version :: u32
  pm_qualification_id :: string
  pm_policy_version :: string
  pm_compatibility :: compatibility_declaration_v1
  pm_calibration :: tachometer_calibration_config
  pm_protected :: config_v1

definition deserialize_policy_schema_version :: "int \<Rightarrow> (string, u32) outcome" where
  "deserialize_policy_schema_version version =
     (if version = 2 then Ok 2
      else Err ''schema_version must be 2; V1 manifests require requalification with tachometer calibration'')"

record validated_policy_authority =
  vpa_qualification_id :: string
  vpa_policy_version :: string
  vpa_protected_policy_sha256 :: string
  vpa_compatibility :: compatibility_declaration_v1
  vpa_calibration :: qualified_tachometer_calibrations
  vpa_protected :: validated_config
  vpa_endurance_evidence_path :: string
  vpa_endurance_evidence_sha256 :: string

record requalification_policy_snapshot =
  rps_qualification_id :: string
  rps_policy_version :: string
  rps_compatibility :: compatibility_declaration_v1
  rps_protected_policy_sha256 :: string
  rps_protected :: validated_config

definition bind_to_ownership :: "validated_policy_authority \<Rightarrow> u64 \<Rightarrow> admitted_policy_authority" where
  "bind_to_ownership v i =
     \<lparr>apa_ownership_id = i, apa_qualification_id = vpa_qualification_id v, apa_policy_version = vpa_policy_version v,
      apa_protected_policy_sha256 = vpa_protected_policy_sha256 v, apa_compatibility = vpa_compatibility v,
      apa_calibration = vpa_calibration v, apa_protected = vpa_protected v\<rparr>"

definition evidence_identity :: "admitted_policy_authority \<Rightarrow> qualification_envelope_identity_v1" where
  "evidence_identity a =
     \<lparr>qei_qualification_record_schema_version = 1, qei_qualification_id = apa_qualification_id a,
      qei_policy_version = apa_policy_version a, qei_protected_policy_sha256 = apa_protected_policy_sha256 a,
      qei_compatibility = apa_compatibility a\<rparr>"

section \<open>Errors\<close>

text \<open>
  The errors of the two parsers are the libraries' own. The variant for unreadable evidence belongs to
  the check of retained artifacts and is not reached from here.
\<close>

datatype ('t, 'j) policy_authority_error =
    AuthorityFirmwareAutoUnconfirmed
  | QualificationRecordRead platform_error
  | ProtectedPolicyParse 't
  | QualificationRecordParse 'j
  | InvalidIdentity string string
  | InvalidCompatibility string string
  | InvalidProtectedPolicy config_validation_error
  | InvalidTachometerCalibration tachometer_calibration_error
  | CompatibilityAdmission compatibility_admission_error
  | AuthorityMismatch string

datatype ('t, 'j) policy_authority_admission_error =
    AuthorityRejected "('t, 'j) policy_authority_error"
  | AuthorityRestorationFailed "('t, 'j) policy_authority_error" firmware_auto_restoration_error

fun admission_error_reason :: "('t, 'j) policy_authority_admission_error \<Rightarrow> ('t, 'j) policy_authority_error" where
  "admission_error_reason (AuthorityRejected reason) = reason"
| "admission_error_reason (AuthorityRestorationFailed reason _) = reason"

section \<open>Validation\<close>

text \<open>The libraries the artifacts are read with.\<close>

record ('t, 'j) policy_readers =
  toml_from_str :: "string \<Rightarrow> 't + protected_policy_manifest_v2"
  serde_json_from_str :: "string \<Rightarrow> 'j + qualification_record_v2"
  sha256_hex :: "string \<Rightarrow> string"

definition authority_require_equal :: "string \<Rightarrow> 'a \<Rightarrow> 'a \<Rightarrow> (('t, 'j) policy_authority_error, unit) outcome" where
  "authority_require_equal field expected actual =
     (if expected = actual then Ok () else Err (AuthorityMismatch field))"

definition authority_is_lower_hex :: "string \<Rightarrow> nat \<Rightarrow> bool" where
  "authority_is_lower_hex value expected_length =
     (length value = expected_length
      \<and> list_all (\<lambda>b. is_ascii_digit b \<or> 97 \<le> (of_char b :: nat) \<and> (of_char b :: nat) \<le> 102) value)"

definition validate_identifier ::
  "string \<Rightarrow> string \<Rightarrow> string \<Rightarrow> (('t, 'j) policy_authority_error, unit) outcome" where
  "validate_identifier artifact field value =
     (if value = [] \<or> 128 < length value
         \<or> \<not> list_all (\<lambda>b. is_ascii_alphanumeric b \<or> b \<in> {CHR ''.'', CHR ''_'', CHR ''-''}) value
      then Err (InvalidIdentity artifact field)
      else Ok ())"

definition validate_compatibility ::
  "string \<Rightarrow> compatibility_declaration_v1 \<Rightarrow> (('t, 'j) policy_authority_error, unit) outcome" where
  "validate_compatibility artifact compatibility =
     (case (validate_declaration compatibility :: (unit compatibility_declaration_error, unit) outcome) of
        Ok _ \<Rightarrow> Ok ()
      | Err (DeclarationUnsafe field _) \<Rightarrow> Err (InvalidCompatibility artifact field)
      | Err (DeclarationParse _) \<Rightarrow> Panic
      | Panic \<Rightarrow> Panic)"

definition validate_manifest_identity ::
  "protected_policy_manifest_v2 \<Rightarrow> (('t, 'j) policy_authority_error, unit) outcome" where
  "validate_manifest_identity manifest =
     (if pm_schema_version manifest \<noteq> 2 then Err (InvalidIdentity ''protected policy'' ''schema_version'')
      else
        bind_ok (validate_identifier ''protected policy'' ''qualification_id'' (pm_qualification_id manifest)) (\<lambda>_.
        bind_ok (validate_identifier ''protected policy'' ''policy_version'' (pm_policy_version manifest)) (\<lambda>_.
          validate_compatibility ''protected policy'' (pm_compatibility manifest))))"

definition path_is_absolute :: "string \<Rightarrow> bool" where
  "path_is_absolute p = (p \<noteq> [] \<and> hd p = CHR ''/'')"

definition endurance_unsuitable :: "supervised_endurance_authorization_v1 \<Rightarrow> bool" where
  "endurance_unsuitable endurance =
     (sea_schema_version endurance \<noteq> 1
      \<or> sea_evidence_schema_version endurance \<noteq> 2
      \<or> sea_stage endurance \<noteq> ''supervised-endurance''
      \<or> sea_record_status endurance \<noteq> RecordComplete
      \<or> sea_outcome endurance \<noteq> Passed
      \<or> \<not> sea_final_firmware_auto_confirmed endurance
      \<or> \<not> sea_workload_stopped endurance
      \<or> \<not> sea_service_stopped endurance
      \<or> \<not> authority_is_lower_hex (sea_evidence_sha256 endurance) 64
      \<or> \<not> path_is_absolute (sea_evidence_path endurance))"

definition validate_record_identity ::
  "qualification_record_v2 \<Rightarrow> (('t, 'j) policy_authority_error, unit) outcome" where
  "validate_record_identity rec =
     (if qr_schema_version rec \<noteq> 2 then Err (InvalidIdentity ''qualification record'' ''schema_version'')
      else
        bind_ok (validate_identifier ''qualification record'' ''qualification_id'' (qr_qualification_id rec)) (\<lambda>_.
        bind_ok (validate_identifier ''qualification record'' ''policy_version'' (qr_policy_version rec)) (\<lambda>_.
          if \<not> authority_is_lower_hex (qr_protected_policy_sha256 rec) 64
          then Err (InvalidIdentity ''qualification record'' ''protected_policy_sha256'')
          else if endurance_unsuitable (qr_supervised_endurance rec)
          then Err (InvalidIdentity ''qualification record'' ''supervised_endurance'')
          else validate_compatibility ''qualification record'' (qr_compatibility rec))))"

definition parse_protected_policy_v2 ::
  "('t, 'j) policy_readers \<Rightarrow> string \<Rightarrow> (('t, 'j) policy_authority_error, protected_policy_manifest_v2) outcome" where
  "parse_protected_policy_v2 R source =
     (case toml_from_str R source of
        Inl e \<Rightarrow> Err (ProtectedPolicyParse e)
      | Inr manifest \<Rightarrow> bind_ok (validate_manifest_identity manifest) (\<lambda>_. Ok manifest))"

definition parse_qualification_record_v2 ::
  "('t, 'j) policy_readers \<Rightarrow> string \<Rightarrow> (('t, 'j) policy_authority_error, qualification_record_v2) outcome" where
  "parse_qualification_record_v2 R source =
     (case serde_json_from_str R source of
        Inl e \<Rightarrow> Err (QualificationRecordParse e)
      | Inr rec \<Rightarrow> bind_ok (validate_record_identity rec) (\<lambda>_. Ok rec))"

definition validate_policy_authority ::
  "('t, 'j) policy_readers \<Rightarrow> string \<Rightarrow> string \<Rightarrow> compatibility_observation list
     \<Rightarrow> (('t, 'j) policy_authority_error, validated_policy_authority) outcome" where
  "validate_policy_authority R protected_policy_source qualification_record_source compatibility_observations =
     bind_ok (parse_protected_policy_v2 R protected_policy_source) (\<lambda>manifest.
     bind_ok (parse_qualification_record_v2 R qualification_record_source) (\<lambda>rec.
     bind_ok (authority_require_equal ''qualification_id'' (pm_qualification_id manifest) (qr_qualification_id rec)) (\<lambda>_.
     bind_ok (authority_require_equal ''policy_version'' (pm_policy_version manifest) (qr_policy_version rec)) (\<lambda>_.
     bind_ok (authority_require_equal ''compatibility'' (pm_compatibility manifest) (qr_compatibility rec)) (\<lambda>_.
     bind_ok (map_err CompatibilityAdmission
       (admit_compatibility (pm_compatibility manifest) compatibility_observations)) (\<lambda>_.
     (let protected_policy_sha256 = sha256_hex R protected_policy_source
      in
     bind_ok (authority_require_equal ''protected_policy_sha256'' protected_policy_sha256
       (qr_protected_policy_sha256 rec)) (\<lambda>_.
     bind_ok (map_err InvalidProtectedPolicy (validate_config_v1 (pm_protected manifest))) (\<lambda>protected.
     bind_ok (map_err InvalidTachometerCalibration (qualify (pm_calibration manifest) protected)) (\<lambda>calibration.
       Ok \<lparr>vpa_qualification_id = pm_qualification_id manifest, vpa_policy_version = pm_policy_version manifest,
           vpa_protected_policy_sha256 = protected_policy_sha256, vpa_compatibility = pm_compatibility manifest,
           vpa_calibration = calibration, vpa_protected = protected,
           vpa_endurance_evidence_path = sea_evidence_path (qr_supervised_endurance rec),
           vpa_endurance_evidence_sha256 = sea_evidence_sha256 (qr_supervised_endurance rec)\<rparr>))))))))))"

definition validate_policy_authority_sources ::
  "('t, 'j) policy_readers \<Rightarrow> string \<Rightarrow> string \<Rightarrow> compatibility_observation list
     \<Rightarrow> (('t, 'j) policy_authority_error, unit) outcome" where
  "validate_policy_authority_sources R protected_policy_source qualification_record_source compatibility_observations =
     bind_ok (validate_policy_authority R protected_policy_source qualification_record_source compatibility_observations)
       (\<lambda>_. Ok ())"

definition requalification_policy_snapshot_of ::
  "('t, 'j) policy_readers \<Rightarrow> string \<Rightarrow> (('t, 'j) policy_authority_error, requalification_policy_snapshot) outcome" where
  "requalification_policy_snapshot_of R protected_policy_source =
     bind_ok (parse_protected_policy_v2 R protected_policy_source) (\<lambda>manifest.
     bind_ok (map_err InvalidProtectedPolicy (validate_config_v1 (pm_protected manifest))) (\<lambda>protected.
       Ok \<lparr>rps_qualification_id = pm_qualification_id manifest, rps_policy_version = pm_policy_version manifest,
           rps_compatibility = pm_compatibility manifest,
           rps_protected_policy_sha256 = sha256_hex R protected_policy_source, rps_protected = protected\<rparr>))"

section \<open>Admission\<close>

text \<open>The trait \<open>RootOwnedQualificationRecordAccess\<close>.\<close>

record 'p qualification_access =
  read_root_owned_qualification_record :: "path \<Rightarrow> ('p, platform_error, string) io"
  verify_root_owned_supervised_endurance_evidence ::
    "string \<Rightarrow> string \<Rightarrow> qualification_envelope_identity_v1 \<Rightarrow> ('p, platform_error, unit) io"

definition expected_envelope :: "validated_policy_authority \<Rightarrow> qualification_envelope_identity_v1" where
  "expected_envelope v =
     \<lparr>qei_qualification_record_schema_version = 1, qei_qualification_id = vpa_qualification_id v,
      qei_policy_version = vpa_policy_version v, qei_protected_policy_sha256 = vpa_protected_policy_sha256 v,
      qei_compatibility = vpa_compatibility v\<rparr>"

definition admission_result ::
  "('p, 'l) platform_ops \<Rightarrow> 'p qualification_access \<Rightarrow> ('t, 'j) policy_readers \<Rightarrow> acer_hwmon_device \<Rightarrow> string \<Rightarrow> path
     \<Rightarrow> compatibility_observation list
     \<Rightarrow> (('p, 'l, 's) world, ('t, 'j) policy_authority_error, admitted_policy_authority) io" where
  "admission_result P Q R dev protected_policy_source qualification_record_path compatibility_observations =
     try_io (refresh_firmware_auto_confirmation P dev) (\<lambda>confirmed.
       if confirmed then
         try_io (map_err_io QualificationRecordRead
           (on_platform (read_root_owned_qualification_record Q qualification_record_path))) (\<lambda>qualification_record_source.
         try_io (get_io ownership_id) (\<lambda>i.
         try_io (return_io (validate_policy_authority R protected_policy_source qualification_record_source
           compatibility_observations)) (\<lambda>authority.
         try_io (map_err_io QualificationRecordRead
           (on_platform (verify_root_owned_supervised_endurance_evidence Q (vpa_endurance_evidence_path authority)
              (vpa_endurance_evidence_sha256 authority) (expected_envelope authority)))) (\<lambda>_.
           return_io (Ok (bind_to_ownership authority i))))))
       else return_io (Err AuthorityFirmwareAutoUnconfirmed))"

definition admit_policy_authority ::
  "('p, 'l) platform_ops \<Rightarrow> 'p qualification_access \<Rightarrow> ('t, 'j) policy_readers \<Rightarrow> acer_hwmon_device \<Rightarrow> string \<Rightarrow> path
     \<Rightarrow> compatibility_observation list
     \<Rightarrow> (('p, 'l, 's) world, ('t, 'j) policy_authority_admission_error, admitted_policy_authority) io" where
  "admit_policy_authority P Q R dev protected_policy_source qualification_record_path compatibility_observations =
     try_io (catch_io (admission_result P Q R dev protected_policy_source qualification_record_path
       compatibility_observations)) (\<lambda>result.
       case result of
         Inr authority \<Rightarrow> return_io (Ok authority)
       | Inl reason \<Rightarrow>
           try_io (catch_io (owned_restore_firmware_auto P dev)) (\<lambda>restored.
             return_io (Err
               (case restored of
                  Inr _ \<Rightarrow> AuthorityRejected reason
                | Inl restoration \<Rightarrow> AuthorityRestorationFailed reason restoration))))"

section \<open>What validation accepts\<close>

lemma authority_require_equal_cases [simp]:
  "authority_require_equal field x y = Ok () \<longleftrightarrow> x = y" "authority_require_equal field x y \<noteq> Panic"
  by (simp_all add: authority_require_equal_def)

definition identifier_ok :: "string \<Rightarrow> bool" where
  "identifier_ok s \<longleftrightarrow> 0 < length s \<and> length s \<le> 128
     \<and> (\<forall>b \<in> set s. is_ascii_alphanumeric b \<or> b = CHR ''.'' \<or> b = CHR ''_'' \<or> b = CHR ''-'')"

definition hex_digest :: "string \<Rightarrow> bool" where
  "hex_digest s \<longleftrightarrow> length s = 64 \<and> (\<forall>b \<in> set s. is_ascii_digit b \<or> b \<in> set ''abcdef'')"

lemma lower_hex_letters: "97 \<le> (of_char b :: nat) \<and> (of_char b :: nat) \<le> 102 \<longleftrightarrow> b \<in> set ''abcdef''"
proof -
  have "(of_char b :: nat) \<in> {97, 98, 99, 100, 101, 102} \<longleftrightarrow> b \<in> set ''abcdef''"
    by (auto simp: of_char_eq_iff [where 'a = nat, symmetric])
  moreover have "97 \<le> (of_char b :: nat) \<and> (of_char b :: nat) \<le> 102 \<longleftrightarrow> (of_char b :: nat) \<in> {97, 98, 99, 100, 101, 102}" by auto
  ultimately show ?thesis by blast
qed

lemma validate_identifier_cases [simp]:
  "validate_identifier artifact field s = Ok () \<longleftrightarrow> identifier_ok s" "validate_identifier artifact field s \<noteq> Panic"
  by (auto simp: validate_identifier_def identifier_ok_def list_all_iff not_less)

lemma authority_is_lower_hex_digest: "authority_is_lower_hex s 64 \<longleftrightarrow> hex_digest s"
  unfolding authority_is_lower_hex_def hex_digest_def lower_hex_letters by (simp add: list_all_iff)

lemma declaration_outcomes:
  "(validate_declaration d :: (unit compatibility_declaration_error, unit) outcome) = Ok ()
   \<or> (\<exists>f r. (validate_declaration d :: (unit compatibility_declaration_error, unit) outcome) = Err (DeclarationUnsafe f r))"
proof -
  have "(\<forall>r \<in> set rs. r = Ok () \<or> (\<exists>f x. r = Err (DeclarationUnsafe f x)))
      \<Longrightarrow> all_ok rs = Ok () \<or> (\<exists>f x. all_ok rs = Err (DeclarationUnsafe f x))"
    for rs :: "(unit compatibility_declaration_error, unit) outcome list"
    by (induction rs) auto
  then show ?thesis unfolding validate_declaration_def Let_def by (simp add: require_safe_def)
qed

abbreviation declaration_valid :: "compatibility_declaration_v1 \<Rightarrow> bool" where
  "declaration_valid d \<equiv> validate_declaration d = (Ok () :: (unit compatibility_declaration_error, unit) outcome)"

lemma validate_compatibility_cases [simp]:
  "validate_compatibility artifact d = Ok () \<longleftrightarrow> declaration_valid d" "validate_compatibility artifact d \<noteq> Panic"
  using declaration_outcomes [of d] by (auto simp: validate_compatibility_def)

definition manifest_ok :: "protected_policy_manifest_v2 \<Rightarrow> bool" where
  "manifest_ok m \<longleftrightarrow> pm_schema_version m = 2 \<and> identifier_ok (pm_qualification_id m) \<and> identifier_ok (pm_policy_version m)
     \<and> declaration_valid (pm_compatibility m)"

definition endurance_passed :: "supervised_endurance_authorization_v1 \<Rightarrow> bool" where
  "endurance_passed e \<longleftrightarrow> sea_schema_version e = 1 \<and> sea_evidence_schema_version e = 2
     \<and> sea_stage e = ''supervised-endurance'' \<and> sea_outcome e = Passed
     \<and> sea_final_firmware_auto_confirmed e \<and> sea_workload_stopped e \<and> sea_service_stopped e
     \<and> hex_digest (sea_evidence_sha256 e) \<and> (\<exists>s. sea_evidence_path e = CHR ''/'' # s)"

definition record_ok :: "qualification_record_v2 \<Rightarrow> bool" where
  "record_ok q \<longleftrightarrow> qr_schema_version q = 2 \<and> identifier_ok (qr_qualification_id q) \<and> identifier_ok (qr_policy_version q)
     \<and> hex_digest (qr_protected_policy_sha256 q) \<and> endurance_passed (qr_supervised_endurance q)
     \<and> declaration_valid (qr_compatibility q)"

lemma endurance_suitable_iff: "endurance_unsuitable e \<longleftrightarrow> \<not> endurance_passed e"
proof -
  have "path_is_absolute s \<longleftrightarrow> (\<exists>t. s = CHR ''/'' # t)" for s by (cases s) (auto simp: path_is_absolute_def)
  moreover have "sea_record_status e = RecordComplete" by (cases "sea_record_status e")
  ultimately show ?thesis by (auto simp: endurance_unsuitable_def endurance_passed_def authority_is_lower_hex_digest)
qed

lemma validate_manifest_identity_cases [simp]:
  "validate_manifest_identity m = Ok () \<longleftrightarrow> manifest_ok m" "validate_manifest_identity m \<noteq> Panic"
  by (auto simp: validate_manifest_identity_def manifest_ok_def bind_ok_eq_Ok bind_ok_eq_Panic)

lemma validate_record_identity_cases [simp]:
  "validate_record_identity q = Ok () \<longleftrightarrow> record_ok q" "validate_record_identity q \<noteq> Panic"
  by (auto simp: validate_record_identity_def record_ok_def bind_ok_eq_Ok bind_ok_eq_Panic authority_is_lower_hex_digest
      endurance_suitable_iff)

lemma parse_protected_policy_cases:
  "parse_protected_policy_v2 R s = Ok m \<longleftrightarrow> toml_from_str R s = Inr m \<and> manifest_ok m" "parse_protected_policy_v2 R s \<noteq> Panic"
  by (auto simp: parse_protected_policy_v2_def bind_ok_eq_Ok bind_ok_eq_Panic split: sum.splits)

lemma parse_qualification_record_cases:
  "parse_qualification_record_v2 R s = Ok q \<longleftrightarrow> serde_json_from_str R s = Inr q \<and> record_ok q"
  "parse_qualification_record_v2 R s \<noteq> Panic"
  by (auto simp: parse_qualification_record_v2_def bind_ok_eq_Ok bind_ok_eq_Panic split: sum.splits)

text \<open>The TOML library reads floating-point numbers as \<open>f64\<close> values.\<close>

definition typed_readers :: "('t, 'j) policy_readers \<Rightarrow> bool" where
  "typed_readers R \<longleftrightarrow> (\<forall>s m. toml_from_str R s = Inr m
     \<longrightarrow> f64_ok (max_down_ramp_percent_per_second (cfg_control (pm_protected m))))"

text \<open>The policy and the record name each other, the machine is the declared one and the policy is sound.\<close>

definition policy_qualified ::
  "('t, 'j) policy_readers \<Rightarrow> string \<Rightarrow> string \<Rightarrow> compatibility_observation list
     \<Rightarrow> protected_policy_manifest_v2 \<Rightarrow> qualification_record_v2 \<Rightarrow> bool" where
  "policy_qualified R policy source observations m q \<longleftrightarrow>
     toml_from_str R policy = Inr m \<and> manifest_ok m \<and> serde_json_from_str R source = Inr q \<and> record_ok q
     \<and> qr_qualification_id q = pm_qualification_id m \<and> qr_policy_version q = pm_policy_version m
     \<and> qr_compatibility q = pm_compatibility m \<and> admit_compatibility (pm_compatibility m) observations = Ok ()
     \<and> qr_protected_policy_sha256 q = sha256_hex R policy"

lemma validate_policy_authority_Ok:
  "validate_policy_authority R policy source observations = Ok v \<longleftrightarrow>
     (\<exists>m q protected calibration. policy_qualified R policy source observations m q
        \<and> validate_config_v1 (pm_protected m) = Ok protected \<and> qualify (pm_calibration m) protected = Ok calibration
        \<and> v = \<lparr>vpa_qualification_id = pm_qualification_id m, vpa_policy_version = pm_policy_version m,
               vpa_protected_policy_sha256 = sha256_hex R policy, vpa_compatibility = pm_compatibility m,
               vpa_calibration = calibration, vpa_protected = protected,
               vpa_endurance_evidence_path = sea_evidence_path (qr_supervised_endurance q),
               vpa_endurance_evidence_sha256 = sea_evidence_sha256 (qr_supervised_endurance q)\<rparr>)"
  unfolding validate_policy_authority_def Let_def bind_ok_eq_Ok
  by (auto simp: parse_protected_policy_cases parse_qualification_record_cases policy_qualified_def)

lemma admit_compatibility_no_panic: "admit_compatibility d os \<noteq> Panic"
proof -
  have u: "unique_observation d os \<noteq> Panic"
    using declaration_outcomes [of d] by (auto simp: unique_observation_def split: list.splits)
  have a: "(\<forall>r \<in> set rs. r \<noteq> Panic) \<Longrightarrow> all_ok rs \<noteq> Panic" for rs :: "(compatibility_admission_error, unit) outcome list"
    by (induction rs) (auto simp: bind_ok_eq_Panic)
  have "check_platform_compatibility d os \<noteq> Panic"
    using u unfolding check_platform_compatibility_def bind_ok_eq_Panic Let_def
    by (auto dest!: a [THEN notE, rotated] simp: require_equal_def)
  moreover have "check_trust_compatibility d os \<noteq> Panic"
    using u by (auto simp: check_trust_compatibility_def bind_ok_eq_Panic split: if_splits)
  moreover have "check_fan_abi_compatibility d os \<noteq> Panic"
    using u by (auto simp: check_fan_abi_compatibility_def bind_ok_eq_Panic require_equal_def
        split: if_splits option.splits list.splits fan_write_backend.splits)
  ultimately show ?thesis by (auto simp: admit_compatibility_def bind_ok_eq_Panic)
qed

lemma validated_config_ok:
  assumes "f64_ok (max_down_ramp_percent_per_second (cfg_control c))" "validate_config_v1 c = Ok v"
  shows "config_ok v"
  using validate_config_Ok [OF _ assms(1)] validate_config_Err [of c] assms(2) by (cases "config_valid c") auto

lemma validate_config_no_panic:
  assumes "f64_ok (max_down_ramp_percent_per_second (cfg_control c))"
  shows "validate_config_v1 c \<noteq> Panic"
  using validate_config_Ok(1) [OF _ assms] validate_config_Err [of c] by (cases "config_valid c") auto

lemma qualify_no_panic: "qualify config protected \<noteq> Panic"
  by (auto simp: qualify_def qualify_fan_def Let_def bind_ok_eq_Panic split: if_splits option.splits)

lemma validate_policy_authority_no_panic:
  assumes "typed_readers R"
  shows "validate_policy_authority R policy source observations \<noteq> Panic"
proof -
  have "validate_config_v1 (pm_protected m) \<noteq> Panic" if "toml_from_str R policy = Inr m" for m
    using validate_config_no_panic assms that by (auto simp: typed_readers_def)
  then show ?thesis
    unfolding validate_policy_authority_def Let_def bind_ok_eq_Panic
    by (auto simp: parse_protected_policy_cases parse_qualification_record_cases admit_compatibility_no_panic qualify_no_panic)
qed

section \<open>The scripted platform's records\<close>

text \<open>
  \<open>platform.rs\<close>: reading a protected record, and the check of the evidence it names. What
  \<open>evidence.rs\<close> and \<open>endurance.rs\<close> say of an evidence document is a parameter.
\<close>

record 'v evidence_reader =
  parse_evidence_v2 :: "string \<Rightarrow> string + 'v"
  ev_qualification_envelope :: "'v \<Rightarrow> qualification_envelope_identity_v1"
  ev_stage :: "'v \<Rightarrow> string"
  ev_outcome_status :: "'v \<Rightarrow> run_outcome_status"
  supervised_endurance_is_complete :: "'v \<Rightarrow> bool"

definition verify_supervised_endurance_evidence_source ::
  "'v evidence_reader \<Rightarrow> (string \<Rightarrow> string) \<Rightarrow> string \<Rightarrow> string \<Rightarrow> qualification_envelope_identity_v1
     \<Rightarrow> (platform_error, unit) outcome" where
  "verify_supervised_endurance_evidence_source V sha256 source expected_sha256 envelope =
     (let digest = sha256 source
      in case parse_evidence_v2 V source of
           Inl error \<Rightarrow> Err (platform_error_new Unavailable (''invalid supervised endurance evidence: '' @ error))
         | Inr rec \<Rightarrow>
             if digest \<noteq> expected_sha256
                \<or> ev_qualification_envelope V rec \<noteq> envelope
                \<or> ev_stage V rec \<noteq> ''supervised-endurance''
                \<or> ev_outcome_status V rec \<noteq> Passed
                \<or> \<not> supervised_endurance_is_complete V rec
             then Err (platform_error_new PermissionDenied
                    ''supervised endurance evidence does not match its authorization'')
             else Ok ())"

text \<open>Every path of the scripted platform is absolute.\<close>

definition fake_read_root_owned_qualification_record :: "path \<Rightarrow> (fake_platform, platform_error, string) io" where
  "fake_read_root_owned_qualification_record path =
     try_io (log_operation (OpRead path)) (\<lambda>_.
     try_io apply_next_file_step (\<lambda>_.
       inspect_io (\<lambda>p.
         case map_of (files p) path of
           None \<Rightarrow> Err (missing path)
         | Some file \<Rightarrow>
             if \<not> ff_root_owned file \<or> mode (ff_permissions file) AND 18 \<noteq> 0 \<or> \<not> readable (ff_permissions file)
             then Err (permission_denied path ''protected root-owned regular file'')
             else Ok (ff_contents file))))"

text \<open>\<open>Path::new\<close> on absolute text: separators and single dots do not count.\<close>

definition path_new :: "string \<Rightarrow> path" where
  "path_new s = filter (\<lambda>c. c \<noteq> [] \<and> c \<noteq> ''.'') (split_slash s)"

definition fake_verify_root_owned_supervised_endurance_evidence ::
  "'v evidence_reader \<Rightarrow> (string \<Rightarrow> string) \<Rightarrow> string \<Rightarrow> string \<Rightarrow> qualification_envelope_identity_v1
     \<Rightarrow> (fake_platform, platform_error, unit) io" where
  "fake_verify_root_owned_supervised_endurance_evidence V sha256 path expected_sha256 envelope =
     try_io (fake_read_root_owned_qualification_record (path_new path)) (\<lambda>source.
       return_io (verify_supervised_endurance_evidence_source V sha256 source expected_sha256 envelope))"

definition fake_qualification :: "'v evidence_reader \<Rightarrow> (string \<Rightarrow> string) \<Rightarrow> fake_platform qualification_access" where
  "fake_qualification V sha256 =
     \<lparr>read_root_owned_qualification_record = fake_read_root_owned_qualification_record,
      verify_root_owned_supervised_endurance_evidence = fake_verify_root_owned_supervised_endurance_evidence V sha256\<rparr>"

section \<open>The records as an interface\<close>

text \<open>Reading the records leaves the fans alone.\<close>

locale qualification_store = fan_platform P sound content now
  for P :: "('p, 'l) platform_ops"
    and sound :: "'p \<Rightarrow> bool"
    and content :: "'p \<Rightarrow> path \<Rightarrow> string option"
    and now :: "'p \<Rightarrow> duration" +
  fixes Q :: "'p qualification_access"
  assumes record_spec:
      "sound p \<Longrightarrow> wp (read_root_owned_qualification_record Q path) (\<lambda>r p'. steady sound content now p p' \<and> r \<noteq> Panic) p"
    and evidence_spec:
      "sound p \<Longrightarrow> wp (verify_root_owned_supervised_endurance_evidence Q text digest envelope)
         (\<lambda>r p'. steady sound content now p p' \<and> r \<noteq> Panic) p"

lemma file_step_quiet:
  assumes "quiet p"
  shows "wp apply_next_file_step (\<lambda>r p'. steady quiet file_contents monotonic_time p p' \<and> r \<noteq> Panic) p"
proof -
  have st: "wp (apply_step st) (\<lambda>r p'. steady quiet file_contents monotonic_time p p' \<and> r \<noteq> Panic) q"
    if "quiet_step st" "quiet q" "files q = files p" "monotonic_time q = monotonic_time p" for st q
    using that by (cases st) (auto simp: wp_def steady_def quiet_def file_contents_def duration_saturating_add_def)
  show ?thesis
  proof (cases "file_steps p")
    case Nil
    show ?thesis
    proof (cases "steps p")
      case (Cons x xs)
      have "wp (apply_step x) (\<lambda>r p'. steady quiet file_contents monotonic_time p p' \<and> r \<noteq> Panic) (p\<lparr>steps := xs\<rparr>)"
        by (rule st) (use assms Cons in \<open>auto simp: quiet_def\<close>)
      then show ?thesis by (simp add: wp_def apply_next_file_step_def apply_next_step_def Nil Cons)
    qed (use assms Nil in \<open>simp add: wp_def apply_next_file_step_def apply_next_step_def steady_def\<close>)
  next
    case (Cons x xs)
    have "wp (apply_step x) (\<lambda>r p'. steady quiet file_contents monotonic_time p p' \<and> r \<noteq> Panic) (p\<lparr>file_steps := xs\<rparr>)"
      by (rule st) (use assms Cons in \<open>auto simp: quiet_def\<close>)
    then show ?thesis by (simp add: wp_def apply_next_file_step_def Cons)
  qed
qed

interpretation fake: qualification_store fake_ops quiet file_contents monotonic_time "fake_qualification V sha256"
proof unfold_locales
  fix p :: fake_platform assume q: "quiet p"
  have rd: "wp (fake_read_root_owned_qualification_record path)
      (\<lambda>r p'. steady quiet file_contents monotonic_time p p' \<and> r \<noteq> Panic) p" for path
  proof -
    have "wp apply_next_file_step (\<lambda>r p'. steady quiet file_contents monotonic_time p p' \<and> r \<noteq> Panic) (p\<lparr>operations := ops\<rparr>)" for ops
      using file_step_quiet [of "p\<lparr>operations := ops\<rparr>"] q by (simp add: steady_def file_contents_def)
    then show ?thesis
      unfolding fake_read_root_owned_qualification_record_def wp_try_io wp_log_operation outcome.case
      by (rule wp_mono) (auto simp: wp_inspect_io split: outcome.splits option.splits)
  qed
  then show "wp (read_root_owned_qualification_record (fake_qualification V sha256) path)
      (\<lambda>r p'. steady quiet file_contents monotonic_time p p' \<and> r \<noteq> Panic) p" for path
    by (simp add: fake_qualification_def)
  have "verify_supervised_endurance_evidence_source V sha256 source digest envelope \<noteq> Panic" for source digest envelope
    by (simp add: verify_supervised_endurance_evidence_source_def Let_def split: sum.split)
  then show "wp (verify_root_owned_supervised_endurance_evidence (fake_qualification V sha256) text digest envelope)
      (\<lambda>r p'. steady quiet file_contents monotonic_time p p' \<and> r \<noteq> Panic) p" for "text" digest envelope
    by (auto simp: fake_qualification_def fake_verify_root_owned_supervised_endurance_evidence_def wp_try_io wp_return
        intro!: wp_mono [OF rd] split: outcome.splits)
qed

section \<open>The admission's contract\<close>

text \<open>The lock and the identity of the ownership: only acquiring and releasing change them.\<close>

interpretation holding: world_observer "\<lambda>w. [(own_lock w, ownership_id w)]" "\<lambda>_. []"
  by unfold_locales simp_all

text \<open>
  Where an admitted authority comes from: a record that was read, a policy it qualifies, an evidence
  check that passed for exactly this policy, and a validated configuration with its calibration.
\<close>

definition admitted_from ::
  "'p qualification_access \<Rightarrow> ('t, 'j) policy_readers \<Rightarrow> string \<Rightarrow> path \<Rightarrow> compatibility_observation list \<Rightarrow> u64
     \<Rightarrow> admitted_policy_authority \<Rightarrow> bool" where
  "admitted_from Q R policy path observations i a \<longleftrightarrow>
     (\<exists>source m q. (\<exists>p p'. read_root_owned_qualification_record Q path p = (Ok source, p'))
        \<and> policy_qualified R policy source observations m q
        \<and> (\<exists>p p'. verify_root_owned_supervised_endurance_evidence Q (sea_evidence_path (qr_supervised_endurance q))
             (sea_evidence_sha256 (qr_supervised_endurance q)) (evidence_identity a) p = (Ok (), p'))
        \<and> validate_config_v1 (pm_protected m) = Ok (apa_protected a)
        \<and> qualify (pm_calibration m) (apa_protected a) = Ok (apa_calibration a)
        \<and> apa_qualification_id a = qr_qualification_id q \<and> apa_policy_version a = qr_policy_version q
        \<and> apa_protected_policy_sha256 a = qr_protected_policy_sha256 q \<and> apa_compatibility a = qr_compatibility q
        \<and> apa_ownership_id a = i)"

lemma admitted_authority_ok:
  "typed_readers R \<Longrightarrow> admitted_from Q R policy path observations i a \<Longrightarrow> authority_ok a"
  by (auto simp: admitted_from_def authority_ok_def typed_readers_def policy_qualified_def dest: validated_config_ok qualify_ok)

lemma bound_authority:
  assumes "read_root_owned_qualification_record Q path p = (Ok source, p')"
    "validate_policy_authority R policy source observations = Ok v"
    "verify_root_owned_supervised_endurance_evidence Q (vpa_endurance_evidence_path v)
       (vpa_endurance_evidence_sha256 v) (expected_envelope v) p2 = (Ok (), p3)"
  shows "admitted_from Q R policy path observations i (bind_to_ownership v i)"
proof -
  have e: "evidence_identity (bind_to_ownership v i) = expected_envelope v"
    by (simp add: evidence_identity_def bind_to_ownership_def expected_envelope_def)
  obtain m q where mq: "policy_qualified R policy source observations m q"
    "validate_config_v1 (pm_protected m) = Ok (vpa_protected v)" "qualify (pm_calibration m) (vpa_protected v) = Ok (vpa_calibration v)"
    "vpa_qualification_id v = pm_qualification_id m" "vpa_policy_version v = pm_policy_version m"
    "vpa_protected_policy_sha256 v = sha256_hex R policy" "vpa_compatibility v = pm_compatibility m"
    "vpa_endurance_evidence_path v = sea_evidence_path (qr_supervised_endurance q)"
    "vpa_endurance_evidence_sha256 v = sea_evidence_sha256 (qr_supervised_endurance q)"
    using assms(2) unfolding validate_policy_authority_Ok by auto
  show ?thesis
    unfolding admitted_from_def e
    by (rule exI [of _ source], rule exI [of _ m], rule exI [of _ q])
      (use mq assms(1,3) in \<open>auto simp: bind_to_ownership_def policy_qualified_def\<close>)
qed

context qualification_store
begin

lemma on_store:
  assumes "sound (platform w)" "wp m (\<lambda>r p'. steady sound content now (platform w) p' \<and> r \<noteq> Panic) (platform w)"
  shows "wp (map_err_io f (on_platform m)) (\<lambda>r w'. r \<noteq> Panic \<and> (\<exists>p. w' = w\<lparr>platform := p\<rparr> \<and> sound p \<and> content p = content (platform w)
     \<and> (\<forall>x. r = Ok x \<longrightarrow> m (platform w) = (Ok x, p)))) w"
  using assms by (auto simp: wp_def map_err_io_def on_platform_def steady_def split: prod.splits)

lemma admission_result_post:
  assumes "device_ok dev" "owner_safe sound content w" "typed_readers R"
  shows "wp (admission_result P Q R dev policy path observations) (\<lambda>r w'. (unat (sampling_epoch w) + 1 < 2 ^ 64 \<longrightarrow> r \<noteq> Panic)
     \<and> (r \<noteq> Panic \<longrightarrow> owner_safe sound content w' \<and> unat (sampling_epoch w') \<le> unat (sampling_epoch w) + 1
          \<and> content (platform w') = content (platform w)
          \<and> (\<forall>a. r = Ok a \<longrightarrow> auto_held content dev w' \<and> admitted_from Q R policy path observations (ownership_id w') a))) w"
    (is "wp _ ?Q w")
proof -
  have s: "sound (platform w)" using assms(2) by (simp add: owner_safe_def)
  have admit: "wp (try_io (map_err_io QualificationRecordRead (on_platform (read_root_owned_qualification_record Q path))) (\<lambda>source.
         try_io (get_io ownership_id) (\<lambda>i.
         try_io (return_io (validate_policy_authority R policy source observations)) (\<lambda>authority.
         try_io (map_err_io QualificationRecordRead
           (on_platform (verify_root_owned_supervised_endurance_evidence Q (vpa_endurance_evidence_path authority)
              (vpa_endurance_evidence_sha256 authority) (expected_envelope authority)))) (\<lambda>_.
           return_io (Ok (bind_to_ownership authority i))))))) ?Q w1"
    if w1: "owner_safe sound content w1" "unat (sampling_epoch w1) \<le> unat (sampling_epoch w) + 1"
      "content (platform w1) = content (platform w)" "auto_held content dev w1" for w1
  proof -
    have s1: "sound (platform w1)" using w1(1) by (simp add: owner_safe_def)
    have moved: "?Q r (w1\<lparr>platform := p\<rparr>) \<longleftrightarrow> r \<noteq> Panic \<or> \<not> unat (sampling_epoch w) + 1 < 2 ^ 64"
      if "\<forall>a. r \<noteq> Ok a" "sound p" "content p = content (platform w1)" for r p
      using that w1 by (auto simp: owner_safe_def foreign_device_def)
    show ?thesis
    proof (rule wp_try [OF on_store [OF s1 record_spec [OF s1]]], goal_cases)
      case (1 source w2)
      then obtain p where w2: "w2 = w1\<lparr>platform := p\<rparr>" "sound p" "content p = content (platform w1)"
        "read_root_owned_qualification_record Q path (platform w1) = (Ok source, p)" by auto
      have s2: "sound (platform w2)" using w2 by simp
      show ?case
        unfolding wp_try_io [of "get_io _"] wp_get_io outcome.case
      proof (cases "validate_policy_authority R policy source observations")
        case (Ok v)
        show "wp (try_io (return_io (validate_policy_authority R policy source observations)) (\<lambda>authority.
         try_io (map_err_io QualificationRecordRead
           (on_platform (verify_root_owned_supervised_endurance_evidence Q (vpa_endurance_evidence_path authority)
              (vpa_endurance_evidence_sha256 authority) (expected_envelope authority)))) (\<lambda>_.
           return_io (Ok (bind_to_ownership authority (ownership_id w2)))))) ?Q w2"
          unfolding Ok try_io_known
        proof (rule wp_try [OF on_store [OF s2 evidence_spec [OF s2]]], goal_cases)
          case (1 u w3)
          then show ?case
            using w1 w2 bound_authority [OF w2(4) Ok]
            by (auto simp: wp_return auto_held_def owner_safe_def foreign_device_def)
        next
          case (2 e w3)
          then show ?case using w1 w2 by (auto simp: auto_held_def owner_safe_def foreign_device_def)
        qed (use w1 w2 in auto)
      qed (use w1 w2 validate_policy_authority_no_panic [OF assms(3)] in
          \<open>auto simp: wp_return owner_safe_def foreign_device_def\<close>)
    next
      case (2 e w2)
      then show ?case using w1 by (auto simp: owner_safe_def foreign_device_def)
    qed auto
  qed
  show ?thesis
    unfolding admission_result_def
  proof (rule wp_try [OF wp_conj [OF refresh_spec [OF assms(1,2)] counts_refresh [OF assms(1), unfolded counts_def, rule_format, OF s]]], goal_cases)
    case (1 confirmed w1)
    then show ?case
      using admit [of w1] by (auto simp: counted_def auto_held_def wp_return)
  qed (auto simp: counted_def)
qed

lemma restore_counted:
  assumes "device_ok dev" "sound (platform w)"
  shows "wp (owned_restore_firmware_auto P dev) (\<lambda>r w'. (unat (sampling_epoch w) + 1 < 2 ^ 64 \<longrightarrow> r \<noteq> Panic)
     \<and> (r \<noteq> Panic \<longrightarrow> unat (sampling_epoch w') = unat (sampling_epoch w) + 1)) w"
  unfolding owned_restore_firmware_auto_def
proof (rule wp_try [OF wp_conj [OF invalidate_spec invalidate_epoch]], goal_cases)
  case (1 x w1)
  then have "sound (platform w1)" using assms(2) by simp
  from restore_spec [OF assms(1) this] show ?case
    by (rule wp_try) (use 1 in \<open>auto simp: io_simps ran_to_fields split: option.splits\<close>)
qed auto

lemma admit_post:
  assumes "device_ok dev" "owner_safe sound content w" "typed_readers R"
  shows "wp (admit_policy_authority P Q R dev policy path observations) (\<lambda>r w'.
     (unat (sampling_epoch w) + 2 < 2 ^ 64 \<longrightarrow> r \<noteq> Panic)
     \<and> (r \<noteq> Panic \<longrightarrow> owner_safe sound content w' \<and> unat (sampling_epoch w') \<le> unat (sampling_epoch w) + 2
          \<and> (\<forall>a. r = Ok a \<longrightarrow> content (platform w') = content (platform w) \<and> auto_held content dev w'
               \<and> admitted_from Q R policy path observations (ownership_id w') a)
          \<and> (\<forall>e. r = Err e \<longrightarrow> (restoration_confirmed w' \<longleftrightarrow> (\<exists>reason. e = AuthorityRejected reason))
               \<and> (\<forall>reason. e = AuthorityRejected reason \<longrightarrow> in_firmware_auto dev (content (platform w')))
               \<and> only_stored (enable_paths dev) firmware_auto (content (platform w)) (content (platform w'))))) w"
  unfolding admit_policy_authority_def
proof (rule wp_try [OF wp_catch [OF admission_result_post [OF assms]]], goal_cases)
  case (1 x w1)
  show ?case
  proof (cases x)
    case (Inl reason)
    have w1: "owner_safe sound content w1" "unat (sampling_epoch w1) \<le> unat (sampling_epoch w) + 1"
      "content (platform w1) = content (platform w)"
      using 1 Inl by auto
    then have s1: "sound (platform w1)" by (simp add: owner_safe_def)
    show ?thesis
      unfolding Inl sum.case
      by (rule wp_try [OF wp_catch [OF wp_conj [OF owned_restore_safe [OF assms(1) s1] restore_counted [OF assms(1) s1]]]])
        (use w1 in \<open>auto simp: wp_return split: sum.splits\<close>)
  qed (use 1 in \<open>auto simp: wp_return\<close>)
qed (auto split: outcome.splits)

end

section \<open>A qualified policy\<close>

definition sample_digest :: string where "sample_digest = replicate 64 CHR ''a''"

definition sample_manifest :: protected_policy_manifest_v2 where
  "sample_manifest =
     \<lparr>pm_schema_version = 2, pm_qualification_id = ''pt31553-1'', pm_policy_version = ''1.0'',
      pm_compatibility = qualified_declaration, pm_calibration = sample_calibration_config, pm_protected = example_config\<rparr>"

definition sample_record :: qualification_record_v2 where
  "sample_record =
     \<lparr>qr_schema_version = 2, qr_qualification_id = ''pt31553-1'', qr_policy_version = ''1.0'',
      qr_protected_policy_sha256 = sample_digest, qr_compatibility = qualified_declaration,
      qr_supervised_endurance =
        \<lparr>sea_schema_version = 1, sea_evidence_sha256 = sample_digest, sea_evidence_path = ''/evidence'',
         sea_evidence_schema_version = 2, sea_stage = ''supervised-endurance'', sea_record_status = RecordComplete,
         sea_outcome = Passed, sea_final_firmware_auto_confirmed = True, sea_workload_stopped = True,
         sea_service_stopped = True, sea_completed_at = \<lparr>monotonic_millis = 0, wall_unix_millis = 0\<rparr>\<rparr>\<rparr>"

definition sample_readers :: "(unit, unit) policy_readers" where
  "sample_readers =
     \<lparr>toml_from_str = (\<lambda>_. Inr sample_manifest), serde_json_from_str = (\<lambda>_. Inr sample_record),
      sha256_hex = (\<lambda>_. sample_digest)\<rparr>"

definition sample_envelope :: qualification_envelope_identity_v1 where
  "sample_envelope =
     \<lparr>qei_qualification_record_schema_version = 1, qei_qualification_id = ''pt31553-1'', qei_policy_version = ''1.0'',
      qei_protected_policy_sha256 = sample_digest, qei_compatibility = qualified_declaration\<rparr>"

definition sample_evidence :: "unit evidence_reader" where
  "sample_evidence =
     \<lparr>parse_evidence_v2 = (\<lambda>_. Inr ()), ev_qualification_envelope = (\<lambda>_. sample_envelope),
      ev_stage = (\<lambda>_. ''supervised-endurance''), ev_outcome_status = (\<lambda>_. Passed),
      supervised_endurance_is_complete = (\<lambda>_. True)\<rparr>"

abbreviation sample_store :: "fake_platform qualification_access" where
  "sample_store \<equiv> fake_qualification sample_evidence (\<lambda>_. sample_digest)"

definition qualified_platform :: fake_platform where
  "qualified_platform = auto_platform\<lparr>files := files auto_platform @
     [([''record''], sample_file ''record'' permissions_read_only), ([''evidence''], sample_file ''evidence'' permissions_read_only)]\<rparr>"

definition qualified_world :: "(fake_platform, fake_runtime_lock, unit) world" where
  "qualified_world = (world_of qualified_platform ())\<lparr>restoration_confirmed := True\<rparr>"

lemma sample_typed: "typed_readers sample_readers"
  using example_config_valid(2) by (simp add: typed_readers_def sample_readers_def sample_manifest_def)

lemma qualified_declaration_valid: "declaration_valid qualified_declaration"
  by code_simp

lemma sample_digest_hex: "hex_digest sample_digest"
  by (simp add: hex_digest_def sample_digest_def)

lemma sample_identifiers: "identifier_ok ''pt31553-1''" "identifier_ok ''1.0''"
  by code_simp+

lemma sample_policy_qualified:
  "policy_qualified sample_readers policy source [qualified_observation] sample_manifest sample_record"
  by (simp add: policy_qualified_def sample_readers_def manifest_ok_def record_ok_def endurance_passed_def sample_manifest_def
      sample_record_def qualified_declaration_valid sample_digest_hex sample_identifiers qualified_admitted)

lemma sample_policy_validated:
  "\<exists>v. validate_policy_authority sample_readers policy source [qualified_observation] = Ok v
     \<and> vpa_endurance_evidence_path v = ''/evidence'' \<and> vpa_endurance_evidence_sha256 v = sample_digest
     \<and> expected_envelope v = sample_envelope"
proof -
  have "validate_config_v1 (pm_protected sample_manifest) = Ok (exact_config example_config)"
    using validate_config_Ok(1) [OF example_config_valid] by (simp add: sample_manifest_def)
  moreover have "qualify (pm_calibration sample_manifest) (exact_config example_config) = Ok sample_calibrations"
    using sample_qualifies by (simp add: sample_manifest_def)
  ultimately show ?thesis
    unfolding validate_policy_authority_Ok using sample_policy_qualified [of policy source]
    by (fastforce simp: expected_envelope_def sample_envelope_def sample_manifest_def sample_record_def sample_readers_def)
qed

lemma sample_store_reads:
  "case refresh_firmware_auto_confirmation fake_ops sample_device qualified_world of
     (r, w) \<Rightarrow> r = (Ok True :: ((unit, unit) policy_authority_error, bool) outcome) \<and>
       (case fake_read_root_owned_qualification_record [''record''] (platform w) of
          (s, p) \<Rightarrow> is_ok s \<and> (case fake_verify_root_owned_supervised_endurance_evidence sample_evidence (\<lambda>_. sample_digest)
             ''/evidence'' sample_digest sample_envelope p of (u, _) \<Rightarrow> is_ok u))"
  by code_simp

lemma qualified_safe: "owner_safe quiet file_contents qualified_world" "quiet (platform qualified_world)"
proof -
  have "file_contents (platform qualified_world) (enable_path (dev_cpu sample_device)) = Some firmware_auto"
    "file_contents (platform qualified_world) (enable_path (dev_gpu sample_device)) = Some firmware_auto" "trim firmware_auto = firmware_auto"
    by code_simp+
  then have "in_firmware_auto sample_device (file_contents (platform qualified_world))"
    by (simp add: in_firmware_auto_def enable_paths_def device_fans_def)
  moreover show q: "quiet (platform qualified_world)"
    by (simp add: quiet_def qualified_world_def qualified_platform_def world_of_def auto_platform_def sample_platform_def fake_new_def)
  ultimately show "owner_safe quiet file_contents qualified_world"
    using sample_device_ok by (auto simp: owner_safe_def qualified_world_def world_of_def foreign_device_def)
qed

lemma sample_admitted:
  "\<exists>a w'. admit_policy_authority fake_ops sample_store sample_readers sample_device policy [''record''] [qualified_observation] qualified_world
     = (Ok a, w')"
proof -
  let ?w = qualified_world
  obtain w source p u p' where w: "refresh_firmware_auto_confirmation fake_ops sample_device ?w
      = (Ok True :: ((unit, unit) policy_authority_error, bool) outcome, w)"
    and rd: "fake_read_root_owned_qualification_record [''record''] (platform w) = (Ok source, p)"
    and ev: "fake_verify_root_owned_supervised_endurance_evidence sample_evidence (\<lambda>_. sample_digest) ''/evidence'' sample_digest
      sample_envelope p = (Ok u, p')"
    using sample_store_reads by (auto simp: is_ok_def split: prod.splits outcome.splits)
  obtain v where v: "validate_policy_authority sample_readers policy source [qualified_observation] = Ok v"
    "vpa_endurance_evidence_path v = ''/evidence''" "vpa_endurance_evidence_sha256 v = sample_digest" "expected_envelope v = sample_envelope"
    using sample_policy_validated by blast
  have "admission_result fake_ops sample_store sample_readers sample_device policy [''record''] [qualified_observation] ?w
      = (Ok (bind_to_ownership v (ownership_id w)), w\<lparr>platform := p'\<rparr>)"
    by (simp add: admission_result_def w fake_qualification_def on_platform_def rd v ev get_io_def)
      (rule exI [of _ True], simp)
  then show ?thesis by (simp add: admit_policy_authority_def catch_io_def)
qed

section \<open>Property\<close>



end
