(* ===== verification/Startup.thy ===== *)
theory Startup
  imports Authority
begin

text \<open>
  The daemon's startup (\<open>fan-control-daemon/src/lib.rs\<close>): the whole admission sequence from the
  configuration text to armed control, which is the daemon's only way into Custom. Every failure after
  the lock was taken goes through one of two exits that restore Firmware Auto, or recover it for as
  long as that takes, before the lock is given back.

  Where the code keeps the rendered text of a reason, the model keeps the reason itself. The three
  readers of text are the TOML library's and are parameters.
\<close>

section \<open>Inputs and errors\<close>

record startup_inputs =
  si_editable_config :: string
  si_compatibility_declaration :: string
  si_protected_policy :: string
  si_qualification_record_path :: path
  si_compatibility_observations :: "compatibility_observation list"
  si_hwmon_root :: path

text \<open>The exclusive ownership itself is part of the world.\<close>

record qualified_startup =
  qs_device :: acer_hwmon_device
  qs_authority :: admitted_policy_authority
  qs_armed :: armed_fan_control

datatype ('c, 'd, 't, 'j) startup_error =
    StartupConfiguration "'c + config_validation_error"
  | StartupCompatibility "'d compatibility_declaration_error + compatibility_admission_error"
  | StartupOwnership controller_ownership_error
  | StartupDevice "acer_hwmon_discovery_error option"
  | StartupSafing firmware_auto_restoration_error "('c, 'd, 't, 'j) startup_error option" emergency_containment_report
  | StartupAuthority "('t, 'j) policy_authority_admission_error"
  | StartupSampling "sample_set_error option"
  | StartupArming fan_arming_error
  | StartupRelease "platform_error option" "firmware_auto_restoration_error option" "('c, 'd, 't, 'j) startup_error option"
  | StartupShutdownRequested

fun startup_diagnostic_id :: "('c, 'd, 't, 'j) startup_error \<Rightarrow> string" where
  "startup_diagnostic_id (StartupConfiguration _) = ''configuration-rejected''"
| "startup_diagnostic_id (StartupCompatibility _) = ''configuration-rejected''"
| "startup_diagnostic_id (StartupAuthority _) = ''configuration-rejected''"
| "startup_diagnostic_id (StartupOwnership _) = ''ownership-denied''"
| "startup_diagnostic_id (StartupDevice _) = ''sensor-unavailable''"
| "startup_diagnostic_id (StartupSampling _) = ''sensor-unavailable''"
| "startup_diagnostic_id (StartupSafing _ _ _) = ''firmware-auto-unconfirmed''"
| "startup_diagnostic_id (StartupArming _) = ''arming-rejected''"
| "startup_diagnostic_id (StartupRelease _ _ _) = ''platform-operation-failed''"
| "startup_diagnostic_id StartupShutdownRequested = ''shutdown-requested''"

fun startup_runtime_fault :: "('c, 'd, 't, 'j) startup_error \<Rightarrow> runtime_fault" where
  "startup_runtime_fault (StartupConfiguration _) = FaultConfigurationRejected"
| "startup_runtime_fault (StartupCompatibility _) = FaultConfigurationRejected"
| "startup_runtime_fault (StartupAuthority _) = FaultConfigurationRejected"
| "startup_runtime_fault (StartupOwnership _) = FaultOwnershipDenied"
| "startup_runtime_fault (StartupDevice _) = FaultSensorUnavailable"
| "startup_runtime_fault (StartupSampling _) = FaultSensorUnavailable"
| "startup_runtime_fault (StartupSafing _ _ _) = FaultFirmwareAutoUnconfirmed"
| "startup_runtime_fault (StartupArming _) = FaultArmingRejected"
| "startup_runtime_fault (StartupRelease _ _ _) = FaultPlatformOperation"
| "startup_runtime_fault StartupShutdownRequested = FaultShutdownRequested"

section \<open>Reading the configuration\<close>

record ('c, 'd) configuration_readers =
  config_from_str :: "string \<Rightarrow> 'c + config_v1"
  declaration_from_str :: "string \<Rightarrow> 'd + compatibility_declaration_v1"

definition outcome_of :: "'e + 'a \<Rightarrow> ('e, 'a) outcome" where
  "outcome_of r = (case r of Inl e \<Rightarrow> Err e | Inr x \<Rightarrow> Ok x)"

definition parse_config_v1 :: "('c, 'd) configuration_readers \<Rightarrow> string \<Rightarrow> ('c, config_v1) outcome" where
  "parse_config_v1 F source = outcome_of (config_from_str F source)"

definition parse_candidate ::
  "('c, 'd) configuration_readers \<Rightarrow> string \<Rightarrow> (('c, 'd, 't, 'j) startup_error, validated_config) outcome" where
  "parse_candidate F source =
     bind_ok (map_err (\<lambda>e. StartupConfiguration (Inl e)) (parse_config_v1 F source)) (\<lambda>config.
       map_err (\<lambda>e. StartupConfiguration (Inr e)) (validate_config_v1 config))"

section \<open>The two exits\<close>

definition recover_after_restore_failure ::
  "('p, 'l) platform_ops \<Rightarrow> acer_hwmon_device \<Rightarrow> firmware_auto_restoration_error \<Rightarrow> ('c, 'd, 't, 'j) startup_error option
     \<Rightarrow> (('p, 'l, 's) world, ('c, 'd, 't, 'j) startup_error, 'a) dio" where
  "recover_after_restore_failure P dev restoration rejection =
     try_dio (total_io (owned_contain_custom_fans_at_maximum P dev)) (\<lambda>containment.
     try_dio (owned_recover_firmware_auto P dev) (\<lambda>_.
       total_io
         (try_io (catch_io (release_ownership P)) (\<lambda>released.
            return_io (Err
              (case released of
                 Inr _ \<Rightarrow> StartupSafing restoration rejection containment
               | Inl unreleased \<Rightarrow> StartupRelease unreleased (Some restoration) rejection))))))"

definition reject_owned ::
  "('p, 'l) platform_ops \<Rightarrow> acer_hwmon_device \<Rightarrow> ('c, 'd, 't, 'j) startup_error
     \<Rightarrow> (('p, 'l, 's) world, ('c, 'd, 't, 'j) startup_error, 'a) dio" where
  "reject_owned P dev rejection =
     try_dio (total_io (catch_io (owned_restore_firmware_auto P dev))) (\<lambda>restored.
       case restored of
         Inl error \<Rightarrow> recover_after_restore_failure P dev error (Some rejection)
       | Inr _ \<Rightarrow>
           total_io
             (try_io (catch_io (release_ownership P)) (\<lambda>released.
                return_io (Err
                  (case released of
                     Inr _ \<Rightarrow> rejection
                   | Inl error \<Rightarrow> StartupRelease error None (Some rejection))))))"

text \<open>A check of the shutdown request between two stages.\<close>

definition unless_shutdown ::
  "('p, 'l) platform_ops \<Rightarrow> acer_hwmon_device \<Rightarrow> (('p, 'l, 's) world, ('c, 'd, 't, 'j) startup_error, 'a) dio
     \<Rightarrow> (('p, 'l, 's) world, ('c, 'd, 't, 'j) startup_error, 'a) dio" where
  "unless_shutdown P dev rest =
     try_dio (total_io shutdown_is_requested) (\<lambda>requested.
       if requested then reject_owned P dev StartupShutdownRequested else rest)"

section \<open>The stages\<close>

text \<open>A gate that the caller keeps: the collection may change it even when it fails.\<close>

definition collect_with ::
  "('p, 'l) platform_ops \<Rightarrow> ('p, 's) sample_sources \<Rightarrow> acer_hwmon_device \<Rightarrow> sample_gate
     \<Rightarrow> (('p, 'l, 's) world, 'e, (sample_set_error + ownership_sample_readiness) \<times> sample_gate) io" where
  "collect_with P S dev gate w =
     (case collect_fresh_sample P S dev (gate, w) of
        (Ok x, (gate', w')) \<Rightarrow> (Ok (Inr x, gate'), w')
      | (Err e, (gate', w')) \<Rightarrow> (Ok (Inl e, gate'), w')
      | (Panic, (_, w')) \<Rightarrow> (Panic, w'))"

definition startup_arm ::
  "('p, 'l) platform_ops \<Rightarrow> acer_hwmon_device \<Rightarrow> admitted_policy_authority \<Rightarrow> validated_config \<Rightarrow> arming_ready_sample
     \<Rightarrow> (('p, 'l, 's) world, ('c, 'd, 't, 'j) startup_error, qualified_startup) dio" where
  "startup_arm P dev authority candidate ready =
     try_dio (catch_dio (arm_both_fans_safely_until P dev authority candidate ready)) (\<lambda>result.
     try_dio (total_io shutdown_is_requested) (\<lambda>requested.
       case result of
         Inr armed \<Rightarrow>
           if requested then reject_owned P dev StartupShutdownRequested
           else total_io (return_io (Ok \<lparr>qs_device = dev, qs_authority = authority, qs_armed = armed\<rparr>))
       | Inl error \<Rightarrow>
           if requested then reject_owned P dev StartupShutdownRequested
           else reject_owned P dev (StartupArming error)))"

definition startup_sample ::
  "('p, 'l) platform_ops \<Rightarrow> ('p, 's) sample_sources \<Rightarrow> acer_hwmon_device \<Rightarrow> admitted_policy_authority \<Rightarrow> validated_config
     \<Rightarrow> (('p, 'l, 's) world, ('c, 'd, 't, 'j) startup_error, qualified_startup) dio" where
  "startup_sample P S dev authority candidate =
     try_dio (total_io sample_gate_new) (\<lambda>new_gate.
     try_dio (total_io (collect_with P S dev new_gate)) (\<lambda>(first, gate).
       case first of
         Inr (OwnershipReady _) \<Rightarrow> total_io (return_io Panic)
       | Inl error \<Rightarrow> reject_owned P dev (StartupSampling (Some error))
       | Inr OwnershipAwaitingSecondSample \<Rightarrow>
           unless_shutdown P dev
             (try_dio (total_io (catch_io (wait_for_next_sample P gate))) (\<lambda>waited.
                case waited of
                  Inl error \<Rightarrow> reject_owned P dev (StartupSampling (Some error))
                | Inr _ \<Rightarrow>
                    try_dio (total_io (collect_with P S dev gate)) (\<lambda>(second, _).
                      case second of
                        Inr (OwnershipReady ready) \<Rightarrow>
                          unless_shutdown P dev (startup_arm P dev authority candidate ready)
                      | Inr OwnershipAwaitingSecondSample \<Rightarrow> reject_owned P dev (StartupSampling None)
                      | Inl error \<Rightarrow> reject_owned P dev (StartupSampling (Some error)))))))"

definition startup_admit ::
  "('p, 'l) platform_ops \<Rightarrow> 'p qualification_access \<Rightarrow> ('t, 'j) policy_readers \<Rightarrow> ('p, 's) sample_sources
     \<Rightarrow> startup_inputs \<Rightarrow> acer_hwmon_device \<Rightarrow> validated_config
     \<Rightarrow> (('p, 'l, 's) world, ('c, 'd, 't, 'j) startup_error, qualified_startup) dio" where
  "startup_admit P Q R S inputs dev candidate =
     try_dio (total_io (catch_io (owned_restore_firmware_auto P dev))) (\<lambda>restored.
       case restored of
         Inl error \<Rightarrow> recover_after_restore_failure P dev error None
       | Inr _ \<Rightarrow>
           try_dio (total_io (catch_io (admit_policy_authority P Q R dev (si_protected_policy inputs)
             (si_qualification_record_path inputs) (si_compatibility_observations inputs)))) (\<lambda>admitted.
             case admitted of
               Inl error \<Rightarrow> reject_owned P dev (StartupAuthority error)
             | Inr authority \<Rightarrow> unless_shutdown P dev (startup_sample P S dev authority candidate)))"

definition startup_owned ::
  "('p, 'l) platform_ops \<Rightarrow> 'p qualification_access \<Rightarrow> ('t, 'j) policy_readers \<Rightarrow> ('p, 's) sample_sources
     \<Rightarrow> acer_hwmon_device \<Rightarrow> startup_inputs \<Rightarrow> validated_config
     \<Rightarrow> (('p, 'l, 's) world, ('c, 'd, 't, 'j) startup_error, qualified_startup) dio" where
  "startup_owned P Q R S discovered_device inputs candidate =
     try_dio (total_io (catch_io (on_platform (discover_acer_hwmon P (si_hwmon_root inputs))))) (\<lambda>found.
       case found of
         Inr dev \<Rightarrow>
           if dev = discovered_device then unless_shutdown P dev (startup_admit P Q R S inputs dev candidate)
           else reject_owned P dev (StartupDevice None)
       | Inl error \<Rightarrow> reject_owned P discovered_device (StartupDevice (Some error)))"

definition qualified_startup_run ::
  "('p, 'l) platform_ops \<Rightarrow> 'p qualification_access \<Rightarrow> ('t, 'j) policy_readers \<Rightarrow> ('c, 'd) configuration_readers
     \<Rightarrow> acer_hwmon_device \<Rightarrow> ('p, 's) sample_sources \<Rightarrow> startup_inputs
     \<Rightarrow> (('p, 'l, 's) world, ('c, 'd, 't, 'j) startup_error, qualified_startup) dio" where
  "qualified_startup_run P Q R F discovered_device S inputs =
     try_dio (total_io shutdown_is_requested) (\<lambda>requested.
       if requested then total_io (return_io (Err StartupShutdownRequested))
       else
         try_dio (total_io (return_io (parse_candidate F (si_editable_config inputs)))) (\<lambda>candidate.
         try_dio (total_io (return_io (map_err (\<lambda>e. StartupCompatibility (Inl e))
           (parse_compatibility_v1 (\<lambda>s. outcome_of (declaration_from_str F s)) (si_compatibility_declaration inputs))))) (\<lambda>compatibility.
         try_dio (total_io (return_io (map_err (\<lambda>e. StartupCompatibility (Inr e))
           (admit_compatibility compatibility (si_compatibility_observations inputs))))) (\<lambda>_.
         try_dio (total_io (map_err_io StartupOwnership (acquire_controller_ownership P))) (\<lambda>_.
           startup_owned P Q R S discovered_device inputs candidate)))))"

definition restore_and_release ::
  "('p, 'l) platform_ops \<Rightarrow> qualified_startup
     \<Rightarrow> (('p, 'l, 's) world, ('c, 'd, 't, 'j) startup_error, unit) dio" where
  "restore_and_release P startup =
     try_dio (total_io (catch_io (owned_restore_firmware_auto P (qs_device startup)))) (\<lambda>restored.
       case restored of
         Inl error \<Rightarrow> recover_after_restore_failure P (qs_device startup) error None
       | Inr _ \<Rightarrow> total_io (map_err_io (\<lambda>unreleased. StartupRelease unreleased None None) (release_ownership P)))"

end
