(* ===== verification/Startup_Contract.thy ===== *)
theory Startup_Contract
  imports Startup Control_Properties
begin

text \<open>
  What the daemon's startup promises: the interface it needs from the platform, the contracts of its
  two exits and of its stages, and the property of the whole sequence. Startup may wait in the
  recovery loop without end; the contracts say that this is the only way it does not return.
\<close>

section \<open>Code that may wait in the recovery\<close>

text \<open>
  What \<open>m\<close> returns satisfies \<open>Q\<close>; when it does not return, the owner's recovery of Firmware Auto was
  entered with the lock still held and has not returned.
\<close>

definition ends ::
  "('p, 'l) platform_ops \<Rightarrow> (('p, 'l, 's) world, 'e, 'a) dio \<Rightarrow> (('e, 'a) outcome \<Rightarrow> ('p, 'l, 's) world \<Rightarrow> bool)
     \<Rightarrow> ('p, 'l, 's) world \<Rightarrow> bool" where
  "ends P m Q w =
     (case m w of
        Some (r, w') \<Rightarrow> Q r w'
      | None \<Rightarrow>
          (\<exists>dev (w1 :: ('p, 'l, 's) world). device_ok dev \<and> own_lock w1 \<noteq> None
             \<and> (owned_recover_firmware_auto P dev w1 :: (('e, unit) outcome \<times> ('p, 'l, 's) world) option) = None))"

lemma ends_total [dio_simps]: "ends P (total_io m) Q w = wp m Q w"
  by (simp add: ends_def total_io_def wp_def)

lemma ends_mono: "ends P m Q w \<Longrightarrow> (\<And>r w'. Q r w' \<Longrightarrow> Q' r w') \<Longrightarrow> ends P m Q' w"
  by (auto simp: ends_def split: option.splits)

lemma ends_try:
  assumes "ends P m R w" "\<And>x w'. R (Ok x) w' \<Longrightarrow> ends P (f x) Q w'"
    "\<And>e w'. R (Err e) w' \<Longrightarrow> Q (Err e) w'" "\<And>w'. R Panic w' \<Longrightarrow> Q Panic w'"
  shows "ends P (try_dio m f) Q w"
proof (cases "m w")
  case (Some rw)
  obtain r w' where rw: "rw = (r, w')" by fastforce
  with Some assms(1) have "R r w'" by (simp add: ends_def)
  then show ?thesis using assms(2-) by (cases r) (auto simp: ends_def try_dio_def Some rw)
qed (use assms(1) in \<open>simp add: ends_def try_dio_def\<close>)

lemma twp_ends: "twp m Q w \<Longrightarrow> ends P m Q w"
  by (auto simp: twp_def ends_def split: option.splits)

lemma ends_try_total:
  assumes "wp m R w" "\<And>x w'. R (Ok x) w' \<Longrightarrow> ends P (f x) Q w'"
    "\<And>e w'. R (Err e) w' \<Longrightarrow> Q (Err e) w'" "\<And>w'. R Panic w' \<Longrightarrow> Q Panic w'"
  shows "ends P (try_dio (total_io m) f) Q w"
  by (rule ends_try [of _ _ R]) (use assms in \<open>auto simp: ends_total\<close>)

lemma ends_check:
  assumes "r \<noteq> Panic" "\<And>x. r = Ok x \<Longrightarrow> ends P (f x) Q w" "\<And>e. r = Err e \<Longrightarrow> Q (Err e) w"
  shows "ends P (try_dio (total_io (return_io r)) f) Q w"
  using assms by (cases r) (auto simp: ends_def try_dio_def total_io_def return_io_def)

section \<open>The platform at startup\<close>

definition harmless :: "('p \<Rightarrow> bool) \<Rightarrow> ('p, 'e, 'a) io \<Rightarrow> bool" where
  "harmless sound m \<longleftrightarrow> (\<forall>p. sound p \<longrightarrow> wp m (\<lambda>r p'. r \<noteq> Panic \<and> sound p') p)"

lemma harmless_try: "harmless sound m \<Longrightarrow> (\<And>x. harmless sound (f x)) \<Longrightarrow> harmless sound (try_io m f)"
  unfolding harmless_def by (intro allI impI wp_try [where R = "\<lambda>r p'. r \<noteq> Panic \<and> sound p'"]) auto

lemma harmless_return: "r \<noteq> Panic \<Longrightarrow> harmless sound (return_io r)"
  by (simp add: harmless_def wp_return)

lemma harmless_map_err: "harmless sound m \<Longrightarrow> harmless sound (map_err_io g m)"
  by (simp add: harmless_def wp_map_err_io)

lemma harmless_inspect: "(\<And>p. f p \<noteq> Panic) \<Longrightarrow> harmless sound (inspect_io f)"
  by (simp add: harmless_def wp_inspect_io)

text \<open>What the unbounded discovery, the service probes and the lock need: they never panic and keep the platform sound.\<close>

locale startup_platform = ticking_platform P sound content now + qualification_store P sound content now Q
  for P :: "('p, 'l) platform_ops"
    and sound :: "'p \<Rightarrow> bool"
    and content :: "'p \<Rightarrow> path \<Rightarrow> string option"
    and now :: "'p \<Rightarrow> duration"
    and Q :: "'p qualification_access" +
  assumes harmless_list: "harmless sound (list_op P dir)"
    and harmless_permissions: "harmless sound (permissions_op P path)"
    and harmless_identity: "harmless sound (identity_op P path)"
    and harmless_read_bound: "harmless sound (read_bound_op P dir i child)"
    and harmless_list_bound: "harmless sound (list_bound_op P dir i)"
    and harmless_service: "harmless sound (is_service_active P service)"
    and harmless_acquire: "harmless sound (try_acquire_root_runtime_lock P path)"
    and harmless_release: "harmless sound (release_runtime_lock P lock)"
begin

lemma discovery_checks:
  "validate_hwmon_entry root_path path \<noteq> Panic" "validate_entry_names root_path entries \<noteq> Panic"
  "the_single_device found \<noteq> Panic"
proof -
  have "validate_each_entry_name root_path es \<noteq> Panic" for es
    by (induction es) (auto split: option.splits)
  moreover have "validate_endpoint_counts root_path es ps \<noteq> Panic" for es ps by (induction ps) auto
  ultimately show "validate_entry_names root_path entries \<noteq> Panic"
    by (auto simp: validate_entry_names_def bind_ok_eq_Panic)
qed (auto simp: validate_hwmon_entry_def Let_def the_single_device_def split: list.splits)

lemma harmless_required: "harmless sound (require_permissions P path expected)"
  unfolding require_permissions_def hwmon_io_def
  by (intro harmless_try harmless_map_err harmless_permissions harmless_return) simp

lemma harmless_endpoints: "harmless sound (require_endpoint_permissions P root_path channel)"
  unfolding require_endpoint_permissions_def Let_def require_each_permissions.simps
  by (intro harmless_try harmless_required harmless_return) simp

lemma harmless_find: "harmless sound (find_acer_devices P hwmon_root)"
proof -
  have "harmless sound (scan_candidates P hwmon_root cs found)" for cs found
    by (induction cs arbitrary: found)
      (auto simp: hwmon_io_def discovery_checks
        intro!: harmless_try harmless_map_err harmless_return harmless_required harmless_identity harmless_read_bound)
  then show ?thesis
    unfolding find_acer_devices_def hwmon_io_def by (intro harmless_try harmless_map_err harmless_list)
qed

lemma harmless_abi: "harmless sound (validate_exact_two_fan_abi P root_path identity)"
  unfolding validate_exact_two_fan_abi_def
  by (auto simp: hwmon_io_def discovery_checks intro!: harmless_try harmless_map_err harmless_return
      harmless_list_bound harmless_read_bound harmless_endpoints harmless_required)

lemma harmless_discover: "harmless sound (discover_acer_hwmon P hwmon_root)"
proof -
  have "harmless sound (bind_endpoints P root_path channel)" for root_path channel
    unfolding bind_endpoints_def Let_def hwmon_io_def
    by (intro harmless_try harmless_map_err harmless_identity harmless_return) simp
  then show ?thesis
    unfolding discover_acer_hwmon_def case_prod_unfold
    by (auto intro!: harmless_try harmless_find harmless_abi harmless_return simp: discovery_checks split: list.splits if_splits)
qed

end

text \<open>The scripted platform, with any script that keeps its files.\<close>

lemma fake_harmless_steps:
  "harmless quiet apply_next_step" "harmless quiet apply_next_file_step" "harmless quiet apply_next_runtime_lock_step"
proof -
  have st: "wp (apply_step st) (\<lambda>r p'. r \<noteq> Panic \<and> quiet p') p" if "quiet p" for st p
  proof -
    have "quiet (remove_path path p)" for path using that by (simp add: remove_path_def quiet_def Let_def)
    with that show ?thesis
      by (cases st) (auto simp: wp_def replace_contents_def quiet_def duration_saturating_add_def split: option.splits)
  qed
  have next_step: "wp apply_next_step (\<lambda>r p'. r \<noteq> Panic \<and> quiet p') p" if "quiet p" for p
    using that st [of "p\<lparr>steps := tl (steps p)\<rparr>" "hd (steps p)"]
    by (cases "steps p") (auto simp: wp_def apply_next_step_def quiet_def)
  show "harmless quiet apply_next_step" using next_step by (simp add: harmless_def)
  show "harmless quiet apply_next_file_step"
  proof (unfold harmless_def, intro allI impI)
    fix p assume "quiet p"
    then show "wp apply_next_file_step (\<lambda>r p'. r \<noteq> Panic \<and> quiet p') p"
      using next_step [of p] st [of "p\<lparr>file_steps := tl (file_steps p)\<rparr>" "hd (file_steps p)"]
      by (cases "file_steps p") (auto simp: wp_def apply_next_file_step_def quiet_def)
  qed
  show "harmless quiet apply_next_runtime_lock_step"
  proof (unfold harmless_def, intro allI impI)
    fix p assume "quiet p"
    then show "wp apply_next_runtime_lock_step (\<lambda>r p'. r \<noteq> Panic \<and> quiet p') p"
      using next_step [of p] st [of "p\<lparr>runtime_lock_steps := tl (runtime_lock_steps p)\<rparr>" "hd (runtime_lock_steps p)"]
      by (cases "runtime_lock_steps p") (auto simp: wp_def apply_next_runtime_lock_step_def quiet_def)
  qed
qed

lemma fake_harmless_parts:
  "harmless quiet (log_operation oper)" "harmless quiet (inspect_io (require_directory dir i))"
  "harmless quiet (inspect_io (read_file path))" "harmless quiet (inspect_io (list_directory dir))"
  by (auto simp: harmless_def wp_log_operation wp_inspect_io require_directory_def read_file_def list_directory_def split: option.split)

interpretation fake: startup_platform fake_ops quiet file_contents monotonic_time "fake_qualification V sha256"
proof unfold_locales
  note intros = harmless_try fake_harmless_steps fake_harmless_parts harmless_return harmless_map_err harmless_inspect
  show "harmless quiet (list_op fake_ops dir)" for dir
    unfolding fake_ops_def platform_ops.simps fake_list_def by (intro intros)
  show "harmless quiet (permissions_op fake_ops path)" for path
    unfolding fake_ops_def platform_ops.simps fake_permissions_def
    by (intro intros) (simp add: file_permissions_of_def ok_or_def split: option.split)
  show "harmless quiet (identity_op fake_ops path)" for path
    unfolding fake_ops_def platform_ops.simps fake_identity_def
    by (intro intros) (simp add: identity_of_def ok_or_def split: option.split)
  show "harmless quiet (read_bound_op fake_ops dir i child)" for dir i child
    unfolding fake_ops_def platform_ops.simps fake_read_bound_def by (auto intro!: intros split: option.split)
  show "harmless quiet (list_bound_op fake_ops dir i)" for dir i
    unfolding fake_ops_def platform_ops.simps fake_list_bound_def by (intro intros)
  show "harmless quiet (is_service_active fake_ops service)" for service
    unfolding fake_ops_def platform_ops.simps fake_is_service_active_def
    by (intro intros) (simp add: ok_or_def split: option.split)
  show "harmless quiet (try_acquire_root_runtime_lock fake_ops path)" for path
    unfolding fake_ops_def platform_ops.simps fake_try_acquire_root_runtime_lock_def
    by (intro harmless_try fake_harmless_steps fake_harmless_parts harmless_map_err)
      (auto simp: harmless_def wp_def Let_def quiet_def)
  show "harmless quiet (release_runtime_lock fake_ops lock)" for lock
    unfolding fake_ops_def platform_ops.simps fake_release_runtime_lock_def
    by (intro harmless_try fake_harmless_steps fake_harmless_parts harmless_map_err)
      (auto simp: harmless_def wp_def Let_def quiet_def)
qed

section \<open>The two exits\<close>

context world_observer
begin

lemma obs_owned: "script f (owned_restore_firmware_auto P dev) []" "script f (owned_contain_custom_fans_at_maximum P dev) []"
  unfolding owned_restore_firmware_auto_def owned_contain_custom_fans_at_maximum_def
  by (auto intro!: script_quiet_try obs_epoch(1) obs_restore obs_get script_return obs_confirmed obs_contain)

lemma obs_admit: "script f (admit_policy_authority P Q R dev policy path observations) []"
proof -
  have "script f (admission_result P Q R dev policy path observations) []"
    unfolding admission_result_def
    by (intro script_quiet_try obs_refresh) (auto intro!: script_quiet_try script_map_err obs_platform obs_get script_return)
  then show ?thesis
    unfolding admit_policy_authority_def
    by (auto intro!: script_quiet_try script_catch obs_owned(1) script_return split: sum.split)
qed

end

text \<open>
  A failure that gave the lock back, or tried to, in Firmware Auto: the release is the last thing
  that happened, and only a failed release is reported as one.
\<close>

definition safe_exit ::
  "('p, 'l) platform_ops \<Rightarrow> ('p \<Rightarrow> path \<Rightarrow> string option) \<Rightarrow> ('c, 'd, 't, 'j) startup_error \<Rightarrow> ('p, 'l, 's) world \<Rightarrow> bool" where
  "safe_exit P content e w' \<longleftrightarrow>
     (\<exists>dev w released. device_ok dev \<and> in_firmware_auto dev (content (platform w)) \<and> own_lock w \<noteq> None
        \<and> release_ownership P w = (released, w')
        \<and> (released = Ok () \<and> own_lock w' = None
           \<or> (\<exists>u x y. released = Err u \<and> e = StartupRelease u x y \<and> own_lock w' \<noteq> None)))"

context startup_platform
begin

lemma release_post:
  assumes "sound (platform w)" "own_lock w \<noteq> None"
  shows "wp (release_ownership P) (\<lambda>r w'. r \<noteq> Panic \<and> (r = Ok () \<longrightarrow> own_lock w' = None) \<and> (\<forall>u. r = Err u \<longrightarrow> own_lock w' \<noteq> None)) w"
proof -
  obtain lock where l: "own_lock w = Some lock" using assms(2) by blast
  obtain x p where x: "release_runtime_lock P lock (platform w) = (x, p)" by fastforce
  have "x \<noteq> Panic" using wp_eqD [OF harmless_release [of lock, unfolded harmless_def, rule_format, OF assms(1)] x] by simp
  then show ?thesis
    by (cases x) (auto simp: wp_def release_ownership_def try_io_def get_io_def return_io_def modify_io_def catch_io_def
        on_platform_def l x)
qed

text \<open>The release at the end of an exit, in a world in Firmware Auto.\<close>

lemma exit_release:
  assumes "device_ok dev" "in_firmware_auto dev (content (platform w))" "sound (platform w)" "own_lock w \<noteq> None"
    and failed: "\<And>u. \<exists>x y. failure (Inl u) = StartupRelease u x y"
  shows "wp (try_io (catch_io (release_ownership P)) (\<lambda>released. return_io (Err (failure released))))
    (\<lambda>r w'. \<exists>e. r = Err e \<and> safe_exit P content e w') w"
proof -
  obtain r w' where rel: "release_ownership P w = (r, w')" by fastforce
  have r: "r \<noteq> Panic" "r = Ok () \<longrightarrow> own_lock w' = None" "\<forall>u. r = Err u \<longrightarrow> own_lock w' \<noteq> None"
    using wp_eqD [OF release_post [OF assms(3,4)] rel] by auto
  have "safe_exit P content (failure released) w'" if "r = Ok () \<or> (\<exists>u. r = Err u \<and> released = Inl u)" for released
    unfolding safe_exit_def
    by (rule exI [of _ dev], rule exI [of _ w], rule exI [of _ r]) (use assms(1,2,4) rel r that failed in blast)
  then show ?thesis
    using rel r(1) by (cases r) (auto simp: wp_def try_io_def catch_io_def return_io_def)
qed

lemma owned_recover_ends:
  assumes "device_ok dev" "sound (platform w)" "own_lock w \<noteq> None"
  shows "ends P (owned_recover_firmware_auto P dev :: (('p, 'l, 's) world, 'e, unit) dio) (\<lambda>r w'. (unat (sampling_epoch w) + 1 < 2 ^ 64 \<longrightarrow> r \<noteq> Panic)
     \<and> (r \<noteq> Panic \<longrightarrow> r = Ok () \<and> in_firmware_auto dev (content (platform w')) \<and> sound (platform w') \<and> own_lock w' \<noteq> None)) w"
proof -
  obtain r1 :: "('e, unit) outcome" and w1 where i: "invalidate_firmware_auto_epoch w = (r1, w1)" by fastforce
  have w1: "r1 = Ok () \<or> r1 = Panic" "sound (platform w1)" "unat (sampling_epoch w) + 1 < 2 ^ 64 \<longrightarrow> r1 \<noteq> Panic" "own_lock w1 \<noteq> None"
    using wp_eqD [OF wp_conj [OF wp_conj [OF invalidate_spec invalidate_epoch] script_silentD [OF holding.obs_epoch(1)]] i] assms(2,3) by auto
  show ?thesis
  proof (cases "r1 = Ok ()")
    case True
    show ?thesis
    proof (cases "recover_firmware_auto P dev w1 :: (('e, unit) outcome \<times> _) option")
      case None
      then have "(owned_recover_firmware_auto P dev w :: (('e, unit) outcome \<times> _) option) = None"
        using i True by (simp add: owned_recover_firmware_auto_def)
      then show ?thesis using assms by (auto simp: ends_def)
    next
      case (Some x)
      obtain r2 :: "('e, unit) outcome" and w2 where r: "recover_firmware_auto P dev w1 = Some (r2, w2)" using Some by (cases x) auto
      note sp = recover_spec [OF r assms(1) w1(2)]
      then show ?thesis
        using i True r w1(4) by (auto simp: ends_def owned_recover_firmware_auto_def ran_to_fields dest: ran_to_sound)
    qed
  qed (use w1 i in \<open>auto simp: ends_def owned_recover_firmware_auto_def\<close>)
qed

lemma contain_counted:
  assumes "device_ok dev" "sound (platform w)"
  shows "wp (owned_contain_custom_fans_at_maximum P dev) (\<lambda>r w'. (unat (sampling_epoch w) + 1 < 2 ^ 64 \<longrightarrow> r \<noteq> Panic)
     \<and> (r \<noteq> Panic \<longrightarrow> unat (sampling_epoch w') = unat (sampling_epoch w) + 1)) w"
  unfolding owned_contain_custom_fans_at_maximum_def
proof (rule wp_try [OF wp_conj [OF invalidate_spec invalidate_epoch]], goal_cases)
  case (1 x w1)
  then have "sound (platform w1)" using assms(2) by simp
  from contain_spec [OF assms(1) this] show ?case
    by (rule wp_try) (use 1 in \<open>auto simp: io_simps containment_effect_def ran_to_fields\<close>)
qed auto

abbreviation exit_post :: "nat \<Rightarrow> ('p, 'l, 's) world \<Rightarrow> (('c, 'd, 't, 'j) startup_error, 'a) outcome \<Rightarrow> ('p, 'l, 's) world \<Rightarrow> bool" where
  "exit_post k w r w' \<equiv> (unat (sampling_epoch w) + k < 2 ^ 64 \<longrightarrow> r \<noteq> Panic)
     \<and> (r \<noteq> Panic \<longrightarrow> (\<exists>e. r = Err e \<and> safe_exit P content e w'))"

lemma recover_exit:
  assumes "device_ok dev" "sound (platform w)" "own_lock w \<noteq> None"
  shows "ends P (recover_after_restore_failure P dev restoration rejection) (exit_post 2 w) w"
  unfolding recover_after_restore_failure_def
proof (rule ends_try_total [OF wp_conj [OF wp_conj [OF owned_contain_safe [OF assms(1,2)] contain_counted [OF assms(1,2)]]
      script_silentD [OF holding.obs_owned(2)]]], goal_cases)
  case (1 containment w1)
  then have w1: "sound (platform w1)" "own_lock w1 \<noteq> None" "unat (sampling_epoch w1) = unat (sampling_epoch w) + 1"
    using assms(3) by (auto simp: owner_safe_def)
  show ?case
  proof (rule ends_try [OF owned_recover_ends [OF assms(1) w1(1,2)]], goal_cases)
    case (1 u w2)
    show ?case
      unfolding ends_total
      by (rule wp_mono [OF exit_release [OF assms(1)]]) (use 1 in auto)
  qed (use w1(3) in auto)
qed auto

lemma reject_exit:
  assumes "device_ok dev" "sound (platform w)" "own_lock w \<noteq> None"
  shows "ends P (reject_owned P dev rejection) (exit_post 3 w) w"
  unfolding reject_owned_def
proof (rule ends_try_total [OF wp_catch [OF wp_conj [OF wp_conj [OF owned_restore_safe [OF assms(1,2)] restore_counted [OF assms(1,2)]]
      script_silentD [OF holding.obs_owned(1)]]]], goal_cases)
  case (1 restored w1)
  then have w1: "sound (platform w1)" "own_lock w1 \<noteq> None" "unat (sampling_epoch w1) = unat (sampling_epoch w) + 1"
    "\<forall>u. restored = Inr u \<longrightarrow> in_firmware_auto dev (content (platform w1))"
    using assms(3) by (auto simp: owner_safe_def split: sum.splits)
  show ?case
  proof (cases restored)
    case (Inl error)
    show ?thesis
      unfolding Inl sum.case
      by (rule ends_mono [OF recover_exit [OF assms(1) w1(1,2)]]) (use w1(3) in auto)
  next
    case (Inr u)
    show ?thesis
      unfolding Inr sum.case ends_total
      by (rule wp_mono [OF exit_release [OF assms(1)]]) (use w1 Inr in auto)
  qed
qed (auto split: outcome.splits)

section \<open>How far the handover advances the epoch\<close>

lemma counts_restore: "device_ok dev \<Longrightarrow> counts sound (\<lambda>w. w) (Suc 0) (owned_restore_firmware_auto P dev)"
  unfolding counts_def
  by (intro allI impI wp_mono [OF wp_conj [OF owned_restore_safe restore_counted]]) (auto simp: counted_def owner_safe_def)

lemma counts_contain: "device_ok dev \<Longrightarrow> counts sound (\<lambda>w. w) (Suc 0) (owned_contain_custom_fans_at_maximum P dev)"
  unfolding counts_def
  by (intro allI impI wp_mono [OF wp_conj [OF owned_contain_safe contain_counted]]) (auto simp: counted_def owner_safe_def)

lemma counts_safing:
  assumes "device_ok dev"
  shows "counts sound (\<lambda>w. w) 2 (restore_or_contain_firmware_auto P dev)"
proof -
  have "counts sound (\<lambda>w. w) (Suc 0 + Suc 0) (restore_or_contain_firmware_auto P dev)"
    unfolding restore_or_contain_firmware_auto_def
    by (rule counts_add [OF counts_catch [OF counts_restore [OF assms]]])
      (auto intro!: counts_return counts_last [OF counts_contain [OF assms]] counts_try [OF counts_get] split: sum.split)
  then show ?thesis by (simp add: numeral_2_eq_2)
qed

lemma counts_reject:
  assumes "device_ok dev"
  shows "counts sound (\<lambda>w. w) 2 (reject_arming P dev entered reason)"
proof -
  have emit: "counts sound (\<lambda>w. w) 0 (emit e)" for e by (simp add: counts_def counted_def wp_emit)
  show ?thesis
    unfolding reject_arming_def emit_fault_def emit_state_transition_def when_io_def
    by (auto intro!: counts_try [OF emit] counts_last [OF counts_safing [OF assms]] counts_return split: firmware_auto_safing_outcome.split)
qed

lemma arm_epoch:
  assumes "device_ok dev" "ok w" "config_ok candidate" "config_ok (apa_protected authority)"
  shows "wlp (arm_both_fans_safely_until P dev authority candidate ready)
    (\<lambda>r w'. r \<noteq> Panic \<longrightarrow> unat (sampling_epoch w') \<le> unat (sampling_epoch w) + 3) w" (is "wlp _ ?Q w")
proof -
  have rej: "wp (reject_arming P dev entered reason) ?Q w1"
    if "ok w1" "unat (sampling_epoch w1) \<le> unat (sampling_epoch w) + 1" for entered reason w1
    by (rule wp_mono [OF counts_reject [OF assms(1), unfolded counts_def, rule_format, OF that(1)]])
      (use that(2) in \<open>auto simp: counted_def\<close>)
  have fin: "wlp (try_dio (catch_dio (arm P dev (ars_sample ready) candidate (tachometer_calibrations authority) ids)) (\<lambda>result.
       case result of
         Inr armed \<Rightarrow> total_io (try_io (emit a) (\<lambda>_. return_io (Ok armed)))
       | Inl reason \<Rightarrow> total_io (reject_arming P dev True reason))) ?Q w1"
    if w1: "ok w1" "unat (sampling_epoch w1) \<le> unat (sampling_epoch w) + 1" for ids a w1
    unfolding wlp_try_dio wlp_catch_dio
  proof (rule wlp_mono [OF twp_wlp [OF arm_effect [OF assms(1) w1(1)]]], goal_cases)
    case (1 r w2)
    then have w2: "ok w2" "unat (sampling_epoch w2) \<le> unat (sampling_epoch w) + 1" using w1(2) ran_on_fields [of now w1 w2] by auto
    then show ?case by (auto simp: wlp_total io_simps intro!: rej split: outcome.split)
  qed
  show ?thesis
    unfolding arm_both_fans_safely_until_def
  proof (rule wlp_try_total [OF wp_catch [OF admit_effect [OF assms(3,4)]]], goal_cases)
    case (1 x w1)
    then have w1: "ok w1" "sampling_epoch w1 = sampling_epoch w"
      using assms(2) ran_on_fields [of now w w1] by (auto split: sum.splits)
    show ?case
    proof (cases x)
      case (Inr u)
      show ?thesis
        unfolding Inr sum.case emit_state_transition_def wlp_try_dio [of "total_io (emit _)"] wlp_total wp_emit outcome.case
          wlp_try_dio [of "total_io (get_io _)"] wp_get_io
        by (rule wlp_try_total [OF begin_custom_spec]) (use w1 in \<open>auto intro!: fin\<close>)
    qed (use w1 in \<open>auto simp: wlp_total intro!: rej\<close>)
  qed (auto split: outcome.splits)
qed

end

section \<open>The stages\<close>

text \<open>What a started daemon holds.\<close>

definition started ::
  "('p \<Rightarrow> path \<Rightarrow> string option) \<Rightarrow> 'p qualification_access \<Rightarrow> ('t, 'j) policy_readers \<Rightarrow> startup_inputs \<Rightarrow> validated_config
     \<Rightarrow> qualified_startup \<Rightarrow> ('p, 'l, 's) world \<Rightarrow> bool" where
  "started content Q R inputs candidate s w \<longleftrightarrow>
     device_ok (qs_device s) \<and> custom_at_maximum (qs_device s) (content (platform w))
     \<and> armed_is_current_for (qs_armed s) w \<and> own_lock w \<noteq> None
     \<and> controlled_device w = Some (backing_identity (qs_device s)) \<and> afc_device (qs_armed s) = qs_device s
     \<and> afc_config (qs_armed s) = candidate \<and> afc_calibration (qs_armed s) = tachometer_calibrations (qs_authority s)
     \<and> config_covers candidate (apa_protected (qs_authority s))
     \<and> admitted_from Q R (si_protected_policy inputs) (si_qualification_record_path inputs)
         (si_compatibility_observations inputs) (ownership_id w) (qs_authority s)"

definition stage_post ::
  "('p, 'l) platform_ops \<Rightarrow> ('p \<Rightarrow> bool) \<Rightarrow> ('p \<Rightarrow> path \<Rightarrow> string option) \<Rightarrow> bool \<Rightarrow> (qualified_startup \<Rightarrow> ('p, 'l, 's) world \<Rightarrow> bool)
     \<Rightarrow> (('c, 'd, 't, 'j) startup_error, qualified_startup) outcome \<Rightarrow> ('p, 'l, 's) world \<Rightarrow> bool" where
  "stage_post P sound content enough G r w' \<longleftrightarrow> (enough \<longrightarrow> r \<noteq> Panic) \<and> (\<forall>e. r = Err e \<longrightarrow> safe_exit P content e w')
     \<and> (\<forall>s. r = Ok s \<longrightarrow> G s w' \<and> sound (platform w'))"

lemma started_latch [simp]:
  "started content Q R inputs candidate s (w\<lparr>latch := l, signals := ss\<rparr>) = started content Q R inputs candidate s w"
  by (simp add: started_def armed_is_current_for_def custom_epoch_is_current_def)

lemma requested_only_latch:
  "wp shutdown_is_requested (\<lambda>r w'. \<exists>b l ss. r = Ok b \<and> w' = w\<lparr>latch := l, signals := ss\<rparr>) w"
proof -
  have "\<exists>l ss. deliver_signal w = w\<lparr>latch := l, signals := ss\<rparr>"
  proof (cases "signals w")
    case Nil
    then have "deliver_signal w = w\<lparr>latch := latch w, signals := signals w\<rparr>" by (simp add: deliver_signal_def)
    then show ?thesis by blast
  next
    case (Cons x xs)
    then have "deliver_signal w = w\<lparr>latch := if x then request (latch w) else latch w, signals := xs\<rparr>"
      by (cases w) (simp add: deliver_signal_def)
    then show ?thesis by blast
  qed
  then show ?thesis by (auto simp: wp_def shutdown_is_requested_def Let_def)
qed

lemma gate_new_unstarted:
  "wp sample_gate_new (\<lambda>r w'. \<forall>g. r = Ok g \<longrightarrow> sg_last_started g = None) w"
  by (auto simp: sample_gate_new_def try_io_def return_io_def next_gate_id_io_def wp_def split: option.splits)

text \<open>A gate without a previous set is never ready after one.\<close>

lemma first_sample_not_ready:
  fixes w :: "('a, 'b, 'c) world"
  assumes "sg_last_started g = None"
  shows "wp (collect_fresh_sample P S dev) (\<lambda>r _. \<forall>x. r \<noteq> Ok (OwnershipReady x)) (g, w)"
proof -
  have g: "sg_last_started (gate_reset g) = None" for g by (simp add: gate_reset_def)
  have fresh: "wp (fresh_gate_sample P S) (\<lambda>r _. \<forall>x. r \<noteq> Ok (Ready x)) gw"
    if "sg_last_started (fst gw) = None" for gw :: "sample_gate \<times> ('a, 'b, 'c) world"
    unfolding fresh_gate_sample_def wp_try_io [of get_fst] wp_get_fst outcome.case Let_def
    using that by (auto simp: wp_try_io wp_modify_fst wp_return wp_def [of "or_reset _ _"] split: option.splits outcome.splits prod.splits)
  have sampled: "wp (try_io (catch_io (fresh_gate_sample P S)) (\<lambda>r.
        case r of
          Inr AwaitingSecondSample \<Rightarrow> return_io (Ok OwnershipAwaitingSecondSample)
        | Inr (Ready sample) \<Rightarrow>
            try_io (on_snd (get_io (\<lambda>w. (ownership_id w, sampling_epoch w)))) (\<lambda>(i, epoch).
              return_io (Ok (OwnershipReady \<lparr>ars_sample = sample, ars_ownership_id = i, ars_sampling_epoch = epoch\<rparr>)))
        | Inl error \<Rightarrow>
            try_io (on_snd invalidate_firmware_auto_epoch) (\<lambda>_. return_io (Err error))))
      (\<lambda>r _. \<forall>x. r \<noteq> Ok (OwnershipReady x)) gw" if "sg_last_started (fst gw) = None" for gw :: "sample_gate \<times> ('a, 'b, 'c) world"
  proof -
    have err: "wp (try_io (on_snd invalidate_firmware_auto_epoch) (\<lambda>_. return_io (Err e))) (\<lambda>r _. \<forall>x. r \<noteq> Ok (OwnershipReady x)) gw'"
      for e and gw' :: "sample_gate \<times> ('a, 'b, 'c) world"
      by (rule wp_try [where R = "\<lambda>_ _. True"]) (auto simp: wp_return wp_def)
    show ?thesis
      unfolding wp_try_io [of "catch_io _"] wp_catch_io
      by (rule wp_mono [OF fresh [OF that]]) (use err in \<open>auto simp: wp_return split: outcome.splits sample_readiness.splits\<close>)
  qed
  have marked: "wp (if \<not> b then try_io (modify_fst gate_reset) (\<lambda>_. on_snd (modify_io (\<lambda>w. w\<lparr>sampling_epoch_started := True\<rparr>)))
      else return_io (Ok ())) (\<lambda>_ gw. sg_last_started (fst gw) = None) (g, w1)" for b w1
    using assms g by (auto simp: wp_try_io wp_modify_fst wp_on_snd wp_modify_io wp_return)
  show ?thesis
    unfolding collect_fresh_sample_def
  proof (rule wp_try [where R = "\<lambda>_ gw. fst gw = g"], goal_cases)
    case (2 confirmed gw)
    obtain w1 where gw: "gw = (g, w1)" using 2 by (cases gw) auto
    show ?case
    proof (cases confirmed)
      case True
      then have t: "confirmed = True" by simp
      show ?thesis
        unfolding t gw not_True_eq_False if_False wp_try_io [of "on_snd (get_io sampling_epoch_started)"] wp_on_snd wp_get_io outcome.case
          fst_conv snd_conv
        by (rule wp_try [OF marked]) (auto intro: sampled)
    qed (simp add: wp_try_io wp_modify_fst wp_return)
  qed (auto simp: wp_def on_snd_def split: prod.splits)
qed

definition typed_config :: "('c, 'd) configuration_readers \<Rightarrow> bool" where
  "typed_config F \<longleftrightarrow> (\<forall>s c. config_from_str F s = Inr c \<longrightarrow> f64_ok (max_down_ramp_percent_per_second (cfg_control c)))"

lemma parse_candidate_cases:
  assumes "typed_config F"
  shows "parse_candidate F source \<noteq> Panic" "parse_candidate F source = Ok candidate \<Longrightarrow> config_ok candidate"
  using assms validated_config_ok validate_config_no_panic
  by (auto simp: parse_candidate_def parse_config_v1_def outcome_of_def typed_config_def bind_ok_eq_Panic bind_ok_eq_Ok split: sum.splits)

lemma parse_compatibility_no_panic: "parse_compatibility_v1 (\<lambda>s. outcome_of (h s)) source \<noteq> Panic"
proof -
  have "(\<forall>r \<in> set rs. r \<noteq> Panic) \<Longrightarrow> all_ok rs \<noteq> Panic" for rs :: "('e, unit) outcome list"
    by (induction rs) (auto simp: bind_ok_eq_Panic)
  then have "(validate_declaration d :: ('t compatibility_declaration_error, unit) outcome) \<noteq> Panic" for d
    unfolding validate_declaration_def Let_def by (simp add: require_safe_def)
  then show ?thesis
    by (auto simp: parse_compatibility_v1_def outcome_of_def bind_ok_eq_Panic split: sum.splits)
qed

context startup_platform
begin

lemma reject_stage:
  assumes "device_ok dev" "ok w" "own_lock w \<noteq> None" "enough \<longrightarrow> unat (sampling_epoch w) + 3 < 2 ^ 64"
  shows "ends P (reject_owned P dev rejection) (stage_post P sound content enough G) w"
  by (rule ends_mono [OF reject_exit [OF assms(1-3)]]) (use assms(4) in \<open>auto simp: stage_post_def\<close>)

lemma recover_stage:
  assumes "device_ok dev" "ok w" "own_lock w \<noteq> None" "enough \<longrightarrow> unat (sampling_epoch w) + 2 < 2 ^ 64"
  shows "ends P (recover_after_restore_failure P dev restoration rejection) (stage_post P sound content enough G) w"
  by (rule ends_mono [OF recover_exit [OF assms(1-3)]]) (use assms(4) in \<open>auto simp: stage_post_def\<close>)

lemma unless_shutdown_stage:
  assumes "device_ok dev" "ok w" "own_lock w \<noteq> None" "enough \<longrightarrow> unat (sampling_epoch w) + 3 < 2 ^ 64"
    and rest: "\<And>l ss. ends P rest (stage_post P sound content enough G) (w\<lparr>latch := l, signals := ss\<rparr>)"
  shows "ends P (unless_shutdown P dev rest) (stage_post P sound content enough G) w"
  unfolding unless_shutdown_def
  by (rule ends_try_total [OF requested_only_latch]) (use assms in \<open>auto intro!: reject_stage\<close>)

lemma arm_held:
  "wlp (arm_both_fans_safely_until P dev authority candidate ready)
     (\<lambda>r w'. r \<noteq> Panic \<longrightarrow> own_lock w' = own_lock w \<and> ownership_id w' = ownership_id w) w"
proof (rule wlp_mono [OF holding.obs_arm_both], goal_cases)
  case (1 r w')
  then show ?case by (cases r) (auto split: if_splits)
qed

lemma arm_stage:
  assumes "device_ok dev" "ok w" "own_lock w \<noteq> None" "enough \<longrightarrow> unat (sampling_epoch w) + 6 < 2 ^ 64"
    "config_ok candidate" "authority_ok authority"
    "admitted_from Q R (si_protected_policy inputs) (si_qualification_record_path inputs)
       (si_compatibility_observations inputs) (ownership_id w) authority"
  shows "ends P (startup_arm P dev authority candidate ready)
    (stage_post P sound content enough (\<lambda>s w'. qs_device s = dev \<and> started content Q R inputs candidate s w')) w"
proof -
  have prot: "config_ok (apa_protected authority)" using assms(6) by (simp add: authority_ok_def)
  have arm: "twp (catch_dio (arm_both_fans_safely_until P dev authority candidate ready)) (\<lambda>r w'. (\<forall>e. r \<noteq> Err e)
      \<and> (enough \<longrightarrow> r \<noteq> Panic) \<and> (r \<noteq> Panic \<longrightarrow> ok w' \<and> own_lock w' \<noteq> None \<and> (enough \<longrightarrow> unat (sampling_epoch w') + 3 < 2 ^ 64))
      \<and> (\<forall>armed. r = Ok (Inr armed) \<longrightarrow>
           started content Q R inputs candidate \<lparr>qs_device = dev, qs_authority = authority, qs_armed = armed\<rparr> w')) w"
    unfolding twp_catch_dio
    by (rule twp_mono [OF twp_conj [OF twp_conj [OF twp_conj [OF arm_both_effect [OF assms(1,2,5) prot] arm_epoch [OF assms(1,2,5) prot]]
            arm_held] armed_calibration]])
      (use assms in \<open>auto simp: owner_safe_def started_def admits_def split: outcome.split\<close>)
  show ?thesis
    unfolding startup_arm_def
  proof (rule ends_try [OF twp_ends [OF arm]], goal_cases)
    case (1 result w1)
    then show ?case
    proof (intro ends_try_total [OF requested_only_latch], goal_cases)
      case (1 requested w2)
      then show ?case
        using assms(1)
        by (auto simp: ends_total wp_return stage_post_def [of _ _ _ _ _ "Ok _"] intro!: reject_stage split: sum.split)
    qed auto
  qed (auto simp: stage_post_def)
qed

lemma collect_with_post:
  assumes "device_ok dev" "passive_sources sound content S" "typed_sources sound S" "ok w"
  shows "wp (collect_with P S dev g) (\<lambda>r w'. (\<forall>e. r \<noteq> Err e) \<and> (unat (sampling_epoch w) + 2 < 2 ^ 64 \<longrightarrow> r \<noteq> Panic)
     \<and> (r \<noteq> Panic \<longrightarrow> unat (sampling_epoch w') \<le> unat (sampling_epoch w) + 2 \<and> ok w'
          \<and> own_lock w' = own_lock w \<and> ownership_id w' = ownership_id w)
     \<and> (\<forall>x g'. sg_last_started g = None \<longrightarrow> r \<noteq> Ok (Inr (OwnershipReady x), g'))) w"
proof -
  have "sound (platform (snd (g, w)))" using assms(4) by simp
  from wp_conj [OF counts_collect [OF assms(1-3), unfolded counts_def, rule_format, OF this] script_silentD [OF holding.obs_fresh_sample]]
  have c: "wp (collect_fresh_sample P S dev) (\<lambda>r gw. counted sound snd 2 (g, w) r gw
      \<and> own_lock (snd gw) = own_lock w \<and> ownership_id (snd gw) = ownership_id w) (g, w)" by simp
  show ?thesis
    using c first_sample_not_ready [of g P S dev w]
    by (auto simp: wp_def collect_with_def counted_def split: prod.splits outcome.splits)
qed

lemma sample_stage:
  assumes "device_ok dev" "ok w" "own_lock w \<noteq> None" "enough \<longrightarrow> unat (sampling_epoch w) + 10 < 2 ^ 64 \<and> unat (next_gate_id w) + 1 < 2 ^ 64"
    "config_ok candidate" "authority_ok authority" "passive_sources sound content S" "typed_sources sound S"
    "admitted_from Q R (si_protected_policy inputs) (si_qualification_record_path inputs)
       (si_compatibility_observations inputs) (ownership_id w) authority"
  shows "ends P (startup_sample P S dev authority candidate)
    (stage_post P sound content enough (\<lambda>s w'. qs_device s = dev \<and> started content Q R inputs candidate s w')) w"
    (is "ends P _ ?Q w")
proof -
  have second: "ends P (try_dio (total_io (collect_with P S dev gate)) (\<lambda>(second, _).
      case second of
        Inr (OwnershipReady ready) \<Rightarrow> unless_shutdown P dev (startup_arm P dev authority candidate ready)
      | Inr OwnershipAwaitingSecondSample \<Rightarrow> reject_owned P dev (StartupSampling None)
      | Inl error \<Rightarrow> reject_owned P dev (StartupSampling (Some error)))) ?Q w1"
    if w1: "ok w1" "own_lock w1 \<noteq> None" "enough \<longrightarrow> unat (sampling_epoch w1) + 8 < 2 ^ 64" "ownership_id w1 = ownership_id w"
    for gate w1
  proof (rule ends_try_total [OF collect_with_post [OF assms(1,7,8) w1(1)]], goal_cases)
    case (1 taken w2)
    then have w2: "ok w2" "own_lock w2 \<noteq> None" "enough \<longrightarrow> unat (sampling_epoch w2) + 6 < 2 ^ 64" "ownership_id w2 = ownership_id w"
      using w1 by auto
    show ?case
      using w2 assms(1,5,6,9)
      by (auto intro!: reject_stage unless_shutdown_stage arm_stage split: prod.split sum.split ownership_sample_readiness.split)
  qed (use w1 in \<open>auto simp: stage_post_def\<close>)
  have waited: "ends P (try_dio (total_io (catch_io (wait_for_next_sample P gate))) (\<lambda>waited.
      case waited of
        Inl error \<Rightarrow> reject_owned P dev (StartupSampling (Some error))
      | Inr _ \<Rightarrow>
          try_dio (total_io (collect_with P S dev gate)) (\<lambda>(second, _).
            case second of
              Inr (OwnershipReady ready) \<Rightarrow> unless_shutdown P dev (startup_arm P dev authority candidate ready)
            | Inr OwnershipAwaitingSecondSample \<Rightarrow> reject_owned P dev (StartupSampling None)
            | Inl error \<Rightarrow> reject_owned P dev (StartupSampling (Some error))))) ?Q w1"
    if w1: "ok w1" "own_lock w1 \<noteq> None" "enough \<longrightarrow> unat (sampling_epoch w1) + 8 < 2 ^ 64" "ownership_id w1 = ownership_id w"
    for gate w1
  proof (rule ends_try_total [OF wp_catch [OF tripleD [OF wait_triple w1(1)]]], goal_cases)
    case (1 x w2)
    then have w2: "ok w2" "own_lock w2 \<noteq> None" "enough \<longrightarrow> unat (sampling_epoch w2) + 8 < 2 ^ 64" "ownership_id w2 = ownership_id w"
      using w1 by (auto simp: sampling_def owner_kept_def split: sum.splits)
    show ?case using second [OF w2] w2 assms(1) by (auto intro!: reject_stage split: sum.split)
  qed (auto split: outcome.splits)
  show ?thesis
    unfolding startup_sample_def
  proof (rule ends_try_total [OF wp_conj [OF gate_new_effect gate_new_unstarted]], goal_cases)
    case (1 gate w1)
    then have w1: "ok w1" "own_lock w1 \<noteq> None" "enough \<longrightarrow> unat (sampling_epoch w1) + 10 < 2 ^ 64" "ownership_id w1 = ownership_id w"
      and g: "sg_last_started gate = None" using assms by auto
    show ?case
    proof (rule ends_try_total [OF collect_with_post [OF assms(1,7,8) w1(1)]], goal_cases)
      case (1 taken w2)
      then have w2: "ok w2" "own_lock w2 \<noteq> None" "enough \<longrightarrow> unat (sampling_epoch w2) + 8 < 2 ^ 64" "ownership_id w2 = ownership_id w"
        using w1 by auto
      show ?case
        using 1 g w2 assms(1) waited
        by (auto intro!: reject_stage unless_shutdown_stage split: prod.split sum.split ownership_sample_readiness.split)
    qed (use w1 in \<open>auto simp: stage_post_def\<close>)
  qed (use assms(4) in \<open>auto simp: stage_post_def\<close>)
qed

lemma admit_stage:
  assumes "device_ok dev" "ok w" "own_lock w \<noteq> None"
    "enough \<longrightarrow> unat (sampling_epoch w) + 13 < 2 ^ 64 \<and> unat (next_gate_id w) + 1 < 2 ^ 64"
    "config_ok candidate" "typed_readers R" "passive_sources sound content S" "typed_sources sound S"
  shows "ends P (startup_admit P Q R S inputs dev candidate)
    (stage_post P sound content enough (\<lambda>s w'. qs_device s = dev \<and> started content Q R inputs candidate s w')) w"
    (is "ends P _ ?Q w")
  unfolding startup_admit_def
proof (rule ends_try_total [OF wp_catch [OF wp_conj [OF wp_conj [OF owned_restore_safe [OF assms(1,2)] restore_counted [OF assms(1,2)]]
      wp_conj [OF script_silentD [OF holding.obs_owned(1)] script_silentD [OF gates.obs_owned(1)]]]]], goal_cases)
  case (1 restored w1)
  then have w1: "owner_safe sound content w1" "own_lock w1 \<noteq> None" "unat (sampling_epoch w1) = unat (sampling_epoch w) + 1"
    "next_gate_id w1 = next_gate_id w"
    using assms(3) by (auto split: sum.splits)
  then have s1: "ok w1" by (simp add: owner_safe_def)
  show ?case
  proof (cases restored)
    case (Inl error)
    then show ?thesis using s1 w1 assms(1,4) by (auto intro!: recover_stage)
  next
    case (Inr u)
    show ?thesis
      unfolding Inr sum.case
    proof (rule ends_try_total [OF wp_catch [OF wp_conj [OF admit_post [OF assms(1) w1(1) assms(6)]
          wp_conj [OF script_silentD [OF holding.obs_admit] script_silentD [OF gates.obs_admit]]]]], goal_cases)
      case (1 admitted w2)
      then have w2: "ok w2" "own_lock w2 \<noteq> None" "enough \<longrightarrow> unat (sampling_epoch w2) + 10 < 2 ^ 64 \<and> unat (next_gate_id w2) + 1 < 2 ^ 64"
        using w1 assms(4) by (auto simp: owner_safe_def split: sum.splits)
      show ?case
      proof (cases admitted)
        case (Inl error)
        then show ?thesis using w2 assms(1) by (auto intro!: reject_stage)
      next
        case (Inr authority)
        then have "admitted_from Q R (si_protected_policy inputs) (si_qualification_record_path inputs)
            (si_compatibility_observations inputs) (ownership_id w2) authority" using 1 by auto
        then show ?thesis
          unfolding Inr sum.case using w2 assms(1,5,7,8) admitted_authority_ok [OF assms(6)]
          by (intro unless_shutdown_stage sample_stage) auto
      qed
    qed (use w1 assms(4) in \<open>auto simp: stage_post_def split: outcome.splits\<close>)
  qed
qed (use assms(4) in \<open>auto simp: stage_post_def split: outcome.splits\<close>)

lemma owned_stage:
  assumes "device_ok discovered" "ok w" "own_lock w \<noteq> None"
    "enough \<longrightarrow> unat (sampling_epoch w) + 13 < 2 ^ 64 \<and> unat (next_gate_id w) + 1 < 2 ^ 64"
    "config_ok candidate" "typed_readers R" "passive_sources sound content S" "typed_sources sound S"
  shows "ends P (startup_owned P Q R S discovered inputs candidate)
    (stage_post P sound content enough (\<lambda>s w'. qs_device s = discovered \<and> started content Q R inputs candidate s w')) w"
proof -
  have "wp (on_platform (discover_acer_hwmon P (si_hwmon_root inputs))) (\<lambda>r w'. r \<noteq> Panic \<and> (\<exists>p. w' = w\<lparr>platform := p\<rparr> \<and> sound p)
      \<and> (\<forall>dev. r = Ok dev \<longrightarrow> device_ok dev)) w"
    using harmless_discover [of "si_hwmon_root inputs", unfolded harmless_def, rule_format, OF assms(2)]
      discovered_device_ok [of P "si_hwmon_root inputs"]
    by (auto simp: wp_def on_platform_def split: prod.splits)
  from wp_catch [OF this] show ?thesis
    unfolding startup_owned_def
  proof (rule ends_try_total, goal_cases)
    case (1 found w1)
    then have w1: "ok w1" "own_lock w1 \<noteq> None" "enough \<longrightarrow> unat (sampling_epoch w1) + 13 < 2 ^ 64 \<and> unat (next_gate_id w1) + 1 < 2 ^ 64"
      "\<forall>dev. found = Inr dev \<longrightarrow> device_ok dev"
      using assms(2-4) by (auto split: sum.splits)
    show ?case
      using w1 assms(1,5-8) by (auto intro!: reject_stage unless_shutdown_stage admit_stage split: sum.split)
  qed (auto split: outcome.splits)
qed

text \<open>Acquisition: a refusal leaves the owner's fields as they were.\<close>

definition unowned :: "('p, 'l, 's) world \<Rightarrow> ('p, 'l, 's) world \<Rightarrow> bool" where
  "unowned w w' \<longleftrightarrow> own_lock w' = own_lock w \<and> next_gate_id w' = next_gate_id w \<and> next_ownership_id w' = next_ownership_id w"

lemma unowned_transp: "transp unowned"
  by (rule transpI) (simp add: unowned_def)

lemma unowned_platform: "harmless sound m \<Longrightarrow> triple ok unowned (on_platform m) (\<lambda>_ _. True)"
  unfolding triple_def wp_on_platform harmless_def by (auto simp: unowned_def elim: wp_mono)

lemma unowned_emit: "triple ok unowned (emit e) (\<lambda>_ _. True)"
  by (simp add: triple_def wp_emit unowned_def)

lemma unowned_return: "r \<noteq> Panic \<Longrightarrow> triple ok unowned (return_io r) (\<lambda>_ _. True)"
  by (rule triple_return) (auto simp: unowned_def)

lemma unowned_services: "triple ok unowned (reject_competing_services P) (\<lambda>_ _. True)"
proof -
  have "triple ok unowned (reject_services P services) (\<lambda>_ _. True)" for services
    by (induction services)
      (auto intro!: unowned_return triple_try [OF unowned_transp] triple_catch unowned_platform harmless_service split: sum.split)
  then show ?thesis by (simp add: reject_competing_services_def)
qed

lemma acquire_post:
  assumes "ok w"
  shows "wp (acquire_controller_ownership P) (\<lambda>r w'. (unat (next_ownership_id w) + 1 < 2 ^ 64 \<longrightarrow> r \<noteq> Panic)
     \<and> (r \<noteq> Panic \<longrightarrow> ok w' \<and> next_gate_id w' = next_gate_id w) \<and> (\<forall>e. r = Err e \<longrightarrow> own_lock w' = own_lock w)
     \<and> (r = Ok () \<longrightarrow> own_lock w' \<noteq> None \<and> sampling_epoch w' = 0)) w" (is "wp _ ?Q w")
proof -
  have inspected: "triple ok unowned (inspect_err_io m (emit_fault fault endpoint)) (\<lambda>_ _. True)"
    if "triple ok unowned m (\<lambda>_ _. True)" for m fault endpoint
    unfolding inspect_err_io_def emit_fault_def
    by (intro triple_try [OF unowned_transp] triple_catch that)
      (auto intro!: triple_try [OF unowned_transp] unowned_emit unowned_return split: sum.split)
  have owned: "wp (try_io next_ownership_id_io (\<lambda>i.
      modify_io (\<lambda>w. w\<lparr>own_lock := Some lock, ownership_id := i, controlled_device := None,
               restoration_confirmed := False, sampling_epoch_started := False, sampling_epoch := 0\<rparr>))) ?Q w1"
    if "ok w1" "unowned w w1" for lock w1
    using that by (auto simp: wp_def try_io_def next_ownership_id_io_def modify_io_def unowned_def word_checked_add_def
        split: option.split if_splits)
  have refused: "triple ok unowned (try_io (emit_fault FaultOwnershipDenied None) (\<lambda>_.
           try_io (catch_io (on_platform (release_runtime_lock P lock))) (\<lambda>released.
             return_io (Err (case released of
                Inr _ \<Rightarrow> rejection
              | Inl (_, error) \<Rightarrow> OwnershipRuntimeLock (RuntimeLockPlatform error)))))) (\<lambda>_ _. False)" for lock rejection
    unfolding emit_fault_def
    by (intro triple_try [OF unowned_transp] unowned_emit triple_catch unowned_platform harmless_release triple_return)
      (auto simp: unowned_def)
  show ?thesis
    unfolding acquire_controller_ownership_def
  proof (rule wp_try [OF tripleD [OF inspected [OF unowned_services] assms]], goal_cases)
    case (1 u w1)
    then have w1: "ok w1" "unowned w w1" by auto
    show ?case
    proof (rule wp_try [OF tripleD [OF inspected [OF triple_map_err [OF unowned_platform [OF harmless_acquire]]] w1(1)]], goal_cases)
      case (1 lock w2)
      then have w2: "ok w2" "unowned w w2" using w1 transpD [OF unowned_transp] by blast+
      show ?case
      proof (rule wp_try [OF tripleD [OF triple_catch [OF unowned_services] w2(1)]], goal_cases)
        case (1 rejected w3)
        then have w3: "ok w3" "unowned w w3" using w2 transpD [OF unowned_transp] by blast+
        show ?case
        proof (cases rejected)
          case (Inl rejection)
          show ?thesis
            unfolding Inl sum.case
            by (rule wp_mono [OF tripleD [OF refused w3(1)]]) (use w3 in \<open>auto simp: unowned_def\<close>)
        qed (use owned w3 in simp)
      qed (use w2 transpD [OF unowned_transp] in \<open>auto simp: unowned_def\<close>)
    qed (use w1 in \<open>auto simp: unowned_def\<close>)
  qed (auto simp: unowned_def)
qed

end

section \<open>The whole sequence\<close>

text \<open>The failures that are reported without taking the lock.\<close>

fun before_ownership :: "('c, 'd, 't, 'j) startup_error \<Rightarrow> bool" where
  "before_ownership (StartupConfiguration _) = True"
| "before_ownership (StartupCompatibility _) = True"
| "before_ownership (StartupOwnership _) = True"
| "before_ownership StartupShutdownRequested = True"
| "before_ownership _ = False"

lemma map_err_eq_Err: "map_err g r = Err e \<longleftrightarrow> (\<exists>x. r = Err x \<and> e = g x)"
  by (cases r) auto

lemma parse_candidate_Err: "parse_candidate F source = Err e \<Longrightarrow> before_ownership e"
  by (auto simp: parse_candidate_def bind_ok_eq_Err map_err_eq_Err)

definition startup_post ::
  "('p, 'l) platform_ops \<Rightarrow> ('p \<Rightarrow> bool) \<Rightarrow> ('p \<Rightarrow> path \<Rightarrow> string option) \<Rightarrow> 'p qualification_access \<Rightarrow> ('t, 'j) policy_readers
     \<Rightarrow> ('c, 'd) configuration_readers \<Rightarrow> acer_hwmon_device \<Rightarrow> startup_inputs \<Rightarrow> bool
     \<Rightarrow> (('c, 'd, 't, 'j) startup_error, qualified_startup) outcome \<Rightarrow> ('p, 'l, 's) world \<Rightarrow> bool" where
  "startup_post P sound content Q R F discovered inputs enough r w' \<longleftrightarrow>
     (enough \<longrightarrow> r \<noteq> Panic)
     \<and> (\<forall>s. r = Ok s \<longrightarrow> qs_device s = discovered \<and> sound (platform w')
          \<and> (\<exists>config d. config_from_str F (si_editable_config inputs) = Inr config
               \<and> validate_config_v1 config = Ok (afc_config (qs_armed s))
               \<and> declaration_from_str F (si_compatibility_declaration inputs) = Inr d
               \<and> admit_compatibility d (si_compatibility_observations inputs) = Ok ()
               \<and> started content Q R inputs (afc_config (qs_armed s)) s w'))
     \<and> (\<forall>e. r = Err e \<longrightarrow> safe_exit P content e w' \<or> before_ownership e \<and> own_lock w' = None)"

context startup_platform
begin

lemma startup_run_post:
  fixes F :: "('c, 'd) configuration_readers" and R :: "('t, 'j) policy_readers" and w :: "('p, 'l, 's) world"
  assumes "passive_sources sound content S" "typed_sources sound S" "typed_readers R" "typed_config F"
    "device_ok discovered" "ok w" "own_lock w = None"
  shows "ends P (qualified_startup_run P Q R F discovered S inputs)
    (startup_post P sound content Q R F discovered inputs (unat (next_ownership_id w) + 1 < 2 ^ 64 \<and> unat (next_gate_id w) + 1 < 2 ^ 64)) w"
    (is "ends P _ (startup_post P sound content Q R F discovered inputs ?enough) w")
proof -
  have early: "startup_post P sound content Q R F discovered inputs b (Err e) w'" if "before_ownership e" "own_lock w' = None" for b e w'
    using that by (auto simp: startup_post_def)
  have owned: "ends P (try_dio (total_io (map_err_io StartupOwnership (acquire_controller_ownership P))) (\<lambda>_.
      startup_owned P Q R S discovered inputs candidate)) (startup_post P sound content Q R F discovered inputs ?enough) w1"
    if w1: "ok w1" "own_lock w1 = None" "next_ownership_id w1 = next_ownership_id w" "next_gate_id w1 = next_gate_id w"
      and c: "parse_candidate F (si_editable_config inputs) = (Ok candidate :: (('c, 'd, 't, 'j) startup_error, _) outcome)"
      and d: "declaration_from_str F (si_compatibility_declaration inputs) = Inr d" "admit_compatibility d (si_compatibility_observations inputs) = Ok ()"
    for candidate d w1
  proof -
    obtain config where config: "config_from_str F (si_editable_config inputs) = Inr config" "validate_config_v1 config = Ok candidate"
      using c by (auto simp: parse_candidate_def parse_config_v1_def outcome_of_def bind_ok_eq_Ok split: sum.splits)
    have "wp (map_err_io StartupOwnership (acquire_controller_ownership P)) (\<lambda>r w'. (?enough \<longrightarrow> r \<noteq> Panic)
       \<and> (\<forall>e. r = Err e \<longrightarrow> before_ownership e \<and> own_lock w' = None)
       \<and> (r = Ok () \<longrightarrow> ok w' \<and> own_lock w' \<noteq> None \<and> sampling_epoch w' = 0 \<and> next_gate_id w' = next_gate_id w)) w1"
      unfolding wp_map_err_io
      by (rule wp_mono [OF acquire_post [OF w1(1)]]) (use w1 in \<open>auto simp: map_err_def split: outcome.splits\<close>)
    then show ?thesis
    proof (rule ends_try_total, goal_cases)
      case (1 u w2)
      have "ends P (startup_owned P Q R S discovered inputs candidate) (stage_post P sound content ?enough
          (\<lambda>s w'. qs_device s = discovered \<and> started content Q R inputs candidate s w')) w2"
        by (rule owned_stage [OF assms(5) _ _ _ parse_candidate_cases(2) [OF assms(4) c] assms(3,1,2)]) (use 1 in simp_all)
      then show ?case
      proof (rule ends_mono)
        fix r :: "(('c, 'd, 't, 'j) startup_error, qualified_startup) outcome" and w3
        assume st: "stage_post P sound content ?enough (\<lambda>s w'. qs_device s = discovered \<and> started content Q R inputs candidate s w') r w3"
        have "afc_config (qs_armed s) = candidate" if "started content Q R inputs candidate s w3" for s
          using that by (simp add: started_def)
        with st config d show "startup_post P sound content Q R F discovered inputs ?enough r w3"
          by (simp add: stage_post_def startup_post_def)
      qed
    qed (auto simp: startup_post_def)
  qed
  show ?thesis
    unfolding qualified_startup_run_def
  proof (rule ends_try_total [OF requested_only_latch], goal_cases)
    case (1 requested w1)
    then have w1: "ok w1" "own_lock w1 = None" "next_ownership_id w1 = next_ownership_id w" "next_gate_id w1 = next_gate_id w"
      using assms(6,7) by auto
    show ?case
    proof (cases requested)
      case True
      then show ?thesis using w1 by (auto simp: ends_total wp_return intro!: early)
    next
      case False
      have "declaration_from_str F source = Inr d"
        if "parse_compatibility_v1 (\<lambda>s. outcome_of (declaration_from_str F s)) source = Ok d" for source d
        using that by (auto simp: parse_compatibility_v1_def outcome_of_def bind_ok_eq_Ok split: sum.splits)
      then show ?thesis
        unfolding if_not_P [OF False]
        by (intro ends_check owned w1)
          (use w1(2) parse_candidate_cases(1) [OF assms(4)] parse_compatibility_no_panic [of "declaration_from_str F"] admit_compatibility_no_panic in
            \<open>auto simp: map_err_eq_Err intro!: early dest: parse_candidate_Err\<close>)
    qed
  qed auto
qed

end

section \<open>A concrete startup\<close>

definition sample_configuration :: "(unit, unit) configuration_readers" where
  "sample_configuration = \<lparr>config_from_str = (\<lambda>_. Inr example_config), declaration_from_str = (\<lambda>_. Inr qualified_declaration)\<rparr>"

definition sample_inputs :: "path \<Rightarrow> startup_inputs" where
  "sample_inputs record_path =
     \<lparr>si_editable_config = [], si_compatibility_declaration = [], si_protected_policy = [],
      si_qualification_record_path = record_path, si_compatibility_observations = [qualified_observation],
      si_hwmon_root = [''sys'', ''class'', ''hwmon'']\<rparr>"

definition cold_world :: "(fake_platform, fake_runtime_lock, unit) world" where
  "cold_world = world_of (qualified_platform\<lparr>directories := [[''sys'', ''class'', ''hwmon''], sample_root]\<rparr>) ()"

lemma sample_discovers:
  "fst (discover_acer_hwmon fake_ops [''sys'', ''class'', ''hwmon''] (platform cold_world)) = Ok sample_device"
  by code_simp

fun refused :: "((('c, 'd, 't, 'j) startup_error, 'a) outcome \<times> 's) option \<Rightarrow> bool" where
  "refused (Some (Err e, _)) = (\<not> before_ownership e)"
| "refused _ = False"

lemma refusedE: "refused m \<Longrightarrow> \<exists>e w'. m = Some (Err e, w') \<and> \<not> before_ownership e"
  by (cases m rule: refused.cases) auto


declare recover_firmware_auto.simps [code]

lemma sample_refused:
  "case acquire_controller_ownership fake_ops cold_world of
     (r, w) \<Rightarrow> r = Ok () \<and> refused (startup_owned fake_ops sample_store sample_readers sources sample_device (sample_inputs [''missing'']) candidate w
       :: (((unit, unit, unit, unit) startup_error, _) outcome \<times> _) option)"
  by code_simp


lemma cold_start: "quiet (platform cold_world)" "own_lock cold_world = None" "typed_config sample_configuration"
  "next_ownership_id cold_world = 0" "next_gate_id cold_world = 0"
  using example_config_valid(2)
  by (simp_all add: cold_world_def world_of_def quiet_def qualified_platform_def auto_platform_def sample_platform_def fake_new_def
      typed_config_def sample_configuration_def)

lemma sample_startup_refused:
  "\<exists>e w'. qualified_startup_run fake_ops sample_store sample_readers sample_configuration sample_device cool_sources
      (sample_inputs [''missing'']) cold_world = Some (Err e, w') \<and> \<not> before_ownership e"
proof (rule refusedE)
  obtain w where w: "acquire_controller_ownership fake_ops cold_world = (Ok (), w)"
    "refused (startup_owned fake_ops sample_store sample_readers cool_sources sample_device (sample_inputs [''missing'']) (exact_config example_config) w
       :: (((unit, unit, unit, unit) startup_error, _) outcome \<times> _) option)"
    using sample_refused [of cool_sources "exact_config example_config"] by (auto split: prod.splits)
  have c: "parse_candidate sample_configuration x = (Ok (exact_config example_config) :: ((unit, unit, unit, unit) startup_error, _) outcome)" for x
    using validate_config_Ok(1) [OF example_config_valid] by (simp add: parse_candidate_def parse_config_v1_def sample_configuration_def outcome_of_def)
  have d: "parse_compatibility_v1 (\<lambda>s. outcome_of (declaration_from_str sample_configuration s)) x = Ok qualified_declaration" for x
    using qualified_declaration_valid
    by (simp add: parse_compatibility_v1_def sample_configuration_def outcome_of_def)
  have quiet_latch: "shutdown_is_requested cold_world = (Ok False, cold_world)"
    by (simp add: shutdown_is_requested_def deliver_signal_def cold_world_def world_of_def is_requested_def shutdown_open_def)
  show "refused (qualified_startup_run fake_ops sample_store sample_readers sample_configuration sample_device cool_sources
      (sample_inputs [''missing'']) cold_world :: (((unit, unit, unit, unit) startup_error, _) outcome \<times> _) option)"
    using w(2) qualified_admitted
    by (simp add: qualified_startup_run_def c d w(1) quiet_latch try_dio_def total_io_def return_io_def map_err_io_def)
       (simp add: sample_inputs_def try_dio_def total_io_def map_err_io_def w(1))
qed

section \<open>Property\<close>

text \<open>
  C4. The daemon's startup, on a platform whose delay lets time pass, with sources that only observe.
  It succeeds only for the device that was discovered before, with a configuration and a compatibility
  declaration that were read, validated and matched against the machine, under a policy admitted for
  this ownership that the configuration covers; then the lock is held, both fans are in Custom at the
  maximum duty and the handover is current. Every failure either happened before the lock was taken
  and left no lock, or restored Firmware Auto on both fans before it gave the lock back, as the last
  thing it did. It does not panic while the two identifier counters have room, and the only way not to
  return is to wait, holding the lock, for Firmware Auto to be recovered.
\<close>

theorem startup_safe:
  assumes "startup_platform P sound content now Q" "passive_sources sound content S" "typed_sources sound S"
    "typed_readers R" "typed_config F" "device_ok discovered" "sound (platform w)" "own_lock w = None"
  shows "ends P (qualified_startup_run P Q R F discovered S inputs)
    (startup_post P sound content Q R F discovered inputs (unat (next_ownership_id w) + 1 < 2 ^ 64 \<and> unat (next_gate_id w) + 1 < 2 ^ 64)) w"
  by (rule startup_platform.startup_run_post [OF assms])

theorem startup_safe_witness:
  "\<exists>e w'. qualified_startup_run fake_ops sample_store sample_readers sample_configuration sample_device cool_sources
      (sample_inputs [''missing'']) cold_world = Some (Err e, w') \<and> safe_exit fake_ops file_contents e w'"
proof -
  obtain e w' where e: "qualified_startup_run fake_ops sample_store sample_readers sample_configuration sample_device cool_sources
      (sample_inputs [''missing'']) cold_world = Some (Err e, w')" "\<not> before_ownership e"
    using sample_startup_refused by blast
  show ?thesis
    using startup_safe [OF fake.startup_platform_axioms constant_passive cool_typed sample_typed cold_start(3) sample_device_ok cold_start(1,2),
        of sample_evidence "\<lambda>_. sample_digest" "sample_inputs [''missing'']"] e
    by (auto simp: ends_def startup_post_def)
qed

end
