(* ===== verification/Production.thy ===== *)
theory Production
  imports Startup_Contract Supervision
begin

text \<open>
  The daemon's production loop (\<open>fan-control-daemon/src/lib.rs\<close>): supervised iterations of sensor control
  until a shutdown or a latched fault, then the one cleanup, the recovery of Firmware Auto where the
  cleanup was critical, and the release of the ownership. Shown here: however the loop ends, the lock
  is given back only with both fans of the admitted device in Firmware Auto.
\<close>

section \<open>Errors\<close>

text \<open>A failed release keeps the platform's error, if there is one, in place of its rendered text.\<close>

datatype 'e production_control_loop_error =
    ProductionIteration "'e supervised_control_iteration_error"
  | ProductionCleanup "'e supervised_control_iteration_error option" graceful_shutdown_failure
  | ProductionRelease "'e supervised_control_iteration_error option" "graceful_shutdown_failure option" "platform_error option"

fun production_diagnostic_id :: "'e production_control_loop_error \<Rightarrow> string" where
  "production_diagnostic_id (ProductionCleanup _ (CleanupCritical _ _)) = ''firmware-auto-unconfirmed''"
| "production_diagnostic_id (ProductionCleanup _ (CleanupContained _ _)) = ''platform-operation-failed''"
| "production_diagnostic_id (ProductionRelease _ (Some (CleanupCritical _ _)) _) = ''firmware-auto-unconfirmed''"
| "production_diagnostic_id (ProductionIteration _) = ''platform-operation-failed''"
| "production_diagnostic_id (ProductionRelease _ _ _) = ''platform-operation-failed''"

fun production_runtime_fault :: "'e production_control_loop_error \<Rightarrow> runtime_fault" where
  "production_runtime_fault (ProductionCleanup _ (CleanupCritical _ _)) = FaultFirmwareAutoUnconfirmed"
| "production_runtime_fault (ProductionCleanup _ (CleanupContained _ _)) = FaultPlatformOperation"
| "production_runtime_fault (ProductionRelease _ (Some (CleanupCritical _ _)) _) = FaultFirmwareAutoUnconfirmed"
| "production_runtime_fault (ProductionIteration _) = FaultPlatformOperation"
| "production_runtime_fault (ProductionRelease _ _ _) = FaultPlatformOperation"

section \<open>The loop\<close>

type_synonym ('n, 'd, 'p, 'l, 's) production_state =
  "'n control_loop_heartbeat \<times> ('d, 's) transient_sensor_control \<times> ('p, 'l, 's) world"

text \<open>Why the loop stops: a shutdown that is still requested is no failure.\<close>

definition stop_reason ::
  "'e supervised_control_iteration_error
     \<Rightarrow> (('n, 'd, 'p, 'l, 's) production_state, 'x, 'e supervised_control_iteration_error option) io" where
  "stop_reason error =
     (case error of
        IterationControl SensorShutdownRequested \<Rightarrow>
          try_io (on_snd (on_snd shutdown_is_requested)) (\<lambda>requested.
            return_io (Ok (if requested then None else Some error)))
      | _ \<Rightarrow> return_io (Ok (Some error)))"

definition rediscovery_pause ::
  "('p, 'l) platform_ops \<Rightarrow> sensor_control_step \<Rightarrow> ('n, 'd, 'p, 'l, 's) production_state \<Rightarrow> ('n, 'd, 'p, 'l, 's) production_state" where
  "rediscovery_pause P stepped s =
     (case stepped of
        StepAwaitingRediscovery _ \<Rightarrow>
          (case s of (hb, t, w) \<Rightarrow> (hb, t, w\<lparr>platform := delay P normal_sample_cadence (platform w)\<rparr>))
      | _ \<Rightarrow> s)"

partial_function (option) production_loop ::
  "('p, 'l) platform_ops \<Rightarrow> ('p, 's) sample_sources \<Rightarrow> ('d, 'p, 's) sensor_source_discovery \<Rightarrow> ('n, 'e) service_notifier
     \<Rightarrow> ('n, 'd, 'p, 'l, 's) production_state
     \<Rightarrow> (('x, 'e supervised_control_iteration_error option) outcome \<times> ('n, 'd, 'p, 'l, 's) production_state) option" where
  "production_loop P S D N s =
     (case run_supervised_control_iteration P S D N s of
        None \<Rightarrow> None
      | Some (r, s') \<Rightarrow>
          (case r of
             Ok stepped \<Rightarrow> production_loop P S D N (rediscovery_pause P stepped s')
           | Err error \<Rightarrow> Some (stop_reason error s')
           | Panic \<Rightarrow> Some (Panic, s')))"

text \<open>The exit. The state of the shutdown controller is its cleanup result.\<close>

fun cleanup_was_critical :: "graceful_shutdown_failure option \<Rightarrow> bool" where
  "cleanup_was_critical (Some (CleanupCritical _ _)) = True"
| "cleanup_was_critical _ = False"

definition production_exit ::
  "('p, 'l) platform_ops \<Rightarrow> acer_hwmon_device \<Rightarrow> 'e supervised_control_iteration_error option
     \<Rightarrow> (cleanup_result option \<times> ('p, 'l, 's) world, 'e production_control_loop_error, unit) dio" where
  "production_exit P dev iteration_failure =
     try_dio (total_io (catch_io (shutdown_cleanup P dev))) (\<lambda>cleaned.
       let cleanup_failure = (case cleaned of Inl failure \<Rightarrow> Some failure | Inr _ \<Rightarrow> None)
       in try_dio (if cleanup_was_critical cleanup_failure then on_snd_dio (owned_recover_firmware_auto P dev)
                   else total_io (return_io (Ok ()))) (\<lambda>_.
          total_io (try_io (catch_io (on_snd (release_ownership P))) (\<lambda>released.
            return_io
              (case released of
                 Inl source \<Rightarrow> Err (ProductionRelease iteration_failure cleanup_failure source)
               | Inr _ \<Rightarrow>
                   (case cleanup_failure of
                      Some cleanup \<Rightarrow> Err (ProductionCleanup iteration_failure cleanup)
                    | None \<Rightarrow>
                        (case iteration_failure of
                           Some error \<Rightarrow> Err (ProductionIteration error)
                         | None \<Rightarrow> Ok ())))))))"

definition run_production_control_loop ::
  "('p, 'l) platform_ops \<Rightarrow> ('p, 's) sample_sources \<Rightarrow> ('d, 'p, 's) sensor_source_discovery \<Rightarrow> ('n, 'e) service_notifier
     \<Rightarrow> qualified_startup \<Rightarrow> 's \<Rightarrow> 'd \<Rightarrow> 'n
     \<Rightarrow> (cleanup_result option \<times> ('p, 'l, 's) world, 'e production_control_loop_error, unit) dio" where
  "run_production_control_loop P S D N startup sources discovery notifier =
     try_dio (total_io (on_snd (sensor_control_from_armed (qs_armed startup) (qs_authority startup) discovery sources))) (\<lambda>t.
     try_dio (\<lambda>(shutdown, w).
         case production_loop P S D N (heartbeat_new notifier, t, w) of
           None \<Rightarrow> None
         | Some (r, (_, _, w')) \<Rightarrow> Some (r, (shutdown, w'))) (\<lambda>iteration_failure.
       production_exit P (qs_device startup) iteration_failure))"

section \<open>What an iteration leaves alone\<close>

definition keeps :: "('s \<Rightarrow> 'x) \<Rightarrow> ('s, 'e, 'a) dio \<Rightarrow> bool" where
  "keeps f m \<longleftrightarrow> (\<forall>s. wlp m (\<lambda>r s'. r \<noteq> Panic \<longrightarrow> f s' = f s) s)"

lemma keeps_total: "script f m [] \<Longrightarrow> keeps f (total_io m)"
  unfolding keeps_def wlp_total by (intro allI wp_mono [OF script_silentD]) auto

lemma keeps_try: "keeps f m \<Longrightarrow> (\<And>x. keeps f (k x)) \<Longrightarrow> keeps f (try_dio m k)"
  unfolding keeps_def
  by (intro allI wlp_try [where R = "\<lambda>r s'. r \<noteq> Panic \<longrightarrow> f s' = f _"]) (assumption | fastforce elim: wlp_mono)+

lemma keeps_catch: "keeps f m \<Longrightarrow> keeps f (catch_dio m)"
  unfolding keeps_def wlp_catch_dio by (intro allI) (fastforce elim: wlp_mono split: outcome.splits)

lemma keeps_map_err: "keeps f m \<Longrightarrow> keeps f (map_err_dio g m)"
  unfolding keeps_def wlp_map_err_dio by (intro allI) (fastforce elim: wlp_mono)

lemma keeps_on_snd: "keeps f m \<Longrightarrow> keeps (\<lambda>cw. f (snd cw)) (on_snd_dio m)"
  unfolding keeps_def wlp_on_snd_dio by (auto elim: wlp_mono)

text \<open>An observer that sees no event and no gate sees nothing of a whole step.\<close>

locale blind_observer = world_observer f "\<lambda>_. []" for f :: "('p, 'l, 's) world \<Rightarrow> 'x list" +
  assumes gate_unseen: "f (w\<lparr>next_gate_id := n\<rparr>) = f w"
begin

lemma obs_event: "script f (emit e) []" "script f (emit_fault fault endpoint) []" "script f (emit_state_transition a b r) []"
  "script f (emit_fault_diagnostic d) []"
  using obs_emit obs_fault obs_transition
  by (simp_all add: emit_fault_diagnostic_def emit_fault_def split: prod.split)

lemma obs_gate_new: "script f sample_gate_new []"
proof (rule script_silent)
  fix w show "wp sample_gate_new (\<lambda>_ w'. f w' = f w) w"
    by (rule wp_mono [OF gate_new_effect]) (auto simp: gate_unseen)
qed

lemma obs_lend: "script gf m [] \<Longrightarrow> script gf (lend c s m) []"
proof (rule script_silent)
  fix tw :: "'t \<times> ('p, 'l, 's) world"
  assume m: "script gf m []"
  have "wp m (\<lambda>_ cw'. f (snd cw') = f (snd tw)) (c, snd tw\<lparr>source_state := s\<rparr>)"
    using script_silentD [OF m, of "(c, snd tw\<lparr>source_state := s\<rparr>)"] by (simp add: unseen)
  then show "wp (lend c s m) (\<lambda>_ tw'. gf tw' = gf tw) tw"
    by (cases tw) (auto simp: wp_def lend_def split: prod.splits outcome.splits)
qed

lemmas obs_sensor_parts = script_on_snd [OF obs_safing] script_on_snd [OF obs_event(1)] script_on_snd [OF obs_event(2)]
  script_on_snd [OF obs_event(3)] script_on_snd [OF obs_event(4)] script_on_snd [OF obs_gate_new] script_on_snd [OF obs_requested]
  script_on_snd [OF obs_refresh] script_on_snd [OF obs_now] script_on_snd [OF obs_wait] script_fst script_return

lemma obs_safing_outcome: "script f (emit_safing_outcome_diagnostics outcome) []"
  unfolding emit_safing_outcome_diagnostics_def
  by (auto intro!: script_quiet_try obs_event split: firmware_auto_safing_outcome.split)

lemma obs_latch: "script gf (latch_with st e) []" "script gf (install st) []" "script gf (latch_shutdown sources) []"
  unfolding latch_with_def install_def latch_shutdown_def by (intro script_quiet_try obs_sensor_parts)+

lemma obs_fault_ends:
  "script gf (restore_for_recovery P config dev fault sources) []" "script gf (latch_control_fault P dev error sources) []"
  "script gf (latch_recovery_fault P dev fault retained) []"
  unfolding restore_for_recovery_def latch_control_fault_def latch_recovery_fault_def
  by (auto intro!: script_quiet_try obs_sensor_parts script_on_snd [OF obs_safing_outcome] obs_latch
      split: firmware_auto_safing_outcome.split)

lemma obs_step_custom: "script gf (step_custom P S ctl sources) []"
  unfolding step_custom_def case_prod_unfold
  by (rule script_quiet_try [OF obs_lend [OF obs_cycle]])
    (auto intro!: script_quiet_try obs_sensor_parts obs_latch obs_fault_ends
      split: sum.split healthy_control_cycle_error.split option.split)

lemma obs_discovery: "script gf (on_discovery m) []"
  by (rule script_silent) (auto simp: wp_def on_discovery_def unseen split: prod.splits)

lemma obs_recovery_sources: "script gf (recovery_sources P D r) []"
  unfolding recovery_sources_def
  by (auto intro!: script_quiet_try obs_sensor_parts obs_latch obs_fault_ends script_catch obs_discovery split: option.split sum.split)

lemma obs_rearm: "keeps gf (rearm P config dev sources sample)"
proof -
  have arm: "keeps f (arm_both_fans_safely_until P dev authority config sample)" for authority
    unfolding keeps_def
  proof (intro allI wlp_mono [OF obs_arm_both])
    fix w w' and r :: "(fan_arming_error, armed_fan_control) outcome"
    assume a: "(\<forall>armed. r = Ok armed \<longrightarrow> f w' = f w @ [] @ []) \<and>
         (\<forall>e. r = Err e \<longrightarrow> (\<exists>entered. f w' = f w @ (if entered then [] @ [] @ (if arming_critical e then [] else [])
            else if arming_critical e then [] else [])))"
    show "r \<noteq> Panic \<longrightarrow> f w' = f w"
      using a by (cases r) (auto split: if_splits)
  qed
  show ?thesis
    unfolding rearm_def Let_def
    by (intro keeps_try keeps_total script_fst keeps_catch keeps_on_snd arm)
      (auto simp: healthy_control_from_armed_def Let_def when_io_def split: sum.split intro!: keeps_total script_quiet_try obs_sensor_parts obs_latch
        script_on_snd obs_gate_new script_return)
qed

lemma obs_after_sample: "keeps gf (after_sample P r taken)"
  unfolding after_sample_def
  by (auto intro!: keeps_try keeps_total script_quiet_try obs_sensor_parts obs_latch obs_fault_ends obs_rearm script_catch
      split: prod.split sum.split ownership_sample_readiness.split)

lemma obs_step: "keeps gf (step P S D)"
proof -
  have rec: "keeps gf (step_recovering P S D r)" for r
    unfolding step_recovering_def
    by (auto intro!: keeps_try keeps_total obs_sensor_parts obs_latch obs_recovery_sources obs_lend obs_fresh_sample obs_after_sample
        split: sum.split)
  show ?thesis
    unfolding step_def take_state_def
    by (rule keeps_try [OF keeps_total]; (intro script_quiet_try obs_sensor_parts)?)
      (auto intro!: keeps_total obs_step_custom obs_latch rec split: control_state.split)
qed

end

interpretation lock: blind_observer "\<lambda>w. [(own_lock w, ownership_id w)]"
  by unfold_locales simp_all

section \<open>The loop\<close>

text \<open>What the iterations of the loop keep: well-formed sensor control, and the lock.\<close>

definition loop_ok ::
  "('p \<Rightarrow> bool) \<Rightarrow> ('p \<Rightarrow> path \<Rightarrow> string option) \<Rightarrow> ('n, 'd, 'p, 'l, 's) production_state \<Rightarrow> bool" where
  "loop_ok sound content s \<longleftrightarrow> sensor_control_ok sound content (snd s) \<and> own_lock (snd (snd s)) \<noteq> None"

lemma iteration_state:
  assumes "run_supervised_control_iteration P S D N (hb, tw) = Some (r, (hb', tw'))"
  shows "\<exists>rs. step P S D tw = Some (rs, tw') \<and> (r \<noteq> Panic \<longrightarrow> rs \<noteq> Panic)"
  using assms
  by (auto simp: run_supervised_control_iteration_def try_dio_def map_err_dio_def on_snd_dio_def total_io_def try_io_def when_io_def
      map_err_io_def on_heartbeat_def return_io_def split: option.splits prod.splits outcome.splits if_splits)

lemma stop_reason_state:
  "wp (stop_reason error) (\<lambda>r s'. (\<exists>failure. r = Ok failure \<and> (failure = None \<longrightarrow> is_requested (latch (snd (snd s')))))
     \<and> (loop_ok sound content s \<longrightarrow> loop_ok sound content s')) s"
proof -
  obtain hb t w where s: "s = (hb, t, w)" by (metis prod_cases3)
  have sh: "wp (on_snd (on_snd shutdown_is_requested)) (\<lambda>r s'. (\<exists>b. r = Ok b \<and> (b \<longrightarrow> is_requested (latch (snd (snd s')))))
      \<and> (loop_ok sound content s \<longrightarrow> loop_ok sound content s')) s"
  proof -
    have ok: "sensor_control_ok sound content (t, w\<lparr>latch := l, signals := ss\<rparr>) = sensor_control_ok sound content (t, w)" for l ss
    proof -
      have "state_ok content (w\<lparr>latch := l, signals := ss\<rparr>) st = state_ok content w st" for st by (cases st) simp_all
      then show ?thesis by (simp add: sensor_control_ok_def owner_safe_def foreign_device_def)
    qed
    have "wp shutdown_is_requested (\<lambda>r w'. \<exists>b. r = Ok b \<and> (b \<longrightarrow> is_requested (latch w'))) w"
      by (simp add: wp_def shutdown_is_requested_def Let_def)
    from wp_conj [OF this requested_only_latch [of w]] show ?thesis
      unfolding s wp_on_snd fst_conv snd_conv by (rule wp_mono) (auto simp: loop_ok_def ok)
  qed
  show ?thesis
    unfolding stop_reason_def
    by (auto simp: wp_return split: supervised_control_iteration_error.split transient_sensor_control_error.split
        intro!: wp_try [OF sh])
qed

context startup_platform
begin

lemma iteration_keeps:
  assumes "loop_ok sound content s" "passive_sources sound content S" "typed_sources sound S" "passive_discovery sound content D"
    "run_supervised_control_iteration P S D N s = Some (r, s')" "r \<noteq> Panic"
  shows "loop_ok sound content s'"
proof -
  obtain hb tw hb' tw' where s: "s = (hb, tw)" "s' = (hb', tw')" by (cases s, cases s')
  obtain rs where rs: "step P S D tw = Some (rs, tw')" "rs \<noteq> Panic"
    using iteration_state [of P S D N hb tw r hb' tw'] assms(5,6) s by auto
  have ok: "sensor_control_ok sound content tw" using assms(1) s by (simp add: loop_ok_def)
  then obtain st where st: "tsc_state (fst tw) = Some st" by (auto simp: sensor_control_ok_def)
  have "sensor_control_ok sound content tw'"
    using twp_returns [OF step_post_holds [OF ok assms(2-4) st]] rs by (auto simp: step_post_def)
  moreover have "own_lock (snd tw') = own_lock (snd tw)"
    using lock.obs_step [of P S D] rs unfolding keeps_def wlp_def by (cases tw; cases tw') (force split: option.splits)
  ultimately show ?thesis using assms(1) by (simp add: loop_ok_def s)
qed

lemma pause_keeps:
  assumes "loop_ok sound content s"
  shows "loop_ok sound content (rediscovery_pause P stepped s)"
proof -
  obtain hb t w where s: "s = (hb, t, w)" by (metis prod_cases3)
  let ?w = "w\<lparr>platform := delay P normal_sample_cadence (platform w)\<rparr>"
  have "sound (platform w)" using assms by (simp add: loop_ok_def s sensor_control_ok_def owner_safe_def)
  then have st: "sound (platform ?w)" "content (platform ?w) = content (platform w)"
    using delay_spec [of "platform w" normal_sample_cadence] by (auto simp: steady_def)
  have "state_ok content ?w x = state_ok content w x" for x by (cases x) (use st(2) in simp_all)
  with st assms show ?thesis
    by (auto simp: rediscovery_pause_def s loop_ok_def sensor_control_ok_def owner_safe_def foreign_device_def
        split: sensor_control_step.split)
qed

text \<open>When the loop stops without a panic, its invariant holds, and no failure means that a shutdown is requested.\<close>

lemma loop_stops:
  fixes s s' :: "('n, 'd, 'p, 'l, 's) production_state" and r :: "('x, 'e supervised_control_iteration_error option) outcome"
  assumes run: "production_loop P S D N s = Some (r, s')" and start: "loop_ok sound content s"
    and sources: "passive_sources sound content S" "typed_sources sound S" "passive_discovery sound content D"
  shows "r \<noteq> Panic \<longrightarrow> loop_ok sound content s'
    \<and> (\<exists>failure. r = Ok failure \<and> (failure = None \<longrightarrow> is_requested (latch (snd (snd s')))))"
proof -
  define good :: "('x, 'e supervised_control_iteration_error option) outcome \<Rightarrow> ('n, 'd, 'p, 'l, 's) production_state \<Rightarrow> bool" where
    "good r s' \<longleftrightarrow> (r \<noteq> Panic \<longrightarrow> loop_ok sound content s'
      \<and> (\<exists>failure. r = Ok failure \<and> (failure = None \<longrightarrow> is_requested (latch (snd (snd s'))))))" for r s'
  define Pr where "Pr x y \<longleftrightarrow> (fst x = (((P, S), D), N) \<longrightarrow> loop_ok sound content (snd x) \<longrightarrow> good (fst y) (snd y))"
    for x :: "_ \<times> ('n, 'd, 'p, 'l, 's) production_state" and y :: "_ \<times> _"
  have "Pr ((((P, S), D), N), s) (r, s')"
  proof (rule production_loop.raw_induct [OF _ run])
    fix rec P' S' D' N' s0 y
    assume IH: "\<And>P' S' D' N' s0 y. rec P' S' D' N' s0 = Some y \<Longrightarrow> Pr ((((P', S'), D'), N'), s0) y"
      and y: "(case run_supervised_control_iteration P' S' D' N' s0 of
        None \<Rightarrow> None
      | Some (r, s') \<Rightarrow> (case r of Ok stepped \<Rightarrow> rec P' S' D' N' (rediscovery_pause P' stepped s')
           | Err error \<Rightarrow> Some (stop_reason error s') | Panic \<Rightarrow> Some (Panic, s'))) = Some y"
    show "Pr ((((P', S'), D'), N'), s0) y"
      unfolding Pr_def
    proof (intro impI, simp only: fst_conv snd_conv prod.inject, elim conjE)
      assume eq: "P' = P" "S' = S" "D' = D" "N' = N" "loop_ok sound content s0"
      obtain r1 s1 where it: "run_supervised_control_iteration P S D N s0 = Some (r1, s1)"
        using y unfolding eq by (auto split: option.splits)
      have ok: "loop_ok sound content s1" if "r1 \<noteq> Panic" by (rule iteration_keeps [OF eq(5) sources it that])
      show "good (fst y) (snd y)"
      proof (cases r1)
        case (Ok stepped)
        then have "rec P S D N (rediscovery_pause P stepped s1) = Some y" using y it by (simp add: eq)
        from IH [OF this] show ?thesis using ok Ok pause_keeps [of s1 stepped] by (simp add: Pr_def)
      next
        case (Err error)
        then have "stop_reason error s1 = (fst y, snd y)" using y it by (simp add: eq)
        from wp_eqD [OF stop_reason_state [of error sound content] this] show ?thesis using ok Err by (auto simp: good_def)
      qed (use y it in \<open>auto simp: eq good_def\<close>)
    qed
  qed
  then show ?thesis using start by (simp add: Pr_def good_def)
qed

end

section \<open>The exit\<close>

text \<open>
  The lock was given back, or was tried to be, in Firmware Auto: the release is the last thing that
  happened, and a failed one is reported.
\<close>

definition production_stopped ::
  "('p, 'l) platform_ops \<Rightarrow> ('p \<Rightarrow> path \<Rightarrow> string option) \<Rightarrow> acer_hwmon_device
     \<Rightarrow> ('e production_control_loop_error, unit) outcome \<Rightarrow> ('p, 'l, 's) world \<Rightarrow> bool" where
  "production_stopped P content dev r w' \<longleftrightarrow>
     (\<exists>w released. in_firmware_auto dev (content (platform w)) \<and> own_lock w \<noteq> None
        \<and> release_ownership P w = (released, w')
        \<and> (released = Ok () \<and> own_lock w' = None
           \<or> (\<exists>source i c. released = Err source \<and> r = Err (ProductionRelease i c source) \<and> own_lock w' \<noteq> None)))"

text \<open>
  What the whole may end in. The only way not to end is to wait, holding the lock, for the recovery of
  Firmware Auto.
\<close>

definition production_post ::
  "('p, 'l) platform_ops \<Rightarrow> ('p \<Rightarrow> path \<Rightarrow> string option) \<Rightarrow> acer_hwmon_device
     \<Rightarrow> (('e production_control_loop_error, unit) outcome \<times> cleanup_result option \<times> ('p, 'l, 's) world) option \<Rightarrow> bool" where
  "production_post P content dev result \<longleftrightarrow>
     (case result of
        None \<Rightarrow> \<exists>w. own_lock w \<noteq> None
          \<and> (owned_recover_firmware_auto P dev w :: (('e production_control_loop_error, unit) outcome \<times> ('p, 'l, 's) world) option) = None
      | Some (r, (_, w')) \<Rightarrow> r \<noteq> Panic \<longrightarrow> production_stopped P content dev r w')"

definition exit_result ::
  "'e supervised_control_iteration_error option \<Rightarrow> graceful_shutdown_failure option \<Rightarrow> (platform_error option, unit) outcome
     \<Rightarrow> ('e production_control_loop_error, unit) outcome" where
  "exit_result iteration cleanup released =
     (case released of
        Err source \<Rightarrow> Err (ProductionRelease iteration cleanup source)
      | Panic \<Rightarrow> Panic
      | Ok _ \<Rightarrow> (case cleanup of
          Some failure \<Rightarrow> Err (ProductionCleanup iteration failure)
        | None \<Rightarrow> (case iteration of Some error \<Rightarrow> Err (ProductionIteration error) | None \<Rightarrow> Ok ())))"

lemma exit_release_result:
  "try_io (catch_io (on_snd (release_ownership P))) (\<lambda>released. return_io (case released of
      Inl source \<Rightarrow> Err (ProductionRelease iteration cleanup source)
    | Inr _ \<Rightarrow> (case cleanup of Some failure \<Rightarrow> Err (ProductionCleanup iteration failure)
        | None \<Rightarrow> (case iteration of Some error \<Rightarrow> Err (ProductionIteration error) | None \<Rightarrow> Ok ())))) (c, w)
   = (exit_result iteration cleanup (fst (release_ownership P w)), (c, snd (release_ownership P w)))"
  by (cases "release_ownership P w"; cases "fst (release_ownership P w)")
    (auto simp: try_io_def catch_io_def on_snd_def return_io_def exit_result_def)

definition exit_tail ::
  "('p, 'l) platform_ops \<Rightarrow> 'e supervised_control_iteration_error option \<Rightarrow> graceful_shutdown_failure option
     \<Rightarrow> (cleanup_result option \<times> ('p, 'l, 's) world, 'e production_control_loop_error, unit) dio" where
  "exit_tail P iteration cleanup cw =
     Some (exit_result iteration cleanup (fst (release_ownership P (snd cw))), (fst cw, snd (release_ownership P (snd cw))))"

lemma production_exit_eq:
  "production_exit P dev iteration cw =
     (case shutdown_cleanup P dev cw of
        (Panic, cw1) \<Rightarrow> Some (Panic, cw1)
      | (Ok _, cw1) \<Rightarrow> exit_tail P iteration None cw1
      | (Err failure, cw1) \<Rightarrow>
          try_dio (if cleanup_was_critical (Some failure) then on_snd_dio (owned_recover_firmware_auto P dev)
                   else total_io (return_io (Ok ()))) (\<lambda>_. exit_tail P iteration (Some failure)) cw1)"
proof -
  have tail: "total_io (try_io (catch_io (on_snd (release_ownership P))) (\<lambda>released. return_io (case released of
      Inl source \<Rightarrow> Err (ProductionRelease iteration cleanup source)
    | Inr _ \<Rightarrow> (case cleanup of Some failure \<Rightarrow> Err (ProductionCleanup iteration failure)
        | None \<Rightarrow> (case iteration of Some error \<Rightarrow> Err (ProductionIteration error) | None \<Rightarrow> Ok ())))))
    = exit_tail P iteration cleanup" for cleanup
    by (rule ext) (auto simp: exit_tail_def total_io_def exit_release_result)
  obtain r cw1 where "shutdown_cleanup P dev cw = (r, cw1)" by (cases "shutdown_cleanup P dev cw")
  then show ?thesis
    unfolding production_exit_def tail Let_def
    by (cases r) (simp_all add: try_dio_def [of "total_io _"] total_io_def catch_io_def return_io_def)
qed

lemma cleanup_first:
  "shutdown_cleanup P dev (None, w) =
     (case restore_or_contain_firmware_auto P dev (w\<lparr>latch := request (latch w)\<rparr>) of
        (Ok out, w1) \<Rightarrow> (cleanup_result_of out, (Some (cleanup_result_of out), w1))
      | (Err e, w1) \<Rightarrow> (Err e, (None, w1))
      | (Panic, w1) \<Rightarrow> (Panic, (None, w1)))"
  by (auto simp: shutdown_cleanup_def try_io_def on_snd_def shutdown_request_def modify_io_def get_fst_def
      Let_def modify_fst_def return_io_def split: prod.split outcome.split)

context startup_platform
begin

lemma released_stopped:
  assumes "in_firmware_auto dev (content (platform w))" "sound (platform w)" "own_lock w \<noteq> None"
  shows "production_stopped P content dev (exit_result iteration cleanup (fst (release_ownership P w))) (snd (release_ownership P w))
    \<and> exit_result iteration cleanup (fst (release_ownership P w)) \<noteq> Panic"
proof -
  obtain r w' where rel: "release_ownership P w = (r, w')" by fastforce
  have r: "r \<noteq> Panic" "r = Ok () \<longrightarrow> own_lock w' = None" "\<forall>u. r = Err u \<longrightarrow> own_lock w' \<noteq> None"
    using wp_eqD [OF release_post [OF assms(2,3)] rel] by auto
  then show ?thesis
    unfolding production_stopped_def rel
    by (intro conjI exI [of _ w] exI [of _ r])
      (use assms(1,3) rel r in \<open>cases r; auto simp: exit_result_def split: option.split\<close>)+
qed

lemma exit_post_holds:
  fixes iteration :: "'e supervised_control_iteration_error option" and w :: "('p, 'l, 's) world"
  assumes "device_ok dev" "sound (platform w)" "own_lock w \<noteq> None"
  shows "production_post P content dev (production_exit P dev iteration (None, w))
    \<and> (unat (sampling_epoch w) + 3 < 2 ^ 64 \<longrightarrow> (\<forall>cw. production_exit P dev iteration (None, w) \<noteq> Some (Panic, cw)))
    \<and> (\<forall>cw. production_exit P dev iteration (None, w) = Some (Ok (), cw) \<longrightarrow> iteration = None)"
proof -
  let ?w = "w\<lparr>latch := request (latch w)\<rparr>"
  have s: "sound (platform ?w)" using assms(2) by simp
  obtain x w1 where x: "(restore_or_contain_firmware_auto P dev :: (_, graceful_shutdown_failure, _) io) ?w = (x, w1)" by fastforce
  note safed = wp_eqD [OF safing_post [OF assms(1) s] x]
    and counted = wp_eqD [OF counts_safing [OF assms(1), unfolded counts_def, rule_format, OF s] x]
    and locked = wp_eqD [OF script_silentD [OF holding.obs_safing] x]
  show ?thesis
  proof (cases x)
    case Panic
    then show ?thesis using safed x
      by (simp add: production_exit_def cleanup_first try_dio_def total_io_def catch_io_def production_post_def)
  next
    case (Err e)
    then show ?thesis using safed by simp
  next
    case (Ok out)
    then have w1: "sound (platform w1)" "own_lock w1 \<noteq> None" "unat (sampling_epoch w1) \<le> unat (sampling_epoch w) + 2"
      "safing_confirmed out \<Longrightarrow> in_firmware_auto dev (content (platform w1))"
      using safed counted locked assms(3) by (auto simp: owner_safe_def counted_def)
    have run: "production_exit P dev iteration (None, w) = (case cleanup_result_of out of
        Panic \<Rightarrow> Some (Panic, (Some Panic, w1))
      | Ok u \<Rightarrow> exit_tail P iteration None (Some (Ok u), w1)
      | Err failure \<Rightarrow>
          try_dio (if cleanup_was_critical (Some failure) then on_snd_dio (owned_recover_firmware_auto P dev)
                   else total_io (return_io (Ok ()))) (\<lambda>_. exit_tail P iteration (Some failure)) (Some (Err failure), w1))"
      unfolding production_exit_eq cleanup_first x Ok by (simp split: outcome.split)
    have tail: "exit_tail P iteration cleanup (c, w2) = Some (r, cw) \<Longrightarrow>
        production_post P content dev (Some (r, cw)) \<and> r \<noteq> Panic \<and> (r = Ok () \<longrightarrow> iteration = None)"
      if "in_firmware_auto dev (content (platform w2))" "sound (platform w2)" "own_lock w2 \<noteq> None" for cleanup c w2 r cw
      using released_stopped [OF that, of iteration cleanup]
      by (auto simp: exit_tail_def production_post_def exit_result_def split: outcome.splits option.splits)
    show ?thesis
    proof (cases "safing_confirmed out")
      case True
      then show ?thesis
        using tail [OF w1(4,1,2)] unfolding run
        by (cases out) (auto simp: cleanup_result_of_def safing_confirmed_def try_dio_def total_io_def return_io_def exit_tail_def)
    next
      case False
      then obtain e rep where out: "out = SafingCritical e rep" by (cases out) (auto simp: safing_confirmed_def)
      let ?failure = "CleanupCritical e rep"
      have crit: "production_exit P dev iteration (None, w) =
          (case owned_recover_firmware_auto P dev w1 of
             None \<Rightarrow> None
           | Some (Ok _, w2) \<Rightarrow> exit_tail P iteration (Some ?failure) (Some (Err ?failure), w2)
           | Some (Err e, w2) \<Rightarrow> Some (Err e, (Some (Err ?failure), w2))
           | Some (Panic, w2) \<Rightarrow> Some (Panic, (Some (Err ?failure), w2)))"
        unfolding run out
        by (auto simp: cleanup_result_of_def try_dio_def on_snd_dio_def split: option.split prod.split outcome.split)
      note recovered = owned_recover_ends [OF assms(1) w1(1,2), where 'e = "'e production_control_loop_error"]
      show ?thesis
      proof (cases "owned_recover_firmware_auto P dev w1 :: (('e production_control_loop_error, unit) outcome \<times> ('p, 'l, 's) world) option")
        case None
        then show ?thesis unfolding crit using w1(2) by (auto simp: production_post_def)
      next
        case (Some rw)
        obtain r2 w2 where rw: "rw = (r2, w2)" by (cases rw)
        have r2: "unat (sampling_epoch w) + 3 < 2 ^ 64 \<longrightarrow> r2 \<noteq> Panic"
          "r2 \<noteq> Panic \<longrightarrow> r2 = Ok () \<and> in_firmware_auto dev (content (platform w2)) \<and> sound (platform w2) \<and> own_lock w2 \<noteq> None"
          using recovered Some w1(3) by (auto simp: ends_def rw)
        show ?thesis
        proof (cases "r2 = Panic")
          case True
          then show ?thesis unfolding crit Some rw using r2(1) by (simp add: production_post_def)
        next
          case False
          then have "production_exit P dev iteration (None, w) = exit_tail P iteration (Some ?failure) (Some (Err ?failure), w2)"
            unfolding crit Some rw using r2(2) by simp
          then show ?thesis using tail [of w2] r2(2) False by (auto simp: exit_tail_def)
        qed
      qed
    qed
  qed
qed

end

section \<open>The whole run\<close>

text \<open>The first \<open>n\<close> iterations, if none of them stops the loop.\<close>

primrec iterations ::
  "('p, 'l) platform_ops \<Rightarrow> ('p, 's) sample_sources \<Rightarrow> ('d, 'p, 's) sensor_source_discovery \<Rightarrow> ('n, 'e) service_notifier
     \<Rightarrow> nat \<Rightarrow> ('n, 'd, 'p, 'l, 's) production_state \<Rightarrow> ('n, 'd, 'p, 'l, 's) production_state option" where
  "iterations P S D N 0 s = Some s"
| "iterations P S D N (Suc n) s =
     (case run_supervised_control_iteration P S D N s of
        Some (Ok stepped, s') \<Rightarrow> iterations P S D N n (rediscovery_pause P stepped s')
      | _ \<Rightarrow> None)"

definition keeps_running ::
  "('p, 'l) platform_ops \<Rightarrow> ('p, 's) sample_sources \<Rightarrow> ('d, 'p, 's) sensor_source_discovery \<Rightarrow> ('n, 'e) service_notifier
     \<Rightarrow> qualified_startup \<Rightarrow> 's \<Rightarrow> 'd \<Rightarrow> 'n \<Rightarrow> ('p, 'l, 's) world \<Rightarrow> bool" where
  "keeps_running P S D N startup sources discovery notifier w \<longleftrightarrow>
     (\<exists>t w1. (sensor_control_from_armed (qs_armed startup) (qs_authority startup) discovery sources
           :: (('p, 'l, 's) world, 'e production_control_loop_error, _) io) w = (Ok t, w1)
        \<and> (\<forall>n. iterations P S D N n (heartbeat_new notifier, t, w1) \<noteq> None))"

text \<open>The loop ended without a failure, on a shutdown that was requested.\<close>

definition stopped_on_request ::
  "('p, 'l) platform_ops \<Rightarrow> ('p, 's) sample_sources \<Rightarrow> ('d, 'p, 's) sensor_source_discovery \<Rightarrow> ('n, 'e) service_notifier
     \<Rightarrow> qualified_startup \<Rightarrow> 's \<Rightarrow> 'd \<Rightarrow> 'n \<Rightarrow> ('p, 'l, 's) world \<Rightarrow> bool" where
  "stopped_on_request P S D N startup sources discovery notifier w \<longleftrightarrow>
     (\<exists>t w1 s'. (sensor_control_from_armed (qs_armed startup) (qs_authority startup) discovery sources
           :: (('p, 'l, 's) world, 'e production_control_loop_error, _) io) w = (Ok t, w1)
        \<and> production_loop P S D N (heartbeat_new notifier, t, w1) = Some (Ok None :: ('e production_control_loop_error, _) outcome, s')
        \<and> is_requested (latch (snd (snd s'))))"

lemma from_armed_effect:
  "wp (sensor_control_from_armed armed authority discovery sources) (\<lambda>r w'. (\<forall>e. r \<noteq> Err e) \<and> (\<exists>k. w' = w\<lparr>next_gate_id := k\<rparr>)
     \<and> (\<forall>t. r = Ok t \<longrightarrow> tsc_authority t = authority \<and> (\<exists>c. tsc_state t = Some (CustomState c sources)
          \<and> hc_device c = afc_device armed \<and> hc_config c = afc_config armed \<and> hc_demand_history c = None
          \<and> tv_calibration (hc_tachometers c) = afc_calibration armed))) w"
proof -
  have "wp (healthy_control_from_armed armed) (\<lambda>r w'. (\<forall>e. r \<noteq> Err e) \<and> (\<exists>k. w' = w\<lparr>next_gate_id := k\<rparr>)
     \<and> (\<forall>c. r = Ok c \<longrightarrow> hc_device c = afc_device armed \<and> hc_config c = afc_config armed \<and> hc_demand_history c = None
          \<and> tv_calibration (hc_tachometers c) = afc_calibration armed)) w"
    unfolding healthy_control_from_armed_def Let_def
    by (rule wp_try [OF gate_new_effect]) (auto simp: wp_return into_control_parts_def tachometer_validator_new_def)
  then show ?thesis
    unfolding sensor_control_from_armed_def by (rule wp_try) (auto simp: wp_return)
qed

context startup_platform
begin

lemma runs_on:
  assumes "production_loop P S D N s = (None :: (('x, 'e supervised_control_iteration_error option) outcome \<times> _) option)"
    "loop_ok sound content s" "passive_sources sound content S" "typed_sources sound S" "passive_discovery sound content D"
  shows "iterations P S D N n s \<noteq> None"
  using assms(1,2)
proof (induction n arbitrary: s)
  case (Suc n)
  obtain hb tw where s: "s = (hb, tw)" by (cases s)
  have ok: "sensor_control_ok sound content tw" using Suc.prems(2) by (simp add: s loop_ok_def)
  then obtain st where st: "tsc_state (fst tw) = Some st" by (auto simp: sensor_control_ok_def)
  obtain rs tw' where "step P S D tw = Some (rs, tw')"
    using twp_returns [OF step_post_holds [OF ok assms(3-5) st]] by auto
  then have "run_supervised_control_iteration P S D N s \<noteq> None"
    by (cases rs) (auto simp: s run_supervised_control_iteration_def try_dio_def map_err_dio_def on_snd_dio_def total_io_def)
  then obtain r s1 where it: "run_supervised_control_iteration P S D N s = Some (r, s1)" by (metis not_None_eq surj_pair)
  obtain stepped where r: "r = Ok stepped"
    using Suc.prems(1) it by (subst (asm) production_loop.simps) (auto split: outcome.splits)
  have "production_loop P S D N (rediscovery_pause P stepped s1) = (None :: (('x, 'e supervised_control_iteration_error option) outcome \<times> _) option)"
    using Suc.prems(1) it r by (subst (asm) production_loop.simps) simp
  from Suc.IH [OF this pause_keeps [OF iteration_keeps [OF Suc.prems(2) assms(3-5) it]]] show ?case
    by (simp add: it r)
qed simp

lemma started_control:
  assumes "started content Q R inputs (afc_config (qs_armed s)) s w" "typed_readers R" "config_ok (afc_config (qs_armed s))"
    "sound (platform w)"
  shows "wp (sensor_control_from_armed (qs_armed s) (qs_authority s) discovery sources)
    (\<lambda>r w1. (\<forall>e. r \<noteq> Err e) \<and> (\<forall>t. r = Ok t \<longrightarrow> loop_ok sound content (hb, t, w1))) w"
proof -
  have a: "authority_ok (qs_authority s)"
    using assms(1,2) admitted_authority_ok by (auto simp: started_def)
  then have "calibration_ok (qtc_cpu (afc_calibration (qs_armed s)))" "calibration_ok (qtc_gpu (afc_calibration (qs_armed s)))"
    using assms(1) by (simp_all add: started_def authority_ok_def tachometer_calibrations_def)
  moreover have "owner_safe sound content (w\<lparr>next_gate_id := k\<rparr>)" for k
    using assms(1,4) by (simp add: started_def armed_is_current_for_def custom_epoch_is_current_def owner_safe_def)
  ultimately show ?thesis
    using assms(1,3) a
    by (intro wp_mono [OF from_armed_effect])
      (auto simp: loop_ok_def sensor_control_ok_def started_def control_ok_def calibrations_ok_def)
qed

lemma run_post_holds:
  fixes N :: "('n, 'e) service_notifier" and w :: "('p, 'l, 's) world"
  assumes start: "started content Q R inputs (afc_config (qs_armed s)) s w" "typed_readers R" "config_ok (afc_config (qs_armed s))"
      "sound (platform w)"
    and sources: "passive_sources sound content S" "typed_sources sound S" "passive_discovery sound content D"
  shows "(production_post P content (qs_device s) (run_production_control_loop P S D N s sources discovery notifier (None, w))
      \<or> run_production_control_loop P S D N s sources discovery notifier (None, w) = None
        \<and> keeps_running P S D N s sources discovery notifier w)
    \<and> (\<forall>cw. run_production_control_loop P S D N s sources discovery notifier (None, w) = Some (Ok (), cw)
        \<longrightarrow> stopped_on_request P S D N s sources discovery notifier w)"
proof -
  obtain r w1 where armed: "(sensor_control_from_armed (qs_armed s) (qs_authority s) discovery sources
      :: (_, 'e production_control_loop_error, _) io) w = (r, w1)" by fastforce
  note begun = wp_eqD [OF started_control [OF start, where hb = "heartbeat_new notifier"] armed]
  have dev: "device_ok (qs_device s)" using start(1) by (simp add: started_def)
  show ?thesis
  proof (cases r)
    case (Ok t)
    then have ok: "loop_ok sound content (heartbeat_new notifier, t, w1)" using begun by simp
    show ?thesis
    proof (cases "production_loop P S D N (heartbeat_new notifier, t, w1)
        :: (('e production_control_loop_error, 'e supervised_control_iteration_error option) outcome \<times> _) option")
      case None
      then show ?thesis
        using armed Ok runs_on [OF None ok sources]
        by (auto simp: run_production_control_loop_def keeps_running_def try_dio_def total_io_def on_snd_def)
    next
      case (Some rs)
      obtain r1 s1 where rs: "rs = (r1, s1)" by (cases rs)
      obtain hb1 t1 w2 where s1: "s1 = (hb1, t1, w2)" by (metis prod_cases3)
      note stop = loop_stops [OF Some [unfolded rs] ok sources]
      have run: "run_production_control_loop P S D N s sources discovery notifier (None, w)
          = (case r1 of Ok failure \<Rightarrow> production_exit P (qs_device s) failure (None, w2) | Err e \<Rightarrow> Some (Err e, (None, w2))
             | Panic \<Rightarrow> Some (Panic, (None, w2)))"
        using armed Ok Some rs s1
        by (auto simp: run_production_control_loop_def try_dio_def total_io_def on_snd_def split: outcome.split)
      show ?thesis
      proof (cases "r1 = Panic")
        case True
        then show ?thesis unfolding run by (simp add: production_post_def)
      next
        case False
        then obtain failure where f: "r1 = Ok failure" "loop_ok sound content (hb1, t1, w2)" "failure = None \<longrightarrow> is_requested (latch w2)"
          using stop s1 by auto
        then have "failure = None \<longrightarrow> stopped_on_request P S D N s sources discovery notifier w"
          using armed Ok Some rs s1 by (auto simp: stopped_on_request_def)
        then show ?thesis
          using exit_post_holds [OF dev, of w2 failure] f(1,2) unfolding run
          by (auto simp: loop_ok_def sensor_control_ok_def owner_safe_def)
      qed
    qed
  qed (use begun armed in \<open>auto simp: run_production_control_loop_def try_dio_def total_io_def on_snd_def production_post_def\<close>)
qed

end

section \<open>A concrete run\<close>

definition running_world :: "(fake_platform, fake_runtime_lock, unit) world" where
  "running_world = custom_world\<lparr>own_lock := Some \<lparr>frl_backend = 0, frl_path = runtime_lock_path, frl_identity = 1\<rparr>\<rparr>"

definition sample_started :: "admitted_policy_authority \<Rightarrow> qualified_startup" where
  "sample_started a =
     \<lparr>qs_device = sample_device, qs_authority = a,
      qs_armed = \<lparr>afc_ownership_id = 0, afc_custom_epoch = 1, afc_config = exact_config example_config, afc_device = sample_device,
        afc_calibration = tachometer_calibrations a, afc_cpu_custom_confirmed_at = 0, afc_gpu_custom_confirmed_at = 0,
        afc_cpu_rpm = 3000, afc_gpu_rpm = 3000\<rparr>\<rparr>"

lemma sample_admitted_from:
  "\<exists>a. admitted_from sample_store sample_readers [] [''record''] [qualified_observation] 0 a"
proof -
  obtain a w' where run: "admit_policy_authority fake_ops sample_store sample_readers sample_device [] [''record''] [qualified_observation]
      qualified_world = (Ok a, w')" using sample_admitted by blast
  from wp_eqD [OF fake.admit_post [OF sample_device_ok qualified_safe(1) sample_typed] run]
  have "admitted_from sample_store sample_readers [] [''record''] [qualified_observation] (ownership_id w') a" by simp
  moreover have "ownership_id w' = 0"
    using wp_eqD [OF script_silentD [OF holding.obs_admit] run] by (simp add: qualified_world_def world_of_def)
  ultimately show ?thesis by auto
qed

lemma running_at_maximum: "custom_at_maximum sample_device (file_contents (platform running_world))"
proof -
  have "file_contents (platform running_world) (enable_path (dev_cpu sample_device)) = Some arming_custom_control"
    "file_contents (platform running_world) (enable_path (dev_gpu sample_device)) = Some arming_custom_control"
    "file_contents (platform running_world) (pwm_path (dev_cpu sample_device)) = Some arming_maximum_pwm"
    "file_contents (platform running_world) (pwm_path (dev_gpu sample_device)) = Some arming_maximum_pwm"
    "trim arming_custom_control = arming_custom_control" "trim arming_maximum_pwm = arming_maximum_pwm"
    by code_simp+
  then show ?thesis
    by (simp add: custom_at_maximum_def device_fans_def at_maximum_def holds_text_def)
qed

definition silent_notifier :: "(unit, unit) service_notifier" where
  "silent_notifier = \<lparr>notify = (\<lambda>_. return_io (Ok ()))\<rparr>"

lemma sample_start:
  assumes "admitted_from sample_store sample_readers [] [''record''] [qualified_observation] 0 a"
  shows "started file_contents sample_store sample_readers (sample_inputs [''record'']) (exact_config example_config) (sample_started a) running_world"
proof -
  have "apa_protected a = exact_config example_config"
    using assms validate_config_Ok(1) [OF example_config_valid]
    by (auto simp: admitted_from_def policy_qualified_def sample_readers_def sample_manifest_def)
  then have "config_covers (exact_config example_config) (apa_protected a)"
    using config_covers_refl validate_config_Ok(2) [OF example_config_valid] by simp
  then show ?thesis
    using assms running_at_maximum sample_device_ok
    by (simp add: started_def sample_started_def sample_inputs_def running_world_def custom_world_def world_of_def
        armed_is_current_for_def custom_epoch_is_current_def)
qed

section \<open>Property\<close>

text \<open>
  C3. The production loop, from any state that a successful startup hands over, on a platform whose
  delay lets time pass and with sources and a discovery that only observe. Whatever ended the loop, what
  it did last, unless a counter was exhausted, was the release of the lock, with both fans of the
  admitted device in Firmware Auto, and a release that failed is reported. It reports success only when
  a shutdown was requested. It does not return only if it completes any number of iterations, or waits
  for the recovery of Firmware Auto with the lock held.
\<close>

theorem production_stops_safely:
  assumes "startup_platform P sound content now Q"
    and "started content Q R inputs (afc_config (qs_armed s)) s w" "typed_readers R" "config_ok (afc_config (qs_armed s))"
      "sound (platform w)"
    and "passive_sources sound content S" "typed_sources sound S" "passive_discovery sound content D"
  shows "(production_post P content (qs_device s) (run_production_control_loop P S D N s sources discovery notifier (None, w))
      \<or> run_production_control_loop P S D N s sources discovery notifier (None, w) = None
        \<and> keeps_running P S D N s sources discovery notifier w)
    \<and> (\<forall>cw. run_production_control_loop P S D N s sources discovery notifier (None, w) = Some (Ok (), cw)
        \<longrightarrow> stopped_on_request P S D N s sources discovery notifier w)"
  by (rule startup_platform.run_post_holds [OF assms])

theorem production_stops_safely_witness:
  "\<exists>s. (let result = run_production_control_loop fake_ops cool_sources found_discovery silent_notifier s () () () (None, running_world)
      in production_post fake_ops file_contents sample_device result
         \<or> result = None \<and> keeps_running fake_ops cool_sources found_discovery silent_notifier s () () () running_world)"
proof -
  obtain a where a: "admitted_from sample_store sample_readers [] [''record''] [qualified_observation] 0 a"
    using sample_admitted_from by blast
  have s: "qs_device (sample_started a) = sample_device" "afc_config (qs_armed (sample_started a)) = exact_config example_config"
    by (simp_all add: sample_started_def)
  have "quiet (platform running_world)" using custom_quiet by (simp add: running_world_def)
  from production_stops_safely [OF fake.startup_platform_axioms sample_start [OF a, folded s(2)] sample_typed
      validate_config_Ok(2) [OF example_config_valid, folded s(2)] this constant_passive cool_typed found_passive,
      where N = silent_notifier and notifier = "()" and sources = "()" and discovery = "()"]
  show ?thesis unfolding Let_def s(1) by blast
qed

end
