(* ===== verification/Requalification.thy ===== *)
theory Requalification
  imports Authority
begin

text \<open>
  Reuse of a qualification (\<open>fan-control-core/src/requalification.rs\<close>): after the machine or the policy
  changed, the decision between arming again, the fixed abbreviated checks and a full qualification.
  Shown here: which changes of a declaration count as a rebuild of the same code, and exactly when
  the two favourable decisions are taken.
\<close>

section \<open>Evidence and decisions\<close>

datatype physical_hardware_continuity = ConfirmedUnchanged | FanOrBoardReplaced | Unverified

datatype abbreviated_recheck =
    OfflineIdentityAndAbi | FirmwareAutoRestoration | ArmingMaximumAndTachometer
  | CombinedAcWorkload | ServiceStopRestoration | RebootRestoration

definition abbreviated_rechecks :: "abbreviated_recheck list" where
  "abbreviated_rechecks =
     [OfflineIdentityAndAbi, FirmwareAutoRestoration, ArmingMaximumAndTachometer,
      CombinedAcWorkload, ServiceStopRestoration, RebootRestoration]"

definition combined_ac_workload_duration :: duration where
  "combined_ac_workload_duration = from_secs (20 * 60)"

datatype combined_ac_workload_evidence = Interrupted duration | Uninterrupted duration

datatype abbreviated_recheck_outcome = RecheckPending | RecheckPassed | RecheckFailed | RecheckDifferent

text \<open>The outcomes are an array with one entry per check.\<close>

record abbreviated_recheck_results =
  arr_baseline_qualification :: qualification_record_v2
  arr_candidate_compatibility :: compatibility_declaration_v1
  arr_protected_policy_sha256 :: string
  arr_combined_ac_workload :: combined_ac_workload_evidence
  arr_outcomes :: "abbreviated_recheck_outcome list"

definition recheck_results_new ::
  "('t, 'j) policy_readers \<Rightarrow> qualification_record_v2 \<Rightarrow> compatibility_declaration_v1 \<Rightarrow> string
     \<Rightarrow> combined_ac_workload_evidence \<Rightarrow> abbreviated_recheck_outcome list \<Rightarrow> abbreviated_recheck_results" where
  "recheck_results_new R baseline_qualification candidate_compatibility protected_policy_source workload outcomes =
     \<lparr>arr_baseline_qualification = baseline_qualification, arr_candidate_compatibility = candidate_compatibility,
      arr_protected_policy_sha256 = sha256_hex R protected_policy_source, arr_combined_ac_workload = workload,
      arr_outcomes = outcomes\<rparr>"

record qualification_baseline =
  qb_qualification :: qualification_record_v2
  qb_protected_policy_source :: string

record qualification_candidate =
  qc_compatibility :: compatibility_declaration_v1
  qc_protected_policy_source :: string
  qc_editable_configuration :: validated_config
  qc_physical_hardware :: physical_hardware_continuity
  qc_abbreviated_rechecks :: "abbreviated_recheck_results option"

datatype full_requalification_reason =
    PhysicalHardwareChanged
  | PhysicalHardwareUnverified
  | InvalidQualifiedCompatibility
  | InvalidCandidateCompatibility
  | HardwareIdentityChanged
  | FanMappingOrControlPathChanged
  | DriverBehaviorChanged
  | TrustBoundaryChanged
  | ProtectedPolicyWeakened
  | ProtectedPolicyChanged
  | InvalidProtectedPolicyIdentity
  | AbbreviatedCheckFailed abbreviated_recheck
  | AbbreviatedCheckDifferent abbreviated_recheck

datatype requalification_decision =
    ValidateConfigurationAndRearm
  | AbbreviatedRequalificationRequired "abbreviated_recheck list"
  | EligibleAfterAbbreviatedRequalification
  | FullRequalificationRequired full_requalification_reason
  | ConfigurationRejected envelope_validation_error

datatype compatibility_drift = Unchanged | SameCodeRebuild | FullDrift full_requalification_reason

section \<open>The decision\<close>

definition classify_compatibility_drift ::
  "compatibility_declaration_v1 \<Rightarrow> compatibility_declaration_v1 \<Rightarrow> compatibility_drift" where
  "classify_compatibility_drift baseline candidate =
     (let bk = cd_kernel baseline; ck = cd_kernel candidate; bm = cd_module baseline; cm = cd_module candidate
      in if cd_hardware baseline \<noteq> cd_hardware candidate then FullDrift HardwareIdentityChanged
         else if cd_fan_control baseline \<noteq> cd_fan_control candidate then FullDrift FanMappingOrControlPathChanged
         else if package bk \<noteq> package ck \<or> source_commit bk \<noteq> source_commit ck
           \<or> mi_name bm \<noteq> mi_name cm \<or> provenance bm \<noteq> provenance cm
         then FullDrift DriverBehaviorChanged
         else if cd_schema_version baseline \<noteq> cd_schema_version candidate
           \<or> cd_secure_boot baseline \<noteq> cd_secure_boot candidate
           \<or> image_signer_fingerprint bk \<noteq> image_signer_fingerprint ck
           \<or> signer_fingerprint bm \<noteq> signer_fingerprint cm
         then FullDrift TrustBoundaryChanged
         else if validate_declaration candidate \<noteq> (Ok () :: (unit compatibility_declaration_error, unit) outcome)
         then FullDrift InvalidCandidateCompatibility
         else if release bk \<noteq> release ck \<or> image_sha256 bk \<noteq> image_sha256 ck
           \<or> mi_path bm \<noteq> mi_path cm \<or> mi_sha256 bm \<noteq> mi_sha256 cm \<or> vermagic bm \<noteq> vermagic cm
         then SameCodeRebuild
         else Unchanged)"

text \<open>A fallible result that is matched on: a panic stays one.\<close>

definition on_result :: "('e, 'a) outcome \<Rightarrow> ('e \<Rightarrow> ('f, 'b) outcome) \<Rightarrow> ('a \<Rightarrow> ('f, 'b) outcome) \<Rightarrow> ('f, 'b) outcome" where
  "on_result r failed succeeded = (case r of Ok x \<Rightarrow> succeeded x | Err e \<Rightarrow> failed e | Panic \<Rightarrow> Panic)"

text \<open>The loop over the checks; the flag says whether one is pending.\<close>

fun review_rechecks ::
  "combined_ac_workload_evidence \<Rightarrow> (abbreviated_recheck \<times> abbreviated_recheck_outcome) list \<Rightarrow> bool \<Rightarrow> requalification_decision" where
  "review_rechecks workload [] has_pending =
     (if has_pending then AbbreviatedRequalificationRequired abbreviated_rechecks
      else EligibleAfterAbbreviatedRequalification)"
| "review_rechecks workload ((check, result) # rest) has_pending =
     (case result of
        RecheckFailed \<Rightarrow> FullRequalificationRequired (AbbreviatedCheckFailed check)
      | RecheckDifferent \<Rightarrow> FullRequalificationRequired (AbbreviatedCheckDifferent check)
      | _ \<Rightarrow>
          if check = CombinedAcWorkload \<and> result = RecheckPassed
             \<and> \<not> (case workload of Uninterrupted d \<Rightarrow> combined_ac_workload_duration \<le> d | Interrupted _ \<Rightarrow> False)
          then FullRequalificationRequired (AbbreviatedCheckDifferent check)
          else review_rechecks workload rest (has_pending \<or> result = RecheckPending))"

text \<open>From the comparison of the policies on: what is left when the machine and both policies can be read.\<close>

definition decide_rechecks ::
  "qualification_baseline \<Rightarrow> qualification_candidate \<Rightarrow> requalification_policy_snapshot \<Rightarrow> requalification_decision" where
  "decide_rechecks baseline candidate candidate_policy =
     (case qc_abbreviated_rechecks candidate of
        None \<Rightarrow> AbbreviatedRequalificationRequired abbreviated_rechecks
      | Some results \<Rightarrow>
          if arr_baseline_qualification results \<noteq> qb_qualification baseline
             \<or> arr_candidate_compatibility results \<noteq> qc_compatibility candidate
             \<or> arr_protected_policy_sha256 results \<noteq> rps_protected_policy_sha256 candidate_policy
          then AbbreviatedRequalificationRequired abbreviated_rechecks
          else review_rechecks (arr_combined_ac_workload results) (zip abbreviated_rechecks (arr_outcomes results)) False)"

definition decide_policies ::
  "qualification_baseline \<Rightarrow> qualification_candidate \<Rightarrow> compatibility_drift \<Rightarrow> requalification_policy_snapshot
     \<Rightarrow> requalification_policy_snapshot \<Rightarrow> ('e, requalification_decision) outcome" where
  "decide_policies baseline candidate drift baseline_policy candidate_policy =
     (let qualification = qb_qualification baseline; full = (\<lambda>reason. Ok (FullRequalificationRequired reason))
      in if rps_protected_policy_sha256 baseline_policy \<noteq> qr_protected_policy_sha256 qualification
           \<or> rps_qualification_id baseline_policy \<noteq> qr_qualification_id qualification
           \<or> rps_policy_version baseline_policy \<noteq> qr_policy_version qualification
           \<or> rps_compatibility baseline_policy \<noteq> qr_compatibility qualification
         then full InvalidProtectedPolicyIdentity
         else if rps_protected baseline_policy \<noteq> rps_protected candidate_policy
         then on_result (validate_against_protected_envelope (rps_protected candidate_policy) (rps_protected baseline_policy))
           (\<lambda>_. full ProtectedPolicyWeakened) (\<lambda>_. full ProtectedPolicyChanged)
         else if rps_protected_policy_sha256 baseline_policy \<noteq> rps_protected_policy_sha256 candidate_policy
         then full ProtectedPolicyChanged
         else on_result (validate_against_protected_envelope (qc_editable_configuration candidate) (rps_protected baseline_policy))
           (\<lambda>e. Ok (ConfigurationRejected e))
           (\<lambda>_. Ok (if drift = Unchanged then ValidateConfigurationAndRearm
                   else decide_rechecks baseline candidate candidate_policy)))"

definition decide_requalification ::
  "('t, 'j) policy_readers \<Rightarrow> qualification_baseline \<Rightarrow> qualification_candidate \<Rightarrow> ('e, requalification_decision) outcome" where
  "decide_requalification R baseline candidate =
     (let full = (\<lambda>reason. Ok (FullRequalificationRequired reason))
      in case qc_physical_hardware candidate of
           FanOrBoardReplaced \<Rightarrow> full PhysicalHardwareChanged
         | Unverified \<Rightarrow> full PhysicalHardwareUnverified
         | ConfirmedUnchanged \<Rightarrow>
             on_result (validate_record_identity (qb_qualification baseline) :: (('t, 'j) policy_authority_error, unit) outcome)
               (\<lambda>_. full InvalidQualifiedCompatibility)
               (\<lambda>_.
                 let drift = classify_compatibility_drift (qr_compatibility (qb_qualification baseline)) (qc_compatibility candidate)
                 in case drift of
                      FullDrift reason \<Rightarrow> full reason
                    | _ \<Rightarrow>
                        on_result (requalification_policy_snapshot_of R (qb_protected_policy_source baseline))
                          (\<lambda>_. full InvalidProtectedPolicyIdentity)
                          (\<lambda>baseline_policy.
                            on_result (requalification_policy_snapshot_of R (qc_protected_policy_source candidate))
                              (\<lambda>_. full InvalidProtectedPolicyIdentity)
                              (\<lambda>candidate_policy. decide_policies baseline candidate drift baseline_policy candidate_policy))))"

section \<open>What counts as the same code\<close>

text \<open>
  The fields of a declaration that a rebuild may not touch. The remaining ones are the release, the
  digests, the module's path and its version magic.
\<close>

definition same_code :: "compatibility_declaration_v1 \<Rightarrow> compatibility_declaration_v1 \<Rightarrow> bool" where
  "same_code b c \<longleftrightarrow>
     c = b\<lparr>cd_kernel := (cd_kernel b)\<lparr>release := release (cd_kernel c), image_sha256 := image_sha256 (cd_kernel c)\<rparr>,
           cd_module := (cd_module b)\<lparr>mi_path := mi_path (cd_module c), mi_sha256 := mi_sha256 (cd_module c),
             vermagic := vermagic (cd_module c)\<rparr>\<rparr>"

lemma same_code_fields:
  "same_code b c \<longleftrightarrow> cd_schema_version c = cd_schema_version b \<and> cd_hardware c = cd_hardware b
     \<and> cd_secure_boot c = cd_secure_boot b \<and> cd_fan_control c = cd_fan_control b
     \<and> package (cd_kernel c) = package (cd_kernel b) \<and> source_commit (cd_kernel c) = source_commit (cd_kernel b)
     \<and> image_signer_fingerprint (cd_kernel c) = image_signer_fingerprint (cd_kernel b)
     \<and> mi_name (cd_module c) = mi_name (cd_module b) \<and> signer_fingerprint (cd_module c) = signer_fingerprint (cd_module b)
     \<and> provenance (cd_module c) = provenance (cd_module b)"
proof -
  obtain bs bh bk bm bb bf where b: "b = \<lparr>cd_schema_version = bs, cd_hardware = bh, cd_kernel = bk, cd_module = bm,
      cd_secure_boot = bb, cd_fan_control = bf\<rparr>" by (cases b)
  obtain cs ch ck cm cb cf where c: "c = \<lparr>cd_schema_version = cs, cd_hardware = ch, cd_kernel = ck, cd_module = cm,
      cd_secure_boot = cb, cd_fan_control = cf\<rparr>" by (cases c)
  show ?thesis
    unfolding same_code_def b c by (cases bk; cases ck; cases bm; cases cm) auto
qed

lemma rebuilt_fields:
  "same_code b c \<Longrightarrow> c = b \<longleftrightarrow> release (cd_kernel b) = release (cd_kernel c) \<and> image_sha256 (cd_kernel b) = image_sha256 (cd_kernel c)
     \<and> mi_path (cd_module b) = mi_path (cd_module c) \<and> mi_sha256 (cd_module b) = mi_sha256 (cd_module c)
     \<and> vermagic (cd_module b) = vermagic (cd_module c)"
  unfolding same_code_fields
  by (intro iffI compatibility_declaration_v1.equality kernel_identity.equality module_identity.equality) simp_all

lemma same_code_refl: "same_code b b"
  by (simp add: same_code_fields)

lemma drift_cases:
  "classify_compatibility_drift b c = Unchanged \<longleftrightarrow> c = b \<and> declaration_valid c"
  "classify_compatibility_drift b c = SameCodeRebuild \<longleftrightarrow> c \<noteq> b \<and> same_code b c \<and> declaration_valid c"
proof -
  have "classify_compatibility_drift b c \<noteq> Unchanged \<and> classify_compatibility_drift b c \<noteq> SameCodeRebuild" if "\<not> same_code b c"
    using that by (auto simp: classify_compatibility_drift_def same_code_fields Let_def)
  moreover have "classify_compatibility_drift b c =
      (if \<not> declaration_valid c then FullDrift InvalidCandidateCompatibility else if c = b then Unchanged else SameCodeRebuild)"
    if "same_code b c"
    unfolding rebuilt_fields [OF that] using that by (simp add: classify_compatibility_drift_def same_code_fields Let_def)
  ultimately show "classify_compatibility_drift b c = Unchanged \<longleftrightarrow> c = b \<and> declaration_valid c"
    "classify_compatibility_drift b c = SameCodeRebuild \<longleftrightarrow> c \<noteq> b \<and> same_code b c \<and> declaration_valid c"
    using same_code_refl by (cases "same_code b c"; auto)+
qed

lemma on_result_Ok:
  "on_result r f g = Ok y \<longleftrightarrow> (\<exists>x. r = Ok x \<and> g x = Ok y) \<or> (\<exists>e. r = Err e \<and> f e = Ok y)"
  "on_result r f g = Panic \<longleftrightarrow> r = Panic \<or> (\<exists>x. r = Ok x \<and> g x = Panic) \<or> (\<exists>e. r = Err e \<and> f e = Panic)"
  by (cases r; simp add: on_result_def)+

lemma on_record_identity:
  "on_result (validate_record_identity q :: (('t, 'j) policy_authority_error, unit) outcome) (\<lambda>_. a) g
     = (if record_ok q then g () else a)"
proof (cases "validate_record_identity q :: (('t, 'j) policy_authority_error, unit) outcome")
  case (Ok u)
  then have "record_ok q" by simp
  then show ?thesis unfolding on_result_def Ok by simp
next
  case (Err e)
  then have "\<not> record_ok q" by (metis outcome.distinct(1) validate_record_identity_cases(1))
  then show ?thesis unfolding on_result_def Err by simp
qed simp

lemma review_eligible:
  "review_rechecks workload checks pending = EligibleAfterAbbreviatedRequalification \<longleftrightarrow>
     \<not> pending \<and> (\<forall>(check, result) \<in> set checks. result = RecheckPassed)
     \<and> (CombinedAcWorkload \<in> fst ` set checks \<longrightarrow> (\<exists>d. workload = Uninterrupted d \<and> combined_ac_workload_duration \<le> d))"
proof (induction workload checks pending rule: review_rechecks.induct)
  case (2 workload check result rest pending)
  then show ?case
    by (cases result; cases workload) auto
qed auto

lemma review_not_rearm: "review_rechecks workload checks pending \<noteq> ValidateConfigurationAndRearm"
  by (induction workload checks pending rule: review_rechecks.induct) (auto split: abbreviated_recheck_outcome.splits)

lemma snapshot_cases:
  "requalification_policy_snapshot_of R source = Ok x \<longleftrightarrow>
     (\<exists>m protected. toml_from_str R source = Inr m \<and> manifest_ok m \<and> validate_config_v1 (pm_protected m) = Ok protected
        \<and> x = \<lparr>rps_qualification_id = pm_qualification_id m, rps_policy_version = pm_policy_version m,
               rps_compatibility = pm_compatibility m, rps_protected_policy_sha256 = sha256_hex R source,
               rps_protected = protected\<rparr>)"
  "typed_readers R \<Longrightarrow> requalification_policy_snapshot_of R source \<noteq> Panic"
  unfolding requalification_policy_snapshot_of_def bind_ok_eq_Ok bind_ok_eq_Panic map_err_eq_Ok map_err_eq_Panic
  by (auto simp: parse_protected_policy_cases typed_readers_def dest: validate_config_no_panic)

lemma snapshot_config_ok:
  assumes "typed_readers R" "requalification_policy_snapshot_of R source = Ok x"
  shows "config_ok (rps_protected x)"
  using assms validated_config_ok by (fastforce simp: snapshot_cases(1) typed_readers_def)

section \<open>When a qualification is reused\<close>

text \<open>
  The qualification still stands: the same physical hardware, a sound record that names the baseline
  policy, the same policy text by digest and by content, and a configuration that covers it.
\<close>

definition qualification_stands :: "('t, 'j) policy_readers \<Rightarrow> qualification_baseline \<Rightarrow> qualification_candidate \<Rightarrow> bool" where
  "qualification_stands R b c \<longleftrightarrow>
     qc_physical_hardware c = ConfirmedUnchanged \<and> record_ok (qb_qualification b)
     \<and> (\<exists>m m' protected.
          toml_from_str R (qb_protected_policy_source b) = Inr m \<and> manifest_ok m
        \<and> toml_from_str R (qc_protected_policy_source c) = Inr m' \<and> manifest_ok m'
        \<and> validate_config_v1 (pm_protected m) = Ok protected \<and> validate_config_v1 (pm_protected m') = Ok protected
        \<and> sha256_hex R (qb_protected_policy_source b) = qr_protected_policy_sha256 (qb_qualification b)
        \<and> sha256_hex R (qc_protected_policy_source c) = qr_protected_policy_sha256 (qb_qualification b)
        \<and> pm_qualification_id m = qr_qualification_id (qb_qualification b)
        \<and> pm_policy_version m = qr_policy_version (qb_qualification b)
        \<and> pm_compatibility m = qr_compatibility (qb_qualification b)
        \<and> config_covers (qc_editable_configuration c) protected)"

text \<open>The abbreviated checks were run on this very candidate and all passed, the workload without a break.\<close>

definition rechecks_passed :: "('t, 'j) policy_readers \<Rightarrow> qualification_baseline \<Rightarrow> qualification_candidate \<Rightarrow> bool" where
  "rechecks_passed R b c \<longleftrightarrow> (\<exists>d. combined_ac_workload_duration \<le> d
     \<and> qc_abbreviated_rechecks c = Some (recheck_results_new R (qb_qualification b) (qc_compatibility c)
         (qc_protected_policy_source c) (Uninterrupted d) (replicate 6 RecheckPassed)))"

lemma decide_rechecks_eligible:
  assumes "rps_protected_policy_sha256 x = sha256_hex R (qc_protected_policy_source c)"
    "\<forall>results. qc_abbreviated_rechecks c = Some results \<longrightarrow> length (arr_outcomes results) = 6"
  shows "decide_rechecks b c x = EligibleAfterAbbreviatedRequalification \<longleftrightarrow> rechecks_passed R b c"
proof (cases "qc_abbreviated_rechecks c")
  case None
  then show ?thesis by (simp add: decide_rechecks_def rechecks_passed_def)
next
  case (Some results)
  have len: "length (arr_outcomes results) = 6" using Some assms(2) by simp
  then have f: "fst ` set (zip abbreviated_rechecks (arr_outcomes results)) = set abbreviated_rechecks"
    by (simp add: abbreviated_rechecks_def flip: set_map)
  have s: "snd ` set (zip abbreviated_rechecks (arr_outcomes results)) = set (arr_outcomes results)"
    using len by (simp add: abbreviated_rechecks_def flip: set_map)
  have "(\<forall>(check, result) \<in> set (zip abbreviated_rechecks (arr_outcomes results)). result = RecheckPassed)
      \<longleftrightarrow> (\<forall>r \<in> set (arr_outcomes results). r = RecheckPassed)"
    unfolding s [symmetric] by fastforce
  also have "\<dots> \<longleftrightarrow> arr_outcomes results = replicate 6 RecheckPassed"
    using len by (metis in_set_replicate replicate_length_same)
  finally have passed: "review_rechecks (arr_combined_ac_workload results) (zip abbreviated_rechecks (arr_outcomes results)) False
      = EligibleAfterAbbreviatedRequalification
    \<longleftrightarrow> arr_outcomes results = replicate 6 RecheckPassed
        \<and> (\<exists>d. arr_combined_ac_workload results = Uninterrupted d \<and> combined_ac_workload_duration \<le> d)"
    unfolding review_eligible f by (simp add: abbreviated_rechecks_def)
  show ?thesis
    using Some passed assms(1)
    by (cases results) (auto simp: decide_rechecks_def rechecks_passed_def recheck_results_new_def)
qed

lemma decide_rechecks_not_rearm: "decide_rechecks b c x \<noteq> ValidateConfigurationAndRearm"
  by (simp add: decide_rechecks_def review_not_rearm split: option.splits)

definition snapshots_agree ::
  "qualification_baseline \<Rightarrow> qualification_candidate \<Rightarrow> requalification_policy_snapshot \<Rightarrow> requalification_policy_snapshot \<Rightarrow> bool" where
  "snapshots_agree b c x y \<longleftrightarrow> rps_protected_policy_sha256 x = qr_protected_policy_sha256 (qb_qualification b)
      \<and> rps_qualification_id x = qr_qualification_id (qb_qualification b)
      \<and> rps_policy_version x = qr_policy_version (qb_qualification b) \<and> rps_compatibility x = qr_compatibility (qb_qualification b)
      \<and> rps_protected x = rps_protected y \<and> rps_protected_policy_sha256 x = rps_protected_policy_sha256 y
      \<and> config_covers (qc_editable_configuration c) (rps_protected x)"

lemma snapshots_agree_iff:
  assumes "requalification_policy_snapshot_of R (qb_protected_policy_source b) = Ok x"
    "requalification_policy_snapshot_of R (qc_protected_policy_source c) = Ok y"
    "qc_physical_hardware c = ConfirmedUnchanged" "record_ok (qb_qualification b)"
  shows "snapshots_agree b c x y \<longleftrightarrow> qualification_stands R b c"
  using assms unfolding qualification_stands_def snapshots_agree_def snapshot_cases(1) by auto

lemma decide_policies_cases:
  assumes "config_ok (rps_protected x)" "config_ok (rps_protected y)" "config_ok (qc_editable_configuration c)"
  shows "\<exists>decision. decide_policies b c drift x y = Ok decision
    \<and> (decision = ValidateConfigurationAndRearm \<longleftrightarrow> snapshots_agree b c x y \<and> drift = Unchanged)
    \<and> (decision = EligibleAfterAbbreviatedRequalification
        \<longleftrightarrow> snapshots_agree b c x y \<and> drift \<noteq> Unchanged \<and> decide_rechecks b c y = EligibleAfterAbbreviatedRequalification)"
proof -
  note weaker = envelope_check_cases [OF assms(2,1)] and edited = envelope_check_cases [OF assms(3,1)]
  show ?thesis
    unfolding decide_policies_def snapshots_agree_def Let_def using weaker edited
    by (auto simp: on_result_def decide_rechecks_not_rearm split: outcome.splits)
qed

section \<open>A rebuilt kernel\<close>

definition rebuilt_declaration :: compatibility_declaration_v1 where
  "rebuilt_declaration =
     qualified_declaration\<lparr>cd_kernel := (cd_kernel qualified_declaration)\<lparr>image_sha256 := replicate 64 CHR ''b''\<rparr>\<rparr>"

definition sample_baseline :: qualification_baseline where
  "sample_baseline = \<lparr>qb_qualification = sample_record, qb_protected_policy_source = ''policy''\<rparr>"

definition rebuilt_candidate :: qualification_candidate where
  "rebuilt_candidate =
     \<lparr>qc_compatibility = rebuilt_declaration, qc_protected_policy_source = ''policy'',
      qc_editable_configuration = exact_config example_config, qc_physical_hardware = ConfirmedUnchanged,
      qc_abbreviated_rechecks = Some (recheck_results_new sample_readers sample_record rebuilt_declaration ''policy''
        (Uninterrupted combined_ac_workload_duration) (replicate 6 RecheckPassed))\<rparr>"

lemma rebuilt_declaration_facts: "declaration_valid rebuilt_declaration" "rebuilt_declaration \<noteq> qualified_declaration"
  by code_simp+

lemma rebuilt_stands: "qualification_stands sample_readers sample_baseline rebuilt_candidate"
  using sample_policy_qualified [of "''policy''" "''record''"] validate_config_Ok [OF example_config_valid] config_covers_refl
  by (auto simp: qualification_stands_def rebuilt_candidate_def sample_baseline_def policy_qualified_def sample_readers_def sample_manifest_def)

section \<open>Property\<close>

text \<open>
  C16. The decision is always made, and the two favourable ones are exact. The daemon may arm again at
  once just when the qualification still stands and the declaration is the qualified one, and after the
  abbreviated checks just when it stands, the declaration differs only in the fields a rebuild of the
  same code changes, and all six checks of this very candidate passed with an uninterrupted workload of
  at least twenty minutes. Everything else is refused, rejected or sent to more checks.
\<close>

theorem requalification_exact:
  assumes "typed_readers R" "config_ok (qc_editable_configuration c)"
    "\<forall>results. qc_abbreviated_rechecks c = Some results \<longrightarrow> length (arr_outcomes results) = 6"
  shows "\<exists>decision. decide_requalification R b c = Ok decision
    \<and> (decision = ValidateConfigurationAndRearm
        \<longleftrightarrow> qualification_stands R b c \<and> qc_compatibility c = qr_compatibility (qb_qualification b))
    \<and> (decision = EligibleAfterAbbreviatedRequalification
        \<longleftrightarrow> qualification_stands R b c \<and> qc_compatibility c \<noteq> qr_compatibility (qb_qualification b)
          \<and> same_code (qr_compatibility (qb_qualification b)) (qc_compatibility c) \<and> declaration_valid (qc_compatibility c)
          \<and> rechecks_passed R b c)"
proof -
  define drift where "drift = classify_compatibility_drift (qr_compatibility (qb_qualification b)) (qc_compatibility c)"
  note drift = drift_cases [of "qr_compatibility (qb_qualification b)" "qc_compatibility c", folded drift_def]
  have valid: "record_ok (qb_qualification b) \<Longrightarrow> declaration_valid (qr_compatibility (qb_qualification b))"
    by (simp add: record_ok_def)
  show ?thesis
  proof (cases "qc_physical_hardware c = ConfirmedUnchanged \<and> record_ok (qb_qualification b) \<and> (\<forall>r. drift \<noteq> FullDrift r)
      \<and> (\<exists>x. requalification_policy_snapshot_of R (qb_protected_policy_source b) = Ok x)
      \<and> (\<exists>y. requalification_policy_snapshot_of R (qc_protected_policy_source c) = Ok y)")
    case True
    then obtain x y where xy: "requalification_policy_snapshot_of R (qb_protected_policy_source b) = Ok x"
      "requalification_policy_snapshot_of R (qc_protected_policy_source c) = Ok y" by blast
    have dec: "decide_requalification R b c = decide_policies b c drift x y"
      using True xy unfolding decide_requalification_def Let_def on_record_identity drift_def [symmetric]
      by (cases drift) (auto simp: on_result_def)
    have sha: "rps_protected_policy_sha256 y = sha256_hex R (qc_protected_policy_source c)"
      using xy(2) by (auto simp: snapshot_cases(1))
    have "drift \<noteq> Unchanged \<longleftrightarrow> drift = SameCodeRebuild" using True by (cases drift) auto
    then show ?thesis
      using decide_policies_cases [OF snapshot_config_ok [OF assms(1) xy(1)] snapshot_config_ok [OF assms(1) xy(2)] assms(2), of b drift]
        decide_rechecks_eligible [OF sha assms(3), of b] valid True drift
      unfolding dec snapshots_agree_iff [OF xy conjunct1 [OF True] conjunct1 [OF conjunct2 [OF True]]] by auto
  next
    case False
    then have "\<not> qualification_stands R b c \<or> (\<exists>r. drift = FullDrift r)"
      by (auto simp: qualification_stands_def snapshot_cases(1))
    moreover have "\<exists>r. decide_requalification R b c = Ok (FullRequalificationRequired r)"
      using False snapshot_cases(2) [OF assms(1)]
      unfolding decide_requalification_def Let_def on_record_identity drift_def [symmetric]
      by (cases drift; cases "requalification_policy_snapshot_of R (qb_protected_policy_source b)";
          cases "requalification_policy_snapshot_of R (qc_protected_policy_source c)")
        (auto simp: on_result_def split: physical_hardware_continuity.splits)
    ultimately show ?thesis
      using drift valid by (auto simp: qualification_stands_def)
  qed
qed

theorem requalification_exact_witness:
  "decide_requalification sample_readers sample_baseline rebuilt_candidate = Ok EligibleAfterAbbreviatedRequalification"
proof -
  have "config_ok (qc_editable_configuration rebuilt_candidate)"
    "\<forall>results. qc_abbreviated_rechecks rebuilt_candidate = Some results \<longrightarrow> length (arr_outcomes results) = 6"
    using validate_config_Ok(2) [OF example_config_valid] by (simp_all add: rebuilt_candidate_def recheck_results_new_def)
  moreover have "rechecks_passed sample_readers sample_baseline rebuilt_candidate"
    by (auto simp: rechecks_passed_def rebuilt_candidate_def sample_baseline_def)
  moreover have "same_code qualified_declaration rebuilt_declaration"
    by (simp add: same_code_fields rebuilt_declaration_def)
  ultimately show ?thesis
    using requalification_exact [OF sample_typed, of rebuilt_candidate sample_baseline] rebuilt_stands rebuilt_declaration_facts
    by (auto simp: rebuilt_candidate_def sample_baseline_def sample_record_def)
qed

end
