(* ===== verification/Calibration.thy ===== *)
theory Calibration
  imports Tachometer
begin

text \<open>
  The calibration of one fan (\<open>fan-control-core/src/calibration.rs\<close>): a descending sweep finds the
  lowest stable duty, five transitions and a hold of fifteen minutes confirm the floor above it, and
  the anchors of the tachometer are measured from there up. The session is explicit state; its
  checkpoint is the list of the observations it accepted.
\<close>

section \<open>Saturating and ceiling arithmetic\<close>

definition word_saturating_add :: "'a::len word \<Rightarrow> 'a word \<Rightarrow> 'a word" where
  "word_saturating_add a b = (case word_checked_add a b of Some c \<Rightarrow> c | None \<Rightarrow> - 1)"

definition word_saturating_sub :: "'a::len word \<Rightarrow> 'a word \<Rightarrow> 'a word" where
  "word_saturating_sub a b = (if b \<le> a then a - b else 0)"

definition word_checked_sub :: "'a::len word \<Rightarrow> 'a word \<Rightarrow> 'a word option" where
  "word_checked_sub a b = (if b \<le> a then Some (a - b) else None)"

definition word_div_ceil :: "'a::len word \<Rightarrow> 'a word \<Rightarrow> 'a word" where
  "word_div_ceil a b = (if a mod b = 0 then a div b else a div b + 1)"

text \<open>Indexing panics out of range.\<close>

definition index_ok :: "'a list \<Rightarrow> nat \<Rightarrow> ('e, 'a) outcome" where
  "index_ok xs i = (if i < length xs then Ok (xs ! i) else Panic)"

section \<open>Constants and steps\<close>

definition cal_custom_control :: u8 where "cal_custom_control = 1"
definition cal_maximum_duty_basis_points :: u16 where "cal_maximum_duty_basis_points = 10000"
definition coarse_sweep_basis_points :: "u16 list" where
  "coarse_sweep_basis_points = [10000, 6000, 5000, 4000, 3000]"
definition conservative_margin_basis_points :: u16 where "conservative_margin_basis_points = 1000"
definition response_margin_millis :: u64 where "response_margin_millis = 2000"
definition maximum_hold_sample_gap_millis :: u64 where "maximum_hold_sample_gap_millis = 2000"
definition maximum_protocol_verification_gap_millis :: u64 where
  "maximum_protocol_verification_gap_millis = 2000"
definition minimum_settled_response_millis :: u64 where "minimum_settled_response_millis = 1000"
definition minimum_settled_sample_span_millis :: u64 where "minimum_settled_sample_span_millis = 1000"
definition minimum_settled_sample_gap_millis :: u64 where "minimum_settled_sample_gap_millis = 250"
definition settled_sample_tolerance_percent :: u32 where "settled_sample_tolerance_percent = 10"
definition minimum_settled_samples :: nat where "minimum_settled_samples = 3"
definition required_maximum_to_floor_transitions :: u8 where "required_maximum_to_floor_transitions = 5"
definition required_floor_hold_millis :: u64 where "required_floor_hold_millis = 15 * 60 * 1000"
definition maximum_calibration_response_millis :: u64 where "maximum_calibration_response_millis = 10000"

definition calibration_response_deadline :: "u64 \<Rightarrow> u64" where
  "calibration_response_deadline slowest_response_millis =
     min (word_saturating_add slowest_response_millis response_margin_millis)
       maximum_calibration_response_millis"

definition is_allowed_calibration_floor :: "u16 \<Rightarrow> bool" where
  "is_allowed_calibration_floor floor_bp \<longleftrightarrow> floor_bp = 4000 \<or> floor_bp = 5000 \<or> floor_bp = 6000 \<or> floor_bp = 7000"

text \<open>
  The addition of the midpoint is unchecked in the source; the debug build panics where it would wrap.
  \<open>dedup\<close> drops an entry equal to its predecessor.
\<close>

definition canonical_calibration_anchor_duties :: "u16 \<Rightarrow> u16 list" where
  "canonical_calibration_anchor_duties floor_bp =
     (let midpoint = floor_bp + word_saturating_sub 7500 floor_bp div 2
      in remdups_adj [floor_bp, midpoint, 7500, cal_maximum_duty_basis_points])"

datatype calibration_step =
    RevalidateBothAtMaximum u8
  | SweepLevel u16 u8
  | ToMaximum u8 u8
  | ToFloor u8 u16 u8
  | HoldLevel u16 u8 u64
  | AnchorLevel u16 u8
  | StepComplete
  | StepFailed

fun step_duty_basis_points :: "calibration_step \<Rightarrow> u16 option" where
  "step_duty_basis_points (SweepLevel duty _) = Some duty"
| "step_duty_basis_points (ToFloor _ duty _) = Some duty"
| "step_duty_basis_points (HoldLevel duty _ _) = Some duty"
| "step_duty_basis_points (AnchorLevel duty _) = Some duty"
| "step_duty_basis_points (RevalidateBothAtMaximum _) = Some cal_maximum_duty_basis_points"
| "step_duty_basis_points (ToMaximum _ _) = Some cal_maximum_duty_basis_points"
| "step_duty_basis_points StepComplete = None"
| "step_duty_basis_points StepFailed = None"

fun step_pwm_value :: "calibration_step \<Rightarrow> u8 option" where
  "step_pwm_value (RevalidateBothAtMaximum pwm) = Some pwm"
| "step_pwm_value (SweepLevel _ pwm) = Some pwm"
| "step_pwm_value (ToMaximum _ pwm) = Some pwm"
| "step_pwm_value (ToFloor _ _ pwm) = Some pwm"
| "step_pwm_value (HoldLevel _ pwm _) = Some pwm"
| "step_pwm_value (AnchorLevel _ pwm) = Some pwm"
| "step_pwm_value StepComplete = None"
| "step_pwm_value StepFailed = None"

section \<open>Observations and checkpoints\<close>

record calibration_readback_sample =
  cs_monotonic_millis :: u64
  selected_enable_readback :: u8
  selected_pwm_readback :: u8
  other_enable_readback :: u8
  other_pwm_readback :: u8
  selected_rpm :: "u32 option"

record calibration_level_observation =
  commanded_at_monotonic_millis :: u64
  lo_samples :: "calibration_readback_sample list"
  lo_stall_observed :: bool
  lo_unexplained_rpm_collapse_observed :: bool

record fan_hold_observation =
  ho_samples :: "calibration_readback_sample list"
  ho_stall_observed :: bool
  ho_unexplained_rpm_collapse_observed :: bool

datatype calibration_observation_error =
    UnexpectedStep
  | SelectedFanReadbackMismatch
  | OtherFanNotAtMaximum
  | InvalidRpm
  | InconclusiveObservation
  | ConservativeMarginUnavailable
  | UnstableRequiredLevel
  | IncompleteHold
  | DecreasingAnchorRpm
  | StageAlreadyFailed
  | InvalidCheckpoint

datatype calibration_phase =
    PhaseSweep nat
  | PhaseToMaximum u8
  | PhaseToFloor u8
  | PhaseHoldFloor
  | PhaseCaptureAnchor nat
  | PhaseComplete
  | PhaseFailed

datatype calibration_checkpoint_event =
    LevelEvent calibration_step calibration_level_observation
  | HoldEvent calibration_step fan_hold_observation

text \<open>\<open>evidence.rs\<close>: the fan of a record, and the two records a calibration produces.\<close>

datatype evidence_fan = EvidenceCpu | EvidenceGpu

fun evidence_fan_of :: "fan \<Rightarrow> evidence_fan" where
  "evidence_fan_of FanCpu = EvidenceCpu"
| "evidence_fan_of FanGpu = EvidenceGpu"

record calibration_checkpoint =
  cc_schema_version :: u32
  cc_fan :: evidence_fan
  cc_failed :: bool
  cc_events :: "calibration_checkpoint_event list"

record rpm_anchor_evidence =
  rae_duty_basis_points :: u16
  rae_median_rpm :: u32

record fan_calibration_evidence =
  fce_fan :: evidence_fan
  fce_floor_basis_points :: u16
  fce_slowest_response_millis :: "u64 option"
  fce_protocol_checkpoint :: "calibration_checkpoint option"
  fce_response_deadline_millis :: u64
  fce_anchors :: "rpm_anchor_evidence list"

record calibration_command_expectation =
  ce_monotonic_millis :: u64
  ce_pwm_value :: u8

definition event_timestamps :: "calibration_checkpoint_event \<Rightarrow> u64 list" where
  "event_timestamps event =
     (case event of
        LevelEvent _ observation \<Rightarrow>
          commanded_at_monotonic_millis observation # map cs_monotonic_millis (lo_samples observation)
      | HoldEvent _ observation \<Rightarrow> map cs_monotonic_millis (ho_samples observation))"

definition observed_time_bounds :: "calibration_checkpoint \<Rightarrow> (u64 \<times> u64) option" where
  "observed_time_bounds checkpoint =
     foldl (\<lambda>bounds timestamp.
         (case bounds of
            Some (minimum, maximum) \<Rightarrow> Some (min minimum timestamp, max maximum timestamp)
          | None \<Rightarrow> Some (timestamp, timestamp)))
       None (concat (map event_timestamps (cc_events checkpoint)))"

definition command_expectation :: "calibration_checkpoint_event \<Rightarrow> calibration_command_expectation option" where
  "command_expectation event =
     (case event of
        LevelEvent step observation \<Rightarrow>
          map_option (\<lambda>pwm. \<lparr>ce_monotonic_millis = commanded_at_monotonic_millis observation,
                             ce_pwm_value = pwm\<rparr>) (step_pwm_value step)
      | HoldEvent _ _ \<Rightarrow> None)"

definition command_expectations :: "calibration_checkpoint \<Rightarrow> calibration_command_expectation list" where
  "command_expectations checkpoint = List.map_filter command_expectation (cc_events checkpoint)"

section \<open>Settled levels\<close>

record settled_level =
  sl_median_rpm :: u32
  sl_response_millis :: u64

definition plausible_speed :: "u32 \<Rightarrow> bool" where
  "plausible_speed rpm \<longleftrightarrow> minimum_plausible_rpm \<le> rpm \<and> rpm \<le> maximum_plausible_rpm"

text \<open>\<open>filter_map(selected_rpm)\<close> with \<open>any\<close> out of range: a missing speed is not implausible.\<close>

definition speed_out_of_range :: "calibration_readback_sample \<Rightarrow> bool" where
  "speed_out_of_range sample =
     (case selected_rpm sample of Some rpm \<Rightarrow> \<not> plausible_speed rpm | None \<Rightarrow> False)"

definition sample_duration :: "calibration_readback_sample list \<Rightarrow> u64 option" where
  "sample_duration samples =
     (if samples = [] then None
      else word_checked_sub (cs_monotonic_millis (last samples)) (cs_monotonic_millis (hd samples)))"

definition timestamps_are_continuous :: "calibration_readback_sample list \<Rightarrow> bool" where
  "timestamps_are_continuous samples \<longleftrightarrow>
     samples \<noteq> []
     \<and> list_all (\<lambda>(first, second).
           case word_checked_sub (cs_monotonic_millis second) (cs_monotonic_millis first) of
             None \<Rightarrow> False
           | Some gap \<Rightarrow> 1 \<le> gap \<and> gap \<le> maximum_hold_sample_gap_millis)
         (windows2 samples)"

text \<open>The callers of the median have at least one sample.\<close>

definition median :: "u32 list \<Rightarrow> u32" where
  "median samples = sort samples ! (length samples div 2)"

definition stable_rpm_median_values :: "u32 list \<Rightarrow> u32 option" where
  "stable_rpm_median_values rpm_samples =
     (if length rpm_samples < minimum_settled_samples then None
      else
        (let steady_rpm = median rpm_samples;
             minimum = Min (set rpm_samples);
             maximum = Max (set rpm_samples);
             tolerance = max (steady_rpm * settled_sample_tolerance_percent div 100) 50
         in if tolerance < word_saturating_sub maximum minimum then None else Some steady_rpm))"

definition stable_rpm_median ::
  "calibration_readback_sample list \<Rightarrow> (calibration_observation_error, u32 option) outcome" where
  "stable_rpm_median samples =
     (case those (map selected_rpm samples) of
        None \<Rightarrow> Ok None
      | Some rpm_samples \<Rightarrow>
          if list_ex (\<lambda>rpm. \<not> plausible_speed rpm) rpm_samples then Err InvalidRpm
          else Ok (stable_rpm_median_values rpm_samples))"

text \<open>\<open>position\<close> of the first measured speed and the slice from there on are one \<open>dropWhile\<close>.\<close>

definition settled_samples_unspaced :: "calibration_readback_sample list \<Rightarrow> bool" where
  "settled_samples_unspaced samples \<longleftrightarrow>
     (case sample_duration samples of
        None \<Rightarrow> True
      | Some duration \<Rightarrow> duration < minimum_settled_sample_span_millis)
     \<or> list_ex (\<lambda>(first, second).
           word_saturating_sub (cs_monotonic_millis second) (cs_monotonic_millis first)
             < minimum_settled_sample_gap_millis)
         (windows2 samples)"

definition settled_level_of ::
  "calibration_level_observation \<Rightarrow> (calibration_observation_error, settled_level option) outcome" where
  "settled_level_of observation =
     (let samples = lo_samples observation
      in if list_ex speed_out_of_range samples then Err InvalidRpm
         else if list_all (\<lambda>sample. selected_rpm sample = None) samples then Err InvalidRpm
         else
           bind_ok (ok_or InconclusiveObservation
             (if samples = [] then None
              else word_checked_sub (cs_monotonic_millis (last samples))
                     (commanded_at_monotonic_millis observation))) (\<lambda>response_millis.
           if response_millis < minimum_settled_response_millis
              \<or> maximum_calibration_response_millis < response_millis
           then Err InconclusiveObservation
           else
             (let settled = dropWhile (\<lambda>sample. selected_rpm sample = None) samples
              in bind_ok (ok_or InvalidRpm (if settled = [] then None else Some ())) (\<lambda>_.
                 bind_ok (ok_or InvalidRpm (those (map selected_rpm settled))) (\<lambda>rpm_samples.
                   if length rpm_samples < minimum_settled_samples then Err InconclusiveObservation
                   else if settled_samples_unspaced settled then Err InconclusiveObservation
                   else
                     (case stable_rpm_median_values rpm_samples of
                        None \<Rightarrow> Ok None
                      | Some steady_rpm \<Rightarrow>
                          Ok (Some \<lparr>sl_median_rpm = steady_rpm, sl_response_millis = response_millis\<rparr>)))))))"

definition basis_points_to_pwm :: "u16 \<Rightarrow> u8" where
  "basis_points_to_pwm basis_points =
     (let scaled = (ucast basis_points * ucast (- 1 :: u8) :: u32)
      in ucast (word_div_ceil scaled (ucast cal_maximum_duty_basis_points)))"

section \<open>The session\<close>

record conservative_fan_calibration =
  fc_fan :: fan
  fc_phase :: calibration_phase
  stable_sweep_levels :: "u16 list"
  fc_floor_basis_points :: "u16 option"
  fc_slowest_response_millis :: u64
  fc_anchors :: "rpm_anchor_evidence list"
  fc_evidence :: "fan_calibration_evidence option"
  fc_events :: "calibration_checkpoint_event list"
  last_observed_monotonic_millis :: "u64 option"
  resume_phase :: "calibration_phase option"

type_synonym 'a session_io = "(conservative_fan_calibration, calibration_observation_error, 'a) io"

definition calibration_start :: "fan \<Rightarrow> conservative_fan_calibration" where
  "calibration_start fan =
     \<lparr>fc_fan = fan, fc_phase = PhaseSweep 0, stable_sweep_levels = [], fc_floor_basis_points = None,
      fc_slowest_response_millis = 0, fc_anchors = [], fc_evidence = None, fc_events = [],
      last_observed_monotonic_millis = None, resume_phase = None\<rparr>"

definition checkpoint :: "conservative_fan_calibration \<Rightarrow> calibration_checkpoint" where
  "checkpoint self =
     \<lparr>cc_schema_version = 1, cc_fan = evidence_fan_of (fc_fan self),
      cc_failed = (fc_phase self = PhaseFailed), cc_events = fc_events self\<rparr>"

definition session_floor :: "conservative_fan_calibration \<Rightarrow> ('e, u16) outcome" where
  "session_floor self = expect (fc_floor_basis_points self)"

definition anchor_duties :: "conservative_fan_calibration \<Rightarrow> ('e, u16 list) outcome" where
  "anchor_duties self =
     bind_ok (session_floor self) (\<lambda>floor_bp. Ok (canonical_calibration_anchor_duties floor_bp))"

definition next_step ::
  "conservative_fan_calibration \<Rightarrow> (calibration_observation_error, calibration_step) outcome" where
  "next_step self =
     (if resume_phase self \<noteq> None then Ok (RevalidateBothAtMaximum (- 1))
      else
        (case fc_phase self of
           PhaseSweep index \<Rightarrow>
             bind_ok (index_ok coarse_sweep_basis_points index) (\<lambda>duty.
               Ok (SweepLevel duty (basis_points_to_pwm duty)))
         | PhaseToMaximum attempt \<Rightarrow> Ok (ToMaximum attempt (- 1))
         | PhaseToFloor attempt \<Rightarrow>
             bind_ok (session_floor self) (\<lambda>duty. Ok (ToFloor attempt duty (basis_points_to_pwm duty)))
         | PhaseHoldFloor \<Rightarrow>
             bind_ok (session_floor self) (\<lambda>duty.
               Ok (HoldLevel duty (basis_points_to_pwm duty) required_floor_hold_millis))
         | PhaseCaptureAnchor index \<Rightarrow>
             bind_ok (anchor_duties self) (\<lambda>duties.
             bind_ok (index_ok duties index) (\<lambda>duty.
               Ok (AnchorLevel duty (basis_points_to_pwm duty))))
         | PhaseComplete \<Rightarrow> Ok StepComplete
         | PhaseFailed \<Rightarrow> Ok StepFailed))"

definition lowest_stable_basis_points :: "conservative_fan_calibration \<Rightarrow> u16 option" where
  "lowest_stable_basis_points self =
     (if stable_sweep_levels self = [] then None else Some (last (stable_sweep_levels self)))"

definition cal_fail :: "calibration_observation_error \<Rightarrow> 'a session_io" where
  "cal_fail error self =
     (Err error, self\<lparr>fc_phase := PhaseFailed, fc_evidence := None, resume_phase := None\<rparr>)"

definition require_stable :: "settled_level option \<Rightarrow> settled_level session_io" where
  "require_stable settled =
     (case settled of Some response \<Rightarrow> return_io (Ok response) | None \<Rightarrow> cal_fail UnstableRequiredLevel)"

definition observe_response :: "u64 \<Rightarrow> conservative_fan_calibration \<Rightarrow> conservative_fan_calibration" where
  "observe_response response_millis self =
     self\<lparr>fc_slowest_response_millis := max (fc_slowest_response_millis self) response_millis\<rparr>"

definition complete :: "unit session_io" where
  "complete self =
     (case session_floor self of
        Ok floor_bp \<Rightarrow>
          (Ok (),
           self\<lparr>fc_evidence := Some
                  \<lparr>fce_fan = evidence_fan_of (fc_fan self), fce_floor_basis_points = floor_bp,
                   fce_slowest_response_millis = Some (fc_slowest_response_millis self),
                   fce_protocol_checkpoint = None,
                   fce_response_deadline_millis = calibration_response_deadline (fc_slowest_response_millis self),
                   fce_anchors = fc_anchors self\<rparr>,
                fc_phase := PhaseComplete\<rparr>)
      | Err e \<Rightarrow> (Err e, self)
      | Panic \<Rightarrow> (Panic, self))"

section \<open>Validation of an observation\<close>

definition validate_chronology :: "calibration_readback_sample list \<Rightarrow> unit session_io" where
  "validate_chronology samples self =
     (if resume_phase self = None
         \<and> (case last_observed_monotonic_millis self of
              None \<Rightarrow> False
            | Some lst \<Rightarrow>
                (case samples of
                   [] \<Rightarrow> True
                 | sample # _ \<Rightarrow>
                     cs_monotonic_millis sample \<le> lst
                     \<or> maximum_protocol_verification_gap_millis < cs_monotonic_millis sample - lst))
      then cal_fail UnexpectedStep self
      else (Ok (), self))"

definition validate_samples :: "calibration_step \<Rightarrow> calibration_readback_sample list \<Rightarrow> unit session_io" where
  "validate_samples step samples self =
     (if list_ex (\<lambda>sample. other_enable_readback sample \<noteq> cal_custom_control
                    \<or> other_pwm_readback sample \<noteq> - 1) samples
      then cal_fail OtherFanNotAtMaximum self
      else if samples = []
              \<or> list_ex (\<lambda>sample. selected_enable_readback sample \<noteq> cal_custom_control
                    \<or> Some (selected_pwm_readback sample) \<noteq> step_pwm_value step) samples
      then cal_fail SelectedFanReadbackMismatch self
      else (Ok (), self))"

definition validate_readbacks ::
  "calibration_step \<Rightarrow> calibration_level_observation \<Rightarrow> unit session_io" where
  "validate_readbacks step observation =
     (if map_option cs_monotonic_millis (case lo_samples observation of [] \<Rightarrow> None | s # _ \<Rightarrow> Some s)
           \<noteq> Some (commanded_at_monotonic_millis observation)
         \<or> \<not> timestamps_are_continuous (lo_samples observation)
      then cal_fail UnexpectedStep
      else
        try_io (validate_chronology (lo_samples observation)) (\<lambda>_.
          validate_samples step (lo_samples observation)))"

section \<open>Recording\<close>

definition close_sweep :: "unit session_io" where
  "close_sweep self =
     (case lowest_stable_basis_points self of
        None \<Rightarrow> cal_fail ConservativeMarginUnavailable self
      | Some lowest_stable \<Rightarrow>
          (case word_checked_add lowest_stable conservative_margin_basis_points of
             None \<Rightarrow> cal_fail ConservativeMarginUnavailable self
           | Some floor_bp \<Rightarrow>
               if cal_maximum_duty_basis_points < floor_bp
               then cal_fail ConservativeMarginUnavailable self
               else (Ok (), self\<lparr>fc_floor_basis_points := Some floor_bp, fc_phase := PhaseToMaximum 1\<rparr>)))"

definition record_sweep :: "nat \<Rightarrow> settled_level option \<Rightarrow> unit session_io" where
  "record_sweep index settled self =
     (case settled of
        None \<Rightarrow> close_sweep self
      | Some response \<Rightarrow>
          try_io (return_io (index_ok coarse_sweep_basis_points index)) (\<lambda>duty self.
            (let self = observe_response (sl_response_millis response) self;
                 self = self\<lparr>stable_sweep_levels := stable_sweep_levels self @ [duty]\<rparr>
             in if index + 1 < length coarse_sweep_basis_points
                then (Ok (), self\<lparr>fc_phase := PhaseSweep (index + 1)\<rparr>)
                else close_sweep self)) self)"

definition record_anchor :: "nat \<Rightarrow> settled_level \<Rightarrow> unit session_io" where
  "record_anchor index response self =
     (if (case fc_anchors self of
            [] \<Rightarrow> False
          | a # as \<Rightarrow> sl_median_rpm response < rae_median_rpm (last (a # as)))
      then cal_fail DecreasingAnchorRpm self
      else
        try_io (\<lambda>self. return_io (anchor_duties self) self) (\<lambda>duties.
        try_io (return_io (index_ok duties index)) (\<lambda>duty self.
          (let self = self\<lparr>fc_anchors := fc_anchors self
                 @ [\<lparr>rae_duty_basis_points = duty, rae_median_rpm = sl_median_rpm response\<rparr>]\<rparr>
           in if index + 1 = length duties then complete self
              else (Ok (), self\<lparr>fc_phase := PhaseCaptureAnchor (index + 1)\<rparr>)))) self)"

definition record_settled :: "settled_level option \<Rightarrow> unit session_io" where
  "record_settled settled self =
     (case resume_phase self of
        Some phase \<Rightarrow>
          try_io (require_stable settled) (\<lambda>response self.
            (Ok (), (observe_response (sl_response_millis response) self)\<lparr>fc_phase := phase\<rparr>))
            (self\<lparr>resume_phase := None\<rparr>)
      | None \<Rightarrow>
          (case fc_phase self of
             PhaseSweep index \<Rightarrow> record_sweep index settled self
           | PhaseToMaximum attempt \<Rightarrow>
               try_io (require_stable settled) (\<lambda>response self.
                 (Ok (), (observe_response (sl_response_millis response) self)
                    \<lparr>fc_phase := PhaseToFloor attempt\<rparr>)) self
           | PhaseToFloor attempt \<Rightarrow>
               try_io (require_stable settled) (\<lambda>response self.
                 (Ok (), (observe_response (sl_response_millis response) self)
                    \<lparr>fc_phase :=
                       (if attempt = required_maximum_to_floor_transitions then PhaseHoldFloor
                        else PhaseToMaximum (attempt + 1))\<rparr>)) self
           | PhaseCaptureAnchor index \<Rightarrow>
               try_io (require_stable settled) (\<lambda>response self.
                 record_anchor index response (observe_response (sl_response_millis response) self)) self
           | PhaseHoldFloor \<Rightarrow> cal_fail UnexpectedStep self
           | PhaseComplete \<Rightarrow> cal_fail UnexpectedStep self
           | PhaseFailed \<Rightarrow> cal_fail UnexpectedStep self))"

definition is_sweep :: "calibration_phase \<Rightarrow> bool" where
  "is_sweep phase = (case phase of PhaseSweep _ \<Rightarrow> True | _ \<Rightarrow> False)"

definition settle :: "calibration_level_observation \<Rightarrow> settled_level option session_io" where
  "settle observation self =
     (if lo_stall_observed observation \<or> lo_unexplained_rpm_collapse_observed observation
      then
        if list_ex (\<lambda>sample. selected_rpm sample = None) (lo_samples observation)
        then cal_fail InvalidRpm self
        else if \<not> is_sweep (fc_phase self) then cal_fail UnstableRequiredLevel self
        else (Ok None, self)
      else
        (case settled_level_of observation of
           Ok settled \<Rightarrow> (Ok settled, self)
         | Err error \<Rightarrow> cal_fail error self
         | Panic \<Rightarrow> (Panic, self)))"

definition attach_checkpoint :: "unit session_io" where
  "attach_checkpoint self =
     (if fc_phase self = PhaseComplete
      then
        (case fc_evidence self of
           None \<Rightarrow> (Panic, self)
         | Some evidence \<Rightarrow>
             (Ok (), self\<lparr>fc_evidence := Some (evidence\<lparr>fce_protocol_checkpoint := Some (checkpoint self)\<rparr>)\<rparr>))
      else (Ok (), self))"

definition is_level_step :: "calibration_step \<Rightarrow> bool" where
  "is_level_step step =
     (case step of StepComplete \<Rightarrow> False | StepFailed \<Rightarrow> False | HoldLevel _ _ _ \<Rightarrow> False | _ \<Rightarrow> True)"

definition record_level :: "calibration_level_observation \<Rightarrow> unit session_io" where
  "record_level observation self =
     (if fc_phase self = PhaseFailed then (Err StageAlreadyFailed, self)
      else
        try_io (\<lambda>self. return_io (next_step self) self) (\<lambda>step.
          if \<not> is_level_step step then cal_fail UnexpectedStep
          else
            try_io (validate_readbacks step observation) (\<lambda>_.
              if list_ex speed_out_of_range (lo_samples observation)
                 \<or> list_all (\<lambda>sample. selected_rpm sample = None) (lo_samples observation)
              then cal_fail InvalidRpm
              else
                try_io (settle observation) (\<lambda>settled.
                try_io (record_settled settled) (\<lambda>_.
                try_io (modify_io (\<lambda>self. self
                  \<lparr>last_observed_monotonic_millis :=
                     map_option cs_monotonic_millis
                       (if lo_samples observation = [] then None else Some (last (lo_samples observation))),
                   fc_events := fc_events self @ [LevelEvent step observation]\<rparr>)) (\<lambda>_.
                  attach_checkpoint))))) self)"

definition minimum_hold_samples :: nat where
  "minimum_hold_samples =
     min (2 ^ 64 - 1) (unat (word_div_ceil required_floor_hold_millis maximum_hold_sample_gap_millis) + 1)"

definition hold_is_complete :: "calibration_readback_sample list \<Rightarrow> bool" where
  "hold_is_complete samples \<longleftrightarrow>
     required_floor_hold_millis \<le> (case sample_duration samples of None \<Rightarrow> 0 | Some d \<Rightarrow> d)
     \<and> minimum_hold_samples \<le> length samples \<and> timestamps_are_continuous samples"

definition record_hold :: "fan_hold_observation \<Rightarrow> unit session_io" where
  "record_hold observation self =
     (if fc_phase self = PhaseFailed then (Err StageAlreadyFailed, self)
      else if resume_phase self \<noteq> None \<or> fc_phase self \<noteq> PhaseHoldFloor then cal_fail UnexpectedStep self
      else
        try_io (\<lambda>self. return_io (next_step self) self) (\<lambda>step.
          if ho_stall_observed observation \<or> ho_unexplained_rpm_collapse_observed observation
          then cal_fail IncompleteHold
          else
            try_io (validate_chronology (ho_samples observation)) (\<lambda>_.
            try_io (validate_samples step (ho_samples observation)) (\<lambda>_.
              if \<not> hold_is_complete (ho_samples observation) then cal_fail IncompleteHold
              else
                (case stable_rpm_median (ho_samples observation) of
                   Panic \<Rightarrow> return_io Panic
                 | Err error \<Rightarrow> cal_fail error
                 | Ok None \<Rightarrow> cal_fail IncompleteHold
                 | Ok (Some _) \<Rightarrow>
                     modify_io (\<lambda>self. self
                       \<lparr>fc_phase := PhaseCaptureAnchor 0,
                        last_observed_monotonic_millis :=
                          map_option cs_monotonic_millis
                            (if ho_samples observation = [] then None else Some (last (ho_samples observation))),
                        fc_events := fc_events self @ [HoldEvent step observation]\<rparr>))))) self)"

section \<open>Resuming from a checkpoint\<close>

definition is_revalidation :: "calibration_checkpoint_event \<Rightarrow> bool" where
  "is_revalidation event = (case event of LevelEvent (RevalidateBothAtMaximum _) _ \<Rightarrow> True | _ \<Rightarrow> False)"

definition recorded :: "('e, unit) outcome \<times> conservative_fan_calibration
     \<Rightarrow> (calibration_observation_error, conservative_fan_calibration) outcome" where
  "recorded r = (case r of (Ok _, self) \<Rightarrow> Ok self | (Err _, _) \<Rightarrow> Err InvalidCheckpoint | (Panic, _) \<Rightarrow> Panic)"

definition replay_event ::
  "calibration_checkpoint_event \<Rightarrow> conservative_fan_calibration
     \<Rightarrow> (calibration_observation_error, conservative_fan_calibration) outcome" where
  "replay_event event self =
     (if fc_phase self = PhaseComplete then Err InvalidCheckpoint
      else
        (let self = (if is_revalidation event \<and> resume_phase self = None
                     then self\<lparr>resume_phase := Some (fc_phase self)\<rparr> else self)
         in bind_ok (next_step self) (\<lambda>pending.
              case event of
                LevelEvent step observation \<Rightarrow>
                  if pending = step then recorded (record_level observation self) else Err InvalidCheckpoint
              | HoldEvent step observation \<Rightarrow>
                  if pending = step then recorded (record_hold observation self) else Err InvalidCheckpoint)))"

fun replay ::
  "calibration_checkpoint_event list \<Rightarrow> conservative_fan_calibration
     \<Rightarrow> (calibration_observation_error, conservative_fan_calibration) outcome" where
  "replay [] self = Ok self"
| "replay (event # events) self = bind_ok (replay_event event self) (replay events)"

definition calibration_resume ::
  "fan \<Rightarrow> calibration_checkpoint \<Rightarrow> (calibration_observation_error, conservative_fan_calibration) outcome" where
  "calibration_resume expected_fan saved =
     (if cc_schema_version saved \<noteq> 1 \<or> cc_failed saved \<or> cc_fan saved \<noteq> evidence_fan_of expected_fan
      then Err InvalidCheckpoint
      else
        bind_ok (replay (cc_events saved) (calibration_start expected_fan)) (\<lambda>session.
          Ok (if fc_phase session \<noteq> PhaseComplete
              then session\<lparr>resume_phase := Some (fc_phase session)\<rparr> else session)))"

end
