(* ===== verification/Calibration_Contract.thy ===== *)
theory Calibration_Contract
  imports Calibration
begin

text \<open>
  What a calibration session guarantees: no reachable session panics, the steps it accepted are the
  fixed protocol, its evidence satisfies what \<open>evidence.rs\<close> and the tachometer ask of a calibration, and
  its checkpoint replays to the same session.
\<close>

section \<open>Settled levels are plausible\<close>

definition level_good :: "settled_level \<Rightarrow> bool" where
  "level_good l \<longleftrightarrow>
     plausible_speed (sl_median_rpm l) \<and> minimum_settled_response_millis \<le> sl_response_millis l
     \<and> sl_response_millis l \<le> maximum_calibration_response_millis"

lemma median_in: "xs \<noteq> [] \<Longrightarrow> median xs \<in> set xs"
  unfolding median_def by (metis div_less_dividend length_greater_0_conv length_sort nth_mem one_less_numeral_iff semiring_norm(76) set_sort)

lemma stable_median_in: "stable_rpm_median_values xs = Some m \<Longrightarrow> m \<in> set xs"
  by (cases "xs = []")
    (auto simp: stable_rpm_median_values_def minimum_settled_samples_def Let_def median_in split: if_splits)

lemma those_set: "those ys = Some xs \<Longrightarrow> set ys = Some ` set xs"
  by (induction ys arbitrary: xs) (auto split: option.splits)

lemma settled_level_good:
  assumes "settled_level_of observation = Ok (Some l)"
  shows "level_good l"
proof -
  let ?s = "dropWhile (\<lambda>sample. selected_rpm sample = None) (lo_samples observation)"
  from assms obtain rpms where r: "those (map selected_rpm ?s) = Some rpms"
    "stable_rpm_median_values rpms = Some (sl_median_rpm l)"
    and p: "\<not> list_ex speed_out_of_range (lo_samples observation)"
    and t: "minimum_settled_response_millis \<le> sl_response_millis l"
      "sl_response_millis l \<le> maximum_calibration_response_millis"
    by (auto simp: settled_level_of_def Let_def bind_ok_eq_Ok not_less split: if_splits option.splits)
  have "Some (sl_median_rpm l) \<in> selected_rpm ` set ?s"
    using stable_median_in [OF r(2)] those_set [OF r(1)] by auto
  then obtain smp where "smp \<in> set (lo_samples observation)" "selected_rpm smp = Some (sl_median_rpm l)"
    by (auto dest!: set_dropWhileD)
  with p t show ?thesis by (auto simp: level_good_def list_ex_iff speed_out_of_range_def)
qed

lemma settled_level_no_panic: "settled_level_of observation \<noteq> Panic"
  by (auto simp: settled_level_of_def Let_def bind_ok_eq_Panic ok_or_def split: option.splits)

section \<open>The protocol\<close>

fun event_step :: "calibration_checkpoint_event \<Rightarrow> calibration_step" where
  "event_step (LevelEvent step _) = step"
| "event_step (HoldEvent step _) = step"

definition is_revalidation_step :: "calibration_step \<Rightarrow> bool" where
  "is_revalidation_step step = (case step of RevalidateBothAtMaximum _ \<Rightarrow> True | _ \<Rightarrow> False)"

text \<open>The protocol steps among the accepted observations: all but the revalidations after a resume.\<close>

definition protocol_steps :: "calibration_checkpoint_event list \<Rightarrow> calibration_step list" where
  "protocol_steps events = filter (\<lambda>step. \<not> is_revalidation_step step) (map event_step events)"

definition sweep_steps :: "nat \<Rightarrow> calibration_step list" where
  "sweep_steps n = map (\<lambda>duty. SweepLevel duty (basis_points_to_pwm duty)) (take n coarse_sweep_basis_points)"

definition transition_steps :: "u16 \<Rightarrow> u8 list \<Rightarrow> calibration_step list" where
  "transition_steps floor_bp attempts =
     concat (map (\<lambda>k. [ToMaximum k (- 1), ToFloor k floor_bp (basis_points_to_pwm floor_bp)]) attempts)"

definition hold_step :: "u16 \<Rightarrow> calibration_step" where
  "hold_step floor_bp = HoldLevel floor_bp (basis_points_to_pwm floor_bp) required_floor_hold_millis"

definition anchor_steps :: "u16 list \<Rightarrow> calibration_step list" where
  "anchor_steps duties = map (\<lambda>duty. AnchorLevel duty (basis_points_to_pwm duty)) duties"

abbreviation all_attempts :: "u8 list" where "all_attempts \<equiv> [1, 2, 3, 4, 5]"

text \<open>
  The sweep stops after the first unstable level or after the last one, and the floor is ten points
  above its last stable level.
\<close>

definition swept :: "conservative_fan_calibration \<Rightarrow> u16 \<Rightarrow> calibration_step list \<Rightarrow> bool" where
  "swept s floor_bp steps \<longleftrightarrow>
     (\<exists>n \<in> {2, 3, 4, 5}. stable_sweep_levels s = take n coarse_sweep_basis_points
        \<and> steps = sweep_steps (min (n + 1) 5) \<and> floor_bp = coarse_sweep_basis_points ! (n - 1) + 1000)"

text \<open>The anchors measured so far, for the duties in order.\<close>

definition anchors_measured :: "u16 list \<Rightarrow> rpm_anchor_evidence list \<Rightarrow> bool" where
  "anchors_measured duties as \<longleftrightarrow>
     map rae_duty_basis_points as = duties \<and> sorted (map rae_median_rpm as)
     \<and> (\<forall>a \<in> set as. plausible_speed (rae_median_rpm a))"

definition evidence_of ::
  "conservative_fan_calibration \<Rightarrow> u16 \<Rightarrow> calibration_checkpoint option \<Rightarrow> fan_calibration_evidence" where
  "evidence_of s floor_bp saved =
     \<lparr>fce_fan = evidence_fan_of (fc_fan s), fce_floor_basis_points = floor_bp,
      fce_slowest_response_millis = Some (fc_slowest_response_millis s), fce_protocol_checkpoint = saved,
      fce_response_deadline_millis = calibration_response_deadline (fc_slowest_response_millis s),
      fce_anchors = fc_anchors s\<rparr>"

text \<open>
  Where a session stands after the protocol steps \<open>xs\<close>; \<open>saved\<close> is the checkpoint in the evidence of a
  complete one.
\<close>

definition floor_known :: "conservative_fan_calibration \<Rightarrow> u16 \<Rightarrow> calibration_step list \<Rightarrow> bool" where
  "floor_known s floor_bp sweep \<longleftrightarrow>
     fc_floor_basis_points s = Some floor_bp \<and> swept s floor_bp sweep
     \<and> minimum_settled_response_millis \<le> fc_slowest_response_millis s"

definition stands :: "calibration_checkpoint option \<Rightarrow> calibration_step list \<Rightarrow> conservative_fan_calibration \<Rightarrow> bool" where
  "stands saved xs s \<longleftrightarrow>
     fc_slowest_response_millis s \<le> maximum_calibration_response_millis
     \<and> (fc_phase s \<noteq> PhaseComplete \<longrightarrow> fc_evidence s = None)
     \<and> (case fc_phase s of
          PhaseSweep i \<Rightarrow>
            i < 5 \<and> stable_sweep_levels s = take i coarse_sweep_basis_points \<and> xs = sweep_steps i
            \<and> fc_anchors s = []
            \<and> (0 < i \<longrightarrow> minimum_settled_response_millis \<le> fc_slowest_response_millis s)
        | PhaseToMaximum a \<Rightarrow>
            a \<in> set all_attempts \<and> fc_anchors s = []
            \<and> (\<exists>sw f. floor_known s f sw \<and> xs = sw @ transition_steps f (takeWhile (\<lambda>k. k \<noteq> a) all_attempts))
        | PhaseToFloor a \<Rightarrow>
            a \<in> set all_attempts \<and> fc_anchors s = []
            \<and> (\<exists>sw f. floor_known s f sw
                 \<and> xs = sw @ transition_steps f (takeWhile (\<lambda>k. k \<noteq> a) all_attempts) @ [ToMaximum a (- 1)])
        | PhaseHoldFloor \<Rightarrow>
            fc_anchors s = [] \<and> (\<exists>sw f. floor_known s f sw \<and> xs = sw @ transition_steps f all_attempts)
        | PhaseCaptureAnchor i \<Rightarrow>
            (\<exists>sw f. floor_known s f sw \<and> i < 4
               \<and> anchors_measured (take i (canonical_calibration_anchor_duties f)) (fc_anchors s)
               \<and> xs = sw @ transition_steps f all_attempts @ [hold_step f]
                    @ anchor_steps (take i (canonical_calibration_anchor_duties f)))
        | PhaseComplete \<Rightarrow>
            (\<exists>sw f. floor_known s f sw
               \<and> anchors_measured (canonical_calibration_anchor_duties f) (fc_anchors s)
               \<and> fc_evidence s = Some (evidence_of s f saved)
               \<and> xs = sw @ transition_steps f all_attempts @ [hold_step f]
                    @ anchor_steps (canonical_calibration_anchor_duties f))
        | PhaseFailed \<Rightarrow> True)"

definition resume_ok :: "conservative_fan_calibration \<Rightarrow> bool" where
  "resume_ok s \<longleftrightarrow>
     resume_phase s = None
     \<or> resume_phase s = Some (fc_phase s) \<and> fc_phase s \<noteq> PhaseComplete \<and> fc_phase s \<noteq> PhaseFailed"

definition session_ok :: "conservative_fan_calibration \<Rightarrow> bool" where
  "session_ok s \<longleftrightarrow>
     resume_ok s \<and> stands (Some (checkpoint s)) (protocol_steps (fc_events s)) s"

text \<open>A rejected observation fails the session for good.\<close>

definition failed_closed :: "conservative_fan_calibration \<Rightarrow> conservative_fan_calibration \<Rightarrow> bool" where
  "failed_closed s t \<longleftrightarrow>
     fc_phase t = PhaseFailed \<and> fc_evidence t = None \<and> resume_phase t = None
     \<and> fc_events t = fc_events s \<and> fc_fan t = fc_fan s
     \<and> fc_slowest_response_millis t \<le> maximum_calibration_response_millis"

lemma floors:
  "swept s f sw \<Longrightarrow> f \<in> {4000, 5000, 6000, 7000}"
  by (auto simp: swept_def coarse_sweep_basis_points_def)

lemma duties_length:
  assumes "f \<in> {4000, 5000, 6000, 7000}"
  shows "length (canonical_calibration_anchor_duties f) = 4"
  using assms by (auto simp: canonical_calibration_anchor_duties_def Let_def word_saturating_sub_def
      cal_maximum_duty_basis_points_def)

section \<open>One observation\<close>

definition advanced ::
  "conservative_fan_calibration \<Rightarrow> calibration_step list \<Rightarrow> (calibration_observation_error, unit) outcome
     \<Rightarrow> conservative_fan_calibration \<Rightarrow> bool" where
  "advanced s xs r t \<longleftrightarrow>
     (case r of
        Panic \<Rightarrow> False
      | Err _ \<Rightarrow> failed_closed s t
      | Ok _ \<Rightarrow> stands None xs t \<and> resume_phase t = None \<and> fc_phase t \<noteq> PhaseFailed
                 \<and> fc_events t = fc_events s \<and> fc_fan t = fc_fan s)"

named_theorems cal_simps \<open>unfolding rules of the session operations\<close>

lemma wp_cal_fail [cal_simps]:
  "wp (cal_fail e) Q s = Q (Err e) (s\<lparr>fc_phase := PhaseFailed, fc_evidence := None, resume_phase := None\<rparr>)"
  by (simp add: wp_def cal_fail_def)

lemma wp_pair [cal_simps]: "wp (\<lambda>s. (r s, g s)) Q s = Q (r s) (g s)"
  by (simp add: wp_def)

lemma cal_wp_if [cal_simps]: "wp (if b then m else n) Q s = (if b then wp m Q s else wp n Q s)"
  by simp

lemma cal_wp_if_state [cal_simps]: "wp (\<lambda>s. if b s then m s else n s) Q s = (if b s then wp m Q s else wp n Q s)"
  by (simp add: wp_def)

lemma wp_state_io [cal_simps]: "wp (\<lambda>s. return_io (r s) s) Q s = Q (r s) s"
  by (simp add: wp_def return_io_def)

lemma try_io_read:
  "try_io (\<lambda>s. return_io (r s) s) f s = (case r s of Ok x \<Rightarrow> f x s | Err e \<Rightarrow> (Err e, s) | Panic \<Rightarrow> (Panic, s))"
  by (simp add: try_io_def return_io_def)

lemma failed_closedI:
  "fc_slowest_response_millis s \<le> maximum_calibration_response_millis
     \<Longrightarrow> fc_events s = fc_events s0 \<Longrightarrow> fc_fan s = fc_fan s0
     \<Longrightarrow> failed_closed s0 (s\<lparr>fc_phase := PhaseFailed, fc_evidence := None, resume_phase := None\<rparr>)"
  by (simp add: failed_closed_def)

lemma require_stable_wp [cal_simps]:
  "wp (require_stable settled) Q s =
     (case settled of
        Some l \<Rightarrow> Q (Ok l) s
      | None \<Rightarrow> Q (Err UnstableRequiredLevel)
                 (s\<lparr>fc_phase := PhaseFailed, fc_evidence := None, resume_phase := None\<rparr>))"
  by (simp add: require_stable_def cal_simps wp_return split: option.split)

lemma sweep_index: "i < 5 \<Longrightarrow> i \<in> {0, 1, 2, 3, 4 :: nat}"
  by auto

lemma max_response:
  "level_good l \<Longrightarrow> t \<le> maximum_calibration_response_millis
     \<Longrightarrow> max t (sl_response_millis l) \<le> maximum_calibration_response_millis
       \<and> minimum_settled_response_millis \<le> max t (sl_response_millis l)"
  by (auto simp: level_good_def max_def)

lemma close_sweep_ok:
  assumes s: "fc_slowest_response_millis s \<le> maximum_calibration_response_millis" "fc_evidence s = None"
      "fc_anchors s = []" "resume_phase s = None" "fc_events s = fc_events s0" "fc_fan s = fc_fan s0"
    and n: "n \<in> {0, 1, 2, 3, 4, 5}" "stable_sweep_levels s = take n coarse_sweep_basis_points"
    and m: "0 < n \<Longrightarrow> minimum_settled_response_millis \<le> fc_slowest_response_millis s"
    and xs: "xs = sweep_steps (min (n + 1) 5)"
  shows "wp close_sweep (advanced s0 xs) s"
proof -
  let ?f = "coarse_sweep_basis_points ! (n - 1) + 1000"
  have e: "close_sweep s =
      (if n \<le> 1 then cal_fail ConservativeMarginUnavailable s
       else (Ok (), s\<lparr>fc_floor_basis_points := Some ?f, fc_phase := PhaseToMaximum 1\<rparr>))"
    using n by (auto simp: close_sweep_def lowest_stable_basis_points_def coarse_sweep_basis_points_def
        word_checked_add_def conservative_margin_basis_points_def cal_maximum_duty_basis_points_def)
  show ?thesis
  proof (cases "n \<le> 1")
    case True
    with e s show ?thesis by (simp add: wp_def cal_fail_def advanced_def failed_closed_def)
  next
    case False
    let ?t = "s\<lparr>fc_floor_basis_points := Some ?f, fc_phase := PhaseToMaximum 1\<rparr>"
    have "swept ?t ?f xs" unfolding swept_def using False n xs by (intro bexI [of _ n]) auto
    then have "floor_known ?t ?f xs" using False m by (simp add: floor_known_def)
    then have "stands None xs ?t" using s by (fastforce simp: stands_def transition_steps_def)
    with False e s show ?thesis by (simp add: wp_def advanced_def)
  qed
qed

lemma record_sweep_ok:
  assumes "stands saved xs s" "fc_phase s = PhaseSweep i" "resume_phase s = None"
    and good: "\<And>l. settled = Some l \<Longrightarrow> level_good l"
    and duty: "duty = coarse_sweep_basis_points ! i"
  shows "wp (record_sweep i settled) (advanced s (xs @ [SweepLevel duty (basis_points_to_pwm duty)])) s"
proof -
  have i: "i < 5" using assms(1,2) by (auto simp: stands_def)
  have c: "length coarse_sweep_basis_points = 5" by (simp add: coarse_sweep_basis_points_def)
  have b: "fc_slowest_response_millis s \<le> maximum_calibration_response_millis" "fc_evidence s = None" "fc_anchors s = []"
    "stable_sweep_levels s = take i coarse_sweep_basis_points" "xs = sweep_steps i"
    "0 < i \<Longrightarrow> minimum_settled_response_millis \<le> fc_slowest_response_millis s"
    using assms(1,2) by (auto simp: stands_def)
  have x: "xs @ [SweepLevel duty (basis_points_to_pwm duty)] = sweep_steps (i + 1)"
    using i c duty b(5) by (simp add: sweep_steps_def take_Suc_conv_app_nth)
  show ?thesis
  proof (cases settled)
    case None
    have "wp close_sweep (advanced s (xs @ [SweepLevel duty (basis_points_to_pwm duty)])) s"
      by (rule close_sweep_ok [of _ _ i]) (use b assms(3) i x in auto)
    with None show ?thesis by (simp add: wp_def record_sweep_def)
  next
    case (Some l)
    note m = max_response [OF good [OF Some] b(1)]
    let ?t = "(observe_response (sl_response_millis l) s)\<lparr>stable_sweep_levels := stable_sweep_levels s @ [duty]\<rparr>"
    have t: "stable_sweep_levels ?t = take (i + 1) coarse_sweep_basis_points"
      using b(4) duty i c by (simp add: take_Suc_conv_app_nth)
    have r: "record_sweep i settled s = (if i + 1 < 5 then (Ok (), ?t\<lparr>fc_phase := PhaseSweep (i + 1)\<rparr>) else close_sweep ?t)"
      using Some i c duty by (simp add: record_sweep_def index_ok_def Let_def observe_response_def)
    show ?thesis
    proof (cases "i + 1 < 5")
      case True
      have "stands None (sweep_steps (i + 1)) (?t\<lparr>fc_phase := PhaseSweep (i + 1)\<rparr>)"
        using b m t True by (simp add: stands_def observe_response_def)
      with True r x assms(3) show ?thesis by (simp add: wp_def advanced_def observe_response_def)
    next
      case False
      with i have i4: "i = 4" by simp
      have "wp close_sweep (advanced s (xs @ [SweepLevel duty (basis_points_to_pwm duty)])) ?t"
        by (rule close_sweep_ok [of _ _ "i + 1"]) (use b assms(3) i4 x m t in \<open>auto simp: observe_response_def\<close>)
      with False r show ?thesis by (simp add: wp_def)
    qed
  qed
qed


lemma anchors_snoc:
  assumes "anchors_measured duties as" "plausible_speed (rae_median_rpm a)" "d = rae_duty_basis_points a"
    and "as \<noteq> [] \<Longrightarrow> rae_median_rpm (last as) \<le> rae_median_rpm a"
  shows "anchors_measured (duties @ [d]) (as @ [a])"
proof -
  have "\<forall>x \<in> set as. rae_median_rpm x \<le> rae_median_rpm a"
    if "as \<noteq> []" using assms(1) assms(4) [OF that] that
    by (induction as rule: rev_induct) (auto simp: anchors_measured_def sorted_append)
  then show ?thesis using assms by (cases "as = []") (auto simp: anchors_measured_def sorted_append)
qed

lemma record_anchor_ok:
  assumes st: "stands saved xs s" "fc_phase s = PhaseCaptureAnchor i" "resume_phase s = None"
    and f: "fc_floor_basis_points s = Some f"
    and good: "level_good l" "sl_response_millis l \<le> fc_slowest_response_millis s"
    and duty: "duty = canonical_calibration_anchor_duties f ! i"
  shows "wp (record_anchor i l) (advanced s (xs @ [AnchorLevel duty (basis_points_to_pwm duty)])) s"
proof -
  let ?D = "canonical_calibration_anchor_duties f"
  from st f obtain sw where k: "floor_known s f sw" "i < 4" "anchors_measured (take i ?D) (fc_anchors s)"
    "xs = sw @ transition_steps f all_attempts @ [hold_step f] @ anchor_steps (take i ?D)"
    "fc_slowest_response_millis s \<le> maximum_calibration_response_millis" "fc_evidence s = None"
    by (auto simp: stands_def floor_known_def)
  have D: "length ?D = 4" using k(1) floors by (intro duties_length) (auto simp: floor_known_def)
  let ?a = "\<lparr>rae_duty_basis_points = duty, rae_median_rpm = sl_median_rpm l\<rparr>"
  let ?t = "s\<lparr>fc_anchors := fc_anchors s @ [?a]\<rparr>"
  show ?thesis
  proof (cases "fc_anchors s \<noteq> [] \<and> sl_median_rpm l < rae_median_rpm (last (fc_anchors s))")
    case True
    with k(5) show ?thesis
      by (auto simp: wp_def record_anchor_def cal_fail_def advanced_def failed_closed_def split: list.split)
  next
    case False
    have as: "anchors_measured (take (i + 1) ?D) (fc_anchors s @ [?a])"
      using anchors_snoc [OF k(3), of ?a duty] good(1) False D k(2) duty
      by (auto simp: take_Suc_conv_app_nth level_good_def not_less)
    have r: "record_anchor i l s = (if i + 1 = 4 then complete ?t else (Ok (), ?t\<lparr>fc_phase := PhaseCaptureAnchor (i + 1)\<rparr>))"
      using False f D k(2) duty
      by (auto simp: record_anchor_def anchor_duties_def session_floor_def index_ok_def try_io_def return_io_def Let_def
          split: list.split)
    have x: "xs @ [AnchorLevel duty (basis_points_to_pwm duty)]
        = sw @ transition_steps f all_attempts @ [hold_step f] @ anchor_steps (take (i + 1) ?D)"
      using D k(2,4) duty by (simp add: anchor_steps_def take_Suc_conv_app_nth)
    have fk: "floor_known t f sw" if "fc_floor_basis_points t = fc_floor_basis_points s"
      "stable_sweep_levels t = stable_sweep_levels s" "fc_slowest_response_millis t = fc_slowest_response_millis s" for t
      using k(1) that by (simp add: floor_known_def swept_def)
    show ?thesis
    proof (cases "i + 1 = 4")
      case True
      let ?u = "?t\<lparr>fc_evidence := Some (evidence_of ?t f None), fc_phase := PhaseComplete\<rparr>"
      have "complete ?t = (Ok (), ?u)"
        using f by (simp add: complete_def session_floor_def evidence_of_def)
      moreover have "stands None (xs @ [AnchorLevel duty (basis_points_to_pwm duty)]) ?u"
        unfolding x using k(5) as fk [of ?u] True D by (auto simp: stands_def evidence_of_def)
      ultimately show ?thesis using r True st(3) by (simp add: wp_def advanced_def)
    next
      case False
      have "stands None (xs @ [AnchorLevel duty (basis_points_to_pwm duty)]) (?t\<lparr>fc_phase := PhaseCaptureAnchor (i + 1)\<rparr>)"
        unfolding x using k(2,5,6) as fk [of "?t\<lparr>fc_phase := PhaseCaptureAnchor (i + 1)\<rparr>"] False by (auto simp: stands_def)
      with r False st(3) show ?thesis by (simp add: wp_def advanced_def)
    qed
  qed
qed


lemma observe_floor:
  assumes "floor_known s f sw" "level_good l"
    "fc_floor_basis_points t = fc_floor_basis_points s" "stable_sweep_levels t = stable_sweep_levels s"
    "fc_slowest_response_millis t = max (fc_slowest_response_millis s) (sl_response_millis l)"
  shows "floor_known t f sw"
  using assms by (auto simp: floor_known_def swept_def max_def)

lemma stands_transfer:
  assumes st: "stands saved xs s" "fc_phase s \<noteq> PhaseComplete"
    and same: "fc_phase t = fc_phase s" "fc_evidence t = fc_evidence s" "fc_anchors t = fc_anchors s"
      "stable_sweep_levels t = stable_sweep_levels s"
    and m: "fc_slowest_response_millis t \<le> maximum_calibration_response_millis"
      "minimum_settled_response_millis \<le> fc_slowest_response_millis t"
    and k: "\<And>f sw. floor_known s f sw \<Longrightarrow> floor_known t f sw"
  shows "stands saved' xs t"
proof (cases "fc_phase s")
  case (PhaseSweep i)
  with st same m show ?thesis by (simp add: stands_def)
next
  case (PhaseToMaximum a)
  with st same m show ?thesis by (auto simp only: stands_def calibration_phase.case simp_thms calibration_phase.distinct) (blast intro: k)+
next
  case (PhaseToFloor a)
  with st same m show ?thesis by (auto simp only: stands_def calibration_phase.case simp_thms calibration_phase.distinct) (blast intro: k)+
next
  case PhaseHoldFloor
  with st same m show ?thesis by (auto simp only: stands_def calibration_phase.case simp_thms calibration_phase.distinct) (blast intro: k)+
next
  case (PhaseCaptureAnchor i)
  with st same m show ?thesis by (auto simp only: stands_def calibration_phase.case simp_thms calibration_phase.distinct) (blast intro: k)+
next
  case PhaseComplete
  with st show ?thesis by simp
next
  case PhaseFailed
  with st same m show ?thesis by (simp add: stands_def)
qed

lemma observe_stands:
  assumes st: "stands saved xs s" "fc_phase s \<noteq> PhaseComplete" and l: "level_good l"
  shows "stands saved' xs ((observe_response (sl_response_millis l) s)\<lparr>resume_phase := p\<rparr>)"
  by (rule stands_transfer [OF st])
    (use max_response [OF l] st(1) in \<open>auto simp: observe_response_def stands_def intro: observe_floor [OF _ l]\<close>)

lemma resumed_level_ok:
  assumes "stands saved xs s" "fc_phase s \<noteq> PhaseComplete" "fc_phase s \<noteq> PhaseFailed"
    "resume_phase s = Some (fc_phase s)" and good: "\<And>l. settled = Some l \<Longrightarrow> level_good l"
  shows "wp (record_settled settled) (advanced s xs) s"
proof (cases settled)
  case None
  with assms show ?thesis
    by (simp add: wp_def record_settled_def require_stable_def cal_fail_def try_io_def advanced_def failed_closed_def
        stands_def)
next
  case (Some l)
  let ?t = "(observe_response (sl_response_millis l) s)\<lparr>resume_phase := None\<rparr>"
  have e: "(observe_response (sl_response_millis l) (s\<lparr>resume_phase := None\<rparr>))\<lparr>fc_phase := fc_phase s\<rparr> = ?t"
    by (simp add: observe_response_def)
  have "stands None xs ?t" by (rule observe_stands) (use assms good [OF Some] in auto)
  with Some assms e show ?thesis
    by (simp add: wp_def record_settled_def require_stable_def try_io_def return_io_def advanced_def)
      (simp add: observe_response_def)
qed

lemma transition_level_ok:
  assumes st: "stands saved xs s" and r: "resume_phase s = None" "next_step s = Ok step"
    and ph: "fc_phase s = PhaseToMaximum a \<or> fc_phase s = PhaseToFloor a"
    and good: "\<And>l. settled = Some l \<Longrightarrow> level_good l"
  shows "wp (record_settled settled) (advanced s (xs @ [step])) s"
proof (cases settled)
  case None
  with st r ph show ?thesis
    by (auto simp: wp_def record_settled_def require_stable_def cal_fail_def try_io_def advanced_def failed_closed_def
        stands_def)
next
  case (Some l)
  let ?o = "observe_response (sl_response_millis l) s"
  have "stands None xs (?o\<lparr>resume_phase := None\<rparr>)" by (rule observe_stands) (use st ph good [OF Some] in auto)
  moreover have "?o\<lparr>resume_phase := None\<rparr> = ?o" using r(1) by (simp add: observe_response_def)
  ultimately have o: "stands None xs ?o" by simp
  have same: "fc_phase ?o = fc_phase s" "resume_phase ?o = None" "fc_events ?o = fc_events s" "fc_fan ?o = fc_fan s"
    "fc_floor_basis_points ?o = fc_floor_basis_points s"
    using r(1) by (simp_all add: observe_response_def)
  have k: "floor_known (?o\<lparr>fc_phase := q\<rparr>) f sw \<longleftrightarrow> floor_known ?o f sw" for q f sw
    by (simp add: floor_known_def swept_def)
  show ?thesis
  proof (cases "fc_phase s = PhaseToMaximum a")
    case True
    with r have "step = ToMaximum a (- 1)" by (simp add: next_step_def)
    then have "stands None (xs @ [step]) (?o\<lparr>fc_phase := PhaseToFloor a\<rparr>)"
      using o True same(1) k by (fastforce simp: stands_def)
    with True Some r show ?thesis
      by (simp add: wp_def record_settled_def require_stable_def try_io_def return_io_def advanced_def same)
  next
    case False
    with ph have p: "fc_phase s = PhaseToFloor a" by simp
    from o same p obtain sw f where f: "floor_known ?o f sw" "a \<in> set all_attempts" "fc_anchors ?o = []"
      "xs = sw @ transition_steps f (takeWhile (\<lambda>k. k \<noteq> a) all_attempts) @ [ToMaximum a (- 1)]"
      "fc_slowest_response_millis ?o \<le> maximum_calibration_response_millis" "fc_evidence ?o = None"
      by (auto simp: stands_def)
    then have step: "step = ToFloor a f (basis_points_to_pwm f)"
      using r p same(5) by (simp add: next_step_def session_floor_def floor_known_def)
    let ?q = "if a = 5 then PhaseHoldFloor else PhaseToMaximum (a + 1)"
    have "stands None (xs @ [step]) (?o\<lparr>fc_phase := ?q\<rparr>)"
      using f k [of _ f sw] unfolding step
      by (cases "a = 5") (auto simp: stands_def transition_steps_def intro!: exI [of _ sw] exI [of _ f])
    with p Some r show ?thesis
      by (simp add: wp_def record_settled_def require_stable_def try_io_def return_io_def advanced_def same
          required_maximum_to_floor_transitions_def)
  qed
qed


lemma duties_known: "floor_known s f sw \<Longrightarrow> length (canonical_calibration_anchor_duties f) = 4"
  using floors by (intro duties_length) (auto simp: floor_known_def)

lemma next_step_no_panic:
  assumes "stands saved xs s" shows "\<exists>step. next_step s = Ok step"
proof (cases "resume_phase s = None")
  case True
  with assms show ?thesis
    by (cases "fc_phase s")
      (auto simp: next_step_def stands_def index_ok_def coarse_sweep_basis_points_def session_floor_def anchor_duties_def
        duties_known floor_known_def)
qed (simp add: next_step_def)

lemma record_settled_ok:
  assumes st: "stands saved xs s" "resume_ok s" and n: "next_step s = Ok step" "is_level_step step"
    and ph: "fc_phase s \<noteq> PhaseFailed" and good: "\<And>l. settled = Some l \<Longrightarrow> level_good l"
  shows "wp (record_settled settled) (advanced s (if is_revalidation_step step then xs else xs @ [step])) s"
proof (cases "resume_phase s")
  case (Some p)
  with n have "is_revalidation_step step" by (auto simp: next_step_def is_revalidation_step_def)
  with resumed_level_ok [OF st(1) _ ph _ good] Some st(2) show ?thesis by (auto simp: resume_ok_def)
next
  case None
  have nr: "\<not> is_revalidation_step step"
    using n None by (auto simp: next_step_def is_revalidation_step_def bind_ok_eq_Ok split: calibration_phase.splits)
  show ?thesis
  proof (cases "fc_phase s")
    case (PhaseSweep i)
    then have "step = SweepLevel (coarse_sweep_basis_points ! i) (basis_points_to_pwm (coarse_sweep_basis_points ! i))"
      using n None by (auto simp: next_step_def index_ok_def split: if_splits)
    with record_sweep_ok [OF st(1) PhaseSweep None good refl] nr PhaseSweep None show ?thesis
      by (simp add: wp_def record_settled_def)
  next
    case (PhaseToMaximum a)
    with transition_level_ok [OF st(1) None n(1) _ good, of a] nr show ?thesis by simp
  next
    case (PhaseToFloor a)
    with transition_level_ok [OF st(1) None n(1) _ good, of a] nr show ?thesis by simp
  next
    case (PhaseCaptureAnchor i)
    from st(1) PhaseCaptureAnchor obtain f sw where f: "floor_known s f sw" "i < 4"
      by (auto simp: stands_def)
    then have step: "step = AnchorLevel (canonical_calibration_anchor_duties f ! i)
        (basis_points_to_pwm (canonical_calibration_anchor_duties f ! i))"
      using n None PhaseCaptureAnchor duties_known [OF f(1)]
      by (auto simp: next_step_def anchor_duties_def session_floor_def floor_known_def index_ok_def split: if_splits)
    show ?thesis
    proof (cases settled)
      case sn: None
      with PhaseCaptureAnchor None st show ?thesis
        by (simp add: wp_def record_settled_def require_stable_def cal_fail_def try_io_def advanced_def failed_closed_def
            stands_def)
    next
      case (Some l)
      let ?o = "observe_response (sl_response_millis l) s"
      have "stands None xs (?o\<lparr>resume_phase := None\<rparr>)"
        by (rule observe_stands) (use st(1) PhaseCaptureAnchor good [OF Some] in auto)
      moreover have "?o\<lparr>resume_phase := None\<rparr> = ?o" using None by (simp add: observe_response_def)
      ultimately have o: "stands None xs ?o" by simp
      have same: "fc_phase ?o = fc_phase s" "resume_phase ?o = None" "fc_events ?o = fc_events s" "fc_fan ?o = fc_fan s"
        "fc_floor_basis_points ?o = Some f" "sl_response_millis l \<le> fc_slowest_response_millis ?o"
        using None f(1) by (simp_all add: observe_response_def floor_known_def)
      have "wp (record_anchor i l) (advanced ?o (xs @ [step])) ?o"
        unfolding step by (rule record_anchor_ok [OF o]) (use same PhaseCaptureAnchor good [OF Some] in auto)
      moreover have "advanced ?o = advanced s"
        by (intro ext) (simp add: advanced_def failed_closed_def same cong: outcome.case_cong)
      ultimately show ?thesis using PhaseCaptureAnchor None Some nr
        by (simp add: wp_def record_settled_def require_stable_def try_io_def return_io_def)
    qed
  qed (use n None ph in \<open>auto simp: next_step_def is_level_step_def bind_ok_eq_Ok\<close>)
qed

text \<open>The checks before that leave the session alone or fail it.\<close>

definition checked ::
  "conservative_fan_calibration \<Rightarrow> ('a \<Rightarrow> bool) \<Rightarrow> (calibration_observation_error, 'a) outcome
     \<Rightarrow> conservative_fan_calibration \<Rightarrow> bool" where
  "checked s P r t \<longleftrightarrow> (case r of Ok x \<Rightarrow> t = s \<and> P x | Err _ \<Rightarrow> failed_closed s t | Panic \<Rightarrow> False)"

lemma checked_simps [simp]:
  "checked s P (Ok x) t \<longleftrightarrow> t = s \<and> P x" "checked s P (Err e) t \<longleftrightarrow> failed_closed s t"
  "checked s P Panic t \<longleftrightarrow> False"
  by (simp_all add: checked_def)

lemma checks_ok:
  assumes "fc_slowest_response_millis s \<le> maximum_calibration_response_millis"
  shows "wp (validate_chronology samples) (checked s (\<lambda>_. True)) s"
    "wp (validate_samples step samples) (checked s (\<lambda>_. True)) s"
    "wp (validate_readbacks step observation) (checked s (\<lambda>_. True)) s"
    "wp (settle observation) (checked s (\<lambda>x. \<forall>l. x = Some l \<longrightarrow> level_good l)) s"
proof -
  show c: "wp (validate_chronology samples) (checked s (\<lambda>_. True)) s" for samples
    by (simp add: wp_def validate_chronology_def cal_fail_def failed_closed_def assms)
  show v: "wp (validate_samples step samples) (checked s (\<lambda>_. True)) s" for step samples
    by (simp add: wp_def validate_samples_def cal_fail_def failed_closed_def assms)
  show "wp (validate_readbacks step observation) (checked s (\<lambda>_. True)) s"
  proof -
    have "wp (try_io (validate_chronology (lo_samples observation)) (\<lambda>_. validate_samples step (lo_samples observation)))
        (checked s (\<lambda>_. True)) s"
      by (rule wp_try [OF c]) (auto intro: v)
    then show ?thesis
      by (simp add: validate_readbacks_def wp_def cal_fail_def failed_closed_def assms)
  qed
  show "wp (settle observation) (checked s (\<lambda>x. \<forall>l. x = Some l \<longrightarrow> level_good l)) s"
    using settled_level_good [of observation] settled_level_no_panic [of observation]
    by (simp add: wp_def settle_def cal_fail_def failed_closed_def assms split: outcome.split)
qed


definition accepts ::
  "conservative_fan_calibration \<Rightarrow> (calibration_step \<Rightarrow> calibration_checkpoint_event)
     \<Rightarrow> (calibration_observation_error, unit) outcome \<Rightarrow> conservative_fan_calibration \<Rightarrow> bool" where
  "accepts s event r t \<longleftrightarrow>
     (case r of
        Panic \<Rightarrow> False
      | Err _ \<Rightarrow> failed_closed s t
      | Ok _ \<Rightarrow> session_ok t \<and> resume_phase t = None \<and> fc_phase t \<noteq> PhaseFailed \<and> fc_fan t = fc_fan s
          \<and> (\<exists>step. next_step s = Ok step \<and> step \<noteq> StepComplete \<and> event_step (event step) = step
                \<and> fc_events t = fc_events s @ [event step]))"

lemma protocol_steps_snoc:
  "event_step e = step \<Longrightarrow> protocol_steps (events @ [e])
     = (if is_revalidation_step step then protocol_steps events else protocol_steps events @ [step])"
  by (auto simp: protocol_steps_def)

lemma attach_checkpoint_ok:
  assumes "stands None xs t" "resume_phase t = None" "fc_phase t \<noteq> PhaseFailed" "protocol_steps (fc_events t) = xs"
  shows "wp attach_checkpoint (\<lambda>r u. r = Ok () \<and> session_ok u \<and> resume_phase u = None \<and> fc_phase u \<noteq> PhaseFailed
           \<and> fc_fan u = fc_fan t \<and> fc_events u = fc_events t) t"
proof (cases "fc_phase t = PhaseComplete")
  case True
  with assms(1) obtain sw f where f: "floor_known t f sw"
    "anchors_measured (canonical_calibration_anchor_duties f) (fc_anchors t)"
    "fc_evidence t = Some (evidence_of t f None)"
    "xs = sw @ transition_steps f all_attempts @ [hold_step f] @ anchor_steps (canonical_calibration_anchor_duties f)"
    "fc_slowest_response_millis t \<le> maximum_calibration_response_millis"
    by (auto simp: stands_def)
  let ?u = "t\<lparr>fc_evidence := Some (evidence_of t f (Some (checkpoint t)))\<rparr>"
  have e: "attach_checkpoint t = (Ok (), ?u)" using True f(3) by (simp add: attach_checkpoint_def evidence_of_def)
  have c: "checkpoint ?u = checkpoint t" "evidence_of ?u f x = evidence_of t f x" for x
    by (simp_all add: checkpoint_def evidence_of_def)
  have "floor_known ?u f sw" using f(1) by (simp add: floor_known_def swept_def)
  then have "stands (Some (checkpoint ?u)) xs ?u"
    unfolding stands_def c using f True by (auto simp: evidence_of_def)
  with e assms True show ?thesis by (simp add: wp_def session_ok_def resume_ok_def)
next
  case False
  have "stands (Some (checkpoint t)) xs t"
    using assms(1) False by (cases "fc_phase t") (simp_all add: stands_def)
  with False assms show ?thesis by (simp add: wp_def attach_checkpoint_def session_ok_def resume_ok_def)
qed

lemma stands_log:
  "stands saved xs s \<Longrightarrow> stands saved xs (s\<lparr>last_observed_monotonic_millis := l, fc_events := es\<rparr>)"
  by (cases "fc_phase s") (simp_all add: stands_def floor_known_def swept_def evidence_of_def)

lemma record_level_ok:
  assumes ok: "session_ok s"
  shows "wp (record_level obs) (accepts s (\<lambda>step. LevelEvent step obs)) s"
proof -
  have st: "stands (Some (checkpoint s)) (protocol_steps (fc_events s)) s" and rs: "resume_ok s"
    using ok by (simp_all add: session_ok_def)
  have b: "fc_slowest_response_millis s \<le> maximum_calibration_response_millis" using st by (simp add: stands_def)
  obtain step where n: "next_step s = Ok step" using next_step_no_panic [OF st] by auto
  have fl: "wp (cal_fail e) (accepts s ev) s" for e ev
    using b by (simp add: wp_def cal_fail_def accepts_def failed_closed_def)
  have rest: "wp (try_io (modify_io (\<lambda>self. self\<lparr>last_observed_monotonic_millis := l,
                   fc_events := fc_events self @ [LevelEvent step obs]\<rparr>)) (\<lambda>_. attach_checkpoint))
      (accepts s (\<lambda>step. LevelEvent step obs)) t"
    if a: "advanced s (if is_revalidation_step step then protocol_steps (fc_events s) else protocol_steps (fc_events s) @ [step])
        (Ok ()) t" and lv: "is_level_step step" for t l
  proof -
    let ?u = "t\<lparr>last_observed_monotonic_millis := l, fc_events := fc_events t @ [LevelEvent step obs]\<rparr>"
    have "stands None (protocol_steps (fc_events ?u)) ?u"
      using a stands_log protocol_steps_snoc [of "LevelEvent step obs" step "fc_events s"] by (auto simp: advanced_def)
    from attach_checkpoint_ok [OF this _ _ refl] a n lv show ?thesis
      by (auto simp: wp_def advanced_def accepts_def is_level_step_def)
  qed
  show ?thesis
  proof (cases "fc_phase s = PhaseFailed")
    case True
    with ok b have "failed_closed s s" by (auto simp: failed_closed_def session_ok_def resume_ok_def stands_def)
    with True show ?thesis by (simp add: wp_def record_level_def accepts_def)
  next
    case False
    have tail: "wp (try_io (settle obs) (\<lambda>settled. try_io (record_settled settled) (\<lambda>_. try_io (modify_io (\<lambda>self. self
        \<lparr>last_observed_monotonic_millis := l, fc_events := fc_events self @ [LevelEvent step obs]\<rparr>)) (\<lambda>_. attach_checkpoint))))
        (accepts s (\<lambda>step. LevelEvent step obs)) s" if lv: "is_level_step step" for l
      apply (rule wp_try [OF checks_ok(4) [OF b]])
        apply (simp_all add: accepts_def)
      apply (rule wp_try [OF record_settled_ok [OF st rs n lv False]])
      using rest lv by (auto simp: advanced_def accepts_def)
    show ?thesis
    proof (cases "is_level_step step")
      case nl: False
      then have "record_level obs s = cal_fail UnexpectedStep s"
        using False n by (simp add: record_level_def try_io_read)
      with fl show ?thesis by (simp add: wp_def)
    next
      case lv: True
      let ?l = "map_option cs_monotonic_millis (if lo_samples obs = [] then None else Some (last (lo_samples obs)))"
      have "wp (try_io (validate_readbacks step obs) (\<lambda>_.
              if list_ex speed_out_of_range (lo_samples obs)
                 \<or> list_all (\<lambda>sample. selected_rpm sample = None) (lo_samples obs)
              then cal_fail InvalidRpm
              else
                try_io (settle obs) (\<lambda>settled. try_io (record_settled settled) (\<lambda>_. try_io (modify_io (\<lambda>self. self
                  \<lparr>last_observed_monotonic_millis := ?l, fc_events := fc_events self @ [LevelEvent step obs]\<rparr>))
                  (\<lambda>_. attach_checkpoint))))) (accepts s (\<lambda>step. LevelEvent step obs)) s"
      proof (rule wp_try [OF checks_ok(3) [OF b]], goal_cases)
        case (1 x s')
        then show ?case using fl [of InvalidRpm] tail [OF lv, of ?l] by (simp only: checked_simps) (auto simp only: split: if_split)
      qed (simp_all add: accepts_def)
      then show ?thesis using False n lv by (simp add: record_level_def wp_def try_io_read)
    qed
  qed
qed


lemma stable_rpm_median_no_panic: "stable_rpm_median samples \<noteq> Panic"
  by (simp add: stable_rpm_median_def split: option.split)

lemma hold_recorded:
  assumes st: "stands saved xs s" "fc_phase s = PhaseHoldFloor" "fc_floor_basis_points s = Some f"
  shows "stands saved' (xs @ [hold_step f]) (s\<lparr>fc_phase := PhaseCaptureAnchor 0,
           last_observed_monotonic_millis := l, fc_events := es\<rparr>)"
proof -
  from st obtain sw where "floor_known s f sw" "xs = sw @ transition_steps f all_attempts"
    by (auto simp: stands_def floor_known_def)
  with st show ?thesis
    by (auto simp: stands_def floor_known_def swept_def anchors_measured_def anchor_steps_def)
qed

lemma record_hold_ok:
  assumes ok: "session_ok s"
  shows "wp (record_hold obs) (accepts s (\<lambda>step. HoldEvent step obs)) s"
proof -
  have st: "stands (Some (checkpoint s)) (protocol_steps (fc_events s)) s" and rs: "resume_ok s"
    using ok by (simp_all add: session_ok_def)
  have b: "fc_slowest_response_millis s \<le> maximum_calibration_response_millis" using st by (simp add: stands_def)
  have fl: "wp (cal_fail e) (accepts s ev) s" for e ev
    using b by (simp add: wp_def cal_fail_def accepts_def failed_closed_def)
  show ?thesis
  proof (cases "fc_phase s = PhaseFailed")
    case True
    with ok b have "failed_closed s s" by (auto simp: failed_closed_def session_ok_def resume_ok_def stands_def)
    with True show ?thesis by (simp add: wp_def record_hold_def accepts_def)
  next
    case nf: False
    show ?thesis
    proof (cases "resume_phase s \<noteq> None \<or> fc_phase s \<noteq> PhaseHoldFloor")
      case True
      with nf have "record_hold obs s = cal_fail UnexpectedStep s" by (simp add: record_hold_def)
      with fl show ?thesis by (simp add: wp_def)
    next
      case False
      then have p: "resume_phase s = None" "fc_phase s = PhaseHoldFloor" by auto
      from st p obtain f where f: "fc_floor_basis_points s = Some f" by (auto simp: stands_def floor_known_def)
      have n: "next_step s = Ok (hold_step f)" using p f by (simp add: next_step_def session_floor_def hold_step_def)
      have done_: "accepts s (\<lambda>step. HoldEvent step obs) (Ok ()) (s\<lparr>fc_phase := PhaseCaptureAnchor 0,
            last_observed_monotonic_millis := l, fc_events := fc_events s @ [HoldEvent (hold_step f) obs]\<rparr>)" for l
        using hold_recorded [OF st p(2) f] p n protocol_steps_snoc [of "HoldEvent (hold_step f) obs" "hold_step f" "fc_events s"]
        by (simp add: accepts_def session_ok_def resume_ok_def hold_step_def is_revalidation_step_def)
      let ?m = "case stable_rpm_median (ho_samples obs) of
                   Panic \<Rightarrow> return_io Panic
                 | Err error \<Rightarrow> cal_fail error
                 | Ok None \<Rightarrow> cal_fail IncompleteHold
                 | Ok (Some _) \<Rightarrow>
                     modify_io (\<lambda>self. self
                       \<lparr>fc_phase := PhaseCaptureAnchor 0,
                        last_observed_monotonic_millis :=
                          map_option cs_monotonic_millis
                            (if ho_samples obs = [] then None else Some (last (ho_samples obs))),
                        fc_events := fc_events self @ [HoldEvent (hold_step f) obs]\<rparr>)"
      have m: "wp ?m (accepts s (\<lambda>step. HoldEvent step obs)) s"
        using fl done_ stable_rpm_median_no_panic [of "ho_samples obs"]
        by (auto simp: wp_modify_io split: outcome.split option.split)
      have v: "wp (try_io (validate_samples (hold_step f) (ho_samples obs)) (\<lambda>_.
            if \<not> hold_is_complete (ho_samples obs) then cal_fail IncompleteHold else ?m))
          (accepts s (\<lambda>step. HoldEvent step obs)) s"
      proof (rule wp_try [OF checks_ok(2) [OF b]], goal_cases)
        case 1
        then show ?case using fl [of IncompleteHold] m by (simp only: checked_simps) (simp only: simp_thms split: if_split)
      qed (simp_all add: accepts_def)
      have "wp (try_io (validate_chronology (ho_samples obs)) (\<lambda>_. try_io (validate_samples (hold_step f) (ho_samples obs)) (\<lambda>_.
            if \<not> hold_is_complete (ho_samples obs) then cal_fail IncompleteHold else ?m)))
          (accepts s (\<lambda>step. HoldEvent step obs)) s"
      proof (rule wp_try [OF checks_ok(1) [OF b]], goal_cases)
        case 1
        then show ?case using v by (simp only: checked_simps)
      qed (simp_all add: accepts_def)
      with nf False n fl show ?thesis by (simp add: record_hold_def wp_def try_io_read)
    qed
  qed
qed

section \<open>Reachable sessions\<close>

text \<open>
  A session starts fresh or from any checkpoint that \<open>resume\<close> accepts, and then records observations;
  what an observation holds is arbitrary.
\<close>

inductive reachable_session :: "conservative_fan_calibration \<Rightarrow> bool" where
  fresh: "reachable_session (calibration_start fan)"
| resumed: "calibration_resume fan saved = Ok s \<Longrightarrow> reachable_session s"
| level: "reachable_session s \<Longrightarrow> record_level observation s = (r, t) \<Longrightarrow> reachable_session t"
| hold: "reachable_session s \<Longrightarrow> record_hold hold_observation s = (r, t) \<Longrightarrow> reachable_session t"

text \<open>The log of a session replays to it.\<close>

definition replays :: "conservative_fan_calibration \<Rightarrow> bool" where
  "replays s \<longleftrightarrow>
     (fc_phase s \<noteq> PhaseFailed \<longrightarrow>
        replay (fc_events s) (calibration_start (fc_fan s)) = Ok (s\<lparr>resume_phase := None\<rparr>))"

lemma replay_append: "replay (es @ es') s = bind_ok (replay es s) (replay es')"
  by (induction es arbitrary: s) (auto simp: bind_ok_def split: outcome.splits)

lemma session_ok_start: "session_ok (calibration_start fan)"
  by (simp add: session_ok_def resume_ok_def stands_def calibration_start_def protocol_steps_def sweep_steps_def
      maximum_calibration_response_millis_def)

lemma session_ok_resume:
  "session_ok s \<Longrightarrow> resume_phase s = None \<Longrightarrow> fc_phase s \<noteq> PhaseComplete \<Longrightarrow> fc_phase s \<noteq> PhaseFailed
     \<Longrightarrow> session_ok (s\<lparr>resume_phase := Some (fc_phase s)\<rparr>)"
  by (cases "fc_phase s")
    (simp_all add: session_ok_def resume_ok_def stands_def floor_known_def swept_def checkpoint_def)

text \<open>Replaying an event accepts it.\<close>

lemma replay_event_accepts:
  assumes "session_ok s" "resume_phase s = None" "fc_phase s \<noteq> PhaseFailed"
  shows "case replay_event e s of
           Panic \<Rightarrow> False
         | Err _ \<Rightarrow> True
         | Ok t \<Rightarrow> session_ok t \<and> resume_phase t = None \<and> fc_phase t \<noteq> PhaseFailed \<and> fc_fan t = fc_fan s
                  \<and> fc_events t = fc_events s @ [e]"
proof (cases "fc_phase s = PhaseComplete")
  case True
  then show ?thesis by (simp add: replay_event_def)
next
  case False
  obtain u where u: "u = (if is_revalidation e then s\<lparr>resume_phase := Some (fc_phase s)\<rparr> else s)" by simp
  then have same: "fc_fan u = fc_fan s" "fc_events u = fc_events s" by simp_all
  have ok: "session_ok u" using session_ok_resume [OF assms(1,2) False assms(3)] assms(1) u by simp
  obtain pending where n: "next_step u = Ok pending"
    using next_step_no_panic ok unfolding session_ok_def by blast
  note l = record_level_ok [OF ok, unfolded wp_def] and h = record_hold_ok [OF ok, unfolded wp_def]
  have "case (if pending = step then recorded (record_level obs u) else Err InvalidCheckpoint) of
           Panic \<Rightarrow> False
         | Err _ \<Rightarrow> True
         | Ok t \<Rightarrow> session_ok t \<and> resume_phase t = None \<and> fc_phase t \<noteq> PhaseFailed \<and> fc_fan t = fc_fan s
                  \<and> fc_events t = fc_events s @ [LevelEvent step obs]" for step obs
    using l [of obs] n same by (auto simp: recorded_def accepts_def split: outcome.splits prod.splits)
  moreover have "case (if pending = step then recorded (record_hold obs u) else Err InvalidCheckpoint) of
           Panic \<Rightarrow> False
         | Err _ \<Rightarrow> True
         | Ok t \<Rightarrow> session_ok t \<and> resume_phase t = None \<and> fc_phase t \<noteq> PhaseFailed \<and> fc_fan t = fc_fan s
                  \<and> fc_events t = fc_events s @ [HoldEvent step obs]" for step obs
    using h [of obs] n same by (auto simp: recorded_def accepts_def split: outcome.splits prod.splits)
  moreover have "replay_event e s =
      (case e of
         LevelEvent step obs \<Rightarrow> if pending = step then recorded (record_level obs u) else Err InvalidCheckpoint
       | HoldEvent step obs \<Rightarrow> if pending = step then recorded (record_hold obs u) else Err InvalidCheckpoint)"
  proof -
    have u': "(if is_revalidation e \<and> resume_phase s = None
        then s\<lparr>resume_phase := Some (fc_phase s)\<rparr> else s) = u"
      using u assms(2) by simp
    show ?thesis unfolding replay_event_def u' Let_def using False n by simp
  qed
  ultimately show ?thesis by (cases e) (simp_all only: calibration_checkpoint_event.case)
qed


lemma replay_accepts:
  assumes "replay es s = Ok t" "session_ok s" "resume_phase s = None" "fc_phase s \<noteq> PhaseFailed"
  shows "session_ok t \<and> resume_phase t = None \<and> fc_phase t \<noteq> PhaseFailed \<and> fc_fan t = fc_fan s
           \<and> fc_events t = fc_events s @ es"
  using assms
proof (induction es arbitrary: s)
  case (Cons e es)
  then obtain u where u: "replay_event e s = Ok u" "replay es u = Ok t" by (auto simp: bind_ok_eq_Ok)
  with replay_event_accepts [OF Cons.prems(2-4), of e] Cons.IH [OF u(2)] show ?case by auto
qed simp

lemma replay_no_panic:
  assumes "session_ok s" "resume_phase s = None" "fc_phase s \<noteq> PhaseFailed"
  shows "replay es s \<noteq> Panic"
  using assms
proof (induction es arbitrary: s)
  case (Cons e es)
  with replay_event_accepts [OF Cons.prems, of e] show ?case
    by (auto simp: bind_ok_eq_Panic split: outcome.splits)
qed simp

lemma replay_recorded:
  assumes ok: "session_ok s" and n: "next_step s = Ok step" "step \<noteq> StepComplete"
    and e: "e = LevelEvent step obs \<and> record_level obs s = (Ok (), t)
            \<or> e = HoldEvent step hobs \<and> record_hold hobs s = (Ok (), t) \<and> resume_phase s = None"
  shows "replay_event e (s\<lparr>resume_phase := None\<rparr>) = Ok t"
proof -
  have ph: "fc_phase s \<noteq> PhaseComplete"
    using ok n by (auto simp: session_ok_def resume_ok_def next_step_def split: if_splits)
  have s: "(if is_revalidation e \<and> resume_phase (s\<lparr>resume_phase := None\<rparr>) = None
      then (s\<lparr>resume_phase := None\<rparr>)\<lparr>resume_phase := Some (fc_phase (s\<lparr>resume_phase := None\<rparr>))\<rparr>
      else s\<lparr>resume_phase := None\<rparr>) = s"
  proof (cases "resume_phase s")
    case None
    then have "\<not> is_revalidation e"
      using n e by (auto simp: next_step_def is_revalidation_def bind_ok_eq_Ok split: calibration_phase.splits)
    with None show ?thesis by simp
  next
    case (Some p)
    with ok have "p = fc_phase s" by (simp add: session_ok_def resume_ok_def)
    moreover have "is_revalidation e" using n e Some by (auto simp: next_step_def is_revalidation_def)
    ultimately show ?thesis using Some by simp
  qed
  show ?thesis
    unfolding replay_event_def s Let_def using ph n e by (auto simp: recorded_def)
qed

lemma failed_session_ok: "failed_closed s t \<Longrightarrow> session_ok t \<and> replays t"
  by (simp add: failed_closed_def session_ok_def resume_ok_def stands_def replays_def)

lemma recorded_replays:
  assumes ok: "session_ok s" "replays s" and e: "\<And>step. event_step (ev step) = step"
    and op: "(\<forall>step. ev step = LevelEvent step obs) \<and> record_level obs s = (r, t)
            \<or> (\<forall>step. ev step = HoldEvent step hobs) \<and> record_hold hobs s = (r, t)"
  shows "session_ok t \<and> replays t"
proof -
  have a: "accepts s ev r t"
  proof -
    have "ev = (\<lambda>step. LevelEvent step obs) \<and> record_level obs s = (r, t)
        \<or> ev = (\<lambda>step. HoldEvent step hobs) \<and> record_hold hobs s = (r, t)"
      using op by (auto simp: fun_eq_iff)
    then show ?thesis
      using record_level_ok [OF ok(1), of obs] record_hold_ok [OF ok(1), of hobs] by (auto simp: wp_def)
  qed
  show ?thesis
  proof (cases r)
    case (Ok x)
    with a obtain step where t: "session_ok t" "resume_phase t = None" "fc_fan t = fc_fan s"
      "next_step s = Ok step" "step \<noteq> StepComplete" "fc_events t = fc_events s @ [ev step]"
      by (auto simp: accepts_def)
    have h: "resume_phase s = None" "fc_phase s \<noteq> PhaseFailed" if "record_hold hobs s = (Ok (), t)"
      using that by (auto simp: record_hold_def cal_fail_def split: if_splits)
    have l: "fc_phase s \<noteq> PhaseFailed" if "record_level obs s = (Ok (), t)"
      using that by (auto simp: record_level_def split: if_splits)
    have "replay_event (ev step) (s\<lparr>resume_phase := None\<rparr>) = Ok t"
      by (rule replay_recorded [OF ok(1) t(4,5)]) (use op Ok h in auto)
    moreover have "fc_phase s \<noteq> PhaseFailed" using op Ok h l by auto
    ultimately have "replay (fc_events t) (calibration_start (fc_fan t)) = Ok t"
      using ok(2) t(3,6) by (simp add: replay_append replays_def)
    with t show ?thesis by (simp add: replays_def)
  next
    case (Err e)
    with a failed_session_ok show ?thesis by (auto simp: accepts_def)
  qed (use a in \<open>simp add: accepts_def\<close>)
qed

lemma session_reachable_ok: "reachable_session s \<Longrightarrow> session_ok s \<and> replays s"
proof (induction rule: reachable_session.induct)
  case (fresh fan)
  show ?case by (simp add: session_ok_start) (simp add: replays_def calibration_start_def)
next
  case (resumed fan saved s)
  then have "bind_ok (replay (cc_events saved) (calibration_start fan)) (\<lambda>session.
      Ok (if fc_phase session \<noteq> PhaseComplete then session\<lparr>resume_phase := Some (fc_phase session)\<rparr> else session)) = Ok s"
    by (simp add: calibration_resume_def split: if_split_asm)
  then obtain u where u: "replay (cc_events saved) (calibration_start fan) = Ok u"
    "s = (if fc_phase u \<noteq> PhaseComplete then u\<lparr>resume_phase := Some (fc_phase u)\<rparr> else u)"
    by (simp only: bind_ok_eq_Ok outcome.inject) blast
  have a: "session_ok u" "resume_phase u = None" "fc_phase u \<noteq> PhaseFailed" "fc_fan u = fan" "fc_events u = cc_events saved"
    using replay_accepts [OF u(1) session_ok_start] by (simp_all add: calibration_start_def)
  then have "session_ok s" unfolding u(2) using session_ok_resume [OF a(1,2)] by simp
  moreover have "replays s" using u a by (auto simp: replays_def)
  ultimately show ?case by simp
next
  case (level s obs r t)
  then show ?case using recorded_replays [of s "\<lambda>step. LevelEvent step obs" obs r t] by simp
next
  case (hold s obs r t)
  then show ?case using recorded_replays [of s "\<lambda>step. HoldEvent step obs" _ r t obs] by simp
qed

end
