(* ===== verification/Calibration_Progress.thy ===== *)
theory Calibration_Progress
  imports Calibration_Contract
begin

text \<open>
  That a calibration can be finished: from every reachable session that has not failed, observations of
  a fan at a steady speed lead to a complete one, and the properties of the calibration.
\<close>

section \<open>A steady fan\<close>

definition steady_sample :: "u8 \<Rightarrow> u64 \<Rightarrow> calibration_readback_sample" where
  "steady_sample pwm start =
     \<lparr>cs_monotonic_millis = start, selected_enable_readback = cal_custom_control, selected_pwm_readback = pwm,
      other_enable_readback = cal_custom_control, other_pwm_readback = - 1, selected_rpm = Some maximum_plausible_rpm\<rparr>"

definition steady_level :: "u64 \<Rightarrow> u8 \<Rightarrow> calibration_level_observation" where
  "steady_level start pwm =
     \<lparr>commanded_at_monotonic_millis = start, lo_samples = map (steady_sample pwm) [start, start + 1000, start + 2000],
      lo_stall_observed = False, lo_unexplained_rpm_collapse_observed = False\<rparr>"

definition steady_hold :: "u64 \<Rightarrow> u8 \<Rightarrow> fan_hold_observation" where
  "steady_hold start pwm =
     \<lparr>ho_samples = map (\<lambda>i. steady_sample pwm (start + 2000 * of_nat i)) [0..<451],
      ho_stall_observed = False, ho_unexplained_rpm_collapse_observed = False\<rparr>"

lemma offset_sub:
  fixes t :: u64
  assumes "unat t + unat b < 2 ^ 64" "a \<le> b"
  shows "t + a \<le> t + b" "word_checked_sub (t + b) (t + a) = Some (b - a)"
    "word_saturating_sub (t + b) (t + a) = b - a"
proof -
  have "unat a \<le> unat b" using assms(2) by (simp add: word_le_nat_alt)
  with assms show le: "t + a \<le> t + b" by (simp add: word_le_nat_alt unat_word_ariths)
  then show "word_checked_sub (t + b) (t + a) = Some (b - a)" "word_saturating_sub (t + b) (t + a) = b - a"
    by (simp_all add: word_checked_sub_def word_saturating_sub_def)
qed

lemma steady_windows:
  assumes "unat t + 2000 < 2 ^ 64"
  shows "windows2 (lo_samples (steady_level t p)) =
      [(steady_sample p (t + 0), steady_sample p (t + 1000)), (steady_sample p (t + 1000), steady_sample p (t + 2000))]"
  by (simp add: steady_level_def)

lemma steady_settled:
  assumes "unat t + 2000 < 2 ^ 64"
  shows "settled_level_of (steady_level t p) =
      Ok (Some \<lparr>sl_median_rpm = maximum_plausible_rpm, sl_response_millis = 2000\<rparr>)"
proof -
  have o: "word_checked_sub (t + b) (t + a) = Some (b - a)" "word_saturating_sub (t + b) (t + a) = b - a"
    if "a \<le> b" "b \<le> 2000" for a b
  proof -
    have "unat t + unat b < 2 ^ 64"
      using that(2) assms by (simp add: word_le_nat_alt)
    from offset_sub [OF this that(1)]
    show "word_checked_sub (t + b) (t + a) = Some (b - a)" "word_saturating_sub (t + b) (t + a) = b - a" by simp_all
  qed
  have w: "word_saturating_sub (t + 1000) t = 1000" "word_saturating_sub (t + 2000) (t + 1000) = 1000"
    "word_checked_sub (t + 2000) t = Some 2000"
    using o [of 0 1000] o [of 1000 2000] o [of 0 2000] by simp_all
  have m: "stable_rpm_median_values [maximum_plausible_rpm, maximum_plausible_rpm, maximum_plausible_rpm] = Some maximum_plausible_rpm"
    by (simp add: stable_rpm_median_values_def minimum_settled_samples_def median_def word_saturating_sub_def
        settled_sample_tolerance_percent_def Let_def max_def)
  show ?thesis
    by (simp add: settled_level_of_def steady_level_def steady_sample_def speed_out_of_range_def plausible_speed_def
        maximum_plausible_rpm_def minimum_plausible_rpm_def w settled_samples_unspaced_def sample_duration_def
        minimum_settled_response_millis_def maximum_calibration_response_millis_def minimum_settled_samples_def
        minimum_settled_sample_span_millis_def minimum_settled_sample_gap_millis_def
        m [unfolded maximum_plausible_rpm_def])
qed

lemma steady_continuous:
  assumes "unat t + 2000 < 2 ^ 64"
  shows "timestamps_are_continuous (lo_samples (steady_level t p))"
proof -
  have "unat t + unat (1000 :: u64) < 2 ^ 64" "unat t + unat (2000 :: u64) < 2 ^ 64" using assms by simp_all
  from offset_sub [OF this(1), of 0] offset_sub [OF this(2), of 1000]
  show ?thesis
    by (simp add: timestamps_are_continuous_def steady_level_def steady_sample_def maximum_hold_sample_gap_millis_def)
qed


lemma map_windows2: "windows2 (map f [0..<Suc n]) = map (\<lambda>i. (f i, f (Suc i))) [0..<n]"
proof (induction n)
  case (Suc n)
  have "windows2 (map f [0..<Suc (Suc n)]) = windows2 (map f [0..<Suc n] @ [f (Suc n)])" by simp
  also have "\<dots> = windows2 (map f [0..<Suc n]) @ [(last (map f [0..<Suc n]), f (Suc n))]"
    by (rule windows2_append) simp
  finally show ?case using Suc by simp
qed simp

lemma hold_samples:
  assumes "unat t + 900000 < 2 ^ 64"
  shows "hold_is_complete (ho_samples (steady_hold t p))"
proof -
  have step: "word_checked_sub (t + 2000 * of_nat (Suc i)) (t + 2000 * of_nat i) = Some 2000" if "i < 450" for i
  proof -
    have b: "unat (2000 * of_nat (Suc i) :: u64) = 2000 * Suc i"
      using that by (simp add: unat_word_ariths unat_of_nat)
    have a: "unat (2000 * of_nat i :: u64) = 2000 * i"
      using that by (simp add: unat_word_ariths unat_of_nat)
    have u: "unat t + unat (2000 * of_nat (Suc i) :: u64) < 2 ^ 64" using assms that unfolding b by simp
    have le: "(2000 * of_nat i :: u64) \<le> 2000 * of_nat (Suc i)" unfolding word_le_nat_alt a b by simp
    have "2000 * of_nat (Suc i) - 2000 * of_nat i = (2000 :: u64)" by (simp add: algebra_simps)
    with offset_sub(2) [OF u le] show ?thesis by simp
  qed
  have w: "windows2 (ho_samples (steady_hold t p)) = map (\<lambda>i. (steady_sample p (t + 2000 * of_nat i),
      steady_sample p (t + 2000 * of_nat (Suc i)))) [0..<450]"
    using map_windows2 [of "\<lambda>i. steady_sample p (t + 2000 * of_nat i)" 450]
    by (simp only: steady_hold_def fan_hold_observation.select_convs) simp
  have c: "timestamps_are_continuous (ho_samples (steady_hold t p))"
    unfolding timestamps_are_continuous_def w
    by (auto simp: list_all_iff steady_sample_def step maximum_hold_sample_gap_millis_def simp del: of_nat_Suc)
      (simp add: steady_hold_def)
  have l: "last (ho_samples (steady_hold t p)) = steady_sample p (t + 900000)"
    by (simp add: steady_hold_def last_map)
  have h: "hd (ho_samples (steady_hold t p)) = steady_sample p (t + 0)"
    by (simp add: steady_hold_def hd_map)
  have "unat t + unat (900000 :: u64) < 2 ^ 64" using assms by simp
  then have "sample_duration (ho_samples (steady_hold t p)) = Some 900000"
    using offset_sub(2) [of t 900000 0]
    by (simp add: sample_duration_def l h) (simp add: steady_sample_def steady_hold_def)
  with c show ?thesis
    by (simp add: hold_is_complete_def required_floor_hold_millis_def minimum_hold_samples_def
        maximum_hold_sample_gap_millis_def word_div_ceil_def steady_hold_def)
qed

lemma those_replicate: "those (replicate n (Some x)) = Some (replicate n x)"
  by (induction n) auto

lemma hold_median: "stable_rpm_median (ho_samples (steady_hold t p)) = Ok (Some maximum_plausible_rpm)"
proof -
  have m: "map selected_rpm (ho_samples (steady_hold t p)) = replicate 451 (Some maximum_plausible_rpm)"
    by (simp add: steady_hold_def steady_sample_def map_replicate_const comp_def)
  have "median (replicate 451 maximum_plausible_rpm) = maximum_plausible_rpm"
    using median_in [of "replicate 451 maximum_plausible_rpm"] by simp
  then show ?thesis
    unfolding stable_rpm_median_def m those_replicate
    by (simp add: list_ex_iff plausible_speed_def minimum_plausible_rpm_def maximum_plausible_rpm_def
        stable_rpm_median_values_def minimum_settled_samples_def Let_def word_saturating_sub_def max_def
        settled_sample_tolerance_percent_def)
qed


section \<open>Steady observations are accepted\<close>

definition steady_response :: settled_level where
  "steady_response = \<lparr>sl_median_rpm = maximum_plausible_rpm, sl_response_millis = 2000\<rparr>"

lemma steady_response_good: "level_good steady_response"
  by (simp add: level_good_def steady_response_def plausible_speed_def minimum_plausible_rpm_def maximum_plausible_rpm_def
      minimum_settled_response_millis_def maximum_calibration_response_millis_def)

lemma sweep_steady:
  assumes st: "stands saved xs s" "fc_phase s = PhaseSweep i"
  shows "\<exists>u. record_sweep i (Some steady_response) s = (Ok (), u)"
proof -
  have i: "i < 5" "stable_sweep_levels s = take i coarse_sweep_basis_points" using st by (auto simp: stands_def)
  let ?t = "(observe_response 2000 s)\<lparr>stable_sweep_levels := coarse_sweep_basis_points\<rparr>"
  have c: "\<exists>u. close_sweep ?t = (Ok (), u)"
    by (simp add: close_sweep_def lowest_stable_basis_points_def coarse_sweep_basis_points_def word_checked_add_def
        conservative_margin_basis_points_def cal_maximum_duty_basis_points_def)
  show ?thesis
  proof (cases "i = 4")
    case True
    have "take 4 coarse_sweep_basis_points @ [coarse_sweep_basis_points ! 4] = coarse_sweep_basis_points"
      by (simp add: coarse_sweep_basis_points_def)
    with True i c show ?thesis
      by (simp add: record_sweep_def steady_response_def index_ok_def observe_response_def)
        (simp add: coarse_sweep_basis_points_def)
  next
    case False
    with i have "i + 1 < length coarse_sweep_basis_points" by (simp add: coarse_sweep_basis_points_def)
    then show ?thesis by (simp add: record_sweep_def steady_response_def index_ok_def Let_def)
  qed
qed

lemma anchor_steady:
  assumes st: "stands saved xs s" "fc_phase s = PhaseCaptureAnchor i"
  shows "\<exists>u. record_anchor i steady_response s = (Ok (), u)"
proof -
  from st obtain f sw where f: "floor_known s f sw" "i < 4"
    "anchors_measured (take i (canonical_calibration_anchor_duties f)) (fc_anchors s)"
    by (auto simp: stands_def)
  have "fc_anchors s \<noteq> [] \<Longrightarrow> rae_median_rpm (last (fc_anchors s)) \<le> maximum_plausible_rpm"
    using f(3) last_in_set [of "fc_anchors s"] unfolding anchors_measured_def plausible_speed_def by blast
  then have "\<not> (case fc_anchors s of [] \<Rightarrow> False
      | a # as \<Rightarrow> sl_median_rpm steady_response < rae_median_rpm (last (a # as)))"
    by (cases "fc_anchors s") (auto simp: steady_response_def)
  with f duties_known [OF f(1)] show ?thesis
    by (simp add: record_anchor_def try_io_read anchor_duties_def session_floor_def floor_known_def index_ok_def
        complete_def Let_def)
qed

lemma settled_steady:
  assumes st: "stands saved xs s" "resume_ok s" and ph: "fc_phase s \<noteq> PhaseFailed" "fc_phase s \<noteq> PhaseComplete"
    and h: "resume_phase s \<noteq> None \<or> fc_phase s \<noteq> PhaseHoldFloor"
  shows "\<exists>u. record_settled (Some steady_response) s = (Ok (), u)"
proof (cases "resume_phase s")
  case (Some p)
  then show ?thesis by (simp add: record_settled_def require_stable_def)
next
  case None
  show ?thesis
  proof (cases "fc_phase s")
    case (PhaseSweep i)
    with sweep_steady [OF st(1) PhaseSweep] None show ?thesis by (simp add: record_settled_def)
  next
    case (PhaseCaptureAnchor i)
    have o: "(observe_response (sl_response_millis steady_response) s)\<lparr>resume_phase := None\<rparr>
        = observe_response (sl_response_millis steady_response) s"
      using None by (simp add: observe_response_def)
    have "stands None xs (observe_response (sl_response_millis steady_response) s)"
      using observe_stands [OF st(1) _ steady_response_good, of None None] PhaseCaptureAnchor unfolding o by simp
    from anchor_steady [OF this] PhaseCaptureAnchor None show ?thesis
      by (simp add: record_settled_def require_stable_def) (simp add: observe_response_def)
  qed (use None h ph in \<open>auto simp: record_settled_def require_stable_def\<close>)
qed

text \<open>When the next observation may start.\<close>

definition due :: "conservative_fan_calibration \<Rightarrow> u64 \<Rightarrow> bool" where
  "due s t \<longleftrightarrow> resume_phase s \<noteq> None
     \<or> (case last_observed_monotonic_millis s of None \<Rightarrow> True
        | Some l \<Rightarrow> l < t \<and> t - l \<le> maximum_protocol_verification_gap_millis)"

lemma chronology_due: "due s t \<Longrightarrow> samples \<noteq> [] \<Longrightarrow> cs_monotonic_millis (hd samples) = t
     \<Longrightarrow> validate_chronology samples s = (Ok (), s)"
  by (cases samples) (auto simp: due_def validate_chronology_def not_le not_less split: option.splits)

lemma attach_keeps_clock: "attach_checkpoint s = (r, u) \<Longrightarrow> last_observed_monotonic_millis u = last_observed_monotonic_millis s"
  by (auto simp: attach_checkpoint_def split: if_splits option.splits)

lemma steady_level_accepted:
  assumes ok: "session_ok s" and ph: "fc_phase s \<noteq> PhaseFailed" "fc_phase s \<noteq> PhaseComplete"
    and h: "resume_phase s \<noteq> None \<or> fc_phase s \<noteq> PhaseHoldFloor"
    and t: "due s t" "unat t + 2000 < 2 ^ 64"
  shows "\<exists>p u. record_level (steady_level t p) s = (Ok (), u) \<and> last_observed_monotonic_millis u = Some (t + 2000)"
proof -
  have st: "stands (Some (checkpoint s)) (protocol_steps (fc_events s)) s" "resume_ok s"
    using ok by (simp_all add: session_ok_def)
  obtain step where n: "next_step s = Ok step" using next_step_no_panic [OF st(1)] by auto
  have lv: "is_level_step step"
    using n ph h by (auto simp: next_step_def is_level_step_def bind_ok_eq_Ok split: if_splits calibration_phase.splits)
  then obtain p where p: "step_pwm_value step = Some p" by (cases step) (auto simp: is_level_step_def)
  let ?o = "steady_level t p"
  have o: "lo_samples ?o = map (steady_sample p) [t, t + 1000, t + 2000]" "commanded_at_monotonic_millis ?o = t"
    by (simp_all add: steady_level_def)
  have v: "validate_readbacks step ?o s = (Ok (), s)"
    using steady_continuous [OF t(2), of p] chronology_due [OF t(1), of "lo_samples ?o"] p
    by (simp add: validate_readbacks_def try_io_def o) (simp add: validate_samples_def steady_sample_def)
  have r: "\<not> (list_ex speed_out_of_range (lo_samples ?o) \<or> list_all (\<lambda>sample. selected_rpm sample = None) (lo_samples ?o))"
    by (simp add: o steady_sample_def speed_out_of_range_def plausible_speed_def maximum_plausible_rpm_def minimum_plausible_rpm_def)
  have g: "settle ?o s = (Ok (Some steady_response), s)"
    using steady_settled [OF t(2), of p] by (simp add: settle_def steady_response_def) (simp add: steady_level_def)
  obtain u where u: "record_settled (Some steady_response) s = (Ok (), u)" using settled_steady [OF st ph h] by blast
  let ?l = "map_option cs_monotonic_millis (if lo_samples ?o = [] then None else Some (last (lo_samples ?o)))"
  let ?u = "u\<lparr>last_observed_monotonic_millis := ?l, fc_events := fc_events u @ [LevelEvent step ?o]\<rparr>"
  have e: "record_level ?o s = attach_checkpoint ?u"
    using ph n lv v r g u unfolding record_level_def try_io_read by (simp add: try_io_def modify_io_def)
  have "wp (record_level ?o) (accepts s (\<lambda>step. LevelEvent step ?o)) s" by (rule record_level_ok [OF ok])
  moreover have "\<not> (\<exists>x u'. attach_checkpoint ?u = (Err x, u'))"
    by (auto simp: attach_checkpoint_def split: option.splits)
  ultimately obtain u' where a: "attach_checkpoint ?u = (Ok (), u')"
    unfolding wp_def e by (cases "attach_checkpoint ?u"; cases "fst (attach_checkpoint ?u)") (auto simp: accepts_def)
  have "last_observed_monotonic_millis u' = Some (t + 2000)"
    using attach_keeps_clock [OF a] by (simp add: o steady_sample_def)
  with e a show ?thesis by metis
qed

lemma steady_hold_accepted:
  assumes ok: "session_ok s" and ph: "fc_phase s = PhaseHoldFloor" "resume_phase s = None"
    and t: "due s t" "unat t + 900000 < 2 ^ 64"
  shows "\<exists>p u. record_hold (steady_hold t p) s = (Ok (), u) \<and> last_observed_monotonic_millis u = Some (t + 900000)"
proof -
  have st: "stands (Some (checkpoint s)) (protocol_steps (fc_events s)) s" using ok by (simp add: session_ok_def)
  with ph obtain f where f: "fc_floor_basis_points s = Some f" by (auto simp: stands_def floor_known_def)
  have n: "next_step s = Ok (hold_step f)" using ph f by (simp add: next_step_def session_floor_def hold_step_def)
  let ?p = "basis_points_to_pwm f"
  let ?o = "steady_hold t ?p"
  have ne: "ho_samples ?o \<noteq> []" "cs_monotonic_millis (hd (ho_samples ?o)) = t"
    "last (ho_samples ?o) = steady_sample ?p (t + 900000)"
    by (simp_all add: steady_hold_def steady_sample_def hd_map last_map)
  have c: "validate_chronology (ho_samples ?o) s = (Ok (), s)" by (rule chronology_due [OF t(1) ne(1,2)])
  have v: "validate_samples (hold_step f) (ho_samples ?o) s = (Ok (), s)"
    by (auto simp: validate_samples_def list_ex_iff steady_hold_def steady_sample_def hold_step_def)
  have q: "\<not> ho_stall_observed ?o" "\<not> ho_unexplained_rpm_collapse_observed ?o" by (simp_all add: steady_hold_def)
  have "\<exists>u. record_hold ?o s = (Ok (), u) \<and> last_observed_monotonic_millis u = Some (t + 900000)"
    using ph n q c v hold_samples [OF t(2), of ?p] hold_median [of t ?p] ne
    unfolding record_hold_def try_io_read
    by (simp add: try_io_def modify_io_def) (simp add: steady_sample_def)
  then show ?thesis by blast
qed


section \<open>Finishing\<close>

text \<open>The sessions that accepted observations lead to.\<close>

inductive records_to :: "conservative_fan_calibration \<Rightarrow> conservative_fan_calibration \<Rightarrow> bool" where
  stay: "records_to s s"
| level: "record_level observation s = (Ok (), t) \<Longrightarrow> records_to t u \<Longrightarrow> records_to s u"
| hold: "record_hold hold_observation s = (Ok (), t) \<Longrightarrow> records_to t u \<Longrightarrow> records_to s u"

lemma records_reachable: "records_to s u \<Longrightarrow> reachable_session s \<Longrightarrow> reachable_session u"
  by (induction rule: records_to.induct) (auto intro: reachable_session.level reachable_session.hold)

lemma transition_steps_length: "length (transition_steps f as) = 2 * length as"
  by (induction as) (auto simp: transition_steps_def)

lemma swept_length: "swept s f sw \<Longrightarrow> length sw \<le> 5"
  by (auto simp: swept_def sweep_steps_def)

lemma protocol_bound:
  assumes "stands saved xs s" "fc_phase s \<noteq> PhaseFailed"
  shows "length xs \<le> 20" "fc_phase s \<noteq> PhaseComplete \<Longrightarrow> length xs < 20"
proof -
  have k: "length sw \<le> 5" "length (canonical_calibration_anchor_duties f) = 4" if "floor_known s f sw" for f sw
    using that swept_length duties_known [OF that] by (auto simp: floor_known_def)
  have w: "length (takeWhile (\<lambda>k. k \<noteq> a) all_attempts) \<le> 4" if "a \<in> set all_attempts" for a
    using that by auto
  have b: "length xs \<le> 20 \<and> (fc_phase s \<noteq> PhaseComplete \<longrightarrow> length xs < 20)"
  proof (cases "fc_phase s")
    case (PhaseSweep i)
    with assms(1) show ?thesis by (auto simp: stands_def sweep_steps_def)
  next
    case (PhaseToMaximum a)
    with assms(1) obtain f sw where "a \<in> set all_attempts" "floor_known s f sw"
      "xs = sw @ transition_steps f (takeWhile (\<lambda>k. k \<noteq> a) all_attempts)"
      unfolding stands_def by auto
    with k(1) [of f sw] w [of a] PhaseToMaximum show ?thesis
      by (simp add: transition_steps_length del: takeWhile.simps set_simps)
  next
    case (PhaseToFloor a)
    with assms(1) obtain f sw where "a \<in> set all_attempts" "floor_known s f sw"
      "xs = sw @ transition_steps f (takeWhile (\<lambda>k. k \<noteq> a) all_attempts) @ [ToMaximum a (- 1)]"
      unfolding stands_def by auto
    with k(1) [of f sw] w [of a] PhaseToFloor show ?thesis
      by (simp add: transition_steps_length del: takeWhile.simps set_simps)
  next
    case PhaseHoldFloor
    with assms(1) k show ?thesis by (fastforce simp: stands_def transition_steps_length)
  next
    case (PhaseCaptureAnchor i)
    with assms(1) k show ?thesis
      by (fastforce simp: stands_def transition_steps_length anchor_steps_def)
  next
    case PhaseComplete
    with assms(1) k show ?thesis
      by (fastforce simp: stands_def transition_steps_length anchor_steps_def)
  qed (use assms in simp)
  then show "length xs \<le> 20" "fc_phase s \<noteq> PhaseComplete \<Longrightarrow> length xs < 20" by auto
qed

text \<open>The observation due next, with its effect on the log and the clock.\<close>

lemma steady_accepted:
  assumes ok: "session_ok s" and ph: "fc_phase s \<noteq> PhaseFailed" "fc_phase s \<noteq> PhaseComplete"
    and t: "due s t" "unat t + 900000 < 2 ^ 64"
  shows "\<exists>u e. session_ok u \<and> resume_phase u = None \<and> fc_phase u \<noteq> PhaseFailed
    \<and> fc_events u = fc_events s @ [e] \<and> next_step s = Ok (event_step e)
    \<and> (\<exists>d \<in> {2000, 900000}. last_observed_monotonic_millis u = Some (t + d)) \<and> (\<forall>v. records_to u v \<longrightarrow> records_to s v)"
proof (cases "resume_phase s = None \<and> fc_phase s = PhaseHoldFloor")
  case True
  then have h: "fc_phase s = PhaseHoldFloor" "resume_phase s = None" by auto
  from steady_hold_accepted [OF ok h t] obtain p u where
    "record_hold (steady_hold t p) s = (Ok (), u)" "last_observed_monotonic_millis u = Some (t + 900000)" by blast
  moreover from this(1) record_hold_ok [OF ok, of "steady_hold t p"]
  have "accepts s (\<lambda>step. HoldEvent step (steady_hold t p)) (Ok ()) u" by (simp add: wp_def)
  ultimately show ?thesis unfolding accepts_def by (fastforce intro: records_to.hold)
next
  case False
  then have h: "resume_phase s \<noteq> None \<or> fc_phase s \<noteq> PhaseHoldFloor" by auto
  have "unat t + 2000 < 2 ^ 64" using t(2) by linarith
  with steady_level_accepted [OF ok ph h t(1)] obtain p u where
    "record_level (steady_level t p) s = (Ok (), u)" "last_observed_monotonic_millis u = Some (t + 2000)" by blast
  moreover from this(1) record_level_ok [OF ok, of "steady_level t p"]
  have "accepts s (\<lambda>step. LevelEvent step (steady_level t p)) (Ok ()) u" by (simp add: wp_def)
  ultimately show ?thesis unfolding accepts_def by (fastforce intro: records_to.level)
qed

lemma due_after:
  assumes "last_observed_monotonic_millis u = Some l" "unat l + 1 < 2 ^ 64"
  shows "due u (l + 1)" "unat (l + 1) = unat l + 1"
proof -
  show n: "unat (l + 1) = unat l + 1" using assms(2) by (simp add: unat_word_ariths)
  then have "l < l + 1" by (simp add: word_less_nat_alt)
  with assms(1) show "due u (l + 1)" by (simp add: due_def maximum_protocol_verification_gap_millis_def)
qed

lemma unresumed_step:
  "next_step s = Ok step \<Longrightarrow> resume_phase s = None \<Longrightarrow> \<not> is_revalidation_step step"
  by (auto simp: next_step_def is_revalidation_step_def bind_ok_eq_Ok split: calibration_phase.splits)

lemma finish_from:
  assumes "session_ok s" "fc_phase s \<noteq> PhaseFailed" "resume_phase s = None"
    and "20 \<le> length (protocol_steps (fc_events s)) + n" "due s t" "unat t + (n + 1) * 2 ^ 20 < 2 ^ 64"
  shows "\<exists>u. records_to s u \<and> fc_phase u = PhaseComplete"
  using assms
proof (induction n arbitrary: s t)
  case 0
  then have "fc_phase s = PhaseComplete"
    using protocol_bound(2) [of "Some (checkpoint s)" "protocol_steps (fc_events s)" s]
    unfolding session_ok_def by auto
  then show ?case by (auto intro: stay)
next
  case (Suc n)
  show ?case
  proof (cases "fc_phase s = PhaseComplete")
    case True
    then show ?thesis by (auto intro: stay)
  next
    case False
    have "unat t + 900000 < 2 ^ 64" using Suc.prems(6) by simp
    from steady_accepted [OF Suc.prems(1,2) False Suc.prems(5) this]
    obtain u e d where u: "session_ok u" "resume_phase u = None" "fc_phase u \<noteq> PhaseFailed"
      "fc_events u = fc_events s @ [e]" "next_step s = Ok (event_step e)" "d \<in> {2000, 900000}"
      "last_observed_monotonic_millis u = Some (t + d)" "\<And>v. records_to u v \<Longrightarrow> records_to s v"
      by blast
    have d: "unat d \<le> 900000" using u(6) by auto
    have td: "unat (t + d) = unat t + unat d"
      using d Suc.prems(6) by (intro unat_add_lem [THEN iffD1]) simp
    have l: "unat (t + d) + 1 < 2 ^ 64" using td d Suc.prems(6) by simp
    note a = due_after [OF u(7) l]
    have "length (protocol_steps (fc_events u)) = Suc (length (protocol_steps (fc_events s)))"
      unfolding u(4) using protocol_steps_snoc [OF refl] unresumed_step [OF u(5) Suc.prems(3)] by simp
    then have "20 \<le> length (protocol_steps (fc_events u)) + n" using Suc.prems(4) by simp
    moreover have "unat (t + d + 1) + (n + 1) * 2 ^ 20 < 2 ^ 64" using a(2) td d Suc.prems(6) by simp
    ultimately obtain v where "records_to u v" "fc_phase v = PhaseComplete"
      using Suc.IH [OF u(1,3,2) _ a(1)] by blast
    with u(8) show ?thesis by blast
  qed
qed

lemma session_finishes:
  assumes r: "reachable_session s" and f: "fc_phase s \<noteq> PhaseFailed"
    and t: "\<And>l. resume_phase s = None \<Longrightarrow> last_observed_monotonic_millis s = Some l \<Longrightarrow> l < 2 ^ 63"
  shows "\<exists>u. records_to s u \<and> fc_phase u = PhaseComplete"
proof (cases "resume_phase s")
  case None
  have ok: "session_ok s" using session_reachable_ok [OF r] by simp
  have "\<exists>t. due s t \<and> unat t \<le> 2 ^ 63"
  proof (cases "last_observed_monotonic_millis s")
    case n: None
    then show ?thesis by (intro exI [of _ 0]) (simp add: due_def)
  next
    case (Some l)
    with t [OF None] have l: "unat l < 2 ^ 63" by (simp add: word_less_nat_alt)
    then have "unat l + 1 < 2 ^ 64" by simp
    from due_after [OF Some this] l show ?thesis by (intro exI [of _ "l + 1"]) simp
  qed
  then obtain t where "due s t" "unat t \<le> 2 ^ 63" by blast
  then show ?thesis by (intro finish_from [OF ok f None, of 20 t]) auto
next
  case (Some p)
  have ok: "session_ok s" using session_reachable_ok [OF r] by simp
  then have c: "fc_phase s \<noteq> PhaseComplete" using Some by (auto simp: session_ok_def resume_ok_def)
  have z: "due s 0" "unat (0 :: u64) + 900000 < 2 ^ 64" using Some by (simp_all add: due_def)
  from steady_accepted [OF ok f c z]
  obtain u d where u: "session_ok u" "resume_phase u = None" "fc_phase u \<noteq> PhaseFailed"
    "d \<in> {2000, 900000}" "last_observed_monotonic_millis u = Some d" "\<And>v. records_to u v \<Longrightarrow> records_to s v"
    by force
  have d: "unat d \<le> 900000" using u(4) by auto
  then have l: "unat d + 1 < 2 ^ 64" by simp
  note a = due_after [OF u(5) l]
  have "\<exists>v. records_to u v \<and> fc_phase v = PhaseComplete"
    by (rule finish_from [OF u(1,3,2) _ a(1), of 20]) (use a(2) d in simp_all)
  with u(6) show ?thesis by blast
qed


section \<open>Properties\<close>

text \<open>
  The evidence of a calibration: what the tachometer takes over from it.
\<close>

definition config_of_evidence :: "fan_calibration_evidence \<Rightarrow> fan_calibration_config" where
  "config_of_evidence e =
     \<lparr>floor_basis_points = fce_floor_basis_points e, response_deadline_millis = fce_response_deadline_millis e,
      cal_anchors = map (\<lambda>a. \<lparr>duty_basis_points = rae_duty_basis_points a, median_rpm = rae_median_rpm a\<rparr>)
        (fce_anchors e)\<rparr>"

lemma deadline_bounds:
  assumes "minimum_settled_response_millis \<le> m" "m \<le> maximum_calibration_response_millis"
  shows "m \<le> calibration_response_deadline m" "calibration_response_deadline m \<le> maximum_calibration_response_millis"
    "calibration_response_deadline m \<noteq> 0"
proof -
  have u: "1000 \<le> unat m" "unat m \<le> 10000"
    using assms by (simp_all add: word_le_nat_alt minimum_settled_response_millis_def maximum_calibration_response_millis_def)
  then have "word_checked_add m 2000 = Some (m + 2000)" "unat (m + 2000) = unat m + 2000"
    by (simp_all add: word_checked_add_def unat_word_ariths)
  with u show "m \<le> calibration_response_deadline m" "calibration_response_deadline m \<le> maximum_calibration_response_millis"
    "calibration_response_deadline m \<noteq> 0"
    by (auto simp: calibration_response_deadline_def word_saturating_add_def response_margin_millis_def
        maximum_calibration_response_millis_def word_le_nat_alt min_def unat_eq_zero)
qed

lemma evidence_qualifies:
  assumes f: "f \<in> {4000, 5000, 6000, 7000}" and as: "anchors_measured (canonical_calibration_anchor_duties f) (fce_anchors e)"
    and e: "fce_floor_basis_points e = f" "fce_response_deadline_millis e \<noteq> 0"
      "fce_response_deadline_millis e \<le> maximum_calibration_response_millis"
  shows "is_ok (qualify_fan fan (config_of_evidence e) f)"
proof -
  have "length (fce_anchors e) = 4"
    using as duties_length [OF f] unfolding anchors_measured_def by (metis length_map)
  then obtain a b c d where abcd: "fce_anchors e = [a, b, c, d]"
    by (auto simp: numeral_eq_Suc length_Suc_conv)
  have dl: "\<not> maximum_response_deadline_millis < fce_response_deadline_millis e"
    using e(3) by (auto simp: maximum_response_deadline_millis_def maximum_calibration_response_millis_def
        word_le_nat_alt word_less_nat_alt)
  obtain m where m: "canonical_calibration_anchor_duties f = [f, m, 7500, 10000]" "f < m" "m < 7500"
    using f by (auto simp: canonical_calibration_anchor_duties_def Let_def word_saturating_sub_def
        cal_maximum_duty_basis_points_def)
  have duty: "rae_duty_basis_points a = f" "rae_duty_basis_points b = m" "rae_duty_basis_points c = 7500"
    "rae_duty_basis_points d = 10000"
    using as unfolding anchors_measured_def abcd m(1) by simp_all
  have rpm: "rae_median_rpm a \<le> rae_median_rpm b" "rae_median_rpm b \<le> rae_median_rpm c"
    "rae_median_rpm c \<le> rae_median_rpm d"
    using as unfolding anchors_measured_def abcd by simp_all
  have pl: "\<forall>x \<in> {a, b, c, d}. plausible_speed (rae_median_rpm x)"
    using as unfolding anchors_measured_def abcd by simp
  have nz: "r \<noteq> 0" if "plausible_speed r" for r
    using that by (auto simp: plausible_speed_def minimum_plausible_rpm_def)
  have find: "find (\<lambda>a. \<not> rpm_plausible a) (cal_anchors (config_of_evidence e)) = None"
    using pl by (simp add: find_None_iff config_of_evidence_def abcd rpm_plausible_def plausible_speed_def)
  have hd: "cal_anchors (config_of_evidence e) = map (\<lambda>(x, y). \<lparr>duty_basis_points = x, median_rpm = y\<rparr>)
      [(f, rae_median_rpm a), (m, rae_median_rpm b), (7500, rae_median_rpm c), (10000, rae_median_rpm d)]"
    by (simp add: config_of_evidence_def abcd duty)
  have fm: "\<not> m \<le> f" "\<not> 7500 \<le> m" using m by simp_all
  show ?thesis
    unfolding qualify_fan_def Let_def find option.case
    unfolding hd
    using e(1,2) dl fm rpm pl nz
    by (simp add: config_of_evidence_def maximum_duty_basis_points_def not_less)
qed

lemma session_evidence:
  assumes "reachable_session s"
  shows "(fc_evidence s = None \<longleftrightarrow> fc_phase s \<noteq> PhaseComplete)
    \<and> (\<forall>e. fc_evidence s = Some e \<longrightarrow>
        (\<exists>n slowest. n \<in> {2, 3, 4, 5}
           \<and> fce_floor_basis_points e = coarse_sweep_basis_points ! (n - 1) + 1000
           \<and> is_allowed_calibration_floor (fce_floor_basis_points e)
           \<and> protocol_steps (fc_events s) =
               sweep_steps (min (n + 1) 5) @ transition_steps (fce_floor_basis_points e) [1, 2, 3, 4, 5]
                 @ [hold_step (fce_floor_basis_points e)]
                 @ anchor_steps (canonical_calibration_anchor_duties (fce_floor_basis_points e))
           \<and> map rae_duty_basis_points (fce_anchors e) = canonical_calibration_anchor_duties (fce_floor_basis_points e)
           \<and> sorted (map rae_median_rpm (fce_anchors e))
           \<and> fce_slowest_response_millis e = Some slowest \<and> 1000 \<le> slowest \<and> slowest \<le> 10000
           \<and> fce_response_deadline_millis e = calibration_response_deadline slowest
           \<and> slowest \<le> fce_response_deadline_millis e
           \<and> fce_protocol_checkpoint e = Some (checkpoint s)
           \<and> is_ok (qualify_fan (fc_fan s) (config_of_evidence e) (fce_floor_basis_points e))))"
proof (cases "fc_phase s = PhaseComplete")
  case False
  with session_reachable_ok [OF assms] show ?thesis by (simp add: session_ok_def stands_def)
next
  case True
  with session_reachable_ok [OF assms] obtain sw f where k: "floor_known s f sw"
    "anchors_measured (canonical_calibration_anchor_duties f) (fc_anchors s)"
    "fc_evidence s = Some (evidence_of s f (Some (checkpoint s)))"
    "protocol_steps (fc_events s) = sw @ transition_steps f all_attempts @ [hold_step f]
       @ anchor_steps (canonical_calibration_anchor_duties f)"
    "fc_slowest_response_millis s \<le> maximum_calibration_response_millis"
    by (auto simp: session_ok_def stands_def)
  let ?e = "evidence_of s f (Some (checkpoint s))"
  from k(1) obtain n where n: "n \<in> {2, 3, 4, 5}" "sw = sweep_steps (min (n + 1) 5)"
    "f = coarse_sweep_basis_points ! (n - 1) + 1000"
    "minimum_settled_response_millis \<le> fc_slowest_response_millis s"
    unfolding floor_known_def swept_def by blast
  have fl: "f \<in> {4000, 5000, 6000, 7000}" using k(1) floors [of s f sw] unfolding floor_known_def by blast
  have q: "is_ok (qualify_fan (fc_fan s) (config_of_evidence ?e) f)"
    by (rule evidence_qualifies [OF fl]) (use k(2) deadline_bounds [OF n(4) k(5)] in \<open>simp_all add: evidence_of_def\<close>)
  have "is_allowed_calibration_floor f" using fl by (auto simp: is_allowed_calibration_floor_def)
  with True k n q deadline_bounds [OF n(4) k(5)] show ?thesis
    by (intro conjI; (intro allI impI exI [of _ n] exI [of _ "fc_slowest_response_millis s"])?)
      (simp_all add: evidence_of_def anchors_measured_def minimum_settled_response_millis_def
        maximum_calibration_response_millis_def)
qed

lemma session_roundtrip:
  assumes "reachable_session s"
  shows "calibration_resume (fc_fan s) (checkpoint s) =
    (if fc_phase s = PhaseFailed then Err InvalidCheckpoint
     else if fc_phase s = PhaseComplete then Ok s
     else Ok (s\<lparr>resume_phase := Some (fc_phase s)\<rparr>))"
proof -
  have "fc_phase s = PhaseComplete \<Longrightarrow> resume_phase s = None"
    using session_reachable_ok [OF assms] by (auto simp: session_ok_def resume_ok_def)
  then have "fc_phase s = PhaseComplete \<Longrightarrow> s\<lparr>resume_phase := None\<rparr> = s" by simp
  with session_reachable_ok [OF assms] show ?thesis
    by (auto simp: calibration_resume_def checkpoint_def replays_def)
qed


text \<open>
  Claim C18. A checkpoint restores its session: resuming from the checkpoint of any reachable session that
  has not failed gives the session back, with the revalidation at full speed pending unless it is
  complete; the checkpoint of a failed session is rejected. No replay panics.
\<close>

theorem calibration_checkpoint_roundtrip:
  assumes "reachable_session s"
  shows "calibration_resume (fc_fan s) (checkpoint s) =
    (if fc_phase s = PhaseFailed then Err InvalidCheckpoint
     else if fc_phase s = PhaseComplete then Ok s
     else Ok (s\<lparr>resume_phase := Some (fc_phase s)\<rparr>))"
  using assms by (rule session_roundtrip)


text \<open>
  Claim C19. A session never panics and fails closed: an observation of a reachable session is accepted
  and logged with the step that was pending, or the session has failed, without evidence and with its log
  unchanged, and it rejects every later observation.
\<close>

theorem calibration_fails_closed:
  assumes "reachable_session s" "record_level observation s = (r, t) \<or> record_hold hold_observation s = (r, t)"
  shows "(\<exists>step. r = Ok () \<and> next_step s = Ok step \<and> fc_phase t \<noteq> PhaseFailed
        \<and> (fc_events t = fc_events s @ [LevelEvent step observation]
           \<or> fc_events t = fc_events s @ [HoldEvent step hold_observation]))
    \<or> (\<exists>e. r = Err e \<and> fc_phase t = PhaseFailed \<and> fc_evidence t = None \<and> fc_events t = fc_events s
        \<and> (\<forall>o1. record_level o1 t = (Err StageAlreadyFailed, t))
        \<and> (\<forall>o2. record_hold o2 t = (Err StageAlreadyFailed, t))
        \<and> calibration_resume (fc_fan t) (checkpoint t) = Err InvalidCheckpoint)"
proof -
  have ok: "session_ok s" using session_reachable_ok [OF assms(1)] by simp
  have "accepts s (\<lambda>step. LevelEvent step observation) r t \<or> accepts s (\<lambda>step. HoldEvent step hold_observation) r t"
    using assms(2) record_level_ok [OF ok, of observation] record_hold_ok [OF ok, of hold_observation]
    by (auto simp: wp_def)
  then show ?thesis
    by (cases r) (auto simp: accepts_def failed_closed_def record_level_def record_hold_def calibration_resume_def
        checkpoint_def)
qed


lemma calibration_checkpoint_roundtrip_witness:
  "calibration_resume FanCpu (checkpoint (calibration_start FanCpu))
     = Ok ((calibration_start FanCpu)\<lparr>resume_phase := Some (PhaseSweep 0)\<rparr>)"
  using calibration_checkpoint_roundtrip [OF fresh [of FanCpu]] by (simp add: calibration_start_def)


lemma calibration_fails_closed_witness:
  "\<exists>t. record_hold \<lparr>ho_samples = [], ho_stall_observed = False, ho_unexplained_rpm_collapse_observed = False\<rparr>
     (calibration_start FanCpu) = (Err UnexpectedStep, t) \<and> fc_phase t = PhaseFailed
     \<and> calibration_resume (fc_fan t) (checkpoint t) = Err InvalidCheckpoint"
proof -
  let ?h = "\<lparr>ho_samples = [], ho_stall_observed = False, ho_unexplained_rpm_collapse_observed = False\<rparr>"
  obtain t where t: "record_hold ?h (calibration_start FanCpu) = (Err UnexpectedStep, t)"
    by (simp add: record_hold_def cal_fail_def calibration_start_def)
  with calibration_fails_closed [OF fresh disjI2 [OF t]] show ?thesis by auto
qed

end
