(* ===== verification/Evidence_Types.thy ===== *)
theory Evidence_Types
  imports Authority Calibration Nvidia_Gpu
begin

text \<open>
  The qualification records of \<open>fan-control-core/src/evidence.rs\<close>: the data of a run, the small checks
  the validation is made of, and the thermal summary. An \<open>i32\<close> is an integer, its saturation written out
  where the code computes with it; a wall-clock time is a signed 64-bit word.
\<close>

section \<open>Records\<close>

definition evidence_schema_version :: u32 where "evidence_schema_version = 1"
definition evidence_schema_version_v2 :: u32 where "evidence_schema_version_v2 = 2"

type_synonym i32 = int

record endurance_thermal_envelope_evidence =
  ee_cpu_peak_limit_millicelsius :: i32
  ee_gpu_peak_limit_millicelsius :: i32
  ee_cpu_p95_limit_millicelsius :: i32
  ee_gpu_p95_limit_millicelsius :: i32

record endurance_observer_attestation_evidence =
  oa_started_at :: evidence_timestamp
  oa_completed_at :: evidence_timestamp
  oa_checks :: "evidence_timestamp list"

record preflight_check_evidence =
  pc_timestamp :: evidence_timestamp
  pc_check :: string
  pc_passed :: bool
  pc_detail :: string

datatype evidence_profile = ProfileAc | ProfileBattery
datatype evidence_external_power = PowerAc | PowerBattery
datatype sample_freshness = SampleFresh | SampleStale | SampleInvalid | SampleMissing

record workload_evidence =
  wl_workload_id :: string
  wl_command :: "string list"
  wl_version :: string
  wl_power_profile :: evidence_profile
  wl_ambient_millicelsius :: i32
  wl_starting_cpu_millicelsius :: i32
  wl_starting_gpu_millicelsius :: i32

record telemetry_sample_evidence =
  ts_timestamp :: evidence_timestamp
  ts_cpu_millicelsius :: "i32 option"
  ts_gpu_millicelsius :: "i32 option"
  ts_freshness :: sample_freshness
  ts_external_power :: "evidence_external_power option"
  ts_selected_profile :: "evidence_profile option"
  ts_cpu_source_demand_basis_points :: "u16 option"
  ts_gpu_source_demand_basis_points :: "u16 option"
  ts_cpu_utilization_basis_points :: "u16 option"
  ts_gpu_utilization_basis_points :: "u16 option"
  ts_commanded_demand_basis_points :: "u16 option"
  ts_cpu_thermal_throttling :: "bool option"
  ts_gpu_thermal_throttling :: "bool option"

record firmware_auto_cleanup_evidence =
  cl_workload_stop_requested_at :: evidence_timestamp
  cl_workload_stop_confirmed_at :: "evidence_timestamp option"
  cl_containment_required :: bool
  cl_containment_confirmed :: bool
  cl_containment_confirmed_at :: "evidence_timestamp option"
  cl_cleanup_completed_at :: "evidence_timestamp option"
  cl_fan_control_write_count :: "u64 option"

record fan_endpoint_identities_evidence =
  fe_cpu_pwm :: string
  fe_cpu_enable :: string
  fe_cpu_tachometer :: string
  fe_gpu_pwm :: string
  fe_gpu_enable :: string
  fe_gpu_tachometer :: string

datatype fan_control_field = ControlPwm | ControlEnable
datatype fan_readback_field = ReadbackPwm | ReadbackEnable | ReadbackRpm
datatype fan_readback_phase = PhInitial | PhStartGate | PhWorkloadStarted | PhSample | PhFinal
datatype observation_outcome = ObsConfirmed | ObsUnexpected | ObsUnreadable
datatype restoration_evidence_outcome =
    FirmwareAutoConfirmed | FirmwareAutoUnconfirmedOutcome | MaximumContainmentConfirmed | ContainmentFailedOutcome
datatype stopped_process = StoppedWorkload | StoppedService

record fan_command_evidence =
  cmd_timestamp :: evidence_timestamp
  cmd_fan :: evidence_fan
  cmd_field :: fan_control_field
  cmd_value :: u32

record fan_readback_evidence =
  rb_timestamp :: evidence_timestamp
  rb_source_timestamp :: "evidence_timestamp option"
  rb_fresh :: "bool option"
  rb_boot_id :: "string option"
  rb_fan :: evidence_fan
  rb_field :: fan_readback_field
  rb_value :: "u32 option"
  rb_endpoint_identity :: string
  rb_outcome :: observation_outcome
  rb_phase :: "fan_readback_phase option"

record state_transition_evidence =
  st_timestamp :: evidence_timestamp
  st_boot_id :: "string option"
  st_from :: string
  st_to :: string

record fault_evidence =
  fa_timestamp :: evidence_timestamp
  fa_boot_id :: "string option"
  fa_code :: string
  fa_detail :: string

record restoration_attempt_evidence =
  ra_timestamp :: evidence_timestamp
  ra_fan :: evidence_fan
  ra_auto_write_succeeded :: bool
  ra_enable_readback :: "u32 option"
  ra_outcome :: restoration_evidence_outcome

record process_stop_evidence =
  ps_process :: stopped_process
  ps_process_identity :: string
  ps_requested_at :: evidence_timestamp
  ps_confirmed_at :: evidence_timestamp
  ps_running :: bool

record thermal_summary_evidence =
  th_cpu_peak_millicelsius :: i32
  th_gpu_peak_millicelsius :: i32
  th_cpu_p95_millicelsius :: i32
  th_gpu_p95_millicelsius :: i32
  th_cpu_final_slope_millicelsius_per_minute :: i32
  th_gpu_final_slope_millicelsius_per_minute :: i32
  th_system_stable :: "bool option"
  th_kernel_faults :: "string list"
  th_nvidia_faults :: "string list"

record run_outcome_evidence =
  ro_status :: run_outcome_status
  ro_reason :: string
  ro_another_passing_run_required :: bool
  ro_final_firmware_auto_confirmed :: bool

text \<open>The cases of a live lifecycle run stay a parameter type.\<close>

record 'c evidence_record =
  er_schema_version :: u32
  er_record_status :: evidence_record_status
  er_qualification_envelope :: qualification_envelope_identity_v1
  er_stage :: string
  er_started_at :: evidence_timestamp
  er_completed_at :: evidence_timestamp
  er_starting_conditions_captured_at :: "evidence_timestamp option"
  er_workload_started_at :: "evidence_timestamp option"
  er_baseline_binding_sha256 :: "string option"
  er_preflight_binding_sha256 :: "string option"
  er_prerequisite_binding_sha256 :: "string option"
  er_nvidia_gpu_uuid :: "string option"
  er_fan_endpoint_identities :: "fan_endpoint_identities_evidence option"
  er_firmware_auto_cleanup :: "firmware_auto_cleanup_evidence option"
  er_preflight_checks :: "preflight_check_evidence list option"
  er_workload :: "workload_evidence option"
  er_samples :: "telemetry_sample_evidence list"
  er_commands :: "fan_command_evidence list"
  er_readbacks :: "fan_readback_evidence list"
  er_state_transitions :: "state_transition_evidence list"
  er_faults :: "fault_evidence list"
  er_restoration_attempts :: "restoration_attempt_evidence list"
  er_process_stops :: "process_stop_evidence list"
  er_calibration :: "fan_calibration_evidence list"
  er_thermal_summary :: "thermal_summary_evidence option"
  er_endurance_thermal_envelope :: "endurance_thermal_envelope_evidence option"
  er_endurance_observer_attestation :: "endurance_observer_attestation_evidence option"
  er_live_lifecycle_cases :: "'c list option"
  er_outcome :: run_outcome_evidence

datatype evidence_validation_error =
    UnsupportedEvidenceSchemaVersion
  | IncompatibleSchemaField string
  | InvalidEvidenceIdentity string
  | InvalidStage
  | InvalidTimeRange
  | EventOutsideRun string nat
  | InvalidEvidenceWorkload string
  | InvalidValue string nat
  | InvalidState string nat
  | InvalidFault string nat

definition complete_v2 ::
  "qualification_envelope_identity_v1 \<Rightarrow> string \<Rightarrow> evidence_timestamp \<Rightarrow> evidence_timestamp
     \<Rightarrow> run_outcome_evidence \<Rightarrow> 'c evidence_record" where
  "complete_v2 envelope stage started_at completed_at outcome =
     \<lparr>er_schema_version = evidence_schema_version_v2, er_record_status = RecordComplete,
      er_qualification_envelope = envelope, er_stage = stage, er_started_at = started_at,
      er_completed_at = completed_at, er_starting_conditions_captured_at = None,
      er_workload_started_at = None, er_baseline_binding_sha256 = None, er_preflight_binding_sha256 = None,
      er_prerequisite_binding_sha256 = None, er_nvidia_gpu_uuid = None, er_fan_endpoint_identities = None,
      er_firmware_auto_cleanup = None, er_preflight_checks = None, er_workload = None, er_samples = [],
      er_commands = [], er_readbacks = [], er_state_transitions = [], er_faults = [],
      er_restoration_attempts = [], er_process_stops = [], er_calibration = [], er_thermal_summary = None,
      er_endurance_thermal_envelope = None, er_endurance_observer_attestation = None,
      er_live_lifecycle_cases = None, er_outcome = outcome\<rparr>"

section \<open>Small checks\<close>

definition wall_ms :: "evidence_timestamp \<Rightarrow> int" where "wall_ms t = sint (wall_unix_millis t)"

definition timestamp_precedes :: "evidence_timestamp \<Rightarrow> evidence_timestamp \<Rightarrow> bool" where
  "timestamp_precedes left right \<longleftrightarrow> monotonic_millis left \<le> monotonic_millis right \<and> wall_ms left \<le> wall_ms right"

definition is_identifier :: "string \<Rightarrow> bool" where
  "is_identifier value \<longleftrightarrow>
     value \<noteq> [] \<and> length value \<le> 128
     \<and> list_all (\<lambda>c. is_ascii_alphanumeric c \<or> c = CHR ''.'' \<or> c = CHR ''_'' \<or> c = CHR ''-'') value"

definition evidence_is_lower_hex :: "string \<Rightarrow> nat \<Rightarrow> bool" where
  "evidence_is_lower_hex value len \<longleftrightarrow>
     length value = len
     \<and> list_all (\<lambda>c. is_ascii_digit c \<or> 97 \<le> (of_char c :: nat) \<and> (of_char c :: nat) \<le> 102) value"

definition endpoint_evidence_identity :: "acer_hwmon_device \<Rightarrow> path \<Rightarrow> string option" where
  "endpoint_evidence_identity dev endpoint =
     map_option (\<lambda>identity. ''device-'' @ dec_string (unat (fi_device identity))
         @ ''-inode-'' @ dec_string (unat (fi_inode identity)))
       (endpoint_identity dev endpoint)"


definition fan_endpoint_identities_from_device :: "acer_hwmon_device \<Rightarrow> fan_endpoint_identities_evidence option" where
  "fan_endpoint_identities_from_device dev =
     (case (endpoint_evidence_identity dev (pwm_path (dev_cpu dev)),
            endpoint_evidence_identity dev (enable_path (dev_cpu dev)),
            endpoint_evidence_identity dev (tachometer_path (dev_cpu dev)),
            endpoint_evidence_identity dev (pwm_path (dev_gpu dev)),
            endpoint_evidence_identity dev (enable_path (dev_gpu dev)),
            endpoint_evidence_identity dev (tachometer_path (dev_gpu dev))) of
        (Some a, Some b, Some c, Some d, Some e, Some f) \<Rightarrow>
          Some \<lparr>fe_cpu_pwm = a, fe_cpu_enable = b, fe_cpu_tachometer = c,
                fe_gpu_pwm = d, fe_gpu_enable = e, fe_gpu_tachometer = f\<rparr>
      | _ \<Rightarrow> None)"

definition fan_endpoint_identities_valid :: "fan_endpoint_identities_evidence \<Rightarrow> bool" where
  "fan_endpoint_identities_valid i =
     (let ids = [fe_cpu_pwm i, fe_cpu_enable i, fe_cpu_tachometer i,
                        fe_gpu_pwm i, fe_gpu_enable i, fe_gpu_tachometer i]
      in list_all is_identifier ids \<and> distinct ids)"

definition validate_identity ::
  "qualification_envelope_identity_v1 \<Rightarrow> (evidence_validation_error, unit) outcome" where
  "validate_identity identity =
     (if qei_qualification_record_schema_version identity \<noteq> 1
      then Err (InvalidEvidenceIdentity ''qualification_record_schema_version'')
      else if \<not> is_identifier (qei_qualification_id identity)
      then Err (InvalidEvidenceIdentity ''qualification_id'')
      else if \<not> is_identifier (qei_policy_version identity)
      then Err (InvalidEvidenceIdentity ''policy_version'')
      else if \<not> evidence_is_lower_hex (qei_protected_policy_sha256 identity) 64
      then Err (InvalidEvidenceIdentity ''protected_policy_sha256'')
      else map_err (\<lambda>_. InvalidEvidenceIdentity ''compatibility'')
             (validate_declaration (qei_compatibility identity)
                :: (string compatibility_declaration_error, unit) outcome))"

definition validate_workload :: "workload_evidence \<Rightarrow> (evidence_validation_error, unit) outcome" where
  "validate_workload workload =
     (if \<not> is_identifier (wl_workload_id workload) then Err (InvalidEvidenceWorkload ''workload_id'')
      else if wl_command workload = [] \<or> list_ex (\<lambda>part. part = []) (wl_command workload)
      then Err (InvalidEvidenceWorkload ''command'')
      else if \<not> is_identifier (wl_version workload) then Err (InvalidEvidenceWorkload ''version'')
      else Ok ())"

definition validate_timestamp ::
  "'c evidence_record \<Rightarrow> evidence_timestamp \<Rightarrow> string \<Rightarrow> nat \<Rightarrow> (evidence_validation_error, unit) outcome" where
  "validate_timestamp rec timestamp field index =
     (if monotonic_millis timestamp < monotonic_millis (er_started_at rec)
         \<or> monotonic_millis (er_completed_at rec) < monotonic_millis timestamp
      then Err (EventOutsideRun field index) else Ok ())"

text \<open>\<open>max_by_key\<close> keeps the last of several elements with the greatest key.\<close>

fun max_by_key :: "('a \<Rightarrow> u64) \<Rightarrow> 'a list \<Rightarrow> 'a option" where
  "max_by_key key [] = None"
| "max_by_key key (x # xs) =
     (case max_by_key key xs of
        None \<Rightarrow> Some x
      | Some y \<Rightarrow> if key x \<le> key y then Some y else Some x)"

definition list_maximum :: "u64 list \<Rightarrow> u64 option" where
  "list_maximum xs = (if xs = [] then None else Some (Max (set xs)))"

definition list_minimum :: "u64 list \<Rightarrow> u64 option" where
  "list_minimum xs = (if xs = [] then None else Some (Min (set xs)))"

definition option_or :: "'a \<Rightarrow> 'a option \<Rightarrow> 'a" where
  "option_or d v = (case v of None \<Rightarrow> d | Some x \<Rightarrow> x)"

definition option_is :: "('a \<Rightarrow> bool) \<Rightarrow> 'a option \<Rightarrow> bool" where
  "option_is P v = (case v of None \<Rightarrow> False | Some x \<Rightarrow> P x)"

definition list_last :: "'a list \<Rightarrow> 'a option" where
  "list_last xs = (if xs = [] then None else Some (last xs))"

definition list_first :: "'a list \<Rightarrow> 'a option" where
  "list_first xs = (case xs of [] \<Rightarrow> None | x # _ \<Rightarrow> Some x)"

definition list_get :: "'a list \<Rightarrow> nat \<Rightarrow> 'a option" where
  "list_get xs i = (if i < length xs then Some (xs ! i) else None)"

section \<open>Firmware Auto at the end of a run\<close>

definition final_enable_readback :: "'c evidence_record \<Rightarrow> evidence_fan \<Rightarrow> fan_readback_evidence option" where
  "final_enable_readback rec fan =
     (let matching = filter (\<lambda>rb. rb_fan rb = fan \<and> rb_field rb = ReadbackEnable) (er_readbacks rec)
      in if er_stage rec = ''live-lifecycle'' then list_last matching
         else max_by_key (\<lambda>rb. monotonic_millis (rb_timestamp rb)) matching)"

definition final_enable_readback_confirms_auto :: "'c evidence_record \<Rightarrow> evidence_fan \<Rightarrow> bool" where
  "final_enable_readback_confirms_auto rec fan =
     option_is (\<lambda>rb. rb_value rb = Some 2 \<and> rb_outcome rb = ObsConfirmed) (final_enable_readback rec fan)"

definition final_restoration_attempt_after_command ::
  "'c evidence_record \<Rightarrow> evidence_fan \<Rightarrow> restoration_attempt_evidence option" where
  "final_restoration_attempt_after_command rec fan =
     (let latest_command_millis = list_maximum (map (\<lambda>c. monotonic_millis (cmd_timestamp c))
            (filter (\<lambda>c. cmd_fan c = fan) (er_commands rec)))
      in case max_by_key (\<lambda>a. monotonic_millis (ra_timestamp a))
                (filter (\<lambda>a. ra_fan a = fan) (er_restoration_attempts rec)) of
           None \<Rightarrow> None
         | Some attempt \<Rightarrow>
             (case latest_command_millis of
                None \<Rightarrow> Some attempt
              | Some command_millis \<Rightarrow>
                  if command_millis < monotonic_millis (ra_timestamp attempt) then Some attempt else None))"

definition final_restoration_confirms_auto :: "'c evidence_record \<Rightarrow> evidence_fan \<Rightarrow> bool" where
  "final_restoration_confirms_auto rec fan =
     option_is (\<lambda>attempt. ra_auto_write_succeeded attempt \<and> ra_enable_readback attempt = Some 2
         \<and> ra_outcome attempt = FirmwareAutoConfirmed)
       (final_restoration_attempt_after_command rec fan)"

definition last_transition :: "'c evidence_record \<Rightarrow> state_transition_evidence option" where
  "last_transition rec = max_by_key (\<lambda>t. monotonic_millis (st_timestamp t)) (er_state_transitions rec)"

definition final_state_follows_restoration :: "'c evidence_record \<Rightarrow> bool" where
  "final_state_follows_restoration rec =
     (let latest_restoration_millis =
            list_maximum (map (\<lambda>a. monotonic_millis (ra_timestamp a)) (er_restoration_attempts rec))
      in option_is (\<lambda>transition.
             case latest_restoration_millis of
               None \<Rightarrow> True
             | Some restoration_millis \<Rightarrow> restoration_millis \<le> monotonic_millis (st_timestamp transition))
           (last_transition rec))"

definition final_state_confirms_auto :: "'c evidence_record \<Rightarrow> bool" where
  "final_state_confirms_auto rec =
     option_is (\<lambda>transition. st_to transition = ''firmware-auto'' \<and> final_state_follows_restoration rec)
       (last_transition rec)"

section \<open>Thermal summaries\<close>

definition i32_of_f64 :: "f64 \<Rightarrow> i32" where
  "i32_of_f64 x =
     (case x of
        Fin q \<Rightarrow> max (- (2 ^ 31)) (min (2 ^ 31 - 1) (trunc_rat q))
      | PInf \<Rightarrow> 2 ^ 31 - 1
      | NInf \<Rightarrow> - (2 ^ 31)
      | NaN \<Rightarrow> 0)"

text \<open>\<open>f64::round\<close> goes away from zero at one half.\<close>

definition f64_round_half :: "f64 \<Rightarrow> f64" where
  "f64_round_half x =
     (case x of
        Fin q \<Rightarrow> Fin (of_int (if 0 \<le> q then \<lfloor>q + 1 / 2\<rfloor> else \<lceil>q - 1 / 2\<rceil>))
      | _ \<Rightarrow> x)"

definition f64_sum :: "f64 list \<Rightarrow> f64" where
  "f64_sum xs = foldl f64_add (Fin 0) xs"

definition evidence_temperatures ::
  "telemetry_sample_evidence list \<Rightarrow> (telemetry_sample_evidence \<Rightarrow> i32 option) \<Rightarrow> (u64 \<times> i32) list" where
  "evidence_temperatures samples select =
     List.map_filter (\<lambda>sample. map_option (\<lambda>v. (monotonic_millis (ts_timestamp sample), v)) (select sample)) samples"

definition evidence_percentile_95 :: "(u64 \<times> i32) list \<Rightarrow> i32" where
  "evidence_percentile_95 values =
     (let sorted = sort (map snd values);
          rank = (95 * length sorted + 99) div 100
      in option_or 0 (list_get sorted (rank - 1)))"

definition final_slope_window :: "(u64 \<times> i32) list \<Rightarrow> (u64 \<times> i32) list" where
  "final_slope_window values =
     (case list_last values of
        None \<Rightarrow> []
      | Some (last_millis, _) \<Rightarrow>
          filter (\<lambda>(millis, _). word_saturating_sub last_millis (5 * 60 * 1000) \<le> millis) values)"

definition slope_minutes :: "f64 \<Rightarrow> u64 \<Rightarrow> f64" where
  "slope_minutes origin millis = f64_div (f64_sub (f64_of_int (uint millis)) origin) (Fin 60000)"

definition evidence_final_slope_precise :: "(u64 \<times> i32) list \<Rightarrow> f64" where
  "evidence_final_slope_precise values =
     (let window = final_slope_window values
      in if length window < 2 then Fin 0
         else
           (let origin = f64_of_int (uint (fst (hd window)));
                count = f64_of_int (int (length window));
                mean_x = f64_div (f64_sum (map (\<lambda>(millis, _). slope_minutes origin millis) window)) count;
                mean_y = f64_div (f64_sum (map (\<lambda>(_, v). f64_of_int v) window)) count;
                numerator = f64_sum (map (\<lambda>(millis, v).
                  f64_mul (f64_sub (slope_minutes origin millis) mean_x) (f64_sub (f64_of_int v) mean_y)) window);
                denominator = f64_sum (map (\<lambda>(millis, _).
                  f64_mul (f64_sub (slope_minutes origin millis) mean_x)
                    (f64_sub (slope_minutes origin millis) mean_x)) window)
            in if f64_eq denominator (Fin 0) then Fin 0 else f64_div numerator denominator))"

definition evidence_final_slope :: "(u64 \<times> i32) list \<Rightarrow> i32" where
  "evidence_final_slope values = i32_of_f64 (f64_round_half (evidence_final_slope_precise values))"

definition maximum_temperature_of :: "(u64 \<times> i32) list \<Rightarrow> i32" where
  "maximum_temperature_of values = (if values = [] then 0 else Max (set (map snd values)))"

definition summarize_thermal_evidence ::
  "telemetry_sample_evidence list \<Rightarrow> bool \<Rightarrow> string list \<Rightarrow> string list \<Rightarrow> thermal_summary_evidence" where
  "summarize_thermal_evidence samples system_stable kernel_faults nvidia_faults =
     (let cpu = evidence_temperatures samples ts_cpu_millicelsius;
          gpu = evidence_temperatures samples ts_gpu_millicelsius
      in \<lparr>th_cpu_peak_millicelsius = maximum_temperature_of cpu,
          th_gpu_peak_millicelsius = maximum_temperature_of gpu,
          th_cpu_p95_millicelsius = evidence_percentile_95 cpu,
          th_gpu_p95_millicelsius = evidence_percentile_95 gpu,
          th_cpu_final_slope_millicelsius_per_minute = evidence_final_slope cpu,
          th_gpu_final_slope_millicelsius_per_minute = evidence_final_slope gpu,
          th_system_stable = Some system_stable, th_kernel_faults = kernel_faults,
          th_nvidia_faults = nvidia_faults\<rparr>)"

definition precise_final_thermal_slopes :: "telemetry_sample_evidence list \<Rightarrow> f64 \<times> f64" where
  "precise_final_thermal_slopes samples =
     (evidence_final_slope_precise (evidence_temperatures samples ts_cpu_millicelsius),
      evidence_final_slope_precise (evidence_temperatures samples ts_gpu_millicelsius))"

end
