(* ===== verification/Evidence_Baseline.thy ===== *)
theory Evidence_Baseline
  imports Evidence_Types
begin

text \<open>
  What a Firmware Auto baseline has to show (\<open>firmware_auto_baseline_is_complete\<close> and
  \<open>firmware_auto_cleanup_is_consistent\<close> of \<open>evidence.rs\<close>).
\<close>

definition workload_stop_timeout_millis :: u64 where "workload_stop_timeout_millis = 5000"

fun profile_power :: "evidence_profile \<Rightarrow> evidence_external_power" where
  "profile_power ProfileAc = PowerAc"
| "profile_power ProfileBattery = PowerBattery"

definition in_range :: "i32 \<Rightarrow> i32 \<Rightarrow> i32 \<Rightarrow> bool" where
  "in_range lo hi v \<longleftrightarrow> lo \<le> v \<and> v < hi"

definition sample_times :: "'c evidence_record \<Rightarrow> u64 list" where
  "sample_times rec =
     map (\<lambda>s. monotonic_millis (ts_timestamp s)) (er_samples rec)
     @ map (\<lambda>rb. monotonic_millis (rb_timestamp rb))
         (filter (\<lambda>rb. rb_phase rb = Some PhSample) (er_readbacks rec))"

definition final_readback_times :: "'c evidence_record \<Rightarrow> u64 list" where
  "final_readback_times rec =
     map (\<lambda>rb. monotonic_millis (rb_timestamp rb)) (filter (\<lambda>rb. rb_phase rb = Some PhFinal) (er_readbacks rec))"

definition baseline_summary_matches :: "'c evidence_record \<Rightarrow> thermal_summary_evidence \<Rightarrow> bool" where
  "baseline_summary_matches rec summary \<longleftrightarrow> summary = summarize_thermal_evidence (er_samples rec) True [] []"

definition unique_phase ::
  "'c evidence_record \<Rightarrow> evidence_fan \<Rightarrow> fan_readback_phase \<Rightarrow> fan_readback_evidence option" where
  "unique_phase rec fan phase =
     (case filter (\<lambda>rb. rb_fan rb = fan \<and> rb_field rb = ReadbackEnable \<and> rb_phase rb = Some phase) (er_readbacks rec) of
        [rb] \<Rightarrow> Some rb
      | _ \<Rightarrow> None)"

definition sample_readback_count ::
  "'c evidence_record \<Rightarrow> evidence_fan \<Rightarrow> fan_readback_field \<Rightarrow> telemetry_sample_evidence \<Rightarrow> nat" where
  "sample_readback_count rec fan field sample =
     length (filter (\<lambda>rb.
         rb_fan rb = fan \<and> rb_field rb = field \<and> rb_phase rb = Some PhSample
         \<and> monotonic_millis (ts_timestamp sample) \<le> monotonic_millis (rb_timestamp rb)
         \<and> word_saturating_sub (monotonic_millis (rb_timestamp rb)) (monotonic_millis (ts_timestamp sample)) \<le> 100)
       (er_readbacks rec))"

fun baseline_identities :: "fan_endpoint_identities_evidence \<Rightarrow> evidence_fan \<Rightarrow> string \<times> string" where
  "baseline_identities i EvidenceCpu = (fe_cpu_enable i, fe_cpu_tachometer i)"
| "baseline_identities i EvidenceGpu = (fe_gpu_enable i, fe_gpu_tachometer i)"

definition baseline_readback_phases_are_complete ::
  "'c evidence_record \<Rightarrow> evidence_fan \<Rightarrow> evidence_timestamp \<Rightarrow> bool" where
  "baseline_readback_phases_are_complete rec fan workload_started_at =
     (case er_fan_endpoint_identities rec of
        None \<Rightarrow> False
      | Some ids \<Rightarrow>
          (case baseline_identities ids fan of
             (enable_name, tachometer_name) \<Rightarrow>
               list_all (\<lambda>rb. rb_endpoint_identity rb = enable_name)
                 (filter (\<lambda>rb. rb_fan rb = fan \<and> rb_field rb = ReadbackEnable) (er_readbacks rec))
               \<and> list_all (\<lambda>rb. rb_endpoint_identity rb = tachometer_name
                     \<and> option_is plausible_speed (rb_value rb))
                   (filter (\<lambda>rb. rb_fan rb = fan \<and> rb_field rb = ReadbackRpm) (er_readbacks rec))
               \<and> (case (unique_phase rec fan PhInitial, unique_phase rec fan PhStartGate,
                        unique_phase rec fan PhWorkloadStarted, unique_phase rec fan PhFinal) of
                    (Some initial, Some start_gate, Some workload_started, Some final_readback) \<Rightarrow>
                      monotonic_millis (er_started_at rec) \<le> monotonic_millis (rb_timestamp initial)
                      \<and> option_is (\<lambda>captured.
                            monotonic_millis (rb_timestamp initial) \<le> monotonic_millis captured
                            \<and> monotonic_millis captured \<le> monotonic_millis (rb_timestamp start_gate))
                          (er_starting_conditions_captured_at rec)
                      \<and> monotonic_millis (rb_timestamp start_gate) \<le> monotonic_millis workload_started_at
                      \<and> monotonic_millis workload_started_at \<le> monotonic_millis (rb_timestamp workload_started)
                      \<and> option_is (\<lambda>sample.
                            monotonic_millis (rb_timestamp workload_started) \<le> monotonic_millis (ts_timestamp sample))
                          (list_first (er_samples rec))
                      \<and> list_all (\<lambda>sample.
                            sample_readback_count rec fan ReadbackEnable sample = 1
                            \<and> sample_readback_count rec fan ReadbackRpm sample = 1) (er_samples rec)
                      \<and> rb_timestamp final_readback = er_completed_at rec
                      \<and> length (filter (\<lambda>rb. rb_fan rb = fan) (er_readbacks rec)) = length (er_samples rec) * 2 + 4
                  | _ \<Rightarrow> False)))"

definition baseline_samples_are_complete :: "'c evidence_record \<Rightarrow> workload_evidence \<Rightarrow> bool" where
  "baseline_samples_are_complete rec workload \<longleftrightarrow>
     2 \<le> length (er_samples rec)
     \<and> list_all (\<lambda>sample.
           ts_freshness sample = SampleFresh
           \<and> option_is (in_range (- 40000) 95000) (ts_cpu_millicelsius sample)
           \<and> option_is (in_range (- 40000) 85000) (ts_gpu_millicelsius sample)
           \<and> ts_external_power sample = Some (profile_power (wl_power_profile workload))
           \<and> ts_selected_profile sample = Some (wl_power_profile workload)
           \<and> ts_cpu_source_demand_basis_points sample \<noteq> None
           \<and> ts_gpu_source_demand_basis_points sample \<noteq> None
           \<and> option_is (\<lambda>v. v \<le> 10000) (ts_cpu_utilization_basis_points sample)
           \<and> option_is (\<lambda>v. v \<le> 10000) (ts_gpu_utilization_basis_points sample)
           \<and> ts_commanded_demand_basis_points sample \<noteq> None
           \<and> ts_cpu_thermal_throttling sample = Some False
           \<and> ts_gpu_thermal_throttling sample = Some False)
         (er_samples rec)"

definition baseline_cadence_is_valid :: "'c evidence_record \<Rightarrow> evidence_timestamp \<Rightarrow> bool" where
  "baseline_cadence_is_valid rec workload_started_at \<longleftrightarrow>
     option_is (\<lambda>sample.
         let elapsed = word_saturating_sub (monotonic_millis (ts_timestamp sample)) (monotonic_millis workload_started_at)
         in 1900 \<le> elapsed \<and> elapsed \<le> 2100) (list_first (er_samples rec))
     \<and> list_all (\<lambda>(first, second).
           let delta = word_saturating_sub (monotonic_millis (ts_timestamp second)) (monotonic_millis (ts_timestamp first))
           in 1900 \<le> delta \<and> delta \<le> 2100) (windows2 (er_samples rec))"

definition baseline_readbacks_are_complete :: "'c evidence_record \<Rightarrow> evidence_timestamp \<Rightarrow> bool" where
  "baseline_readbacks_are_complete rec workload_started_at \<longleftrightarrow>
     list_all (\<lambda>rb.
         rb_outcome rb = ObsConfirmed \<and> rb_phase rb \<noteq> None
         \<and> (case rb_field rb of
              ReadbackEnable \<Rightarrow> rb_value rb = Some 2
            | ReadbackRpm \<Rightarrow> option_is (\<lambda>rpm. plausible_speed rpm \<and> rb_phase rb = Some PhSample) (rb_value rb)
            | ReadbackPwm \<Rightarrow> False))
       (er_readbacks rec)
     \<and> baseline_readback_phases_are_complete rec EvidenceCpu workload_started_at
     \<and> baseline_readback_phases_are_complete rec EvidenceGpu workload_started_at"

definition baseline_cleanup_is_complete ::
  "'c evidence_record \<Rightarrow> evidence_timestamp \<Rightarrow> firmware_auto_cleanup_evidence \<Rightarrow> bool" where
  "baseline_cleanup_is_complete rec workload_started_at cleanup =
     (case (cl_workload_stop_confirmed_at cleanup, cl_cleanup_completed_at cleanup) of
        (Some stopped_at, Some cleaned_at) \<Rightarrow>
          (let requested = cl_workload_stop_requested_at cleanup;
               last_sample_observation =
                 option_or (monotonic_millis workload_started_at) (list_maximum (sample_times rec));
               first_final_readback = option_or 0 (list_minimum (final_readback_times rec))
           in timestamp_precedes workload_started_at requested
              \<and> last_sample_observation \<le> monotonic_millis requested
              \<and> timestamp_precedes requested stopped_at
              \<and> word_saturating_sub (monotonic_millis stopped_at) (monotonic_millis requested)
                  \<le> workload_stop_timeout_millis
              \<and> timestamp_precedes stopped_at cleaned_at
              \<and> monotonic_millis cleaned_at \<le> first_final_readback
              \<and> timestamp_precedes cleaned_at (er_completed_at rec)
              \<and> \<not> cl_containment_required cleanup
              \<and> \<not> cl_containment_confirmed cleanup
              \<and> cl_containment_confirmed_at cleanup = None
              \<and> cl_fan_control_write_count cleanup = Some 0)
      | _ \<Rightarrow> False)"

definition workload_conditions_are_safe :: "workload_evidence \<Rightarrow> bool" where
  "workload_conditions_are_safe workload \<longleftrightarrow>
     - 40000 \<le> wl_ambient_millicelsius workload \<and> wl_ambient_millicelsius workload \<le> 80000
     \<and> in_range (- 40000) 95000 (wl_starting_cpu_millicelsius workload)
     \<and> in_range (- 40000) 85000 (wl_starting_gpu_millicelsius workload)"

definition firmware_auto_baseline_is_complete :: "'c evidence_record \<Rightarrow> bool" where
  "firmware_auto_baseline_is_complete rec =
     (case (er_workload rec, er_workload_started_at rec, er_starting_conditions_captured_at rec) of
        (Some workload, Some workload_started_at, Some captured_at) \<Rightarrow>
          workload_conditions_are_safe workload
          \<and> baseline_samples_are_complete rec workload
          \<and> monotonic_millis captured_at \<le> monotonic_millis workload_started_at
          \<and> baseline_cadence_is_valid rec workload_started_at
          \<and> baseline_readbacks_are_complete rec workload_started_at
          \<and> option_is (baseline_summary_matches rec) (er_thermal_summary rec)
          \<and> option_is (baseline_cleanup_is_complete rec workload_started_at) (er_firmware_auto_cleanup rec)
          \<and> er_faults rec = [] \<and> er_commands rec = [] \<and> er_state_transitions rec = []
          \<and> er_restoration_attempts rec = [] \<and> er_calibration rec = []
          \<and> final_enable_readback_confirms_auto rec EvidenceCpu
          \<and> final_enable_readback_confirms_auto rec EvidenceGpu
      | _ \<Rightarrow> False)"

section \<open>Consistency of a cleanup\<close>

definition outside_cleanup :: "'c evidence_record \<Rightarrow> firmware_auto_cleanup_evidence \<Rightarrow> evidence_timestamp option \<Rightarrow> bool" where
  "outside_cleanup rec cleanup timestamp =
     option_is (\<lambda>t. \<not> timestamp_precedes (cl_workload_stop_requested_at cleanup) t
         \<or> \<not> timestamp_precedes t (er_completed_at rec)) timestamp"

definition cleanup_times :: "firmware_auto_cleanup_evidence \<Rightarrow> evidence_timestamp list" where
  "cleanup_times cleanup =
     List.map_filter id [cl_workload_stop_confirmed_at cleanup, cl_containment_confirmed_at cleanup]"

definition cleanup_is_misordered :: "'c evidence_record \<Rightarrow> firmware_auto_cleanup_evidence \<Rightarrow> bool" where
  "cleanup_is_misordered rec cleanup =
     (let workload_started_at = option_or (er_started_at rec) (er_workload_started_at rec);
          requested = cl_workload_stop_requested_at cleanup;
          last_sample_observation =
            option_or (monotonic_millis workload_started_at) (list_maximum (sample_times rec))
      in \<not> timestamp_precedes (er_started_at rec) requested
         \<or> \<not> timestamp_precedes requested (er_completed_at rec)
         \<or> \<not> timestamp_precedes workload_started_at requested
         \<or> monotonic_millis requested < last_sample_observation
         \<or> outside_cleanup rec cleanup (cl_workload_stop_confirmed_at cleanup)
         \<or> outside_cleanup rec cleanup (cl_containment_confirmed_at cleanup)
         \<or> outside_cleanup rec cleanup (cl_cleanup_completed_at cleanup)
         \<or> cl_containment_confirmed cleanup \<noteq> (cl_containment_confirmed_at cleanup \<noteq> None)
         \<or> \<not> cl_containment_required cleanup
            \<and> (cl_containment_confirmed cleanup \<or> cl_containment_confirmed_at cleanup \<noteq> None))"

definition firmware_auto_cleanup_is_consistent ::
  "'c evidence_record \<Rightarrow> firmware_auto_cleanup_evidence \<Rightarrow> bool" where
  "firmware_auto_cleanup_is_consistent rec cleanup =
     (let requested = monotonic_millis (cl_workload_stop_requested_at cleanup)
      in if cleanup_is_misordered rec cleanup then False
         else if cl_containment_required cleanup \<and> cleanup_times cleanup = []
                 \<and> ro_status (er_outcome rec) = Passed then False
         else if option_is (\<lambda>timestamp.
                   monotonic_millis timestamp
                     < (case cl_workload_stop_confirmed_at cleanup of
                          None \<Rightarrow> requested
                        | Some stopped \<Rightarrow> max (monotonic_millis stopped) requested))
                 (cl_containment_confirmed_at cleanup) then False
         else
           (case cl_cleanup_completed_at cleanup of
              Some completed \<Rightarrow>
                cleanup_times cleanup \<noteq> []
                \<and> list_all (\<lambda>t. timestamp_precedes t completed) (cleanup_times cleanup)
                \<and> (\<not> cl_containment_required cleanup
                    \<or> cl_containment_confirmed cleanup \<and> cl_containment_confirmed_at cleanup \<noteq> None)
                \<and> list_all (\<lambda>t. monotonic_millis completed \<le> t) (final_readback_times rec)
                \<and> cl_fan_control_write_count cleanup \<noteq> None
            | None \<Rightarrow> cl_fan_control_write_count cleanup = None))"

end
