(* ===== verification/Evidence_Workload.thy ===== *)
theory Evidence_Workload
  imports Evidence_Baseline
begin

text \<open>
  What a matched workload run has to show (\<open>fan-control-core/src/matched_workload.rs\<close>): the cadence and
  safety of its samples, the control evidence of every sample, the tachometer response against the
  calibrations, and the comparison with a baseline. The arrays the code fills by sample, fan and field
  are finite maps.
\<close>

definition cpu_absolute_abort_millicelsius :: i32 where "cpu_absolute_abort_millicelsius = 95000"
definition gpu_absolute_abort_millicelsius :: i32 where "gpu_absolute_abort_millicelsius = 85000"
definition ambient_comparability_millicelsius :: i32 where "ambient_comparability_millicelsius = 2000"
definition starting_temperature_comparability_millicelsius :: i32 where
  "starting_temperature_comparability_millicelsius = 3000"
definition thermal_comparison_margin_millicelsius :: i32 where "thermal_comparison_margin_millicelsius = 2000"
definition thermal_slope_limit_millicelsius_per_minute :: i32 where
  "thermal_slope_limit_millicelsius_per_minute = 1000"
definition minimum_matched_workload_samples :: nat where "minimum_matched_workload_samples = 151"
definition sample_cadence_millis :: u64 where "sample_cadence_millis = 2000"
definition sample_cadence_jitter_millis :: u64 where "sample_cadence_jitter_millis = 100"
definition max_plausible_component_temperature_millicelsius :: i32 where
  "max_plausible_component_temperature_millicelsius = 150000"
definition max_plausible_ambient_millicelsius :: i32 where "max_plausible_ambient_millicelsius = 80000"
definition min_plausible_temperature_millicelsius :: i32 where "min_plausible_temperature_millicelsius = - 40000"

definition plausible_temperature :: "i32 \<Rightarrow> i32 \<Rightarrow> bool" where
  "plausible_temperature v upper \<longleftrightarrow> min_plausible_temperature_millicelsius \<le> v \<and> v \<le> upper"

definition word_abs_diff :: "u64 \<Rightarrow> u64 \<Rightarrow> u64" where
  "word_abs_diff a b = (if a \<le> b then b - a else a - b)"

definition on_cadence :: "u64 option \<Rightarrow> bool" where
  "on_cadence = option_is (\<lambda>elapsed. word_abs_diff elapsed sample_cadence_millis \<le> sample_cadence_jitter_millis)"

section \<open>Control evidence\<close>

text \<open>
  \<open>partition_point\<close> on samples in order of time; where they are not in order its result is unspecified
  and the cadence check rejects the record.
\<close>

definition evidence_sample_index :: "telemetry_sample_evidence list \<Rightarrow> evidence_timestamp \<Rightarrow> nat option" where
  "evidence_sample_index samples timestamp =
     (let n = length (takeWhile (\<lambda>s. monotonic_millis (ts_timestamp s) \<le> monotonic_millis timestamp) samples)
      in if n = 0 then None
         else
           (case word_checked_sub (monotonic_millis timestamp) (monotonic_millis (ts_timestamp (samples ! (n - 1)))) of
              None \<Rightarrow> None
            | Some lag \<Rightarrow> if lag \<le> sample_cadence_jitter_millis then Some (n - 1) else None))"

definition timestamp_within_sample :: "evidence_timestamp \<Rightarrow> evidence_timestamp \<Rightarrow> bool" where
  "timestamp_within_sample timestamp sample_at =
     option_is (\<lambda>lag. lag \<le> sample_cadence_jitter_millis)
       (word_checked_sub (monotonic_millis timestamp) (monotonic_millis sample_at))"

text \<open>Filling a slot that is taken fails, as \<open>replace(..).is_some()\<close> returns early.\<close>

definition place :: "'k \<Rightarrow> 'v \<Rightarrow> ('k \<rightharpoonup> 'v) \<Rightarrow> ('k \<rightharpoonup> 'v) option" where
  "place k v m = (if m k = None then Some (m(k \<mapsto> v)) else None)"

fun place_all :: "('v \<Rightarrow> 'k option) \<Rightarrow> 'v list \<Rightarrow> ('k \<rightharpoonup> 'v) \<Rightarrow> ('k \<rightharpoonup> 'v) option" where
  "place_all slot [] m = Some m"
| "place_all slot (v # vs) m =
     (case slot v of
        None \<Rightarrow> None
      | Some k \<Rightarrow> (case place k v m of None \<Rightarrow> None | Some m' \<Rightarrow> place_all slot vs m'))"

definition command_slot :: "telemetry_sample_evidence list \<Rightarrow> fan_command_evidence \<Rightarrow> (nat \<times> evidence_fan) option" where
  "command_slot samples command =
     (case evidence_sample_index samples (cmd_timestamp command) of
        None \<Rightarrow> None
      | Some i \<Rightarrow> if cmd_field command \<noteq> ControlPwm then None else Some (i, cmd_fan command))"

text \<open>The slot of a readback: a sample and field of a fan, or the final state of a fan.\<close>

type_synonym readback_slot = "(nat \<times> evidence_fan \<times> fan_readback_field) + evidence_fan"

definition readback_slot_of :: "telemetry_sample_evidence list \<Rightarrow> fan_readback_evidence \<Rightarrow> readback_slot option" where
  "readback_slot_of samples rb =
     (case rb_phase rb of
        Some PhSample \<Rightarrow>
          map_option (\<lambda>i. Inl (i, rb_fan rb, rb_field rb)) (evidence_sample_index samples (rb_timestamp rb))
      | Some PhFinal \<Rightarrow> if rb_field rb = ReadbackEnable then Some (Inr (rb_fan rb)) else None
      | _ \<Rightarrow> None)"

definition control_slots :: "nat \<Rightarrow> (nat \<times> evidence_fan \<times> fan_readback_field) list" where
  "control_slots n =
     concat (map (\<lambda>i. concat (map (\<lambda>fan. map (\<lambda>field. (i, fan, field)) [ReadbackEnable, ReadbackPwm, ReadbackRpm])
       [EvidenceCpu, EvidenceGpu])) [0..<n])"

type_synonym endpoint_identities = "(evidence_fan \<times> fan_readback_field) \<rightharpoonup> string"

definition check_slot ::
  "(nat \<times> evidence_fan \<rightharpoonup> fan_command_evidence) \<Rightarrow> (readback_slot \<rightharpoonup> fan_readback_evidence)
     \<Rightarrow> nat \<times> evidence_fan \<times> fan_readback_field \<Rightarrow> endpoint_identities \<Rightarrow> endpoint_identities option" where
  "check_slot commands readbacks slot ids =
     (case slot of
        (i, fan, field) \<Rightarrow>
          (case (commands (i, fan), readbacks (Inl slot)) of
             (Some command, Some rb) \<Rightarrow>
               (let expected_value =
                      (case field of
                         ReadbackEnable \<Rightarrow> Some 1
                       | ReadbackPwm \<Rightarrow> Some (cmd_value command)
                       | ReadbackRpm \<Rightarrow> rb_value rb)
                in if rb_outcome rb \<noteq> ObsConfirmed \<or> rb_value rb \<noteq> expected_value
                      \<or> monotonic_millis (rb_timestamp rb) < monotonic_millis (cmd_timestamp command)
                      \<or> option_is (\<lambda>identity. identity \<noteq> rb_endpoint_identity rb) (ids (fan, field))
                   then None
                   else Some (ids((fan, field) \<mapsto> rb_endpoint_identity rb)))
           | _ \<Rightarrow> None))"

fun check_slots ::
  "(nat \<times> evidence_fan \<rightharpoonup> fan_command_evidence) \<Rightarrow> (readback_slot \<rightharpoonup> fan_readback_evidence)
     \<Rightarrow> (nat \<times> evidence_fan \<times> fan_readback_field) list \<Rightarrow> endpoint_identities \<Rightarrow> endpoint_identities option" where
  "check_slots commands readbacks [] ids = Some ids"
| "check_slots commands readbacks (slot # slots) ids =
     (case check_slot commands readbacks slot ids of
        None \<Rightarrow> None
      | Some ids' \<Rightarrow> check_slots commands readbacks slots ids')"

definition fan_ends_in_auto ::
  "(readback_slot \<rightharpoonup> fan_readback_evidence) \<Rightarrow> (evidence_fan \<rightharpoonup> restoration_attempt_evidence)
     \<Rightarrow> endpoint_identities \<Rightarrow> evidence_fan \<Rightarrow> bool" where
  "fan_ends_in_auto readbacks attempts ids fan =
     (case (readbacks (Inr fan), attempts fan) of
        (Some rb, Some attempt) \<Rightarrow>
          rb_value rb = Some 2 \<and> rb_outcome rb = ObsConfirmed
          \<and> Some (rb_endpoint_identity rb) = ids (fan, ReadbackEnable)
          \<and> ra_timestamp attempt = rb_timestamp rb
          \<and> ra_auto_write_succeeded attempt
          \<and> ra_enable_readback attempt = Some 2
          \<and> ra_outcome attempt = FirmwareAutoConfirmed
      | _ \<Rightarrow> False)"

definition matched_control_evidence_is_complete :: "'c evidence_record \<Rightarrow> bool" where
  "matched_control_evidence_is_complete rec =
     (let samples = er_samples rec; n = length samples
      in if length (er_commands rec) \<noteq> n * 2 \<or> length (er_readbacks rec) \<noteq> n * 6 + 2
            \<or> length (er_restoration_attempts rec) \<noteq> 2
         then False
         else
           (case place_all (command_slot samples) (er_commands rec) Map.empty of
              None \<Rightarrow> False
            | Some commands \<Rightarrow>
                (case place_all (readback_slot_of samples) (er_readbacks rec) Map.empty of
                   None \<Rightarrow> False
                 | Some readbacks \<Rightarrow>
                     (case place_all (\<lambda>a. Some (ra_fan a)) (er_restoration_attempts rec) Map.empty of
                        None \<Rightarrow> False
                      | Some attempts \<Rightarrow>
                          (case check_slots commands readbacks (control_slots n) Map.empty of
                             None \<Rightarrow> False
                           | Some ids \<Rightarrow>
                               fan_ends_in_auto readbacks attempts ids EvidenceCpu
                               \<and> fan_ends_in_auto readbacks attempts ids EvidenceGpu)))))"

section \<open>Tachometer evidence\<close>

record tachometer_command_state =
  tcs_pwm :: u8
  tcs_confirmed_at_millis :: u64
  tcs_settled :: bool

record tachometer_evidence_state =
  tes_cpu :: "tachometer_command_state option"
  tes_gpu :: "tachometer_command_state option"

datatype tachometer_evidence_error =
  InvalidEvidence | EvidenceDeadlineOverflow | EvidenceOutOfBand u32 u32

definition expected_rpm_from_evidence :: "fan_calibration_evidence \<Rightarrow> u8 \<Rightarrow> ('e, u32 option) outcome" where
  "expected_rpm_from_evidence calibration pwm =
     (let duty = pwm_to_basis_points pwm
      in case find (\<lambda>(_, upper). duty \<le> rae_duty_basis_points upper) (windows2 (fce_anchors calibration)) of
           None \<Rightarrow> Ok None
         | Some (lower, upper) \<Rightarrow>
             bind_ok (interpolate_rpm_values (rae_duty_basis_points lower) (rae_median_rpm lower)
               (rae_duty_basis_points upper) (rae_median_rpm upper) duty) (\<lambda>rpm. Ok (Some rpm)))"

definition sample_commands ::
  "fan_command_evidence list \<Rightarrow> evidence_fan \<Rightarrow> evidence_timestamp \<Rightarrow> fan_command_evidence list" where
  "sample_commands commands fan sample_at =
     filter (\<lambda>c. cmd_fan c = fan \<and> cmd_field c = ControlPwm \<and> timestamp_within_sample (cmd_timestamp c) sample_at)
       commands"

definition sample_readbacks ::
  "fan_readback_evidence list \<Rightarrow> evidence_fan \<Rightarrow> fan_readback_field \<Rightarrow> evidence_timestamp
     \<Rightarrow> fan_readback_evidence list" where
  "sample_readbacks readbacks fan field sample_at =
     filter (\<lambda>rb. rb_fan rb = fan \<and> rb_field rb = field \<and> rb_phase rb = Some PhSample
         \<and> timestamp_within_sample (rb_timestamp rb) sample_at) readbacks"

definition command_state_for :: "u8 \<Rightarrow> u64 \<Rightarrow> tachometer_command_state option \<Rightarrow> tachometer_command_state" where
  "command_state_for pwm confirmed_at state =
     (case state of
        Some cs \<Rightarrow>
          if tcs_pwm cs = pwm then cs
          else if \<not> tcs_settled cs then cs\<lparr>tcs_pwm := pwm, tcs_confirmed_at_millis := confirmed_at\<rparr>
          else \<lparr>tcs_pwm = pwm, tcs_confirmed_at_millis = confirmed_at, tcs_settled = False\<rparr>
      | None \<Rightarrow> \<lparr>tcs_pwm = pwm, tcs_confirmed_at_millis = confirmed_at, tcs_settled = False\<rparr>)"

definition evaluate_tachometer_sample ::
  "evidence_timestamp \<Rightarrow> fan_command_evidence list \<Rightarrow> fan_readback_evidence list \<Rightarrow> evidence_fan
     \<Rightarrow> fan_calibration_evidence
     \<Rightarrow> (tachometer_command_state option, tachometer_evidence_error, unit) io" where
  "evaluate_tachometer_sample sample_at commands readbacks fan calibration state =
     (case (sample_commands commands fan sample_at, sample_readbacks readbacks fan ReadbackPwm sample_at,
            sample_readbacks readbacks fan ReadbackRpm sample_at) of
        ([command], [pwm_readback], [rpm_readback]) \<Rightarrow>
          (if 2 ^ 8 \<le> unat (cmd_value command) then (Err InvalidEvidence, state)
           else
             (case rb_value rpm_readback of
                None \<Rightarrow> (Err InvalidEvidence, state)
              | Some rpm \<Rightarrow>
                  (let pwm = ucast (cmd_value command) :: u8; duty = pwm_to_basis_points pwm
                   in if rb_outcome pwm_readback \<noteq> ObsConfirmed
                         \<or> rb_value pwm_readback \<noteq> Some (cmd_value command)
                         \<or> rb_outcome rpm_readback \<noteq> ObsConfirmed
                         \<or> monotonic_millis (rb_timestamp pwm_readback) < monotonic_millis (cmd_timestamp command)
                         \<or> monotonic_millis (rb_timestamp rpm_readback) < monotonic_millis (rb_timestamp pwm_readback)
                      then (Err InvalidEvidence, state)
                      else if duty < fce_floor_basis_points calibration \<or> 10000 < duty
                      then (Err InvalidEvidence, state)
                      else
                        (case expected_rpm_from_evidence calibration pwm of
                           Panic \<Rightarrow> (Panic, state)
                         | Err e \<Rightarrow> (Err e, state)
                         | Ok None \<Rightarrow> (Err InvalidEvidence, state)
                         | Ok (Some exp_rpm) \<Rightarrow>
                             (let cs = command_state_for pwm (monotonic_millis (rb_timestamp pwm_readback)) state
                              in if rpm_in_band rpm exp_rpm then (Ok (), Some (cs\<lparr>tcs_settled := True\<rparr>))
                                 else if tcs_settled cs then (Err (EvidenceOutOfBand exp_rpm rpm), Some cs)
                                 else
                                   (case word_checked_add (tcs_confirmed_at_millis cs)
                                           (fce_response_deadline_millis calibration) of
                                      None \<Rightarrow> (Err EvidenceDeadlineOverflow, Some cs)
                                    | Some deadline \<Rightarrow>
                                        if monotonic_millis (rb_timestamp rpm_readback) \<le> deadline
                                        then (Ok (), Some cs)
                                        else (Err (EvidenceOutOfBand exp_rpm rpm), Some cs)))))))
      | _ \<Rightarrow> (Err InvalidEvidence, state))"


text \<open>
  The samples in order, the CPU before the GPU, until the first failure; \<open>Ok None\<close> is a failure.
\<close>

definition evaluate_fan ::
  "'c evidence_record \<Rightarrow> evidence_timestamp \<Rightarrow> fan_calibration_evidence \<Rightarrow> evidence_fan
     \<Rightarrow> tachometer_command_state option \<Rightarrow> (unit, tachometer_command_state option option) outcome" where
  "evaluate_fan rec sample_at calibration fan state =
     (case evaluate_tachometer_sample sample_at (er_commands rec) (er_readbacks rec) fan calibration state of
        (Ok _, state') \<Rightarrow> Ok (Some state')
      | (Err _, _) \<Rightarrow> Ok None
      | (Panic, _) \<Rightarrow> Panic)"

fun evaluate_samples ::
  "'c evidence_record \<Rightarrow> fan_calibration_evidence \<Rightarrow> fan_calibration_evidence
     \<Rightarrow> telemetry_sample_evidence list \<Rightarrow> tachometer_evidence_state
     \<Rightarrow> (unit, tachometer_evidence_state option) outcome" where
  "evaluate_samples rec cpu_v gpu_v [] state = Ok (Some state)"
| "evaluate_samples rec cpu_v gpu_v (sample # samples) state =
     bind_ok (evaluate_fan rec (ts_timestamp sample) cpu_v EvidenceCpu (tes_cpu state)) (\<lambda>c.
       case c of
         None \<Rightarrow> Ok None
       | Some cpu_state \<Rightarrow>
           bind_ok (evaluate_fan rec (ts_timestamp sample) gpu_v EvidenceGpu (tes_gpu state)) (\<lambda>g.
             case g of
               None \<Rightarrow> Ok None
             | Some gpu_state \<Rightarrow>
                 evaluate_samples rec cpu_v gpu_v samples \<lparr>tes_cpu = cpu_state, tes_gpu = gpu_state\<rparr>))"

definition pending_fans :: "tachometer_evidence_state \<Rightarrow> evidence_fan list" where
  "pending_fans state =
     (if option_is (\<lambda>s. \<not> tcs_settled s) (tes_cpu state) then [EvidenceCpu] else [])
     @ (if option_is (\<lambda>s. \<not> tcs_settled s) (tes_gpu state) then [EvidenceGpu] else [])"

definition matched_workload_matches_calibration_evidence ::
  "'c evidence_record \<Rightarrow> fan_calibration_evidence \<Rightarrow> fan_calibration_evidence \<Rightarrow> (unit, bool) outcome" where
  "matched_workload_matches_calibration_evidence rec cpu_v gpu_v =
     bind_ok (evaluate_samples rec cpu_v gpu_v (er_samples rec) \<lparr>tes_cpu = None, tes_gpu = None\<rparr>) (\<lambda>state.
       Ok (option_is (\<lambda>s. pending_fans s = []) state))"

definition calibration_of :: "'c evidence_record \<Rightarrow> evidence_fan \<Rightarrow> fan_calibration_evidence option" where
  "calibration_of rec fan = find (\<lambda>c. fce_fan c = fan) (er_calibration rec)"

definition matched_workload_matches_embedded_calibrations :: "'c evidence_record \<Rightarrow> (unit, bool) outcome" where
  "matched_workload_matches_embedded_calibrations rec =
     (case (calibration_of rec EvidenceCpu, calibration_of rec EvidenceGpu) of
        (Some cpu_v, Some gpu_v) \<Rightarrow>
          if length (er_calibration rec) = 2
          then matched_workload_matches_calibration_evidence rec cpu_v gpu_v else Ok False
      | _ \<Rightarrow> Ok False)"

section \<open>A complete run\<close>

definition matched_samples_are_complete :: "'c evidence_record \<Rightarrow> workload_evidence \<Rightarrow> bool" where
  "matched_samples_are_complete rec workload \<longleftrightarrow>
     minimum_matched_workload_samples \<le> length (er_samples rec)
     \<and> list_all (\<lambda>sample.
           ts_freshness sample = SampleFresh
           \<and> option_is (\<lambda>v. plausible_temperature v max_plausible_component_temperature_millicelsius
                 \<and> v < cpu_absolute_abort_millicelsius) (ts_cpu_millicelsius sample)
           \<and> option_is (\<lambda>v. plausible_temperature v max_plausible_component_temperature_millicelsius
                 \<and> v < gpu_absolute_abort_millicelsius) (ts_gpu_millicelsius sample)
           \<and> ts_external_power sample = Some (profile_power (wl_power_profile workload))
           \<and> ts_selected_profile sample = Some (wl_power_profile workload)
           \<and> ts_cpu_source_demand_basis_points sample \<noteq> None
           \<and> ts_gpu_source_demand_basis_points sample \<noteq> None
           \<and> ts_commanded_demand_basis_points sample \<noteq> None
           \<and> ts_cpu_thermal_throttling sample = Some False
           \<and> ts_gpu_thermal_throttling sample = Some False)
         (er_samples rec)"

definition matched_cadence_is_complete :: "'c evidence_record \<Rightarrow> evidence_timestamp \<Rightarrow> bool" where
  "matched_cadence_is_complete rec workload_started_at \<longleftrightarrow>
     option_is (\<lambda>sample. on_cadence (word_checked_sub (monotonic_millis (ts_timestamp sample))
         (monotonic_millis workload_started_at))) (list_first (er_samples rec))
     \<and> list_all (\<lambda>(first, second). on_cadence (word_checked_sub (monotonic_millis (ts_timestamp second))
           (monotonic_millis (ts_timestamp first)))) (windows2 (er_samples rec))"

definition matched_transitions_are_complete ::
  "'c evidence_record \<Rightarrow> evidence_timestamp \<Rightarrow> evidence_timestamp \<Rightarrow> bool" where
  "matched_transitions_are_complete rec workload_started_at captured_at =
     (case er_state_transitions rec of
        [entered, restored] \<Rightarrow>
          st_from entered = ''firmware-auto'' \<and> st_to entered = ''custom-control''
          \<and> st_from restored = ''custom-control'' \<and> st_to restored = ''firmware-auto''
          \<and> monotonic_millis captured_at \<le> monotonic_millis (st_timestamp entered)
          \<and> monotonic_millis (st_timestamp entered) \<le> monotonic_millis workload_started_at
          \<and> monotonic_millis workload_started_at \<le> monotonic_millis (st_timestamp restored)
      | _ \<Rightarrow> False)"

definition starting_temperatures_are_safe :: "workload_evidence \<Rightarrow> bool" where
  "starting_temperatures_are_safe workload \<longleftrightarrow>
     plausible_temperature (wl_ambient_millicelsius workload) max_plausible_ambient_millicelsius
     \<and> plausible_temperature (wl_starting_cpu_millicelsius workload) max_plausible_component_temperature_millicelsius
     \<and> plausible_temperature (wl_starting_gpu_millicelsius workload) max_plausible_component_temperature_millicelsius
     \<and> wl_starting_cpu_millicelsius workload < cpu_absolute_abort_millicelsius
     \<and> wl_starting_gpu_millicelsius workload < gpu_absolute_abort_millicelsius"

definition matched_workload_is_complete :: "'c evidence_record \<Rightarrow> (unit, bool) outcome" where
  "matched_workload_is_complete rec =
     (case (er_workload rec, er_workload_started_at rec, er_starting_conditions_captured_at rec) of
        (Some workload, Some workload_started_at, Some captured_at) \<Rightarrow>
          if er_schema_version rec = evidence_schema_version_v2
             \<and> er_stage rec = ''matched-workload''
             \<and> ro_status (er_outcome rec) = Passed
             \<and> ro_final_firmware_auto_confirmed (er_outcome rec)
             \<and> monotonic_millis (er_started_at rec) \<le> monotonic_millis captured_at
             \<and> monotonic_millis captured_at \<le> monotonic_millis workload_started_at
             \<and> starting_temperatures_are_safe workload
             \<and> matched_samples_are_complete rec workload
             \<and> matched_cadence_is_complete rec workload_started_at
             \<and> matched_control_evidence_is_complete rec
             \<and> matched_transitions_are_complete rec workload_started_at captured_at
             \<and> option_is (\<lambda>summary. summary = summarize_thermal_evidence (er_samples rec) True [] [])
                 (er_thermal_summary rec)
             \<and> er_faults rec = []
          then matched_workload_matches_embedded_calibrations rec else Ok False
      | _ \<Rightarrow> Ok False)"

section \<open>Comparison with a baseline\<close>

record thermal_comparison =
  peaks_acceptable :: bool
  percentiles_acceptable :: bool
  slopes_acceptable :: bool

definition i32_saturating_add :: "i32 \<Rightarrow> i32 \<Rightarrow> i32" where
  "i32_saturating_add a b = max (- (2 ^ 31)) (min (2 ^ 31 - 1) (a + b))"

definition comparison_accepted :: "thermal_comparison \<Rightarrow> bool" where
  "comparison_accepted c \<longleftrightarrow> peaks_acceptable c \<and> percentiles_acceptable c \<and> slopes_acceptable c"

definition evaluate_thermal_comparison ::
  "thermal_summary_evidence \<Rightarrow> thermal_summary_evidence \<Rightarrow> telemetry_sample_evidence list \<Rightarrow> thermal_comparison" where
  "evaluate_thermal_comparison baseline custom custom_samples =
     (let not_hotter = (\<lambda>field. field custom \<le> i32_saturating_add (field baseline) thermal_comparison_margin_millicelsius);
          limit = f64_of_int thermal_slope_limit_millicelsius_per_minute
      in case precise_final_thermal_slopes custom_samples of
           (cpu_slope, gpu_slope) \<Rightarrow>
             \<lparr>peaks_acceptable = not_hotter th_cpu_peak_millicelsius \<and> not_hotter th_gpu_peak_millicelsius,
              percentiles_acceptable = not_hotter th_cpu_p95_millicelsius \<and> not_hotter th_gpu_p95_millicelsius,
              slopes_acceptable = f64_le cpu_slope limit \<and> f64_le gpu_slope limit\<rparr>)"

definition matched_sample_offsets :: "'c evidence_record \<Rightarrow> u64 list option" where
  "matched_sample_offsets rec =
     (case er_workload_started_at rec of
        None \<Rightarrow> None
      | Some workload_started_at \<Rightarrow>
          (case those (map (\<lambda>s. word_checked_sub (monotonic_millis (ts_timestamp s))
                  (monotonic_millis workload_started_at)) (er_samples rec)) of
             None \<Rightarrow> None
           | Some offsets \<Rightarrow>
               if on_cadence (list_first offsets)
                  \<and> list_all (\<lambda>(a, b). on_cadence (word_checked_sub b a)) (windows2 offsets)
               then Some offsets else None))"

definition matched_workload_matches_baseline :: "'c evidence_record \<Rightarrow> 'c evidence_record \<Rightarrow> bool" where
  "matched_workload_matches_baseline custom baseline =
     (case (er_workload custom, er_workload baseline, er_thermal_summary custom, er_thermal_summary baseline) of
        (Some cw, Some bw, Some cs, Some bs) \<Rightarrow>
          wl_workload_id cw = wl_workload_id bw
          \<and> wl_command cw = wl_command bw
          \<and> wl_version cw = wl_version bw
          \<and> wl_power_profile cw = wl_power_profile bw
          \<and> \<bar>wl_ambient_millicelsius cw - wl_ambient_millicelsius bw\<bar> \<le> ambient_comparability_millicelsius
          \<and> \<bar>wl_starting_cpu_millicelsius cw - wl_starting_cpu_millicelsius bw\<bar>
              \<le> starting_temperature_comparability_millicelsius
          \<and> \<bar>wl_starting_gpu_millicelsius cw - wl_starting_gpu_millicelsius bw\<bar>
              \<le> starting_temperature_comparability_millicelsius
          \<and> length (er_samples custom) = length (er_samples baseline)
          \<and> (case (matched_sample_offsets custom, matched_sample_offsets baseline) of
               (Some co, Some bo) \<Rightarrow>
                 length co = length bo
                 \<and> list_all (\<lambda>(c, b). word_abs_diff c b \<le> sample_cadence_jitter_millis) (zip co bo)
             | _ \<Rightarrow> False)
          \<and> comparison_accepted (evaluate_thermal_comparison bs cs (er_samples custom))
          \<and> th_system_stable cs = Some True
          \<and> th_kernel_faults cs = []
          \<and> th_nvidia_faults cs = []
      | _ \<Rightarrow> False)"

definition covers_final_five_minutes :: "'c evidence_record \<Rightarrow> bool" where
  "covers_final_five_minutes rec =
     (case (list_first (er_samples rec), list_last (er_samples rec)) of
        (Some lo, Some hi) \<Rightarrow>
          option_is (\<lambda>span. 5 * 60 * 1000 \<le> span)
            (word_checked_sub (monotonic_millis (ts_timestamp hi)) (monotonic_millis (ts_timestamp lo)))
      | _ \<Rightarrow> False)"

end
