(* ===== verification/Evidence_Endurance.thy ===== *)
theory Evidence_Endurance
  imports Evidence_Workload
begin

text \<open>
  What a supervised endurance run has to show (\<open>supervised_endurance_is_complete\<close> of
  \<open>fan-control-core/src/endurance.rs\<close>, and the attestation of its observer in \<open>evidence.rs\<close>): one hour in six
  segments, a sample every two seconds, the stop of the workload and of the service, and the thermal
  envelope.
\<close>

section \<open>The schedule\<close>

definition supervised_endurance_duration_millis :: u64 where
  "supervised_endurance_duration_millis = 60 * 60 * 1000"
definition supervised_endurance_sample_count :: nat where "supervised_endurance_sample_count = 1800"
definition supervised_endurance_workload_id :: string where
  "supervised_endurance_workload_id = ''supervised-mixed-endurance''"
definition qualification_workload_version :: string where "qualification_workload_version = ''1.0.0''"
definition segment_transition_window_millis :: u64 where
  "segment_transition_window_millis = sample_cadence_millis"
definition operation_timeout_millis :: u64 where "operation_timeout_millis = 10000"
definition endurance_slope_limit_millicelsius_per_minute :: f64 where
  "endurance_slope_limit_millicelsius_per_minute = Fin 1000"
definition load_minimum_utilization_basis_points :: u16 where "load_minimum_utilization_basis_points = 5000"
definition idle_maximum_utilization_basis_points :: u16 where "idle_maximum_utilization_basis_points = 1000"

datatype supervised_endurance_load = EnduranceLoad | EnduranceIdle

record supervised_endurance_segment =
  sg_id :: string
  sg_power_profile :: evidence_profile
  sg_load :: supervised_endurance_load
  sg_duration_millis :: u64

definition segment ::
  "string \<Rightarrow> evidence_profile \<Rightarrow> supervised_endurance_load \<Rightarrow> u64 \<Rightarrow> supervised_endurance_segment" where
  "segment name profile load duration =
     \<lparr>sg_id = name, sg_power_profile = profile, sg_load = load, sg_duration_millis = duration\<rparr>"

definition supervised_endurance_segments :: "supervised_endurance_segment list" where
  "supervised_endurance_segments =
     [segment ''endurance-ac-load-1'' ProfileAc EnduranceLoad (15 * 60 * 1000),
      segment ''endurance-ac-idle-1'' ProfileAc EnduranceIdle (10 * 60 * 1000),
      segment ''endurance-battery-load'' ProfileBattery EnduranceLoad (10 * 60 * 1000),
      segment ''endurance-battery-idle'' ProfileBattery EnduranceIdle (5 * 60 * 1000),
      segment ''endurance-ac-load-2'' ProfileAc EnduranceLoad (10 * 60 * 1000),
      segment ''endurance-ac-idle-2'' ProfileAc EnduranceIdle (10 * 60 * 1000)]"

fun segment_search :: "u64 \<Rightarrow> u64 \<Rightarrow> nat \<Rightarrow> supervised_endurance_segment list \<Rightarrow> nat option" where
  "segment_search elapsed ending index [] = None"
| "segment_search elapsed ending index (s # segments) =
     (if elapsed \<le> ending + sg_duration_millis s then Some index
      else segment_search elapsed (ending + sg_duration_millis s) (index + 1) segments)"

definition segment_index_at_elapsed :: "u64 \<Rightarrow> nat" where
  "segment_index_at_elapsed elapsed =
     option_or (length supervised_endurance_segments - 1) (segment_search elapsed 0 0 supervised_endurance_segments)"

fun checked_sum :: "u64 \<Rightarrow> u64 list \<Rightarrow> u64 option" where
  "checked_sum acc [] = Some acc"
| "checked_sum acc (x # xs) = (case word_checked_add acc x of None \<Rightarrow> None | Some acc' \<Rightarrow> checked_sum acc' xs)"

definition segment_boundary_elapsed :: "nat \<Rightarrow> u64 option" where
  "segment_boundary_elapsed segment_index =
     (if length supervised_endurance_segments < segment_index then None
      else checked_sum 0 (map sg_duration_millis (take segment_index supervised_endurance_segments)))"

definition canonical_endurance_workload :: "workload_evidence \<Rightarrow> bool" where
  "canonical_endurance_workload workload \<longleftrightarrow>
     wl_workload_id workload = supervised_endurance_workload_id
     \<and> wl_power_profile workload = ProfileAc
     \<and> wl_version workload = qualification_workload_version
     \<and> wl_command workload = [''/usr/lib/pt31553-fan-control/workloads/mixed'', ''--fixed'']"

definition sample_utilization_matches :: "telemetry_sample_evidence \<Rightarrow> supervised_endurance_load \<Rightarrow> bool" where
  "sample_utilization_matches sample load =
     (case (ts_cpu_utilization_basis_points sample, ts_gpu_utilization_basis_points sample) of
        (Some cpu_v, Some gpu_v) \<Rightarrow>
          if 10000 < cpu_v \<or> 10000 < gpu_v then False
          else
            (case load of
               EnduranceLoad \<Rightarrow>
                 load_minimum_utilization_basis_points \<le> cpu_v \<and> load_minimum_utilization_basis_points \<le> gpu_v
             | EnduranceIdle \<Rightarrow>
                 cpu_v \<le> idle_maximum_utilization_basis_points \<and> gpu_v \<le> idle_maximum_utilization_basis_points)
      | _ \<Rightarrow> False)"

definition endurance_sample_matches :: "evidence_timestamp \<Rightarrow> nat \<Rightarrow> telemetry_sample_evidence \<Rightarrow> bool" where
  "endurance_sample_matches workload_started_at index sample =
     (let elapsed = (of_nat index + 1) * sample_cadence_millis;
          s = supervised_endurance_segments ! segment_index_at_elapsed elapsed
      in option_is (\<lambda>expected. word_abs_diff (monotonic_millis (ts_timestamp sample)) expected
             \<le> sample_cadence_jitter_millis)
           (word_checked_add (monotonic_millis workload_started_at) elapsed)
         \<and> ts_freshness sample = SampleFresh
         \<and> ts_external_power sample = Some (profile_power (sg_power_profile s))
         \<and> ts_selected_profile sample = Some (sg_power_profile s)
         \<and> sample_utilization_matches sample (sg_load s)
         \<and> option_is (\<lambda>v. plausible_temperature v max_plausible_component_temperature_millicelsius
               \<and> v < cpu_absolute_abort_millicelsius) (ts_cpu_millicelsius sample)
         \<and> option_is (\<lambda>v. plausible_temperature v max_plausible_component_temperature_millicelsius
               \<and> v < gpu_absolute_abort_millicelsius) (ts_gpu_millicelsius sample)
         \<and> ts_cpu_thermal_throttling sample = Some False
         \<and> ts_gpu_thermal_throttling sample = Some False)"

definition endurance_schedule_matches :: "'c evidence_record \<Rightarrow> evidence_timestamp \<Rightarrow> bool" where
  "endurance_schedule_matches rec workload_started_at \<longleftrightarrow>
     list_all (\<lambda>(index, sample). endurance_sample_matches workload_started_at index sample)
       (zip [0..<length (er_samples rec)] (er_samples rec))"

definition endurance_transition_names_match :: "'c evidence_record \<Rightarrow> bool" where
  "endurance_transition_names_match rec =
     (let ts = er_state_transitions rec; ids = map sg_id supervised_endurance_segments
      in option_is (\<lambda>t. st_from t = ''firmware-auto'' \<and> st_to t = ''custom-control'') (list_first ts)
         \<and> option_is (\<lambda>t. st_from t = ''custom-control'' \<and> st_to t = hd ids) (list_get ts 1)
         \<and> list_all (\<lambda>(index, a, b). option_is (\<lambda>t. st_from t = a \<and> st_to t = b) (list_get ts (index + 2)))
             (zip [0..<length ids] (windows2 ids))
         \<and> option_is (\<lambda>t. st_from t = last ids \<and> st_to t = ''firmware-auto'') (list_last ts))"

text \<open>A segment without a boundary is an \<open>expect\<close>; every index of the schedule has one.\<close>

definition transition_at_boundary :: "'c evidence_record \<Rightarrow> evidence_timestamp \<Rightarrow> nat \<Rightarrow> bool" where
  "transition_at_boundary rec workload_started_at segment_index =
     option_is (\<lambda>boundary.
         option_is (\<lambda>t. boundary \<le> monotonic_millis (st_timestamp t)
             \<and> monotonic_millis (st_timestamp t) \<le> word_saturating_add boundary segment_transition_window_millis)
           (list_get (er_state_transitions rec) (segment_index + 1)))
       (word_checked_add (monotonic_millis workload_started_at)
          (option_or 0 (segment_boundary_elapsed segment_index)))"

definition endurance_transition_timestamps_match ::
  "'c evidence_record \<Rightarrow> evidence_timestamp \<Rightarrow> evidence_timestamp \<Rightarrow> bool" where
  "endurance_transition_timestamps_match rec workload_started_at captured_at =
     (let ts = er_state_transitions rec
      in option_is (\<lambda>entered.
             monotonic_millis (er_started_at rec) \<le> monotonic_millis captured_at
             \<and> monotonic_millis captured_at \<le> monotonic_millis (st_timestamp entered)
             \<and> option_is (\<lambda>initial.
                   monotonic_millis (st_timestamp entered) \<le> monotonic_millis (st_timestamp initial)
                   \<and> monotonic_millis (st_timestamp initial) \<le> monotonic_millis workload_started_at)
                 (list_get ts 1)) (list_first ts)
         \<and> list_all (transition_at_boundary rec workload_started_at) [1..<length supervised_endurance_segments]
         \<and> list_all (\<lambda>(a, b). monotonic_millis (st_timestamp a) \<le> monotonic_millis (st_timestamp b)) (windows2 ts)
         \<and> option_is (\<lambda>restored.
               option_is (\<lambda>sample.
                   monotonic_millis (ts_timestamp sample) \<le> monotonic_millis (st_timestamp restored)
                   \<and> monotonic_millis (st_timestamp restored) \<le> monotonic_millis (er_completed_at rec))
                 (list_last (er_samples rec))) (list_last ts))"

section \<open>The stop\<close>

definition endurance_cleanup_matches :: "'c evidence_record \<Rightarrow> evidence_timestamp \<Rightarrow> bool" where
  "endurance_cleanup_matches rec workload_started_at =
     (case er_process_stops rec of
        [workload_stop, service_stop] \<Rightarrow>
          ps_process workload_stop = StoppedWorkload
          \<and> ps_process_identity workload_stop = ''/usr/lib/pt31553-fan-control/workloads/mixed''
          \<and> \<not> ps_running workload_stop
          \<and> ps_process service_stop = StoppedService
          \<and> ps_process_identity service_stop = ''pt31553-fan-control.service''
          \<and> \<not> ps_running service_stop
          \<and> option_is (\<lambda>endpoint.
                endpoint \<le> monotonic_millis (ps_requested_at workload_stop)
                \<and> monotonic_millis (ps_requested_at workload_stop)
                    \<le> word_saturating_add endpoint sample_cadence_jitter_millis)
              (word_checked_add (monotonic_millis workload_started_at) supervised_endurance_duration_millis)
          \<and> monotonic_millis (ps_confirmed_at workload_stop)
              \<le> word_saturating_add (monotonic_millis (ps_requested_at workload_stop)) operation_timeout_millis
          \<and> monotonic_millis (ps_confirmed_at workload_stop) \<le> monotonic_millis (ps_requested_at service_stop)
          \<and> monotonic_millis (ps_confirmed_at service_stop)
              \<le> word_saturating_add (monotonic_millis (ps_requested_at service_stop)) operation_timeout_millis
          \<and> list_all (\<lambda>attempt. monotonic_millis (ps_confirmed_at service_stop)
                \<le> monotonic_millis (ra_timestamp attempt)) (er_restoration_attempts rec)
          \<and> list_all (\<lambda>t. monotonic_millis (ps_confirmed_at service_stop) \<le> t) (final_readback_times rec)
          \<and> option_is (\<lambda>restored. monotonic_millis (ps_confirmed_at service_stop)
                \<le> monotonic_millis (st_timestamp restored)) (list_last (er_state_transitions rec))
      | _ \<Rightarrow> False)"

section \<open>The observer\<close>

definition timestamp_is_between :: "evidence_timestamp \<Rightarrow> evidence_timestamp \<Rightarrow> evidence_timestamp \<Rightarrow> bool" where
  "timestamp_is_between timestamp lower upper \<longleftrightarrow>
     timestamp_precedes lower timestamp \<and> timestamp_precedes timestamp upper"

definition has_check_between ::
  "endurance_observer_attestation_evidence \<Rightarrow> evidence_timestamp \<Rightarrow> evidence_timestamp \<Rightarrow> bool" where
  "has_check_between attestation lower upper =
     list_ex (\<lambda>check. timestamp_is_between check lower upper) (oa_checks attestation)"

definition timestamp_strictly_before :: "evidence_timestamp \<Rightarrow> evidence_timestamp \<Rightarrow> bool" where
  "timestamp_strictly_before a b \<longleftrightarrow> monotonic_millis a < monotonic_millis b \<and> wall_ms a < wall_ms b"

definition sample_has_confirmation ::
  "'c evidence_record \<Rightarrow> endurance_observer_attestation_evidence \<Rightarrow> evidence_timestamp \<Rightarrow> nat \<Rightarrow> bool" where
  "sample_has_confirmation rec attestation workload_started_at index =
     (let lower = (if index = 0 then workload_started_at else ts_timestamp (er_samples rec ! (index - 1)));
          sample = er_samples rec ! index
      in list_ex (\<lambda>check. timestamp_strictly_before lower check \<and> timestamp_precedes check (ts_timestamp sample))
           (oa_checks attestation))"

definition transition_has_confirmation ::
  "'c evidence_record \<Rightarrow> endurance_observer_attestation_evidence \<Rightarrow> evidence_timestamp
     \<Rightarrow> state_transition_evidence \<Rightarrow> bool" where
  "transition_has_confirmation rec attestation workload_started_at transition =
     (let lower = (case find (\<lambda>sample. timestamp_strictly_before (ts_timestamp sample) (st_timestamp transition))
                          (rev (er_samples rec)) of
                     None \<Rightarrow> workload_started_at
                   | Some sample \<Rightarrow> ts_timestamp sample)
      in has_check_between attestation lower (st_timestamp transition))"

definition i64_gap_at_most :: "evidence_timestamp \<Rightarrow> evidence_timestamp \<Rightarrow> int \<Rightarrow> bool" where
  "i64_gap_at_most later earlier limit \<longleftrightarrow>
     (let gap = wall_ms later - wall_ms earlier in - (2 ^ 63) \<le> gap \<and> gap < 2 ^ 63 \<and> gap \<le> limit)"

definition endurance_observer_attestation_is_valid ::
  "'c evidence_record \<Rightarrow> endurance_observer_attestation_evidence \<Rightarrow> bool" where
  "endurance_observer_attestation_is_valid rec attestation =
     (let checks = oa_checks attestation; ts = er_state_transitions rec
      in case (list_first checks, list_last checks, er_workload_started_at rec) of
           (Some lo, Some hi, Some workload_started_at) \<Rightarrow>
             length checks = length (er_samples rec) + length ts + 4
             \<and> lo = oa_started_at attestation
             \<and> hi = oa_completed_at attestation
             \<and> timestamp_precedes (er_started_at rec) (oa_started_at attestation)
             \<and> timestamp_precedes (oa_completed_at attestation) (er_completed_at rec)
             \<and> option_is (\<lambda>entered.
                   has_check_between attestation (er_started_at rec) (st_timestamp entered)
                   \<and> option_is (\<lambda>initial.
                         has_check_between attestation (st_timestamp entered) (st_timestamp initial)
                         \<and> has_check_between attestation (st_timestamp initial) workload_started_at)
                       (list_get ts 1)) (list_first ts)
             \<and> list_all (transition_has_confirmation rec attestation workload_started_at)
                 (take (length ts - 3) (drop 2 ts))
             \<and> list_all (sample_has_confirmation rec attestation workload_started_at) [0..<length (er_samples rec)]
             \<and> option_is (\<lambda>stop.
                   option_is (\<lambda>sample. has_check_between attestation (ts_timestamp sample) (ps_requested_at stop))
                     (list_last (er_samples rec))
                   \<and> timestamp_precedes (ps_confirmed_at stop) (oa_completed_at attestation))
                 (find (\<lambda>stop. ps_process stop = StoppedService \<and> \<not> ps_running stop) (er_process_stops rec))
             \<and> list_all (\<lambda>(a, b).
                   timestamp_strictly_before a b \<and> monotonic_millis b - monotonic_millis a \<le> 5000
                   \<and> i64_gap_at_most b a 5000) (windows2 checks)
         | _ \<Rightarrow> False)"

section \<open>The thermal envelope\<close>

datatype supervised_endurance_plan_error =
    InvalidQualificationEvidence string string
  | IncompleteWorkloadMatrix string
  | InvalidPlannedWorkload string
  | InvalidGeneratedEvidence evidence_validation_error

definition add_thermal_margin :: "i32 \<Rightarrow> i32 \<Rightarrow> string \<Rightarrow> (supervised_endurance_plan_error, i32) outcome" where
  "add_thermal_margin v limit field =
     (let derived = v + thermal_comparison_margin_millicelsius
      in if derived < 2 ^ 31 \<and> 0 < derived \<and> derived < limit then Ok derived
         else Err (InvalidQualificationEvidence ''baseline thermal envelope''
                (field @ '' plus comparison margin exceeds the supported limit'')))"

definition endurance_thermal_envelope ::
  "'c evidence_record list \<Rightarrow> (supervised_endurance_plan_error, endurance_thermal_envelope_evidence) outcome" where
  "endurance_thermal_envelope baselines =
     (let summaries = List.map_filter er_thermal_summary baselines;
          highest = (\<lambda>field. Max (set (map field summaries)))
      in if summaries = [] then Err (IncompleteWorkloadMatrix ''all baselines require thermal summaries'')
         else
           bind_ok (add_thermal_margin (highest th_cpu_peak_millicelsius) cpu_absolute_abort_millicelsius ''CPU peak'')
             (\<lambda>cpu_peak.
           bind_ok (add_thermal_margin (highest th_gpu_peak_millicelsius) gpu_absolute_abort_millicelsius ''GPU peak'')
             (\<lambda>gpu_peak.
           bind_ok (add_thermal_margin (highest th_cpu_p95_millicelsius) cpu_absolute_abort_millicelsius ''CPU p95'')
             (\<lambda>cpu_p95.
           bind_ok (add_thermal_margin (highest th_gpu_p95_millicelsius) gpu_absolute_abort_millicelsius ''GPU p95'')
             (\<lambda>gpu_p95.
             Ok \<lparr>ee_cpu_peak_limit_millicelsius = cpu_peak, ee_gpu_peak_limit_millicelsius = gpu_peak,
                 ee_cpu_p95_limit_millicelsius = cpu_p95, ee_gpu_p95_limit_millicelsius = gpu_p95\<rparr>)))))"

definition validate_endurance_thermal_limits_against_envelope ::
  "thermal_summary_evidence \<Rightarrow> telemetry_sample_evidence list \<Rightarrow> endurance_thermal_envelope_evidence
     \<Rightarrow> (supervised_endurance_plan_error, unit) outcome" where
  "validate_endurance_thermal_limits_against_envelope summary samples envelope =
     (case precise_final_thermal_slopes samples of
        (cpu_slope, gpu_slope) \<Rightarrow>
          if cpu_absolute_abort_millicelsius \<le> ee_cpu_peak_limit_millicelsius envelope
             \<or> gpu_absolute_abort_millicelsius \<le> ee_gpu_peak_limit_millicelsius envelope
             \<or> ee_cpu_peak_limit_millicelsius envelope < ee_cpu_p95_limit_millicelsius envelope
             \<or> ee_gpu_peak_limit_millicelsius envelope < ee_gpu_p95_limit_millicelsius envelope
             \<or> th_system_stable summary \<noteq> Some True
             \<or> th_kernel_faults summary \<noteq> []
             \<or> th_nvidia_faults summary \<noteq> []
             \<or> ee_cpu_peak_limit_millicelsius envelope < th_cpu_peak_millicelsius summary
             \<or> ee_gpu_peak_limit_millicelsius envelope < th_gpu_peak_millicelsius summary
             \<or> ee_cpu_p95_limit_millicelsius envelope < th_cpu_p95_millicelsius summary
             \<or> ee_gpu_p95_limit_millicelsius envelope < th_gpu_p95_millicelsius summary
             \<or> f64_less endurance_slope_limit_millicelsius_per_minute cpu_slope
             \<or> f64_less endurance_slope_limit_millicelsius_per_minute gpu_slope
          then Err (InvalidQualificationEvidence ''supervised endurance'' ''thermal or stability envelope was exceeded'')
          else Ok ())"

definition validate_endurance_thermal_limits_against_baselines ::
  "thermal_summary_evidence \<Rightarrow> telemetry_sample_evidence list \<Rightarrow> 'c evidence_record list
     \<Rightarrow> (supervised_endurance_plan_error, unit) outcome" where
  "validate_endurance_thermal_limits_against_baselines summary samples baselines =
     bind_ok (endurance_thermal_envelope baselines)
       (validate_endurance_thermal_limits_against_envelope summary samples)"

section \<open>A complete run\<close>

definition endurance_thermal_evidence_matches :: "'c evidence_record \<Rightarrow> bool" where
  "endurance_thermal_evidence_matches rec =
     option_is (\<lambda>summary.
         summary = summarize_thermal_evidence (er_samples rec) True [] []
         \<and> option_is (\<lambda>envelope.
               is_ok (validate_endurance_thermal_limits_against_envelope summary (er_samples rec) envelope))
             (er_endurance_thermal_envelope rec)) (er_thermal_summary rec)"

definition supervised_endurance_is_complete :: "'c evidence_record \<Rightarrow> bool" where
  "supervised_endurance_is_complete rec =
     (case (er_workload_started_at rec, er_starting_conditions_captured_at rec) of
        (Some workload_started_at, Some captured_at) \<Rightarrow>
          er_schema_version rec = evidence_schema_version_v2
          \<and> er_record_status rec = RecordComplete
          \<and> er_stage rec = ''supervised-endurance''
          \<and> option_is canonical_endurance_workload (er_workload rec)
          \<and> length (er_samples rec) = supervised_endurance_sample_count
          \<and> length (er_commands rec) = supervised_endurance_sample_count * 2
          \<and> length (er_readbacks rec) = supervised_endurance_sample_count * 6 + 2
          \<and> length (er_state_transitions rec) = length supervised_endurance_segments + 2
          \<and> map ra_fan (er_restoration_attempts rec) = [EvidenceCpu, EvidenceGpu]
          \<and> endurance_cleanup_matches rec workload_started_at
          \<and> er_faults rec = []
          \<and> er_calibration rec = []
          \<and> endurance_schedule_matches rec workload_started_at
          \<and> option_is starting_temperatures_are_safe (er_workload rec)
          \<and> endurance_transition_names_match rec
          \<and> endurance_transition_timestamps_match rec workload_started_at captured_at
          \<and> option_is (endurance_observer_attestation_is_valid rec) (er_endurance_observer_attestation rec)
          \<and> matched_control_evidence_is_complete rec
          \<and> endurance_thermal_evidence_matches rec
          \<and> ro_status (er_outcome rec) = Passed
          \<and> \<not> ro_another_passing_run_required (er_outcome rec)
          \<and> ro_final_firmware_auto_confirmed (er_outcome rec)
      | _ \<Rightarrow> False)"

end
