(* ===== verification/Evidence.thy ===== *)
theory Evidence
  imports Evidence_Endurance Calibration_Progress
begin

text \<open>
  Validation of a qualification record (\<open>EvidenceRecord::validate\<close> of \<open>evidence.rs\<close>), check by check in the
  order of the code, with the error each one returns. The rules for the cases of a live lifecycle run
  (\<open>live_lifecycle.rs\<close>) are a parameter. Its properties are in
  \<open>Evidence_Contract\<close>.
\<close>

section \<open>Parameters and combinators\<close>

record 'c lifecycle_rules =
  post_reboot_boot_id :: "'c evidence_record \<Rightarrow> string option"
  cases_are_well_formed :: "'c evidence_record \<Rightarrow> bool"
  lifecycle_is_complete :: "'c evidence_record \<Rightarrow> bool"

type_synonym checked_evidence = "(evidence_validation_error, unit) outcome"

definition require_ok :: "bool \<Rightarrow> evidence_validation_error \<Rightarrow> checked_evidence" where
  "require_ok b e = (if b then Ok () else Err e)"

definition and_then :: "checked_evidence \<Rightarrow> checked_evidence \<Rightarrow> checked_evidence" where
  "and_then a b = bind_ok a (\<lambda>_. b)"

text \<open>A sequence of checks, each ending with the question-mark operator.\<close>

fun all_checks :: "checked_evidence list \<Rightarrow> checked_evidence" where
  "all_checks [] = Ok ()"
| "all_checks (c # cs) = and_then c (all_checks cs)"

fun check_each :: "(nat \<Rightarrow> 'a \<Rightarrow> checked_evidence) \<Rightarrow> nat \<Rightarrow> 'a list \<Rightarrow> checked_evidence" where
  "check_each f i [] = Ok ()"
| "check_each f i (x # xs) = and_then (f i x) (check_each f (i + 1) xs)"

definition is_v2 :: "'c evidence_record \<Rightarrow> bool" where
  "is_v2 rec \<longleftrightarrow> er_schema_version rec = evidence_schema_version_v2"

definition stage_is :: "string \<Rightarrow> 'c evidence_record \<Rightarrow> bool" where
  "stage_is stage rec \<longleftrightarrow> is_v2 rec \<and> er_stage rec = stage"

definition status_is :: "run_outcome_status \<Rightarrow> 'c evidence_record \<Rightarrow> bool" where
  "status_is wanted rec \<longleftrightarrow> ro_status (er_outcome rec) = wanted"

section \<open>Fields of the schema versions\<close>

definition incompatible_if :: "bool \<Rightarrow> string \<Rightarrow> checked_evidence" where
  "incompatible_if b field = require_ok (\<not> b) (IncompatibleSchemaField field)"

definition validate_schema_fields :: "'c evidence_record \<Rightarrow> checked_evidence" where
  "validate_schema_fields rec =
     (if er_schema_version rec \<noteq> evidence_schema_version then Ok ()
      else all_checks
        [incompatible_if (er_starting_conditions_captured_at rec \<noteq> None) ''starting_conditions_captured_at'',
         incompatible_if (er_workload_started_at rec \<noteq> None) ''workload_started_at'',
         incompatible_if (er_baseline_binding_sha256 rec \<noteq> None) ''baseline_binding_sha256'',
         incompatible_if (er_preflight_binding_sha256 rec \<noteq> None) ''preflight_binding_sha256'',
         incompatible_if (er_prerequisite_binding_sha256 rec \<noteq> None) ''prerequisite_binding_sha256'',
         incompatible_if (er_nvidia_gpu_uuid rec \<noteq> None) ''nvidia_gpu_uuid'',
         incompatible_if (er_fan_endpoint_identities rec \<noteq> None) ''fan_endpoint_identities'',
         incompatible_if (er_firmware_auto_cleanup rec \<noteq> None) ''firmware_auto_cleanup'',
         incompatible_if (er_preflight_checks rec \<noteq> None) ''preflight_checks'',
         incompatible_if (er_live_lifecycle_cases rec \<noteq> None) ''live_lifecycle_cases'',
         incompatible_if (er_endurance_observer_attestation rec \<noteq> None) ''endurance_observer_attestation'',
         incompatible_if (list_ex (\<lambda>rb. rb_phase rb \<noteq> None \<or> rb_source_timestamp rb \<noteq> None
             \<or> rb_fresh rb \<noteq> None \<or> rb_boot_id rb \<noteq> None) (er_readbacks rec)) ''readbacks.v2_fields'',
         incompatible_if (list_ex (\<lambda>t. st_boot_id t \<noteq> None) (er_state_transitions rec)) ''state_transitions.boot_id'',
         incompatible_if (list_ex (\<lambda>f. fa_boot_id f \<noteq> None) (er_faults rec)) ''faults.boot_id'',
         incompatible_if (option_is (\<lambda>s. th_system_stable s \<noteq> None) (er_thermal_summary rec))
           ''thermal_summary.system_stable''])"

section \<open>Fields of the stages\<close>

definition invalid_unless :: "bool \<Rightarrow> string \<Rightarrow> nat \<Rightarrow> checked_evidence" where
  "invalid_unless b field index = require_ok b (InvalidValue field index)"

definition baseline_binding_ok :: "'c evidence_record \<Rightarrow> bool" where
  "baseline_binding_ok rec =
     (if stage_is ''matched-workload'' rec
      then option_is (\<lambda>binding. evidence_is_lower_hex binding 64) (er_baseline_binding_sha256 rec)
      else er_baseline_binding_sha256 rec = None)"

definition preflight_binding_ok :: "'c evidence_record \<Rightarrow> bool" where
  "preflight_binding_ok rec =
     (if stage_is ''firmware-auto-baseline'' rec
      then option_is (\<lambda>binding. evidence_is_lower_hex binding 64) (er_preflight_binding_sha256 rec)
      else er_preflight_binding_sha256 rec = None)"

definition prerequisite_binding_ok :: "'c evidence_record \<Rightarrow> bool" where
  "prerequisite_binding_ok rec =
     (case er_prerequisite_binding_sha256 rec of
        Some binding \<Rightarrow>
          (stage_is ''fan-calibration'' rec \<or> stage_is ''live-lifecycle'' rec
             \<or> stage_is ''supervised-endurance'' rec) \<and> evidence_is_lower_hex binding 64
      | None \<Rightarrow> \<not> stage_is ''live-lifecycle'' rec \<and> \<not> stage_is ''supervised-endurance'' rec)"

definition nvidia_gpu_uuid_ok :: "'c evidence_record \<Rightarrow> bool" where
  "nvidia_gpu_uuid_ok rec =
     (case er_nvidia_gpu_uuid rec of
        Some uuid \<Rightarrow>
          (stage_is ''preflight'' rec \<or> stage_is ''firmware-auto-baseline'' rec) \<and> is_nvidia_gpu_uuid uuid
      | None \<Rightarrow>
          if stage_is ''preflight'' rec then status_is Failed rec
          else \<not> stage_is ''firmware-auto-baseline'' rec)"

definition fan_endpoint_identities_ok :: "'c evidence_record \<Rightarrow> bool" where
  "fan_endpoint_identities_ok rec =
     (case er_fan_endpoint_identities rec of
        Some ids \<Rightarrow>
          (stage_is ''preflight'' rec \<or> stage_is ''firmware-auto-baseline'' rec)
          \<and> fan_endpoint_identities_valid ids
      | None \<Rightarrow>
          if stage_is ''preflight'' rec then status_is Failed rec
          else \<not> stage_is ''firmware-auto-baseline'' rec)"

definition firmware_auto_cleanup_ok :: "'c evidence_record \<Rightarrow> bool" where
  "firmware_auto_cleanup_ok rec =
     (case er_firmware_auto_cleanup rec of
        Some cleanup \<Rightarrow>
          stage_is ''firmware-auto-baseline'' rec \<and> firmware_auto_cleanup_is_consistent rec cleanup
      | None \<Rightarrow> \<not> (stage_is ''firmware-auto-baseline'' rec \<and> status_is Passed rec))"

definition preflight_checks_present_ok :: "'c evidence_record \<Rightarrow> bool" where
  "preflight_checks_present_ok rec =
     (case er_preflight_checks rec of
        Some checks \<Rightarrow> stage_is ''preflight'' rec \<and> 1 \<le> length checks \<and> length checks \<le> 12
      | None \<Rightarrow> \<not> stage_is ''preflight'' rec)"

definition endurance_thermal_envelope_ok :: "'c evidence_record \<Rightarrow> bool" where
  "endurance_thermal_envelope_ok rec =
     (case er_endurance_thermal_envelope rec of
        Some _ \<Rightarrow> er_stage rec = ''supervised-endurance'' \<and> is_v2 rec
      | None \<Rightarrow> er_stage rec \<noteq> ''supervised-endurance'')"

definition endurance_observer_attestation_ok :: "'c evidence_record \<Rightarrow> bool" where
  "endurance_observer_attestation_ok rec =
     (case er_endurance_observer_attestation rec of
        Some attestation \<Rightarrow>
          stage_is ''supervised-endurance'' rec \<and> (status_is Passed rec \<or> status_is Failed rec)
          \<and> endurance_observer_attestation_is_valid rec attestation
      | None \<Rightarrow> \<not> (stage_is ''supervised-endurance'' rec \<and> status_is Passed rec))"

definition live_lifecycle_cases_ok :: "'c lifecycle_rules \<Rightarrow> 'c evidence_record \<Rightarrow> bool" where
  "live_lifecycle_cases_ok L rec =
     (case er_live_lifecycle_cases rec of
        Some _ \<Rightarrow> er_stage rec = ''live-lifecycle'' \<and> is_v2 rec \<and> cases_are_well_formed L rec
      | None \<Rightarrow> er_stage rec \<noteq> ''live-lifecycle'')"

definition live_lifecycle_shape_ok :: "'c evidence_record \<Rightarrow> bool" where
  "live_lifecycle_shape_ok rec \<longleftrightarrow>
     \<not> (er_stage rec = ''live-lifecycle''
         \<and> (er_starting_conditions_captured_at rec \<noteq> None \<or> er_workload_started_at rec \<noteq> None
            \<or> er_workload rec \<noteq> None \<or> er_samples rec \<noteq> [] \<or> er_commands rec \<noteq> []
            \<or> er_restoration_attempts rec \<noteq> [] \<or> er_calibration rec \<noteq> [] \<or> er_thermal_summary rec \<noteq> None))"

definition validate_stage_fields :: "'c lifecycle_rules \<Rightarrow> 'c evidence_record \<Rightarrow> checked_evidence" where
  "validate_stage_fields L rec =
     all_checks
       [invalid_unless (baseline_binding_ok rec) ''baseline_binding_sha256'' 0,
        invalid_unless (preflight_binding_ok rec) ''preflight_binding_sha256'' 0,
        invalid_unless (prerequisite_binding_ok rec) ''prerequisite_binding_sha256'' 0,
        invalid_unless (nvidia_gpu_uuid_ok rec) ''nvidia_gpu_uuid'' 0,
        invalid_unless (fan_endpoint_identities_ok rec) ''fan_endpoint_identities'' 0,
        invalid_unless (firmware_auto_cleanup_ok rec) ''firmware_auto_cleanup'' 0,
        invalid_unless (preflight_checks_present_ok rec) ''preflight_checks'' 0,
        invalid_unless (endurance_thermal_envelope_ok rec) ''endurance_thermal_envelope'' 0,
        invalid_unless (endurance_observer_attestation_ok rec) ''endurance_observer_attestation'' 0,
        invalid_unless (live_lifecycle_cases_ok L rec) ''live_lifecycle_cases'' 0,
        invalid_unless (live_lifecycle_shape_ok rec) ''live_lifecycle_shape'' 0]"

section \<open>The preflight checks\<close>

definition required_preflight_checks :: "string list" where
  "required_preflight_checks =
     [''platform'', ''trust'', ''fan-abi'', ''sensors'', ''configuration'', ''policy'', ''recovery'',
      ''stock-boot-fallback'', ''tooling'', ''disk-space'', ''competing-services'', ''firmware-auto'']"

definition failed_check_has_fault :: "'c evidence_record \<Rightarrow> preflight_check_evidence \<Rightarrow> bool" where
  "failed_check_has_fault rec check =
     list_ex (\<lambda>f. fa_code f = ''preflight-'' @ pc_check check \<and> fa_detail f = pc_detail check
         \<and> fa_timestamp f = pc_timestamp check) (er_faults rec)"

definition preflight_execution_ok :: "'c evidence_record \<Rightarrow> preflight_check_evidence list \<Rightarrow> bool" where
  "preflight_execution_ok rec checks =
     (let names = map pc_check checks;
          is_complete_execution = length checks = length required_preflight_checks
            \<and> list_all (\<lambda>required. required \<in> set names) required_preflight_checks;
          is_collection_failure = status_is Failed rec \<and> length checks = 1
            \<and> pc_check (hd checks) = ''evidence-collection'' \<and> \<not> pc_passed (hd checks);
          failed_checks_have_faults = list_all (failed_check_has_fault rec) (filter (\<lambda>c. \<not> pc_passed c) checks)
      in \<not> (\<not> is_complete_execution \<and> \<not> is_collection_failure
             \<or> status_is Passed rec \<and> list_ex (\<lambda>c. \<not> pc_passed c) checks
             \<or> status_is Failed rec \<and> (list_all pc_passed checks \<or> \<not> failed_checks_have_faults)))"

text \<open>The set of names holds those of the checks before.\<close>

definition validate_preflight_check ::
  "'c evidence_record \<Rightarrow> preflight_check_evidence list \<Rightarrow> nat \<Rightarrow> preflight_check_evidence \<Rightarrow> checked_evidence" where
  "validate_preflight_check rec checks index check =
     all_checks
       [validate_timestamp rec (pc_timestamp check) ''preflight_checks'' index,
        invalid_unless (is_identifier (pc_check check) \<and> pc_detail check \<noteq> []
          \<and> pc_check check \<notin> set (map pc_check (take index checks))) ''preflight_checks'' index]"

definition validate_preflight_checks :: "'c evidence_record \<Rightarrow> checked_evidence" where
  "validate_preflight_checks rec =
     (case er_preflight_checks rec of
        None \<Rightarrow> Ok ()
      | Some checks \<Rightarrow>
          all_checks
            [check_each (validate_preflight_check rec checks) 0 checks,
             invalid_unless (preflight_execution_ok rec checks) ''preflight_checks.complete'' (length checks)])"

definition preflight_readback_is_exact :: "'c evidence_record \<Rightarrow> evidence_fan \<Rightarrow> bool" where
  "preflight_readback_is_exact rec fan \<longleftrightarrow>
     length (filter (\<lambda>rb. rb_fan rb = fan \<and> rb_field rb = ReadbackEnable \<and> rb_phase rb = Some PhFinal
         \<and> rb_value rb = Some 2 \<and> rb_outcome rb = ObsConfirmed \<and> rb_source_timestamp rb = None
         \<and> rb_fresh rb = None \<and> rb_boot_id rb = None) (er_readbacks rec)) = 1"

definition validate_preflight_readbacks :: "'c evidence_record \<Rightarrow> checked_evidence" where
  "validate_preflight_readbacks rec =
     invalid_unless
       (\<not> (stage_is ''preflight'' rec \<and> status_is Passed rec)
        \<or> length (er_readbacks rec) = 2
          \<and> preflight_readback_is_exact rec EvidenceCpu
          \<and> preflight_readback_is_exact rec EvidenceGpu
          \<and> ro_final_firmware_auto_confirmed (er_outcome rec))
       ''preflight.readbacks'' (length (er_readbacks rec))"


section \<open>The events of the run\<close>

definition validate_scoped_timestamp ::
  "'c lifecycle_rules \<Rightarrow> 'c evidence_record \<Rightarrow> evidence_timestamp \<Rightarrow> string option \<Rightarrow> string \<Rightarrow> nat \<Rightarrow> checked_evidence" where
  "validate_scoped_timestamp L rec timestamp boot_id field index =
     (if er_stage rec = ''live-lifecycle'' \<and> boot_id \<noteq> None \<and> boot_id = post_reboot_boot_id L rec
      then require_ok (wall_ms (er_started_at rec) \<le> wall_ms timestamp
             \<and> wall_ms timestamp \<le> wall_ms (er_completed_at rec)) (EventOutsideRun field index)
      else validate_timestamp rec timestamp field index)"

definition fresh_sample_is_complete :: "telemetry_sample_evidence \<Rightarrow> bool" where
  "fresh_sample_is_complete sample \<longleftrightarrow>
     ts_cpu_millicelsius sample \<noteq> None \<and> ts_gpu_millicelsius sample \<noteq> None
     \<and> ts_external_power sample \<noteq> None \<and> ts_selected_profile sample \<noteq> None
     \<and> ts_cpu_source_demand_basis_points sample \<noteq> None \<and> ts_gpu_source_demand_basis_points sample \<noteq> None
     \<and> ts_commanded_demand_basis_points sample \<noteq> None
     \<and> ts_cpu_thermal_throttling sample \<noteq> None \<and> ts_gpu_thermal_throttling sample \<noteq> None"

definition basis_points_ok :: "u16 option \<Rightarrow> bool" where
  "basis_points_ok v \<longleftrightarrow> \<not> option_is (\<lambda>b. 10000 < b) v"

definition validate_sample :: "'c evidence_record \<Rightarrow> nat \<Rightarrow> telemetry_sample_evidence \<Rightarrow> checked_evidence" where
  "validate_sample rec index sample =
     all_checks
       [validate_timestamp rec (ts_timestamp sample) ''samples'' index,
        invalid_unless (ts_freshness sample \<noteq> SampleFresh \<or> fresh_sample_is_complete sample) ''samples.fresh'' index,
        invalid_unless (basis_points_ok (ts_cpu_source_demand_basis_points sample))
          ''samples.cpu_source_demand_basis_points'' index,
        invalid_unless (basis_points_ok (ts_gpu_source_demand_basis_points sample))
          ''samples.gpu_source_demand_basis_points'' index,
        invalid_unless (basis_points_ok (ts_cpu_utilization_basis_points sample))
          ''samples.cpu_utilization_basis_points'' index,
        invalid_unless (basis_points_ok (ts_gpu_utilization_basis_points sample))
          ''samples.gpu_utilization_basis_points'' index,
        invalid_unless (basis_points_ok (ts_commanded_demand_basis_points sample))
          ''samples.commanded_demand_basis_points'' index]"

definition validate_command :: "'c evidence_record \<Rightarrow> nat \<Rightarrow> fan_command_evidence \<Rightarrow> checked_evidence" where
  "validate_command rec index command =
     all_checks
       [validate_timestamp rec (cmd_timestamp command) ''commands'' index,
        invalid_unless (case cmd_field command of
            ControlPwm \<Rightarrow> cmd_value command \<le> 255
          | ControlEnable \<Rightarrow> cmd_value command \<le> 2) ''commands.value'' index]"

text \<open>Of the code points below 256, the blank ones are the two control ranges with their spaces.\<close>

definition identity_has_nonblank_character :: "string \<Rightarrow> bool" where
  "identity_has_nonblank_character identity =
     list_ex (\<lambda>c. \<not> ((of_char c :: nat) \<le> 32 \<or> 127 \<le> (of_char c :: nat) \<and> (of_char c :: nat) \<le> 160)) identity"

definition readback_outcome_matches_value :: "fan_readback_evidence \<Rightarrow> bool" where
  "readback_outcome_matches_value rb =
     (case rb_outcome rb of
        ObsUnreadable \<Rightarrow> rb_value rb = None
      | _ \<Rightarrow> rb_value rb \<noteq> None)"

definition readback_is_valid :: "'c evidence_record \<Rightarrow> fan_readback_evidence \<Rightarrow> bool" where
  "readback_is_valid rec rb \<longleftrightarrow>
     readback_outcome_matches_value rb
     \<and> rb_endpoint_identity rb \<noteq> []
     \<and> \<not> (er_stage rec = ''live-lifecycle'' \<and> \<not> identity_has_nonblank_character (rb_endpoint_identity rb))
     \<and> \<not> option_is (\<lambda>boot_id. \<not> is_identifier boot_id) (rb_boot_id rb)
     \<and> \<not> (er_stage rec = ''live-lifecycle''
           \<and> (rb_source_timestamp rb = None \<or> rb_fresh rb = None \<or> rb_phase rb \<noteq> None))
     \<and> \<not> (er_stage rec \<noteq> ''live-lifecycle''
           \<and> (rb_source_timestamp rb \<noteq> None \<or> rb_fresh rb \<noteq> None \<or> rb_boot_id rb \<noteq> None))
     \<and> \<not> (rb_field rb = ReadbackPwm \<and> option_is (\<lambda>v. 255 < v) (rb_value rb))
     \<and> \<not> (rb_field rb = ReadbackEnable \<and> option_is (\<lambda>v. 2 < v) (rb_value rb))"

definition validate_readback ::
  "'c lifecycle_rules \<Rightarrow> 'c evidence_record \<Rightarrow> nat \<Rightarrow> fan_readback_evidence \<Rightarrow> checked_evidence" where
  "validate_readback L rec index rb =
     all_checks
       [validate_scoped_timestamp L rec (rb_timestamp rb) (rb_boot_id rb) ''readbacks'' index,
        (case rb_source_timestamp rb of
           None \<Rightarrow> Ok ()
         | Some source \<Rightarrow>
             validate_scoped_timestamp L rec source (rb_boot_id rb) ''readbacks.source_timestamp'' index),
        invalid_unless (readback_is_valid rec rb) ''readbacks'' index]"

definition boot_scope_ok :: "'c evidence_record \<Rightarrow> string option \<Rightarrow> bool" where
  "boot_scope_ok rec boot_id \<longleftrightarrow>
     \<not> option_is (\<lambda>b. \<not> is_identifier b) boot_id \<and> \<not> (er_stage rec \<noteq> ''live-lifecycle'' \<and> boot_id \<noteq> None)"

definition validate_transition ::
  "'c lifecycle_rules \<Rightarrow> 'c evidence_record \<Rightarrow> nat \<Rightarrow> state_transition_evidence \<Rightarrow> checked_evidence" where
  "validate_transition L rec index transition =
     all_checks
       [validate_scoped_timestamp L rec (st_timestamp transition) (st_boot_id transition) ''state_transitions'' index,
        require_ok (is_identifier (st_from transition) \<and> is_identifier (st_to transition)
          \<and> boot_scope_ok rec (st_boot_id transition)) (InvalidState ''state_transitions'' index)]"

definition validate_fault ::
  "'c lifecycle_rules \<Rightarrow> 'c evidence_record \<Rightarrow> nat \<Rightarrow> fault_evidence \<Rightarrow> checked_evidence" where
  "validate_fault L rec index fault =
     all_checks
       [validate_scoped_timestamp L rec (fa_timestamp fault) (fa_boot_id fault) ''faults'' index,
        require_ok (is_identifier (fa_code fault) \<and> fa_detail fault \<noteq> []
          \<and> boot_scope_ok rec (fa_boot_id fault)) (InvalidFault ''faults'' index)]"

definition validate_attempt :: "'c evidence_record \<Rightarrow> nat \<Rightarrow> restoration_attempt_evidence \<Rightarrow> checked_evidence" where
  "validate_attempt rec index attempt =
     all_checks
       [validate_timestamp rec (ra_timestamp attempt) ''restoration_attempts'' index,
        invalid_unless (\<not> (option_is (\<lambda>v. 2 < v) (ra_enable_readback attempt)
            \<or> ra_outcome attempt = FirmwareAutoConfirmed
              \<and> (ra_enable_readback attempt \<noteq> Some 2 \<or> \<not> ra_auto_write_succeeded attempt)))
          ''restoration_attempts.enable_readback'' index]"

definition validate_process_stop :: "'c evidence_record \<Rightarrow> nat \<Rightarrow> process_stop_evidence \<Rightarrow> checked_evidence" where
  "validate_process_stop rec index stop =
     all_checks
       [validate_timestamp rec (ps_requested_at stop) ''process_stops'' index,
        validate_timestamp rec (ps_confirmed_at stop) ''process_stops'' index,
        invalid_unless (trim (ps_process_identity stop) \<noteq> []
          \<and> monotonic_millis (ps_requested_at stop) \<le> monotonic_millis (ps_confirmed_at stop))
          ''process_stops'' index]"

definition validate_events :: "'c lifecycle_rules \<Rightarrow> 'c evidence_record \<Rightarrow> checked_evidence" where
  "validate_events L rec =
     all_checks
       [check_each (validate_sample rec) 0 (er_samples rec),
        check_each (validate_command rec) 0 (er_commands rec),
        check_each (validate_readback L rec) 0 (er_readbacks rec),
        check_each (validate_transition L rec) 0 (er_state_transitions rec),
        check_each (validate_fault L rec) 0 (er_faults rec),
        check_each (validate_attempt rec) 0 (er_restoration_attempts rec),
        invalid_unless (er_stage rec = ''supervised-endurance'' \<or> er_process_stops rec = []) ''process_stops'' 0,
        check_each (validate_process_stop rec) 0 (er_process_stops rec)]"

section \<open>Calibrations\<close>

definition command_is_consistent :: "evidence_fan \<Rightarrow> u64 \<Rightarrow> u64 \<Rightarrow> fan_command_evidence \<Rightarrow> bool" where
  "command_is_consistent selected_fan first_observation last_observation command =
     (let timestamp = monotonic_millis (cmd_timestamp command)
      in if timestamp < first_observation
         then (case cmd_field command of
                 ControlPwm \<Rightarrow> cmd_value command = 255
               | ControlEnable \<Rightarrow> cmd_value command = 1)
         else if last_observation < timestamp
         then (case cmd_field command of
                 ControlPwm \<Rightarrow> cmd_value command = 255
               | ControlEnable \<Rightarrow> cmd_value command = 2)
         else (case (cmd_fan command = selected_fan, cmd_field command) of
                 (True, ControlPwm) \<Rightarrow> True
               | (True, ControlEnable) \<Rightarrow> cmd_value command = 1
               | (False, ControlPwm) \<Rightarrow> cmd_value command = 255
               | (False, ControlEnable) \<Rightarrow> cmd_value command = 1))"

definition calibration_checkpoint_is_bound_to_record ::
  "'c evidence_record \<Rightarrow> evidence_fan \<Rightarrow> calibration_checkpoint \<Rightarrow> bool" where
  "calibration_checkpoint_is_bound_to_record rec selected_fan saved =
     (case observed_time_bounds saved of
        None \<Rightarrow> False
      | Some (first_observation, last_observation) \<Rightarrow>
          if first_observation < monotonic_millis (er_started_at rec)
             \<or> monotonic_millis (er_completed_at rec) < last_observation then False
          else
            map (\<lambda>c. (monotonic_millis (cmd_timestamp c), cmd_value c))
              (filter (\<lambda>c. cmd_fan c = selected_fan \<and> cmd_field c = ControlPwm
                  \<and> first_observation \<le> monotonic_millis (cmd_timestamp c)
                  \<and> monotonic_millis (cmd_timestamp c) \<le> last_observation) (er_commands rec))
            = map (\<lambda>e. (ce_monotonic_millis e, ucast (ce_pwm_value e))) (command_expectations saved)
            \<and> list_all (command_is_consistent selected_fan first_observation last_observation) (er_commands rec))"

fun fan_of_evidence :: "evidence_fan \<Rightarrow> fan" where
  "fan_of_evidence EvidenceCpu = FanCpu"
| "fan_of_evidence EvidenceGpu = FanGpu"

definition replay_matches :: "fan_calibration_evidence \<Rightarrow> calibration_checkpoint \<Rightarrow> (evidence_validation_error, bool) outcome" where
  "replay_matches calibration saved =
     (case calibration_resume (fan_of_evidence (fce_fan calibration)) saved of
        Ok session \<Rightarrow> Ok (fc_evidence session = Some calibration)
      | Err _ \<Rightarrow> Ok False
      | Panic \<Rightarrow> Panic)"

definition checkpoint_matches ::
  "'c evidence_record \<Rightarrow> fan_calibration_evidence \<Rightarrow> (evidence_validation_error, bool) outcome" where
  "checkpoint_matches rec calibration =
     (case fce_protocol_checkpoint calibration of
        None \<Rightarrow> Ok False
      | Some saved \<Rightarrow>
          bind_ok (replay_matches calibration saved) (\<lambda>m.
            Ok (m \<and> (er_stage rec = ''matched-workload''
                       \<or> calibration_checkpoint_is_bound_to_record rec (fce_fan calibration) saved))))"

definition deadline_is_derived :: "fan_calibration_evidence \<Rightarrow> bool" where
  "deadline_is_derived calibration =
     option_is (\<lambda>slowest. 1000 \<le> slowest \<and> slowest \<le> maximum_calibration_response_millis
         \<and> fce_response_deadline_millis calibration = calibration_response_deadline slowest)
       (fce_slowest_response_millis calibration)"

definition calibration_anchors_ok :: "fan_calibration_evidence \<Rightarrow> bool" where
  "calibration_anchors_ok calibration \<longleftrightarrow>
     map rae_duty_basis_points (fce_anchors calibration)
       = canonical_calibration_anchor_duties (fce_floor_basis_points calibration)
     \<and> option_is (\<lambda>a. rae_duty_basis_points a = fce_floor_basis_points calibration) (list_first (fce_anchors calibration))
     \<and> option_is (\<lambda>a. rae_duty_basis_points a = 10000) (list_last (fce_anchors calibration))
     \<and> list_all (\<lambda>a. rae_duty_basis_points a \<le> 10000 \<and> plausible_speed (rae_median_rpm a)) (fce_anchors calibration)
     \<and> list_all (\<lambda>(a, b). rae_duty_basis_points a < rae_duty_basis_points b
           \<and> rae_median_rpm a \<le> rae_median_rpm b) (windows2 (fce_anchors calibration))"

text \<open>The replay is computed before the disjunction that uses it.\<close>

definition validate_calibration :: "'c evidence_record \<Rightarrow> nat \<Rightarrow> fan_calibration_evidence \<Rightarrow> checked_evidence" where
  "validate_calibration rec index calibration =
     and_then
       (invalid_unless (fce_floor_basis_points calibration \<le> 10000 \<and> fce_anchors calibration \<noteq> []
          \<and> list_all (\<lambda>a. rae_duty_basis_points a \<le> 10000) (fce_anchors calibration)) ''calibration'' index)
       (if \<not> is_v2 rec
        then invalid_unless (fce_slowest_response_millis calibration = None
               \<and> fce_protocol_checkpoint calibration = None) ''calibration'' index
        else
          bind_ok (checkpoint_matches rec calibration) (\<lambda>replayed.
            invalid_unless
              (is_allowed_calibration_floor (fce_floor_basis_points calibration)
               \<and> deadline_is_derived calibration
               \<and> replayed
               \<and> \<not> (er_stage rec = ''fan-calibration''
                     \<and> \<not> list_ex (\<lambda>c. cmd_fan c = fce_fan calibration) (er_commands rec))
               \<and> calibration_anchors_ok calibration) ''calibration'' index))"

definition calibration_count_is_valid :: "'c evidence_record \<Rightarrow> bool" where
  "calibration_count_is_valid rec =
     (if er_stage rec = ''fan-calibration'' then length (er_calibration rec) = 1
      else if er_stage rec = ''matched-workload''
      then length (er_calibration rec) = 2
           \<and> list_all (\<lambda>fan. length (filter (\<lambda>c. fce_fan c = fan) (er_calibration rec)) = 1)
               [EvidenceCpu, EvidenceGpu]
      else er_calibration rec = [])"

definition validate_calibrations :: "'c evidence_record \<Rightarrow> checked_evidence" where
  "validate_calibrations rec =
     all_checks
       [invalid_unless (\<not> is_v2 rec \<or> calibration_count_is_valid rec) ''calibration'' (length (er_calibration rec)),
        invalid_unless (\<not> (stage_is ''fan-calibration'' rec \<and> \<not> status_is Passed rec)) ''outcome.status'' 0,
        check_each (validate_calibration rec) 0 (er_calibration rec)]"

section \<open>The outcome\<close>

definition commanded_fans :: "'c evidence_record \<Rightarrow> evidence_fan list" where
  "commanded_fans rec =
     filter (\<lambda>fan. list_ex (\<lambda>c. cmd_fan c = fan) (er_commands rec)) [EvidenceCpu, EvidenceGpu]"

definition restoration_evidence_is_complete :: "'c evidence_record \<Rightarrow> bool" where
  "restoration_evidence_is_complete rec \<longleftrightarrow>
     list_all (\<lambda>fan. final_restoration_attempt_after_command rec fan \<noteq> None) (commanded_fans rec)
     \<and> final_state_follows_restoration rec"

definition final_restoration_is_complete :: "'c evidence_record \<Rightarrow> bool" where
  "final_restoration_is_complete rec =
     (if er_commands rec = []
      then final_enable_readback_confirms_auto rec EvidenceCpu \<and> final_enable_readback_confirms_auto rec EvidenceGpu
      else restoration_evidence_is_complete rec
           \<and> list_all (final_restoration_confirms_auto rec) (commanded_fans rec)
           \<and> final_state_confirms_auto rec)"

definition validate_restoration :: "'c evidence_record \<Rightarrow> checked_evidence" where
  "validate_restoration rec =
     all_checks
       [invalid_unless (er_commands rec = [] \<or> restoration_evidence_is_complete rec \<or> \<not> status_is Passed rec)
          ''outcome.restoration_evidence'' 0,
        invalid_unless (ro_final_firmware_auto_confirmed (er_outcome rec) = final_restoration_is_complete rec)
          ''outcome.final_firmware_auto_confirmed'' 0,
        invalid_unless (\<not> (status_is Passed rec
            \<and> (er_stage rec \<noteq> ''preflight'' \<and> er_stage rec \<noteq> ''live-lifecycle''
                 \<and> \<not> list_ex (\<lambda>s. ts_freshness s = SampleFresh) (er_samples rec)
               \<or> er_readbacks rec = []
               \<or> \<not> ro_final_firmware_auto_confirmed (er_outcome rec))))
          ''outcome.passed_evidence'' 0]"

definition stage_evidence_is_complete :: "'c lifecycle_rules \<Rightarrow> 'c evidence_record \<Rightarrow> (unit, bool) outcome" where
  "stage_evidence_is_complete L rec =
     (if er_stage rec = ''preflight''
      then Ok (er_workload rec = None \<and> er_thermal_summary rec = None \<and> er_commands rec = []
               \<and> er_state_transitions rec = [] \<and> er_restoration_attempts rec = [] \<and> er_calibration rec = []
               \<and> final_enable_readback_confirms_auto rec EvidenceCpu
               \<and> final_enable_readback_confirms_auto rec EvidenceGpu)
      else if er_stage rec = ''firmware-auto-baseline'' then Ok (firmware_auto_baseline_is_complete rec)
      else if stage_is ''matched-workload'' rec then matched_workload_is_complete rec
      else if stage_is ''live-lifecycle'' rec then Ok (lifecycle_is_complete L rec)
      else if stage_is ''supervised-endurance'' rec then Ok (supervised_endurance_is_complete rec)
      else Ok (er_workload rec \<noteq> None \<and> er_thermal_summary rec \<noteq> None \<and> er_commands rec \<noteq> []
               \<and> er_state_transitions rec \<noteq> [] \<and> er_restoration_attempts rec \<noteq> []
               \<and> final_restoration_confirms_auto rec EvidenceCpu
               \<and> final_restoration_confirms_auto rec EvidenceGpu
               \<and> final_state_confirms_auto rec))"

definition validate_stage_evidence :: "'c lifecycle_rules \<Rightarrow> 'c evidence_record \<Rightarrow> checked_evidence" where
  "validate_stage_evidence L rec =
     (if \<not> status_is Passed rec then Ok ()
      else
        (case stage_evidence_is_complete L rec of
           Ok done \<Rightarrow> invalid_unless done ''outcome.stage_evidence'' 0
         | _ \<Rightarrow> Panic))"

section \<open>The validation\<close>

definition validate_optional_timestamp ::
  "'c evidence_record \<Rightarrow> evidence_timestamp option \<Rightarrow> string \<Rightarrow> checked_evidence" where
  "validate_optional_timestamp rec timestamp field =
     (case timestamp of None \<Rightarrow> Ok () | Some t \<Rightarrow> validate_timestamp rec t field 0)"

definition validate_record :: "'c lifecycle_rules \<Rightarrow> 'c evidence_record \<Rightarrow> checked_evidence" where
  "validate_record L rec =
     all_checks
       [require_ok (er_schema_version rec = evidence_schema_version \<or> is_v2 rec) UnsupportedEvidenceSchemaVersion,
        validate_schema_fields rec,
        validate_identity (er_qualification_envelope rec),
        require_ok (is_identifier (er_stage rec)) InvalidStage,
        validate_stage_fields L rec,
        require_ok (monotonic_millis (er_started_at rec) \<le> monotonic_millis (er_completed_at rec)) InvalidTimeRange,
        validate_optional_timestamp rec (er_starting_conditions_captured_at rec) ''starting_conditions_captured_at'',
        validate_optional_timestamp rec (er_workload_started_at rec) ''workload_started_at'',
        (case er_workload rec of None \<Rightarrow> Ok () | Some workload \<Rightarrow> validate_workload workload),
        validate_preflight_checks rec,
        validate_preflight_readbacks rec,
        validate_events L rec,
        validate_calibrations rec,
        validate_restoration rec,
        validate_stage_evidence L rec,
        invalid_unless (ro_reason (er_outcome rec) \<noteq> []) ''outcome.reason'' 0]"

end
