(* ===== verification/Evidence_Contract.thy ===== *)
theory Evidence_Contract
  imports Evidence
begin

text \<open>
  What a valid qualification record says: the validation never panics, its claim of Firmware Auto is
  backed by the last events of the run, its control evidence covers every sample and fan, and the
  calibrations it accepts are exactly those of sessions that ran the whole protocol.
\<close>

section \<open>Sequences of checks\<close>

lemma and_then_simps [simp]:
  "and_then a b = Ok () \<longleftrightarrow> a = Ok () \<and> b = Ok ()"
  "and_then a b = Panic \<longleftrightarrow> a = Panic \<or> a = Ok () \<and> b = Panic"
  by (cases a; simp add: and_then_def)+

lemma all_checks_Ok [simp]: "all_checks cs = Ok () \<longleftrightarrow> (\<forall>c \<in> set cs. c = Ok ())"
  by (induction cs) auto

lemma require_ok_simps [simp]:
  "require_ok b e = Ok () \<longleftrightarrow> b" "require_ok b e \<noteq> Panic"
  "invalid_unless b f i = Ok () \<longleftrightarrow> b" "invalid_unless b f i \<noteq> Panic"
  "incompatible_if b f = Ok () \<longleftrightarrow> \<not> b" "incompatible_if b f \<noteq> Panic"
  by (auto simp: require_ok_def invalid_unless_def incompatible_if_def)

lemma all_checks_no_panic: "(\<And>c. c \<in> set cs \<Longrightarrow> c \<noteq> Panic) \<Longrightarrow> all_checks cs \<noteq> Panic"
  by (induction cs) auto

lemma check_each_no_panic: "(\<And>j x. x \<in> set xs \<Longrightarrow> f j x \<noteq> Panic) \<Longrightarrow> check_each f i xs \<noteq> Panic"
  by (induction xs arbitrary: i) auto

lemma check_each_Ok: "check_each f i xs = Ok () \<longleftrightarrow> (\<forall>j < length xs. f (i + j) (xs ! j) = Ok ())"
proof (induction xs arbitrary: i)
  case (Cons x xs)
  show ?case unfolding check_each.simps and_then_simps Cons
    by (auto simp: nth_Cons less_Suc_eq_0_disj split: nat.splits)
qed simp

lemma check_each_in: "check_each f i xs = Ok () \<Longrightarrow> x \<in> set xs \<Longrightarrow> \<exists>j. f j x = Ok ()"
  unfolding check_each_Ok by (metis in_set_conv_nth)

section \<open>Placing evidence in slots\<close>

lemma place_all_Some:
  assumes "place_all slot vs m = Some m'"
  shows "\<forall>v \<in> set vs. \<exists>k. slot v = Some k \<and> m' k = Some v"
    and "\<forall>k v. m' k = Some v \<longrightarrow> m k = Some v \<or> v \<in> set vs \<and> slot v = Some k"
    and "\<forall>k v. m k = Some v \<longrightarrow> m' k = Some v"
proof -
  have kept: "m' k = Some v" if "place_all slot vs m = Some m'" "m k = Some v" for vs m k v
    using that
  proof (induction vs arbitrary: m)
    case (Cons w vs)
    then obtain i where "slot w = Some i" "m i = None" "place_all slot vs (m(i \<mapsto> w)) = Some m'"
      by (auto simp: place_def split: option.splits if_splits)
    moreover from this Cons.prems(2) have "(m(i \<mapsto> w)) k = Some v" by (cases "k = i") auto
    ultimately show ?case using Cons.IH by blast
  qed simp
  show "\<forall>k v. m k = Some v \<longrightarrow> m' k = Some v" using kept [OF assms] by blast
  show "\<forall>v \<in> set vs. \<exists>k. slot v = Some k \<and> m' k = Some v" using assms
  proof (induction vs arbitrary: m)
    case (Cons w vs)
    then obtain i where i: "slot w = Some i" "place_all slot vs (m(i \<mapsto> w)) = Some m'"
      by (auto simp: place_def split: option.splits if_splits)
    from kept [OF i(2), of i w] Cons.IH [OF i(2)] i(1) show ?case by auto
  qed simp
  show "\<forall>k v. m' k = Some v \<longrightarrow> m k = Some v \<or> v \<in> set vs \<and> slot v = Some k" using assms
  proof (induction vs arbitrary: m)
    case (Cons w vs)
    then obtain i where i: "slot w = Some i" "place_all slot vs (m(i \<mapsto> w)) = Some m'"
      by (auto simp: place_def split: option.splits if_splits)
    from Cons.IH [OF i(2)] i(1) show ?case by (force split: if_splits)
  qed simp
qed

definition slot_value :: "fan_command_evidence \<Rightarrow> fan_readback_evidence \<Rightarrow> fan_readback_field \<Rightarrow> bool" where
  "slot_value command rb field \<longleftrightarrow>
     rb_outcome rb = ObsConfirmed
     \<and> monotonic_millis (cmd_timestamp command) \<le> monotonic_millis (rb_timestamp rb)
     \<and> (field = ReadbackEnable \<longrightarrow> rb_value rb = Some 1)
     \<and> (field = ReadbackPwm \<longrightarrow> rb_value rb = Some (cmd_value command))"

lemma check_slot_Some:
  "check_slot cm rm (i, fan, field) ids = Some ids' \<Longrightarrow>
     \<exists>c rb. cm (i, fan) = Some c \<and> rm (Inl (i, fan, field)) = Some rb \<and> slot_value c rb field
       \<and> ids' (fan, field) = Some (rb_endpoint_identity rb)
       \<and> (\<forall>k x. ids k = Some x \<longrightarrow> ids' k = Some x)"
  by (cases field)
    (auto simp: check_slot_def slot_value_def option_is_def not_less Let_def split: option.splits if_splits)

lemma check_slots_Some:
  assumes "check_slots cm rm slots ids = Some ids'"
  shows "(\<forall>(i, fan, field) \<in> set slots. \<exists>c rb. cm (i, fan) = Some c \<and> rm (Inl (i, fan, field)) = Some rb
        \<and> slot_value c rb field \<and> ids' (fan, field) = Some (rb_endpoint_identity rb))
     \<and> (\<forall>k x. ids k = Some x \<longrightarrow> ids' k = Some x)"
  using assms
proof (induction slots arbitrary: ids)
  case (Cons slot slots)
  obtain i fan field where s: "slot = (i, fan, field)" by (cases slot) auto
  from Cons.prems s obtain ids1 where c: "check_slot cm rm (i, fan, field) ids = Some ids1"
    "check_slots cm rm slots ids1 = Some ids'" by (auto split: option.splits)
  from check_slot_Some [OF c(1)] Cons.IH [OF c(2)] s show ?case by fastforce
qed simp

lemma control_slots_set: "(i, fan, field) \<in> set (control_slots n) \<longleftrightarrow> i < n"
  by (cases fan; cases field) (auto simp: control_slots_def)

lemma sample_index_bound: "evidence_sample_index samples t = Some i \<Longrightarrow> i < length samples"
proof -
  let ?n = "length (takeWhile (\<lambda>s. monotonic_millis (ts_timestamp s) \<le> monotonic_millis t) samples)"
  assume "evidence_sample_index samples t = Some i"
  then have "?n \<noteq> 0" "i = ?n - 1" unfolding evidence_sample_index_def Let_def by (simp_all split: if_splits option.splits)
  moreover have "?n \<le> length samples" by (rule length_takeWhile_le)
  ultimately show ?thesis by linarith
qed

text \<open>
  The control evidence of a run: every sample and fan has exactly one duty command, confirmed after it
  in Custom mode with the commanded duty, every readback of a field comes from one endpoint, and at the
  end each fan was restored to Firmware Auto by a write and its readback.
\<close>

definition sample_is_controlled :: "'c evidence_record \<Rightarrow> (evidence_fan \<Rightarrow> fan_readback_field \<Rightarrow> string) \<Rightarrow> nat \<Rightarrow> evidence_fan \<Rightarrow> bool" where
  "sample_is_controlled rec endpoint i fan \<longleftrightarrow>
     (\<exists>c \<in> set (er_commands rec).
        cmd_fan c = fan \<and> cmd_field c = ControlPwm
        \<and> evidence_sample_index (er_samples rec) (cmd_timestamp c) = Some i
        \<and> (\<forall>c' \<in> set (er_commands rec). cmd_fan c' = fan
              \<longrightarrow> evidence_sample_index (er_samples rec) (cmd_timestamp c') = Some i \<longrightarrow> c' = c)
        \<and> (\<forall>field. \<exists>rb \<in> set (er_readbacks rec).
              rb_fan rb = fan \<and> rb_field rb = field \<and> rb_phase rb = Some PhSample
              \<and> evidence_sample_index (er_samples rec) (rb_timestamp rb) = Some i
              \<and> slot_value c rb field \<and> rb_endpoint_identity rb = endpoint fan field))"

definition fan_is_restored :: "'c evidence_record \<Rightarrow> string \<Rightarrow> evidence_fan \<Rightarrow> bool" where
  "fan_is_restored rec endpoint fan \<longleftrightarrow>
     (\<exists>rb \<in> set (er_readbacks rec). \<exists>a \<in> set (er_restoration_attempts rec).
        rb_fan rb = fan \<and> rb_field rb = ReadbackEnable \<and> rb_phase rb = Some PhFinal \<and> rb_value rb = Some 2
        \<and> rb_outcome rb = ObsConfirmed \<and> rb_endpoint_identity rb = endpoint
        \<and> ra_fan a = fan \<and> ra_timestamp a = rb_timestamp rb \<and> ra_auto_write_succeeded a
        \<and> ra_enable_readback a = Some 2 \<and> ra_outcome a = FirmwareAutoConfirmed)"

lemma readback_slot_Inl:
  "readback_slot_of samples rb = Some (Inl (i, fan, field)) \<Longrightarrow>
     rb_phase rb = Some PhSample \<and> rb_fan rb = fan \<and> rb_field rb = field
     \<and> evidence_sample_index samples (rb_timestamp rb) = Some i"
  by (auto simp: readback_slot_of_def split: option.splits fan_readback_phase.splits if_splits)

lemma readback_slot_Inr:
  "readback_slot_of samples rb = Some (Inr fan) \<Longrightarrow>
     rb_phase rb = Some PhFinal \<and> rb_fan rb = fan \<and> rb_field rb = ReadbackEnable"
  by (auto simp: readback_slot_of_def split: option.splits fan_readback_phase.splits if_splits)

lemma command_slot_Some:
  "command_slot samples c = Some (i, fan) \<longleftrightarrow>
     cmd_field c = ControlPwm \<and> cmd_fan c = fan \<and> evidence_sample_index samples (cmd_timestamp c) = Some i"
  by (auto simp: command_slot_def split: option.splits)

lemma control_evidence:
  assumes "matched_control_evidence_is_complete rec"
  shows "\<exists>endpoint. (\<forall>i < length (er_samples rec). \<forall>fan. sample_is_controlled rec endpoint i fan)
      \<and> (er_samples rec \<noteq> [] \<longrightarrow> (\<forall>fan. fan_is_restored rec (endpoint fan ReadbackEnable) fan))
      \<and> (\<forall>c \<in> set (er_commands rec). cmd_field c = ControlPwm
           \<and> (\<exists>i < length (er_samples rec). evidence_sample_index (er_samples rec) (cmd_timestamp c) = Some i))"
proof -
  let ?n = "length (er_samples rec)"
  from assms obtain cm rm am ids where
    p: "place_all (command_slot (er_samples rec)) (er_commands rec) Map.empty = Some cm"
      "place_all (readback_slot_of (er_samples rec)) (er_readbacks rec) Map.empty = Some rm"
      "place_all (\<lambda>a. Some (ra_fan a)) (er_restoration_attempts rec) Map.empty = Some am"
      "check_slots cm rm (control_slots ?n) Map.empty = Some ids"
    and e: "fan_ends_in_auto rm am ids EvidenceCpu" "fan_ends_in_auto rm am ids EvidenceGpu"
    by (auto simp: matched_control_evidence_is_complete_def Let_def split: if_splits option.splits)
  define endpoint where "endpoint fan field = the (ids (fan, field))" for fan field
  note cp = place_all_Some [OF p(1)] and rp = place_all_Some [OF p(2)] and ap = place_all_Some [OF p(3)]
  have slots: "\<exists>c rb. cm (i, fan) = Some c \<and> rm (Inl (i, fan, field)) = Some rb \<and> slot_value c rb field
      \<and> ids (fan, field) = Some (rb_endpoint_identity rb)" if "i < ?n" for i fan field
    using check_slots_Some [OF p(4)] control_slots_set [of i fan field ?n] that by blast
  have "sample_is_controlled rec endpoint i fan" if i: "i < ?n" for i fan
  proof -
    from slots [OF i, of fan ReadbackEnable] obtain c where c: "cm (i, fan) = Some c" by blast
    then have ce: "c \<in> set (er_commands rec)" "command_slot (er_samples rec) c = Some (i, fan)"
      using cp(2) by auto
    have u: "c' = c" if "c' \<in> set (er_commands rec)" "cmd_fan c' = fan"
      "evidence_sample_index (er_samples rec) (cmd_timestamp c') = Some i" for c'
    proof -
      from cp(1) that(1) obtain k where k: "command_slot (er_samples rec) c' = Some k" "cm k = Some c'" by blast
      with that(2,3) have "k = (i, fan)" by (auto simp: command_slot_def split: if_splits)
      with k(2) c show ?thesis by simp
    qed
    have f: "\<exists>rb \<in> set (er_readbacks rec). rb_fan rb = fan \<and> rb_field rb = field \<and> rb_phase rb = Some PhSample
        \<and> evidence_sample_index (er_samples rec) (rb_timestamp rb) = Some i
        \<and> slot_value c rb field \<and> rb_endpoint_identity rb = endpoint fan field" for field
    proof -
      from slots [OF i, of fan field] c obtain rb where rb: "rm (Inl (i, fan, field)) = Some rb"
        "slot_value c rb field" "ids (fan, field) = Some (rb_endpoint_identity rb)" by auto
      then have "rb \<in> set (er_readbacks rec)" "readback_slot_of (er_samples rec) rb = Some (Inl (i, fan, field))"
        using rp(2) by auto
      with rb readback_slot_Inl [of "er_samples rec" rb i fan field] show ?thesis
        by (intro bexI [of _ rb]) (auto simp: endpoint_def)
    qed
    have "cmd_fan c = fan \<and> cmd_field c = ControlPwm
        \<and> evidence_sample_index (er_samples rec) (cmd_timestamp c) = Some i"
      using ce(2) unfolding command_slot_Some by simp
    then show ?thesis unfolding sample_is_controlled_def using ce(1) u f by (intro bexI [of _ c]) blast+
  qed
  moreover have "fan_is_restored rec (endpoint fan ReadbackEnable) fan" for fan
  proof -
    have "fan_ends_in_auto rm am ids fan" using e by (cases fan) auto
    then obtain rb a where ra: "rm (Inr fan) = Some rb" "am fan = Some a" "rb_value rb = Some 2" "rb_outcome rb = ObsConfirmed"
      "Some (rb_endpoint_identity rb) = ids (fan, ReadbackEnable)" "ra_timestamp a = rb_timestamp rb"
      "ra_auto_write_succeeded a" "ra_enable_readback a = Some 2" "ra_outcome a = FirmwareAutoConfirmed"
      by (auto simp: fan_ends_in_auto_def split: option.splits)
    have "rb \<in> set (er_readbacks rec)" "readback_slot_of (er_samples rec) rb = Some (Inr fan)"
      using rp(2) ra(1) by auto
    moreover have "a \<in> set (er_restoration_attempts rec)" "ra_fan a = fan" using ap(2) ra(2) by auto
    moreover have "rb_phase rb = Some PhFinal \<and> rb_fan rb = fan \<and> rb_field rb = ReadbackEnable"
      by (rule readback_slot_Inr [of "er_samples rec"]) fact
    moreover have "rb_endpoint_identity rb = endpoint fan ReadbackEnable"
      by (simp add: endpoint_def flip: ra(5))
    ultimately show ?thesis unfolding fan_is_restored_def using ra(3,4,6-9) by blast
  qed
  moreover have "cmd_field c = ControlPwm \<and> (\<exists>i < ?n. evidence_sample_index (er_samples rec) (cmd_timestamp c) = Some i)"
    if "c \<in> set (er_commands rec)" for c
  proof -
    from cp(1) that obtain i fan where "command_slot (er_samples rec) c = Some (i, fan)" by (metis surj_pair)
    then show ?thesis using command_slot_Some sample_index_bound by blast
  qed
  ultimately show ?thesis by blast
qed

section \<open>Accepted calibrations\<close>

lemma session_evidence_shape:
  assumes "reachable_session s" "fc_evidence s = Some e"
  shows "fan_of_evidence (fce_fan e) = fc_fan s" "fc_phase s = PhaseComplete"
    "fce_protocol_checkpoint e = Some (checkpoint s)"
    "fce_floor_basis_points e \<in> {4000, 5000, 6000, 7000}"
    "anchors_measured (canonical_calibration_anchor_duties (fce_floor_basis_points e)) (fce_anchors e)"
    "deadline_is_derived e"
proof -
  note ev = session_evidence [OF assms(1)]
  show c: "fc_phase s = PhaseComplete" "fce_protocol_checkpoint e = Some (checkpoint s)" "deadline_is_derived e"
    using ev assms(2)
    by (auto simp: deadline_is_derived_def option_is_def maximum_calibration_response_millis_def)
  from c(1) session_reachable_ok [OF assms(1)] assms(2) obtain sw f where k: "floor_known s f sw"
    "anchors_measured (canonical_calibration_anchor_duties f) (fc_anchors s)"
    "e = evidence_of s f (Some (checkpoint s))"
    by (auto simp: session_ok_def stands_def)
  then show "fan_of_evidence (fce_fan e) = fc_fan s"
    "anchors_measured (canonical_calibration_anchor_duties (fce_floor_basis_points e)) (fce_anchors e)"
    by (cases "fc_fan s"; simp add: evidence_of_def)+
  from k(1,3) floors [of s f sw] show "fce_floor_basis_points e \<in> {4000, 5000, 6000, 7000}"
    by (simp add: evidence_of_def floor_known_def)
qed

lemma measured_anchors_ok:
  assumes "fce_floor_basis_points e \<in> {4000, 5000, 6000, 7000}"
    and m: "anchors_measured (canonical_calibration_anchor_duties (fce_floor_basis_points e)) (fce_anchors e)"
  shows "calibration_anchors_ok e" "fce_anchors e \<noteq> []"
    "list_all (\<lambda>a. rae_duty_basis_points a \<le> 10000) (fce_anchors e)"
proof -
  obtain h where h: "canonical_calibration_anchor_duties (fce_floor_basis_points e)
      = [fce_floor_basis_points e, h, 7500, 10000]" "fce_floor_basis_points e < h" "h < 7500"
    using assms(1) by (auto simp: canonical_calibration_anchor_duties_def Let_def word_saturating_sub_def
        cal_maximum_duty_basis_points_def)
  have "length (fce_anchors e) = 4"
    using m duties_length [OF assms(1)] unfolding anchors_measured_def by (metis length_map)
  then obtain a b c d where abcd: "fce_anchors e = [a, b, c, d]" by (auto simp: numeral_eq_Suc length_Suc_conv)
  have "h \<le> 10000" using h(3) by (simp add: word_less_nat_alt word_le_nat_alt)
  with m h assms(1) show "calibration_anchors_ok e" "fce_anchors e \<noteq> []"
    "list_all (\<lambda>a. rae_duty_basis_points a \<le> 10000) (fce_anchors e)"
    unfolding calibration_anchors_ok_def anchors_measured_def abcd h(1)
    by (auto simp: option_is_def list_first_def list_last_def)
qed

lemma calibration_accepted:
  assumes v2: "is_v2 rec"
  shows "validate_calibration rec index e = Ok () \<longleftrightarrow>
    (\<exists>s. reachable_session s \<and> fc_fan s = fan_of_evidence (fce_fan e) \<and> fc_evidence s = Some e
       \<and> (er_stage rec = ''matched-workload''
            \<or> calibration_checkpoint_is_bound_to_record rec (fce_fan e) (checkpoint s))
       \<and> \<not> (er_stage rec = ''fan-calibration''
             \<and> \<not> list_ex (\<lambda>c. cmd_fan c = fce_fan e) (er_commands rec)))"
    (is "?l \<longleftrightarrow> (\<exists>s. ?P s)")
proof
  assume ?l
  then have l: "checkpoint_matches rec e = Ok True"
    "\<not> (er_stage rec = ''fan-calibration'' \<and> \<not> list_ex (\<lambda>c. cmd_fan c = fce_fan e) (er_commands rec))"
    using v2 unfolding validate_calibration_def by (auto simp: bind_ok_eq_Ok)
  from l(1) obtain saved where saved: "fce_protocol_checkpoint e = Some saved" "replay_matches e saved = Ok True"
    "er_stage rec = ''matched-workload'' \<or> calibration_checkpoint_is_bound_to_record rec (fce_fan e) saved"
    by (auto simp: checkpoint_matches_def bind_ok_eq_Ok split: option.splits)
  then obtain s where s: "calibration_resume (fan_of_evidence (fce_fan e)) saved = Ok s" "fc_evidence s = Some e"
    by (auto simp: replay_matches_def split: outcome.splits)
  have r: "reachable_session s" by (rule resumed [OF s(1)])
  note sh = session_evidence_shape [OF r s(2)]
  have "saved = checkpoint s" using sh(3) saved(1) by simp
  with r s sh(1) saved(3) l(2) show "\<exists>s. ?P s" by metis
next
  assume "\<exists>s. ?P s"
  then obtain s where s: "?P s" by blast
  then have r: "reachable_session s" "fc_evidence s = Some e" by simp_all
  note sh = session_evidence_shape [OF r] and an = measured_anchors_ok [OF session_evidence_shape(4,5) [OF r]]
  have "calibration_resume (fc_fan s) (checkpoint s) = Ok s" using session_roundtrip [OF r(1)] sh(2) by simp
  with s sh(3) have c: "checkpoint_matches rec e = Ok True"
    by (auto simp: checkpoint_matches_def replay_matches_def)
  have "is_allowed_calibration_floor (fce_floor_basis_points e)" "fce_floor_basis_points e \<le> 10000"
    using sh(4) by (auto simp: is_allowed_calibration_floor_def)
  with v2 c an sh(6) s show ?l unfolding validate_calibration_def by simp
qed

section \<open>No panic\<close>

lemma validate_declaration_no_panic:
  "(validate_declaration d :: (string compatibility_declaration_error, unit) outcome) \<noteq> Panic"
proof -
  have "all_ok rs \<noteq> Panic" if "\<forall>r \<in> set rs. r \<noteq> Panic"
    for rs :: "(string compatibility_declaration_error, unit) outcome list"
    using that by (induction rs) (auto simp: bind_ok_eq_Panic)
  then show ?thesis by (auto simp: validate_declaration_def Let_def require_safe_def)
qed

lemma small_checks_no_panic [simp]:
  "validate_identity identity \<noteq> Panic" "validate_workload workload \<noteq> Panic"
  "validate_timestamp rec t f i \<noteq> Panic" "validate_scoped_timestamp L rec t b f i \<noteq> Panic"
  "validate_optional_timestamp rec ot f \<noteq> Panic"
  using validate_declaration_no_panic [of "qei_compatibility identity"]
  by (auto simp: validate_identity_def validate_workload_def validate_timestamp_def
      validate_scoped_timestamp_def validate_optional_timestamp_def map_err_def split: outcome.splits option.splits)

lemma fields_no_panic [simp]: "validate_schema_fields rec \<noteq> Panic" "validate_stage_fields L rec \<noteq> Panic"
  by (simp_all add: validate_schema_fields_def validate_stage_fields_def)

lemma preflight_no_panic [simp]: "validate_preflight_checks rec \<noteq> Panic" "validate_preflight_readbacks rec \<noteq> Panic"
  by (auto simp: validate_preflight_checks_def validate_preflight_readbacks_def validate_preflight_check_def
      check_each_no_panic split: option.splits)

lemma events_no_panic [simp]: "validate_events L rec \<noteq> Panic"
  unfolding validate_events_def validate_sample_def validate_command_def validate_readback_def validate_transition_def
    validate_fault_def validate_attempt_def validate_process_stop_def
  by (auto intro!: check_each_no_panic split: option.splits)

lemma resume_no_panic: "calibration_resume fan saved \<noteq> Panic"
proof -
  have "replay (cc_events saved) (calibration_start fan) \<noteq> Panic"
    by (rule replay_no_panic [OF session_ok_start]) (simp_all add: calibration_start_def)
  then show ?thesis by (auto simp: calibration_resume_def bind_ok_eq_Panic)
qed

lemma calibrations_no_panic [simp]: "validate_calibration rec i e \<noteq> Panic" "validate_calibrations rec \<noteq> Panic"
proof -
  show v: "validate_calibration rec i e \<noteq> Panic" for i e
    using resume_no_panic [of "fan_of_evidence (fce_fan e)"]
    by (auto simp: validate_calibration_def checkpoint_matches_def replay_matches_def bind_ok_eq_Panic
        split: option.splits outcome.splits)
  show "validate_calibrations rec \<noteq> Panic" by (auto simp: validate_calibrations_def v check_each_no_panic)
qed

lemma restoration_no_panic [simp]: "validate_restoration rec \<noteq> Panic"
  by (auto simp: validate_restoration_def)

lemma find_member: "find P xs = Some x \<Longrightarrow> x \<in> set xs"
  by (auto simp: find_Some_iff)

lemma interpolation_no_panic:
  assumes "calibration_anchors_ok e"
  shows "expected_rpm_from_evidence e pwm \<noteq> (Panic :: ('e, u32 option) outcome)"
proof -
  have "interpolate_rpm_values (rae_duty_basis_points l) (rae_median_rpm l) (rae_duty_basis_points u) (rae_median_rpm u) d
      \<noteq> (Panic :: ('e, u32) outcome)" if "(l, u) \<in> set (windows2 (fce_anchors e))" for l u d
  proof -
    let ?a = "\<lambda>a. \<lparr>duty_basis_points = rae_duty_basis_points a, median_rpm = rae_median_rpm a\<rparr>"
    have "anchor_below (?a l) (?a u)"
      using assms that by (auto simp: calibration_anchors_ok_def list_all_iff anchor_below_def)
    then have "\<exists>r. interpolate_rpm (?a l) (?a u) d = (Ok r :: ('e, u32) outcome)"
      using interpolate_rpm_between by blast
    then show ?thesis by (auto simp: interpolate_rpm_def)
  qed
  then have *: "bind_ok (interpolate_rpm_values (rae_duty_basis_points l) (rae_median_rpm l)
      (rae_duty_basis_points u) (rae_median_rpm u) d) (\<lambda>rpm. Ok (Some rpm)) \<noteq> (Panic :: ('e, u32 option) outcome)"
    if "find P (windows2 (fce_anchors e)) = Some (l, u)" for P l u d
    using find_member [OF that] by (simp add: bind_ok_eq_Panic)
  show ?thesis unfolding expected_rpm_from_evidence_def Let_def
    by (split option.split) (use * in fastforce)
qed

lemma no_panic_branches:
  "(b \<Longrightarrow> fst x \<noteq> Panic) \<Longrightarrow> (\<not> b \<Longrightarrow> fst y \<noteq> Panic) \<Longrightarrow> fst (if b then x else y) \<noteq> Panic"
  "fst z \<noteq> Panic \<Longrightarrow> (\<And>v. fst (f v) \<noteq> Panic) \<Longrightarrow> fst (case opt of None \<Rightarrow> z | Some v \<Rightarrow> f v) \<noteq> Panic"
  "fst z \<noteq> Panic \<Longrightarrow> (\<And>v. fst (g v) \<noteq> Panic) \<Longrightarrow>
     fst (case xs of [] \<Rightarrow> z | [v] \<Rightarrow> g v | v # w # ws \<Rightarrow> z) \<noteq> Panic"
  "r \<noteq> Panic \<Longrightarrow> (\<And>e. fst (h e) \<noteq> Panic) \<Longrightarrow> fst z \<noteq> Panic \<Longrightarrow> (\<And>v. fst (f v) \<noteq> Panic) \<Longrightarrow>
     fst (case r of Ok None \<Rightarrow> z | Ok (Some v) \<Rightarrow> f v | Err e \<Rightarrow> h e | Panic \<Rightarrow> y) \<noteq> Panic"
  by (auto split: option.split list.split outcome.split)

lemma evaluate_tachometer_sample_no_panic:
  assumes "calibration_anchors_ok e"
  shows "fst (evaluate_tachometer_sample t commands rbs fan e state) \<noteq> Panic"
  unfolding evaluate_tachometer_sample_def prod.case Let_def
  by (intro no_panic_branches interpolation_no_panic [OF assms]) simp_all

lemma evaluate_fan_returns:
  assumes "calibration_anchors_ok e" shows "\<exists>r. evaluate_fan rec t e fan state = Ok r"
proof -
  obtain r st where "evaluate_tachometer_sample t (er_commands rec) (er_readbacks rec) fan e state = (r, st)"
    by (rule prod.exhaust)
  with evaluate_tachometer_sample_no_panic [OF assms, of t "er_commands rec" "er_readbacks rec" fan state]
  show ?thesis by (cases r) (simp_all add: evaluate_fan_def)
qed

lemma evaluate_samples_returns:
  assumes "calibration_anchors_ok c" "calibration_anchors_ok g"
  shows "\<exists>r. evaluate_samples rec c g samples state = Ok r"
proof (induction samples arbitrary: state)
  case (Cons x xs)
  obtain cs gs where "evaluate_fan rec (ts_timestamp x) c EvidenceCpu (tes_cpu state) = Ok cs"
    "evaluate_fan rec (ts_timestamp x) g EvidenceGpu (tes_gpu state) = Ok gs"
    using evaluate_fan_returns assms by metis
  then show ?case using Cons.IH by (cases cs; cases gs) simp_all
qed simp

lemma validated_anchors:
  assumes "is_v2 rec" "validate_calibrations rec = Ok ()" "e \<in> set (er_calibration rec)"
  shows "calibration_anchors_ok e"
proof -
  have "check_each (validate_calibration rec) 0 (er_calibration rec) = Ok ()"
    using assms(2) by (simp add: validate_calibrations_def)
  from check_each_in [OF this assms(3)] obtain j where j: "validate_calibration rec j e = Ok ()" ..
  then obtain s where s: "reachable_session s" "fc_evidence s = Some e"
    using j unfolding calibration_accepted [OF assms(1)] by blast
  show ?thesis by (rule measured_anchors_ok(1) [OF session_evidence_shape(4,5) [OF s]])
qed

lemma stage_evidence_no_panic:
  assumes "validate_calibrations rec = Ok ()"
  shows "validate_stage_evidence L rec \<noteq> Panic"
proof -
  have "\<exists>b. matched_workload_is_complete rec = Ok b" if v2: "is_v2 rec"
  proof -
    have ok: "calibration_anchors_ok e" if "calibration_of rec fan = Some e" for fan e
      using that unfolding calibration_of_def by (rule validated_anchors [OF v2 assms find_member])
    have "\<exists>b. matched_workload_matches_calibration_evidence rec c g = Ok b"
      if "calibration_of rec EvidenceCpu = Some c" "calibration_of rec EvidenceGpu = Some g" for c g
      unfolding matched_workload_matches_calibration_evidence_def
      using evaluate_samples_returns [OF ok [OF that(1)] ok [OF that(2)],
          of rec "er_samples rec" "\<lparr>tes_cpu = None, tes_gpu = None\<rparr>"]
      by (elim exE) simp
    then have "\<exists>b. matched_workload_matches_embedded_calibrations rec = Ok b"
      by (auto simp: matched_workload_matches_embedded_calibrations_def split: option.split)
    then show ?thesis by (auto simp: matched_workload_is_complete_def split: option.split)
  qed
  then show ?thesis
    by (auto simp: validate_stage_evidence_def stage_evidence_is_complete_def stage_is_def split: outcome.splits)
qed

lemma record_validation_returns: "validate_record L rec \<noteq> Panic"
proof -
  have "validate_stage_evidence L rec = Panic \<longrightarrow> validate_calibrations rec \<noteq> Ok ()"
    using stage_evidence_no_panic by blast
  then show ?thesis by (auto simp: validate_record_def split: option.split)
qed

section \<open>The claim of Firmware Auto\<close>

lemma max_by_key_Some:
  assumes "max_by_key key xs = Some x"
  shows "x \<in> set xs" "\<forall>y \<in> set xs. key y \<le> key x"
proof -
  have "x \<in> set xs \<and> (\<forall>y \<in> set xs. key y \<le> key x)" using assms
  proof (induction xs arbitrary: x)
    case (Cons v xs)
    show ?case
    proof (cases "max_by_key key xs")
      case None
      then have "xs = []" by (cases xs) (auto split: option.splits if_splits)
      with Cons.prems show ?thesis by simp
    next
      case (Some y)
      with Cons.IH [OF Some] Cons.prems show ?thesis by (auto split: if_splits)
    qed
  qed simp
  then show "x \<in> set xs" "\<forall>y \<in> set xs. key y \<le> key x" by simp_all
qed

lemma list_maximum_bound:
  "x \<in> set xs \<Longrightarrow> \<exists>m. list_maximum xs = Some m \<and> x \<le> m"
  by (auto simp: list_maximum_def)

definition record_reads_auto :: "'c evidence_record \<Rightarrow> evidence_fan \<Rightarrow> bool" where
  "record_reads_auto rec fan \<longleftrightarrow>
     (\<exists>rb \<in> set (er_readbacks rec). rb_fan rb = fan \<and> rb_field rb = ReadbackEnable
        \<and> rb_value rb = Some 2 \<and> rb_outcome rb = ObsConfirmed
        \<and> (er_stage rec \<noteq> ''live-lifecycle'' \<longrightarrow>
             (\<forall>rb' \<in> set (er_readbacks rec). rb_fan rb' = fan \<longrightarrow> rb_field rb' = ReadbackEnable \<longrightarrow>
                monotonic_millis (rb_timestamp rb') \<le> monotonic_millis (rb_timestamp rb))))"

definition restored_after_commands :: "'c evidence_record \<Rightarrow> evidence_fan \<Rightarrow> bool" where
  "restored_after_commands rec fan \<longleftrightarrow>
     (\<exists>a \<in> set (er_restoration_attempts rec). ra_fan a = fan
        \<and> ra_auto_write_succeeded a \<and> ra_enable_readback a = Some 2 \<and> ra_outcome a = FirmwareAutoConfirmed
        \<and> (\<forall>c \<in> set (er_commands rec). cmd_fan c = fan \<longrightarrow>
             monotonic_millis (cmd_timestamp c) < monotonic_millis (ra_timestamp a))
        \<and> (\<forall>a' \<in> set (er_restoration_attempts rec). ra_fan a' = fan \<longrightarrow>
             monotonic_millis (ra_timestamp a') \<le> monotonic_millis (ra_timestamp a)))"

definition ends_in_firmware_auto :: "'c evidence_record \<Rightarrow> bool" where
  "ends_in_firmware_auto rec \<longleftrightarrow>
     (\<exists>t \<in> set (er_state_transitions rec). st_to t = ''firmware-auto''
        \<and> (\<forall>t' \<in> set (er_state_transitions rec).
             monotonic_millis (st_timestamp t') \<le> monotonic_millis (st_timestamp t))
        \<and> (\<forall>a \<in> set (er_restoration_attempts rec).
             monotonic_millis (ra_timestamp a) \<le> monotonic_millis (st_timestamp t)))"

lemma final_readback:
  assumes "final_enable_readback_confirms_auto rec fan" shows "record_reads_auto rec fan"
proof -
  let ?m = "filter (\<lambda>rb. rb_fan rb = fan \<and> rb_field rb = ReadbackEnable) (er_readbacks rec)"
  from assms obtain rb where rb: "final_enable_readback rec fan = Some rb" "rb_value rb = Some 2" "rb_outcome rb = ObsConfirmed"
    by (auto simp: final_enable_readback_confirms_auto_def option_is_def split: option.splits)
  show ?thesis
  proof (cases "er_stage rec = ''live-lifecycle''")
    case True
    then have "?m \<noteq> []" "rb = last ?m"
      using rb(1) by (auto simp: final_enable_readback_def Let_def list_last_def split: if_splits)
    then have "rb \<in> set ?m" by (simp only: last_in_set not_False_eq_True)
    with True rb show ?thesis by (auto simp: record_reads_auto_def)
  next
    case False
    then have "max_by_key (\<lambda>rb. monotonic_millis (rb_timestamp rb)) ?m = Some rb"
      using rb(1) by (simp add: final_enable_readback_def)
    from max_by_key_Some [OF this] rb show ?thesis by (auto simp: record_reads_auto_def)
  qed
qed

lemma final_restoration:
  assumes "final_restoration_confirms_auto rec fan" shows "restored_after_commands rec fan"
proof -
  let ?cs = "map (\<lambda>c. monotonic_millis (cmd_timestamp c)) (filter (\<lambda>c. cmd_fan c = fan) (er_commands rec))"
  from assms obtain a where a: "final_restoration_attempt_after_command rec fan = Some a"
    "ra_auto_write_succeeded a" "ra_enable_readback a = Some 2" "ra_outcome a = FirmwareAutoConfirmed"
    by (auto simp: final_restoration_confirms_auto_def option_is_def split: option.splits)
  then have m: "max_by_key (\<lambda>a. monotonic_millis (ra_timestamp a))
      (filter (\<lambda>a. ra_fan a = fan) (er_restoration_attempts rec)) = Some a"
    and l: "\<And>k. list_maximum ?cs = Some k \<Longrightarrow> k < monotonic_millis (ra_timestamp a)"
    by (auto simp: final_restoration_attempt_after_command_def Let_def split: option.splits if_splits)
  have "monotonic_millis (cmd_timestamp c) < monotonic_millis (ra_timestamp a)"
    if "c \<in> set (er_commands rec)" "cmd_fan c = fan" for c
  proof -
    have "monotonic_millis (cmd_timestamp c) \<in> set ?cs" using that by auto
    from list_maximum_bound [OF this] l show ?thesis by (metis order.strict_trans1)
  qed
  with max_by_key_Some [OF m] a show ?thesis by (auto simp: restored_after_commands_def)
qed

lemma final_state:
  assumes "final_state_confirms_auto rec" shows "ends_in_firmware_auto rec"
proof -
  let ?as = "map (\<lambda>a. monotonic_millis (ra_timestamp a)) (er_restoration_attempts rec)"
  from assms obtain t where t: "last_transition rec = Some t" "st_to t = ''firmware-auto''"
    "\<And>k. list_maximum ?as = Some k \<Longrightarrow> k \<le> monotonic_millis (st_timestamp t)"
    by (auto simp: final_state_confirms_auto_def final_state_follows_restoration_def Let_def option_is_def
        split: option.splits)
  have "monotonic_millis (ra_timestamp a) \<le> monotonic_millis (st_timestamp t)"
    if "a \<in> set (er_restoration_attempts rec)" for a
  proof -
    have "monotonic_millis (ra_timestamp a) \<in> set ?as" using that by auto
    from list_maximum_bound [OF this] t(3) show ?thesis by (metis order.trans)
  qed
  with max_by_key_Some [OF t(1) [unfolded last_transition_def]] t(2) show ?thesis
    by (auto simp: ends_in_firmware_auto_def)
qed

lemma auto_claim:
  assumes "validate_record L rec = Ok ()"
  shows "(status_is Passed rec \<longrightarrow> ro_final_firmware_auto_confirmed (er_outcome rec))
    \<and> (ro_final_firmware_auto_confirmed (er_outcome rec) \<longrightarrow>
         (if er_commands rec = [] then \<forall>fan. record_reads_auto rec fan
          else (\<forall>c \<in> set (er_commands rec). restored_after_commands rec (cmd_fan c))
               \<and> ends_in_firmware_auto rec))"
proof -
  have v: "validate_restoration rec = Ok ()" using assms by (simp add: validate_record_def)
  have p: "status_is Passed rec \<longrightarrow> ro_final_firmware_auto_confirmed (er_outcome rec)"
    and c: "ro_final_firmware_auto_confirmed (er_outcome rec) = final_restoration_is_complete rec"
    using v by (auto simp: validate_restoration_def)
  have "if er_commands rec = [] then \<forall>fan. record_reads_auto rec fan
      else (\<forall>c \<in> set (er_commands rec). restored_after_commands rec (cmd_fan c)) \<and> ends_in_firmware_auto rec"
    if f: "final_restoration_is_complete rec"
  proof (cases "er_commands rec = []")
    case True
    with f have "final_enable_readback_confirms_auto rec fan" for fan
      by (cases fan) (simp_all add: final_restoration_is_complete_def)
    with True final_readback show ?thesis by auto
  next
    case False
    have "restored_after_commands rec (cmd_fan c)" if "c \<in> set (er_commands rec)" for c
    proof -
      have "cmd_fan c \<in> set (commanded_fans rec)"
        using that by (cases "cmd_fan c") (auto simp: commanded_fans_def list_ex_iff)
      with f False have "final_restoration_confirms_auto rec (cmd_fan c)"
        by (simp add: final_restoration_is_complete_def list_all_iff)
      then show ?thesis by (rule final_restoration)
    qed
    moreover have "ends_in_firmware_auto rec"
      using f False by (intro final_state) (simp add: final_restoration_is_complete_def)
    ultimately show ?thesis using False by simp
  qed
  with p c show ?thesis by blast
qed

section \<open>Records that witness the properties\<close>

abbreviation run_time :: "u64 \<Rightarrow> evidence_timestamp" where
  "run_time ms \<equiv> \<lparr>monotonic_millis = ms, wall_unix_millis = ucast ms\<rparr>"

definition run_envelope :: qualification_envelope_identity_v1 where
  "run_envelope =
     \<lparr>qei_qualification_record_schema_version = 1, qei_qualification_id = ''q'', qei_policy_version = ''p'',
      qei_protected_policy_sha256 = replicate 64 CHR ''a'', qei_compatibility = qualified_declaration\<rparr>"

text \<open>A run that commanded the CPU fan once, failed, and restored the fan.\<close>

definition failed_run :: "unit evidence_record" where
  "failed_run =
     (complete_v2 run_envelope ''bench'' (run_time 0) (run_time 100)
        \<lparr>ro_status = Failed, ro_reason = ''fault'', ro_another_passing_run_required = True,
         ro_final_firmware_auto_confirmed = True\<rparr>)
     \<lparr>er_commands := [\<lparr>cmd_timestamp = run_time 10, cmd_fan = EvidenceCpu, cmd_field = ControlPwm, cmd_value = 255\<rparr>],
      er_restoration_attempts := [\<lparr>ra_timestamp = run_time 20, ra_fan = EvidenceCpu, ra_auto_write_succeeded = True,
        ra_enable_readback = Some 2, ra_outcome = FirmwareAutoConfirmed\<rparr>],
      er_state_transitions := [\<lparr>st_timestamp = run_time 30, st_boot_id = None, st_from = ''custom-control'',
        st_to = ''firmware-auto''\<rparr>]\<rparr>"

definition no_lifecycle :: "unit lifecycle_rules" where
  "no_lifecycle = \<lparr>post_reboot_boot_id = (\<lambda>_. None), cases_are_well_formed = (\<lambda>_. False),
     lifecycle_is_complete = (\<lambda>_. False)\<rparr>"

lemma failed_run_valid: "validate_record no_lifecycle failed_run = Ok ()"
  by code_simp

text \<open>One sample of a matched workload, with its commands, readbacks and restorations.\<close>

definition one_command :: "evidence_fan \<Rightarrow> fan_command_evidence" where
  "one_command fan = \<lparr>cmd_timestamp = run_time 10, cmd_fan = fan, cmd_field = ControlPwm, cmd_value = 200\<rparr>"

definition one_readback :: "fan_readback_phase \<Rightarrow> fan_readback_field \<Rightarrow> u64 \<Rightarrow> u32 \<Rightarrow> evidence_fan \<Rightarrow> fan_readback_evidence" where
  "one_readback phase field at_ms v fan =
     \<lparr>rb_timestamp = run_time at_ms, rb_source_timestamp = None, rb_fresh = None, rb_boot_id = None, rb_fan = fan,
      rb_field = field, rb_value = Some v,
      rb_endpoint_identity = (case fan of EvidenceCpu \<Rightarrow> ''cpu'' | EvidenceGpu \<Rightarrow> ''gpu''),
      rb_outcome = ObsConfirmed, rb_phase = Some phase\<rparr>"

definition controlled_run :: "unit evidence_record" where
  "controlled_run =
     (complete_v2 run_envelope ''matched-workload'' (run_time 0) (run_time 100)
        \<lparr>ro_status = Passed, ro_reason = ''done'', ro_another_passing_run_required = True,
         ro_final_firmware_auto_confirmed = True\<rparr>)
     \<lparr>er_samples := [\<lparr>ts_timestamp = run_time 0, ts_cpu_millicelsius = None, ts_gpu_millicelsius = None,
        ts_freshness = SampleFresh, ts_external_power = None, ts_selected_profile = None,
        ts_cpu_source_demand_basis_points = None, ts_gpu_source_demand_basis_points = None,
        ts_cpu_utilization_basis_points = None, ts_gpu_utilization_basis_points = None,
        ts_commanded_demand_basis_points = None, ts_cpu_thermal_throttling = None, ts_gpu_thermal_throttling = None\<rparr>],
      er_commands := [one_command EvidenceCpu, one_command EvidenceGpu],
      er_readbacks := concat (map (\<lambda>fan. [one_readback PhSample ReadbackEnable 20 1 fan,
          one_readback PhSample ReadbackPwm 20 200 fan, one_readback PhSample ReadbackRpm 20 3000 fan,
          one_readback PhFinal ReadbackEnable 90 2 fan]) [EvidenceCpu, EvidenceGpu]),
      er_restoration_attempts := map (\<lambda>fan. \<lparr>ra_timestamp = run_time 90, ra_fan = fan,
          ra_auto_write_succeeded = True, ra_enable_readback = Some 2, ra_outcome = FirmwareAutoConfirmed\<rparr>)
        [EvidenceCpu, EvidenceGpu]\<rparr>"

lemma controlled_run_complete: "matched_control_evidence_is_complete controlled_run"
  by (simp add: matched_control_evidence_is_complete_def controlled_run_def complete_v2_def one_command_def
      one_readback_def command_slot_def readback_slot_of_def evidence_sample_index_def word_checked_sub_def
      sample_cadence_jitter_millis_def place_def control_slots_def check_slot_def fan_ends_in_auto_def
      option_is_def Let_def)

section \<open>Properties\<close>


text \<open>
  Claim C22. Accepted calibrations were run. In a record of the second schema, a calibration is accepted
  exactly when some session of the calibration protocol produced it, fan included, its log is bound to the
  commands of the record unless the record is a matched workload, and a calibration record commands its fan.
\<close>

theorem calibration_accepted_iff:
  assumes "is_v2 rec"
  shows "validate_calibration rec index e = Ok () \<longleftrightarrow>
    (\<exists>s. reachable_session s \<and> fc_fan s = fan_of_evidence (fce_fan e) \<and> fc_evidence s = Some e
       \<and> (er_stage rec = ''matched-workload''
            \<or> calibration_checkpoint_is_bound_to_record rec (fce_fan e) (checkpoint s))
       \<and> \<not> (er_stage rec = ''fan-calibration''
             \<and> \<not> list_ex (\<lambda>c. cmd_fan c = fce_fan e) (er_commands rec)))"
  using assms by (rule calibration_accepted)

text \<open>
  Claim C21. A claim of Firmware Auto has evidence. A valid record that passed claims it; one that claims
  it, passed or not, ends, for a run without commands, with confirmed readbacks of Auto on both fans, and
  otherwise with a confirmed restoration after every command of each commanded fan and a last transition
  to Firmware Auto that follows all restorations.
\<close>

theorem validated_auto_claim:
  assumes "validate_record L rec = Ok ()"
  shows "(status_is Passed rec \<longrightarrow> ro_final_firmware_auto_confirmed (er_outcome rec))
    \<and> (ro_final_firmware_auto_confirmed (er_outcome rec) \<longrightarrow>
         (if er_commands rec = [] then \<forall>fan. record_reads_auto rec fan
          else (\<forall>c \<in> set (er_commands rec). restored_after_commands rec (cmd_fan c))
               \<and> ends_in_firmware_auto rec))"
  using assms by (rule auto_claim)

text \<open>
  Claim C23. Complete control evidence covers the run: every sample and fan has exactly one duty command,
  read back after it in Custom mode with the commanded duty and a speed, each field of a fan always from
  one endpoint, every command belongs to a sample, and both fans end restored to Firmware Auto.
\<close>

theorem control_evidence_covers_run:
  assumes "matched_control_evidence_is_complete rec"
  shows "\<exists>endpoint. (\<forall>i < length (er_samples rec). \<forall>fan. sample_is_controlled rec endpoint i fan)
      \<and> (er_samples rec \<noteq> [] \<longrightarrow> (\<forall>fan. fan_is_restored rec (endpoint fan ReadbackEnable) fan))
      \<and> (\<forall>c \<in> set (er_commands rec). cmd_field c = ControlPwm
           \<and> (\<exists>i < length (er_samples rec). evidence_sample_index (er_samples rec) (cmd_timestamp c) = Some i))"
  using assms by (rule control_evidence)

lemma calibration_accepted_iff_witness:
  "\<exists>e. validate_calibration controlled_run 0 e = Ok ()"
proof -
  have r: "reachable_session (calibration_start FanCpu)" by (rule fresh)
  then obtain s where s: "records_to (calibration_start FanCpu) s" "fc_phase s = PhaseComplete"
    using session_finishes [OF r] by (auto simp: calibration_start_def)
  have rs: "reachable_session s" by (rule records_reachable [OF s(1) r])
  with session_evidence [OF rs] s(2) obtain e where e: "fc_evidence s = Some e" by auto
  have v: "is_v2 controlled_run" "er_stage controlled_run = ''matched-workload''"
    by (simp_all add: controlled_run_def complete_v2_def is_v2_def)
  have "validate_calibration controlled_run 0 e = Ok ()"
    unfolding calibration_accepted_iff [OF v(1)]
    using rs e session_evidence_shape(1) [OF rs e] v(2) by (intro exI [of _ s]) simp
  then show ?thesis by blast
qed

lemma validated_auto_claim_witness:
  "ro_final_firmware_auto_confirmed (er_outcome failed_run) \<and> restored_after_commands failed_run EvidenceCpu
     \<and> ends_in_firmware_auto failed_run"
  using validated_auto_claim [OF failed_run_valid] by (simp add: failed_run_def complete_v2_def)

lemma control_evidence_covers_run_witness:
  "\<exists>endpoint. sample_is_controlled controlled_run endpoint 0 EvidenceGpu
     \<and> fan_is_restored controlled_run (endpoint EvidenceGpu ReadbackEnable) EvidenceGpu"
proof -
  have "length (er_samples controlled_run) = 1" by (simp add: controlled_run_def)
  then show ?thesis using control_evidence_covers_run [OF controlled_run_complete] by fastforce
qed

end
