(* ===== verification/Spec2Isabelle.thy ===== *)
theory Spec2Isabelle
  imports Supervision External_Power Coretemp Nvidia_Gpu Production Requalification Calibration_Progress
    Evidence_Contract
begin

text \<open>
  Verification of the controller core of \<open>predator-pt315-53-fan-control\<close>, a daemon that takes the two
  fans of a laptop from its firmware, drives them by temperature curves, and hands them back to
  Firmware Auto on every fault and on shutdown. Source paths below are relative to
  \<open>src/crates/fan-control-core/src/\<close>.

  \<^bold>\<open>How the parts fit together.\<close> The owner (\<open>ownership.rs\<close>) holds the runtime lock and the platform.
  Under it, two consecutive fresh sample sets (\<open>sampling.rs\<close>) and an admitted policy allow the
  handover (\<open>arming.rs\<close>), which stages both maximum duties, enters Custom on both fans and waits for the
  tachometers. Normal control (\<open>control_cycle.rs\<close>) then turns each sample into outputs by curves, smoothing
  and floors (\<open>curve.rs\<close>, \<open>policy.rs\<close>, \<open>output.rs\<close>), writes the duties that changed and validates the
  response (\<open>tachometer.rs\<close>). Every failure goes through restoration and containment (\<open>restoration.rs\<close>).
  Sensor control (\<open>sensor_recovery.rs\<close>) owns this loop with the one automatic recovery the program
  permits, and supervision (\<open>supervision.rs\<close>) reports completed cycles to the service manager. The
  daemon (\<open>fan-control-daemon/src/lib.rs\<close>) puts these together: it validates the texts it is given,
  takes the ownership, has the policy admitted (\<open>authority.rs\<close>), samples twice and arms, runs supervised
  iterations, and at the end cleans up and gives the ownership back. Whether a qualification may be
  reused after a change of the machine is decided in \<open>requalification.rs\<close>. The policy itself comes from
  qualification runs: the fan calibration campaign (\<open>calibration.rs\<close>) measures each fan, and every run
  leaves a record whose validation (\<open>evidence.rs\<close>, with the rules of \<open>matched_workload.rs\<close> and
  \<open>endurance.rs\<close>) decides whether it counts.

  \<^bold>\<open>Theories and sources.\<close>
  \<^item> \<open>Prelude\<close>: outcomes of fallible code, the state-passing combinators and their weakest
    preconditions, durations, machine integers, strings and paths. \<open>Divergence\<close>: code that may not
    return, with triples and write scripts on top.
  \<^item> \<open>F64\<close>: IEEE binary64 arithmetic on rationals with round-to-even. \<open>Demand\<close>: \<open>demand.rs\<close> and
    \<open>curve.rs\<close>. \<open>Policy\<close>: \<open>policy.rs\<close>. \<open>Config\<close>: \<open>config.rs\<close> and \<open>validation.rs\<close>. \<open>Output\<close>:
    \<open>output.rs\<close> and the protected envelope. \<open>Tachometer\<close>: \<open>tachometer.rs\<close>.
  \<^item> \<open>Platform\<close>: the platform traits of \<open>platform.rs\<close> as a record of operations, and the events of
    \<open>diagnostics.rs\<close>. \<open>World\<close>: the state the controller works on, with the shutdown latch of
    \<open>termination.rs\<close>. \<open>Interface\<close>: what the controller relies on from a platform, as the locales
    \<open>guarded_writes\<close>, \<open>fan_platform\<close> and \<open>timely_platform\<close>. \<open>Fake\<close>: the scripted platform of
    \<open>platform.rs\<close>, on which every interface is interpreted.
  \<^item> \<open>Hwmon\<close>: \<open>acer_hwmon.rs\<close>. \<open>Restoration\<close>, \<open>Restoration_Contract\<close>: \<open>restoration.rs\<close>. \<open>Sampling\<close>:
    \<open>sampling.rs\<close>. \<open>Ownership\<close>: \<open>ownership.rs\<close>. \<open>Compatibility\<close>: \<open>compatibility.rs\<close>.
  \<^item> \<open>Arming\<close>, \<open>Arming_Contract\<close>: \<open>arming.rs\<close> and the part of \<open>authority.rs\<close> it uses; the locale
    \<open>ticking_platform\<close> adds that a delay lets time pass.
  \<^item> \<open>Control_Cycle\<close>, \<open>Control_Contract\<close>, \<open>Control_Properties\<close>: \<open>control_cycle.rs\<close>.
  \<^item> \<open>Sensor_Recovery\<close>: \<open>sensor_recovery.rs\<close>. \<open>Recovery_Trace\<close>: the transitions a step reports, as a
    refinement of two abstract machines (locale \<open>world_observer\<close>). \<open>Recovery_Contract\<close>,
    \<open>Recovery_Properties\<close>: the invariant of a step and of every reachable state.
  \<^item> \<open>Supervision\<close>: \<open>supervision.rs\<close> (locale \<open>notification_log\<close>).
  \<^item> \<open>Authority\<close>: \<open>authority.rs\<close> with the record types of \<open>qualification.rs\<close> and \<open>evidence.rs\<close> (locale
    \<open>qualification_store\<close>). \<open>Startup\<close>, \<open>Startup_Contract\<close>: \<open>qualified_startup\<close> of the daemon (locale
    \<open>startup_platform\<close>). \<open>Production\<close>: \<open>run_production_control_loop\<close> of the daemon (locale
    \<open>blind_observer\<close>). \<open>Requalification\<close>: \<open>requalification.rs\<close>.
  \<^item> \<open>Calibration\<close>: the session of \<open>calibration.rs\<close>. \<open>Calibration_Contract\<close>: the invariant of a session
    and of its replay from a checkpoint. \<open>Calibration_Progress\<close>: that a session can be finished, and its
    properties.
  \<^item> \<open>Evidence_Types\<close>: the records of \<open>evidence.rs\<close>, the small checks and the thermal summary.
    \<open>Evidence_Baseline\<close>, \<open>Evidence_Workload\<close>, \<open>Evidence_Endurance\<close>: what the record of each kind of run
    must show (\<open>evidence.rs\<close>, \<open>matched_workload.rs\<close>, \<open>endurance.rs\<close>). \<open>Evidence\<close>:
    \<open>EvidenceRecord::validate\<close>. \<open>Evidence_Contract\<close>: what a valid record says.
  \<^item> \<open>Sensor_Files\<close>: what the sensor code relies on from its file access (locale \<open>sensor_files\<close>).
    \<open>External_Power\<close>: \<open>external_power.rs\<close>. \<open>Coretemp\<close>: \<open>coretemp.rs\<close>. \<open>Nvidia_Gpu\<close>: \<open>nvidia_gpu.rs\<close>.

  \<^bold>\<open>State and operations.\<close> A Rust function that mutates its arguments is a function from a state to an
  outcome and the new state: \<open>Ok\<close>, \<open>Err\<close> with the code's error, or \<open>Panic\<close> for an \<open>expect\<close> or an
  exhausted counter. \<open>world\<close> has the platform, the sources in use, the shutdown latch, the journal of
  emitted events, and the fields of \<open>ControllerOwnership\<close>; an object borrowed mutably beside it is the
  first component of a pair. Machine integers keep their width; a \<open>Duration\<close> is its nanoseconds with the
  bound of the type in every addition.

  \<^bold>\<open>What the lemmas show.\<close>
  \<^item> The demand never falls when a temperature rises, is never undercut by smoothing, and at the hot end
    of a curve both fans run at their maximum; validation and the envelope check accept exactly what
    they document.
  \<^item> Restoration and containment write nothing but Firmware Auto and the maximum duty, a bounded number
    of times within two seconds, and report what the files hold; the recovery loop returns only in
    Firmware Auto.
  \<^item> The runtime lock is released only in Firmware Auto. A handover starts only from a fresh sample of the
    owner's current epoch under an admitted policy, writes in a fixed order, returns, and on failure has
    restored Firmware Auto or says that it could not.
  \<^item> A completed cycle leaves both fans in Custom at outputs that meet the demand; a failed one latches.
  \<^item> In every reachable state of sensor control a recovery holds both fans in Firmware Auto, and the
    service manager hears only of completed cycles.
  \<^item> A policy is admitted only when the manifest, the record, the machine and the endurance run agree. The
    daemon's startup reaches Custom only through all its checks, and both its failures and the end of
    its loop give the lock back only in Firmware Auto.
  \<^item> A qualification is reused exactly when it still stands, and after a rebuild exactly with all
    abbreviated checks passed.
  \<^item> The sensor sources never panic and fail closed.
  \<^item> A calibration session never panics and fails for good at its first fault; the evidence of a complete
    one is what its whole protocol measured, its checkpoint restores it, and a steady fan completes it.
  \<^item> Validating a record never panics. A valid one claims Firmware Auto only with the readbacks,
    restorations and transition that back it, accepts exactly the calibrations that a session of the
    protocol produced, and complete control evidence covers every sample and fan.

  \<^bold>\<open>Loops and bounds.\<close> Loops over data are structural recursion. The recovery loop of \<open>restoration.rs\<close> and
  the tachometer wait of \<open>arming.rs\<close> have no bound of their own: they are partial functions into
  \<open>option\<close>, and that they return is proved, for the wait on every platform whose delay lets time pass, for
  the recovery loop after every finite script of transient faults. The daemon's production loop is the
  third: where it does not return, it completes any number of iterations or waits for the recovery. The epoch and gate counters are
  64-bit words whose exhaustion is a panic; the lemmas ask for room for the few increments of one call.

  \<^bold>\<open>Parameters.\<close> The operating-system platform, the daemon's sample sources and source discovery, the NVML
  library, the TOML, JSON and SHA-256 libraries, the reader of the endurance evidence, the notification
  socket and the process environment are arguments of the definitions, and so are, in the validation of a
  record, the rules for live lifecycle cases, about which nothing is assumed; what
  the properties rely on is named in the locales and in \<open>passive_sources\<close>, \<open>typed_sources\<close>,
  \<open>passive_discovery\<close> and \<open>datagram_socket\<close>, each of which holds of a concrete instance.

  \<^bold>\<open>Simplifications.\<close> A binary64 has one zero and one NaN, which no code here tells apart. Strings are lists
  of code points below 256, paths lists of normal components. Signals that may arrive at each poll of the
  shutdown latch are a script in the world. The latch's mutex is never poisoned. The acceptance-test
  feature of the crate is off. Display implementations of errors are left out; where the daemon stores
  the text of a reason, the model stores the reason. An ownership that is dropped after a failed release
  is not modelled.

  \<^bold>\<open>Not modelled.\<close> The operating-system implementation of the platform and the daemon's process wiring are
  system calls around the modelled code. Of the qualification runs, the loops that drive the machine
  (\<open>run_firmware_auto_baseline\<close>, \<open>run_matched_custom_workload\<close>, \<open>run_supervised_endurance\<close>), their plans,
  the live lifecycle campaign with its rules, the preflight, the promotion of a policy, and the parsing,
  hashing and atomic publication of records are left out; they decide which policy is shipped, not how a
  running controller behaves. Nor are the command-line tools modelled.
\<close>

end
